(* ===== verification/GoPrelude.thy ===== *)
theory GoPrelude
  imports Complex_Main "HOL-Library.Word" "HOL-Library.Sublist" "HOL-Library.Char_ord"
    "HOL-Library.List_Lexorder"
begin

text \<open>
  Shared vocabulary of the development: the parts of the Go language and of its standard
  library that the gateway's sources use. Strings are byte sequences (\<open>string\<close>), a
  \<open>time.Time\<close> is the number of nanoseconds since Go's zero time (so \<open>IsZero\<close> is equality
  with 0), a \<open>time.Duration\<close> is an \<open>int64\<close> number of nanoseconds, kept as \<open>int\<close> with the
  saturation of \<open>Time.Sub\<close> written out; \<open>uint64\<close> counters are \<open>64 word\<close> and wrap.
  \<open>strings.TrimSpace\<close>, \<open>strings.ToLower\<close>, \<open>strings.Contains\<close> and the digit parser of
  \<open>strconv.ParseUint\<close> are defined on bytes; \<open>float64\<close> arithmetic is exact arithmetic
  followed by rounding to 53 significant bits.
\<close>

named_theorems go_simps \<open>unfolding rules of the Go library model\<close>
named_theorems config_defs \<open>configuration validators and their constants\<close>

section \<open>Machine integers, times and durations\<close>

type_synonym time = int
type_synonym duration = int
type_synonym uint64 = "64 word"

definition int64_max :: int where "int64_max = 9223372036854775807"
definition int64_min :: int where "int64_min = - 9223372036854775808"

definition is_int64 :: "int \<Rightarrow> bool" where
  "is_int64 x \<longleftrightarrow> int64_min \<le> x \<and> x \<le> int64_max"

definition wrap_int64 :: "int \<Rightarrow> int" where
  "wrap_int64 x = (x + 9223372036854775808) mod 18446744073709551616 - 9223372036854775808"

text \<open>\<open>Time.Sub\<close> saturates to the extreme durations.\<close>

definition time_sub :: "time \<Rightarrow> time \<Rightarrow> duration" where
  "time_sub a b = max int64_min (min int64_max (a - b))"

definition nanosecond :: duration where "nanosecond = 1"
definition millisecond :: duration where "millisecond = 1000000"
definition second :: duration where "second = 1000000000"
definition minute :: duration where "minute = 60000000000"
definition hour :: duration where "hour = 3600000000000"

lemmas duration_defs [config_defs] =
  nanosecond_def millisecond_def second_def minute_def hour_def

lemmas int64_defs = is_int64_def int64_min_def int64_max_def

lemma wrap_int64_range: "is_int64 (wrap_int64 x)"
proof -
  have "0 \<le> (x + 9223372036854775808) mod 18446744073709551616"
    and "(x + 9223372036854775808) mod 18446744073709551616 < (18446744073709551616::int)"
    by simp_all
  then show ?thesis unfolding wrap_int64_def int64_defs by linarith
qed

lemma wrap_int64_id: "is_int64 x \<Longrightarrow> wrap_int64 x = x"
  by (simp add: wrap_int64_def int64_defs)

lemma time_sub_exact: "is_int64 (a - b) \<Longrightarrow> time_sub a b = a - b"
  by (simp add: time_sub_def int64_defs)

lemma time_sub_nonneg: "b \<le> a \<Longrightarrow> 0 \<le> time_sub a b"
  by (simp add: time_sub_def int64_defs)

lemma time_sub_pos: "b < a \<Longrightarrow> 0 < time_sub a b"
  by (simp add: time_sub_def int64_defs)

lemma time_sub_le: "b \<le> a \<Longrightarrow> time_sub a b \<le> a - b"
  by (simp add: time_sub_def int64_defs)

section \<open>Strings\<close>

text \<open>The UTF-8 encodings of the code points \<open>unicode.IsSpace\<close> accepts.\<close>

definition space_runes :: "string list" where
  "space_runes =
    [[CHR 0x09], [CHR 0x0A], [CHR 0x0B], [CHR 0x0C], [CHR 0x0D], [CHR 0x20],
     [CHR 0xC2, CHR 0x85], [CHR 0xC2, CHR 0xA0], [CHR 0xE1, CHR 0x9A, CHR 0x80],
     [CHR 0xE2, CHR 0x80, CHR 0x80], [CHR 0xE2, CHR 0x80, CHR 0x81],
     [CHR 0xE2, CHR 0x80, CHR 0x82], [CHR 0xE2, CHR 0x80, CHR 0x83],
     [CHR 0xE2, CHR 0x80, CHR 0x84], [CHR 0xE2, CHR 0x80, CHR 0x85],
     [CHR 0xE2, CHR 0x80, CHR 0x86], [CHR 0xE2, CHR 0x80, CHR 0x87],
     [CHR 0xE2, CHR 0x80, CHR 0x88], [CHR 0xE2, CHR 0x80, CHR 0x89],
     [CHR 0xE2, CHR 0x80, CHR 0x8A], [CHR 0xE2, CHR 0x80, CHR 0xA8],
     [CHR 0xE2, CHR 0x80, CHR 0xA9], [CHR 0xE2, CHR 0x80, CHR 0xAF],
     [CHR 0xE2, CHR 0x81, CHR 0x9F], [CHR 0xE3, CHR 0x80, CHR 0x80]]"

definition cut_rune :: "string list \<Rightarrow> string \<Rightarrow> string option" where
  "cut_rune rs s =
     (case find (\<lambda>r. r \<noteq> [] \<and> prefix r s) rs of
        None \<Rightarrow> None
      | Some r \<Rightarrow> Some (drop (length r) s))"

lemma cut_rune_SomeD:
  "cut_rune rs s = Some t \<Longrightarrow> \<exists>r \<in> set rs. r \<noteq> [] \<and> s = r @ t"
  by (force simp: cut_rune_def find_Some_iff prefix_def split: option.splits dest: nth_mem)

lemma cut_rune_None:
  "cut_rune rs s = None \<longleftrightarrow> (\<forall>r \<in> set rs. r \<noteq> [] \<longrightarrow> \<not> prefix r s)"
  by (auto simp: cut_rune_def find_None_iff find_Some_iff split: option.splits)

lemma cut_rune_shorter: "cut_rune rs s = Some t \<Longrightarrow> length t < length s"
  by (auto dest!: cut_rune_SomeD)

function trim_runes :: "string list \<Rightarrow> string \<Rightarrow> string" where
  "trim_runes rs s = (case cut_rune rs s of None \<Rightarrow> s | Some t \<Rightarrow> trim_runes rs t)"
  by pat_completeness auto
termination
  by (relation "measure (\<lambda>(rs, s). length s)") (auto dest: cut_rune_shorter)

declare trim_runes.simps [simp del]

text \<open>
  \<open>strings.TrimSpace\<close>: leading space runes are cut from the front, trailing ones from the
  back. Decoding the last rune of a byte string finds a space rune exactly when the string
  ends with that rune's encoding, so the right side is the left side on reversed bytes.
\<close>

definition trim_space :: "string \<Rightarrow> string" where
  "trim_space s = rev (trim_runes (map rev space_runes) (rev (trim_runes space_runes s)))"

lemma trim_runes_suffix: "suffix (trim_runes rs s) s"
proof (induction rs s rule: trim_runes.induct)
  case (1 rs s)
  show ?case
  proof (cases "cut_rune rs s")
    case None
    then show ?thesis by (simp add: trim_runes.simps [of rs s])
  next
    case (Some t)
    then have "suffix t s" by (auto dest!: cut_rune_SomeD simp: suffix_def)
    with "1.IH" [OF Some] Some show ?thesis
      by (simp add: trim_runes.simps [of rs s] suffix_order.trans)
  qed
qed

lemma cut_rune_trim: "cut_rune rs (trim_runes rs s) = None"
proof (induction rs s rule: trim_runes.induct)
  case (1 rs s)
  then show ?case
    by (cases "cut_rune rs s") (simp_all add: trim_runes.simps [of rs s])
qed

lemma trim_runes_id: "cut_rune rs s = None \<Longrightarrow> trim_runes rs s = s"
  by (simp add: trim_runes.simps [of rs s])

lemma trim_space_idem [simp]: "trim_space (trim_space s) = trim_space s"
proof -
  define t where "t = trim_runes space_runes s"
  define u where "u = trim_runes (map rev space_runes) (rev t)"
  have pre: "prefix (rev u) t"
    using trim_runes_suffix [of "map rev space_runes" "rev t"]
    by (simp add: u_def suffix_to_prefix)
  have "cut_rune space_runes t = None" by (simp add: t_def cut_rune_trim)
  with pre have "cut_rune space_runes (rev u) = None"
    by (auto simp: cut_rune_None intro: prefix_order.trans)
  then have "trim_runes space_runes (rev u) = rev u" by (rule trim_runes_id)
  moreover have "trim_runes (map rev space_runes) u = u"
    by (simp add: u_def trim_runes_id cut_rune_trim)
  moreover have "trim_space s = rev u" by (simp add: trim_space_def t_def u_def)
  ultimately show ?thesis by (simp add: trim_space_def)
qed

lemma trim_space_length: "length (trim_space s) \<le> length s"
  using trim_runes_suffix [of space_runes s]
    trim_runes_suffix [of "map rev space_runes" "rev (trim_runes space_runes s)"]
  by (auto simp: trim_space_def dest!: suffix_length_le)

lemma trim_space_Nil [simp]: "trim_space [] = []"
  using trim_space_length [of "[]"] by simp

text \<open>
  \<open>strings.ToLower\<close>: the ASCII letters, and the two code points outside ASCII whose
  lower-case form is an ASCII letter (U+0130 and U+212A). Every use compares the result
  with ASCII text, so the other code points are left as they are.
\<close>

definition lower_char :: "char \<Rightarrow> char" where
  "lower_char c = (if (65::nat) \<le> of_char c \<and> of_char c \<le> (90::nat)
                   then char_of (of_char c + (32::nat)) else c)"

fun to_lower :: "string \<Rightarrow> string" where
  "to_lower [] = []"
| "to_lower (c # s) =
     (if c = CHR 0xC4 \<and> take 1 s = [CHR 0xB0] then CHR ''i'' # to_lower (drop 1 s)
      else if c = CHR 0xE2 \<and> take 2 s = [CHR 0x84, CHR 0xAA] then CHR ''k'' # to_lower (drop 2 s)
      else lower_char c # to_lower s)"

definition contains_str :: "string \<Rightarrow> string \<Rightarrow> bool" where
  "contains_str s sub \<longleftrightarrow> sublist sub s"

definition is_digit_char :: "char \<Rightarrow> bool" where
  "is_digit_char c \<longleftrightarrow> (48::nat) \<le> of_char c \<and> of_char c \<le> (57::nat)"

definition is_lower_char :: "char \<Rightarrow> bool" where
  "is_lower_char c \<longleftrightarrow> (97::nat) \<le> of_char c \<and> of_char c \<le> (122::nat)"

definition is_upper_char :: "char \<Rightarrow> bool" where
  "is_upper_char c \<longleftrightarrow> (65::nat) \<le> of_char c \<and> of_char c \<le> (90::nat)"

fun digits_value :: "nat \<Rightarrow> string \<Rightarrow> nat" where
  "digits_value acc [] = acc"
| "digits_value acc (c # s) = digits_value (10 * acc + (of_char c - 48)) s"

text \<open>\<open>strconv.ParseUint(raw, 10, 64)\<close> on a string of digits: \<open>None\<close> is the range error.\<close>

definition parse_uint64 :: "string \<Rightarrow> nat option" where
  "parse_uint64 s = (let n = digits_value 0 s in if n < 2 ^ 64 then Some n else None)"

section \<open>Counting list entries\<close>

lemma count_update:
  assumes "i < length xs"
  shows "int (length (filter P (xs[i := y]))) =
    int (length (filter P xs)) - (if P (xs ! i) then 1 else 0) + (if P y then 1 else 0)"
proof -
  have xs: "xs = take i xs @ xs ! i # drop (Suc i) xs" using assms by (rule id_take_nth_drop)
  have "length (filter P (xs[i := y])) =
      length (filter P (take i xs)) + (if P y then 1 else 0) + length (filter P (drop (Suc i) xs))"
    using assms by (simp add: upd_conv_take_nth_drop)
  moreover have "length (filter P xs) =
      length (filter P (take i xs)) + (if P (xs ! i) then 1 else 0) + length (filter P (drop (Suc i) xs))"
    by (subst xs) simp
  ultimately show ?thesis by simp
qed

text \<open>A \<open>uint64\<close> counter below its maximum counts on.\<close>

lemma unat_suc: "unat (g :: uint64) < 2 ^ 64 - 1 \<Longrightarrow> unat (g + 1) = unat g + 1"
  by (simp add: unat_word_ariths)

end
