(* ===== verification/Failure.thy ===== *)
theory Failure
  imports GoPrelude
begin

text \<open>
  Upstream failures and their classification: \<open>internal/reliability/failure.go\<close>, with the
  sentinel errors and \<open>HTTPError\<close> of \<open>internal/provider/errors.go\<close> and the attempt record
  of \<open>attempt.go\<close> that a failure carries. A Go error value is the tree its \<open>Unwrap\<close>
  methods span; \<open>errors.Is\<close> and \<open>errors.As\<close> walk it depth first. The results decide
  retry, key switch, fallback and breaker accounting in every later theory.
\<close>

section \<open>Data\<close>

datatype category =
    CategoryEmpty \<comment> \<open>the zero value\<close>
  | CategoryLocalValidation | CategoryKeyUnauthorized | CategoryKeyForbidden
  | CategoryUpstreamRateLimit | CategoryUpstream4xx | CategoryModelUnavailable
  | CategoryUpstream5xx | CategoryUpstreamProtocol | CategoryUnsupportedCapability
  | CategoryUnsupportedResponse | CategoryNetwork | CategoryTimeout
  | CategoryKeyExhausted | CategoryQueue | CategoryBreaker | CategoryCanceled

datatype timeout_scope = TimeoutEmpty | TimeoutUpstream | TimeoutRequestBudget

datatype queue_reason = QueueEmpty | QueueFull | QueueWaitTimeout | QueueUnknownProvider

record attempt_record =
  arProviderID :: string
  arUpstreamModel :: string
  arKeyID :: string
  arCandidate :: int
  arAttempt :: int
  arDuration :: duration
  arCategory :: category
  arStatusCode :: int

record http_error =
  heStatusCode :: int
  heRetryAfter :: string
  heCode :: string

text \<open>What an adapter is asked: the request, its id and the model of the route (\<open>internal/provider/adapter.go\<close>).\<close>

record 'req chat_input =
  ciRequestID :: string
  ciRequest :: 'req
  ciModelOverride :: string

datatype sentinel =
    ContextCanceled | ContextDeadlineExceeded | IoEOF
  | ErrUnknownProvider | ErrInvalidRequest | ErrUnsupportedCapability
  | ErrUnsupportedResponse | ErrInvalidResponse | ErrInvalidStream | ErrResponseTooLarge
  | ErrUnknownBreakerProvider | ErrNoRoute | ErrCapabilityUnavailable

datatype goerr =
    ErrNew string
  | ErrSentinel sentinel
  | ErrHTTP http_error
  | ErrFailure failure
  | ErrWrap "goerr list"
and failure =
  Failure (fCategory: category) (fProviderID: string) (fKeyID: string) (fCandidate: int)
    (fAttempt: int) (fTotalAttempts: int) (fFallbacks: int) (fStatusCode: int)
    (fTimeout: timeout_scope) (fQueue: queue_reason) (fRetryAfter: duration)
    (fRetryAfterSet: bool) (fTrail: "attempt_record list") (fCause: "goerr option")

text \<open>The composite literal \<open>&Failure{}\<close> and assignments to single fields.\<close>

definition failure_zero :: failure where
  "failure_zero = Failure CategoryEmpty [] [] 0 0 0 0 0 TimeoutEmpty QueueEmpty 0 False [] None"

fun set_category :: "category \<Rightarrow> failure \<Rightarrow> failure" where
  "set_category x (Failure c p k cd a ta fb st to q ra rs tr cs) = Failure x p k cd a ta fb st to q ra rs tr cs"
fun set_provider :: "string \<Rightarrow> failure \<Rightarrow> failure" where
  "set_provider x (Failure c p k cd a ta fb st to q ra rs tr cs) = Failure c x k cd a ta fb st to q ra rs tr cs"
fun set_key :: "string \<Rightarrow> failure \<Rightarrow> failure" where
  "set_key x (Failure c p k cd a ta fb st to q ra rs tr cs) = Failure c p x cd a ta fb st to q ra rs tr cs"
fun set_candidate :: "int \<Rightarrow> failure \<Rightarrow> failure" where
  "set_candidate x (Failure c p k cd a ta fb st to q ra rs tr cs) = Failure c p k x a ta fb st to q ra rs tr cs"
fun set_attempt :: "int \<Rightarrow> failure \<Rightarrow> failure" where
  "set_attempt x (Failure c p k cd a ta fb st to q ra rs tr cs) = Failure c p k cd x ta fb st to q ra rs tr cs"
fun set_total_attempts :: "int \<Rightarrow> failure \<Rightarrow> failure" where
  "set_total_attempts x (Failure c p k cd a ta fb st to q ra rs tr cs) = Failure c p k cd a x fb st to q ra rs tr cs"
fun set_fallbacks :: "int \<Rightarrow> failure \<Rightarrow> failure" where
  "set_fallbacks x (Failure c p k cd a ta fb st to q ra rs tr cs) = Failure c p k cd a ta x st to q ra rs tr cs"
fun set_status :: "int \<Rightarrow> failure \<Rightarrow> failure" where
  "set_status x (Failure c p k cd a ta fb st to q ra rs tr cs) = Failure c p k cd a ta fb x to q ra rs tr cs"
fun set_timeout :: "timeout_scope \<Rightarrow> failure \<Rightarrow> failure" where
  "set_timeout x (Failure c p k cd a ta fb st to q ra rs tr cs) = Failure c p k cd a ta fb st x q ra rs tr cs"
fun set_queue :: "queue_reason \<Rightarrow> failure \<Rightarrow> failure" where
  "set_queue x (Failure c p k cd a ta fb st to q ra rs tr cs) = Failure c p k cd a ta fb st to x ra rs tr cs"
fun set_retry_after :: "duration \<Rightarrow> failure \<Rightarrow> failure" where
  "set_retry_after x (Failure c p k cd a ta fb st to q ra rs tr cs) = Failure c p k cd a ta fb st to q x rs tr cs"
fun set_retry_after_set :: "bool \<Rightarrow> failure \<Rightarrow> failure" where
  "set_retry_after_set x (Failure c p k cd a ta fb st to q ra rs tr cs) = Failure c p k cd a ta fb st to q ra x tr cs"
fun set_trail :: "attempt_record list \<Rightarrow> failure \<Rightarrow> failure" where
  "set_trail x (Failure c p k cd a ta fb st to q ra rs tr cs) = Failure c p k cd a ta fb st to q ra rs x cs"
fun set_cause :: "goerr option \<Rightarrow> failure \<Rightarrow> failure" where
  "set_cause x (Failure c p k cd a ta fb st to q ra rs tr cs) = Failure c p k cd a ta fb st to q ra rs tr x"

section \<open>Error chains\<close>

fun errors_is :: "goerr \<Rightarrow> sentinel \<Rightarrow> bool" where
  "errors_is (ErrNew m) s \<longleftrightarrow> False"
| "errors_is (ErrSentinel t) s \<longleftrightarrow> t = s"
| "errors_is (ErrHTTP h) s \<longleftrightarrow> False"
| "errors_is (ErrFailure (Failure c p k cd a ta fb st to q ra rs tr None)) s \<longleftrightarrow> False"
| "errors_is (ErrFailure (Failure c p k cd a ta fb st to q ra rs tr (Some e))) s \<longleftrightarrow> errors_is e s"
| "errors_is (ErrWrap es) s \<longleftrightarrow> list_ex (\<lambda>e. errors_is e s) es"

text \<open>\<open>errors.Is\<close> on an error that may be nil.\<close>

definition errors_is_opt :: "goerr option \<Rightarrow> sentinel \<Rightarrow> bool" where
  "errors_is_opt e s = (case e of None \<Rightarrow> False | Some x \<Rightarrow> errors_is x s)"

fun as_failure :: "goerr \<Rightarrow> failure option" and as_failure_list :: "goerr list \<Rightarrow> failure option" where
  "as_failure (ErrNew m) = None"
| "as_failure (ErrSentinel t) = None"
| "as_failure (ErrHTTP h) = None"
| "as_failure (ErrFailure f) = Some f"
| "as_failure (ErrWrap es) = as_failure_list es"
| "as_failure_list [] = None"
| "as_failure_list (e # es) = (case as_failure e of None \<Rightarrow> as_failure_list es | Some f \<Rightarrow> Some f)"

fun as_http :: "goerr \<Rightarrow> http_error option" and as_http_list :: "goerr list \<Rightarrow> http_error option" where
  "as_http (ErrNew m) = None"
| "as_http (ErrSentinel t) = None"
| "as_http (ErrHTTP h) = Some h"
| "as_http (ErrFailure (Failure c p k cd a ta fb st to q ra rs tr None)) = None"
| "as_http (ErrFailure (Failure c p k cd a ta fb st to q ra rs tr (Some e))) = as_http e"
| "as_http (ErrWrap es) = as_http_list es"
| "as_http_list [] = None"
| "as_http_list (e # es) = (case as_http e of None \<Rightarrow> as_http_list es | Some h \<Rightarrow> Some h)"

section \<open>Fields after an assignment\<close>

lemma set_category_sel [simp]:
  "fCategory (set_category x f) = x" "fProviderID (set_category x f) = fProviderID f"
  "fKeyID (set_category x f) = fKeyID f" "fCandidate (set_category x f) = fCandidate f"
  "fAttempt (set_category x f) = fAttempt f" "fTotalAttempts (set_category x f) = fTotalAttempts f"
  "fFallbacks (set_category x f) = fFallbacks f" "fStatusCode (set_category x f) = fStatusCode f"
  "fTimeout (set_category x f) = fTimeout f" "fQueue (set_category x f) = fQueue f"
  "fRetryAfter (set_category x f) = fRetryAfter f" "fRetryAfterSet (set_category x f) = fRetryAfterSet f"
  "fTrail (set_category x f) = fTrail f" "fCause (set_category x f) = fCause f"
  by (cases f; simp)+

lemma set_provider_sel [simp]:
  "fCategory (set_provider x f) = fCategory f" "fProviderID (set_provider x f) = x"
  "fKeyID (set_provider x f) = fKeyID f" "fCandidate (set_provider x f) = fCandidate f"
  "fAttempt (set_provider x f) = fAttempt f" "fTotalAttempts (set_provider x f) = fTotalAttempts f"
  "fFallbacks (set_provider x f) = fFallbacks f" "fStatusCode (set_provider x f) = fStatusCode f"
  "fTimeout (set_provider x f) = fTimeout f" "fQueue (set_provider x f) = fQueue f"
  "fRetryAfter (set_provider x f) = fRetryAfter f" "fRetryAfterSet (set_provider x f) = fRetryAfterSet f"
  "fTrail (set_provider x f) = fTrail f" "fCause (set_provider x f) = fCause f"
  by (cases f; simp)+

lemma set_key_sel [simp]:
  "fCategory (set_key x f) = fCategory f" "fProviderID (set_key x f) = fProviderID f"
  "fKeyID (set_key x f) = x" "fCandidate (set_key x f) = fCandidate f"
  "fAttempt (set_key x f) = fAttempt f" "fTotalAttempts (set_key x f) = fTotalAttempts f"
  "fFallbacks (set_key x f) = fFallbacks f" "fStatusCode (set_key x f) = fStatusCode f"
  "fTimeout (set_key x f) = fTimeout f" "fQueue (set_key x f) = fQueue f"
  "fRetryAfter (set_key x f) = fRetryAfter f" "fRetryAfterSet (set_key x f) = fRetryAfterSet f"
  "fTrail (set_key x f) = fTrail f" "fCause (set_key x f) = fCause f"
  by (cases f; simp)+

lemma set_candidate_sel [simp]:
  "fCategory (set_candidate x f) = fCategory f" "fProviderID (set_candidate x f) = fProviderID f"
  "fKeyID (set_candidate x f) = fKeyID f" "fCandidate (set_candidate x f) = x"
  "fAttempt (set_candidate x f) = fAttempt f" "fTotalAttempts (set_candidate x f) = fTotalAttempts f"
  "fFallbacks (set_candidate x f) = fFallbacks f" "fStatusCode (set_candidate x f) = fStatusCode f"
  "fTimeout (set_candidate x f) = fTimeout f" "fQueue (set_candidate x f) = fQueue f"
  "fRetryAfter (set_candidate x f) = fRetryAfter f" "fRetryAfterSet (set_candidate x f) = fRetryAfterSet f"
  "fTrail (set_candidate x f) = fTrail f" "fCause (set_candidate x f) = fCause f"
  by (cases f; simp)+

lemma set_attempt_sel [simp]:
  "fCategory (set_attempt x f) = fCategory f" "fProviderID (set_attempt x f) = fProviderID f"
  "fKeyID (set_attempt x f) = fKeyID f" "fCandidate (set_attempt x f) = fCandidate f"
  "fAttempt (set_attempt x f) = x" "fTotalAttempts (set_attempt x f) = fTotalAttempts f"
  "fFallbacks (set_attempt x f) = fFallbacks f" "fStatusCode (set_attempt x f) = fStatusCode f"
  "fTimeout (set_attempt x f) = fTimeout f" "fQueue (set_attempt x f) = fQueue f"
  "fRetryAfter (set_attempt x f) = fRetryAfter f" "fRetryAfterSet (set_attempt x f) = fRetryAfterSet f"
  "fTrail (set_attempt x f) = fTrail f" "fCause (set_attempt x f) = fCause f"
  by (cases f; simp)+

lemma set_total_attempts_sel [simp]:
  "fCategory (set_total_attempts x f) = fCategory f" "fProviderID (set_total_attempts x f) = fProviderID f"
  "fKeyID (set_total_attempts x f) = fKeyID f" "fCandidate (set_total_attempts x f) = fCandidate f"
  "fAttempt (set_total_attempts x f) = fAttempt f" "fTotalAttempts (set_total_attempts x f) = x"
  "fFallbacks (set_total_attempts x f) = fFallbacks f" "fStatusCode (set_total_attempts x f) = fStatusCode f"
  "fTimeout (set_total_attempts x f) = fTimeout f" "fQueue (set_total_attempts x f) = fQueue f"
  "fRetryAfter (set_total_attempts x f) = fRetryAfter f" "fRetryAfterSet (set_total_attempts x f) = fRetryAfterSet f"
  "fTrail (set_total_attempts x f) = fTrail f" "fCause (set_total_attempts x f) = fCause f"
  by (cases f; simp)+

lemma set_fallbacks_sel [simp]:
  "fCategory (set_fallbacks x f) = fCategory f" "fProviderID (set_fallbacks x f) = fProviderID f"
  "fKeyID (set_fallbacks x f) = fKeyID f" "fCandidate (set_fallbacks x f) = fCandidate f"
  "fAttempt (set_fallbacks x f) = fAttempt f" "fTotalAttempts (set_fallbacks x f) = fTotalAttempts f"
  "fFallbacks (set_fallbacks x f) = x" "fStatusCode (set_fallbacks x f) = fStatusCode f"
  "fTimeout (set_fallbacks x f) = fTimeout f" "fQueue (set_fallbacks x f) = fQueue f"
  "fRetryAfter (set_fallbacks x f) = fRetryAfter f" "fRetryAfterSet (set_fallbacks x f) = fRetryAfterSet f"
  "fTrail (set_fallbacks x f) = fTrail f" "fCause (set_fallbacks x f) = fCause f"
  by (cases f; simp)+

lemma set_status_sel [simp]:
  "fCategory (set_status x f) = fCategory f" "fProviderID (set_status x f) = fProviderID f"
  "fKeyID (set_status x f) = fKeyID f" "fCandidate (set_status x f) = fCandidate f"
  "fAttempt (set_status x f) = fAttempt f" "fTotalAttempts (set_status x f) = fTotalAttempts f"
  "fFallbacks (set_status x f) = fFallbacks f" "fStatusCode (set_status x f) = x"
  "fTimeout (set_status x f) = fTimeout f" "fQueue (set_status x f) = fQueue f"
  "fRetryAfter (set_status x f) = fRetryAfter f" "fRetryAfterSet (set_status x f) = fRetryAfterSet f"
  "fTrail (set_status x f) = fTrail f" "fCause (set_status x f) = fCause f"
  by (cases f; simp)+

lemma set_timeout_sel [simp]:
  "fCategory (set_timeout x f) = fCategory f" "fProviderID (set_timeout x f) = fProviderID f"
  "fKeyID (set_timeout x f) = fKeyID f" "fCandidate (set_timeout x f) = fCandidate f"
  "fAttempt (set_timeout x f) = fAttempt f" "fTotalAttempts (set_timeout x f) = fTotalAttempts f"
  "fFallbacks (set_timeout x f) = fFallbacks f" "fStatusCode (set_timeout x f) = fStatusCode f"
  "fTimeout (set_timeout x f) = x" "fQueue (set_timeout x f) = fQueue f"
  "fRetryAfter (set_timeout x f) = fRetryAfter f" "fRetryAfterSet (set_timeout x f) = fRetryAfterSet f"
  "fTrail (set_timeout x f) = fTrail f" "fCause (set_timeout x f) = fCause f"
  by (cases f; simp)+

lemma set_queue_sel [simp]:
  "fCategory (set_queue x f) = fCategory f" "fProviderID (set_queue x f) = fProviderID f"
  "fKeyID (set_queue x f) = fKeyID f" "fCandidate (set_queue x f) = fCandidate f"
  "fAttempt (set_queue x f) = fAttempt f" "fTotalAttempts (set_queue x f) = fTotalAttempts f"
  "fFallbacks (set_queue x f) = fFallbacks f" "fStatusCode (set_queue x f) = fStatusCode f"
  "fTimeout (set_queue x f) = fTimeout f" "fQueue (set_queue x f) = x"
  "fRetryAfter (set_queue x f) = fRetryAfter f" "fRetryAfterSet (set_queue x f) = fRetryAfterSet f"
  "fTrail (set_queue x f) = fTrail f" "fCause (set_queue x f) = fCause f"
  by (cases f; simp)+

lemma set_retry_after_sel [simp]:
  "fCategory (set_retry_after x f) = fCategory f" "fProviderID (set_retry_after x f) = fProviderID f"
  "fKeyID (set_retry_after x f) = fKeyID f" "fCandidate (set_retry_after x f) = fCandidate f"
  "fAttempt (set_retry_after x f) = fAttempt f" "fTotalAttempts (set_retry_after x f) = fTotalAttempts f"
  "fFallbacks (set_retry_after x f) = fFallbacks f" "fStatusCode (set_retry_after x f) = fStatusCode f"
  "fTimeout (set_retry_after x f) = fTimeout f" "fQueue (set_retry_after x f) = fQueue f"
  "fRetryAfter (set_retry_after x f) = x" "fRetryAfterSet (set_retry_after x f) = fRetryAfterSet f"
  "fTrail (set_retry_after x f) = fTrail f" "fCause (set_retry_after x f) = fCause f"
  by (cases f; simp)+

lemma set_retry_after_set_sel [simp]:
  "fCategory (set_retry_after_set x f) = fCategory f" "fProviderID (set_retry_after_set x f) = fProviderID f"
  "fKeyID (set_retry_after_set x f) = fKeyID f" "fCandidate (set_retry_after_set x f) = fCandidate f"
  "fAttempt (set_retry_after_set x f) = fAttempt f" "fTotalAttempts (set_retry_after_set x f) = fTotalAttempts f"
  "fFallbacks (set_retry_after_set x f) = fFallbacks f" "fStatusCode (set_retry_after_set x f) = fStatusCode f"
  "fTimeout (set_retry_after_set x f) = fTimeout f" "fQueue (set_retry_after_set x f) = fQueue f"
  "fRetryAfter (set_retry_after_set x f) = fRetryAfter f" "fRetryAfterSet (set_retry_after_set x f) = x"
  "fTrail (set_retry_after_set x f) = fTrail f" "fCause (set_retry_after_set x f) = fCause f"
  by (cases f; simp)+

lemma set_trail_sel [simp]:
  "fCategory (set_trail x f) = fCategory f" "fProviderID (set_trail x f) = fProviderID f"
  "fKeyID (set_trail x f) = fKeyID f" "fCandidate (set_trail x f) = fCandidate f"
  "fAttempt (set_trail x f) = fAttempt f" "fTotalAttempts (set_trail x f) = fTotalAttempts f"
  "fFallbacks (set_trail x f) = fFallbacks f" "fStatusCode (set_trail x f) = fStatusCode f"
  "fTimeout (set_trail x f) = fTimeout f" "fQueue (set_trail x f) = fQueue f"
  "fRetryAfter (set_trail x f) = fRetryAfter f" "fRetryAfterSet (set_trail x f) = fRetryAfterSet f"
  "fTrail (set_trail x f) = x" "fCause (set_trail x f) = fCause f"
  by (cases f; simp)+

lemma set_cause_sel [simp]:
  "fCategory (set_cause x f) = fCategory f" "fProviderID (set_cause x f) = fProviderID f"
  "fKeyID (set_cause x f) = fKeyID f" "fCandidate (set_cause x f) = fCandidate f"
  "fAttempt (set_cause x f) = fAttempt f" "fTotalAttempts (set_cause x f) = fTotalAttempts f"
  "fFallbacks (set_cause x f) = fFallbacks f" "fStatusCode (set_cause x f) = fStatusCode f"
  "fTimeout (set_cause x f) = fTimeout f" "fQueue (set_cause x f) = fQueue f"
  "fRetryAfter (set_cause x f) = fRetryAfter f" "fRetryAfterSet (set_cause x f) = fRetryAfterSet f"
  "fTrail (set_cause x f) = fTrail f" "fCause (set_cause x f) = x"
  by (cases f; simp)+

lemma failure_zero_sel [simp]:
  "fCategory failure_zero = CategoryEmpty" "fProviderID failure_zero = []"
  "fKeyID failure_zero = []" "fCandidate failure_zero = 0"
  "fAttempt failure_zero = 0" "fTotalAttempts failure_zero = 0"
  "fFallbacks failure_zero = 0" "fStatusCode failure_zero = 0"
  "fTimeout failure_zero = TimeoutEmpty" "fQueue failure_zero = QueueEmpty"
  "fRetryAfter failure_zero = 0" "fRetryAfterSet failure_zero = False"
  "fTrail failure_zero = []" "fCause failure_zero = None"
  by (simp_all add: failure_zero_def)

section \<open>Signals\<close>

record signals =
  Retry :: bool
  SwitchKey :: bool
  Fallback :: bool
  CountBreaker :: bool

definition no_signals :: signals where
  "no_signals = \<lparr>Retry = False, SwitchKey = False, Fallback = False, CountBreaker = False\<rparr>"

definition breakerHTTPStatus :: "int \<Rightarrow> bool" where
  "breakerHTTPStatus statusCode \<longleftrightarrow> statusCode \<in> {500, 502, 503, 504}"

definition SignalsFor :: "failure option \<Rightarrow> signals" where
  "SignalsFor failure =
     (case failure of
        None \<Rightarrow> no_signals
      | Some f \<Rightarrow>
          (case fCategory f of
             CategoryKeyUnauthorized \<Rightarrow> no_signals\<lparr>SwitchKey := True, Fallback := True\<rparr>
           | CategoryKeyForbidden \<Rightarrow> no_signals\<lparr>SwitchKey := True, Fallback := True\<rparr>
           | CategoryUpstreamRateLimit \<Rightarrow>
               no_signals\<lparr>Retry := True, SwitchKey := True, Fallback := True\<rparr>
           | CategoryUpstream5xx \<Rightarrow>
               (if breakerHTTPStatus (fStatusCode f)
                then no_signals\<lparr>Retry := True, Fallback := True, CountBreaker := True\<rparr>
                else no_signals)
           | CategoryNetwork \<Rightarrow> no_signals\<lparr>Retry := True, Fallback := True, CountBreaker := True\<rparr>
           | CategoryTimeout \<Rightarrow>
               (if fTimeout f = TimeoutUpstream
                then no_signals\<lparr>Retry := True, Fallback := True, CountBreaker := True\<rparr>
                else no_signals)
           | CategoryUpstreamProtocol \<Rightarrow>
               no_signals\<lparr>Fallback := True,
                 CountBreaker := (\<not> errors_is_opt (fCause f) ErrResponseTooLarge)\<rparr>
           | CategoryUnsupportedCapability \<Rightarrow> no_signals\<lparr>Fallback := True\<rparr>
           | CategoryUnsupportedResponse \<Rightarrow> no_signals\<lparr>Fallback := True\<rparr>
           | CategoryModelUnavailable \<Rightarrow> no_signals\<lparr>Fallback := True\<rparr>
           | CategoryQueue \<Rightarrow> no_signals\<lparr>Fallback := True\<rparr>
           | CategoryBreaker \<Rightarrow> no_signals\<lparr>Fallback := True\<rparr>
           | CategoryKeyExhausted \<Rightarrow>
               no_signals\<lparr>Retry := (0 < fRetryAfter f), Fallback := True\<rparr>
           | _ \<Rightarrow> no_signals))"

section \<open>Classification of provider errors\<close>

definition model_markers :: "string list" where
  "model_markers =
     [''not_found'', ''notfound'', ''not_available'', ''unavailable'',
      ''unsupported'', ''invalid'', ''deprecated'', ''retired'', ''disabled'']"

definition modelUnavailable :: "int \<Rightarrow> string \<Rightarrow> bool" where
  "modelUnavailable statusCode rawCode =
     (if statusCode \<notin> {400, 404, 422} then False
      else let code = to_lower (trim_space rawCode) in
        if statusCode = 404 \<and> (code = ''not_found'' \<or> code = ''not_found_error'') then True
        else if contains_str code ''deployment_not_found'' \<or> contains_str code ''deploymentnotfound''
        then True
        else if \<not> contains_str code ''model'' then False
        else list_ex (contains_str code) model_markers)"

definition maximumRetryAfter :: duration where "maximumRetryAfter = 24 * hour"

definition defaultProviderKeyCooldown :: duration where
  "defaultProviderKeyCooldown = 30 * second"

text \<open>
  \<open>httpParseTime\<close> stands for \<open>http.ParseTime\<close>, the three date formats of the HTTP
  standard; \<open>now\<close> is the time the caller read.
\<close>

definition parseRetryAfter ::
  "(string \<Rightarrow> time option) \<Rightarrow> string \<Rightarrow> time \<Rightarrow> duration \<times> bool" where
  "parseRetryAfter httpParseTime raw0 now =
     (let raw = trim_space raw0 in
      if raw = [] then (0, False)
      else if list_all is_digit_char raw
      then (let maximumSeconds = nat (maximumRetryAfter div second) in
            case parse_uint64 raw of
              None \<Rightarrow> (maximumRetryAfter, True)
            | Some seconds \<Rightarrow>
                if seconds > maximumSeconds then (maximumRetryAfter, True)
                else (int seconds * second, True))
      else (case httpParseTime raw of
              None \<Rightarrow> (0, False)
            | Some retryAt \<Rightarrow>
                let delay = time_sub retryAt now in
                if delay \<le> 0 then (0, True)
                else if delay > maximumRetryAfter then (maximumRetryAfter, True)
                else (delay, True)))"

text \<open>What \<open>ctx.Err()\<close> can return.\<close>

datatype ctx_err = CtxCanceled | CtxDeadlineExceeded

fun ctx_goerr :: "ctx_err \<Rightarrow> goerr" where
  "ctx_goerr CtxCanceled = ErrSentinel ContextCanceled"
| "ctx_goerr CtxDeadlineExceeded = ErrSentinel ContextDeadlineExceeded"

definition classify_http ::
  "(string \<Rightarrow> time option) \<Rightarrow> time \<Rightarrow> http_error \<Rightarrow> failure \<Rightarrow> failure" where
  "classify_http httpParseTime now h f0 =
     (let f = set_status (heStatusCode h) f0; code = heStatusCode h in
      if code = 401 then set_category CategoryKeyUnauthorized f
      else if code = 403 then set_category CategoryKeyForbidden f
      else if code = 429 then
        (let (retryAfter, isSet) = parseRetryAfter httpParseTime (heRetryAfter h) now;
             g = set_category CategoryUpstreamRateLimit f
         in if isSet then set_retry_after_set True (set_retry_after retryAfter g)
            else set_retry_after_set True (set_retry_after defaultProviderKeyCooldown g))
      else if modelUnavailable code (heCode h) then set_category CategoryModelUnavailable f
      else if code \<ge> 400 \<and> code < 500 then set_category CategoryUpstream4xx f
      else if code \<ge> 500 then set_category CategoryUpstream5xx f
      else set_category CategoryUpstreamProtocol f)"

definition FromProvider ::
  "(string \<Rightarrow> time option) \<Rightarrow> time \<Rightarrow> ctx_err option \<Rightarrow> string \<Rightarrow> int \<Rightarrow> int \<Rightarrow> goerr option
     \<Rightarrow> failure option" where
  "FromProvider httpParseTime now ctxErr providerID0 candidate attempt err =
     (case err of
        None \<Rightarrow> None
      | Some e \<Rightarrow>
          (let providerID = trim_space providerID0;
               failure = set_provider providerID (set_candidate candidate
                           (set_attempt attempt (set_cause (Some e) failure_zero)))
           in
           if ctxErr = Some CtxCanceled \<or> errors_is e ContextCanceled
           then Some (set_category CategoryCanceled failure)
           else if ctxErr = Some CtxDeadlineExceeded
           then Some (set_timeout TimeoutRequestBudget (set_category CategoryTimeout failure))
           else if errors_is e ContextDeadlineExceeded
           then Some (set_timeout TimeoutUpstream (set_category CategoryTimeout failure))
           else (case as_failure e of
             Some existing \<Rightarrow>
               (let c1 = (if fProviderID existing = [] then set_provider providerID existing
                          else existing);
                    c2 = (if fAttempt c1 = 0 then set_attempt attempt c1 else c1)
                in Some c2)
           | None \<Rightarrow>
             if errors_is e ErrUnsupportedCapability
             then Some (set_category CategoryUnsupportedCapability failure)
             else if errors_is e ErrUnsupportedResponse
             then Some (set_category CategoryUnsupportedResponse failure)
             else if errors_is e ErrInvalidRequest
             then Some (set_category CategoryLocalValidation failure)
             else if errors_is e ErrInvalidResponse \<or> errors_is e ErrInvalidStream
                     \<or> errors_is e ErrResponseTooLarge
             then Some (set_category CategoryUpstreamProtocol failure)
             else (case as_http e of
               Some h \<Rightarrow> Some (classify_http httpParseTime now h failure)
             | None \<Rightarrow> Some (set_category CategoryNetwork failure)))))"

section \<open>Properties\<close>

lemma parseRetryAfter_range:
  "parseRetryAfter p raw now = (d, isSet) \<Longrightarrow> 0 \<le> d \<and> d \<le> maximumRetryAfter"
proof -
  assume eq: "parseRetryAfter p raw now = (d, isSet)"
  have unit: "maximumRetryAfter div second = 86400"
    by (simp add: maximumRetryAfter_def duration_defs)
  have "int n * second \<le> maximumRetryAfter" if "n \<le> 86400" for n
    using that by (simp add: maximumRetryAfter_def duration_defs)
  moreover have "0 \<le> maximumRetryAfter" by (simp add: maximumRetryAfter_def duration_defs)
  moreover have "0 \<le> int n * second" for n by (simp add: duration_defs)
  ultimately show ?thesis
    using eq by (auto simp: parseRetryAfter_def Let_def unit split: if_splits option.splits)
qed

lemma signals_imply_fallback:
  "Retry (SignalsFor f) \<or> SwitchKey (SignalsFor f) \<or> CountBreaker (SignalsFor f) \<Longrightarrow>
     Fallback (SignalsFor f)"
  by (cases f) (auto simp: SignalsFor_def no_signals_def split: category.splits if_splits)

text \<open>The reaction to an HTTP status, written down directly.\<close>

definition http_reaction :: "int \<Rightarrow> string \<Rightarrow> signals" where
  "http_reaction status code =
     (if status \<in> {401, 403} then \<lparr>Retry = False, SwitchKey = True, Fallback = True, CountBreaker = False\<rparr>
      else if status = 429 then \<lparr>Retry = True, SwitchKey = True, Fallback = True, CountBreaker = False\<rparr>
      else if status \<in> {500, 502, 503, 504}
      then \<lparr>Retry = True, SwitchKey = False, Fallback = True, CountBreaker = True\<rparr>
      else if modelUnavailable status code
      then \<lparr>Retry = False, SwitchKey = False, Fallback = True, CountBreaker = False\<rparr>
      else if 400 \<le> status then no_signals
      else \<lparr>Retry = False, SwitchKey = False, Fallback = True, CountBreaker = True\<rparr>)"

lemma modelUnavailable_status: "modelUnavailable s c \<Longrightarrow> s = 400 \<or> s = 404 \<or> s = 422"
  by (auto simp: modelUnavailable_def split: if_splits)

text \<open>
  An upstream HTTP error, under a live request context, is classified so that the
  control signals are exactly the table: key errors switch keys, 429 retries on another key,
  the four breaker statuses retry and count, a missing model only falls back, any other 4xx or
  5xx stops, and a status below 400 counts as a protocol violation.
\<close>

theorem http_classification:
  "SignalsFor (FromProvider p now None providerID candidate attempt (Some (ErrHTTP h))) =
     http_reaction (heStatusCode h) (heCode h)"
proof -
  let ?s = "heStatusCode h"
  define f0 where "f0 = set_provider (trim_space providerID) (set_candidate candidate
    (set_attempt attempt (set_cause (Some (ErrHTTP h)) failure_zero)))"
  have cause: "fCause f0 = Some (ErrHTTP h)" by (simp add: f0_def)
  have eq: "FromProvider p now None providerID candidate attempt (Some (ErrHTTP h)) =
      Some (classify_http p now h f0)"
    by (simp add: FromProvider_def f0_def Let_def)
  obtain d isSet where pr: "parseRetryAfter p (heRetryAfter h) now = (d, isSet)" by fastforce
  consider (key) "?s = 401 \<or> ?s = 403" | (rate) "?s = 429"
    | (model) "?s \<notin> {401, 403, 429}" "modelUnavailable ?s (heCode h)"
    | (other) "?s \<notin> {401, 403, 429}" "\<not> modelUnavailable ?s (heCode h)" by blast
  then show ?thesis
  proof cases
    case key
    then show ?thesis unfolding eq
      by (auto simp: classify_http_def SignalsFor_def http_reaction_def no_signals_def)
  next
    case rate
    with pr show ?thesis unfolding eq
      by (cases isSet) (simp_all add: classify_http_def SignalsFor_def http_reaction_def no_signals_def Let_def)
  next
    case model
    then show ?thesis unfolding eq using modelUnavailable_status [OF model(2)]
      by (auto simp: classify_http_def SignalsFor_def http_reaction_def no_signals_def Let_def)
  next
    case other
    consider "?s < 400" | "400 \<le> ?s" "?s < 500" | "500 \<le> ?s" by linarith
    then show ?thesis unfolding eq using other cause
      by cases (auto simp: classify_http_def SignalsFor_def http_reaction_def no_signals_def Let_def
          breakerHTTPStatus_def errors_is_opt_def)
  qed
qed

text \<open>
  A 429 always carries a usable cooldown: the parsed Retry-After, or 30 seconds when
  there is none, never negative and never more than 24 hours, whatever the header holds.
\<close>

theorem rate_limit_cooldown_bounded:
  assumes "heStatusCode h = 429"
  shows "\<exists>f. FromProvider p now None providerID candidate attempt (Some (ErrHTTP h)) = Some f \<and>
           fCategory f = CategoryUpstreamRateLimit \<and> fRetryAfterSet f \<and>
           0 \<le> fRetryAfter f \<and> fRetryAfter f \<le> 24 * hour"
proof -
  obtain d isSet where pr: "parseRetryAfter p (heRetryAfter h) now = (d, isSet)" by fastforce
  with parseRetryAfter_range [OF pr] assms show ?thesis
    by (auto simp: FromProvider_def classify_http_def Let_def maximumRetryAfter_def
        defaultProviderKeyCooldown_def duration_defs)
qed

theorem rate_limit_cooldown_bounded_witness:
  "\<exists>f. FromProvider (\<lambda>_. None) 0 None ''acme'' 0 1
      (Some (ErrHTTP \<lparr>heStatusCode = 429, heRetryAfter = ''7'', heCode = []\<rparr>)) = Some f \<and>
      fRetryAfter f \<le> 24 * hour"
  using rate_limit_cooldown_bounded [of "\<lparr>heStatusCode = 429, heRetryAfter = ''7'', heCode = []\<rparr>"
      "\<lambda>_. None" 0 "''acme''" 0 1]
  by auto

text \<open>
  When the request itself is over, no provider is blamed. If the request context is
  cancelled or past its deadline, or the error wraps a cancellation, the classified failure
  triggers no retry, no key switch, no fallback and no breaker count.
\<close>

theorem ended_request_triggers_nothing:
  assumes "ctxErr \<noteq> None \<or> errors_is e ContextCanceled"
  shows "SignalsFor (FromProvider p now ctxErr providerID candidate attempt (Some e)) = no_signals"
proof (cases ctxErr)
  case None
  with assms show ?thesis by (simp add: FromProvider_def SignalsFor_def Let_def)
next
  case (Some c)
  then show ?thesis by (cases c) (auto simp: FromProvider_def SignalsFor_def Let_def)
qed

theorem ended_request_triggers_nothing_witness:
  "SignalsFor (FromProvider (\<lambda>_. None) 0 None ''acme'' 0 1
     (Some (ErrWrap [ErrNew ''post'', ErrSentinel ContextCanceled]))) = no_signals"
  by (rule ended_request_triggers_nothing) simp

end
