(* ===== verification/GoFloat.thy ===== *)
theory GoFloat
  imports GoPrelude "HOL-Library.Log_Nat"
begin

text \<open>
  Go's \<open>float64\<close> on the values the gateway computes with: a float is a rational number, and
  every arithmetic operation is the exact operation followed by \<open>fl64\<close>, rounding to
  nearest, ties to even, with 53 significant bits and the exponent range of IEEE 754 below
  1. Overflow to infinity is outside the model: the retry policy caps every value it
  multiplies far below it. Rounding is executable.
\<close>

definition rat_exp :: "rat \<Rightarrow> int" where
  "rat_exp x = (let (n, d) = quotient_of x; k = bitlen n - bitlen d
                in if 2 powi k \<le> x then k else k - 1)"

definition rne :: "rat \<Rightarrow> int" where
  "rne x = (let f = \<lfloor>x\<rfloor>; r = x - of_int f
            in if r < 1 / 2 then f else if 1 / 2 < r then f + 1
               else if even f then f else f + 1)"

definition fl64 :: "rat \<Rightarrow> rat" where
  "fl64 x = (if x = 0 then 0
             else let e = max (rat_exp \<bar>x\<bar> - 52) (- 1074)
                  in of_int (rne (x / 2 powi e)) * 2 powi e)"

text \<open>Conversion of a float to an integer truncates towards zero.\<close>

definition trunc_int :: "rat \<Rightarrow> int" where
  "trunc_int x = (if 0 \<le> x then \<lfloor>x\<rfloor> else \<lceil>x\<rceil>)"

lemma rne_of_int [simp]: "rne (of_int n) = n"
  by (simp add: rne_def)

lemma rne_mono: "x \<le> y \<Longrightarrow> rne x \<le> rne y"
proof (cases "\<lfloor>x\<rfloor> = \<lfloor>y\<rfloor>")
  case True
  assume "x \<le> y"
  with True show ?thesis by (auto simp: rne_def Let_def)
next
  case False
  assume "x \<le> y"
  then have "\<lfloor>x\<rfloor> \<le> \<lfloor>y\<rfloor>" by (rule floor_mono)
  with False have "\<lfloor>x\<rfloor> + 1 \<le> \<lfloor>y\<rfloor>" by linarith
  then show ?thesis by (auto simp: rne_def Let_def)
qed

lemma powi_less_imp: "(2::rat) powi a < 2 powi b \<Longrightarrow> a < b"
  by (rule ccontr) (use power_int_increasing [of b a "2::rat"] in simp)

lemma rat_exp_le:
  assumes "0 < x" and "x < 2 powi m"
  shows "rat_exp x \<le> m - 1"
proof -
  obtain n d where q: "quotient_of x = (n, d)" by fastforce
  then have d: "0 < d" by (rule quotient_of_denom_pos)
  from q have x: "x = of_int n / of_int d" by (rule quotient_of_div)
  with assms(1) d have n: "0 < n" by (simp add: zero_less_divide_iff)
  let ?k = "bitlen n - bitlen d"
  show ?thesis
  proof (cases "2 powi ?k \<le> x")
    case True
    then have "2 powi ?k < (2::rat) powi m" using assms(2) by linarith
    then have "?k < m" by (rule powi_less_imp)
    with True q show ?thesis by (simp add: rat_exp_def)
  next
    case False
    have "(2::int) ^ nat (bitlen n - 1) \<le> n" using bitlen_bounds [OF n] by simp
    then have "(of_int (2 ^ nat (bitlen n - 1)) :: rat) \<le> of_int n" by (simp only: of_int_le_iff)
    then have nb: "(2::rat) powi (bitlen n - 1) \<le> of_int n"
      using bitlen_nonneg [of n] bitlen_eq_zero_iff [of n] n by (simp add: power_int_def)
    have "d < (2::int) ^ nat (bitlen d)" using bitlen_bounds [OF d] by simp
    then have "(of_int d :: rat) < of_int (2 ^ nat (bitlen d))" by (simp only: of_int_less_iff)
    then have db: "(of_int d :: rat) < 2 powi (bitlen d)"
      using bitlen_nonneg [of d] by (simp add: power_int_def)
    have "(2::rat) powi (?k - 1) = 2 powi (bitlen n - 1) / 2 powi (bitlen d)"
      by (simp add: power_int_diff)
    also have "\<dots> \<le> of_int n / of_int d"
      using nb db d n by (intro frac_le) auto
    finally have "(2::rat) powi (?k - 1) \<le> x" using x by simp
    with assms(2) have "(2::rat) powi (?k - 1) < 2 powi m" by linarith
    then have "?k - 1 < m" by (rule powi_less_imp)
    with False q show ?thesis by (simp add: rat_exp_def)
  qed
qed

lemma fl64_0 [simp]: "fl64 0 = 0"
  by (simp add: fl64_def)

lemma fl64_nonneg: "0 \<le> x \<Longrightarrow> 0 \<le> fl64 x"
proof -
  assume "0 \<le> x"
  then have "rne 0 \<le> rne (x / 2 powi e)" for e by (intro rne_mono) simp
  then have "0 \<le> rne (x / 2 powi e)" for e using rne_of_int [of 0] by simp
  then show ?thesis by (simp add: fl64_def Let_def)
qed

lemma fl64_int:
  assumes "\<bar>n\<bar> < 2 ^ 53"
  shows "fl64 (of_int n) = of_int n"
proof (cases "n = 0")
  case False
  let ?x = "of_int n :: rat"
  let ?e = "max (rat_exp \<bar>?x\<bar> - 52) (- 1074)"
  have pow: "(2::rat) powi 53 = of_int (2 ^ 53)" by (simp add: power_int_def)
  have "\<bar>?x\<bar> < 2 powi 53"
    using assms unfolding pow by (simp only: of_int_abs [symmetric] of_int_less_iff)
  then have "rat_exp \<bar>?x\<bar> \<le> 52" using rat_exp_le [of "\<bar>?x\<bar>" 53] False by simp
  then have e: "?e \<le> 0" by simp
  have "?x / 2 powi ?e = of_int (n * 2 ^ nat (- ?e))"
    using e by (simp add: power_int_def field_simps)
  then have "rne (?x / 2 powi ?e) = n * 2 ^ nat (- ?e)" by (metis rne_of_int)
  moreover have "(of_int (n * 2 ^ nat (- ?e)) :: rat) * 2 powi ?e = of_int n"
    using e by (simp add: power_int_def field_simps)
  ultimately show ?thesis using False by (simp add: fl64_def Let_def)
qed simp

lemma fl64_ge_m1:
  assumes "- 1 \<le> x"
  shows "- 1 \<le> fl64 x"
proof (cases "0 \<le> x \<or> x = - 1")
  case True
  then show ?thesis using fl64_nonneg [of x] fl64_int [of "-1"] by fastforce
next
  case False
  with assms have x: "- 1 < x" "x < 0" by auto
  let ?e = "max (rat_exp \<bar>x\<bar> - 52) (- 1074)"
  have "\<bar>x\<bar> < 2 powi 0" using x by simp
  then have "rat_exp \<bar>x\<bar> \<le> - 1" using rat_exp_le [of "\<bar>x\<bar>" 0] x by simp
  then have e: "?e \<le> 0" by simp
  have pos: "(0::rat) < 2 powi ?e" by simp
  have "(of_int (- (2 ^ nat (- ?e))) :: rat) = - 1 / 2 powi ?e"
    using e by (simp add: power_int_def field_simps)
  also have "\<dots> \<le> x / 2 powi ?e" using x pos by (intro divide_right_mono) simp_all
  finally have "rne (of_int (- (2 ^ nat (- ?e)))) \<le> rne (x / 2 powi ?e)" by (rule rne_mono)
  then have "- (2 ^ nat (- ?e)) \<le> rne (x / 2 powi ?e)" by (simp only: rne_of_int)
  then have "(of_int (- (2 ^ nat (- ?e))) :: rat) \<le> of_int (rne (x / 2 powi ?e))"
    by (simp only: of_int_le_iff)
  then have "(of_int (- (2 ^ nat (- ?e))) :: rat) * 2 powi ?e
             \<le> of_int (rne (x / 2 powi ?e)) * 2 powi ?e"
    using pos by (intro mult_right_mono) simp_all
  moreover have "(of_int (- (2 ^ nat (- ?e))) :: rat) * 2 powi ?e = - 1"
    using e by (simp add: power_int_def field_simps)
  ultimately show ?thesis using x by (simp add: fl64_def Let_def)
qed

lemma trunc_int_le: "x \<le> of_int n \<Longrightarrow> trunc_int x \<le> n"
  by (auto simp: trunc_int_def ceiling_le_iff floor_le_iff)

lemma trunc_int_nonneg: "0 \<le> x \<Longrightarrow> 0 \<le> trunc_int x"
  by (simp add: trunc_int_def)

lemma trunc_int_of_int [simp]: "trunc_int (of_int n) = n"
  by (simp add: trunc_int_def)

end
