(* ===== verification/Registry.thy ===== *)
theory Registry
  imports GoPrelude "HOL-Library.Multiset"
begin

text \<open>
  The construction loop the per-provider registries of \<open>internal/reliability\<close> share
  (\<open>NewBreakerRegistryWithConfigs\<close>, \<open>NewQueueRegistryWithConfigs\<close>, \<open>NewRetryRegistry\<close>): walk
  the configured IDs, reject an empty or a repeated one, look the configuration up, build the
  entry, append the ID, and sort the IDs at the end. The component theories instantiate it
  with their constructor; the locale \<open>provider_registry\<close> states what the executor and the
  admin views rely on, and each component interprets it.
\<close>

datatype registry_error =
    EmptyProviderID nat
  | DuplicatedProviderID string
  | MissingConfigFor string
  | InvalidConfigFor string string
  | RequestTimeoutMismatch
  | NilEntry nat
  | NoProviders

fun registry_loop ::
  "('s \<Rightarrow> string \<Rightarrow> 'c \<Rightarrow> registry_error + ('s \<times> 'e)) \<Rightarrow> (string \<rightharpoonup> 'c) \<Rightarrow> nat \<Rightarrow> string list
     \<Rightarrow> 's \<Rightarrow> (string \<rightharpoonup> 'e) \<Rightarrow> string list
     \<Rightarrow> registry_error + ('s \<times> (string \<rightharpoonup> 'e) \<times> string list)" where
  "registry_loop mk configs index [] s entries ids = Inr (s, entries, ids)"
| "registry_loop mk configs index (configuredID # rest) s entries ids =
     (let providerID = trim_space configuredID in
      if providerID = [] then Inl (EmptyProviderID index)
      else if entries providerID \<noteq> None then Inl (DuplicatedProviderID providerID)
      else (case configs providerID of
              None \<Rightarrow> Inl (MissingConfigFor providerID)
            | Some config \<Rightarrow>
                (case mk s providerID config of
                   Inl e \<Rightarrow> Inl e
                 | Inr (s', entry) \<Rightarrow>
                     registry_loop mk configs (Suc index) rest s'
                       (entries(providerID \<mapsto> entry)) (ids @ [providerID]))))"

definition registry_build ::
  "('s \<Rightarrow> string \<Rightarrow> 'c \<Rightarrow> registry_error + ('s \<times> 'e)) \<Rightarrow> 's \<Rightarrow> string list \<Rightarrow> (string \<rightharpoonup> 'c)
     \<Rightarrow> registry_error + ('s \<times> (string \<rightharpoonup> 'e) \<times> string list)" where
  "registry_build mk s0 providerIDs configs =
     (case registry_loop mk configs 0 providerIDs s0 Map.empty [] of
        Inl e \<Rightarrow> Inl e
      | Inr (s, entries, ids) \<Rightarrow>
          if ids = [] then Inl NoProviders else Inr (s, entries, sort ids))"

text \<open>What a successful step of the loop did.\<close>

lemma registry_loop_ConsE:
  assumes "registry_loop mk configs i (q # qs) s m ids = Inr res"
  obtains c t entry where "trim_space q \<noteq> []" and "m (trim_space q) = None"
    and "configs (trim_space q) = Some c" and "mk s (trim_space q) c = Inr (t, entry)"
    and "registry_loop mk configs (Suc i) qs t (m(trim_space q \<mapsto> entry)) (ids @ [trim_space q]) = Inr res"
  using assms by (auto simp: Let_def split: if_splits option.splits sum.splits prod.splits)

lemma registry_loop_spec:
  assumes "registry_loop mk configs i ps s m ids = Inr (s', m', ids')"
    and "dom m = set ids" and "distinct ids"
  shows "ids' = ids @ map trim_space ps \<and> dom m' = set ids' \<and> distinct ids' \<and>
    [] \<notin> trim_space ` set ps \<and>
    (\<forall>p e. m' p = Some e \<longrightarrow> m p = Some e \<or>
       (\<exists>c t t'. configs p = Some c \<and> mk t p c = Inr (t', e)))"
  using assms
proof (induction ps arbitrary: i s m ids)
  case Nil
  then show ?case by simp
next
  case (Cons q qs)
  from Cons.prems(1) obtain c t entry where
    step: "trim_space q \<noteq> []" "m (trim_space q) = None" "configs (trim_space q) = Some c"
      "mk s (trim_space q) c = Inr (t, entry)"
    and rest: "registry_loop mk configs (Suc i) qs t (m(trim_space q \<mapsto> entry))
                 (ids @ [trim_space q]) = Inr (s', m', ids')"
    by (rule registry_loop_ConsE)
  from step Cons.prems(2,3) have "dom (m(trim_space q \<mapsto> entry)) = set (ids @ [trim_space q])"
    and "distinct (ids @ [trim_space q])"
    by auto
  note IH = Cons.IH [OF rest this]
  have "m p = Some e \<or> (\<exists>c t t'. configs p = Some c \<and> mk t p c = Inr (t', e))"
    if "m' p = Some e" for p e
  proof -
    from IH that have "(m(trim_space q \<mapsto> entry)) p = Some e \<or>
        (\<exists>c t t'. configs p = Some c \<and> mk t p c = Inr (t', e))" by blast
    then show ?thesis using step(3,4) by (cases "p = trim_space q") (simp_all, blast)
  qed
  moreover have "dom m' = set ids'" "distinct ids'" using IH by blast+
  moreover have "ids' = ids @ map trim_space (q # qs)" "[] \<notin> trim_space ` set (q # qs)"
    using IH step(1) by simp_all
  ultimately show ?case by blast
qed

lemma registry_build_spec:
  assumes "registry_build mk s0 ps configs = Inr (s, m, ids)"
  shows "ids = sort (map trim_space ps)" and "dom m = set ids" and "distinct ids"
    and "ids \<noteq> []" and "[] \<notin> set ids"
    and "m p = Some e \<Longrightarrow> \<exists>c t t'. configs p = Some c \<and> mk t p c = Inr (t', e)"
proof -
  from assms obtain ids0 where
    run: "registry_loop mk configs 0 ps s0 Map.empty [] = Inr (s, m, ids0)"
    and ids: "ids0 \<noteq> []" "ids = sort ids0"
    by (auto simp: registry_build_def split: sum.splits if_splits)
  have init: "dom (Map.empty :: string \<rightharpoonup> 'b) = set []" "distinct ([] :: string list)" by auto
  note spec = registry_loop_spec [OF run init]
  show "ids = sort (map trim_space ps)" "dom m = set ids" "distinct ids" "[] \<notin> set ids"
    using spec ids(2) by auto
  show "ids \<noteq> []" using ids by (metis length_0_conv length_sort)
  show "\<exists>c t t'. configs p = Some c \<and> mk t p c = Inr (t', e)" if "m p = Some e"
    using spec that by auto
qed

section \<open>The interface\<close>

locale provider_registry =
  fixes build :: "string list \<Rightarrow> (string \<rightharpoonup> 'c) \<Rightarrow> registry_error + 'r"
    and ids :: "'r \<Rightarrow> string list"
    and entry :: "'r \<Rightarrow> string \<Rightarrow> 'e option"
    and made :: "string \<Rightarrow> 'c \<Rightarrow> 'e \<Rightarrow> bool"
  assumes build_ids: "build ps configs = Inr r \<Longrightarrow> ids r = sort (map trim_space ps)"
    and build_distinct: "build ps configs = Inr r \<Longrightarrow> distinct (ids r) \<and> ids r \<noteq> []"
    and build_dom: "build ps configs = Inr r \<Longrightarrow>
          (entry r p \<noteq> None) = (trim_space p \<in> set (ids r))"
    and build_made: "build ps configs = Inr r \<Longrightarrow> entry r p = Some e \<Longrightarrow>
          \<exists>c. configs (trim_space p) = Some c \<and> made (trim_space p) c e"
begin

lemma configured_found:
  "build ps configs = Inr r \<Longrightarrow> p \<in> set ps \<Longrightarrow>
     \<exists>e c. entry r p = Some e \<and> configs (trim_space p) = Some c \<and> made (trim_space p) c e"
  using build_dom [of ps configs r p] build_ids [of ps configs r] build_made [of ps configs r p]
  by fastforce

lemma unknown_absent:
  "build ps configs = Inr r \<Longrightarrow> trim_space p \<notin> trim_space ` set ps \<Longrightarrow> entry r p = None"
  using build_dom [of ps configs r p] build_ids [of ps configs r] by auto

lemma ids_sorted: "build ps configs = Inr r \<Longrightarrow> sorted (ids r)"
  by (simp add: build_ids)

end

end
