(* ===== verification/Retry.thy ===== *)
theory Retry
  imports Failure GoFloat Registry
begin

text \<open>
  The retry policy: \<open>internal/reliability/retry.go\<close> and \<open>retry_registry.go\<close>. A policy is its
  configuration; the random number \<open>rand.Float64\<close> draws and the clock are arguments of the
  operations that read them. The lemmas bound every back-off by the configuration and
  compute it exactly where the jitter is off.
\<close>

definition maximumRetryAttempts :: int where [config_defs]: "maximumRetryAttempts = 10"
definition minimumRetryBackoff :: duration where [config_defs]: "minimumRetryBackoff = 10 * millisecond"
definition maximumRetryBackoff :: duration where [config_defs]: "maximumRetryBackoff = 30 * second"
definition minimumRequestTimeout :: duration where [config_defs]: "minimumRequestTimeout = second"
definition maximumRequestTimeout :: duration where [config_defs]: "maximumRequestTimeout = 5 * minute"
definition minimumAttemptTimeout :: duration where [config_defs]: "minimumAttemptTimeout = 100 * millisecond"

record retry_config =
  MaxAttempts :: int
  InitialBackoff :: duration
  MaxBackoff :: duration
  BackoffMultiplier :: rat
  JitterRatio :: rat
  RequestTimeout :: duration
  AttemptTimeout :: duration

definition DefaultRetryConfig :: retry_config where
  "DefaultRetryConfig =
     \<lparr>MaxAttempts = 3, InitialBackoff = 100 * millisecond, MaxBackoff = 2 * second,
      BackoffMultiplier = 2, JitterRatio = fl64 (1 / 5), RequestTimeout = 45 * second,
      AttemptTimeout = 20 * second\<rparr>"

definition retry_validate :: "retry_config \<Rightarrow> string option" where
  "retry_validate config =
     (if MaxAttempts config < 1 \<or> MaxAttempts config > maximumRetryAttempts
      then Some ''retry max attempts must be between 1 and 10''
      else if InitialBackoff config < minimumRetryBackoff \<or> InitialBackoff config > maximumRetryBackoff
      then Some ''retry initial backoff must be between 10ms and 30s''
      else if MaxBackoff config < InitialBackoff config \<or> MaxBackoff config > maximumRetryBackoff
      then Some ''retry max backoff must be between initial backoff and 30s''
      else if BackoffMultiplier config < 1 \<or> BackoffMultiplier config > 10
      then Some ''retry backoff multiplier must be between 1 and 10''
      else if JitterRatio config < 0 \<or> JitterRatio config > 1
      then Some ''retry jitter ratio must be between 0 and 1''
      else if RequestTimeout config < minimumRequestTimeout \<or> RequestTimeout config > maximumRequestTimeout
      then Some ''request timeout must be between 1s and 5m0s''
      else if AttemptTimeout config < minimumAttemptTimeout \<or> AttemptTimeout config > RequestTimeout config
      then Some ''attempt timeout must be at least 100ms and no greater than request timeout''
      else None)"

record retry_policy =
  rpConfig :: retry_config

definition NewRetryPolicy :: "retry_config \<Rightarrow> string + retry_policy" where
  "NewRetryPolicy config =
     (case retry_validate config of Some e \<Rightarrow> Inl e | None \<Rightarrow> Inr \<lparr>rpConfig = config\<rparr>)"

text \<open>\<open>context.WithTimeout\<close>: the earlier of the parent's deadline and \<open>now\<close> plus the timeout.\<close>

definition with_timeout :: "time option \<Rightarrow> time \<Rightarrow> duration \<Rightarrow> time option" where
  "with_timeout parent now timeout =
     Some (case parent of None \<Rightarrow> now + timeout | Some d \<Rightarrow> min d (now + timeout))"

definition policy_RequestContext :: "retry_policy \<Rightarrow> time option \<Rightarrow> time \<Rightarrow> time option" where
  "policy_RequestContext policy parent now = with_timeout parent now (RequestTimeout (rpConfig policy))"

definition policy_AttemptContext :: "retry_policy \<Rightarrow> time option \<Rightarrow> time \<Rightarrow> time option" where
  "policy_AttemptContext policy parent now = with_timeout parent now (AttemptTimeout (rpConfig policy))"

definition policy_AttemptTimeout :: "retry_policy option \<Rightarrow> duration" where
  "policy_AttemptTimeout policy = (case policy of None \<Rightarrow> 0 | Some p \<Rightarrow> AttemptTimeout (rpConfig p))"

definition ShouldRetry :: "retry_policy \<Rightarrow> failure option \<Rightarrow> int \<Rightarrow> bool" where
  "ShouldRetry policy failure attempt =
     (if failure = None \<or> attempt \<ge> MaxAttempts (rpConfig policy) then False
      else Retry (SignalsFor failure) \<or> SwitchKey (SignalsFor failure))"

text \<open>The \<open>for step := 1; step < attempt; step++\<close> loop, by the number of rounds left.\<close>

fun backoff_loop :: "nat \<Rightarrow> rat \<Rightarrow> rat \<Rightarrow> rat \<Rightarrow> rat" where
  "backoff_loop 0 multiplier maxBackoff delay = delay"
| "backoff_loop (Suc n) multiplier maxBackoff delay =
     (let delay' = fl64 (delay * multiplier) in
      if delay' \<ge> maxBackoff then maxBackoff
      else backoff_loop n multiplier maxBackoff delay')"

definition Backoff :: "retry_policy \<Rightarrow> rat \<Rightarrow> failure option \<Rightarrow> int \<Rightarrow> duration" where
  "Backoff policy random failure attempt =
     (case failure of
        None \<Rightarrow> 0
      | Some f \<Rightarrow>
          if SwitchKey (SignalsFor failure) then 0
          else if fCategory f = CategoryKeyExhausted then fRetryAfter f
          else
            (let config = rpConfig policy;
                 maxBackoff = fl64 (of_int (MaxBackoff config));
                 delay = backoff_loop (nat (attempt - 1)) (BackoffMultiplier config) maxBackoff
                           (fl64 (of_int (InitialBackoff config)));
                 jitter = fl64 (1 + fl64 (fl64 (fl64 (2 * random) - 1) * JitterRatio config));
                 delay' = fl64 (delay * jitter)
             in if delay' > maxBackoff then MaxBackoff config else trunc_int delay'))"

text \<open>
  \<open>Wait\<close>: \<open>ctxErr\<close> is \<open>ctx.Err()\<close> on entry, \<open>now\<close> the clock \<open>time.Until\<close> reads, and
  \<open>timerFired\<close> which case of the final \<open>select\<close> was taken.
\<close>

definition retry_Wait :: "ctx_err option \<Rightarrow> time option \<Rightarrow> time \<Rightarrow> bool \<Rightarrow> duration \<Rightarrow> bool" where
  "retry_Wait ctxErr deadline now timerFired delay =
     (if ctxErr \<noteq> None then False
      else if delay \<le> 0 then True
      else if (case deadline of None \<Rightarrow> False | Some d \<Rightarrow> time_sub d now \<le> delay) then False
      else timerFired)"

section \<open>The registry\<close>

record retry_registry =
  rrPolicies :: "string \<rightharpoonup> retry_policy"
  rrProviderIDs :: "string list"
  rrRequestTimeout :: duration

definition retry_mk :: "duration \<Rightarrow> string \<Rightarrow> retry_config \<Rightarrow> registry_error + (duration \<times> retry_policy)" where
  "retry_mk requestTimeout providerID config =
     (if requestTimeout \<noteq> 0 \<and> RequestTimeout config \<noteq> requestTimeout then Inl RequestTimeoutMismatch
      else (case NewRetryPolicy config of
              Inl e \<Rightarrow> Inl (InvalidConfigFor providerID e)
            | Inr policy \<Rightarrow>
                Inr (if requestTimeout = 0 then RequestTimeout config else requestTimeout, policy)))"

definition NewRetryRegistry ::
  "string list \<Rightarrow> (string \<rightharpoonup> retry_config) \<Rightarrow> registry_error + retry_registry" where
  "NewRetryRegistry providerIDs configs =
     (case registry_build retry_mk 0 providerIDs configs of
        Inl e \<Rightarrow> Inl e
      | Inr (timeout, policies, ids) \<Rightarrow>
          Inr \<lparr>rrPolicies = policies, rrProviderIDs = ids, rrRequestTimeout = timeout\<rparr>)"

definition retry_ForProvider :: "retry_registry \<Rightarrow> string \<Rightarrow> retry_policy option" where
  "retry_ForProvider registry providerID = rrPolicies registry (trim_space providerID)"

definition registry_RequestContext :: "retry_registry \<Rightarrow> time option \<Rightarrow> time \<Rightarrow> time option" where
  "registry_RequestContext registry parent now = with_timeout parent now (rrRequestTimeout registry)"

section \<open>Bounds\<close>

lemma retry_validate_None:
  "retry_validate c = None \<longleftrightarrow>
     1 \<le> MaxAttempts c \<and> MaxAttempts c \<le> 10 \<and>
     10000000 \<le> InitialBackoff c \<and> InitialBackoff c \<le> MaxBackoff c \<and>
     MaxBackoff c \<le> 30000000000 \<and> 1 \<le> BackoffMultiplier c \<and> BackoffMultiplier c \<le> 10 \<and>
     0 \<le> JitterRatio c \<and> JitterRatio c \<le> 1 \<and>
     1000000000 \<le> RequestTimeout c \<and> RequestTimeout c \<le> 300000000000 \<and>
     100000000 \<le> AttemptTimeout c \<and> AttemptTimeout c \<le> RequestTimeout c"
  by (auto simp: retry_validate_def config_defs not_less)

lemma fl64_backoff: "0 \<le> d \<Longrightarrow> d \<le> 30000000000 \<Longrightarrow> fl64 (of_int d) = of_int d"
  by (rule fl64_int) simp

lemma backoff_loop_nonneg:
  "0 \<le> d \<Longrightarrow> 0 \<le> m \<Longrightarrow> 0 \<le> mx \<Longrightarrow> 0 \<le> backoff_loop n m mx d"
  by (induction n arbitrary: d) (auto simp: Let_def fl64_nonneg)

text \<open>The jitter factor is never negative, whatever the rounding does.\<close>

lemma jitter_nonneg:
  assumes "0 \<le> r" and "0 \<le> j" and "j \<le> 1"
  shows "0 \<le> fl64 (1 + fl64 (fl64 (fl64 (2 * r) - 1) * j))"
proof -
  let ?a = "fl64 (fl64 (2 * r) - 1)"
  have "- 1 \<le> ?a" using fl64_nonneg [of "2 * r"] assms(1) by (intro fl64_ge_m1) simp
  then have "- 1 * j \<le> ?a * j" using assms(2) by (rule mult_right_mono)
  then have "- 1 \<le> ?a * j" using assms(3) by linarith
  then have "- 1 \<le> fl64 (?a * j)" by (rule fl64_ge_m1)
  then show ?thesis by (intro fl64_nonneg) simp
qed

lemma Backoff_range:
  assumes "retry_validate (rpConfig policy) = None" and "0 \<le> random"
    and "fCategory f \<noteq> CategoryKeyExhausted"
  shows "0 \<le> Backoff policy random (Some f) attempt
         \<and> Backoff policy random (Some f) attempt \<le> MaxBackoff (rpConfig policy)"
proof -
  let ?c = "rpConfig policy"
  from assms(1) have v: "0 \<le> InitialBackoff ?c" "0 \<le> MaxBackoff ?c" "InitialBackoff ?c \<le> MaxBackoff ?c"
    "MaxBackoff ?c \<le> 30000000000" "1 \<le> BackoffMultiplier ?c" "0 \<le> JitterRatio ?c" "JitterRatio ?c \<le> 1"
    by (simp_all add: retry_validate_None)
  define mx where "mx = fl64 (of_int (MaxBackoff ?c))"
  have mx: "mx = of_int (MaxBackoff ?c)" using v by (simp add: mx_def fl64_backoff)
  define d where "d = backoff_loop (nat (attempt - 1)) (BackoffMultiplier ?c) mx
                        (fl64 (of_int (InitialBackoff ?c)))"
  define j where "j = fl64 (1 + fl64 (fl64 (fl64 (2 * random) - 1) * JitterRatio ?c))"
  have "0 \<le> d" unfolding d_def using v mx by (intro backoff_loop_nonneg) (auto intro: fl64_nonneg)
  moreover have "0 \<le> j" unfolding j_def using assms(2) v by (intro jitter_nonneg)
  ultimately have pos: "0 \<le> fl64 (d * j)" by (intro fl64_nonneg) simp
  have "Backoff policy random (Some f) attempt =
      (if SwitchKey (SignalsFor (Some f)) then 0
       else if mx < fl64 (d * j) then MaxBackoff ?c else trunc_int (fl64 (d * j)))"
    using assms(3) by (simp add: Backoff_def Let_def mx_def d_def j_def)
  then show ?thesis
    using pos v mx trunc_int_le [of "fl64 (d * j)" "MaxBackoff ?c"] trunc_int_nonneg [OF pos]
    by simp
qed

text \<open>With an integer multiplier every round of the loop is exact.\<close>

lemma backoff_loop_exact:
  assumes "1 \<le> m" and "m \<le> 10" and "1 \<le> d" and "d \<le> mx" and "mx \<le> 30000000000"
  shows "backoff_loop n (of_int m) (of_int mx) (of_int d) = of_int (min (d * m ^ n) mx)"
  using assms
proof (induction n arbitrary: d)
  case 0
  then show ?case by simp
next
  case (Suc n)
  have "d * m \<le> 30000000000 * 10" using Suc.prems by (intro mult_mono) auto
  moreover have "0 \<le> d * m" using Suc.prems by simp
  ultimately have ex: "fl64 (of_int d * of_int m) = of_int (d * m)"
    using fl64_int [of "d * m"] by simp
  have "1 \<le> m ^ n" using Suc.prems by simp
  then have grow: "d * m * 1 \<le> d * m * m ^ n"
    using Suc.prems by (intro mult_left_mono) auto
  show ?case
  proof (cases "mx \<le> d * m")
    case True
    with grow have "mx \<le> d * m ^ Suc n" by (simp add: algebra_simps)
    with True show ?thesis by (simp add: ex del: of_int_mult)
  next
    case False
    have "d * 1 \<le> d * m" using Suc.prems by (intro mult_left_mono) auto
    then have "1 \<le> d * m" "d * m \<le> mx" using False Suc.prems by linarith+
    with Suc.prems have IH: "backoff_loop n (of_int m) (of_int mx) (of_int (d * m))
        = of_int (min (d * m * m ^ n) mx)"
      by (intro Suc.IH)
    with False show ?thesis by (simp add: ex algebra_simps del: of_int_mult of_int_power)
  qed
qed

lemma Backoff_exact:
  assumes "retry_validate (rpConfig policy) = None" and "JitterRatio (rpConfig policy) = 0"
    and "BackoffMultiplier (rpConfig policy) = of_int m"
    and "fCategory f \<noteq> CategoryKeyExhausted" and "\<not> SwitchKey (SignalsFor (Some f))"
  shows "Backoff policy random (Some f) attempt =
           min (InitialBackoff (rpConfig policy) * m ^ nat (attempt - 1)) (MaxBackoff (rpConfig policy))"
proof -
  let ?c = "rpConfig policy"
  let ?r = "min (InitialBackoff ?c * m ^ nat (attempt - 1)) (MaxBackoff ?c)"
  from assms(1,3) have v: "10000000 \<le> InitialBackoff ?c" "InitialBackoff ?c \<le> MaxBackoff ?c"
    "MaxBackoff ?c \<le> 30000000000" "1 \<le> m" "m \<le> 10"
    by (simp_all add: retry_validate_None)
  have fl: "fl64 (of_int (MaxBackoff ?c)) = of_int (MaxBackoff ?c)"
    "fl64 (of_int (InitialBackoff ?c)) = of_int (InitialBackoff ?c)"
    using v by (auto intro!: fl64_backoff)
  have loop: "backoff_loop (nat (attempt - 1)) (of_int m) (of_int (MaxBackoff ?c))
      (of_int (InitialBackoff ?c)) = of_int ?r"
    using v by (intro backoff_loop_exact) auto
  define r where "r = ?r"
  have "0 \<le> r" "r \<le> 30000000000" using v by (auto simp: r_def)
  then have "fl64 (of_int r) = of_int r" by (rule fl64_backoff)
  moreover have "fl64 1 = 1" using fl64_int [of 1] by simp
  ultimately have "Backoff policy random (Some f) attempt =
      (if MaxBackoff ?c < r then MaxBackoff ?c else trunc_int (of_int r))"
    using assms(2-5) fl loop [folded r_def] by (simp add: Backoff_def Let_def)
  then show ?thesis by (simp add: r_def)
qed

lemma ShouldRetry_bounded: "ShouldRetry policy failure n \<Longrightarrow> n < MaxAttempts (rpConfig policy)"
  by (auto simp: ShouldRetry_def split: if_splits)

lemma retry_Wait_deadline:
  "retry_Wait ce (Some d) now fired delay \<Longrightarrow> 0 < delay \<Longrightarrow> now < d \<and> delay < d - now"
  by (auto simp: retry_Wait_def time_sub_def int64_defs max_def min_def split: if_splits)

section \<open>Interpretation\<close>

lemma retry_mk_valid: "retry_mk s p c = Inr (s', pol) \<Longrightarrow> rpConfig pol = c \<and> retry_validate c = None"
  by (auto simp: retry_mk_def NewRetryPolicy_def split: if_splits sum.splits option.splits)

interpretation retry_reg: provider_registry NewRetryRegistry rrProviderIDs retry_ForProvider
  "\<lambda>p c pol. rpConfig pol = c \<and> retry_validate c = None"
proof
  fix ps configs r p and e :: retry_policy
  assume "NewRetryRegistry ps configs = Inr r"
  then obtain t m ids where b: "registry_build retry_mk 0 ps configs = Inr (t, m, ids)"
    and r: "r = \<lparr>rrPolicies = m, rrProviderIDs = ids, rrRequestTimeout = t\<rparr>"
    by (auto simp: NewRetryRegistry_def split: sum.splits)
  note spec = registry_build_spec [OF b]
  show "rrProviderIDs r = sort (map trim_space ps)" using spec(1) r by simp
  show "distinct (rrProviderIDs r) \<and> rrProviderIDs r \<noteq> []" using spec(3,4) r by simp
  show "(retry_ForProvider r p \<noteq> None) = (trim_space p \<in> set (rrProviderIDs r))"
    using spec(2) r by (auto simp: retry_ForProvider_def)
  show "\<exists>c. configs (trim_space p) = Some c \<and> rpConfig e = c \<and> retry_validate c = None"
    if "retry_ForProvider r p = Some e"
    using spec(6) [of "trim_space p" e] that r retry_mk_valid
    by (fastforce simp: retry_ForProvider_def)
qed

section \<open>Properties\<close>

lemma fl64_le_1:
  assumes "0 \<le> x" and "x < 1"
  shows "fl64 x \<le> 1"
proof (cases "x = 0")
  case False
  let ?e = "max (rat_exp \<bar>x\<bar> - 52) (- 1074)"
  have "x < 2 powi 0" using assms by simp
  then have "rat_exp \<bar>x\<bar> \<le> - 1" using rat_exp_le [of x 0] assms False by simp
  then have e: "?e \<le> 0" by simp
  have "x / 2 powi ?e \<le> of_int (2 ^ nat (- ?e))"
    using assms e by (simp add: power_int_def field_simps)
  then have "rne (x / 2 powi ?e) \<le> 2 ^ nat (- ?e)" using rne_mono rne_of_int by metis
  then have "(of_int (rne (x / 2 powi ?e)) :: rat) \<le> of_int (2 ^ nat (- ?e))"
    by (simp only: of_int_le_iff)
  then have "of_int (rne (x / 2 powi ?e)) * 2 powi ?e \<le> (of_int (2 ^ nat (- ?e)) :: rat) * 2 powi ?e"
    by (intro mult_right_mono) simp_all
  also have "(of_int (2 ^ nat (- ?e)) :: rat) * 2 powi ?e = 1"
    using e by (simp add: power_int_def field_simps)
  finally show ?thesis using False by (simp add: fl64_def Let_def)
qed simp

lemma DefaultRetryConfig_valid: "retry_validate DefaultRetryConfig = None"
  using fl64_nonneg [of "1 / 5"] fl64_le_1 [of "1 / 5"]
  by (simp add: retry_validate_None DefaultRetryConfig_def duration_defs)

text \<open>
  Whatever the failure, the attempt number and the random draw, a validated policy
  never backs off for a negative time or for longer than MaxBackoff; only the wait for a
  cooling key pool is taken from the failure itself. The bound holds for the rounded
  float64 arithmetic of the code.
\<close>

theorem retry_backoff_bounded:
  assumes "NewRetryPolicy config = Inr policy" and "0 \<le> random"
    and "fCategory f \<noteq> CategoryKeyExhausted"
  shows "0 \<le> Backoff policy random (Some f) attempt \<and>
         Backoff policy random (Some f) attempt \<le> MaxBackoff config"
proof -
  have "rpConfig policy = config" "retry_validate config = None"
    using assms(1) by (auto simp: NewRetryPolicy_def split: option.splits)
  with Backoff_range [of policy random f attempt] assms(2,3) show ?thesis by simp
qed

theorem retry_backoff_bounded_witness:
  "Backoff \<lparr>rpConfig = DefaultRetryConfig\<rparr> (1 / 3) (Some (set_category CategoryNetwork failure_zero)) 5
     \<le> 2000000000"
  using retry_backoff_bounded [of DefaultRetryConfig "\<lparr>rpConfig = DefaultRetryConfig\<rparr>" "1 / 3"
      "set_category CategoryNetwork failure_zero" 5] DefaultRetryConfig_valid
  by (simp add: NewRetryPolicy_def) (simp add: DefaultRetryConfig_def duration_defs)

text \<open>
  Without jitter and with a whole-number multiplier \<open>m\<close> the wait before the
  attempt after number \<open>n\<close> is exactly \<open>InitialBackoff * m ^ (n - 1)\<close>, cut off at MaxBackoff:
  no rounding of the float64 loop shows.
\<close>

theorem retry_backoff_exponential:
  assumes "NewRetryPolicy config = Inr policy" and "JitterRatio config = 0"
    and "BackoffMultiplier config = of_int m"
    and "fCategory f \<noteq> CategoryKeyExhausted" and "\<not> SwitchKey (SignalsFor (Some f))"
  shows "Backoff policy random (Some f) n =
           min (InitialBackoff config * m ^ nat (n - 1)) (MaxBackoff config)"
proof -
  have "rpConfig policy = config" "retry_validate config = None"
    using assms(1) by (auto simp: NewRetryPolicy_def split: option.splits)
  with Backoff_exact [of policy m f random n] assms(2-5) show ?thesis by simp
qed

theorem retry_backoff_exponential_witness:
  "Backoff \<lparr>rpConfig = DefaultRetryConfig\<lparr>JitterRatio := 0\<rparr>\<rparr> (9 / 10)
     (Some (set_category CategoryNetwork failure_zero)) 4 = 800000000"
proof -
  let ?c = "DefaultRetryConfig\<lparr>JitterRatio := 0\<rparr>"
  have "retry_validate ?c = None"
    by (simp add: retry_validate_None DefaultRetryConfig_def duration_defs)
  then have "NewRetryPolicy ?c = Inr \<lparr>rpConfig = ?c\<rparr>" by (simp add: NewRetryPolicy_def)
  from retry_backoff_exponential [OF this, of 2 "set_category CategoryNetwork failure_zero" "9 / 10" 4]
  show ?thesis by (simp add: DefaultRetryConfig_def SignalsFor_def no_signals_def duration_defs)
qed

end
