(* ===== verification/Breaker.thy ===== *)
theory Breaker
  imports Failure Registry
begin

text \<open>
  The circuit breaker: \<open>internal/reliability/breaker.go\<close>. A breaker is a record of its
  fields; every method runs under the breaker's mutex, so it is one function from the state
  to the state, with the clock value it reads as an argument. A permit carries the generation
  it was issued in; \<open>breaker_exec\<close> runs an arbitrary interleaving of the callers'
  operations on one breaker and all the permits it has issued, as the mutex orders them.
  A nil permit, which every method refuses, is not represented: no caller holds one.
\<close>

section \<open>Configuration\<close>

definition minimumOpenDuration :: duration where [config_defs]: "minimumOpenDuration = second"
definition maximumOpenDuration :: duration where [config_defs]: "maximumOpenDuration = 10 * minute"
definition maximumFailures :: int where [config_defs]: "maximumFailures = 1000"
definition maximumProbes :: int where [config_defs]: "maximumProbes = 100"

record breaker_config =
  FailureThreshold :: int
  OpenDuration :: duration
  HalfOpenMaxProbes :: int

definition DefaultBreakerConfig :: breaker_config where
  "DefaultBreakerConfig =
     \<lparr>FailureThreshold = 5, OpenDuration = 30 * second, HalfOpenMaxProbes = 1\<rparr>"

definition breaker_validate :: "breaker_config \<Rightarrow> string option" where
  "breaker_validate config =
     (if FailureThreshold config < 1 \<or> FailureThreshold config > maximumFailures
      then Some ''breaker failure threshold must be between 1 and 1000''
      else if OpenDuration config < minimumOpenDuration \<or> OpenDuration config > maximumOpenDuration
      then Some ''breaker open duration must be between 1s and 10m0s''
      else if HalfOpenMaxProbes config < 1 \<or> HalfOpenMaxProbes config > maximumProbes
      then Some ''breaker half-open probes must be between 1 and 100''
      else None)"

section \<open>State and operations\<close>

datatype breaker_state = StateClosed | StateOpen | StateHalfOpen

record breaker =
  bProviderID :: string
  bConfig :: breaker_config
  bState :: breaker_state
  bGeneration :: uint64
  bConsecutiveFailures :: int
  bOpenedUntil :: time
  bHalfOpenInFlight :: int
  bHalfOpenSuccesses :: int
  bRejected :: uint64

record breaker_snapshot =
  bsProviderID :: string
  bsState :: breaker_state
  bsConsecutiveFailures :: int
  bsOpenedUntil :: time
  bsHalfOpenInFlight :: int
  bsHalfOpenSuccesses :: int
  bsRejected :: uint64

record permit =
  pmGeneration :: uint64
  pmProbe :: bool
  pmCompleted :: bool

definition NewBreaker :: "string \<Rightarrow> breaker_config \<Rightarrow> string + breaker" where
  "NewBreaker rawID config =
     (let providerID = trim_space rawID in
      if providerID = [] then Inl ''breaker provider ID is required''
      else (case breaker_validate config of
              Some e \<Rightarrow> Inl e
            | None \<Rightarrow> Inr \<lparr>bProviderID = providerID, bConfig = config, bState = StateClosed,
                bGeneration = 0, bConsecutiveFailures = 0, bOpenedUntil = 0,
                bHalfOpenInFlight = 0, bHalfOpenSuccesses = 0, bRejected = 0\<rparr>))"

definition breaker_advance :: "time \<Rightarrow> breaker \<Rightarrow> breaker" where
  "breaker_advance now b =
     (if bState b \<noteq> StateOpen \<or> now < bOpenedUntil b then b
      else b\<lparr>bState := StateHalfOpen, bGeneration := bGeneration b + 1,
             bHalfOpenInFlight := 0, bHalfOpenSuccesses := 0\<rparr>)"

definition breaker_open :: "time \<Rightarrow> breaker \<Rightarrow> breaker" where
  "breaker_open now b =
     b\<lparr>bState := StateOpen, bGeneration := bGeneration b + 1,
       bConsecutiveFailures := FailureThreshold (bConfig b),
       bOpenedUntil := now + OpenDuration (bConfig b),
       bHalfOpenInFlight := 0, bHalfOpenSuccesses := 0\<rparr>"

definition breaker_close :: "breaker \<Rightarrow> breaker" where
  "breaker_close b =
     b\<lparr>bState := StateClosed, bGeneration := bGeneration b + 1, bConsecutiveFailures := 0,
       bOpenedUntil := 0, bHalfOpenInFlight := 0, bHalfOpenSuccesses := 0\<rparr>"

definition breaker_reject :: "time \<Rightarrow> breaker \<Rightarrow> breaker \<times> (failure + permit)" where
  "breaker_reject now b =
     (let retryAfter = time_sub (bOpenedUntil b) now in
      (b\<lparr>bRejected := bRejected b + 1\<rparr>,
       Inl (set_category CategoryBreaker (set_provider (bProviderID b)
              (set_retry_after (if retryAfter < 0 then 0 else retryAfter) failure_zero)))))"

definition breaker_Allow :: "time \<Rightarrow> breaker \<Rightarrow> breaker \<times> (failure + permit)" where
  "breaker_Allow now b0 =
     (let b = breaker_advance now b0 in
      case bState b of
        StateClosed \<Rightarrow>
          (b, Inr \<lparr>pmGeneration = bGeneration b, pmProbe = False, pmCompleted = False\<rparr>)
      | StateHalfOpen \<Rightarrow>
          if bHalfOpenInFlight b < HalfOpenMaxProbes (bConfig b)
          then (b\<lparr>bHalfOpenInFlight := bHalfOpenInFlight b + 1\<rparr>,
                Inr \<lparr>pmGeneration = bGeneration b, pmProbe = True, pmCompleted = False\<rparr>)
          else breaker_reject now b
      | StateOpen \<Rightarrow> breaker_reject now b)"

definition breaker_Snapshot :: "time \<Rightarrow> breaker \<Rightarrow> breaker \<times> breaker_snapshot" where
  "breaker_Snapshot now b0 =
     (let b = breaker_advance now b0 in
      (b, \<lparr>bsProviderID = bProviderID b, bsState = bState b,
           bsConsecutiveFailures = bConsecutiveFailures b, bsOpenedUntil = bOpenedUntil b,
           bsHalfOpenInFlight = bHalfOpenInFlight b, bsHalfOpenSuccesses = bHalfOpenSuccesses b,
           bsRejected = bRejected b\<rparr>))"

definition breaker_completeProbe :: "time \<Rightarrow> failure option \<Rightarrow> breaker \<Rightarrow> breaker" where
  "breaker_completeProbe now failure b0 =
     (if bState b0 \<noteq> StateHalfOpen then b0
      else let b = (if bHalfOpenInFlight b0 > 0
                    then b0\<lparr>bHalfOpenInFlight := bHalfOpenInFlight b0 - 1\<rparr> else b0) in
        if failure = None then
          (let b' = b\<lparr>bHalfOpenSuccesses := bHalfOpenSuccesses b + 1\<rparr> in
           if bHalfOpenSuccesses b' \<ge> HalfOpenMaxProbes (bConfig b') then breaker_close b' else b')
        else if CountBreaker (SignalsFor failure) then breaker_open now b
        else b)"

definition breaker_complete :: "time \<Rightarrow> permit \<Rightarrow> failure option \<Rightarrow> breaker \<Rightarrow> breaker" where
  "breaker_complete now permit failure b =
     (if pmGeneration permit \<noteq> bGeneration b then b
      else if pmProbe permit then breaker_completeProbe now failure b
      else if bState b \<noteq> StateClosed then b
      else if failure = None then b\<lparr>bConsecutiveFailures := 0\<rparr>
      else if \<not> CountBreaker (SignalsFor failure) then b
      else let b' = b\<lparr>bConsecutiveFailures := bConsecutiveFailures b + 1\<rparr> in
        if bConsecutiveFailures b' \<ge> FailureThreshold (bConfig b') then breaker_open now b' else b')"

definition breaker_abandon :: "permit \<Rightarrow> breaker \<Rightarrow> breaker" where
  "breaker_abandon permit b =
     (if pmGeneration permit = bGeneration b \<and> pmProbe permit \<and> bState b = StateHalfOpen
         \<and> bHalfOpenInFlight b > 0
      then b\<lparr>bHalfOpenInFlight := bHalfOpenInFlight b - 1\<rparr> else b)"

definition permit_Complete ::
  "time \<Rightarrow> failure option \<Rightarrow> breaker \<Rightarrow> permit \<Rightarrow> breaker \<times> permit \<times> bool" where
  "permit_Complete now failure b permit =
     (if pmCompleted permit then (b, permit, False)
      else (breaker_complete now permit failure b, permit\<lparr>pmCompleted := True\<rparr>, True))"

definition permit_Abandon :: "breaker \<Rightarrow> permit \<Rightarrow> breaker \<times> permit \<times> bool" where
  "permit_Abandon b permit =
     (if pmCompleted permit then (b, permit, False)
      else (breaker_abandon permit b, permit\<lparr>pmCompleted := True\<rparr>, True))"

lemmas breaker_moves =
  breaker_advance_def breaker_open_def breaker_close_def breaker_reject_def
  breaker_completeProbe_def breaker_abandon_def

section \<open>The invariant of the fields\<close>

definition breaker_inv :: "breaker \<Rightarrow> bool" where
  "breaker_inv b \<longleftrightarrow>
     breaker_validate (bConfig b) = None \<and>
     (case bState b of
        StateClosed \<Rightarrow> 0 \<le> bConsecutiveFailures b \<and> bConsecutiveFailures b < FailureThreshold (bConfig b)
          \<and> bHalfOpenInFlight b = 0 \<and> bHalfOpenSuccesses b = 0
      | StateOpen \<Rightarrow> bConsecutiveFailures b = FailureThreshold (bConfig b)
          \<and> bHalfOpenInFlight b = 0 \<and> bHalfOpenSuccesses b = 0
      | StateHalfOpen \<Rightarrow> bConsecutiveFailures b = FailureThreshold (bConfig b)
          \<and> 0 \<le> bHalfOpenInFlight b \<and> bHalfOpenInFlight b \<le> HalfOpenMaxProbes (bConfig b)
          \<and> 0 \<le> bHalfOpenSuccesses b \<and> bHalfOpenSuccesses b < HalfOpenMaxProbes (bConfig b))"

lemma breaker_validate_None:
  "breaker_validate c = None \<longleftrightarrow>
     1 \<le> FailureThreshold c \<and> FailureThreshold c \<le> 1000 \<and>
     1000000000 \<le> OpenDuration c \<and> OpenDuration c \<le> 600000000000 \<and>
     1 \<le> HalfOpenMaxProbes c \<and> HalfOpenMaxProbes c \<le> 100"
  by (auto simp: breaker_validate_def config_defs not_less)

lemma NewBreaker_inv: "NewBreaker p c = Inr b \<Longrightarrow> breaker_inv b"
  by (auto simp: NewBreaker_def Let_def breaker_inv_def breaker_validate_None
      split: if_splits option.splits)

lemma breaker_open_inv: "breaker_inv b \<Longrightarrow> breaker_inv (breaker_open now b)"
  by (simp add: breaker_inv_def breaker_open_def)

lemma breaker_close_inv: "breaker_inv b \<Longrightarrow> breaker_inv (breaker_close b)"
  by (simp add: breaker_inv_def breaker_close_def breaker_validate_None)

lemma breaker_advance_inv: "breaker_inv b \<Longrightarrow> breaker_inv (breaker_advance now b)"
  by (auto simp: breaker_inv_def breaker_advance_def breaker_validate_None)

lemma breaker_reject_inv: "breaker_inv b \<Longrightarrow> breaker_inv (fst (breaker_reject now b))"
  by (cases "bState b") (simp_all add: breaker_inv_def breaker_reject_def Let_def)

lemma breaker_inv_rejected [simp]: "breaker_inv (b\<lparr>bRejected := r\<rparr>) = breaker_inv b"
  by (cases "bState b") (simp_all add: breaker_inv_def)

lemma breaker_Allow_inv: "breaker_inv b \<Longrightarrow> breaker_inv (fst (breaker_Allow now b))"
proof -
  assume "breaker_inv b"
  then have i: "breaker_inv (breaker_advance now b)" by (rule breaker_advance_inv)
  show ?thesis
  proof (cases "bState (breaker_advance now b)")
    case StateClosed
    with i show ?thesis by (simp add: breaker_Allow_def Let_def)
  next
    case StateOpen
    with breaker_reject_inv [OF i] show ?thesis by (simp add: breaker_Allow_def Let_def)
  next
    case StateHalfOpen
    with breaker_reject_inv [OF i] i show ?thesis
      by (auto simp: breaker_Allow_def Let_def breaker_inv_def)
  qed
qed

lemma breaker_completeProbe_inv: "breaker_inv b \<Longrightarrow> breaker_inv (breaker_completeProbe now f b)"
  by (cases "bState b")
    (auto simp: breaker_completeProbe_def Let_def breaker_inv_def breaker_validate_None
      breaker_open_def breaker_close_def)

lemma breaker_complete_inv: "breaker_inv b \<Longrightarrow> breaker_inv (breaker_complete now p f b)"
proof -
  assume b: "breaker_inv b"
  have "breaker_inv (b\<lparr>bConsecutiveFailures := 0\<rparr>)" if "bState b = StateClosed"
    using b that by (simp add: breaker_inv_def breaker_validate_None)
  moreover have "breaker_inv (breaker_open now (b\<lparr>bConsecutiveFailures := n\<rparr>))" for n
    using b by (simp add: breaker_inv_def breaker_open_def)
  moreover have "breaker_inv (b\<lparr>bConsecutiveFailures := bConsecutiveFailures b + 1\<rparr>)"
    if "bState b = StateClosed" "bConsecutiveFailures b + 1 < FailureThreshold (bConfig b)"
    using b that by (simp add: breaker_inv_def)
  ultimately show ?thesis
    using b breaker_completeProbe_inv [OF b] by (simp add: breaker_complete_def Let_def not_le)
qed

lemma breaker_abandon_inv: "breaker_inv b \<Longrightarrow> breaker_inv (breaker_abandon p b)"
  by (auto simp: breaker_abandon_def breaker_inv_def)

section \<open>Interleavings\<close>

text \<open>
  All callers of one breaker: the breaker and every permit it has issued, in order. An
  event is one method call, at the point where it holds the mutex.
\<close>

record breaker_sys =
  sysBreaker :: breaker
  sysPermits :: "permit list"

datatype breaker_event =
    EvAllow time
  | EvComplete nat "failure option" time
  | EvAbandon nat
  | EvSnapshot time

fun breaker_exec :: "breaker_sys \<Rightarrow> breaker_event \<Rightarrow> breaker_sys" where
  "breaker_exec s (EvAllow now) =
     (case breaker_Allow now (sysBreaker s) of
        (b, Inl f) \<Rightarrow> s\<lparr>sysBreaker := b\<rparr>
      | (b, Inr p) \<Rightarrow> s\<lparr>sysBreaker := b, sysPermits := sysPermits s @ [p]\<rparr>)"
| "breaker_exec s (EvComplete i failure now) =
     (if i < length (sysPermits s)
      then (case permit_Complete now failure (sysBreaker s) (sysPermits s ! i) of
              (b, p, done) \<Rightarrow> s\<lparr>sysBreaker := b, sysPermits := (sysPermits s)[i := p]\<rparr>)
      else s)"
| "breaker_exec s (EvAbandon i) =
     (if i < length (sysPermits s)
      then (case permit_Abandon (sysBreaker s) (sysPermits s ! i) of
              (b, p, done) \<Rightarrow> s\<lparr>sysBreaker := b, sysPermits := (sysPermits s)[i := p]\<rparr>)
      else s)"
| "breaker_exec s (EvSnapshot now) = s\<lparr>sysBreaker := fst (breaker_Snapshot now (sysBreaker s))\<rparr>"

fun breaker_run :: "breaker_sys \<Rightarrow> breaker_event list \<Rightarrow> breaker_sys" where
  "breaker_run s [] = s"
| "breaker_run s (e # es) = breaker_run (breaker_exec s e) es"

definition breaker_start :: "breaker \<Rightarrow> breaker_sys" where
  "breaker_start b = \<lparr>sysBreaker = b, sysPermits = []\<rparr>"

text \<open>A probe of the current generation whose outcome is not known yet.\<close>

definition live_probe :: "uint64 \<Rightarrow> permit \<Rightarrow> bool" where
  "live_probe g p \<longleftrightarrow> pmProbe p \<and> \<not> pmCompleted p \<and> pmGeneration p = g"

definition outstanding_probes :: "breaker_sys \<Rightarrow> nat" where
  "outstanding_probes s = length (filter (live_probe (bGeneration (sysBreaker s))) (sysPermits s))"

definition sys_inv :: "breaker_sys \<Rightarrow> bool" where
  "sys_inv s \<longleftrightarrow> breaker_inv (sysBreaker s) \<and>
     int (outstanding_probes s) = bHalfOpenInFlight (sysBreaker s) \<and>
     (\<forall>p \<in> set (sysPermits s). unat (pmGeneration p) \<le> unat (bGeneration (sysBreaker s)))"

text \<open>
  A move that starts a new generation leaves no live probe behind: older permits have
  smaller generations as long as the counter has not wrapped.
\<close>

lemma fresh_generation:
  assumes "\<forall>p \<in> set ps. unat (pmGeneration p) \<le> unat g" and "unat (g :: uint64) < 2 ^ 64 - 1"
  shows "filter (live_probe (g + 1)) ps = []"
proof -
  have "\<not> live_probe (g + 1) p" if "p \<in> set ps" for p
    using assms(1) that unat_suc [OF assms(2)] by (auto simp: live_probe_def)
  then show ?thesis by (simp add: filter_empty_conv)
qed

definition same_gen :: "breaker \<Rightarrow> breaker \<Rightarrow> bool" where
  "same_gen b b' \<longleftrightarrow> bGeneration b' = bGeneration b"

definition next_gen :: "breaker \<Rightarrow> breaker \<Rightarrow> bool" where
  "next_gen b b' \<longleftrightarrow> bGeneration b' = bGeneration b + 1 \<and> bHalfOpenInFlight b' = 0"

text \<open>A method either keeps the generation or starts the next one with no probe in flight.\<close>

lemma breaker_advance_gen: "breaker_advance now b = b \<or> next_gen b (breaker_advance now b)"
  by (simp add: breaker_advance_def next_gen_def)

lemma sys_inv_next_gen:
  assumes "sys_inv s" and "next_gen (sysBreaker s) b" and "breaker_inv b"
    and "unat (bGeneration (sysBreaker s)) < 2 ^ 64 - 1"
    and "map pmGeneration ps = map pmGeneration (sysPermits s)"
  shows "sys_inv \<lparr>sysBreaker = b, sysPermits = ps\<rparr>"
proof -
  have gens: "pmGeneration ` set ps = pmGeneration ` set (sysPermits s)"
    using assms(5) by (metis set_map)
  have old: "\<forall>p \<in> set ps. unat (pmGeneration p) \<le> unat (bGeneration (sysBreaker s))"
  proof
    fix p assume "p \<in> set ps"
    with gens obtain q where "q \<in> set (sysPermits s)" "pmGeneration q = pmGeneration p" by force
    with assms(1) show "unat (pmGeneration p) \<le> unat (bGeneration (sysBreaker s))"
      by (auto simp: sys_inv_def)
  qed
  with assms(2,4) have "filter (live_probe (bGeneration b)) ps = []"
    by (simp add: next_gen_def fresh_generation)
  moreover have "\<forall>p \<in> set ps. unat (pmGeneration p) \<le> unat (bGeneration b)"
    using old assms(2,4) by (auto simp: next_gen_def unat_suc)
  ultimately show ?thesis using assms(2,3) by (simp add: sys_inv_def outstanding_probes_def next_gen_def)
qed

lemma sys_inv_advance:
  assumes "sys_inv s" and "unat (bGeneration (sysBreaker s)) < 2 ^ 64 - 1"
  shows "sys_inv (s\<lparr>sysBreaker := breaker_advance now (sysBreaker s)\<rparr>)"
  using breaker_advance_gen [of now "sysBreaker s"]
proof
  assume "breaker_advance now (sysBreaker s) = sysBreaker s"
  with assms(1) show ?thesis by simp
next
  assume "next_gen (sysBreaker s) (breaker_advance now (sysBreaker s))"
  with assms have "sys_inv \<lparr>sysBreaker = breaker_advance now (sysBreaker s), sysPermits = sysPermits s\<rparr>"
    by (intro sys_inv_next_gen) (auto simp: sys_inv_def intro: breaker_advance_inv)
  then show ?thesis by (cases s) simp
qed

lemma breaker_advance_bound: "unat (bGeneration (breaker_advance now b)) \<le> unat (bGeneration b) + 1"
  by (auto simp: breaker_advance_def unat_word_ariths intro: order_trans [OF mod_less_eq_dividend])

lemma sys_inv_Allow:
  assumes "sys_inv s" and "unat (bGeneration (sysBreaker s)) < 2 ^ 64 - 1"
  shows "sys_inv (breaker_exec s (EvAllow now))"
proof -
  define b where "b = breaker_advance now (sysBreaker s)"
  have i: "sys_inv (s\<lparr>sysBreaker := b\<rparr>)" unfolding b_def by (rule sys_inv_advance [OF assms])
  have rej: "sys_inv (s\<lparr>sysBreaker := b\<lparr>bRejected := r\<rparr>\<rparr>)" for r
    using i by (simp add: sys_inv_def outstanding_probes_def)
  show ?thesis
  proof (cases "bState b")
    case StateClosed
    with i show ?thesis
      by (auto simp: breaker_Allow_def b_def [symmetric] sys_inv_def outstanding_probes_def live_probe_def)
  next
    case StateOpen
    with rej show ?thesis by (simp add: breaker_Allow_def b_def [symmetric] breaker_reject_def Let_def)
  next
    case StateHalfOpen
    with rej i show ?thesis
      by (auto simp: breaker_Allow_def b_def [symmetric] breaker_reject_def Let_def sys_inv_def
          outstanding_probes_def live_probe_def breaker_inv_def)
  qed
qed

text \<open>Completing or abandoning a permit.\<close>

definition settles :: "permit \<Rightarrow> breaker \<Rightarrow> breaker \<Rightarrow> bool" where
  "settles p b b' \<longleftrightarrow> next_gen b b' \<or>
     (bGeneration b' = bGeneration b \<and>
      bHalfOpenInFlight b' = bHalfOpenInFlight b - (if live_probe (bGeneration b) p then 1 else 0))"

lemma half_open_if_in_flight: "breaker_inv b \<Longrightarrow> 0 < bHalfOpenInFlight b \<Longrightarrow> bState b = StateHalfOpen"
  by (cases "bState b") (simp_all add: breaker_inv_def)

lemma breaker_complete_settles:
  assumes "breaker_inv b" and "\<not> pmCompleted p"
    and "live_probe (bGeneration b) p \<Longrightarrow> 0 < bHalfOpenInFlight b"
  shows "settles p b (breaker_complete now p f b)"
proof (cases "live_probe (bGeneration b) p")
  case True
  with assms have "bState b = StateHalfOpen" "0 < bHalfOpenInFlight b"
    by (auto intro: half_open_if_in_flight)
  with True show ?thesis
    by (auto simp: live_probe_def breaker_complete_def breaker_completeProbe_def Let_def settles_def
        next_gen_def breaker_open_def breaker_close_def)
next
  case False
  with assms(2) show ?thesis
    by (auto simp: live_probe_def breaker_complete_def Let_def settles_def next_gen_def breaker_open_def)
qed

lemma breaker_abandon_settles:
  assumes "breaker_inv b" and "\<not> pmCompleted p"
    and "live_probe (bGeneration b) p \<Longrightarrow> 0 < bHalfOpenInFlight b"
  shows "settles p b (breaker_abandon p b)"
proof (cases "live_probe (bGeneration b) p")
  case True
  with assms have "bState b = StateHalfOpen" "0 < bHalfOpenInFlight b"
    by (auto intro: half_open_if_in_flight)
  with True show ?thesis by (auto simp: live_probe_def breaker_abandon_def settles_def)
next
  case False
  with assms(2) show ?thesis by (auto simp: live_probe_def breaker_abandon_def settles_def)
qed

lemma live_probe_in_flight:
  assumes "sys_inv s" and "i < length (sysPermits s)"
    and "live_probe (bGeneration (sysBreaker s)) (sysPermits s ! i)"
  shows "0 < bHalfOpenInFlight (sysBreaker s)"
proof -
  have "sysPermits s ! i \<in> set (filter (live_probe (bGeneration (sysBreaker s))) (sysPermits s))"
    using assms(2,3) by simp
  then have "0 < outstanding_probes s"
    unfolding outstanding_probes_def by (metis length_pos_if_in_set)
  with assms(1) show ?thesis by (simp add: sys_inv_def)
qed

lemma sys_inv_settle:
  assumes "sys_inv s" and "unat (bGeneration (sysBreaker s)) < 2 ^ 64 - 1"
    and "i < length (sysPermits s)" and "breaker_inv b"
    and "settles (sysPermits s ! i) (sysBreaker s) b"
  shows "sys_inv \<lparr>sysBreaker = b, sysPermits = (sysPermits s)[i := (sysPermits s ! i)\<lparr>pmCompleted := True\<rparr>]\<rparr>"
    (is "sys_inv \<lparr>sysBreaker = b, sysPermits = ?ps\<rparr>")
proof (cases "next_gen (sysBreaker s) b")
  case True
  have "map pmGeneration ?ps = map pmGeneration (sysPermits s)"
    using assms(3) by (simp add: map_update list_update_same_conv)
  with assms(1,2,4) True show ?thesis by (intro sys_inv_next_gen)
next
  case False
  let ?p = "sysPermits s ! i"
  have gen: "bGeneration b = bGeneration (sysBreaker s)"
    and cnt: "bHalfOpenInFlight b = bHalfOpenInFlight (sysBreaker s)
                - (if live_probe (bGeneration (sysBreaker s)) ?p then 1 else 0)"
    using False assms(5) by (auto simp: settles_def)
  have dead: "\<not> live_probe g (?p\<lparr>pmCompleted := True\<rparr>)" for g by (simp add: live_probe_def)
  have "int (length (filter (live_probe (bGeneration b)) ?ps)) = bHalfOpenInFlight b"
    using assms(1) gen cnt dead
    by (simp add: count_update [OF assms(3)] sys_inv_def outstanding_probes_def)
  moreover have "\<forall>p \<in> set ?ps. unat (pmGeneration p) \<le> unat (bGeneration b)"
    using assms(1,3) gen by (auto simp: sys_inv_def dest!: set_update_subset_insert [THEN subsetD])
  ultimately show ?thesis using assms(4) by (simp add: sys_inv_def outstanding_probes_def)
qed

lemma sys_inv_exec:
  assumes "sys_inv s" and "unat (bGeneration (sysBreaker s)) < 2 ^ 64 - 1"
  shows "sys_inv (breaker_exec s e)"
proof (cases e)
  case (EvAllow now)
  with sys_inv_Allow [OF assms] show ?thesis by simp
next
  case (EvComplete i f now)
  let ?b = "sysBreaker s" and ?p = "sysPermits s ! i"
  have inv: "breaker_inv ?b" using assms(1) by (simp add: sys_inv_def)
  have "sys_inv \<lparr>sysBreaker = breaker_complete now ?p f ?b,
      sysPermits = (sysPermits s)[i := ?p\<lparr>pmCompleted := True\<rparr>]\<rparr>"
    if "i < length (sysPermits s)" "\<not> pmCompleted ?p"
    using assms that inv
    by (intro sys_inv_settle breaker_complete_settles breaker_complete_inv live_probe_in_flight)
  with assms(1) EvComplete show ?thesis by (cases s) (auto simp: permit_Complete_def)
next
  case (EvAbandon i)
  let ?b = "sysBreaker s" and ?p = "sysPermits s ! i"
  have inv: "breaker_inv ?b" using assms(1) by (simp add: sys_inv_def)
  have "sys_inv \<lparr>sysBreaker = breaker_abandon ?p ?b,
      sysPermits = (sysPermits s)[i := ?p\<lparr>pmCompleted := True\<rparr>]\<rparr>"
    if "i < length (sysPermits s)" "\<not> pmCompleted ?p"
    using assms that inv
    by (intro sys_inv_settle breaker_abandon_settles breaker_abandon_inv live_probe_in_flight)
  with assms(1) EvAbandon show ?thesis by (cases s) (auto simp: permit_Abandon_def)
next
  case (EvSnapshot now)
  with sys_inv_advance [OF assms] show ?thesis by (simp add: breaker_Snapshot_def Let_def)
qed

text \<open>One event moves the generation by at most one.\<close>

lemma settles_bound: "settles p b b' \<Longrightarrow> unat (bGeneration b') \<le> unat (bGeneration b) + 1"
  by (auto simp: settles_def next_gen_def unat_word_ariths intro: order_trans [OF mod_less_eq_dividend])

lemma breaker_exec_bound:
  assumes "sys_inv s"
  shows "unat (bGeneration (sysBreaker (breaker_exec s e))) \<le> unat (bGeneration (sysBreaker s)) + 1"
proof (cases e)
  case (EvAllow now)
  have "bGeneration (fst (breaker_Allow now b)) = bGeneration (breaker_advance now b)" for b
    by (simp add: breaker_Allow_def breaker_reject_def Let_def split: breaker_state.split)
  then have "bGeneration (sysBreaker (breaker_exec s e)) = bGeneration (breaker_advance now (sysBreaker s))"
    using EvAllow by (auto split: prod.split sum.split simp: prod.case_eq_if)
  with breaker_advance_bound show ?thesis by simp
next
  case (EvComplete i f now)
  let ?b = "sysBreaker s" and ?p = "sysPermits s ! i"
  have inv: "breaker_inv ?b" using assms(1) by (simp add: sys_inv_def)
  have "settles ?p ?b (breaker_complete now ?p f ?b)" if "i < length (sysPermits s)" "\<not> pmCompleted ?p"
    using assms that inv by (intro breaker_complete_settles live_probe_in_flight)
  with EvComplete settles_bound show ?thesis by (auto simp: permit_Complete_def)
next
  case (EvAbandon i)
  then show ?thesis by (auto simp: permit_Abandon_def breaker_abandon_def)
next
  case (EvSnapshot now)
  with breaker_advance_bound show ?thesis by (simp add: breaker_Snapshot_def Let_def)
qed

lemma breaker_run_inv:
  assumes "sys_inv s" and "unat (bGeneration (sysBreaker s)) + length es < 2 ^ 64"
  shows "sys_inv (breaker_run s es) \<and> unat (bGeneration (sysBreaker (breaker_run s es))) \<le>
           unat (bGeneration (sysBreaker s)) + length es"
  using assms
proof (induction es arbitrary: s)
  case Nil
  then show ?case by simp
next
  case (Cons e es)
  then have "sys_inv (breaker_exec s e)" by (intro sys_inv_exec) simp_all
  moreover note breaker_exec_bound [OF Cons.prems(1), of e]
  ultimately show ?case using Cons.IH [of "breaker_exec s e"] Cons.prems(2) by simp
qed

lemma breaker_start_inv: "NewBreaker p c = Inr b \<Longrightarrow> sys_inv (breaker_start b)"
  using NewBreaker_inv [of p c b]
  by (auto simp: breaker_start_def sys_inv_def outstanding_probes_def NewBreaker_def Let_def
      split: if_splits option.splits)

lemma NewBreaker_generation: "NewBreaker p c = Inr b \<Longrightarrow> bGeneration b = 0"
  by (auto simp: NewBreaker_def Let_def split: if_splits option.splits)

section \<open>Behaviour over time\<close>

lemma breaker_config_kept [simp]:
  "bConfig (breaker_advance now b) = bConfig b"
  "bConfig (breaker_open now b) = bConfig b"
  "bConfig (breaker_close b) = bConfig b"
  "bConfig (fst (breaker_reject now b)) = bConfig b"
  "bConfig (breaker_completeProbe now f b) = bConfig b"
  "bConfig (breaker_abandon p b) = bConfig b"
  by (simp_all add: breaker_moves Let_def)

lemma breaker_Allow_config [simp]: "bConfig (fst (breaker_Allow now b)) = bConfig b"
  by (simp add: breaker_Allow_def Let_def split: breaker_state.split)

lemma breaker_complete_config [simp]: "bConfig (breaker_complete now p f b) = bConfig b"
  by (simp add: breaker_complete_def Let_def)

lemma breaker_exec_config [simp]: "bConfig (sysBreaker (breaker_exec s e)) = bConfig (sysBreaker s)"
proof (cases e)
  case (EvAllow now)
  obtain b r where "breaker_Allow now (sysBreaker s) = (b, r)" by fastforce
  then show ?thesis
    using EvAllow breaker_Allow_config [of now "sysBreaker s"] by (auto split: sum.split)
qed (simp_all add: permit_Complete_def permit_Abandon_def breaker_Snapshot_def Let_def)

lemma breaker_run_config [simp]: "bConfig (sysBreaker (breaker_run s es)) = bConfig (sysBreaker s)"
  by (induction es arbitrary: s) simp_all

text \<open>While an open breaker's interval lasts, nothing but the reject counter changes.\<close>

fun event_before :: "time \<Rightarrow> breaker_event \<Rightarrow> bool" where
  "event_before t (EvAllow now) \<longleftrightarrow> now < t"
| "event_before t (EvComplete i f now) \<longleftrightarrow> now < t"
| "event_before t (EvAbandon i) \<longleftrightarrow> True"
| "event_before t (EvSnapshot now) \<longleftrightarrow> now < t"

lemma breaker_exec_open:
  assumes "bState (sysBreaker s) = StateOpen" and "event_before (bOpenedUntil (sysBreaker s)) e"
  shows "\<exists>r. sysBreaker (breaker_exec s e) = (sysBreaker s)\<lparr>bRejected := r\<rparr>"
    and "length (sysPermits (breaker_exec s e)) = length (sysPermits s)"
proof -
  have upd: "\<exists>r. sysBreaker s = (sysBreaker s)\<lparr>bRejected := r\<rparr>"
    by (rule exI [of _ "bRejected (sysBreaker s)"]) simp
  show "\<exists>r. sysBreaker (breaker_exec s e) = (sysBreaker s)\<lparr>bRejected := r\<rparr>"
    by (cases e) (use assms upd in \<open>auto simp: breaker_Allow_def breaker_advance_def breaker_reject_def
        Let_def permit_Complete_def permit_Abandon_def breaker_complete_def breaker_completeProbe_def
        breaker_abandon_def breaker_Snapshot_def\<close>)
  show "length (sysPermits (breaker_exec s e)) = length (sysPermits s)"
    by (cases e) (use assms in \<open>auto simp: breaker_Allow_def breaker_advance_def breaker_reject_def
        Let_def permit_Complete_def permit_Abandon_def breaker_Snapshot_def\<close>)
qed

lemma breaker_run_open:
  assumes "bState (sysBreaker s) = StateOpen"
    and "\<forall>e \<in> set es. event_before (bOpenedUntil (sysBreaker s)) e"
  shows "\<exists>r. sysBreaker (breaker_run s es) = (sysBreaker s)\<lparr>bRejected := r\<rparr>"
    and "length (sysPermits (breaker_run s es)) = length (sysPermits s)"
  using assms
proof (induction es arbitrary: s)
  case Nil
  { case 1 show ?case by (rule exI [of _ "bRejected (sysBreaker s)"]) simp
  next case 2 show ?case by simp }
next
  case (Cons e es)
  { case 1
    from breaker_exec_open(1) [of s e] 1 obtain r where
      "sysBreaker (breaker_exec s e) = (sysBreaker s)\<lparr>bRejected := r\<rparr>" by auto
    with Cons.IH(1) [of "breaker_exec s e"] 1 show ?case by auto
  next
    case 2
    from breaker_exec_open(1) [of s e] 2 obtain r where
      "sysBreaker (breaker_exec s e) = (sysBreaker s)\<lparr>bRejected := r\<rparr>" by auto
    with Cons.IH(2) [of "breaker_exec s e"] breaker_exec_open(2) [of s e] 2 show ?case by auto }
qed

text \<open>Counted failures of ordinary permits, one after the other.\<close>

fun complete_failures :: "(permit \<times> failure \<times> time) list \<Rightarrow> breaker \<Rightarrow> breaker" where
  "complete_failures [] b = b"
| "complete_failures ((p, f, now) # xs) b = complete_failures xs (breaker_complete now p (Some f) b)"

definition counted_failure :: "uint64 \<Rightarrow> permit \<times> failure \<times> time \<Rightarrow> bool" where
  "counted_failure g x \<longleftrightarrow> (case x of (p, f, now) \<Rightarrow>
     \<not> pmProbe p \<and> pmGeneration p = g \<and> CountBreaker (SignalsFor (Some f)))"

lemma complete_counted:
  assumes "bState b = StateClosed" and "counted_failure (bGeneration b) (p, f, now)"
  shows "breaker_complete now p (Some f) b =
    (if bConsecutiveFailures b + 1 \<ge> FailureThreshold (bConfig b)
     then breaker_open now (b\<lparr>bConsecutiveFailures := bConsecutiveFailures b + 1\<rparr>)
     else b\<lparr>bConsecutiveFailures := bConsecutiveFailures b + 1\<rparr>)"
  using assms by (simp add: breaker_complete_def counted_failure_def Let_def)

lemma complete_failures_below:
  assumes "bState b = StateClosed" and "\<forall>x \<in> set xs. counted_failure (bGeneration b) x"
    and "bConsecutiveFailures b + int (length xs) < FailureThreshold (bConfig b)"
  shows "complete_failures xs b = b\<lparr>bConsecutiveFailures := bConsecutiveFailures b + int (length xs)\<rparr>"
  using assms
proof (induction xs arbitrary: b)
  case (Cons x xs)
  obtain p f now where x: "x = (p, f, now)" by (cases x)
  with Cons.prems have "breaker_complete now p (Some f) b =
      b\<lparr>bConsecutiveFailures := bConsecutiveFailures b + 1\<rparr>"
    by (simp add: complete_counted)
  with x Cons.IH [of "b\<lparr>bConsecutiveFailures := bConsecutiveFailures b + 1\<rparr>"] Cons.prems show ?case
    by simp
qed simp

lemma complete_failures_append: "complete_failures (xs @ ys) b = complete_failures ys (complete_failures xs b)"
  by (induction xs arbitrary: b) auto

text \<open>Probes of a half-open breaker: a run of grants, then a run of successes.\<close>

definition half_open_with :: "breaker \<Rightarrow> int \<Rightarrow> int \<Rightarrow> breaker" where
  "half_open_with b inFlight successes =
     b\<lparr>bState := StateHalfOpen, bGeneration := bGeneration b + 1,
       bHalfOpenInFlight := inFlight, bHalfOpenSuccesses := successes\<rparr>"

definition probe_permit :: "breaker \<Rightarrow> bool \<Rightarrow> permit" where
  "probe_permit b done = \<lparr>pmGeneration = bGeneration b + 1, pmProbe = True, pmCompleted = done\<rparr>"

lemma run_append: "breaker_run s (xs @ ys) = breaker_run (breaker_run s xs) ys"
  by (induction xs arbitrary: s) auto

lemma grant_probes:
  assumes "bState (sysBreaker s) = StateOpen" and "bOpenedUntil (sysBreaker s) \<le> now"
    and "int (Suc k) \<le> HalfOpenMaxProbes (bConfig (sysBreaker s))"
  shows "breaker_run s (replicate (Suc k) (EvAllow now)) =
    \<lparr>sysBreaker = half_open_with (sysBreaker s) (int (Suc k)) 0,
     sysPermits = sysPermits s @ replicate (Suc k) (probe_permit (sysBreaker s) False)\<rparr>"
  using assms(3)
proof (induction k)
  case 0
  with assms show ?case
    by (simp add: breaker_Allow_def breaker_advance_def Let_def half_open_with_def probe_permit_def)
next
  case (Suc k)
  have "replicate (Suc (Suc k)) (EvAllow now) = replicate (Suc k) (EvAllow now) @ [EvAllow now]"
    by (simp add: replicate_append_same)
  moreover have "breaker_exec
      \<lparr>sysBreaker = half_open_with (sysBreaker s) (int (Suc k)) 0, sysPermits = ps\<rparr> (EvAllow now) =
      \<lparr>sysBreaker = half_open_with (sysBreaker s) (int (Suc (Suc k))) 0,
       sysPermits = ps @ [probe_permit (sysBreaker s) False]\<rparr>" for ps
    using Suc.prems
    by (simp add: breaker_Allow_def breaker_advance_def Let_def half_open_with_def probe_permit_def)
  ultimately show ?case
    using Suc by (simp only: run_append breaker_run.simps) (simp add: replicate_append_same)
qed

definition success_events :: "nat \<Rightarrow> nat \<Rightarrow> time \<Rightarrow> breaker_event list" where
  "success_events first n now = map (\<lambda>i. EvComplete (first + i) None now) [0..<n]"

lemma succeed_probes:
  assumes "int n = HalfOpenMaxProbes (bConfig b)" and "k < n"
  shows "breaker_run \<lparr>sysBreaker = half_open_with b (int n) 0,
             sysPermits = ps @ replicate n (probe_permit b False)\<rparr> (success_events (length ps) k now) =
    \<lparr>sysBreaker = half_open_with b (int n - int k) (int k),
     sysPermits = ps @ replicate k (probe_permit b True) @ replicate (n - k) (probe_permit b False)\<rparr>"
  using assms(2)
proof (induction k)
  case 0
  then show ?case by (simp add: success_events_def)
next
  case (Suc k)
  have upd: "replicate k x @ (replicate (n - k) y)[0 := x] = x # replicate k x @ replicate (n - Suc k) y"
    for x y :: permit
  proof -
    from Suc.prems have "n - k = Suc (n - Suc k)" by simp
    then have "(replicate (n - k) y)[0 := x] = x # replicate (n - Suc k) y" by simp
    then show ?thesis by (simp add: replicate_app_Cons_same)
  qed
  have "success_events (length ps) (Suc k) now =
      success_events (length ps) k now @ [EvComplete (length ps + k) None now]"
    by (simp add: success_events_def)
  with Suc show ?case using assms(1)
    by (simp add: run_append permit_Complete_def breaker_complete_def breaker_completeProbe_def Let_def
        nth_append list_update_append upd half_open_with_def probe_permit_def)
qed

section \<open>The registry\<close>

text \<open>
  \<open>breaker_registry.go\<close>. The map holds the breakers themselves, so an operation on one
  breaker returns the registry with that entry replaced. \<open>ReuseProvider\<close> copies the entry of
  the previous registry; the pointer shared with the old runtime snapshot is the state
  that entry holds at the hand-over.
\<close>

record breaker_registry =
  brBreakers :: "string \<rightharpoonup> breaker"
  brIDs :: "string list"

definition breaker_mk :: "unit \<Rightarrow> string \<Rightarrow> breaker_config \<Rightarrow> registry_error + (unit \<times> breaker)" where
  "breaker_mk u providerID config =
     (case NewBreaker providerID config of
        Inl e \<Rightarrow> Inl (InvalidConfigFor providerID e)
      | Inr b \<Rightarrow> Inr ((), b))"

definition NewBreakerRegistryWithConfigs ::
  "string list \<Rightarrow> (string \<rightharpoonup> breaker_config) \<Rightarrow> registry_error + breaker_registry" where
  "NewBreakerRegistryWithConfigs providerIDs configs =
     (case registry_build breaker_mk () providerIDs configs of
        Inl e \<Rightarrow> Inl e
      | Inr (u, breakers, ids) \<Rightarrow> Inr \<lparr>brBreakers = breakers, brIDs = ids\<rparr>)"

definition NewBreakerRegistry :: "string list \<Rightarrow> breaker_config \<Rightarrow> registry_error + breaker_registry" where
  "NewBreakerRegistry providerIDs config =
     (case breaker_validate config of
        Some e \<Rightarrow> Inl (InvalidConfigFor [] e)
      | None \<Rightarrow> NewBreakerRegistryWithConfigs providerIDs
                  (map_of (map (\<lambda>p. (trim_space p, config)) providerIDs)))"

fun from_breakers_loop ::
  "time \<Rightarrow> nat \<Rightarrow> breaker option list \<Rightarrow> (string \<rightharpoonup> breaker) \<Rightarrow> string list
     \<Rightarrow> registry_error + ((string \<rightharpoonup> breaker) \<times> string list)" where
  "from_breakers_loop now index [] m ids = Inr (m, ids)"
| "from_breakers_loop now index (None # bs) m ids = Inl (NilEntry index)"
| "from_breakers_loop now index (Some b # bs) m ids =
     (let (b', snap) = breaker_Snapshot now b; providerID = bsProviderID snap in
      if m providerID \<noteq> None then Inl (DuplicatedProviderID providerID)
      else from_breakers_loop now (Suc index) bs (m(providerID \<mapsto> b')) (ids @ [providerID]))"

definition NewBreakerRegistryFromBreakers ::
  "time \<Rightarrow> breaker option list \<Rightarrow> registry_error + breaker_registry" where
  "NewBreakerRegistryFromBreakers now configured =
     (case from_breakers_loop now 0 configured Map.empty [] of
        Inl e \<Rightarrow> Inl e
      | Inr (m, ids) \<Rightarrow>
          if ids = [] then Inl NoProviders else Inr \<lparr>brBreakers = m, brIDs = sort ids\<rparr>)"

definition breakers_find :: "breaker_registry \<Rightarrow> string \<Rightarrow> breaker option" where
  "breakers_find registry providerID = brBreakers registry (trim_space providerID)"

definition breakers_Allow ::
  "time \<Rightarrow> string \<Rightarrow> breaker_registry \<Rightarrow> breaker_registry \<times> (failure + permit)" where
  "breakers_Allow now rawID registry =
     (let providerID = trim_space rawID in
      case brBreakers registry providerID of
        None \<Rightarrow> (registry, Inl (set_category CategoryLocalValidation (set_provider providerID
                  (set_cause (Some (ErrSentinel ErrUnknownBreakerProvider)) failure_zero))))
      | Some b \<Rightarrow>
          (case breaker_Allow now b of
             (b', r) \<Rightarrow> (registry\<lparr>brBreakers := (brBreakers registry)(providerID \<mapsto> b')\<rparr>, r)))"

definition breakers_Snapshot ::
  "time \<Rightarrow> string \<Rightarrow> breaker_registry \<Rightarrow> breaker_registry \<times> breaker_snapshot option" where
  "breakers_Snapshot now rawID registry =
     (let providerID = trim_space rawID in
      case brBreakers registry providerID of
        None \<Rightarrow> (registry, None)
      | Some b \<Rightarrow>
          (case breaker_Snapshot now b of
             (b', snap) \<Rightarrow>
               (registry\<lparr>brBreakers := (brBreakers registry)(providerID \<mapsto> b')\<rparr>, Some snap)))"

fun breakers_snapshot_loop ::
  "time \<Rightarrow> string list \<Rightarrow> (string \<rightharpoonup> breaker) \<Rightarrow> (string \<rightharpoonup> breaker) \<times> breaker_snapshot list" where
  "breakers_snapshot_loop now [] m = (m, [])"
| "breakers_snapshot_loop now (p # ps) m =
     (case m p of
        None \<Rightarrow> breakers_snapshot_loop now ps m
      | Some b \<Rightarrow>
          (let (b', snap) = breaker_Snapshot now b;
               (m', snaps) = breakers_snapshot_loop now ps (m(p \<mapsto> b'))
           in (m', snap # snaps)))"

definition breakers_Snapshots ::
  "time \<Rightarrow> breaker_registry \<Rightarrow> breaker_registry \<times> breaker_snapshot list" where
  "breakers_Snapshots now registry =
     (case breakers_snapshot_loop now (brIDs registry) (brBreakers registry) of
        (m, snaps) \<Rightarrow> (registry\<lparr>brBreakers := m\<rparr>, snaps))"

definition breakers_ReuseProvider ::
  "string \<Rightarrow> breaker_registry option \<Rightarrow> breaker_registry \<Rightarrow> breaker_registry \<times> bool" where
  "breakers_ReuseProvider rawID previous registry =
     (let providerID = trim_space rawID in
      case previous of
        None \<Rightarrow> (registry, False)
      | Some prev \<Rightarrow>
          (case (brBreakers registry providerID, brBreakers prev providerID) of
             (Some current, Some existing) \<Rightarrow>
               if bConfig current \<noteq> bConfig existing then (registry, False)
               else (registry\<lparr>brBreakers := (brBreakers registry)(providerID \<mapsto> existing)\<rparr>, True)
           | _ \<Rightarrow> (registry, False)))"

definition breakers_inv :: "breaker_registry \<Rightarrow> bool" where
  "breakers_inv registry \<longleftrightarrow> (\<forall>p b. brBreakers registry p = Some b \<longrightarrow> breaker_inv b)"

lemma breaker_mk_made: "breaker_mk u p c = Inr (u', b) \<Longrightarrow> bConfig b = c \<and> breaker_inv b"
  using NewBreaker_inv [of p c b]
  by (auto simp: breaker_mk_def NewBreaker_def Let_def split: if_splits option.splits sum.splits)

interpretation breaker_reg: provider_registry NewBreakerRegistryWithConfigs brIDs breakers_find
  "\<lambda>p c b. bConfig b = c \<and> breaker_inv b"
proof
  fix ps configs r p and e :: breaker
  assume "NewBreakerRegistryWithConfigs ps configs = Inr r"
  then obtain t m ids where b: "registry_build breaker_mk () ps configs = Inr (t, m, ids)"
    and r: "r = \<lparr>brBreakers = m, brIDs = ids\<rparr>"
    by (auto simp: NewBreakerRegistryWithConfigs_def split: sum.splits)
  note spec = registry_build_spec [OF b]
  show "brIDs r = sort (map trim_space ps)" using spec(1) r by simp
  show "distinct (brIDs r) \<and> brIDs r \<noteq> []" using spec(3,4) r by simp
  show "(breakers_find r p \<noteq> None) = (trim_space p \<in> set (brIDs r))"
    using spec(2) r by (auto simp: breakers_find_def)
  show "\<exists>c. configs (trim_space p) = Some c \<and> bConfig e = c \<and> breaker_inv e"
    if "breakers_find r p = Some e"
    using spec(6) [of "trim_space p" e] that r breaker_mk_made by (fastforce simp: breakers_find_def)
qed

lemma breakers_Allow_inv: "breakers_inv r \<Longrightarrow> breakers_inv (fst (breakers_Allow now p r))"
proof -
  assume inv: "breakers_inv r"
  show ?thesis
  proof (cases "brBreakers r (trim_space p)")
    case None
    with inv show ?thesis by (simp add: breakers_Allow_def Let_def)
  next
    case (Some b)
    with inv have "breaker_inv (fst (breaker_Allow now b))"
      by (auto simp: breakers_inv_def intro: breaker_Allow_inv)
    with inv Some show ?thesis
      by (auto simp: breakers_Allow_def Let_def breakers_inv_def split: prod.split)
  qed
qed

section \<open>Properties\<close>

lemma breaker_inv_in_flight: "breaker_inv b \<Longrightarrow> bHalfOpenInFlight b \<le> HalfOpenMaxProbes (bConfig b)"
  by (cases "bState b") (simp_all add: breaker_inv_def breaker_validate_None)

lemma NewBreaker_config: "NewBreaker p c = Inr b \<Longrightarrow> bConfig b = c"
  by (auto simp: NewBreaker_def Let_def split: if_splits option.splits)

definition example_config :: breaker_config where
  "example_config = \<lparr>FailureThreshold = 2, OpenDuration = 1000000000, HalfOpenMaxProbes = 2\<rparr>"

definition example_breaker :: breaker where
  "example_breaker = \<lparr>bProviderID = ''acme'', bConfig = example_config, bState = StateClosed,
     bGeneration = 0, bConsecutiveFailures = 0, bOpenedUntil = 0, bHalfOpenInFlight = 0,
     bHalfOpenSuccesses = 0, bRejected = 0\<rparr>"

definition example_open :: breaker where
  "example_open = breaker_open 7 example_breaker"

lemma example_breaker_new: "NewBreaker '' acme '' example_config = Inr example_breaker"
  by code_simp

text \<open>
  Claim C10: whatever sequence of Allow, Complete, Abandon and Snapshot calls the concurrent
  callers of a fresh breaker make, the half-open in-flight counter equals the number of
  probe permits of the current generation that are neither completed nor abandoned, and
  never exceeds HalfOpenMaxProbes; the field invariant holds throughout. (Fewer than
  \<open>2 ^ 64\<close> calls, so that the uint64 generation has not wrapped.)
\<close>

theorem breaker_probe_limit:
  assumes "NewBreaker p c = Inr b" and "length es < 2 ^ 64"
  shows "int (outstanding_probes (breaker_run (breaker_start b) es)) =
           bHalfOpenInFlight (sysBreaker (breaker_run (breaker_start b) es)) \<and>
         bHalfOpenInFlight (sysBreaker (breaker_run (breaker_start b) es)) \<le> HalfOpenMaxProbes c \<and>
         breaker_inv (sysBreaker (breaker_run (breaker_start b) es))"
proof -
  let ?s = "breaker_run (breaker_start b) es"
  have "unat (bGeneration (sysBreaker (breaker_start b))) + length es < 2 ^ 64"
    using assms by (simp add: breaker_start_def NewBreaker_generation)
  with breaker_start_inv [OF assms(1)] have "sys_inv ?s" using breaker_run_inv by blast
  moreover have "bConfig (sysBreaker ?s) = c"
    using NewBreaker_config [OF assms(1)] by (simp add: breaker_start_def)
  ultimately show ?thesis using breaker_inv_in_flight [of "sysBreaker ?s"] by (simp add: sys_inv_def)
qed

theorem breaker_probe_limit_witness:
  "bHalfOpenInFlight (sysBreaker (breaker_run (breaker_start example_breaker) [EvAllow 0, EvAllow 1])) \<le> 2"
  using breaker_probe_limit [OF example_breaker_new, of "[EvAllow 0, EvAllow 1]"]
  by (simp add: example_config_def)

text \<open>
  An open breaker keeps its promise. As long as every clock value the callers read
  is before OpenedUntil, no call can get a permit, and no completion of an earlier permit can
  close or re-open the breaker: only the reject counter moves.
\<close>

theorem breaker_open_holds:
  assumes "bState (sysBreaker s) = StateOpen"
    and "\<forall>e \<in> set es. event_before (bOpenedUntil (sysBreaker s)) e"
  shows "(\<exists>r. sysBreaker (breaker_run s es) = (sysBreaker s)\<lparr>bRejected := r\<rparr>) \<and>
         length (sysPermits (breaker_run s es)) = length (sysPermits s)"
  using breaker_run_open [OF assms] by blast

theorem breaker_open_holds_witness:
  "length (sysPermits (breaker_run (breaker_start example_open) [EvAllow 8, EvSnapshot 9])) = 0"
  using breaker_open_holds [of "breaker_start example_open" "[EvAllow 8, EvSnapshot 9]"]
  by (simp add: breaker_start_def example_open_def breaker_open_def example_breaker_def example_config_def)

text \<open>
  A closed breaker trips exactly at the threshold. Counted failures of ordinary
  permits of the current generation leave it closed while their number stays below
  FailureThreshold, and the one that reaches it opens the breaker for OpenDuration from the
  time of that failure.
\<close>

theorem breaker_trips_at_threshold:
  assumes "bState b = StateClosed" and "\<forall>x \<in> set xs. counted_failure (bGeneration b) x"
    and "counted_failure (bGeneration b) (p, f, now)"
    and "bConsecutiveFailures b + int (length xs) + 1 = FailureThreshold (bConfig b)"
  shows "bState (complete_failures xs b) = StateClosed \<and>
         bState (complete_failures (xs @ [(p, f, now)]) b) = StateOpen \<and>
         bOpenedUntil (complete_failures (xs @ [(p, f, now)]) b) = now + OpenDuration (bConfig b)"
proof -
  have below: "complete_failures xs b =
      b\<lparr>bConsecutiveFailures := bConsecutiveFailures b + int (length xs)\<rparr>"
    using assms(1,2,4) by (intro complete_failures_below) simp_all
  moreover have "breaker_complete now p (Some f)
      (b\<lparr>bConsecutiveFailures := bConsecutiveFailures b + int (length xs)\<rparr>) =
      breaker_open now (b\<lparr>bConsecutiveFailures := bConsecutiveFailures b + int (length xs) + 1\<rparr>)"
    using assms(1,3,4) by (simp add: complete_counted)
  ultimately show ?thesis
    using assms(1) by (simp add: complete_failures_append breaker_open_def)
qed

definition example_network_failure :: failure where
  "example_network_failure = set_category CategoryNetwork failure_zero"

definition example_permit :: permit where
  "example_permit = \<lparr>pmGeneration = 0, pmProbe = False, pmCompleted = False\<rparr>"

lemma example_counted: "counted_failure 0 (example_permit, example_network_failure, now)"
  by (simp add: counted_failure_def example_permit_def example_network_failure_def SignalsFor_def)

theorem breaker_trips_at_threshold_witness:
  "bState (complete_failures [(example_permit, example_network_failure, 3),
     (example_permit, example_network_failure, 4)] example_breaker) = StateOpen"
  using breaker_trips_at_threshold [of example_breaker "[(example_permit, example_network_failure, 3)]"
      example_permit example_network_failure 4] example_counted
  by (simp add: example_breaker_def example_config_def)

text \<open>
  An open breaker recovers. Once its interval is over, HalfOpenMaxProbes Allow calls
  are all granted as probes, and when all of these probes succeed the breaker is closed
  again with a clean failure count.
\<close>

theorem breaker_recovers:
  assumes "bState (sysBreaker s) = StateOpen" and "bOpenedUntil (sysBreaker s) \<le> now"
    and "int (Suc k) = HalfOpenMaxProbes (bConfig (sysBreaker s))"
  shows "length (sysPermits (breaker_run s (replicate (Suc k) (EvAllow now)))) =
           length (sysPermits s) + Suc k \<and>
         bState (sysBreaker (breaker_run s (replicate (Suc k) (EvAllow now) @
           success_events (length (sysPermits s)) (Suc k) later))) = StateClosed \<and>
         bConsecutiveFailures (sysBreaker (breaker_run s (replicate (Suc k) (EvAllow now) @
           success_events (length (sysPermits s)) (Suc k) later))) = 0"
proof -
  let ?b = "sysBreaker s" and ?ps = "sysPermits s"
  have grant: "breaker_run s (replicate (Suc k) (EvAllow now)) =
      \<lparr>sysBreaker = half_open_with ?b (int (Suc k)) 0,
       sysPermits = ?ps @ replicate (Suc k) (probe_permit ?b False)\<rparr>"
    using assms by (intro grant_probes) simp_all
  have split: "success_events (length ?ps) (Suc k) later =
      success_events (length ?ps) k later @ [EvComplete (length ?ps + k) None later]"
    by (simp add: success_events_def)
  have upto: "breaker_run \<lparr>sysBreaker = half_open_with ?b (int (Suc k)) 0,
        sysPermits = ?ps @ replicate (Suc k) (probe_permit ?b False)\<rparr>
        (success_events (length ?ps) k later) =
      \<lparr>sysBreaker = half_open_with ?b (int (Suc k) - int k) (int k),
       sysPermits = ?ps @ replicate k (probe_permit ?b True) @ replicate (Suc k - k) (probe_permit ?b False)\<rparr>"
    using assms(3) by (intro succeed_probes) simp_all
  have "breaker_run s (replicate (Suc k) (EvAllow now) @ success_events (length ?ps) (Suc k) later) =
      breaker_exec \<lparr>sysBreaker = half_open_with ?b 1 (int k),
        sysPermits = ?ps @ replicate k (probe_permit ?b True) @ [probe_permit ?b False]\<rparr>
        (EvComplete (length ?ps + k) None later)"
    unfolding run_append grant split upto by simp
  then show ?thesis
    using assms(3) grant
    by (simp add: permit_Complete_def breaker_complete_def breaker_completeProbe_def Let_def nth_append
        half_open_with_def probe_permit_def breaker_close_def)
qed

theorem breaker_recovers_witness:
  "bState (sysBreaker (breaker_run (breaker_start example_open)
     (replicate 2 (EvAllow 1000000007) @ success_events 0 2 1000000008))) = StateClosed"
  using breaker_recovers [of "breaker_start example_open" 1000000007 1 1000000008]
  by (simp add: breaker_start_def example_open_def breaker_open_def example_breaker_def
      example_config_def numeral_2_eq_2 del: replicate_Suc)

text \<open>
  Results that arrive late are ignored. In every state an interleaving can reach,
  once the breaker opens, completing any permit issued before leaves the breaker as it is,
  whatever the outcome reported.
\<close>

theorem breaker_ignores_stale_permits:
  assumes "NewBreaker p0 c = Inr b0" and "length es < 2 ^ 64 - 1"
    and "p \<in> set (sysPermits (breaker_run (breaker_start b0) es))"
  shows "fst (permit_Complete later f (breaker_open now (sysBreaker (breaker_run (breaker_start b0) es))) p) =
         breaker_open now (sysBreaker (breaker_run (breaker_start b0) es))"
proof -
  let ?s = "breaker_run (breaker_start b0) es"
  have gen0: "unat (bGeneration (sysBreaker (breaker_start b0))) = 0"
    using NewBreaker_generation [OF assms(1)] by (simp add: breaker_start_def)
  then have "sys_inv ?s \<and> unat (bGeneration (sysBreaker ?s)) \<le> 0 + length es"
    using breaker_run_inv [OF breaker_start_inv [OF assms(1)], of es] assms(2) by simp
  then have inv: "sys_inv ?s" and small: "unat (bGeneration (sysBreaker ?s)) < 2 ^ 64 - 1"
    using assms(2) by linarith+
  have "unat (pmGeneration p) \<le> unat (bGeneration (sysBreaker ?s))"
    using inv assms(3) by (simp add: sys_inv_def)
  then have "pmGeneration p \<noteq> bGeneration (sysBreaker ?s) + 1"
    using unat_suc [OF small] by auto
  then show ?thesis by (simp add: permit_Complete_def breaker_complete_def breaker_open_def)
qed

theorem breaker_ignores_stale_permits_witness:
  "fst (permit_Complete 9 None (breaker_open 5 example_breaker) example_permit) = breaker_open 5 example_breaker"
proof -
  have run: "breaker_run (breaker_start example_breaker) [EvAllow 1] =
      \<lparr>sysBreaker = example_breaker, sysPermits = [example_permit]\<rparr>"
    by (simp add: breaker_start_def example_breaker_def example_permit_def breaker_Allow_def
        breaker_advance_def)
  show ?thesis
    using breaker_ignores_stale_permits [OF example_breaker_new, of "[EvAllow 1]" example_permit 9 None 5]
    unfolding run by simp
qed

end
