(* ===== verification/Queue.thy ===== *)
theory Queue
  imports Failure Registry
begin

text \<open>
  The per-provider bounded queue: \<open>internal/reliability/queue.go\<close>. Two views of the same
  code. The operations as the executor calls them: \<open>queue_Acquire\<close> runs up to the point
  where the caller blocks (\<open>queue_enter\<close>), lets the other callers act, and then takes the
  case the \<open>select\<close> chose (\<open>queue_resume\<close>). And the goroutines step by step:
  \<open>queue_step\<close> has one rule per atomic operation on the slot channel and the counters, in any
  interleaving; its reachable states carry the capacity invariant. A lemma of simulation
  relates the two.
\<close>

section \<open>Configuration\<close>

definition minimumQueueWaitTimeout :: duration where [config_defs]: "minimumQueueWaitTimeout = 10 * millisecond"
definition maximumQueueWaitTimeout :: duration where [config_defs]: "maximumQueueWaitTimeout = minute"
definition maximumQueueInFlight :: int where [config_defs]: "maximumQueueInFlight = 10000"
definition maximumQueueWaiting :: int where [config_defs]: "maximumQueueWaiting = 100000"

record queue_config =
  MaxInFlight :: int
  MaxWaiting :: int
  WaitTimeout :: duration

definition DefaultQueueConfig :: queue_config where
  "DefaultQueueConfig = \<lparr>MaxInFlight = 256, MaxWaiting = 100, WaitTimeout = 2 * second\<rparr>"

definition queue_validate :: "queue_config \<Rightarrow> string option" where
  "queue_validate config =
     (if MaxInFlight config < 1 \<or> MaxInFlight config > maximumQueueInFlight
      then Some ''queue max in-flight must be between 1 and 10000''
      else if MaxWaiting config < 0 \<or> MaxWaiting config > maximumQueueWaiting
      then Some ''queue max waiting must be between 0 and 100000''
      else if WaitTimeout config < minimumQueueWaitTimeout \<or> WaitTimeout config > maximumQueueWaitTimeout
      then Some ''queue wait timeout must be between 10ms and 1m0s''
      else None)"

lemma queue_validate_None:
  "queue_validate c = None \<longleftrightarrow>
     1 \<le> MaxInFlight c \<and> MaxInFlight c \<le> 10000 \<and> 0 \<le> MaxWaiting c \<and> MaxWaiting c \<le> 100000 \<and>
     10000000 \<le> WaitTimeout c \<and> WaitTimeout c \<le> 60000000000"
  by (auto simp: queue_validate_def config_defs not_less)

section \<open>State\<close>

text \<open>\<open>qSlots\<close> is the number of elements in the buffered channel of capacity MaxInFlight.\<close>

record provider_queue =
  qProviderID :: string
  qConfig :: queue_config
  qSlots :: int
  qActive :: int
  qWaiting :: int
  qRejected :: uint64
  qTimedOut :: uint64
  qCanceled :: uint64

record queue_snapshot =
  qsProviderID :: string
  qsActive :: int
  qsWaiting :: int
  qsMaxInFlight :: int
  qsMaxWaiting :: int
  qsRejected :: uint64
  qsTimedOut :: uint64
  qsCanceled :: uint64

record queue_lease =
  lsReleased :: bool

definition NewProviderQueue :: "string \<Rightarrow> queue_config \<Rightarrow> string + provider_queue" where
  "NewProviderQueue rawID config =
     (let providerID = trim_space rawID in
      if providerID = [] then Inl ''queue provider ID is required''
      else (case queue_validate config of
              Some e \<Rightarrow> Inl e
            | None \<Rightarrow> Inr \<lparr>qProviderID = providerID, qConfig = config, qSlots = 0, qActive = 0,
                qWaiting = 0, qRejected = 0, qTimedOut = 0, qCanceled = 0\<rparr>))"

definition queue_Snapshot :: "provider_queue \<Rightarrow> queue_snapshot" where
  "queue_Snapshot q =
     \<lparr>qsProviderID = qProviderID q, qsActive = qActive q, qsWaiting = qWaiting q,
      qsMaxInFlight = MaxInFlight (qConfig q), qsMaxWaiting = MaxWaiting (qConfig q),
      qsRejected = qRejected q, qsTimedOut = qTimedOut q, qsCanceled = qCanceled q\<rparr>"

section \<open>Operations\<close>

definition queue_failure :: "queue_reason \<Rightarrow> provider_queue \<Rightarrow> failure" where
  "queue_failure reason q =
     set_category CategoryQueue (set_provider (qProviderID q) (set_queue reason failure_zero))"

definition queue_contextFailure ::
  "ctx_err option \<Rightarrow> provider_queue \<Rightarrow> provider_queue \<times> failure option" where
  "queue_contextFailure ctxErr q =
     (case ctxErr of
        None \<Rightarrow> (q, None)
      | Some CtxDeadlineExceeded \<Rightarrow>
          (q, Some (set_category CategoryTimeout (set_provider (qProviderID q)
                (set_timeout TimeoutRequestBudget
                  (set_cause (Some (ctx_goerr CtxDeadlineExceeded)) failure_zero)))))
      | Some CtxCanceled \<Rightarrow>
          (q\<lparr>qCanceled := qCanceled q + 1\<rparr>,
           Some (set_category CategoryCanceled (set_provider (qProviderID q)
                (set_cause (Some (ctx_goerr CtxCanceled)) failure_zero)))))"

definition queue_tryAcquire :: "provider_queue \<Rightarrow> provider_queue option" where
  "queue_tryAcquire q =
     (if qSlots q < MaxInFlight (qConfig q)
      then Some (q\<lparr>qSlots := qSlots q + 1, qActive := qActive q + 1\<rparr>) else None)"

definition queue_reserveWaiting :: "provider_queue \<Rightarrow> provider_queue option" where
  "queue_reserveWaiting q =
     (if qWaiting q \<ge> MaxWaiting (qConfig q) then None
      else Some (q\<lparr>qWaiting := qWaiting q + 1\<rparr>))"

datatype enter_result = EnterFailed failure | EnterLease queue_lease | EnterBlocked

text \<open>\<open>Acquire\<close> up to the blocking \<open>select\<close>; \<open>ctxNil\<close> is \<open>ctx == nil\<close>.\<close>

definition queue_enter ::
  "bool \<Rightarrow> ctx_err option \<Rightarrow> provider_queue \<Rightarrow> provider_queue \<times> enter_result" where
  "queue_enter ctxNil ctxErr q =
     (if ctxNil
      then (q, EnterFailed (set_category CategoryCanceled (set_provider (qProviderID q)
                 (set_cause (Some (ErrNew ''queue context is nil'')) failure_zero))))
      else (case queue_contextFailure ctxErr q of
              (q1, Some f) \<Rightarrow> (q1, EnterFailed f)
            | (q1, None) \<Rightarrow>
                (case queue_tryAcquire q1 of
                   Some q2 \<Rightarrow> (q2, EnterLease \<lparr>lsReleased = False\<rparr>)
                 | None \<Rightarrow>
                     (case queue_reserveWaiting q1 of
                        None \<Rightarrow> (q1\<lparr>qRejected := qRejected q1 + 1\<rparr>, EnterFailed (queue_failure QueueFull q1))
                      | Some q2 \<Rightarrow> (q2, EnterBlocked)))))"

text \<open>
  The case the \<open>select\<close> took. A send is only ready when the channel has room, so a state
  without room takes the timer case. \<open>ctx.Err()\<close> is never nil once \<open>ctx.Done()\<close> is closed.
\<close>

datatype select_case = SelectSlot "ctx_err option" | SelectTimer | SelectDone ctx_err

definition leave_waiting :: "provider_queue \<Rightarrow> provider_queue" where
  "leave_waiting q = q\<lparr>qWaiting := qWaiting q - 1\<rparr>"

definition queue_timeout :: "provider_queue \<Rightarrow> provider_queue \<times> (failure + queue_lease)" where
  "queue_timeout q =
     (leave_waiting (q\<lparr>qTimedOut := qTimedOut q + 1\<rparr>), Inl (queue_failure QueueWaitTimeout q))"

definition queue_resume :: "select_case \<Rightarrow> provider_queue \<Rightarrow> provider_queue \<times> (failure + queue_lease)" where
  "queue_resume choice q =
     (case choice of
        SelectSlot ctxErr \<Rightarrow>
          if qSlots q < MaxInFlight (qConfig q)
          then (let q1 = q\<lparr>qSlots := qSlots q + 1\<rparr> in
                case queue_contextFailure ctxErr q1 of
                  (q2, Some f) \<Rightarrow> (leave_waiting (q2\<lparr>qSlots := qSlots q2 - 1\<rparr>), Inl f)
                | (q2, None) \<Rightarrow>
                    (leave_waiting (q2\<lparr>qActive := qActive q2 + 1\<rparr>), Inr \<lparr>lsReleased = False\<rparr>))
          else queue_timeout q
      | SelectTimer \<Rightarrow> queue_timeout q
      | SelectDone e \<Rightarrow>
          (case queue_contextFailure (Some e) q of
             (q1, Some f) \<Rightarrow> (leave_waiting q1, Inl f)
           | (q1, None) \<Rightarrow> (leave_waiting q1, Inl failure_zero)))"

text \<open>What one call of \<open>Acquire\<close> meets: the context, what the others do while it is blocked.\<close>

record queue_env =
  qeCtxNil :: bool
  qeCtxErr :: "ctx_err option"
  qeOthers :: "provider_queue \<Rightarrow> provider_queue"
  qeSelect :: select_case

definition queue_Acquire ::
  "queue_env \<Rightarrow> provider_queue \<Rightarrow> provider_queue \<times> (failure + queue_lease)" where
  "queue_Acquire env q =
     (case queue_enter (qeCtxNil env) (qeCtxErr env) q of
        (q1, EnterFailed f) \<Rightarrow> (q1, Inl f)
      | (q1, EnterLease l) \<Rightarrow> (q1, Inr l)
      | (q1, EnterBlocked) \<Rightarrow> queue_resume (qeSelect env) (qeOthers env q1))"

definition lease_Release :: "provider_queue \<Rightarrow> queue_lease \<Rightarrow> provider_queue \<times> queue_lease \<times> bool" where
  "lease_Release q lease =
     (if lsReleased lease then (q, lease, False)
      else (q\<lparr>qActive := qActive q - 1, qSlots := qSlots q - 1\<rparr>, lease\<lparr>lsReleased := True\<rparr>, True))"

section \<open>Goroutines\<close>

text \<open>
  Where a goroutine stands between its atomic operations. \<open>FastSlot\<close> has sent on the channel
  in \<open>tryAcquire\<close> and not yet counted itself active; \<open>SlowSlot\<close> has sent in the \<open>select\<close>;
  \<open>SlowActive\<close> and \<open>Leaving\<close> still run the deferred \<open>waiting.Add(-1)\<close>; \<open>Releasing\<close> has
  left the active count and not yet received from the channel.
\<close>

datatype queue_pc =
  Idle | FastSlot | Reserving | Waiting | SlowSlot | SlowActive | Leaving | Holding | Releasing

record queue_sys =
  sysQueue :: provider_queue
  sysPcs :: "queue_pc list"

inductive queue_step :: "queue_sys \<Rightarrow> queue_sys \<Rightarrow> bool" where
  ctx_fail: "i < length pcs \<Longrightarrow> pcs ! i = Idle \<Longrightarrow>
    queue_step \<lparr>sysQueue = q, sysPcs = pcs\<rparr>
      \<lparr>sysQueue = fst (queue_contextFailure (Some e) q), sysPcs = pcs\<rparr>"
| try_slot: "i < length pcs \<Longrightarrow> pcs ! i = Idle \<Longrightarrow> qSlots q < MaxInFlight (qConfig q) \<Longrightarrow>
    queue_step \<lparr>sysQueue = q, sysPcs = pcs\<rparr>
      \<lparr>sysQueue = q\<lparr>qSlots := qSlots q + 1\<rparr>, sysPcs = pcs[i := FastSlot]\<rparr>"
| try_active: "i < length pcs \<Longrightarrow> pcs ! i = FastSlot \<Longrightarrow>
    queue_step \<lparr>sysQueue = q, sysPcs = pcs\<rparr>
      \<lparr>sysQueue = q\<lparr>qActive := qActive q + 1\<rparr>, sysPcs = pcs[i := Holding]\<rparr>"
| try_full: "i < length pcs \<Longrightarrow> pcs ! i = Idle \<Longrightarrow> \<not> qSlots q < MaxInFlight (qConfig q) \<Longrightarrow>
    queue_step \<lparr>sysQueue = q, sysPcs = pcs\<rparr> \<lparr>sysQueue = q, sysPcs = pcs[i := Reserving]\<rparr>"
| reserve_full: "i < length pcs \<Longrightarrow> pcs ! i = Reserving \<Longrightarrow> qWaiting q \<ge> MaxWaiting (qConfig q) \<Longrightarrow>
    queue_step \<lparr>sysQueue = q, sysPcs = pcs\<rparr>
      \<lparr>sysQueue = q\<lparr>qRejected := qRejected q + 1\<rparr>, sysPcs = pcs[i := Idle]\<rparr>"
| reserve: "i < length pcs \<Longrightarrow> pcs ! i = Reserving \<Longrightarrow> qWaiting q < MaxWaiting (qConfig q) \<Longrightarrow>
    queue_step \<lparr>sysQueue = q, sysPcs = pcs\<rparr>
      \<lparr>sysQueue = q\<lparr>qWaiting := qWaiting q + 1\<rparr>, sysPcs = pcs[i := Waiting]\<rparr>"
| select_slot: "i < length pcs \<Longrightarrow> pcs ! i = Waiting \<Longrightarrow> qSlots q < MaxInFlight (qConfig q) \<Longrightarrow>
    queue_step \<lparr>sysQueue = q, sysPcs = pcs\<rparr>
      \<lparr>sysQueue = q\<lparr>qSlots := qSlots q + 1\<rparr>, sysPcs = pcs[i := SlowSlot]\<rparr>"
| slot_ctx_fail: "i < length pcs \<Longrightarrow> pcs ! i = SlowSlot \<Longrightarrow>
    queue_step \<lparr>sysQueue = q, sysPcs = pcs\<rparr>
      \<lparr>sysQueue = (fst (queue_contextFailure (Some e) q))\<lparr>qSlots := qSlots q - 1\<rparr>, sysPcs = pcs[i := Leaving]\<rparr>"
| slot_active: "i < length pcs \<Longrightarrow> pcs ! i = SlowSlot \<Longrightarrow>
    queue_step \<lparr>sysQueue = q, sysPcs = pcs\<rparr>
      \<lparr>sysQueue = q\<lparr>qActive := qActive q + 1\<rparr>, sysPcs = pcs[i := SlowActive]\<rparr>"
| select_timer: "i < length pcs \<Longrightarrow> pcs ! i = Waiting \<Longrightarrow>
    queue_step \<lparr>sysQueue = q, sysPcs = pcs\<rparr>
      \<lparr>sysQueue = q\<lparr>qTimedOut := qTimedOut q + 1\<rparr>, sysPcs = pcs[i := Leaving]\<rparr>"
| select_done: "i < length pcs \<Longrightarrow> pcs ! i = Waiting \<Longrightarrow>
    queue_step \<lparr>sysQueue = q, sysPcs = pcs\<rparr>
      \<lparr>sysQueue = fst (queue_contextFailure (Some e) q), sysPcs = pcs[i := Leaving]\<rparr>"
| leave: "i < length pcs \<Longrightarrow> pcs ! i = Leaving \<Longrightarrow>
    queue_step \<lparr>sysQueue = q, sysPcs = pcs\<rparr>
      \<lparr>sysQueue = leave_waiting q, sysPcs = pcs[i := Idle]\<rparr>"
| hold: "i < length pcs \<Longrightarrow> pcs ! i = SlowActive \<Longrightarrow>
    queue_step \<lparr>sysQueue = q, sysPcs = pcs\<rparr>
      \<lparr>sysQueue = leave_waiting q, sysPcs = pcs[i := Holding]\<rparr>"
| release_active: "i < length pcs \<Longrightarrow> pcs ! i = Holding \<Longrightarrow>
    queue_step \<lparr>sysQueue = q, sysPcs = pcs\<rparr>
      \<lparr>sysQueue = q\<lparr>qActive := qActive q - 1\<rparr>, sysPcs = pcs[i := Releasing]\<rparr>"
| release_slot: "i < length pcs \<Longrightarrow> pcs ! i = Releasing \<Longrightarrow> 0 < qSlots q \<Longrightarrow>
    queue_step \<lparr>sysQueue = q, sysPcs = pcs\<rparr>
      \<lparr>sysQueue = q\<lparr>qSlots := qSlots q - 1\<rparr>, sysPcs = pcs[i := Idle]\<rparr>"

inductive_cases queue_stepE: "queue_step s t"

abbreviation queue_steps :: "queue_sys \<Rightarrow> queue_sys \<Rightarrow> bool" where
  "queue_steps \<equiv> queue_step\<^sup>*\<^sup>*"

text \<open>The positions that own a slot of the channel, a place in the waiting count, an active count.\<close>

definition owns_slot :: "queue_pc \<Rightarrow> bool" where
  "owns_slot pc \<longleftrightarrow> pc \<in> {FastSlot, SlowSlot, SlowActive, Holding, Releasing}"
definition owns_waiting :: "queue_pc \<Rightarrow> bool" where
  "owns_waiting pc \<longleftrightarrow> pc \<in> {Waiting, SlowSlot, SlowActive, Leaving}"
definition owns_active :: "queue_pc \<Rightarrow> bool" where
  "owns_active pc \<longleftrightarrow> pc \<in> {SlowActive, Holding}"

lemmas owns_defs = owns_slot_def owns_waiting_def owns_active_def

definition queue_inv :: "queue_sys \<Rightarrow> bool" where
  "queue_inv s \<longleftrightarrow>
     queue_validate (qConfig (sysQueue s)) = None \<and>
     qSlots (sysQueue s) = int (length (filter owns_slot (sysPcs s))) \<and>
     qWaiting (sysQueue s) = int (length (filter owns_waiting (sysPcs s))) \<and>
     qActive (sysQueue s) = int (length (filter owns_active (sysPcs s))) \<and>
     qSlots (sysQueue s) \<le> MaxInFlight (qConfig (sysQueue s)) \<and>
     qWaiting (sysQueue s) \<le> MaxWaiting (qConfig (sysQueue s))"

lemma contextFailure_fields [simp]:
  "qSlots (fst (queue_contextFailure e q)) = qSlots q"
  "qWaiting (fst (queue_contextFailure e q)) = qWaiting q"
  "qActive (fst (queue_contextFailure e q)) = qActive q"
  "qConfig (fst (queue_contextFailure e q)) = qConfig q"
  by (simp_all add: queue_contextFailure_def split: option.split ctx_err.split)

lemma queue_step_inv: "queue_step s t \<Longrightarrow> queue_inv s \<Longrightarrow> queue_inv t"
  by (induction rule: queue_step.induct)
    (simp_all add: queue_inv_def count_update owns_defs leave_waiting_def)

lemma queue_steps_inv: "queue_steps s t \<Longrightarrow> queue_inv s \<Longrightarrow> queue_inv t"
  by (induction rule: rtranclp_induct) (auto intro: queue_step_inv)

section \<open>The operations are runs of the goroutine steps\<close>

lemma queue_enter_steps:
  assumes "i < length pcs" and "pcs ! i = Idle" and "queue_enter False ctxErr q = (q', r)"
  shows "queue_steps \<lparr>sysQueue = q, sysPcs = pcs\<rparr>
    \<lparr>sysQueue = q', sysPcs = pcs[i := (case r of EnterFailed f \<Rightarrow> Idle | EnterLease l \<Rightarrow> Holding
                                          | EnterBlocked \<Rightarrow> Waiting)]\<rparr>"
proof (cases ctxErr)
  case (Some e)
  then have "q' = fst (queue_contextFailure (Some e) q)" "\<exists>f. r = EnterFailed f"
    using assms(3) by (auto simp: queue_enter_def queue_contextFailure_def split: ctx_err.splits)
  moreover have "pcs[i := Idle] = pcs" using assms(2) by (metis list_update_id)
  ultimately show ?thesis
    using ctx_fail [OF assms(1,2), of q e] by (auto intro!: r_into_rtranclp)
next
  case None
  show ?thesis
  proof (cases "qSlots q < MaxInFlight (qConfig q)")
    case True
    let ?q1 = "q\<lparr>qSlots := qSlots q + 1\<rparr>"
    have "queue_step \<lparr>sysQueue = q, sysPcs = pcs\<rparr> \<lparr>sysQueue = ?q1, sysPcs = pcs[i := FastSlot]\<rparr>"
      by (rule try_slot [OF assms(1,2) True])
    moreover have "queue_step \<lparr>sysQueue = ?q1, sysPcs = pcs[i := FastSlot]\<rparr>
        \<lparr>sysQueue = ?q1\<lparr>qActive := qActive ?q1 + 1\<rparr>, sysPcs = (pcs[i := FastSlot])[i := Holding]\<rparr>"
      using assms(1) by (intro try_active) simp_all
    ultimately show ?thesis
      using True None assms(3)
      by (auto simp: queue_enter_def queue_contextFailure_def queue_tryAcquire_def)
  next
    case False
    have res: "queue_step \<lparr>sysQueue = q, sysPcs = pcs\<rparr> \<lparr>sysQueue = q, sysPcs = pcs[i := Reserving]\<rparr>"
      by (rule try_full [OF assms(1,2) False])
    show ?thesis
    proof (cases "qWaiting q \<ge> MaxWaiting (qConfig q)")
      case True
      then have "queue_step \<lparr>sysQueue = q, sysPcs = pcs[i := Reserving]\<rparr>
          \<lparr>sysQueue = q\<lparr>qRejected := qRejected q + 1\<rparr>, sysPcs = (pcs[i := Reserving])[i := Idle]\<rparr>"
        using assms(1) by (intro reserve_full) simp_all
      with res True False None assms show ?thesis
        by (auto simp: queue_enter_def queue_contextFailure_def queue_tryAcquire_def
            queue_reserveWaiting_def list_update_same_conv)
    next
      case nf: False
      then have "queue_step \<lparr>sysQueue = q, sysPcs = pcs[i := Reserving]\<rparr>
          \<lparr>sysQueue = q\<lparr>qWaiting := qWaiting q + 1\<rparr>, sysPcs = (pcs[i := Reserving])[i := Waiting]\<rparr>"
        using assms(1) by (intro reserve) simp_all
      with res nf False None assms show ?thesis
        by (auto simp: queue_enter_def queue_contextFailure_def queue_tryAcquire_def
            queue_reserveWaiting_def)
    qed
  qed
qed

lemma queue_timeout_steps:
  assumes "i < length pcs" and "pcs ! i = Waiting"
  shows "queue_steps \<lparr>sysQueue = q, sysPcs = pcs\<rparr>
    \<lparr>sysQueue = fst (queue_timeout q), sysPcs = pcs[i := Idle]\<rparr>"
proof -
  have "queue_step \<lparr>sysQueue = q, sysPcs = pcs\<rparr>
      \<lparr>sysQueue = q\<lparr>qTimedOut := qTimedOut q + 1\<rparr>, sysPcs = pcs[i := Leaving]\<rparr>"
    by (rule select_timer [OF assms])
  moreover have "queue_step \<lparr>sysQueue = q\<lparr>qTimedOut := qTimedOut q + 1\<rparr>, sysPcs = pcs[i := Leaving]\<rparr>
      \<lparr>sysQueue = leave_waiting (q\<lparr>qTimedOut := qTimedOut q + 1\<rparr>), sysPcs = (pcs[i := Leaving])[i := Idle]\<rparr>"
    using assms(1) by (intro leave) simp_all
  ultimately show ?thesis by (auto simp: queue_timeout_def)
qed

lemma queue_slot_steps:
  assumes "i < length pcs" and "pcs ! i = Waiting" and "qSlots q < MaxInFlight (qConfig q)"
  shows "queue_steps \<lparr>sysQueue = q, sysPcs = pcs\<rparr>
    \<lparr>sysQueue = fst (queue_resume (SelectSlot ctxErr) q),
     sysPcs = pcs[i := (if ctxErr = None then Holding else Idle)]\<rparr>"
proof -
  let ?q1 = "q\<lparr>qSlots := qSlots q + 1\<rparr>"
  have slot: "queue_step \<lparr>sysQueue = q, sysPcs = pcs\<rparr> \<lparr>sysQueue = ?q1, sysPcs = pcs[i := SlowSlot]\<rparr>"
    by (rule select_slot [OF assms])
  show ?thesis
  proof (cases ctxErr)
    case None
    let ?q2 = "?q1\<lparr>qActive := qActive ?q1 + 1\<rparr>"
    have "queue_step \<lparr>sysQueue = ?q1, sysPcs = pcs[i := SlowSlot]\<rparr>
        \<lparr>sysQueue = ?q2, sysPcs = (pcs[i := SlowSlot])[i := SlowActive]\<rparr>"
      using assms(1) by (intro slot_active) simp_all
    moreover have "queue_step \<lparr>sysQueue = ?q2, sysPcs = pcs[i := SlowActive]\<rparr>
        \<lparr>sysQueue = leave_waiting ?q2, sysPcs = (pcs[i := SlowActive])[i := Holding]\<rparr>"
      using assms(1) by (intro hold) simp_all
    ultimately show ?thesis
      using slot None assms(3) by (auto simp: queue_resume_def queue_contextFailure_def Let_def)
  next
    case (Some e)
    let ?q2 = "(fst (queue_contextFailure (Some e) ?q1))\<lparr>qSlots := qSlots ?q1 - 1\<rparr>"
    have "queue_step \<lparr>sysQueue = ?q1, sysPcs = pcs[i := SlowSlot]\<rparr>
        \<lparr>sysQueue = ?q2, sysPcs = (pcs[i := SlowSlot])[i := Leaving]\<rparr>"
      using assms(1) by (intro slot_ctx_fail) simp_all
    moreover have "queue_step \<lparr>sysQueue = ?q2, sysPcs = pcs[i := Leaving]\<rparr>
        \<lparr>sysQueue = leave_waiting ?q2, sysPcs = (pcs[i := Leaving])[i := Idle]\<rparr>"
      using assms(1) by (intro leave) simp_all
    ultimately have "queue_steps \<lparr>sysQueue = q, sysPcs = pcs\<rparr>
        \<lparr>sysQueue = leave_waiting ?q2, sysPcs = pcs[i := Idle]\<rparr>"
      using slot by (auto intro: converse_rtranclp_into_rtranclp)
    moreover have "fst (queue_resume (SelectSlot ctxErr) q) = leave_waiting ?q2"
      using Some assms(3) by (simp add: queue_resume_def queue_contextFailure_def Let_def split: ctx_err.split)
    ultimately show ?thesis using Some by simp
  qed
qed

lemma queue_resume_steps:
  assumes "i < length pcs" and "pcs ! i = Waiting" and "queue_resume choice q = (q', r)"
  shows "queue_steps \<lparr>sysQueue = q, sysPcs = pcs\<rparr>
    \<lparr>sysQueue = q', sysPcs = pcs[i := (case r of Inl f \<Rightarrow> Idle | Inr l \<Rightarrow> Holding)]\<rparr>"
proof (cases choice)
  case (SelectSlot ctxErr)
  show ?thesis
  proof (cases "qSlots q < MaxInFlight (qConfig q)")
    case True
    have "(case r of Inl f \<Rightarrow> Idle | Inr l \<Rightarrow> Holding) = (if ctxErr = None then Holding else Idle)"
      using SelectSlot True assms(3)
      by (auto simp: queue_resume_def queue_contextFailure_def Let_def split: option.splits ctx_err.splits)
    with queue_slot_steps [OF assms(1,2) True, of ctxErr] SelectSlot assms(3) show ?thesis by simp
  next
    case False
    with queue_timeout_steps [OF assms(1,2), of q] SelectSlot assms(3) show ?thesis
      by (auto simp: queue_resume_def queue_timeout_def)
  qed
next
  case SelectTimer
  with queue_timeout_steps [OF assms(1,2), of q] assms(3) show ?thesis
    by (auto simp: queue_resume_def queue_timeout_def)
next
  case (SelectDone e)
  let ?q1 = "fst (queue_contextFailure (Some e) q)"
  have "queue_step \<lparr>sysQueue = q, sysPcs = pcs\<rparr> \<lparr>sysQueue = ?q1, sysPcs = pcs[i := Leaving]\<rparr>"
    by (rule select_done [OF assms(1,2)])
  moreover have "queue_step \<lparr>sysQueue = ?q1, sysPcs = pcs[i := Leaving]\<rparr>
      \<lparr>sysQueue = leave_waiting ?q1, sysPcs = (pcs[i := Leaving])[i := Idle]\<rparr>"
    using assms(1) by (intro leave) simp_all
  moreover have "q' = leave_waiting ?q1" "\<exists>f. r = Inl f"
    using SelectDone assms(3) by (auto simp: queue_resume_def split: prod.splits option.splits)
  ultimately show ?thesis by auto
qed

lemma lease_Release_steps:
  assumes "i < length pcs" and "pcs ! i = Holding" and "0 < qSlots q" and "\<not> lsReleased l"
  shows "queue_steps \<lparr>sysQueue = q, sysPcs = pcs\<rparr>
    \<lparr>sysQueue = fst (lease_Release q l), sysPcs = pcs[i := Idle]\<rparr>"
proof -
  let ?q1 = "q\<lparr>qActive := qActive q - 1\<rparr>"
  have "queue_step \<lparr>sysQueue = q, sysPcs = pcs\<rparr> \<lparr>sysQueue = ?q1, sysPcs = pcs[i := Releasing]\<rparr>"
    by (rule release_active [OF assms(1,2)])
  moreover have "queue_step \<lparr>sysQueue = ?q1, sysPcs = pcs[i := Releasing]\<rparr>
      \<lparr>sysQueue = ?q1\<lparr>qSlots := qSlots ?q1 - 1\<rparr>, sysPcs = (pcs[i := Releasing])[i := Idle]\<rparr>"
    using assms(1,3) by (intro release_slot) simp_all
  ultimately show ?thesis using assms(4) by (auto simp: lease_Release_def)
qed

section \<open>Leases as an interface\<close>

text \<open>
  What the executor relies on: a granted lease is fresh and occupies a place within the
  capacity, and releasing it gives exactly that place back, once.
\<close>

locale lease_pool =
  fixes acquire :: "'e \<Rightarrow> 's \<Rightarrow> 's \<times> ('f + 'l)"
    and release :: "'s \<Rightarrow> 'l \<Rightarrow> 's \<times> 'l \<times> bool"
    and held :: "'s \<Rightarrow> int"
    and capacity :: "'s \<Rightarrow> int"
    and ok :: "'s \<Rightarrow> bool"
    and fresh :: "'l \<Rightarrow> bool"
    and admissible :: "'e \<Rightarrow> bool"
  assumes grant: "ok s \<Longrightarrow> admissible e \<Longrightarrow> acquire e s = (s', Inr l) \<Longrightarrow>
        ok s' \<and> fresh l \<and> 0 < held s' \<and> capacity s' = capacity s"
    and refuse: "ok s \<Longrightarrow> admissible e \<Longrightarrow> acquire e s = (s', Inl f) \<Longrightarrow>
        ok s' \<and> capacity s' = capacity s"
    and bounded: "ok s \<Longrightarrow> held s \<le> capacity s"
    and release_fresh: "ok s \<Longrightarrow> fresh l \<Longrightarrow> 0 < held s \<Longrightarrow> release s l = (s', l', b) \<Longrightarrow>
        ok s' \<and> held s' = held s - 1 \<and> capacity s' = capacity s \<and> \<not> fresh l' \<and> b"
    and release_used: "\<not> fresh l \<Longrightarrow> release s l = (s, l, False)"
begin

lemma acquire_ok: "ok s \<Longrightarrow> admissible e \<Longrightarrow> ok (fst (acquire e s))"
proof -
  assume s: "ok s" and e: "admissible e"
  obtain s' r where a: "acquire e s = (s', r)" by fastforce
  then show ?thesis using grant [OF s e, of s'] refuse [OF s e, of s'] by (cases r) auto
qed

lemma held_bounded: "ok s \<Longrightarrow> admissible e \<Longrightarrow> acquire e s = (s', r) \<Longrightarrow> held s' \<le> capacity s"
  using grant [of s e s'] refuse [of s e s'] bounded [of s'] by (cases r) auto

lemma acquire_release:
  assumes "ok s" and "admissible e" and "acquire e s = (s', Inr l)" and "release s' l = (t, l', b)"
  shows "ok t \<and> held t = held s' - 1 \<and> b \<and> release t l' = (t, l', False)"
proof -
  have g: "ok s'" "fresh l" "0 < held s'" using grant [OF assms(1-3)] by auto
  have r: "ok t" "held t = held s' - 1" "\<not> fresh l'" "b"
    using release_fresh [OF g assms(4)] by auto
  with release_used [OF r(3)] show ?thesis by simp
qed

end

text \<open>
  The queue between operations: every caller has finished its atomic operations, so the
  active count is the number of slots taken.
\<close>

definition queue_ok :: "provider_queue \<Rightarrow> bool" where
  "queue_ok q \<longleftrightarrow> queue_validate (qConfig q) = None \<and> 0 \<le> qSlots q \<and>
     qSlots q \<le> MaxInFlight (qConfig q) \<and> qActive q = qSlots q \<and>
     0 \<le> qWaiting q \<and> qWaiting q \<le> MaxWaiting (qConfig q)"

text \<open>While a caller is blocked, the others keep the queue in order and cannot take its place.\<close>

definition queue_env_ok :: "queue_env \<Rightarrow> bool" where
  "queue_env_ok env \<longleftrightarrow>
     (\<forall>q. queue_ok q \<and> 0 < qWaiting q \<longrightarrow>
        queue_ok (qeOthers env q) \<and> 0 < qWaiting (qeOthers env q) \<and> qConfig (qeOthers env q) = qConfig q)"

lemma queue_contextFailure_ok:
  "queue_contextFailure e q = (q', r) \<Longrightarrow>
     (queue_ok q' \<longleftrightarrow> queue_ok q) \<and> qConfig q' = qConfig q \<and> qSlots q' = qSlots q \<and>
     qWaiting q' = qWaiting q \<and> qActive q' = qActive q"
  by (auto simp: queue_contextFailure_def queue_ok_def split: option.splits ctx_err.splits)

lemma queue_enter_ok:
  assumes "queue_ok q" and "queue_enter cn ce q = (q', r)"
  shows "queue_ok q' \<and> qConfig q' = qConfig q \<and>
    (case r of EnterFailed f \<Rightarrow> True | EnterLease l \<Rightarrow> \<not> lsReleased l \<and> 0 < qSlots q'
       | EnterBlocked \<Rightarrow> 0 < qWaiting q')"
proof -
  obtain q1 r1 where c: "queue_contextFailure ce q = (q1, r1)" by fastforce
  note cf = queue_contextFailure_ok [OF c]
  show ?thesis
    using assms cf c
    by (auto simp: queue_enter_def queue_tryAcquire_def queue_reserveWaiting_def queue_ok_def
        split: if_splits option.splits)
qed

lemma queue_timeout_ok:
  "queue_ok q \<Longrightarrow> 0 < qWaiting q \<Longrightarrow> queue_timeout q = (q', r) \<Longrightarrow>
     queue_ok q' \<and> qConfig q' = qConfig q \<and> (\<exists>f. r = Inl f)"
  by (auto simp: queue_timeout_def leave_waiting_def queue_ok_def)

lemma queue_resume_ok:
  assumes "queue_ok q" and "0 < qWaiting q" and "queue_resume choice q = (q', r)"
  shows "queue_ok q' \<and> qConfig q' = qConfig q \<and>
    (case r of Inl f \<Rightarrow> True | Inr l \<Rightarrow> \<not> lsReleased l \<and> 0 < qSlots q')"
proof (cases choice)
  case (SelectSlot ce)
  let ?q1 = "q\<lparr>qSlots := qSlots q + 1\<rparr>"
  obtain q2 r2 where c: "queue_contextFailure ce ?q1 = (q2, r2)" by fastforce
  then have f: "qConfig q2 = qConfig q" "qSlots q2 = qSlots q + 1" "qWaiting q2 = qWaiting q"
    "qActive q2 = qActive q"
    using queue_contextFailure_ok [OF c] by simp_all
  show ?thesis
  proof (cases "qSlots q < MaxInFlight (qConfig q)")
    case True
    with SelectSlot assms c f show ?thesis
      by (auto simp: queue_resume_def Let_def leave_waiting_def queue_ok_def split: option.splits)
  next
    case False
    with SelectSlot queue_timeout_ok [OF assms(1,2), of q' r] assms(3) show ?thesis
      by (auto simp: queue_resume_def)
  qed
next
  case SelectTimer
  with queue_timeout_ok [OF assms(1,2), of q' r] assms(3) show ?thesis by (auto simp: queue_resume_def)
next
  case (SelectDone e)
  obtain q2 r2 where c: "queue_contextFailure (Some e) q = (q2, r2)" by fastforce
  with queue_contextFailure_ok [OF c] SelectDone assms show ?thesis
    by (auto simp: queue_resume_def leave_waiting_def queue_ok_def split: option.splits)
qed

lemma queue_Acquire_ok:
  assumes "queue_ok q" and "queue_env_ok env" and "queue_Acquire env q = (q', r)"
  shows "queue_ok q' \<and> qConfig q' = qConfig q \<and>
    (case r of Inl f \<Rightarrow> True | Inr l \<Rightarrow> \<not> lsReleased l \<and> 0 < qSlots q')"
proof -
  obtain q1 r1 where e: "queue_enter (qeCtxNil env) (qeCtxErr env) q = (q1, r1)" by fastforce
  note en = queue_enter_ok [OF assms(1) e]
  show ?thesis
  proof (cases r1)
    case EnterBlocked
    with en assms(2) have o: "queue_ok (qeOthers env q1)" "0 < qWaiting (qeOthers env q1)"
      "qConfig (qeOthers env q1) = qConfig q"
      by (auto simp: queue_env_ok_def)
    from EnterBlocked e assms(3) have "queue_resume (qeSelect env) (qeOthers env q1) = (q', r)"
      by (simp add: queue_Acquire_def)
    from queue_resume_ok [OF o(1,2) this] o(3) show ?thesis by simp
  qed (use en e assms(3) in \<open>auto simp: queue_Acquire_def\<close>)
qed

interpretation queue_pool: lease_pool queue_Acquire lease_Release qSlots
  "\<lambda>q. MaxInFlight (qConfig q)" queue_ok "\<lambda>l. \<not> lsReleased l" queue_env_ok
proof
  show "queue_ok s' \<and> \<not> lsReleased l \<and> 0 < qSlots s' \<and> MaxInFlight (qConfig s') = MaxInFlight (qConfig s)"
    if "queue_ok s" "queue_env_ok e" "queue_Acquire e s = (s', Inr l)" for s e s' l
    using queue_Acquire_ok [OF that] by simp
  show "queue_ok s' \<and> MaxInFlight (qConfig s') = MaxInFlight (qConfig s)"
    if "queue_ok s" "queue_env_ok e" "queue_Acquire e s = (s', Inl f)" for s e s' f
    using queue_Acquire_ok [OF that] by simp
  show "qSlots s \<le> MaxInFlight (qConfig s)" if "queue_ok s" for s
    using that by (simp add: queue_ok_def)
  show "queue_ok s' \<and> qSlots s' = qSlots s - 1 \<and> MaxInFlight (qConfig s') = MaxInFlight (qConfig s) \<and>
      \<not> \<not> lsReleased l' \<and> b"
    if "queue_ok s" "\<not> lsReleased l" "0 < qSlots s" "lease_Release s l = (s', l', b)" for s l s' l' b
    using that by (auto simp: lease_Release_def queue_ok_def)
  show "lease_Release s l = (s, l, False)" if "\<not> \<not> lsReleased l" for l s
    using that by (simp add: lease_Release_def)
qed

section \<open>The registry\<close>

record queue_registry =
  qrQueues :: "string \<rightharpoonup> provider_queue"
  qrIDs :: "string list"

definition queue_mk :: "unit \<Rightarrow> string \<Rightarrow> queue_config \<Rightarrow> registry_error + (unit \<times> provider_queue)" where
  "queue_mk u providerID config =
     (case NewProviderQueue providerID config of
        Inl e \<Rightarrow> Inl (InvalidConfigFor providerID e)
      | Inr q \<Rightarrow> Inr ((), q))"

definition NewQueueRegistryWithConfigs ::
  "string list \<Rightarrow> (string \<rightharpoonup> queue_config) \<Rightarrow> registry_error + queue_registry" where
  "NewQueueRegistryWithConfigs providerIDs configs =
     (case registry_build queue_mk () providerIDs configs of
        Inl e \<Rightarrow> Inl e
      | Inr (u, queues, ids) \<Rightarrow> Inr \<lparr>qrQueues = queues, qrIDs = ids\<rparr>)"

definition NewQueueRegistry :: "string list \<Rightarrow> queue_config \<Rightarrow> registry_error + queue_registry" where
  "NewQueueRegistry providerIDs config =
     (case queue_validate config of
        Some e \<Rightarrow> Inl (InvalidConfigFor [] e)
      | None \<Rightarrow> NewQueueRegistryWithConfigs providerIDs
                  (map_of (map (\<lambda>p. (trim_space p, config)) providerIDs)))"

definition queues_find :: "queue_registry \<Rightarrow> string \<Rightarrow> provider_queue option" where
  "queues_find registry providerID = qrQueues registry (trim_space providerID)"

definition queues_Acquire ::
  "queue_env \<Rightarrow> string \<Rightarrow> queue_registry \<Rightarrow> queue_registry \<times> (failure + queue_lease)" where
  "queues_Acquire env rawID registry =
     (let providerID = trim_space rawID in
      case qrQueues registry providerID of
        None \<Rightarrow> (registry, Inl (set_category CategoryQueue (set_provider providerID
                  (set_queue QueueUnknownProvider failure_zero))))
      | Some q \<Rightarrow>
          (case queue_Acquire env q of
             (q', r) \<Rightarrow> (registry\<lparr>qrQueues := (qrQueues registry)(providerID \<mapsto> q')\<rparr>, r)))"

definition queues_Release :: "string \<Rightarrow> queue_lease \<Rightarrow> queue_registry \<Rightarrow> queue_registry" where
  "queues_Release rawID lease registry =
     (let providerID = trim_space rawID in
      case qrQueues registry providerID of
        None \<Rightarrow> registry
      | Some q \<Rightarrow> registry\<lparr>qrQueues := (qrQueues registry)(providerID \<mapsto> fst (lease_Release q lease))\<rparr>)"

definition queues_Snapshot :: "string \<Rightarrow> queue_registry \<Rightarrow> queue_snapshot option" where
  "queues_Snapshot rawID registry = map_option queue_Snapshot (qrQueues registry (trim_space rawID))"

definition queues_Snapshots :: "queue_registry \<Rightarrow> queue_snapshot list" where
  "queues_Snapshots registry =
     map queue_Snapshot (List.map_filter (qrQueues registry) (qrIDs registry))"

definition queues_ReuseProvider ::
  "string \<Rightarrow> queue_registry option \<Rightarrow> queue_registry \<Rightarrow> queue_registry \<times> bool" where
  "queues_ReuseProvider rawID previous registry =
     (let providerID = trim_space rawID in
      case previous of
        None \<Rightarrow> (registry, False)
      | Some prev \<Rightarrow>
          (case (qrQueues registry providerID, qrQueues prev providerID) of
             (Some current, Some existing) \<Rightarrow>
               if qConfig current \<noteq> qConfig existing then (registry, False)
               else (registry\<lparr>qrQueues := (qrQueues registry)(providerID \<mapsto> existing)\<rparr>, True)
           | _ \<Rightarrow> (registry, False)))"

lemma NewProviderQueue_ok: "NewProviderQueue p c = Inr q \<Longrightarrow> queue_ok q \<and> qConfig q = c \<and> qSlots q = 0"
  by (auto simp: NewProviderQueue_def Let_def queue_ok_def queue_validate_None
      split: if_splits option.splits)

lemma queue_mk_made: "queue_mk u p c = Inr (u', q) \<Longrightarrow> qConfig q = c \<and> queue_ok q"
  using NewProviderQueue_ok [of p c q] by (auto simp: queue_mk_def split: sum.splits)

interpretation queue_reg: provider_registry NewQueueRegistryWithConfigs qrIDs queues_find
  "\<lambda>p c q. qConfig q = c \<and> queue_ok q"
proof
  fix ps configs r p and e :: provider_queue
  assume "NewQueueRegistryWithConfigs ps configs = Inr r"
  then obtain t m ids where b: "registry_build queue_mk () ps configs = Inr (t, m, ids)"
    and r: "r = \<lparr>qrQueues = m, qrIDs = ids\<rparr>"
    by (auto simp: NewQueueRegistryWithConfigs_def split: sum.splits)
  note spec = registry_build_spec [OF b]
  show "qrIDs r = sort (map trim_space ps)" using spec(1) r by simp
  show "distinct (qrIDs r) \<and> qrIDs r \<noteq> []" using spec(3,4) r by simp
  show "(queues_find r p \<noteq> None) = (trim_space p \<in> set (qrIDs r))"
    using spec(2) r by (auto simp: queues_find_def)
  show "\<exists>c. configs (trim_space p) = Some c \<and> qConfig e = c \<and> queue_ok e"
    if "queues_find r p = Some e"
    using spec(6) [of "trim_space p" e] that r queue_mk_made by (fastforce simp: queues_find_def)
qed

section \<open>Properties\<close>

definition queue_start :: "provider_queue \<Rightarrow> nat \<Rightarrow> queue_sys" where
  "queue_start q n = \<lparr>sysQueue = q, sysPcs = replicate n Idle\<rparr>"

lemma queue_start_inv: "NewProviderQueue p c = Inr q \<Longrightarrow> queue_inv (queue_start q n)"
  by (auto simp: NewProviderQueue_def Let_def queue_start_def queue_inv_def queue_validate_None owns_defs
      split: if_splits option.splits)

lemma queue_step_config: "queue_step s t \<Longrightarrow> qConfig (sysQueue t) = qConfig (sysQueue s)"
  by (induction rule: queue_step.induct) (simp_all add: leave_waiting_def)

lemma queue_steps_config: "queue_steps s t \<Longrightarrow> qConfig (sysQueue t) = qConfig (sysQueue s)"
  by (induction rule: rtranclp_induct) (auto dest: queue_step_config)

lemma filter_count_mono: "(\<And>x. P x \<Longrightarrow> Q x) \<Longrightarrow> length (filter P xs) \<le> length (filter Q xs)"
  by (induction xs) auto

definition example_queue :: provider_queue where
  "example_queue = \<lparr>qProviderID = ''acme'', qConfig = \<lparr>MaxInFlight = 1, MaxWaiting = 1, WaitTimeout = 10000000\<rparr>,
     qSlots = 0, qActive = 0, qWaiting = 0, qRejected = 0, qTimedOut = 0, qCanceled = 0\<rparr>"

lemma example_queue_new:
  "NewProviderQueue ''acme'' \<lparr>MaxInFlight = 1, MaxWaiting = 1, WaitTimeout = 10000000\<rparr> = Inr example_queue"
  by code_simp

text \<open>
  Claim C11: under every interleaving of the goroutines' atomic operations, at most MaxInFlight
  of them hold a lease of a provider's queue, at most MaxWaiting are blocked waiting for one,
  and the Active counter shown by Snapshot is the number of goroutines counted in.
\<close>

theorem queue_capacity:
  assumes "NewProviderQueue p c = Inr q" and "queue_steps (queue_start q n) s"
  shows "int (length (filter (\<lambda>pc. pc = Holding) (sysPcs s))) \<le> MaxInFlight c \<and>
         int (length (filter (\<lambda>pc. pc = Waiting) (sysPcs s))) \<le> MaxWaiting c \<and>
         qActive (sysQueue s) = int (length (filter owns_active (sysPcs s)))"
proof -
  have inv: "queue_inv s" using queue_steps_inv [OF assms(2)] queue_start_inv [OF assms(1)] by blast
  have c: "qConfig (sysQueue s) = c"
    using queue_steps_config [OF assms(2)] NewProviderQueue_ok [OF assms(1)] by (simp add: queue_start_def)
  have "length (filter (\<lambda>pc. pc = Holding) (sysPcs s)) \<le> length (filter owns_slot (sysPcs s))"
    and "length (filter (\<lambda>pc. pc = Waiting) (sysPcs s)) \<le> length (filter owns_waiting (sysPcs s))"
    by (auto intro!: filter_count_mono simp: owns_defs)
  with inv c show ?thesis by (simp add: queue_inv_def)
qed

theorem queue_capacity_witness:
  "int (length (filter (\<lambda>pc. pc = Holding) [Holding, Waiting])) \<le> 1"
proof -
  let ?t = "fst (queue_enter False None example_queue)"
  have "queue_steps (queue_start example_queue 2) \<lparr>sysQueue = ?t, sysPcs = [Idle, Idle][0 := Holding]\<rparr>"
    using queue_enter_steps [of 0 "[Idle, Idle]" None example_queue ?t "EnterLease \<lparr>lsReleased = False\<rparr>"]
    by (simp add: queue_start_def numeral_2_eq_2 queue_enter_def queue_contextFailure_def
        queue_tryAcquire_def example_queue_def)
  moreover have "queue_steps \<lparr>sysQueue = ?t, sysPcs = [Holding, Idle]\<rparr>
      \<lparr>sysQueue = fst (queue_enter False None ?t), sysPcs = [Holding, Idle][1 := Waiting]\<rparr>"
    using queue_enter_steps [of 1 "[Holding, Idle]" None ?t "fst (queue_enter False None ?t)" EnterBlocked]
    by (simp add: queue_enter_def queue_contextFailure_def queue_tryAcquire_def queue_reserveWaiting_def
        example_queue_def)
  ultimately have "queue_steps (queue_start example_queue 2)
      \<lparr>sysQueue = fst (queue_enter False None ?t), sysPcs = [Holding, Waiting]\<rparr>"
    by simp
  from queue_capacity [OF example_queue_new this] show ?thesis by simp
qed

text \<open>
  No goroutine is ever stuck between its atomic operations. In every reachable
  state, a goroutine that has entered Acquire or Release can take its next step, and the
  receive that gives a slot back never blocks.
\<close>

theorem queue_never_stuck:
  assumes "NewProviderQueue p c = Inr q" and "queue_steps (queue_start q n) s"
    and "i < length (sysPcs s)" and "sysPcs s ! i \<noteq> Idle"
  shows "\<exists>t. queue_step s t \<and> sysPcs t ! i \<noteq> sysPcs s ! i"
proof -
  have inv: "queue_inv s" using queue_steps_inv [OF assms(2)] queue_start_inv [OF assms(1)] by blast
  obtain u pcs where s: "s = \<lparr>sysQueue = u, sysPcs = pcs\<rparr>" by (cases s)
  have slot: "0 < qSlots u" if "pcs ! i = Releasing"
  proof -
    have "pcs ! i \<in> set (filter owns_slot pcs)"
      using that assms(3) s nth_mem [of i pcs] by (simp add: owns_slot_def)
    then have "0 < length (filter owns_slot pcs)" by (rule length_pos_if_in_set)
    with inv s show ?thesis by (simp add: queue_inv_def)
  qed
  have i: "i < length pcs" "pcs ! i \<noteq> Idle" using assms(3,4) s by simp_all
  note steps = try_active reserve_full reserve slot_active select_timer leave hold release_active release_slot
  show ?thesis
  proof (cases "pcs ! i")
    case Reserving
    then show ?thesis
      using steps(2) [OF i(1), of u] steps(3) [OF i(1), of u] i s
      by (cases "qWaiting u \<ge> MaxWaiting (qConfig u)") force+
  qed (use i s slot steps(1) [OF i(1), of u] steps(4-9) [OF i(1), of u] in force)+
qed

theorem queue_never_stuck_witness:
  "\<exists>t. queue_step \<lparr>sysQueue = fst (queue_enter False None example_queue), sysPcs = [Holding]\<rparr> t"
proof -
  let ?t = "fst (queue_enter False None example_queue)"
  have "queue_steps (queue_start example_queue 1) \<lparr>sysQueue = ?t, sysPcs = [Idle][0 := Holding]\<rparr>"
    using queue_enter_steps [of 0 "[Idle]" None example_queue ?t "EnterLease \<lparr>lsReleased = False\<rparr>"]
    by (simp add: queue_start_def queue_enter_def queue_contextFailure_def
        queue_tryAcquire_def example_queue_def)
  from queue_never_stuck [OF example_queue_new this, of 0] show ?thesis by auto
qed

text \<open>
  Acquire and Release, as the executor calls them, are runs of the atomic steps. An
  uncontended Acquire leads from an idle goroutine to a lease or back to idle, a blocked one
  to Waiting and from there to a lease or back, and Release of a held lease back to idle; so
  every result of the operations is covered by the capacity and progress properties of the
  interleavings.
\<close>

theorem queue_operations_refine_steps:
  assumes "i < length pcs"
  shows "(pcs ! i = Idle \<longrightarrow> queue_enter False ctxErr q = (q', r) \<longrightarrow>
           queue_steps \<lparr>sysQueue = q, sysPcs = pcs\<rparr>
             \<lparr>sysQueue = q', sysPcs = pcs[i := (case r of EnterFailed f \<Rightarrow> Idle
                | EnterLease l \<Rightarrow> Holding | EnterBlocked \<Rightarrow> Waiting)]\<rparr>) \<and>
         (pcs ! i = Waiting \<longrightarrow> queue_resume choice q = (q1, r1) \<longrightarrow>
           queue_steps \<lparr>sysQueue = q, sysPcs = pcs\<rparr>
             \<lparr>sysQueue = q1, sysPcs = pcs[i := (case r1 of Inl f \<Rightarrow> Idle | Inr l \<Rightarrow> Holding)]\<rparr>) \<and>
         (pcs ! i = Holding \<longrightarrow> 0 < qSlots q \<longrightarrow> lease_Release q \<lparr>lsReleased = False\<rparr> = (q2, l2, b2) \<longrightarrow>
           queue_steps \<lparr>sysQueue = q, sysPcs = pcs\<rparr> \<lparr>sysQueue = q2, sysPcs = pcs[i := Idle]\<rparr>)"
  using queue_enter_steps [OF assms, of ctxErr q q' r] queue_resume_steps [OF assms, of choice q q1 r1]
    lease_Release_steps [OF assms, of q "\<lparr>lsReleased = False\<rparr>"]
  by auto

theorem queue_operations_refine_steps_witness:
  "queue_steps \<lparr>sysQueue = example_queue, sysPcs = [Idle]\<rparr>
     \<lparr>sysQueue = example_queue\<lparr>qSlots := 1, qActive := 1\<rparr>, sysPcs = [Holding]\<rparr>"
proof -
  have "queue_enter False None example_queue =
      (example_queue\<lparr>qSlots := 1, qActive := 1\<rparr>, EnterLease \<lparr>lsReleased = False\<rparr>)"
    by (simp add: queue_enter_def queue_contextFailure_def queue_tryAcquire_def example_queue_def)
  then show ?thesis
    using queue_operations_refine_steps [of 0 "[Idle]" None example_queue
        "example_queue\<lparr>qSlots := 1, qActive := 1\<rparr>" "EnterLease \<lparr>lsReleased = False\<rparr>"]
    by simp
qed

text \<open>
  A lease is returned exactly once. After a granted Acquire, Release frees one slot
  and reports true; calling it again changes nothing and reports false; the slots taken never
  exceed MaxInFlight, whatever the other callers did while this one was blocked.
\<close>

theorem queue_lease_returned_once:
  assumes "queue_ok q" and "queue_env_ok env" and "queue_Acquire env q = (q', Inr l)"
    and "lease_Release q' l = (q2, l2, b2)"
  shows "qSlots q' \<le> MaxInFlight (qConfig q) \<and> qSlots q2 = qSlots q' - 1 \<and> b2 \<and>
         lease_Release q2 l2 = (q2, l2, False)"
  using queue_pool.held_bounded [OF assms(1-3)] queue_pool.acquire_release [OF assms] by blast

theorem queue_lease_returned_once_witness:
  "qSlots (fst (lease_Release (fst (queue_Acquire \<lparr>qeCtxNil = False, qeCtxErr = None, qeOthers = id,
     qeSelect = SelectTimer\<rparr> example_queue)) \<lparr>lsReleased = False\<rparr>)) = 0"
proof -
  let ?e = "\<lparr>qeCtxNil = False, qeCtxErr = None, qeOthers = id, qeSelect = SelectTimer\<rparr>"
  let ?q1 = "example_queue\<lparr>qSlots := 1, qActive := 1\<rparr>"
  have a: "queue_Acquire ?e example_queue = (?q1, Inr \<lparr>lsReleased = False\<rparr>)"
    by (simp add: queue_Acquire_def queue_enter_def queue_contextFailure_def queue_tryAcquire_def
        example_queue_def)
  have "queue_env_ok ?e" by (simp add: queue_env_ok_def)
  from queue_lease_returned_once [OF _ this a]
  show ?thesis using NewProviderQueue_ok [OF example_queue_new] a
    by (cases "lease_Release ?q1 \<lparr>lsReleased = False\<rparr>") (simp add: lease_Release_def)
qed

end
