(* ===== verification/KeySelector.thy ===== *)
theory KeySelector
  imports Failure "HOL-Library.Multiset"
begin

text \<open>
  Rotation over the API keys of a provider: \<open>internal/reliability/keyselector.go\<close>. A selector
  keeps one entry per key (disabled flag, cooldown end, state version) and an atomic rotation
  counter; a selection remembers the index and the state version it was made at. \<open>selectKey\<close>
  and \<open>Complete\<close> hold the selector's mutex, so each is one step of \<open>key_exec\<close>, and a run of
  \<open>key_run\<close> is any interleaving of the requests that share the selector. The clock readings
  are arguments.
\<close>

section \<open>Data\<close>

definition maximumKeysPerProvider :: nat where "maximumKeysPerProvider = 1000"

record provider_key =
  pkID :: string
  pkSecret :: string

record provider_key_set =
  ksProviderID :: string
  ksKeys :: "provider_key list"

datatype provider_key_state = ProviderKeyAvailable | ProviderKeyCooling | ProviderKeyDisabled

record provider_key_snapshot =
  kpProviderID :: string
  kpKeyID :: string
  kpState :: provider_key_state
  kpCooldownUntil :: time

record key_entry =
  keId :: string
  keSecret :: string
  keDisabled :: bool
  keCooldownUntil :: time
  keStateVersion :: uint64

record key_selector =
  slProviderID :: string
  slKeys :: "key_entry list"
  slNext :: uint64

record key_registry =
  krSelectors :: "string \<rightharpoonup> key_selector"
  krIDs :: "string list"

record key_selection =
  seProviderID :: string
  seIndex :: nat
  seKeyID :: string
  seStateVersion :: uint64
  seCompleted :: bool

datatype key_registry_error =
    NilKeyClock
  | KeyProviderIDEmpty nat
  | KeyProviderIDDuplicated string
  | NoKeyProviders
  | UnknownKeyProvider nat string
  | KeySetDuplicated string
  | NoKeys string
  | TooManyKeys string
  | InvalidKeyID string nat
  | DuplicateKeyID string string
  | EmptyKeySecret string string
  | ProviderWithoutKeys

section \<open>Construction\<close>

text \<open>\<open>providerKeyIDPattern\<close>: a letter or digit, then at most 63 of those, dots, underscores and dashes.\<close>

definition is_alnum_char :: "char \<Rightarrow> bool" where
  "is_alnum_char c \<longleftrightarrow> is_upper_char c \<or> is_lower_char c \<or> is_digit_char c"

definition providerKeyIDPattern :: "string \<Rightarrow> bool" where
  "providerKeyIDPattern s =
     (case s of
        [] \<Rightarrow> False
      | c # cs \<Rightarrow> is_alnum_char c \<and> length cs \<le> 63 \<and>
          list_all (\<lambda>d. is_alnum_char d \<or> d = CHR ''.'' \<or> d = CHR ''_'' \<or> d = CHR ''-'') cs)"

fun key_loop ::
  "string \<Rightarrow> nat \<Rightarrow> provider_key list \<Rightarrow> string set \<Rightarrow> key_entry list
     \<Rightarrow> key_registry_error + key_entry list" where
  "key_loop providerID index [] seen keys = Inr keys"
| "key_loop providerID index (key # rest) seen keys =
     (let keyID = trim_space (pkID key); secret = trim_space (pkSecret key) in
      if \<not> providerKeyIDPattern keyID then Inl (InvalidKeyID providerID index)
      else if keyID \<in> seen then Inl (DuplicateKeyID providerID keyID)
      else if secret = [] then Inl (EmptyKeySecret providerID keyID)
      else key_loop providerID (Suc index) rest (insert keyID seen)
             (keys @ [\<lparr>keId = keyID, keSecret = secret, keDisabled = False,
                       keCooldownUntil = 0, keStateVersion = 0\<rparr>]))"

definition newProviderKeySelector ::
  "string \<Rightarrow> provider_key list \<Rightarrow> key_registry_error + key_selector" where
  "newProviderKeySelector providerID configured =
     (if configured = [] then Inl (NoKeys providerID)
      else if length configured > maximumKeysPerProvider then Inl (TooManyKeys providerID)
      else (case key_loop providerID 0 configured {} [] of
              Inl e \<Rightarrow> Inl e
            | Inr keys \<Rightarrow> Inr \<lparr>slProviderID = providerID, slKeys = keys, slNext = 0\<rparr>))"

fun expected_loop :: "nat \<Rightarrow> string list \<Rightarrow> string set \<Rightarrow> key_registry_error + string set" where
  "expected_loop index [] expected = Inr expected"
| "expected_loop index (rawID # rest) expected =
     (let providerID = trim_space rawID in
      if providerID = [] then Inl (KeyProviderIDEmpty index)
      else if providerID \<in> expected then Inl (KeyProviderIDDuplicated providerID)
      else expected_loop (Suc index) rest (insert providerID expected))"

fun key_set_loop ::
  "string set \<Rightarrow> nat \<Rightarrow> provider_key_set list \<Rightarrow> key_registry \<Rightarrow> key_registry_error + key_registry" where
  "key_set_loop expected index [] registry = Inr registry"
| "key_set_loop expected index (ks # rest) registry =
     (let providerID = trim_space (ksProviderID ks) in
      if providerID \<notin> expected then Inl (UnknownKeyProvider index providerID)
      else if krSelectors registry providerID \<noteq> None then Inl (KeySetDuplicated providerID)
      else (case newProviderKeySelector providerID (ksKeys ks) of
              Inl e \<Rightarrow> Inl e
            | Inr selector \<Rightarrow>
                key_set_loop expected (Suc index) rest
                  (registry\<lparr>krSelectors := (krSelectors registry)(providerID \<mapsto> selector),
                            krIDs := krIDs registry @ [providerID]\<rparr>)))"

text \<open>
  The error for a provider without keys names one of them, in the unspecified order of a Go
  map iteration; the model keeps the error and drops that name.
\<close>

definition newProviderKeyRegistry ::
  "string list \<Rightarrow> provider_key_set list \<Rightarrow> bool \<Rightarrow> key_registry_error + key_registry" where
  "newProviderKeyRegistry providerIDs configured hasClock =
     (if \<not> hasClock then Inl NilKeyClock
      else (case expected_loop 0 providerIDs {} of
              Inl e \<Rightarrow> Inl e
            | Inr expected \<Rightarrow>
                if expected = {} then Inl NoKeyProviders
                else (case key_set_loop expected 0 configured \<lparr>krSelectors = Map.empty, krIDs = []\<rparr> of
                        Inl e \<Rightarrow> Inl e
                      | Inr registry \<Rightarrow>
                          if \<exists>p \<in> expected. krSelectors registry p = None then Inl ProviderWithoutKeys
                          else Inr (registry\<lparr>krIDs := sort (krIDs registry)\<rparr>))))"

definition NewProviderKeyRegistry ::
  "string list \<Rightarrow> provider_key_set list \<Rightarrow> key_registry_error + key_registry" where
  "NewProviderKeyRegistry providerIDs configured = newProviderKeyRegistry providerIDs configured True"

section \<open>Selection\<close>

definition newProviderKeySelection :: "key_selector \<Rightarrow> nat \<Rightarrow> key_selection" where
  "newProviderKeySelection selector index =
     \<lparr>seProviderID = slProviderID selector, seIndex = index, seKeyID = keId (slKeys selector ! index),
      seStateVersion = keStateVersion (slKeys selector ! index), seCompleted = False\<rparr>"

definition key_eligible :: "time \<Rightarrow> string set \<Rightarrow> key_entry \<Rightarrow> bool" where
  "key_eligible now excluded key \<longleftrightarrow>
     keId key \<notin> excluded \<and> \<not> keDisabled key \<and> keCooldownUntil key \<le> now"

fun preferred_scan :: "time \<Rightarrow> string set \<Rightarrow> string \<Rightarrow> nat \<Rightarrow> key_entry list \<Rightarrow> nat option" where
  "preferred_scan now excluded preferred index [] = None"
| "preferred_scan now excluded preferred index (key # rest) =
     (if keId key = preferred \<and> key_eligible now excluded key then Some index
      else preferred_scan now excluded preferred (Suc index) rest)"

definition rotation_index :: "uint64 \<Rightarrow> nat \<Rightarrow> nat \<Rightarrow> nat" where
  "rotation_index start offset n = unat ((start + of_nat offset) mod of_nat n)"

fun rotation_scan ::
  "time \<Rightarrow> string set \<Rightarrow> key_entry list \<Rightarrow> uint64 \<Rightarrow> nat list \<Rightarrow> time \<Rightarrow> time + nat" where
  "rotation_scan now excluded keys start [] earliestCooldown = Inl earliestCooldown"
| "rotation_scan now excluded keys start (offset # rest) earliestCooldown =
     (let index = rotation_index start offset (length keys); key = keys ! index in
      if keId key \<in> excluded then rotation_scan now excluded keys start rest earliestCooldown
      else if keDisabled key then rotation_scan now excluded keys start rest earliestCooldown
      else if now < keCooldownUntil key then
        rotation_scan now excluded keys start rest
          (if earliestCooldown = 0 \<or> keCooldownUntil key < earliestCooldown
           then keCooldownUntil key else earliestCooldown)
      else Inr index)"

definition selector_select ::
  "time \<Rightarrow> string \<Rightarrow> string set \<Rightarrow> string \<Rightarrow> key_selector \<Rightarrow> key_selector \<times> (failure + key_selection)" where
  "selector_select now preferredKeyID excluded providerID selector =
     (case (if preferredKeyID \<noteq> []
            then preferred_scan now excluded preferredKeyID 0 (slKeys selector) else None) of
        Some index \<Rightarrow> (selector, Inr (newProviderKeySelection selector index))
      | None \<Rightarrow>
          (let start = slNext selector; advanced = selector\<lparr>slNext := slNext selector + 1\<rparr> in
           case rotation_scan now excluded (slKeys selector) start [0..<length (slKeys selector)] 0 of
             Inr index \<Rightarrow> (advanced, Inr (newProviderKeySelection advanced index))
           | Inl earliestCooldown \<Rightarrow>
               (let failure = set_category CategoryKeyExhausted (set_provider providerID failure_zero) in
                (advanced, Inl (if earliestCooldown \<noteq> 0
                   then set_retry_after_set True (set_retry_after (time_sub earliestCooldown now) failure)
                   else failure)))))"

definition selectKey ::
  "time \<Rightarrow> string \<Rightarrow> string \<Rightarrow> string set \<Rightarrow> key_registry \<Rightarrow> key_registry \<times> (failure + key_selection)" where
  "selectKey now rawID preferredKeyID excluded registry =
     (let providerID = trim_space rawID in
      case krSelectors registry providerID of
        None \<Rightarrow> (registry, Inl (set_category CategoryKeyExhausted (set_provider providerID failure_zero)))
      | Some selector \<Rightarrow>
          (case selector_select now preferredKeyID excluded providerID selector of
             (selector', r) \<Rightarrow>
               (registry\<lparr>krSelectors := (krSelectors registry)(providerID \<mapsto> selector')\<rparr>, r)))"

definition Select :: "time \<Rightarrow> string \<Rightarrow> key_registry \<Rightarrow> key_registry \<times> (failure + key_selection)" where
  "Select now providerID registry = selectKey now providerID [] {} registry"

definition SelectPreferred ::
  "time \<Rightarrow> string \<Rightarrow> string \<Rightarrow> key_registry \<Rightarrow> key_registry \<times> (failure + key_selection)" where
  "SelectPreferred now providerID keyID registry = selectKey now providerID (trim_space keyID) {} registry"

section \<open>Completion, snapshots and hand-over\<close>

definition selection_Secret :: "key_selector \<Rightarrow> key_selection \<Rightarrow> string" where
  "selection_Secret selector selection =
     (if length (slKeys selector) \<le> seIndex selection then []
      else keSecret (slKeys selector ! seIndex selection))"

definition complete_key :: "time \<Rightarrow> uint64 \<Rightarrow> failure option \<Rightarrow> key_entry \<Rightarrow> key_entry" where
  "complete_key now stateVersion failure key =
     (case failure of
        None \<Rightarrow>
          if \<not> keDisabled key \<and> keStateVersion key = stateVersion
          then key\<lparr>keCooldownUntil := 0\<rparr> else key
      | Some f \<Rightarrow>
          if fCategory f = CategoryKeyUnauthorized then
            key\<lparr>keDisabled := True, keCooldownUntil := 0, keStateVersion := keStateVersion key + 1\<rparr>
          else if fCategory f = CategoryUpstreamRateLimit \<and> \<not> keDisabled key then
            (let cooldown = (if fRetryAfterSet f then fRetryAfter f else defaultProviderKeyCooldown);
                 cooldown = (if cooldown > maximumRetryAfter then maximumRetryAfter else cooldown);
                 cooldownUntil = now + cooldown
             in key\<lparr>keCooldownUntil := (if cooldownUntil > keCooldownUntil key then cooldownUntil
                                        else keCooldownUntil key),
                    keStateVersion := keStateVersion key + 1\<rparr>)
          else key)"

definition selection_Complete ::
  "time \<Rightarrow> failure option \<Rightarrow> key_selector \<Rightarrow> key_selection \<Rightarrow> key_selector \<times> key_selection \<times> bool" where
  "selection_Complete now failure selector selection =
     (if seCompleted selection then (selector, selection, False)
      else (selector\<lparr>slKeys := (slKeys selector)[seIndex selection :=
                complete_key now (seStateVersion selection) failure (slKeys selector ! seIndex selection)]\<rparr>,
            selection\<lparr>seCompleted := True\<rparr>, True))"

definition keys_Complete ::
  "time \<Rightarrow> failure option \<Rightarrow> key_selection \<Rightarrow> key_registry \<Rightarrow> key_registry \<times> key_selection \<times> bool" where
  "keys_Complete now failure selection registry =
     (case krSelectors registry (seProviderID selection) of
        None \<Rightarrow> (registry, selection, False)
      | Some selector \<Rightarrow>
          (case selection_Complete now failure selector selection of
             (selector', selection', ok) \<Rightarrow>
               (registry\<lparr>krSelectors := (krSelectors registry)(seProviderID selection \<mapsto> selector')\<rparr>,
                selection', ok)))"

definition key_snapshot :: "time \<Rightarrow> string \<Rightarrow> key_entry \<Rightarrow> provider_key_snapshot" where
  "key_snapshot now providerID key =
     \<lparr>kpProviderID = providerID, kpKeyID = keId key,
      kpState = (if keDisabled key then ProviderKeyDisabled
                 else if now < keCooldownUntil key then ProviderKeyCooling else ProviderKeyAvailable),
      kpCooldownUntil = (if \<not> keDisabled key \<and> now < keCooldownUntil key
                         then keCooldownUntil key else 0)\<rparr>"

definition keys_Snapshots :: "time \<Rightarrow> key_registry \<Rightarrow> provider_key_snapshot list" where
  "keys_Snapshots now registry =
     concat (map (\<lambda>p. case krSelectors registry p of
                        None \<Rightarrow> []
                      | Some selector \<Rightarrow> map (key_snapshot now p) (slKeys selector)) (krIDs registry))"

definition sameProviderKeys :: "key_selector \<Rightarrow> key_selector \<Rightarrow> bool" where
  "sameProviderKeys sel1 sel2 \<longleftrightarrow>
     length (slKeys sel1) = length (slKeys sel2) \<and>
     list_all2 (\<lambda>a b. keId a = keId b \<and> keSecret a = keSecret b) (slKeys sel1) (slKeys sel2)"

definition keys_ReuseProvider ::
  "string \<Rightarrow> key_registry option \<Rightarrow> key_registry \<Rightarrow> key_registry \<times> bool" where
  "keys_ReuseProvider rawID previous registry =
     (let providerID = trim_space rawID in
      case previous of
        None \<Rightarrow> (registry, False)
      | Some prev \<Rightarrow>
          (case (krSelectors registry providerID, krSelectors prev providerID) of
             (Some current, Some existing) \<Rightarrow>
               if \<not> sameProviderKeys current existing then (registry, False)
               else (registry\<lparr>krSelectors := (krSelectors registry)(providerID \<mapsto> existing)\<rparr>, True)
           | _ \<Rightarrow> (registry, False)))"

section \<open>Invariant\<close>

definition selector_inv :: "key_selector \<Rightarrow> bool" where
  "selector_inv s \<longleftrightarrow> slKeys s \<noteq> [] \<and> length (slKeys s) \<le> maximumKeysPerProvider \<and>
     distinct (map keId (slKeys s)) \<and>
     (\<forall>k \<in> set (slKeys s). providerKeyIDPattern (keId k) \<and> keSecret k \<noteq> [])"

lemma key_loop_inv:
  assumes "key_loop p i ks seen keys = Inr keys'" and "seen = keId ` set keys"
    and "distinct (map keId keys)" and "\<forall>k \<in> set keys. providerKeyIDPattern (keId k) \<and> keSecret k \<noteq> []"
  shows "length keys' = length keys + length ks \<and> distinct (map keId keys') \<and>
    (\<forall>k \<in> set keys'. providerKeyIDPattern (keId k) \<and> keSecret k \<noteq> [])"
  using assms
proof (induction ks arbitrary: i seen keys)
  case (Cons key rest)
  let ?k = "trim_space (pkID key)" and ?s = "trim_space (pkSecret key)"
  let ?keys = "keys @ [\<lparr>keId = ?k, keSecret = ?s, keDisabled = False, keCooldownUntil = 0, keStateVersion = 0\<rparr>]"
  from Cons.prems(1) have ok: "providerKeyIDPattern ?k" "?k \<notin> seen" "?s \<noteq> []"
    and rest: "key_loop p (Suc i) rest (insert ?k seen) ?keys = Inr keys'"
    by (simp_all add: Let_def split: if_splits)
  have "insert ?k seen = keId ` set ?keys" "distinct (map keId ?keys)"
    "\<forall>k \<in> set ?keys. providerKeyIDPattern (keId k) \<and> keSecret k \<noteq> []"
    using ok Cons.prems by auto
  from Cons.IH [OF rest this] show ?case by simp
qed simp

lemma newProviderKeySelector_inv:
  assumes "newProviderKeySelector p ks = Inr s"
  shows "selector_inv s" and "slNext s = 0"
  using assms key_loop_inv [of p 0 ks "{}" "[]"]
  by (auto simp: newProviderKeySelector_def selector_inv_def split: if_splits sum.splits)

lemma complete_key_fields [simp]:
  "keId (complete_key now v f k) = keId k" "keSecret (complete_key now v f k) = keSecret k"
  by (simp_all add: complete_key_def Let_def split: option.split)

lemma selection_Complete_inv:
  assumes "selector_inv s"
  shows "selector_inv (fst (selection_Complete now f s sel))"
proof (cases "seIndex sel < length (slKeys s)")
  case True
  let ?keys = "(slKeys s)[seIndex sel := complete_key now (seStateVersion sel) f (slKeys s ! seIndex sel)]"
  have same: "map keId ?keys = map keId (slKeys s)"
    by (simp add: map_update list_update_same_conv True)
  have "providerKeyIDPattern (keId k) \<and> keSecret k \<noteq> []" if "k \<in> set ?keys" for k
  proof -
    have "k \<in> insert (complete_key now (seStateVersion sel) f (slKeys s ! seIndex sel)) (set (slKeys s))"
      using that set_update_subset_insert by fast
    with assms True show ?thesis by (auto simp: selector_inv_def)
  qed
  with assms same show ?thesis
    by (auto simp: selection_Complete_def selector_inv_def simp del: map_update)
next
  case False
  with assms show ?thesis
    by (simp add: selection_Complete_def selector_inv_def list_update_beyond)
qed

lemma selector_select_keys:
  "selector_select now pref ex p s = (s', r) \<Longrightarrow> slKeys s' = slKeys s"
  by (auto simp: selector_select_def Let_def split: option.splits sum.splits if_splits)

section \<open>What a scan finds\<close>

lemma rotation_index_less: "0 < n \<Longrightarrow> n \<le> maximumKeysPerProvider \<Longrightarrow> rotation_index start off n < n"
  by (simp add: rotation_index_def unat_mod unat_of_nat maximumKeysPerProvider_def)

lemma rotation_index_nat:
  assumes "unat start + n \<le> 2 ^ 64" and "off < n" and "n \<le> maximumKeysPerProvider"
  shows "rotation_index start off n = (unat start + off) mod n"
  using assms
  by (simp add: rotation_index_def unat_mod unat_of_nat unat_word_ariths maximumKeysPerProvider_def)

text \<open>Without wrap-around of the counter, one turn of the rotation visits every key.\<close>

lemma rotation_covers:
  assumes "unat start + n \<le> 2 ^ 64" and "i < n" and "n \<le> maximumKeysPerProvider"
  shows "\<exists>off < n. rotation_index start off n = i"
proof -
  define a where "a = unat start mod n"
  have a: "a < n" using assms(2) by (simp add: a_def)
  define off where "off = (if a \<le> i then i - a else i + n - a)"
  have "off < n" using a assms(2) by (auto simp: off_def)
  moreover have "(a + off) mod n = i" using a assms(2) by (auto simp: off_def)
  then have "(unat start + off) mod n = i" by (simp add: a_def mod_simps)
  ultimately show ?thesis using rotation_index_nat [OF assms(1) _ assms(3)] by blast
qed

lemma preferred_scan_Some:
  "preferred_scan now ex pref i ks = Some j \<Longrightarrow>
     i \<le> j \<and> j - i < length ks \<and> keId (ks ! (j - i)) = pref \<and> key_eligible now ex (ks ! (j - i))"
proof (induction ks arbitrary: i)
  case (Cons k ks)
  show ?case
  proof (cases "keId k = pref \<and> key_eligible now ex k")
    case False
    with Cons.prems have "preferred_scan now ex pref (Suc i) ks = Some j" by (simp split: if_splits)
    from Cons.IH [OF this] show ?thesis by (auto simp: nth_Cons' Suc_le_eq Suc_diff_Suc less_Suc_eq_le)
  qed (use Cons.prems in simp)
qed simp

lemma preferred_scan_None:
  "preferred_scan now ex pref i ks = None \<longleftrightarrow> (\<forall>k \<in> set ks. \<not> (keId k = pref \<and> key_eligible now ex k))"
  by (induction ks arbitrary: i) auto

lemma rotation_scan_Inr:
  "rotation_scan now ex keys start offs acc = Inr i \<Longrightarrow>
     (\<exists>off \<in> set offs. i = rotation_index start off (length keys)) \<and> key_eligible now ex (keys ! i)"
  by (induction offs arbitrary: acc) (auto simp: Let_def key_eligible_def split: if_splits)

lemma rotation_scan_Inl:
  "rotation_scan now ex keys start offs acc = Inl e \<Longrightarrow> off \<in> set offs \<Longrightarrow>
     \<not> key_eligible now ex (keys ! rotation_index start off (length keys))"
  by (induction offs arbitrary: acc) (auto simp: Let_def key_eligible_def split: if_splits)

text \<open>The cooldown ends the failed scan saw, and the earliest of them.\<close>

definition key_cooling :: "time \<Rightarrow> string set \<Rightarrow> key_entry \<Rightarrow> bool" where
  "key_cooling now ex k \<longleftrightarrow> keId k \<notin> ex \<and> \<not> keDisabled k \<and> now < keCooldownUntil k"

fun earliest_of :: "time \<Rightarrow> time list \<Rightarrow> time" where
  "earliest_of acc [] = acc"
| "earliest_of acc (c # cs) = earliest_of (if acc = 0 \<or> c < acc then c else acc) cs"

lemma rotation_scan_earliest:
  "rotation_scan now ex keys start offs acc = Inl e \<Longrightarrow>
     e = earliest_of acc (map keCooldownUntil (filter (key_cooling now ex)
           (map (\<lambda>off. keys ! rotation_index start off (length keys)) offs)))"
  by (induction offs arbitrary: acc) (auto simp: Let_def key_cooling_def split: if_splits)

lemma earliest_of_spec:
  "0 \<le> acc \<Longrightarrow> \<forall>c \<in> set cs. 0 < c \<Longrightarrow>
     (earliest_of acc cs = 0 \<longleftrightarrow> acc = 0 \<and> cs = []) \<and>
     (earliest_of acc cs \<in> insert acc (set cs)) \<and> (\<forall>c \<in> set cs. earliest_of acc cs \<le> c) \<and>
     (acc \<noteq> 0 \<longrightarrow> earliest_of acc cs \<le> acc)"
proof (induction cs arbitrary: acc)
  case (Cons c cs)
  from Cons.prems have "0 < (if acc = 0 \<or> c < acc then c else acc)" by auto
  with Cons.IH [of "if acc = 0 \<or> c < acc then c else acc"] Cons.prems show ?case
    by (auto split: if_splits)
qed simp

lemma earliest_of_Min:
  assumes "\<forall>c \<in> set cs. 0 < c" and "cs \<noteq> []"
  shows "earliest_of 0 cs = Min (set cs)"
proof (rule sym, rule Min_eqI)
  show "earliest_of 0 cs \<in> set cs" using earliest_of_spec [of 0 cs] assms by auto
  show "earliest_of 0 cs \<le> c" if "c \<in> set cs" for c using earliest_of_spec [of 0 cs] assms that by auto
qed simp

text \<open>The set of keys one turn visits is the set of configured keys.\<close>

lemma rotation_visits:
  assumes "selector_inv s" and "unat (slNext s) + length (slKeys s) \<le> 2 ^ 64"
  shows "set (map (\<lambda>off. slKeys s ! rotation_index (slNext s) off (length (slKeys s)))
           [0..<length (slKeys s)]) = set (slKeys s)"
proof -
  let ?n = "length (slKeys s)"
  have n: "0 < ?n" "?n \<le> maximumKeysPerProvider" using assms(1) by (auto simp: selector_inv_def)
  have "\<exists>off < ?n. slKeys s ! rotation_index (slNext s) off ?n = k" if "k \<in> set (slKeys s)" for k
  proof -
    from that obtain i where "i < ?n" "slKeys s ! i = k" by (auto simp: in_set_conv_nth)
    with rotation_covers [OF assms(2), of i] n show ?thesis by blast
  qed
  moreover have "slKeys s ! rotation_index (slNext s) off ?n \<in> set (slKeys s)" for off
    using rotation_index_less [OF n, of "slNext s" off] by simp
  ultimately show ?thesis by (force simp: image_iff)
qed

section \<open>Interleavings of the requests of one selector\<close>

record key_sys =
  sysSelector :: key_selector
  sysSelections :: "key_selection list"

datatype key_event =
    KeSelect time string "string set"
  | KeComplete nat "failure option" time

fun key_exec :: "key_sys \<Rightarrow> key_event \<Rightarrow> key_sys" where
  "key_exec s (KeSelect now preferred excluded) =
     (case selector_select now preferred excluded (slProviderID (sysSelector s)) (sysSelector s) of
        (selector, Inl f) \<Rightarrow> s\<lparr>sysSelector := selector\<rparr>
      | (selector, Inr selection) \<Rightarrow>
          \<lparr>sysSelector = selector, sysSelections = sysSelections s @ [selection]\<rparr>)"
| "key_exec s (KeComplete i failure now) =
     (if i < length (sysSelections s) then
        (case selection_Complete now failure (sysSelector s) (sysSelections s ! i) of
           (selector, selection, ok) \<Rightarrow>
             \<lparr>sysSelector = selector, sysSelections = (sysSelections s)[i := selection]\<rparr>)
      else s)"

fun key_run :: "key_sys \<Rightarrow> key_event list \<Rightarrow> key_sys" where
  "key_run s [] = s"
| "key_run s (e # es) = key_run (key_exec s e) es"

abbreviation sys_key :: "key_sys \<Rightarrow> nat \<Rightarrow> key_entry" where
  "sys_key s i \<equiv> slKeys (sysSelector s) ! i"

lemma key_exec_select_keys [simp]:
  "slKeys (sysSelector (key_exec s (KeSelect now pref ex))) = slKeys (sysSelector s)"
  by (auto split: prod.split sum.split dest: selector_select_keys)

lemma key_exec_length [simp]:
  "length (slKeys (sysSelector (key_exec s e))) = length (slKeys (sysSelector s))"
proof (cases e)
  case (KeSelect now pref ex)
  then show ?thesis by (simp del: key_exec.simps)
qed (auto simp: selection_Complete_def)

text \<open>One event changes a key only by completing a selection of that key.\<close>

lemma key_exec_key:
  assumes "i < length (slKeys (sysSelector s))"
  shows "sys_key (key_exec s e) i = sys_key s i \<or>
    (\<exists>j f now. e = KeComplete j f now \<and> j < length (sysSelections s) \<and>
       seIndex (sysSelections s ! j) = i \<and> \<not> seCompleted (sysSelections s ! j) \<and>
       sys_key (key_exec s e) i =
         complete_key now (seStateVersion (sysSelections s ! j)) f (sys_key s i))"
proof (cases e)
  case (KeSelect now pref ex)
  then show ?thesis by (simp del: key_exec.simps)
next
  case (KeComplete j f now)
  with assms show ?thesis
    by (cases "seIndex (sysSelections s ! j) = i") (auto simp: selection_Complete_def)
qed

lemma complete_key_disabled: "keDisabled k \<Longrightarrow> keDisabled (complete_key now v f k)"
  by (auto simp: complete_key_def Let_def split: option.split)

lemma key_run_disabled:
  "i < length (slKeys (sysSelector s)) \<Longrightarrow> keDisabled (sys_key s i) \<Longrightarrow> keDisabled (sys_key (key_run s es) i)"
proof (induction es arbitrary: s)
  case (Cons e es)
  have "keDisabled (sys_key (key_exec s e) i)"
    using key_exec_key [OF Cons.prems(1), of e] Cons.prems(2) complete_key_disabled by auto
  with Cons show ?case by (simp del: key_exec.simps)
qed simp

text \<open>
  Requests that were in flight when a key was rate limited: selections made at a version of at
  most \<open>V\<close>, among the first \<open>m\<close> of the run.
\<close>

definition in_flight_below :: "nat \<Rightarrow> nat \<Rightarrow> nat \<Rightarrow> key_sys \<Rightarrow> bool" where
  "in_flight_below m i V s \<longleftrightarrow> m \<le> length (sysSelections s) \<and>
     (\<forall>j < m. seIndex (sysSelections s ! j) = i \<longrightarrow> unat (seStateVersion (sysSelections s ! j)) \<le> V)"

fun completes_below :: "nat \<Rightarrow> key_event \<Rightarrow> bool" where
  "completes_below m (KeSelect now pref ex) = True"
| "completes_below m (KeComplete j f now) = (j < m)"

lemma in_flight_below_exec: "in_flight_below m i V s \<Longrightarrow> in_flight_below m i V (key_exec s e)"
proof (cases e)
  case (KeSelect now pref ex)
  then show "in_flight_below m i V s \<Longrightarrow> in_flight_below m i V (key_exec s e)"
    by (auto simp: in_flight_below_def nth_append split: prod.split sum.split)
next
  case (KeComplete j f now)
  then show "in_flight_below m i V s \<Longrightarrow> in_flight_below m i V (key_exec s e)"
    by (auto simp: in_flight_below_def selection_Complete_def nth_list_update)
qed

definition key_held :: "time \<Rightarrow> nat \<Rightarrow> key_entry \<Rightarrow> bool" where
  "key_held c V k \<longleftrightarrow> keDisabled k \<or> c \<le> keCooldownUntil k \<and> V < unat (keStateVersion k)"

lemma word_suc: "unat (v :: uint64) + 1 < 2 ^ 64 \<Longrightarrow> unat (v + 1) = unat v + 1"
  by (simp add: unat_word_ariths)

lemma complete_key_held:
  assumes "key_held c V k" and "unat v \<le> V" and "unat (keStateVersion k) + 1 < 2 ^ 64"
  shows "key_held c V (complete_key now v f k)"
  using assms word_suc [OF assms(3)]
  by (auto simp: key_held_def complete_key_def Let_def split: option.split)

lemma complete_key_version:
  assumes "unat (keStateVersion k) + 1 < 2 ^ 64"
  shows "unat (keStateVersion (complete_key now v f k)) \<le> unat (keStateVersion k) + 1"
  using word_suc [OF assms] by (auto simp: complete_key_def Let_def split: option.split)

lemma key_run_held:
  assumes "i < length (slKeys (sysSelector s))" and "in_flight_below m i V s"
    and "key_held c V (sys_key s i)" and "list_all (completes_below m) es"
    and "unat (keStateVersion (sys_key s i)) + length es < 2 ^ 64"
  shows "key_held c V (sys_key (key_run s es) i)"
  using assms
proof (induction es arbitrary: s)
  case (Cons e es)
  have b: "unat (keStateVersion (sys_key s i)) + 1 < 2 ^ 64" using Cons.prems(5) by simp
  have v: "unat (seStateVersion (sysSelections s ! j)) \<le> V"
    if "e = KeComplete j f now" "seIndex (sysSelections s ! j) = i" for j f now
    using Cons.prems(2,4) that by (simp add: in_flight_below_def)
  note key = key_exec_key [OF Cons.prems(1), of e]
  have "key_held c V (sys_key (key_exec s e) i)"
    using key complete_key_held [OF Cons.prems(3) _ b] v Cons.prems(3) by auto
  moreover have "unat (keStateVersion (sys_key (key_exec s e) i)) \<le> unat (keStateVersion (sys_key s i)) + 1"
    using key complete_key_version [OF b] by auto
  then have "unat (keStateVersion (sys_key (key_exec s e) i)) + length es < 2 ^ 64"
    using Cons.prems(5) by simp
  ultimately show ?case
    using Cons.IH [of "key_exec s e"] Cons.prems in_flight_below_exec
    by (simp del: key_exec.simps)
qed simp

section \<open>Properties\<close>

lemma selector_select_sound:
  assumes "selector_inv s" and "selector_select now pref ex p s = (s', Inr sel)"
  shows "seIndex sel < length (slKeys s) \<and> key_eligible now ex (slKeys s ! seIndex sel) \<and>
    seKeyID sel = keId (slKeys s ! seIndex sel) \<and>
    seStateVersion sel = keStateVersion (slKeys s ! seIndex sel) \<and> \<not> seCompleted sel \<and>
    seProviderID sel = slProviderID s"
proof -
  have n: "0 < length (slKeys s)" "length (slKeys s) \<le> maximumKeysPerProvider"
    using assms(1) by (auto simp: selector_inv_def)
  show ?thesis
    using assms(2) preferred_scan_Some [of now ex pref 0 "slKeys s" "seIndex sel"]
      rotation_scan_Inr [of now ex "slKeys s" "slNext s" "[0..<length (slKeys s)]" 0 "seIndex sel"]
      rotation_index_less [OF n]
    by (auto simp: selector_select_def newProviderKeySelection_def Let_def split: option.splits sum.splits if_splits)
qed

lemma selector_select_exhausted:
  assumes "selector_inv s" and "unat (slNext s) + length (slKeys s) \<le> 2 ^ 64"
    and "selector_select now pref ex p s = (s', Inl f)"
  shows "\<forall>k \<in> set (slKeys s). \<not> key_eligible now ex k"
    and "f = (let cs = filter (key_cooling now ex)
             (map (\<lambda>off. slKeys s ! rotation_index (slNext s) off (length (slKeys s))) [0..<length (slKeys s)]);
           e = earliest_of 0 (map keCooldownUntil cs);
           g = set_category CategoryKeyExhausted (set_provider p failure_zero)
        in if e \<noteq> 0 then set_retry_after_set True (set_retry_after (time_sub e now) g) else g)"
proof -
  from assms(3) obtain e where
    scan: "rotation_scan now ex (slKeys s) (slNext s) [0..<length (slKeys s)] 0 = Inl e"
    and f: "f = (if e \<noteq> 0 then set_retry_after_set True (set_retry_after (time_sub e now)
             (set_category CategoryKeyExhausted (set_provider p failure_zero)))
           else set_category CategoryKeyExhausted (set_provider p failure_zero))"
    by (auto simp: selector_select_def Let_def split: option.splits sum.splits if_splits)
  show "\<forall>k \<in> set (slKeys s). \<not> key_eligible now ex k"
    unfolding rotation_visits [OF assms(1,2), symmetric]
    using rotation_scan_Inl [OF scan] by auto
  show "f = (let cs = filter (key_cooling now ex)
             (map (\<lambda>off. slKeys s ! rotation_index (slNext s) off (length (slKeys s))) [0..<length (slKeys s)]);
           e = earliest_of 0 (map keCooldownUntil cs);
           g = set_category CategoryKeyExhausted (set_provider p failure_zero)
        in if e \<noteq> 0 then set_retry_after_set True (set_retry_after (time_sub e now) g) else g)"
    using f rotation_scan_earliest [OF scan] by (simp add: Let_def)
qed

definition example_key :: "string \<Rightarrow> key_entry" where
  "example_key name = \<lparr>keId = name, keSecret = ''s'', keDisabled = False, keCooldownUntil = 0, keStateVersion = 0\<rparr>"

definition example_selector :: key_selector where
  "example_selector = \<lparr>slProviderID = ''acme'', slKeys = [example_key ''a'', example_key ''b''], slNext = 0\<rparr>"

lemma example_selector_inv: "selector_inv example_selector"
  by (simp add: selector_inv_def example_selector_def example_key_def maximumKeysPerProvider_def
      providerKeyIDPattern_def is_alnum_char_def is_lower_char_def)

text \<open>
  Claim C12: selecting a key succeeds exactly when some key of the provider is neither disabled,
  nor cooling down, nor excluded by the request, and the selected key is such a key; the
  rotation counter must not wrap within the turn (it takes 2^64 selections to get there).
\<close>

theorem key_selection_exact:
  assumes "krSelectors registry (trim_space p) = Some s" and "selector_inv s"
    and "unat (slNext s) + length (slKeys s) \<le> 2 ^ 64"
    and "selectKey now p preferred excluded registry = (registry', r)"
  shows "((\<exists>sel. r = Inr sel) \<longleftrightarrow> (\<exists>k \<in> set (slKeys s). key_eligible now excluded k)) \<and>
    (\<forall>sel. r = Inr sel \<longrightarrow>
       seIndex sel < length (slKeys s) \<and> seKeyID sel = keId (slKeys s ! seIndex sel) \<and>
       seKeyID sel \<notin> excluded \<and> \<not> keDisabled (slKeys s ! seIndex sel) \<and>
       keCooldownUntil (slKeys s ! seIndex sel) \<le> now)"
proof -
  from assms(1,4) obtain s' where sel: "selector_select now preferred excluded (trim_space p) s = (s', r)"
    by (auto simp: selectKey_def Let_def split: prod.splits)
  show ?thesis
  proof (cases r)
    case (Inl f)
    with selector_select_exhausted(1) [OF assms(2,3)] sel show ?thesis by auto
  next
    case (Inr x)
    then have "selector_select now preferred excluded (trim_space p) s = (s', Inr x)" using sel by simp
    from selector_select_sound [OF assms(2) this] Inr show ?thesis
      by (auto simp: key_eligible_def intro!: bexI [of _ "slKeys s ! seIndex x"])
  qed
qed

theorem key_selection_exact_witness:
  "\<exists>registry' sel. selectKey 5 ''acme'' [] {''a''} \<lparr>krSelectors = [''acme'' \<mapsto> example_selector], krIDs = [''acme'']\<rparr>
     = (registry', Inr sel) \<and> seKeyID sel = ''b''"
proof -
  let ?r = "\<lparr>krSelectors = [''acme'' \<mapsto> example_selector], krIDs = [''acme'']\<rparr>"
  obtain registry' r where run: "selectKey 5 ''acme'' [] {''a''} ?r = (registry', r)" by fastforce
  have t: "trim_space ''acme'' = ''acme''" by code_simp
  have "krSelectors ?r (trim_space ''acme'') = Some example_selector" by (simp add: t)
  moreover have "unat (slNext example_selector) + length (slKeys example_selector) \<le> 2 ^ 64"
    by (simp add: example_selector_def)
  ultimately have ex: "((\<exists>sel. r = Inr sel) \<longleftrightarrow>
      (\<exists>k \<in> set (slKeys example_selector). key_eligible 5 {''a''} k)) \<and>
    (\<forall>sel. r = Inr sel \<longrightarrow> seIndex sel < length (slKeys example_selector) \<and>
       seKeyID sel = keId (slKeys example_selector ! seIndex sel) \<and> seKeyID sel \<notin> {''a''} \<and>
       \<not> keDisabled (slKeys example_selector ! seIndex sel) \<and>
       keCooldownUntil (slKeys example_selector ! seIndex sel) \<le> 5)"
    by (rule key_selection_exact [OF _ example_selector_inv _ run])
  then obtain sel where sel: "r = Inr sel" by (auto simp: example_selector_def example_key_def key_eligible_def)
  with ex have "seKeyID sel = ''b''"
    by (auto simp: example_selector_def example_key_def nth_Cons' split: if_splits)
  with run sel show ?thesis by blast
qed

text \<open>
  When every key is unusable, the failure is \<open>CategoryKeyExhausted\<close> and its
  Retry-After is the time to the earliest end of a cooldown among the keys the request may
  still use; it is absent when there is no such key, and positive when it is present.
\<close>

theorem key_exhaustion_retry_after:
  assumes "krSelectors registry (trim_space p) = Some s" and "selector_inv s"
    and "unat (slNext s) + length (slKeys s) \<le> 2 ^ 64" and "0 \<le> now"
    and "selectKey now p preferred excluded registry = (registry', Inl f)"
  shows "fCategory f = CategoryKeyExhausted \<and> fProviderID f = trim_space p \<and>
    fRetryAfterSet f = (\<exists>k \<in> set (slKeys s). key_cooling now excluded k) \<and>
    (fRetryAfterSet f \<longrightarrow> 0 < fRetryAfter f \<and>
       fRetryAfter f = time_sub (Min (keCooldownUntil ` {k \<in> set (slKeys s). key_cooling now excluded k})) now)"
proof -
  define cs where "cs = filter (key_cooling now excluded)
    (map (\<lambda>off. slKeys s ! rotation_index (slNext s) off (length (slKeys s))) [0..<length (slKeys s)])"
  from assms(1,5) obtain s' where sel: "selector_select now preferred excluded (trim_space p) s = (s', Inl f)"
    by (auto simp: selectKey_def Let_def split: prod.splits)
  have set_cs: "set cs = {k \<in> set (slKeys s). key_cooling now excluded k}"
    using rotation_visits [OF assms(2,3)] by (auto simp: cs_def)
  have later: "now < c" if "c \<in> set (map keCooldownUntil cs)" for c
    using that by (auto simp: cs_def key_cooling_def)
  have pos: "\<forall>c \<in> set (map keCooldownUntil cs). 0 < c"
    using later assms(4) by (blast intro: order.strict_trans1)
  note f = selector_select_exhausted(2) [OF assms(2,3) sel, folded cs_def, unfolded Let_def]
  show ?thesis
  proof (cases "cs = []")
    case True
    then show ?thesis using f set_cs by auto
  next
    case False
    let ?e = "earliest_of 0 (map keCooldownUntil cs)"
    have e: "?e = Min (keCooldownUntil ` {k \<in> set (slKeys s). key_cooling now excluded k})"
      using earliest_of_Min [OF pos] False set_cs by simp
    have "?e \<in> set (map keCooldownUntil cs)"
      using earliest_of_spec [OF order.refl pos] False by auto
    then have "now < ?e" by (rule later)
    moreover have "\<exists>k \<in> set (slKeys s). key_cooling now excluded k"
      using False set_cs by (metis (no_types, lifting) mem_Collect_eq last_in_set)
    ultimately show ?thesis using f e assms(4) by (auto simp: time_sub_pos)
  qed
qed

theorem key_exhaustion_retry_after_witness:
  "fRetryAfter (case snd (selectKey 5 ''acme'' [] {} \<lparr>krSelectors = [''acme'' \<mapsto>
       example_selector\<lparr>slKeys := [(example_key ''a'')\<lparr>keCooldownUntil := 25\<rparr>, (example_key ''b'')\<lparr>keDisabled := True\<rparr>]\<rparr>],
       krIDs = [''acme'']\<rparr>) of Inl f \<Rightarrow> f) = 20"
proof -
  let ?s = "example_selector\<lparr>slKeys := [(example_key ''a'')\<lparr>keCooldownUntil := 25\<rparr>, (example_key ''b'')\<lparr>keDisabled := True\<rparr>]\<rparr>"
  let ?r = "\<lparr>krSelectors = [''acme'' \<mapsto> ?s], krIDs = [''acme'']\<rparr>"
  have t: "trim_space ''acme'' = ''acme''" by code_simp
  have inv: "selector_inv ?s" using example_selector_inv by (simp add: selector_inv_def example_selector_def example_key_def)
  have "\<not> isl (snd (selectKey 5 ''acme'' [] {} ?r)) \<Longrightarrow> False"
    by (simp add: t selectKey_def selector_select_def example_selector_def example_key_def
        rotation_index_def upt_rec Let_def)
  then obtain g f where run: "selectKey 5 ''acme'' [] {} ?r = (g, Inl f)"
    by (metis sum.collapse(1) prod.collapse)
  have "krSelectors ?r (trim_space ''acme'') = Some ?s" by (simp add: t)
  moreover have "unat (slNext ?s) + length (slKeys ?s) \<le> 2 ^ 64" by (simp add: example_selector_def)
  ultimately have "fRetryAfterSet f = (\<exists>k \<in> set (slKeys ?s). key_cooling 5 {} k) \<and> (fRetryAfterSet f \<longrightarrow>
      fRetryAfter f = time_sub (Min (keCooldownUntil ` {k \<in> set (slKeys ?s). key_cooling 5 {} k})) 5)"
    using key_exhaustion_retry_after [OF _ inv _ _ run] by simp
  moreover have "{k \<in> set (slKeys ?s). key_cooling 5 {} k} = {(example_key ''a'')\<lparr>keCooldownUntil := 25\<rparr>}"
    by (auto simp: key_cooling_def example_key_def)
  ultimately have "fRetryAfter f = 20"
    by (simp add: key_cooling_def example_key_def time_sub_def int64_defs)
  with run show ?thesis by simp
qed

text \<open>Keys picked by consecutive selections.\<close>

fun select_indices :: "time list \<Rightarrow> key_selector \<Rightarrow> nat list" where
  "select_indices [] s = []"
| "select_indices (now # rest) s =
     (case selector_select now [] {} (slProviderID s) s of
        (s', Inl f) \<Rightarrow> select_indices rest s'
      | (s', Inr sel) \<Rightarrow> seIndex sel # select_indices rest s')"

lemma select_all_eligible:
  assumes "selector_inv s" and "unat (slNext s) + length (slKeys s) \<le> 2 ^ 64"
    and "\<forall>k \<in> set (slKeys s). key_eligible now {} k"
  shows "selector_select now [] {} p s =
    (s\<lparr>slNext := slNext s + 1\<rparr>, Inr (newProviderKeySelection s (unat (slNext s) mod length (slKeys s))))"
proof -
  let ?n = "length (slKeys s)"
  have n: "0 < ?n" "?n \<le> maximumKeysPerProvider" using assms(1) by (auto simp: selector_inv_def)
  have i: "rotation_index (slNext s) 0 ?n = unat (slNext s) mod ?n"
    using rotation_index_nat [OF assms(2) n(1) n(2)] by simp
  have "key_eligible now {} (slKeys s ! (unat (slNext s) mod ?n))" using assms(3) n(1) by simp
  then have "rotation_scan now {} (slKeys s) (slNext s) [0..<?n] 0 = Inr (unat (slNext s) mod ?n)"
    using n(1) by (simp add: upt_conv_Cons i key_eligible_def Let_def)
  then show ?thesis by (simp add: selector_select_def newProviderKeySelection_def)
qed

text \<open>
  Selections rotate. While all keys of a provider are available, consecutive
  selections take the keys in turn, starting at the rotation counter, so every key is used
  once per turn.
\<close>

theorem key_rotation_round_robin:
  assumes "selector_inv s" and "unat (slNext s) + length clocks + length (slKeys s) \<le> 2 ^ 64"
    and "\<forall>now \<in> set clocks. \<forall>k \<in> set (slKeys s). key_eligible now {} k"
  shows "select_indices clocks s =
    map (\<lambda>i. (unat (slNext s) + i) mod length (slKeys s)) [0..<length clocks]"
  using assms
proof (induction clocks arbitrary: s)
  case (Cons now rest)
  have pos: "0 < length (slKeys s)" using Cons.prems(1) by (auto simp: selector_inv_def)
  let ?s = "s\<lparr>slNext := slNext s + 1\<rparr>"
  have u: "unat (slNext s + 1) = unat (slNext s) + 1"
    using Cons.prems(2) pos by (intro word_suc) (simp del: length_greater_0_conv)
  have "select_indices rest ?s = map (\<lambda>i. (unat (slNext ?s) + i) mod length (slKeys ?s)) [0..<length rest]"
    using Cons.prems u by (intro Cons.IH) (auto simp: selector_inv_def)
  moreover have "map (\<lambda>i. (unat (slNext s) + i) mod length (slKeys s)) [0..<length (now # rest)] =
      unat (slNext s) mod length (slKeys s) #
      map (\<lambda>i. (unat (slNext s) + 1 + i) mod length (slKeys s)) [0..<length rest]"
    by (simp add: upt_conv_Cons map_Suc_upt [symmetric] comp_def del: upt_Suc map_Suc_upt)
  moreover have "select_indices (now # rest) s =
      unat (slNext s) mod length (slKeys s) # select_indices rest ?s"
    using Cons.prems by (simp add: select_all_eligible newProviderKeySelection_def)
  ultimately show ?case using u by (simp del: upt_Suc list.map)
qed simp

theorem key_rotation_round_robin_witness: "select_indices [1, 2, 3] example_selector = [0, 1, 0]"
proof -
  have e: "\<forall>now \<in> set [1, 2, 3]. \<forall>k \<in> set (slKeys example_selector). key_eligible now {} k"
    by (simp add: key_eligible_def example_selector_def example_key_def)
  have "unat (slNext example_selector) + length [1 :: time, 2, 3] + length (slKeys example_selector) \<le> 2 ^ 64"
    by (simp add: example_selector_def)
  from key_rotation_round_robin [OF example_selector_inv this e] show ?thesis
    by (simp add: example_selector_def upt_rec)
qed

text \<open>
  A rate-limited key keeps its cooldown. When a request on a key ends with a 429, then
  whatever the requests do that were already in flight, in any order and interleaved with any
  selections, the key stays disabled or cooling until the announced time, at most 24 hours
  later; in particular a late success of an older request does not clear the newer cooldown.
\<close>

theorem key_cooldown_survives_stale_success:
  assumes "k < length (sysSelections s)" and "\<not> seCompleted (sysSelections s ! k)"
    and "seIndex (sysSelections s ! k) = i" and "i < length (slKeys (sysSelector s))"
    and "fCategory f = CategoryUpstreamRateLimit"
    and "in_flight_below (length (sysSelections s)) i (unat (keStateVersion (sys_key s i))) s"
    and "list_all (completes_below (length (sysSelections s))) es"
    and "unat (keStateVersion (sys_key s i)) + length es + 1 < 2 ^ 64"
  shows "keDisabled (sys_key (key_run s (KeComplete k (Some f) now # es)) i) \<or>
    now + min (if fRetryAfterSet f then fRetryAfter f else defaultProviderKeyCooldown) maximumRetryAfter
      \<le> keCooldownUntil (sys_key (key_run s (KeComplete k (Some f) now # es)) i)"
proof -
  let ?V = "unat (keStateVersion (sys_key s i))" and ?t = "key_exec s (KeComplete k (Some f) now)"
  let ?c = "now + min (if fRetryAfterSet f then fRetryAfter f else defaultProviderKeyCooldown) maximumRetryAfter"
  have key: "sys_key ?t i = complete_key now (seStateVersion (sysSelections s ! k)) (Some f) (sys_key s i)"
    using assms(1-4) by (auto simp: selection_Complete_def)
  have suc: "unat (keStateVersion (sys_key s i) + 1) = ?V + 1" using assms(8) by (intro word_suc) simp
  have held: "key_held ?c ?V (sys_key ?t i)"
    unfolding key using assms(5) suc by (auto simp: key_held_def complete_key_def Let_def min_def)
  have "unat (keStateVersion (sys_key ?t i)) \<le> ?V + 1"
    unfolding key using assms(8) by (intro complete_key_version) simp
  then have "unat (keStateVersion (sys_key ?t i)) + length es < 2 ^ 64" using assms(8) by simp
  then have "key_held ?c ?V (sys_key (key_run ?t es) i)"
    using held assms(4,6,7) in_flight_below_exec [OF assms(6), of "KeComplete k (Some f) now"]
    by (intro key_run_held) (simp_all del: key_exec.simps)
  then show ?thesis by (auto simp: key_held_def simp del: key_exec.simps)
qed

definition example_rate_limit :: failure where
  "example_rate_limit = set_category CategoryUpstreamRateLimit failure_zero"

theorem key_cooldown_survives_stale_success_witness:
  "40 + 30 * second \<le> keCooldownUntil (sys_key (key_run
     \<lparr>sysSelector = example_selector,
      sysSelections = [newProviderKeySelection example_selector 0, newProviderKeySelection example_selector 0]\<rparr>
     [KeComplete 0 (Some example_rate_limit) 40, KeComplete 1 None 50]) 0)"
proof -
  let ?s = "\<lparr>sysSelector = example_selector,
      sysSelections = [newProviderKeySelection example_selector 0, newProviderKeySelection example_selector 0]\<rparr>"
  have "in_flight_below (length (sysSelections ?s)) 0 (unat (keStateVersion (sys_key ?s 0))) ?s"
    by (auto simp: in_flight_below_def newProviderKeySelection_def less_Suc_eq)
  then have "keDisabled (sys_key (key_run ?s (KeComplete 0 (Some example_rate_limit) 40 # [KeComplete 1 None 50])) 0) \<or>
    40 + min (if fRetryAfterSet example_rate_limit then fRetryAfter example_rate_limit else defaultProviderKeyCooldown)
      maximumRetryAfter
      \<le> keCooldownUntil (sys_key (key_run ?s (KeComplete 0 (Some example_rate_limit) 40 # [KeComplete 1 None 50])) 0)"
    by (intro key_cooldown_survives_stale_success)
      (simp_all add: newProviderKeySelection_def example_rate_limit_def example_selector_def example_key_def)
  then show ?thesis
    by (simp add: selection_Complete_def complete_key_def newProviderKeySelection_def example_selector_def
        example_key_def example_rate_limit_def defaultProviderKeyCooldown_def maximumRetryAfter_def duration_defs Let_def)
qed

text \<open>
  A key the provider rejected with 401 is out for good: whatever happens afterwards,
  it stays disabled and no selection returns it.
\<close>

theorem unauthorized_key_never_selected:
  assumes "k < length (sysSelections s)" and "\<not> seCompleted (sysSelections s ! k)"
    and "seIndex (sysSelections s ! k) = i" and "i < length (slKeys (sysSelector s))"
    and "fCategory f = CategoryKeyUnauthorized"
    and "t = key_run s (KeComplete k (Some f) now # es)" and "selector_inv (sysSelector t)"
    and "selector_select now' preferred excluded p (sysSelector t) = (s', Inr sel)"
  shows "seIndex sel \<noteq> i"
proof -
  let ?u = "key_exec s (KeComplete k (Some f) now)"
  have "keDisabled (sys_key ?u i)"
    using assms(1-5) by (auto simp: selection_Complete_def complete_key_def)
  then have "keDisabled (sys_key t i)"
    unfolding assms(6) using key_run_disabled [of i ?u es] assms(4) by (simp del: key_exec.simps)
  with selector_select_sound [OF assms(7,8)] show ?thesis by (auto simp: key_eligible_def)
qed

theorem unauthorized_key_never_selected_witness:
  "\<exists>s' sel. selector_select 9 [] {} ''acme'' (sysSelector (key_run
     \<lparr>sysSelector = example_selector, sysSelections = [newProviderKeySelection example_selector 0]\<rparr>
     [KeComplete 0 (Some (set_category CategoryKeyUnauthorized failure_zero)) 4])) = (s', Inr sel) \<and> seIndex sel \<noteq> 0"
proof -
  let ?s = "\<lparr>sysSelector = example_selector, sysSelections = [newProviderKeySelection example_selector 0]\<rparr>"
  let ?f = "set_category CategoryKeyUnauthorized failure_zero"
  let ?t = "key_run ?s [KeComplete 0 (Some ?f) 4]"
  have inv: "selector_inv (sysSelector ?t)"
    using selection_Complete_inv [OF example_selector_inv, of 4 "Some ?f" "newProviderKeySelection example_selector 0"]
    by (simp add: split_beta)
  obtain s' sel where run: "selector_select 9 [] {} ''acme'' (sysSelector ?t) = (s', Inr sel)"
    by (simp add: selector_select_def selection_Complete_def complete_key_def newProviderKeySelection_def
        example_selector_def example_key_def rotation_index_def upt_rec Let_def)
  have "seIndex sel \<noteq> 0"
    by (rule unauthorized_key_never_selected [OF _ _ _ _ _ refl inv run])
      (simp_all add: newProviderKeySelection_def example_selector_def)
  with run show ?thesis by blast
qed

end
