(* ===== verification/Routing.thy ===== *)
theory Routing
  imports Failure "HOL-Library.Multiset"
begin

text \<open>
  Route tables and candidate plans: \<open>internal/routing/router.go\<close>, with the capability table of
  \<open>internal/provider/capability.go\<close> and the protocol list of \<open>internal/provider/catalog.go\<close>.
  \<open>New\<close> validates a definition and normalises it into a router; \<open>Plan\<close> turns a requested
  model and the capabilities it needs into the ordered candidates the orchestrator tries. A Go
  map that is only read by key is a HOL map; one the code ranges over is the list of its
  entries in the order of that iteration. Capabilities are strings, as in the source.
\<close>

section \<open>Protocols and capabilities\<close>

type_synonym capability = string

definition CapabilityText :: capability where "CapabilityText = ''text''"
definition CapabilityImage :: capability where "CapabilityImage = ''image''"
definition CapabilityAudio :: capability where "CapabilityAudio = ''audio''"
definition CapabilityFile :: capability where "CapabilityFile = ''file''"
definition CapabilityTools :: capability where "CapabilityTools = ''tools''"
definition CapabilityStructured :: capability where "CapabilityStructured = ''structured''"
definition CapabilityEmbedding :: capability where "CapabilityEmbedding = ''embedding''"

lemmas capability_defs = CapabilityText_def CapabilityImage_def CapabilityAudio_def CapabilityFile_def
  CapabilityTools_def CapabilityStructured_def CapabilityEmbedding_def

definition supported_protocols :: "string list" where
  "supported_protocols =
     [''openai-compatible'', ''openai'', ''anthropic'', ''gemini'', ''azure-openai'', ''dashscope'',
      ''cohere'', ''ollama'', ''mistral'', ''deepseek'', ''xai'', ''zhipu'', ''groq'', ''nvidia'',
      ''together'', ''bedrock'', ''cloudflare'']"

definition SupportedProtocol :: "string \<Rightarrow> bool" where
  "SupportedProtocol protocol \<longleftrightarrow> to_lower (trim_space protocol) \<in> set supported_protocols"

definition ProtocolSupportsCapability :: "string \<Rightarrow> capability \<Rightarrow> bool" where
  "ProtocolSupportsCapability rawProtocol capability =
     (let protocol = to_lower (trim_space rawProtocol) in
      if capability = CapabilityText then SupportedProtocol protocol
      else if capability = CapabilityImage then
        protocol \<in> set [''openai-compatible'', ''openai'', ''anthropic'', ''gemini'', ''cohere'',
          ''azure-openai'', ''ollama'', ''mistral'', ''xai'', ''zhipu'', ''groq'', ''nvidia'',
          ''together'', ''bedrock'', ''cloudflare'']
      else if capability = CapabilityAudio then
        protocol \<in> set [''openai-compatible'', ''openai'', ''azure-openai'', ''gemini'', ''cloudflare'']
      else if capability = CapabilityFile then
        protocol \<in> set [''openai-compatible'', ''openai'', ''azure-openai'', ''anthropic'', ''gemini'',
          ''bedrock'', ''cloudflare'']
      else if capability = CapabilityTools then
        protocol \<in> set [''openai-compatible'', ''openai'', ''anthropic'', ''gemini'', ''azure-openai'',
          ''dashscope'', ''cohere'', ''ollama'', ''mistral'', ''deepseek'', ''xai'', ''zhipu'',
          ''groq'', ''nvidia'', ''together'', ''bedrock'', ''cloudflare'']
      else if capability = CapabilityStructured then SupportedProtocol protocol
      else if capability = CapabilityEmbedding then
        protocol \<in> set [''openai-compatible'', ''openai'', ''azure-openai'', ''mistral'', ''xai'',
          ''zhipu'', ''groq'', ''nvidia'', ''together'', ''ollama'', ''gemini'']
      else False)"

definition ProtocolSupportsStream :: "string \<Rightarrow> bool" where
  "ProtocolSupportsStream protocol = SupportedProtocol (to_lower (trim_space protocol))"

section \<open>Data\<close>

record provider_def =
  pdID :: string
  pdType :: string
  pdBaseURL :: string
  pdModels :: "string list"
  pdModelCapabilities :: "(string \<times> capability list) list"

record target =
  tgProviderID :: string
  tgUpstreamModel :: string

record rule_def =
  ruModel :: string
  ruCandidates :: "target list"

record route_definition =
  dfProviders :: "provider_def list"
  dfRules :: "rule_def list"

record candidate =
  caProviderID :: string
  caUpstreamModel :: string
  caPriority :: int

record plan =
  plRequestedModel :: string
  plCandidates :: "candidate list"

record route_provider =
  rtId :: string
  rtModels :: "string list"
  rtCapabilities :: "string \<rightharpoonup> capability set"

record router =
  roProviders :: "string \<rightharpoonup> route_provider"
  roExact :: "(string \<times> target list) list"
  roDefault :: "target list option"

datatype routing_error =
    NoRouteProviders
  | InvalidProviderID nat
  | UnsupportedProviderType string
  | DuplicateProvider string
  | EmptyModels | EmptyModelName | DuplicateModel string
  | EmptyCapabilityModel | CapabilityUnsupportedModel string | DuplicateCapabilityModel string
  | EmptyCapabilities | ProtocolCannotCarry capability | DuplicateCapability capability
  | UnsupportedCapabilityName capability | NeitherTextNorEmbedding
  | EmptyRouteModel nat
  | EmptyCandidates | UnknownRouteProvider nat string | CandidateModelUnsupported nat string
  | NoUsableTarget
  | MultipleDefaultRoutes | DuplicateRoute string | NoRoutes

definition Primary :: "plan \<Rightarrow> candidate option" where
  "Primary p = (case plCandidates p of [] \<Rightarrow> None | c # cs \<Rightarrow> Some c)"

section \<open>Validation\<close>

definition identifierPattern :: "string \<Rightarrow> bool" where
  "identifierPattern s =
     (case s of
        [] \<Rightarrow> False
      | c # cs \<Rightarrow> (is_lower_char c \<or> is_digit_char c) \<and> length cs \<le> 63 \<and>
          list_all (\<lambda>d. is_lower_char d \<or> is_digit_char d \<or> d = CHR ''.'' \<or> d = CHR ''_'' \<or> d = CHR ''-'') cs)"

fun models_loop :: "string list \<Rightarrow> string set \<Rightarrow> string list \<Rightarrow> routing_error + string list" where
  "models_loop [] seen models = Inr models"
| "models_loop (configuredModel # rest) seen models =
     (let model = trim_space configuredModel in
      if model = [] then Inl EmptyModelName
      else if model \<in> seen then Inl (DuplicateModel model)
      else models_loop rest (insert model seen) (models @ [model]))"

definition normalizeModels :: "string list \<Rightarrow> routing_error + string list" where
  "normalizeModels configured =
     (if configured = [] then Inl EmptyModels
      else (case models_loop configured {} [] of
              Inl e \<Rightarrow> Inl e
            | Inr models \<Rightarrow> Inr (sort models)))"

definition known_capabilities :: "capability list" where
  "known_capabilities = [CapabilityText, CapabilityImage, CapabilityAudio, CapabilityFile,
     CapabilityTools, CapabilityStructured, CapabilityEmbedding]"

fun capability_loop ::
  "string \<Rightarrow> capability list \<Rightarrow> capability set \<Rightarrow> routing_error + capability set" where
  "capability_loop protocol [] s = Inr s"
| "capability_loop protocol (raw # rest) s =
     (let capability = to_lower (trim_space raw) in
      if capability \<in> set known_capabilities then
        (if \<not> ProtocolSupportsCapability protocol capability then Inl (ProtocolCannotCarry capability)
         else if capability \<in> s then Inl (DuplicateCapability capability)
         else capability_loop protocol rest (insert capability s))
      else Inl (UnsupportedCapabilityName capability))"

definition normalizeCapabilitySet :: "string \<Rightarrow> capability list \<Rightarrow> routing_error + capability set" where
  "normalizeCapabilitySet protocol configured =
     (if configured = [] then Inl EmptyCapabilities
      else (case capability_loop protocol configured {} of
              Inl e \<Rightarrow> Inl e
            | Inr s \<Rightarrow>
                if CapabilityText \<notin> s \<and> CapabilityEmbedding \<notin> s then Inl NeitherTextNorEmbedding
                else Inr s))"

fun capabilities_loop ::
  "string set \<Rightarrow> bool \<Rightarrow> string \<Rightarrow> (string \<times> capability list) list \<Rightarrow> (string \<rightharpoonup> capability set)
     \<Rightarrow> routing_error + (string \<rightharpoonup> capability set)" where
  "capabilities_loop modelSet wildcard protocol [] capabilities = Inr capabilities"
| "capabilities_loop modelSet wildcard protocol ((configuredModel, values) # rest) capabilities =
     (let model = trim_space configuredModel in
      if model = [] then Inl EmptyCapabilityModel
      else if model \<notin> modelSet \<and> \<not> wildcard then Inl (CapabilityUnsupportedModel model)
      else if capabilities model \<noteq> None then Inl (DuplicateCapabilityModel model)
      else (case normalizeCapabilitySet protocol values of
              Inl e \<Rightarrow> Inl e
            | Inr s \<Rightarrow> capabilities_loop modelSet wildcard protocol rest (capabilities(model \<mapsto> s))))"

fun default_capabilities ::
  "string list \<Rightarrow> (string \<rightharpoonup> capability set) \<Rightarrow> (string \<rightharpoonup> capability set)" where
  "default_capabilities [] capabilities = capabilities"
| "default_capabilities (model # rest) capabilities =
     default_capabilities rest
       (if capabilities model = None then capabilities(model \<mapsto> {CapabilityText}) else capabilities)"

definition normalizeCapabilities ::
  "string list \<Rightarrow> string \<Rightarrow> (string \<times> capability list) list \<Rightarrow> routing_error + (string \<rightharpoonup> capability set)" where
  "normalizeCapabilities models protocol configured =
     (case capabilities_loop (set models) (''*'' \<in> set models) protocol configured Map.empty of
        Inl e \<Rightarrow> Inl e
      | Inr capabilities \<Rightarrow> Inr (default_capabilities models capabilities))"

fun providers_loop ::
  "nat \<Rightarrow> provider_def list \<Rightarrow> (string \<rightharpoonup> route_provider) \<Rightarrow> routing_error + (string \<rightharpoonup> route_provider)" where
  "providers_loop index [] providers = Inr providers"
| "providers_loop index (configured # rest) providers =
     (let ID = trim_space (pdID configured); Type = trim_space (pdType configured) in
      if \<not> identifierPattern ID then Inl (InvalidProviderID index)
      else if \<not> SupportedProtocol Type then Inl (UnsupportedProviderType ID)
      else if providers ID \<noteq> None then Inl (DuplicateProvider ID)
      else (case normalizeModels (pdModels configured) of
              Inl e \<Rightarrow> Inl e
            | Inr models \<Rightarrow>
                (case normalizeCapabilities models Type (pdModelCapabilities configured) of
                   Inl e \<Rightarrow> Inl e
                 | Inr capabilities \<Rightarrow>
                     providers_loop (Suc index) rest
                       (providers(ID \<mapsto> \<lparr>rtId = ID, rtModels = models, rtCapabilities = capabilities\<rparr>)))))"

definition validateProviders :: "provider_def list \<Rightarrow> routing_error + (string \<rightharpoonup> route_provider)" where
  "validateProviders configured =
     (if configured = [] then Inl NoRouteProviders else providers_loop 0 configured Map.empty)"

definition providerSupports :: "route_provider \<Rightarrow> string \<Rightarrow> bool" where
  "providerSupports p model \<longleftrightarrow> list_ex (\<lambda>supported. supported = ''*'' \<or> supported = model) (rtModels p)"

definition providerSupportsCapabilities :: "route_provider \<Rightarrow> string \<Rightarrow> capability list \<Rightarrow> bool" where
  "providerSupportsCapabilities p model required =
     (let available = (case rtCapabilities p model of
                         Some s \<Rightarrow> s
                       | None \<Rightarrow> (case rtCapabilities p ''*'' of Some s \<Rightarrow> s | None \<Rightarrow> {}))
      in list_all (\<lambda>capability. capability \<in> available) required)"

fun targets_loop ::
  "string \<Rightarrow> (string \<rightharpoonup> route_provider) \<Rightarrow> nat \<Rightarrow> target list \<Rightarrow> string set \<Rightarrow> target list
     \<Rightarrow> routing_error + target list" where
  "targets_loop routeModel providers index [] seen targets = Inr targets"
| "targets_loop routeModel providers index (configured # rest) seen targets =
     (let target = \<lparr>tgProviderID = trim_space (tgProviderID configured),
                    tgUpstreamModel = trim_space (tgUpstreamModel configured)\<rparr> in
      case providers (tgProviderID target) of
        None \<Rightarrow> Inl (UnknownRouteProvider index (tgProviderID target))
      | Some p \<Rightarrow>
          (let resolvedModel = (if tgUpstreamModel target = [] then routeModel else tgUpstreamModel target);
               resolvedModel = (if routeModel = ''*'' \<and> tgUpstreamModel target = [] then ''*'' else resolvedModel);
               identity = tgProviderID target @ [CHR 0x00] @ tgUpstreamModel target
           in if \<not> providerSupports p resolvedModel then Inl (CandidateModelUnsupported index resolvedModel)
              else if identity \<in> seen then targets_loop routeModel providers (Suc index) rest seen targets
              else targets_loop routeModel providers (Suc index) rest (insert identity seen) (targets @ [target])))"

definition validateTargets ::
  "target list \<Rightarrow> string \<Rightarrow> (string \<rightharpoonup> route_provider) \<Rightarrow> routing_error + target list" where
  "validateTargets configured routeModel providers =
     (if configured = [] then Inl EmptyCandidates
      else (case targets_loop routeModel providers 0 configured {} [] of
              Inl e \<Rightarrow> Inl e
            | Inr targets \<Rightarrow> if targets = [] then Inl NoUsableTarget else Inr targets))"

section \<open>The router\<close>

fun rules_loop :: "nat \<Rightarrow> rule_def list \<Rightarrow> router \<Rightarrow> routing_error + router" where
  "rules_loop index [] router = Inr router"
| "rules_loop index (rule # rest) router =
     (let model = trim_space (ruModel rule) in
      if model = [] then Inl (EmptyRouteModel index)
      else (case validateTargets (ruCandidates rule) model (roProviders router) of
              Inl e \<Rightarrow> Inl e
            | Inr targets \<Rightarrow>
                if model = ''*'' then
                  (if roDefault router \<noteq> None then Inl MultipleDefaultRoutes
                   else rules_loop (Suc index) rest (router\<lparr>roDefault := Some targets\<rparr>))
                else if map_of (roExact router) model \<noteq> None then Inl (DuplicateRoute model)
                else rules_loop (Suc index) rest (router\<lparr>roExact := roExact router @ [(model, targets)]\<rparr>)))"

definition New :: "route_definition \<Rightarrow> routing_error + router" where
  "New definition =
     (case validateProviders (dfProviders definition) of
        Inl e \<Rightarrow> Inl e
      | Inr providers \<Rightarrow>
          (case rules_loop 0 (dfRules definition) \<lparr>roProviders = providers, roExact = [], roDefault = None\<rparr> of
             Inl e \<Rightarrow> Inl e
           | Inr router \<Rightarrow>
               if roExact router = [] \<and> (roDefault router = None \<or> roDefault router = Some [])
               then Inl NoRoutes else Inr router))"

definition zero_provider :: route_provider where
  "zero_provider = \<lparr>rtId = [], rtModels = [], rtCapabilities = Map.empty\<rparr>"

fun plan_loop ::
  "router \<Rightarrow> string \<Rightarrow> capability list \<Rightarrow> nat \<Rightarrow> target list \<Rightarrow> candidate list \<Rightarrow> bool \<Rightarrow> candidate list \<times> bool" where
  "plan_loop router requestedModel required priority [] candidates modelAvailable = (candidates, modelAvailable)"
| "plan_loop router requestedModel required priority (target # rest) candidates modelAvailable =
     (let p = (case roProviders router (tgProviderID target) of None \<Rightarrow> zero_provider | Some p \<Rightarrow> p);
          upstreamModel = (if tgUpstreamModel target = [] then requestedModel else tgUpstreamModel target)
      in if \<not> providerSupports p upstreamModel then
           plan_loop router requestedModel required (Suc priority) rest candidates modelAvailable
         else if \<not> providerSupportsCapabilities p upstreamModel required then
           plan_loop router requestedModel required (Suc priority) rest candidates True
         else plan_loop router requestedModel required (Suc priority) rest
                (candidates @ [\<lparr>caProviderID = rtId p, caUpstreamModel = upstreamModel,
                                caPriority = int priority\<rparr>]) True)"

definition route_targets :: "router \<Rightarrow> string \<Rightarrow> target list" where
  "route_targets router requestedModel =
     (let targets = (case map_of (roExact router) requestedModel of None \<Rightarrow> [] | Some ts \<Rightarrow> ts) in
      if targets = [] then (case roDefault router of None \<Rightarrow> [] | Some ts \<Rightarrow> ts) else targets)"

definition Plan :: "router \<Rightarrow> string \<Rightarrow> capability list \<Rightarrow> sentinel + plan" where
  "Plan router rawModel required =
     (let requestedModel = trim_space rawModel in
      if requestedModel = [] then Inl ErrNoRoute
      else if route_targets router requestedModel = [] then Inl ErrNoRoute
      else (case plan_loop router requestedModel required 0 (route_targets router requestedModel) [] False of
              (candidates, modelAvailable) \<Rightarrow>
                if candidates = [] then Inl (if modelAvailable then ErrCapabilityUnavailable else ErrNoRoute)
                else Inr \<lparr>plRequestedModel = requestedModel, plCandidates = candidates\<rparr>))"

definition Models :: "router option \<Rightarrow> string list" where
  "Models r = (case r of None \<Rightarrow> [] | Some router \<Rightarrow> sort (map fst (roExact router)))"

section \<open>Plans as a filter over the targets of the route\<close>

definition target_provider :: "router \<Rightarrow> target \<Rightarrow> route_provider" where
  "target_provider router t =
     (case roProviders router (tgProviderID t) of None \<Rightarrow> zero_provider | Some p \<Rightarrow> p)"

definition target_model :: "string \<Rightarrow> target \<Rightarrow> string" where
  "target_model requestedModel t = (if tgUpstreamModel t = [] then requestedModel else tgUpstreamModel t)"

definition target_serves :: "router \<Rightarrow> string \<Rightarrow> target \<Rightarrow> bool" where
  "target_serves router m t \<longleftrightarrow> providerSupports (target_provider router t) (target_model m t)"

definition target_usable :: "router \<Rightarrow> string \<Rightarrow> capability list \<Rightarrow> target \<Rightarrow> bool" where
  "target_usable router m required t \<longleftrightarrow> target_serves router m t \<and>
     providerSupportsCapabilities (target_provider router t) (target_model m t) required"

definition candidate_of :: "router \<Rightarrow> string \<Rightarrow> nat \<times> target \<Rightarrow> candidate" where
  "candidate_of router m it = \<lparr>caProviderID = rtId (target_provider router (snd it)),
     caUpstreamModel = target_model m (snd it), caPriority = int (fst it)\<rparr>"

lemmas target_defs = target_provider_def target_model_def target_serves_def target_usable_def candidate_of_def

lemma plan_loop_spec:
  "plan_loop r m req k ts cs av =
     (cs @ map (candidate_of r m) (filter (target_usable r m req \<circ> snd) (enumerate k ts)),
      av \<or> list_ex (target_serves r m) ts)"
  by (induction ts arbitrary: k cs av) (auto simp: Let_def target_defs)

text \<open>The candidates of a plan, as a comprehension over the route's targets.\<close>

definition planned :: "router \<Rightarrow> string \<Rightarrow> capability list \<Rightarrow> candidate list" where
  "planned r m req =
     map (candidate_of r m) (filter (target_usable r m req \<circ> snd) (enumerate 0 (route_targets r m)))"

lemma enumerate_targets: "snd ` set (enumerate k ts) = set ts"
  by (metis list.set_map map_snd_enumerate)

lemma enumerate_target_mem: "(i, t) \<in> set (enumerate k ts) \<Longrightarrow> t \<in> set ts"
  using enumerate_targets [of k ts] by force

lemma planned_Nil: "planned r m req = [] \<longleftrightarrow> (\<forall>t \<in> set (route_targets r m). \<not> target_usable r m req t)"
  by (subst enumerate_targets [of 0, symmetric]) (auto simp: planned_def filter_empty_conv)

lemma Plan_eq:
  "Plan r raw req =
     (if trim_space raw = [] \<or> route_targets r (trim_space raw) = [] then Inl ErrNoRoute
      else if planned r (trim_space raw) req = [] then
        Inl (if list_ex (target_serves r (trim_space raw)) (route_targets r (trim_space raw))
             then ErrCapabilityUnavailable else ErrNoRoute)
      else Inr \<lparr>plRequestedModel = trim_space raw, plCandidates = planned r (trim_space raw) req\<rparr>)"
  by (simp add: Plan_def Let_def plan_loop_spec planned_def)

section \<open>What validation guarantees\<close>

lemma models_loop_spec:
  "models_loop ms seen acc = Inr res \<Longrightarrow> seen = set acc \<Longrightarrow> distinct acc \<Longrightarrow> [] \<notin> set acc \<Longrightarrow>
     res = acc @ map trim_space ms \<and> distinct res \<and> [] \<notin> set res"
proof (induction ms arbitrary: seen acc)
  case (Cons m ms)
  let ?m = "trim_space m"
  from Cons.prems(1) have ok: "?m \<noteq> []" "?m \<notin> seen" and rest: "models_loop ms (insert ?m seen) (acc @ [?m]) = Inr res"
    by (simp_all add: Let_def split: if_splits)
  have "insert ?m seen = set (acc @ [?m])" "distinct (acc @ [?m])" "[] \<notin> set (acc @ [?m])"
    using Cons.prems ok by auto
  from Cons.IH [OF rest this] show ?case by force
qed simp

lemma normalizeModels_spec:
  assumes "normalizeModels ms = Inr res"
  shows "res = sort (map trim_space ms) \<and> distinct res \<and> [] \<notin> set res \<and> res \<noteq> []"
proof -
  from assms obtain xs where "ms \<noteq> []" "models_loop ms {} [] = Inr xs" "res = sort xs"
    by (auto simp: normalizeModels_def split: if_splits sum.splits)
  with models_loop_spec [of ms "{}" "[]" xs] show ?thesis
    by (metis append_Nil distinct.simps(1) distinct_sort empty_iff length_0_conv length_map length_sort list.set(1)
        set_sort)
qed

definition capability_set_ok :: "string \<Rightarrow> capability set \<Rightarrow> bool" where
  "capability_set_ok protocol s \<longleftrightarrow> s \<subseteq> set known_capabilities \<and>
     (\<forall>c \<in> s. ProtocolSupportsCapability protocol c) \<and> (CapabilityText \<in> s \<or> CapabilityEmbedding \<in> s)"

lemma capability_loop_spec:
  "capability_loop protocol cs s = Inr s' \<Longrightarrow>
     s \<subseteq> set known_capabilities \<and> (\<forall>c \<in> s. ProtocolSupportsCapability protocol c) \<Longrightarrow>
     s' \<subseteq> set known_capabilities \<and> (\<forall>c \<in> s'. ProtocolSupportsCapability protocol c)"
proof (induction cs arbitrary: s)
  case (Cons c cs)
  let ?c = "to_lower (trim_space c)"
  from Cons.prems(1) have "?c \<in> set known_capabilities" "ProtocolSupportsCapability protocol ?c"
    and rest: "capability_loop protocol cs (insert ?c s) = Inr s'"
    by (simp_all add: Let_def split: if_splits)
  with Cons.IH [OF rest] Cons.prems(2) show ?case by simp
qed simp

lemma normalizeCapabilitySet_ok:
  "normalizeCapabilitySet protocol cs = Inr s \<Longrightarrow> capability_set_ok protocol s"
  using capability_loop_spec [of protocol cs "{}" s]
  by (auto simp: normalizeCapabilitySet_def capability_set_ok_def split: if_splits sum.splits)

lemma capabilities_loop_ok:
  "capabilities_loop ms w protocol cs caps = Inr caps' \<Longrightarrow>
     (\<And>m s. caps m = Some s \<Longrightarrow> capability_set_ok protocol s) \<Longrightarrow>
     caps' m = Some s \<Longrightarrow> capability_set_ok protocol s"
proof (induction cs arbitrary: caps)
  case (Cons c cs)
  obtain raw vals where c: "c = (raw, vals)" by fastforce
  from Cons.prems(1) obtain t where
    t: "normalizeCapabilitySet protocol vals = Inr t"
    and rest: "capabilities_loop ms w protocol cs (caps(trim_space raw \<mapsto> t)) = Inr caps'"
    by (auto simp: c Let_def split: if_splits sum.splits)
  show ?case
    by (rule Cons.IH [OF rest _ Cons.prems(3)])
      (use Cons.prems(2) normalizeCapabilitySet_ok [OF t] in \<open>auto split: if_splits\<close>)
qed simp

lemma lowercase_protocols:
  "\<forall>c \<in> set supported_protocols. to_lower (trim_space c) = c"
  by code_simp

lemma SupportedProtocol_lower: "SupportedProtocol p \<Longrightarrow> SupportedProtocol (to_lower (trim_space p))"
  using lowercase_protocols by (auto simp: SupportedProtocol_def)

lemma text_set_ok: "SupportedProtocol protocol \<Longrightarrow> capability_set_ok protocol {CapabilityText}"
  by (simp add: capability_set_ok_def ProtocolSupportsCapability_def known_capabilities_def
      SupportedProtocol_lower Let_def)

lemma default_capabilities_ok:
  "(\<And>m s. caps m = Some s \<Longrightarrow> capability_set_ok protocol s) \<Longrightarrow> SupportedProtocol protocol \<Longrightarrow>
     default_capabilities ms caps m = Some s \<Longrightarrow> capability_set_ok protocol s"
proof (induction ms arbitrary: caps)
  case (Cons a ms)
  show ?case
    by (rule Cons.IH [OF _ Cons.prems(2) Cons.prems(3) [unfolded default_capabilities.simps]])
      (use Cons.prems(1,2) text_set_ok in \<open>auto split: if_splits\<close>)
qed simp

lemma default_capabilities_dom: "dom (default_capabilities ms caps) = dom caps \<union> set ms"
  by (induction ms arbitrary: caps) auto

lemma normalizeCapabilities_ok:
  assumes "normalizeCapabilities ms protocol cs = Inr caps" and "SupportedProtocol protocol"
  shows "caps m = Some s \<Longrightarrow> capability_set_ok protocol s" and "set ms \<subseteq> dom caps"
proof -
  from assms(1) obtain raw where
    raw: "capabilities_loop (set ms) (''*'' \<in> set ms) protocol cs Map.empty = Inr raw"
    and caps: "caps = default_capabilities ms raw"
    by (auto simp: normalizeCapabilities_def split: sum.splits)
  have "capability_set_ok protocol t" if "raw x = Some t" for x t
    by (rule capabilities_loop_ok [OF raw _ that]) simp
  then show "caps m = Some s \<Longrightarrow> capability_set_ok protocol s"
    unfolding caps by (rule default_capabilities_ok [OF _ assms(2)])
  show "set ms \<subseteq> dom caps" by (simp add: caps default_capabilities_dom)
qed

text \<open>A provider entry and the configured provider it was made from.\<close>

definition provider_entry_of :: "provider_def \<Rightarrow> route_provider \<Rightarrow> bool" where
  "provider_entry_of pd p \<longleftrightarrow> rtId p = trim_space (pdID pd) \<and> identifierPattern (rtId p) \<and>
     SupportedProtocol (trim_space (pdType pd)) \<and>
     rtModels p = sort (map trim_space (pdModels pd)) \<and> rtModels p \<noteq> [] \<and> distinct (rtModels p) \<and>
     set (rtModels p) \<subseteq> dom (rtCapabilities p) \<and>
     (\<forall>m s. rtCapabilities p m = Some s \<longrightarrow> capability_set_ok (trim_space (pdType pd)) s)"

lemma providers_loop_spec:
  "providers_loop i pds m = Inr m' \<Longrightarrow> m' x = Some p \<Longrightarrow>
     m x = Some p \<or> (\<exists>pd \<in> set pds. provider_entry_of pd p \<and> rtId p = x)"
proof (induction pds arbitrary: i m)
  case (Cons pd pds)
  let ?id = "trim_space (pdID pd)" and ?ty = "trim_space (pdType pd)"
  from Cons.prems(1) obtain models caps where
    ok: "identifierPattern ?id" "SupportedProtocol ?ty" "normalizeModels (pdModels pd) = Inr models"
      "normalizeCapabilities models ?ty (pdModelCapabilities pd) = Inr caps"
    and rest: "providers_loop (Suc i) pds (m(?id \<mapsto> \<lparr>rtId = ?id, rtModels = models, rtCapabilities = caps\<rparr>)) = Inr m'"
    by (auto simp: Let_def split: if_splits sum.splits)
  have "provider_entry_of pd \<lparr>rtId = ?id, rtModels = models, rtCapabilities = caps\<rparr>"
    using ok normalizeModels_spec [OF ok(3)] normalizeCapabilities_ok [OF ok(4,2)]
    by (auto simp: provider_entry_of_def)
  with Cons.IH [OF rest Cons.prems(2)] show ?case by (auto split: if_splits)
qed simp

definition targets_ok :: "(string \<rightharpoonup> route_provider) \<Rightarrow> string \<Rightarrow> target list \<Rightarrow> bool" where
  "targets_ok providers model ts \<longleftrightarrow> ts \<noteq> [] \<and> distinct ts \<and>
     (\<forall>t \<in> set ts. \<exists>p. providers (tgProviderID t) = Some p \<and> providerSupports p (target_model model t))"

lemma targets_loop_spec:
  assumes "targets_loop model providers i cs seen acc = Inr ts"
    and "seen = (\<lambda>t. tgProviderID t @ [CHR 0x00] @ tgUpstreamModel t) ` set acc" and "distinct acc"
    and "\<forall>t \<in> set acc. \<exists>p. providers (tgProviderID t) = Some p \<and> providerSupports p (target_model model t)"
  shows "distinct ts \<and>
    (\<forall>t \<in> set ts. \<exists>p. providers (tgProviderID t) = Some p \<and> providerSupports p (target_model model t))"
  using assms
proof (induction cs arbitrary: i seen acc)
  case (Cons c cs)
  define t where "t = \<lparr>tgProviderID = trim_space (tgProviderID c), tgUpstreamModel = trim_space (tgUpstreamModel c)\<rparr>"
  let ?id = "tgProviderID t @ [CHR 0x00] @ tgUpstreamModel t"
  from Cons.prems(1) obtain p where
    p: "providers (tgProviderID t) = Some p" "providerSupports p (target_model model t)"
    and rest: "targets_loop model providers (Suc i) cs (if ?id \<in> seen then seen else insert ?id seen)
       (if ?id \<in> seen then acc else acc @ [t]) = Inr ts"
    by (auto simp: t_def Let_def target_model_def split: option.splits if_splits)
  show ?case
    by (rule Cons.IH [OF rest]) (use Cons.prems(2-4) p in \<open>auto simp: image_iff\<close>)
qed simp

lemma validateTargets_ok: "validateTargets cs model providers = Inr ts \<Longrightarrow> targets_ok providers model ts"
  using targets_loop_spec [of model providers 0 cs "{}" "[]"]
  by (auto simp: validateTargets_def targets_ok_def split: if_splits sum.splits)

definition router_inv :: "router \<Rightarrow> bool" where
  "router_inv r \<longleftrightarrow> distinct (map fst (roExact r)) \<and>
     (\<forall>(m, ts) \<in> set (roExact r). m \<noteq> [] \<and> m \<noteq> ''*'' \<and> targets_ok (roProviders r) m ts) \<and>
     (\<forall>ts. roDefault r = Some ts \<longrightarrow> targets_ok (roProviders r) ''*'' ts)"

lemma rules_loop_spec:
  assumes "rules_loop i rs r = Inr r'" and "router_inv r"
  shows "router_inv r' \<and> roProviders r' = roProviders r \<and>
    map fst (roExact r') = map fst (roExact r) @ filter (\<lambda>m. m \<noteq> ''*'') (map (trim_space \<circ> ruModel) rs) \<and>
    (roDefault r' \<noteq> None \<longleftrightarrow> roDefault r \<noteq> None \<or> ''*'' \<in> (trim_space \<circ> ruModel) ` set rs) \<and>
    [] \<notin> (trim_space \<circ> ruModel) ` set rs"
  using assms
proof (induction rs arbitrary: i r)
  case (Cons u us)
  let ?m = "trim_space (ruModel u)"
  from Cons.prems(1) obtain ts where m: "?m \<noteq> []"
    and v: "validateTargets (ruCandidates u) ?m (roProviders r) = Inr ts"
    by (auto simp: Let_def split: if_splits sum.splits)
  note ok = validateTargets_ok [OF v]
  show ?case
  proof (cases "?m = ''*''")
    case True
    with Cons.prems(1) m v have d: "roDefault r = None"
      and rest: "rules_loop (Suc i) us (r\<lparr>roDefault := Some ts\<rparr>) = Inr r'"
      by (auto simp: Let_def split: if_splits)
    have "router_inv (r\<lparr>roDefault := Some ts\<rparr>)" using Cons.prems(2) ok True by (simp add: router_inv_def)
    from Cons.IH [OF rest this] True show ?thesis by auto
  next
    case False
    with Cons.prems(1) m v have d: "map_of (roExact r) ?m = None"
      and rest: "rules_loop (Suc i) us (r\<lparr>roExact := roExact r @ [(?m, ts)]\<rparr>) = Inr r'"
      by (auto simp: Let_def split: if_splits)
    have "router_inv (r\<lparr>roExact := roExact r @ [(?m, ts)]\<rparr>)"
      using Cons.prems(2) ok False m d by (auto simp: router_inv_def map_of_eq_None_iff)
    from Cons.IH [OF rest this] False m show ?thesis by auto
  qed
qed auto

lemma New_spec:
  assumes "New d = Inr r"
  shows "router_inv r"
    and "roProviders r x = Some p \<Longrightarrow> \<exists>pd \<in> set (dfProviders d). provider_entry_of pd p \<and> rtId p = x"
    and "map fst (roExact r) = filter (\<lambda>m. m \<noteq> ''*'') (map (trim_space \<circ> ruModel) (dfRules d))"
    and "roDefault r \<noteq> None \<longleftrightarrow> ''*'' \<in> (trim_space \<circ> ruModel) ` set (dfRules d)"
proof -
  from assms obtain ps where
    v: "validateProviders (dfProviders d) = Inr ps"
    and run: "rules_loop 0 (dfRules d) \<lparr>roProviders = ps, roExact = [], roDefault = None\<rparr> = Inr r"
    by (auto simp: New_def split: sum.splits if_splits)
  have "router_inv \<lparr>roProviders = ps, roExact = [], roDefault = None\<rparr>" by (simp add: router_inv_def)
  note spec = rules_loop_spec [OF run this]
  show "router_inv r" "map fst (roExact r) = filter (\<lambda>m. m \<noteq> ''*'') (map (trim_space \<circ> ruModel) (dfRules d))"
    "roDefault r \<noteq> None \<longleftrightarrow> ''*'' \<in> (trim_space \<circ> ruModel) ` set (dfRules d)"
    using spec by simp_all
  show "\<exists>pd \<in> set (dfProviders d). provider_entry_of pd p \<and> rtId p = x" if "roProviders r x = Some p"
    using v that spec providers_loop_spec [of 0 "dfProviders d" Map.empty ps x p]
    by (auto simp: validateProviders_def split: if_splits)
qed

text \<open>A validated route serves the model it is asked for: a wildcard entry supports every model.\<close>

lemma wildcard_supports: "providerSupports p ''*'' \<Longrightarrow> providerSupports p m"
  by (auto simp: providerSupports_def list_ex_iff)

lemma route_targets_serve:
  assumes "router_inv r" and "t \<in> set (route_targets r m)"
  shows "\<exists>p. roProviders r (tgProviderID t) = Some p" and "target_serves r m t"
proof -
  have "\<exists>p. roProviders r (tgProviderID t) = Some p \<and> providerSupports p (target_model m t)"
  proof (cases "map_of (roExact r) m")
    case None
    with assms(2) obtain ts where "roDefault r = Some ts" "t \<in> set ts"
      by (cases "roDefault r") (simp_all add: route_targets_def)
    with assms(1) obtain p where p: "roProviders r (tgProviderID t) = Some p"
      "providerSupports p (target_model ''*'' t)"
      by (auto simp: router_inv_def targets_ok_def)
    then have "providerSupports p (target_model m t)"
      using wildcard_supports [of p m] by (auto simp: target_model_def split: if_splits)
    with p show ?thesis by blast
  next
    case (Some ts)
    then have "(m, ts) \<in> set (roExact r)" by (rule map_of_SomeD)
    with assms(1) have "targets_ok (roProviders r) m ts" by (auto simp: router_inv_def)
    moreover from this assms(2) Some have "t \<in> set ts" by (auto simp: route_targets_def targets_ok_def)
    ultimately show ?thesis by (auto simp: targets_ok_def)
  qed
  then show "\<exists>p. roProviders r (tgProviderID t) = Some p" "target_serves r m t"
    by (auto simp: target_serves_def target_provider_def)
qed

lemma route_targets_Nil:
  assumes "router_inv r"
  shows "route_targets r m = [] \<longleftrightarrow> m \<notin> set (map fst (roExact r)) \<and> roDefault r = None"
proof -
  have "ts \<noteq> []" if "map_of (roExact r) m = Some ts" for ts
    using assms map_of_SomeD [OF that] by (auto simp: router_inv_def targets_ok_def)
  moreover have "ts \<noteq> []" if "roDefault r = Some ts" for ts
    using assms that by (auto simp: router_inv_def targets_ok_def)
  moreover have "m \<notin> set (map fst (roExact r)) \<longleftrightarrow> map_of (roExact r) m = None"
    by (simp add: map_of_eq_None_iff)
  ultimately show ?thesis by (auto simp: route_targets_def Let_def split: option.splits)
qed

section \<open>Properties\<close>

definition example_routes :: route_definition where
  "example_routes = \<lparr>dfProviders =
     [\<lparr>pdID = ''acme'', pdType = ''openai'', pdBaseURL = [], pdModels = [''gpt''],
       pdModelCapabilities = [(''gpt'', [''text'', ''tools''])]\<rparr>,
      \<lparr>pdID = ''beta'', pdType = ''anthropic'', pdBaseURL = [], pdModels = [''*''], pdModelCapabilities = []\<rparr>],
     dfRules = [\<lparr>ruModel = ''gpt'', ruCandidates =
        [\<lparr>tgProviderID = ''beta'', tgUpstreamModel = ''claude''\<rparr>, \<lparr>tgProviderID = ''acme'', tgUpstreamModel = []\<rparr>]\<rparr>]\<rparr>"

definition example_router :: router where
  "example_router = \<lparr>roProviders = Map.empty(
       ''acme'' \<mapsto> \<lparr>rtId = ''acme'', rtModels = [''gpt''], rtCapabilities = [''gpt'' \<mapsto> {''tools'', ''text''}]\<rparr>,
       ''beta'' \<mapsto> \<lparr>rtId = ''beta'', rtModels = [''*''], rtCapabilities = [''*'' \<mapsto> {''text''}]\<rparr>),
     roExact = [(''gpt'', [\<lparr>tgProviderID = ''beta'', tgUpstreamModel = ''claude''\<rparr>, \<lparr>tgProviderID = ''acme'', tgUpstreamModel = []\<rparr>])],
     roDefault = None\<rparr>"

lemma trimmed_names:
  "trim_space ''acme'' = ''acme''" "trim_space ''beta'' = ''beta''" "trim_space ''gpt'' = ''gpt''"
  "trim_space ''*'' = ''*''" "trim_space ''openai'' = ''openai''" "trim_space ''anthropic'' = ''anthropic''"
  "trim_space ''text'' = ''text''" "trim_space ''tools'' = ''tools''" "trim_space ''claude'' = ''claude''"
  "to_lower ''text'' = ''text''" "to_lower ''tools'' = ''tools''" "to_lower ''openai'' = ''openai''"
  "to_lower ''anthropic'' = ''anthropic''"
  by code_simp+

lemma example_router_new: "New example_routes = Inr example_router"
  by (simp add: New_def example_routes_def example_router_def validateProviders_def trimmed_names Let_def
      identifierPattern_def is_lower_char_def is_digit_char_def SupportedProtocol_def supported_protocols_def
      normalizeModels_def normalizeCapabilities_def normalizeCapabilitySet_def known_capabilities_def
      ProtocolSupportsCapability_def capability_defs validateTargets_def providerSupports_def del: to_lower.simps)


text \<open>
  Claim C40: planning fails for exactly two reasons. With a router built from a valid definition,
  the answer is \<open>ErrNoRoute\<close> exactly when the model is blank or neither a rule for it nor a
  default rule exists, and \<open>ErrCapabilityUnavailable\<close> exactly when a route exists but none of
  its targets offers all required capabilities.
\<close>

theorem plan_errors_exact:
  assumes "New d = Inr r"
  defines "rules \<equiv> (trim_space \<circ> ruModel) ` set (dfRules d)"
  shows "(Plan r raw req = Inl ErrNoRoute \<longleftrightarrow>
            trim_space raw = [] \<or> trim_space raw \<notin> rules \<and> ''*'' \<notin> rules) \<and>
         (Plan r raw req = Inl ErrCapabilityUnavailable \<longleftrightarrow>
            trim_space raw \<noteq> [] \<and> (trim_space raw \<in> rules \<or> ''*'' \<in> rules) \<and>
            (\<forall>t \<in> set (route_targets r (trim_space raw)). \<not> providerSupportsCapabilities
               (target_provider r t) (target_model (trim_space raw) t) req))"
proof -
  let ?m = "trim_space raw"
  note inv = New_spec(1) [OF assms(1)]
  have exact: "set (map fst (roExact r)) = rules - {''*''}"
    unfolding New_spec(3) [OF assms(1)] by (auto simp: rules_def)
  have none: "route_targets r ?m = [] \<longleftrightarrow> ?m \<notin> rules \<and> ''*'' \<notin> rules"
    unfolding route_targets_Nil [OF inv] exact
    using New_spec(4) [OF assms(1), folded rules_def] by (cases "roDefault r") auto
  have serve: "target_serves r ?m t" if "t \<in> set (route_targets r ?m)" for t
    using route_targets_serve(2) [OF inv that] .
  then have usable: "planned r ?m req = [] \<longleftrightarrow> (\<forall>t \<in> set (route_targets r ?m).
      \<not> providerSupportsCapabilities (target_provider r t) (target_model ?m t) req)"
    by (auto simp: planned_Nil target_usable_def)
  have "list_ex (target_serves r ?m) (route_targets r ?m)" if "route_targets r ?m \<noteq> []"
    using serve that by (cases "route_targets r ?m") simp_all
  then show ?thesis using none usable by (auto simp: Plan_eq)
qed

theorem plan_errors_exact_witness:
  "Plan example_router ''gpt'' [''image''] = Inl ErrCapabilityUnavailable \<and>
   Plan example_router ''beta'' [] = Inl ErrNoRoute"
  using plan_errors_exact [OF example_router_new, of "''gpt''" "[''image'']"]
    plan_errors_exact [OF example_router_new, of "''beta''" "[]"]
  by (simp add: trimmed_names example_routes_def route_targets_def example_router_def target_defs
      providerSupportsCapabilities_def)

text \<open>
  Every planned candidate can serve the request. It names a configured provider whose
  model list contains the upstream model or the wildcard, and for each required capability the
  provider's protocol is one that can carry it.
\<close>

theorem plan_candidates_capable:
  assumes "New d = Inr r" and "Plan r raw req = Inr p" and "c \<in> set (plCandidates p)"
  shows "\<exists>pd \<in> set (dfProviders d). trim_space (pdID pd) = caProviderID c \<and>
    SupportedProtocol (trim_space (pdType pd)) \<and>
    (''*'' \<in> trim_space ` set (pdModels pd) \<or> caUpstreamModel c \<in> trim_space ` set (pdModels pd)) \<and>
    (\<forall>capability \<in> set req. ProtocolSupportsCapability (trim_space (pdType pd)) capability)"
proof -
  let ?m = "trim_space raw"
  have "plCandidates p = planned r ?m req" using assms(2) by (auto simp: Plan_eq split: if_splits)
  with assms(3) obtain i t where "(i, t) \<in> set (enumerate 0 (route_targets r ?m))"
    and use: "target_usable r ?m req t" and c: "c = candidate_of r ?m (i, t)"
    by (auto simp: planned_def)
  then have t: "t \<in> set (route_targets r ?m)" using enumerate_target_mem by fast
  obtain q where q: "roProviders r (tgProviderID t) = Some q"
    using route_targets_serve(1) [OF New_spec(1) [OF assms(1)] t] by blast
  then have tp: "target_provider r t = q" by (simp add: target_provider_def)
  obtain pd where pd: "pd \<in> set (dfProviders d)" "provider_entry_of pd q"
    using New_spec(2) [OF assms(1) q] by blast
  have models: "''*'' \<in> set (rtModels q) \<or> target_model ?m t \<in> set (rtModels q)"
    using use tp by (auto simp: target_usable_def target_serves_def providerSupports_def list_ex_iff)
  have "ProtocolSupportsCapability (trim_space (pdType pd)) x" if "x \<in> set req" for x
    using use tp pd(2) that
    by (auto simp: target_usable_def providerSupportsCapabilities_def list_all_iff provider_entry_of_def
        capability_set_ok_def split: option.splits)
  with pd models c tp show ?thesis by (auto simp: provider_entry_of_def candidate_of_def)
qed

theorem plan_candidates_capable_witness:
  "\<exists>p c. Plan example_router ''gpt'' [''tools''] = Inr p \<and> c \<in> set (plCandidates p) \<and>
     caProviderID c = ''acme'' \<and> ProtocolSupportsCapability ''openai'' ''tools''"
proof -
  let ?c = "\<lparr>caProviderID = ''acme'', caUpstreamModel = ''gpt'', caPriority = 1\<rparr>"
  have plan: "Plan example_router ''gpt'' [''tools''] = Inr \<lparr>plRequestedModel = ''gpt'', plCandidates = [?c]\<rparr>"
    by (simp add: Plan_def trimmed_names route_targets_def example_router_def providerSupports_def
        providerSupportsCapabilities_def Let_def)
  have "\<exists>pd \<in> set (dfProviders example_routes). trim_space (pdID pd) = caProviderID ?c \<and>
      SupportedProtocol (trim_space (pdType pd)) \<and>
      (''*'' \<in> trim_space ` set (pdModels pd) \<or> caUpstreamModel ?c \<in> trim_space ` set (pdModels pd)) \<and>
      (\<forall>capability \<in> set [''tools'']. ProtocolSupportsCapability (trim_space (pdType pd)) capability)"
    by (rule plan_candidates_capable [OF example_router_new plan]) simp
  then have "ProtocolSupportsCapability ''openai'' ''tools''"
    by (auto simp: example_routes_def trimmed_names)
  with plan show ?thesis by (intro exI [of _ "\<lparr>plRequestedModel = ''gpt'', plCandidates = [?c]\<rparr>"] exI [of _ ?c]) simp
qed

text \<open>
  The advertised model list is sorted, free of duplicates and names exactly the models
  of the rules other than the default rule; each of them can be planned unless a required
  capability is missing.
\<close>

theorem models_are_the_routes:
  assumes "New d = Inr r"
  shows "sorted (Models (Some r)) \<and> distinct (Models (Some r)) \<and>
    set (Models (Some r)) = (trim_space \<circ> ruModel) ` set (dfRules d) - {''*''} \<and>
    (\<forall>m \<in> set (Models (Some r)). Plan r m req \<noteq> Inl ErrNoRoute)"
proof -
  note inv = New_spec(1) [OF assms]
  have models: "set (Models (Some r)) = set (map fst (roExact r))" by (simp add: Models_def)
  have "Plan r m req \<noteq> Inl ErrNoRoute" if m: "m \<in> set (map fst (roExact r))" for m
  proof -
    from m inv have "m \<noteq> []" by (auto simp: router_inv_def)
    from m obtain x where "m = trim_space x"
      unfolding New_spec(3) [OF assms] by auto
    then have trim: "trim_space m = m" by simp
    have rt: "route_targets r m \<noteq> []" using m by (simp add: route_targets_Nil [OF inv])
    then have "list_ex (target_serves r m) (route_targets r m)"
      using route_targets_serve(2) [OF inv] by (cases "route_targets r m") simp_all
    with rt trim \<open>m \<noteq> []\<close> show ?thesis by (simp add: Plan_eq)
  qed
  moreover have "distinct (Models (Some r))" using inv by (simp add: Models_def router_inv_def)
  moreover have "set (map fst (roExact r)) = (trim_space \<circ> ruModel) ` set (dfRules d) - {''*''}"
    unfolding New_spec(3) [OF assms] by auto
  ultimately show ?thesis using models by (simp add: Models_def)
qed

theorem models_are_the_routes_witness: "Models (Some example_router) = [''gpt'']"
proof -
  have "sorted (Models (Some example_router))" "distinct (Models (Some example_router))"
    "set (Models (Some example_router)) = set [''gpt'']"
    using models_are_the_routes [OF example_router_new] by (simp_all add: example_routes_def trimmed_names)
  then show ?thesis by (intro sorted_distinct_set_unique) simp_all
qed

end
