(* ===== verification/Attempt.thy ===== *)
theory Attempt
  imports Retry Breaker Queue KeySelector Routing
begin

text \<open>
  One candidate of a plan, with its retries: \<open>internal/reliability/attempt.go\<close>, and the part
  of \<open>stream_attempt.go\<close> that repeats it. The shared registries (breakers, queues, keys) are the
  state \<open>world\<close>; what a call meets from outside is an environment record: clock readings,
  \<open>ctx.Err()\<close> at the points where the code asks, what the adapter answers for the input and
  key it is handed, and what other requests do to the shared registries between the atomic
  operations of this one (\<open>aeOthers\<close>, indexed by the point in the code). The retry loop takes
  one environment per round and yields \<open>None\<close> when they run out before it returns; the
  termination lemma says how many are enough.
\<close>

section \<open>Inputs, outcomes and the shared state\<close>

datatype authentication = AuthenticationAPIKey | AuthenticationNone

record 'req attempt_input =
  aiRequestID :: string
  aiRequestedModel :: string
  aiRequest :: 'req
  aiCandidate :: candidate

record world =
  wBreakers :: breaker_registry
  wQueues :: queue_registry
  wKeys :: "key_registry option"

record 'v outcome =
  ocValue :: 'v
  ocFailure :: "failure option"
  ocKeyID :: string
  ocAttempted :: bool
  ocDuration :: duration

record base_env =
  aeOthers :: "nat \<Rightarrow> world \<Rightarrow> world"
  aeNowAllow :: time
  aeQueue :: queue_env
  aeNowSelect :: time
  aeCtxErr :: "ctx_err option"
  aeNowClassify :: time
  aeNowKey :: time
  aeNowBreaker :: time
  aeNowAttempt :: time
  aeDuration :: duration

record 'req attempt_env = base_env +
  aeComplete :: "time option \<Rightarrow> 'req chat_input \<Rightarrow> string \<Rightarrow> string \<times> goerr option"

record wait_env =
  weRandom :: rat
  weCtxErr :: "ctx_err option"
  weNow :: time
  weTimerFired :: bool
  weErrAfter :: "ctx_err option"

record loop_result =
  lrKeyID :: string
  lrAttempts :: int
  lrTrail :: "attempt_record list"

record attempt_result =
  rsBody :: string
  rsProviderID :: string
  rsUpstreamModel :: string
  rsKeyID :: string
  rsAttempts :: int
  rsTrail :: "attempt_record list"

definition failureCategory :: "failure option \<Rightarrow> category" where
  "failureCategory f = (case f of None \<Rightarrow> CategoryEmpty | Some x \<Rightarrow> fCategory x)"

definition failureStatus :: "failure option \<Rightarrow> int" where
  "failureStatus f = (case f of None \<Rightarrow> 0 | Some x \<Rightarrow> fStatusCode x)"

section \<open>The registries a permit, a lease and a key point into\<close>

definition world_Complete :: "time \<Rightarrow> string \<Rightarrow> failure option \<Rightarrow> permit \<Rightarrow> world \<Rightarrow> world \<times> permit" where
  "world_Complete now rawID failure permit w =
     (case brBreakers (wBreakers w) (trim_space rawID) of
        None \<Rightarrow> (w, permit)
      | Some b \<Rightarrow>
          (case permit_Complete now failure b permit of
             (b', permit', ok) \<Rightarrow>
               (w\<lparr>wBreakers := (wBreakers w)\<lparr>brBreakers := (brBreakers (wBreakers w))(trim_space rawID \<mapsto> b')\<rparr>\<rparr>,
                permit')))"

definition world_Abandon :: "string \<Rightarrow> permit \<Rightarrow> world \<Rightarrow> world" where
  "world_Abandon rawID permit w =
     (case brBreakers (wBreakers w) (trim_space rawID) of
        None \<Rightarrow> w
      | Some b \<Rightarrow>
          w\<lparr>wBreakers := (wBreakers w)\<lparr>brBreakers :=
              (brBreakers (wBreakers w))(trim_space rawID \<mapsto> fst (permit_Abandon b permit))\<rparr>\<rparr>)"

definition world_Release :: "string \<Rightarrow> queue_lease \<Rightarrow> world \<Rightarrow> world" where
  "world_Release rawID lease w = w\<lparr>wQueues := queues_Release rawID lease (wQueues w)\<rparr>"

definition world_CompleteKey :: "time \<Rightarrow> failure option \<Rightarrow> key_selection option \<Rightarrow> world \<Rightarrow> world" where
  "world_CompleteKey now failure selectedKey w =
     (case (selectedKey, wKeys w) of
        (Some selection, Some keys) \<Rightarrow> w\<lparr>wKeys := Some (fst (keys_Complete now failure selection keys))\<rparr>
      | _ \<Rightarrow> w)"

definition world_Secret :: "key_selection option \<Rightarrow> world \<Rightarrow> string" where
  "world_Secret selectedKey w =
     (case (selectedKey, wKeys w) of
        (Some selection, Some keys) \<Rightarrow>
          (case krSelectors keys (seProviderID selection) of
             None \<Rightarrow> [] | Some selector \<Rightarrow> selection_Secret selector selection)
      | _ \<Rightarrow> [])"

section \<open>Admission: breaker, queue and key\<close>

definition located :: "candidate \<Rightarrow> int \<Rightarrow> failure \<Rightarrow> failure" where
  "located cand attempt failure = set_attempt attempt (set_candidate (caPriority cand) failure)"

text \<open>
  Both \<open>executeOnce\<close> and \<open>prepareStreamOnce\<close> ask the breaker, wait in the queue and pick a key,
  and on a refusal complete the permit and run the deferred \<open>lease.Release\<close> and
  \<open>permit.Abandon\<close>.
\<close>

definition admit_key ::
  "'e base_env_scheme \<Rightarrow> candidate \<Rightarrow> authentication \<Rightarrow> string \<Rightarrow> string set \<Rightarrow> world
     \<Rightarrow> world \<times> (failure + key_selection option)" where
  "admit_key env cand auth preferredKeyID excludedKeyIDs w =
     (case wKeys w of
        None \<Rightarrow> (w, Inr None)
      | Some keys \<Rightarrow>
          if auth = AuthenticationAPIKey then
            (case selectKey (aeNowSelect env) (caProviderID cand) preferredKeyID excludedKeyIDs keys of
               (keys', Inl f) \<Rightarrow> (w\<lparr>wKeys := Some keys'\<rparr>, Inl f)
             | (keys', Inr selection) \<Rightarrow> (w\<lparr>wKeys := Some keys'\<rparr>, Inr (Some selection)))
          else (w, Inr None))"

definition admit ::
  "'e base_env_scheme \<Rightarrow> candidate \<Rightarrow> authentication \<Rightarrow> int \<Rightarrow> string \<Rightarrow> string set \<Rightarrow> world
     \<Rightarrow> world \<times> (failure + permit \<times> queue_lease \<times> key_selection option)" where
  "admit env cand auth attempt preferredKeyID excludedKeyIDs w =
     (let p = caProviderID cand; w0 = aeOthers env 0 w in
      case breakers_Allow (aeNowAllow env) p (wBreakers w0) of
        (bs, Inl f) \<Rightarrow> (w0\<lparr>wBreakers := bs\<rparr>, Inl (located cand attempt f))
      | (bs, Inr permit) \<Rightarrow>
          (let w1 = aeOthers env 1 (w0\<lparr>wBreakers := bs\<rparr>) in
           case queues_Acquire (aeQueue env) p (wQueues w1) of
             (qs, Inl f0) \<Rightarrow>
               (let f = located cand attempt f0;
                    (w2, permit') = world_Complete (aeNowBreaker env) p (Some f) permit (w1\<lparr>wQueues := qs\<rparr>)
                in (world_Abandon p permit' w2, Inl f))
           | (qs, Inr lease) \<Rightarrow>
               (case admit_key env cand auth preferredKeyID excludedKeyIDs (aeOthers env 2 (w1\<lparr>wQueues := qs\<rparr>)) of
                  (w3, Inl f0) \<Rightarrow>
                    (let f = located cand attempt f0;
                         (w4, permit') = world_Complete (aeNowBreaker env) p (Some f) permit w3
                     in (world_Abandon p permit' (world_Release p lease w4), Inl f))
                | (w3, Inr selectedKey) \<Rightarrow> (w3, Inr (permit, lease, selectedKey)))))"

definition model_override :: "'req attempt_input \<Rightarrow> string" where
  "model_override input =
     (if caUpstreamModel (aiCandidate input) \<noteq> aiRequestedModel input
      then caUpstreamModel (aiCandidate input) else [])"

definition chat_input_of :: "'req attempt_input \<Rightarrow> 'req chat_input" where
  "chat_input_of input = \<lparr>ciRequestID = aiRequestID input, ciRequest = aiRequest input,
     ciModelOverride = model_override input\<rparr>"

definition counts_as_attempt :: "goerr option \<Rightarrow> bool" where
  "counts_as_attempt err \<longleftrightarrow> \<not> errors_is_opt err ErrInvalidRequest \<and> \<not> errors_is_opt err ErrUnsupportedCapability"

definition refused :: "'v \<Rightarrow> failure option \<Rightarrow> 'v outcome" where
  "refused v f = \<lparr>ocValue = v, ocFailure = f, ocKeyID = [], ocAttempted = False, ocDuration = 0\<rparr>"

definition unknown_adapter :: "candidate \<Rightarrow> int \<Rightarrow> failure" where
  "unknown_adapter cand attempt =
     set_category CategoryLocalValidation (set_provider (caProviderID cand) (set_candidate (caPriority cand)
       (set_attempt attempt (set_cause (Some (ErrSentinel ErrUnknownProvider)) failure_zero))))"

section \<open>One attempt\<close>

definition executeOnce ::
  "(string \<Rightarrow> time option) \<Rightarrow> (string \<rightharpoonup> authentication) \<Rightarrow> 'req attempt_input \<Rightarrow> retry_policy \<Rightarrow> time option
     \<Rightarrow> 'req attempt_env \<Rightarrow> int \<Rightarrow> string \<Rightarrow> string set \<Rightarrow> world \<Rightarrow> world \<times> string outcome" where
  "executeOnce httpParseTime adapters input retry deadline env attempt preferredKeyID excludedKeyIDs w =
     (let cand = aiCandidate input; p = caProviderID cand in
      case adapters (trim_space p) of
        None \<Rightarrow> (w, refused [] (Some (unknown_adapter cand attempt)))
      | Some auth \<Rightarrow>
          (case admit env cand auth attempt preferredKeyID excludedKeyIDs w of
             (w1, Inl f) \<Rightarrow> (w1, refused [] (Some f))
           | (w1, Inr (permit, lease, selectedKey)) \<Rightarrow>
               (let apiKey = world_Secret selectedKey w1;
                    (body, err) = aeComplete env (policy_AttemptContext retry deadline (aeNowAttempt env))
                                    (chat_input_of input) apiKey;
                    w2 = aeOthers env 3 w1;
                    failure0 = FromProvider httpParseTime (aeNowClassify env) (aeCtxErr env) p
                                 (caPriority cand) attempt err;
                    selectedKeyID = (case selectedKey of None \<Rightarrow> [] | Some k \<Rightarrow> seKeyID k);
                    failure = (if selectedKey = None then failure0 else map_option (set_key selectedKeyID) failure0);
                    w3 = world_CompleteKey (aeNowKey env) failure selectedKey w2;
                    (w4, permit') = world_Complete (aeNowBreaker env) p failure permit w3;
                    w5 = world_Abandon p permit' (world_Release p lease (aeOthers env 4 w4))
                in (w5, \<lparr>ocValue = body, ocFailure = failure, ocKeyID = selectedKeyID,
                         ocAttempted = counts_as_attempt err, ocDuration = aeDuration env\<rparr>))))"

section \<open>The retry loop\<close>

text \<open>
  \<open>Execute\<close> and \<open>prepareStream\<close> run the same loop over their own single attempt, the
  parameter \<open>once\<close>. \<open>weErrAfter\<close> is \<open>ctx.Err()\<close> after a \<open>Wait\<close> that returned false.
\<close>

definition note_outcome :: "candidate \<Rightarrow> 'v outcome \<Rightarrow> loop_result \<Rightarrow> loop_result" where
  "note_outcome cand oc res =
     (let res1 = (if ocKeyID oc \<noteq> [] then res\<lparr>lrKeyID := ocKeyID oc\<rparr> else res) in
      if ocAttempted oc then
        res1\<lparr>lrAttempts := lrAttempts res1 + 1,
             lrTrail := lrTrail res1 @
               [\<lparr>arProviderID = caProviderID cand, arUpstreamModel = caUpstreamModel cand,
                 arKeyID = ocKeyID oc, arCandidate = caPriority cand, arAttempt = lrAttempts res1 + 1,
                 arDuration = ocDuration oc, arCategory = failureCategory (ocFailure oc),
                 arStatusCode = failureStatus (ocFailure oc)\<rparr>]\<rparr>
      else res1)"

definition complete_failure :: "'v outcome \<Rightarrow> loop_result \<Rightarrow> failure \<Rightarrow> failure" where
  "complete_failure oc res f =
     (let f1 = (if \<not> ocAttempted oc then set_attempt (lrAttempts res) f else f);
          f2 = (if fKeyID f1 = [] then set_key (lrKeyID res) f1 else f1)
      in set_total_attempts (lrAttempts res) f2)"

definition next_excluded :: "'v outcome \<Rightarrow> failure \<Rightarrow> string set \<Rightarrow> string set" where
  "next_excluded oc f excluded =
     (if SwitchKey (SignalsFor (Some f)) \<and> ocKeyID oc \<noteq> [] \<and>
         (fCategory f = CategoryKeyUnauthorized \<or> fCategory f = CategoryKeyForbidden)
      then insert (ocKeyID oc) excluded else excluded)"

definition next_preferred :: "'v outcome \<Rightarrow> failure \<Rightarrow> string \<Rightarrow> string" where
  "next_preferred oc f preferred =
     (if SwitchKey (SignalsFor (Some f)) then []
      else if ocKeyID oc \<noteq> [] then ocKeyID oc else preferred)"

definition stopped_failure ::
  "(string \<Rightarrow> time option) \<Rightarrow> candidate \<Rightarrow> wait_env \<Rightarrow> loop_result \<Rightarrow> failure \<Rightarrow> failure" where
  "stopped_failure httpParseTime cand we res f =
     set_total_attempts (lrAttempts res)
       (case weErrAfter we of
          None \<Rightarrow> f
        | Some e \<Rightarrow>
            (case FromProvider httpParseTime (weNow we) (Some e) (caProviderID cand) (caPriority cand)
                    (lrAttempts res) (Some (ctx_goerr e)) of
               None \<Rightarrow> f | Some g \<Rightarrow> g))"

fun retry_loop ::
  "('env \<Rightarrow> int \<Rightarrow> string \<Rightarrow> string set \<Rightarrow> 'w \<Rightarrow> 'w \<times> 'v outcome) \<Rightarrow> (string \<Rightarrow> time option) \<Rightarrow> retry_policy
     \<Rightarrow> candidate \<Rightarrow> time option \<Rightarrow> ('env \<times> wait_env) list \<Rightarrow> loop_result \<Rightarrow> string \<Rightarrow> string set \<Rightarrow> 'w
     \<Rightarrow> ('w \<times> loop_result \<times> (failure + 'v)) option" where
  "retry_loop once httpParseTime retry cand deadline [] res preferred excluded w = None"
| "retry_loop once httpParseTime retry cand deadline ((env, we) # rounds) res preferred excluded w =
     (case once env (lrAttempts res + 1) preferred excluded w of
        (w1, oc) \<Rightarrow>
          (let res1 = note_outcome cand oc res in
           case ocFailure oc of
             None \<Rightarrow> Some (w1, res1, Inr (ocValue oc))
           | Some f0 \<Rightarrow>
               (let f = complete_failure oc res1 f0 in
                if \<not> ShouldRetry retry (Some f) (lrAttempts res1) then Some (w1, res1, Inl f)
                else if \<not> retry_Wait (weCtxErr we) deadline (weNow we) (weTimerFired we)
                          (Backoff retry (weRandom we) (Some f) (lrAttempts res1))
                then Some (w1, res1, Inl (stopped_failure httpParseTime cand we res1 f))
                else retry_loop once httpParseTime retry cand deadline rounds res1
                       (next_preferred oc f preferred) (next_excluded oc f excluded) w1)))"

definition loop_start :: loop_result where
  "loop_start = \<lparr>lrKeyID = [], lrAttempts = 0, lrTrail = []\<rparr>"

definition no_retry_policy :: "candidate \<Rightarrow> failure" where
  "no_retry_policy cand =
     set_category CategoryLocalValidation (set_provider (caProviderID cand) (set_candidate (caPriority cand)
       (set_cause (Some (ErrNew ''provider retry policy is not configured'')) failure_zero)))"

definition Execute ::
  "(string \<Rightarrow> time option) \<Rightarrow> (string \<rightharpoonup> authentication) \<Rightarrow> retry_registry \<Rightarrow> 'req attempt_input \<Rightarrow> time option
     \<Rightarrow> ('req attempt_env \<times> wait_env) list \<Rightarrow> world \<Rightarrow> (world \<times> attempt_result \<times> failure option) option" where
  "Execute httpParseTime adapters retries input deadline rounds w =
     (let cand = aiCandidate input;
          result = \<lparr>rsBody = [], rsProviderID = caProviderID cand, rsUpstreamModel = caUpstreamModel cand,
                    rsKeyID = [], rsAttempts = 0, rsTrail = []\<rparr> in
      case retry_ForProvider retries (caProviderID cand) of
        None \<Rightarrow> Some (w, result, Some (no_retry_policy cand))
      | Some retry \<Rightarrow>
          map_option (\<lambda>(w', res, r).
              (w', result\<lparr>rsBody := (case r of Inl f \<Rightarrow> [] | Inr body \<Rightarrow> body), rsKeyID := lrKeyID res,
                          rsAttempts := lrAttempts res, rsTrail := lrTrail res\<rparr>,
               case r of Inl f \<Rightarrow> Some f | Inr body \<Rightarrow> None))
            (retry_loop (executeOnce httpParseTime adapters input retry deadline) httpParseTime retry cand
               deadline rounds loop_start [] {} w))"

section \<open>Facts about the loop\<close>

lemma SignalsFor_fields:
  "fCategory f = fCategory g \<Longrightarrow> fStatusCode f = fStatusCode g \<Longrightarrow> fTimeout f = fTimeout g \<Longrightarrow>
     fRetryAfter f = fRetryAfter g \<Longrightarrow> fCause f = fCause g \<Longrightarrow> SignalsFor (Some f) = SignalsFor (Some g)"
  by (cases "fCategory g") (simp_all add: SignalsFor_def)

lemma complete_failure_fields [simp]:
  "fCategory (complete_failure oc res f) = fCategory f"
  "fStatusCode (complete_failure oc res f) = fStatusCode f"
  "fTimeout (complete_failure oc res f) = fTimeout f"
  "fRetryAfter (complete_failure oc res f) = fRetryAfter f"
  "fCause (complete_failure oc res f) = fCause f"
  by (simp_all add: complete_failure_def Let_def)

lemma complete_failure_signals [simp]:
  "SignalsFor (Some (complete_failure oc res f)) = SignalsFor (Some f)"
  by (rule SignalsFor_fields) simp_all

lemma note_outcome_sel [simp]:
  "lrAttempts (note_outcome cand oc res) = lrAttempts res + (if ocAttempted oc then 1 else 0)"
  "ocAttempted oc \<Longrightarrow> lrTrail (note_outcome cand oc res) = lrTrail res @
     [\<lparr>arProviderID = caProviderID cand, arUpstreamModel = caUpstreamModel cand,
       arKeyID = ocKeyID oc, arCandidate = caPriority cand, arAttempt = lrAttempts res + 1,
       arDuration = ocDuration oc, arCategory = failureCategory (ocFailure oc),
       arStatusCode = failureStatus (ocFailure oc)\<rparr>]"
  "\<not> ocAttempted oc \<Longrightarrow> lrTrail (note_outcome cand oc res) = lrTrail res"
  by (simp_all add: note_outcome_def Let_def)

text \<open>A round either ends the loop or asks for another one.\<close>

definition round_retries ::
  "retry_policy \<Rightarrow> time option \<Rightarrow> wait_env \<Rightarrow> failure \<Rightarrow> int \<Rightarrow> bool" where
  "round_retries retry deadline we f attempts \<longleftrightarrow> ShouldRetry retry (Some f) attempts \<and>
     retry_Wait (weCtxErr we) deadline (weNow we) (weTimerFired we) (Backoff retry (weRandom we) (Some f) attempts)"

lemma retry_loop_cases:
  assumes "once env (lrAttempts res + 1) pref ex w = (w1, oc)"
  shows "(\<exists>r. retry_loop once hp retry cand dl ((env, we) # rounds) res pref ex w = Some (w1, note_outcome cand oc res, r) \<and>
            ((\<exists>v. r = Inr v) \<longleftrightarrow> ocFailure oc = None) \<and> (ocFailure oc = None \<longrightarrow> r = Inr (ocValue oc))) \<or>
         (\<exists>f0. ocFailure oc = Some f0 \<and>
            round_retries retry dl we (complete_failure oc (note_outcome cand oc res) f0)
              (lrAttempts (note_outcome cand oc res)) \<and>
            retry_loop once hp retry cand dl ((env, we) # rounds) res pref ex w =
              retry_loop once hp retry cand dl rounds (note_outcome cand oc res)
                (next_preferred oc (complete_failure oc (note_outcome cand oc res) f0) pref)
                (next_excluded oc (complete_failure oc (note_outcome cand oc res) f0) ex) w1)"
proof (cases "ocFailure oc")
  case None
  with assms show ?thesis by (simp add: Let_def)
next
  case (Some f0)
  with assms show ?thesis
    by (cases "round_retries retry dl we (complete_failure oc (note_outcome cand oc res) f0)
          (lrAttempts (note_outcome cand oc res))")
      (auto simp: Let_def round_retries_def)
qed

lemma round_retries_attempts: "round_retries retry dl we f n \<Longrightarrow> n < MaxAttempts (rpConfig retry)"
  by (auto simp: round_retries_def ShouldRetry_def split: if_splits)

text \<open>The loop rule: what every retrying round keeps holds when the loop ends.\<close>

lemma retry_loop_rule:
  assumes run: "retry_loop once hp retry cand dl rounds res pref ex w = Some (w', res', r)"
    and start: "I res ex w"
    and step: "\<And>env we res pref ex w w1 oc f0. (env, we) \<in> set rounds \<Longrightarrow> I res ex w \<Longrightarrow>
        once env (lrAttempts res + 1) pref ex w = (w1, oc) \<Longrightarrow> ocFailure oc = Some f0 \<Longrightarrow>
        round_retries retry dl we (complete_failure oc (note_outcome cand oc res) f0)
          (lrAttempts (note_outcome cand oc res)) \<Longrightarrow>
        I (note_outcome cand oc res) (next_excluded oc (complete_failure oc (note_outcome cand oc res) f0) ex) w1"
    and stop: "\<And>env we res pref ex w w1 oc r. (env, we) \<in> set rounds \<Longrightarrow> I res ex w \<Longrightarrow>
        once env (lrAttempts res + 1) pref ex w = (w1, oc) \<Longrightarrow>
        (\<exists>v. r = Inr v) \<longleftrightarrow> ocFailure oc = None \<Longrightarrow> (ocFailure oc = None \<longrightarrow> r = Inr (ocValue oc)) \<Longrightarrow>
        Q w1 (note_outcome cand oc res) r"
  shows "Q w' res' r"
  using assms
proof (induction rounds arbitrary: res pref ex w)
  case (Cons x rounds)
  obtain env we where x: "x = (env, we)" by fastforce
  obtain w1 oc where once: "once env (lrAttempts res + 1) pref ex w = (w1, oc)" by fastforce
  from retry_loop_cases [of once env res pref ex w w1 oc, OF once, of hp retry cand dl we rounds]
  show ?case
  proof (elim disjE exE conjE)
    fix r0
    assume "retry_loop once hp retry cand dl ((env, we) # rounds) res pref ex w = Some (w1, note_outcome cand oc res, r0)"
      and "(\<exists>v. r0 = Inr v) = (ocFailure oc = None)" and "ocFailure oc = None \<longrightarrow> r0 = Inr (ocValue oc)"
    with Cons.prems(1) x Cons.prems(4) [OF _ Cons.prems(2) once, of we r0] show ?thesis by simp
  next
    fix f0
    let ?f = "complete_failure oc (note_outcome cand oc res) f0"
    assume f0: "ocFailure oc = Some f0"
      and more: "round_retries retry dl we ?f (lrAttempts (note_outcome cand oc res))"
      and eq: "retry_loop once hp retry cand dl ((env, we) # rounds) res pref ex w =
        retry_loop once hp retry cand dl rounds (note_outcome cand oc res)
          (next_preferred oc ?f pref) (next_excluded oc ?f ex) w1"
    have inv: "I (note_outcome cand oc res) (next_excluded oc ?f ex) w1"
      using Cons.prems(3) [OF _ Cons.prems(2) once f0 more] x by simp
    have loop: "retry_loop once hp retry cand dl rounds (note_outcome cand oc res)
        (next_preferred oc ?f pref) (next_excluded oc ?f ex) w1 = Some (w', res', r)"
      using Cons.prems(1) eq x by simp
    show ?thesis
      by (rule Cons.IH [OF loop inv]; (rule Cons.prems(3) | rule Cons.prems(4));
          (assumption | (rule list.set_intros(2), assumption)))
  qed
qed simp

lemma retry_loop_value:
  fixes v :: 'v
  assumes "retry_loop once hp retry cand dl rounds res pref ex w = Some (w', res', Inr v)"
  shows "\<exists>env n p x w0 oc. once env n p x w0 = (w', oc) \<and> ocFailure oc = None \<and> ocValue oc = v"
proof -
  let ?Q = "\<lambda>w1 v. \<exists>env n p x w0 oc. once env n p x w0 = (w1, oc) \<and> ocFailure oc = None \<and> ocValue oc = v"
  have "\<forall>u. (Inr v :: failure + _) = Inr u \<longrightarrow> ?Q w' u"
  proof (rule retry_loop_rule [OF assms, where I = "\<lambda>_ _ _. True" and Q = "\<lambda>w1 _ r. \<forall>u. r = Inr u \<longrightarrow> ?Q w1 u"])
    fix env res p x w w1 oc and r :: "failure + 'v"
    assume "once env (lrAttempts res + 1) p x w = (w1, oc)" "(\<exists>v. r = Inr v) = (ocFailure oc = None)"
      "ocFailure oc = None \<longrightarrow> r = Inr (ocValue oc)"
    then show "\<forall>u. r = Inr u \<longrightarrow> ?Q w1 u" by (metis Inr_inject)
  qed simp_all
  then show ?thesis by simp
qed

lemma retry_loop_attempts:
  assumes "retry_loop once hp retry cand dl rounds res pref ex w = Some (w', res', r)"
    and "lrAttempts res < MaxAttempts (rpConfig retry)"
  shows "lrAttempts res \<le> lrAttempts res' \<and> lrAttempts res' \<le> MaxAttempts (rpConfig retry)"
  by (rule retry_loop_rule [OF assms(1), where I = "\<lambda>s _ _. lrAttempts res \<le> lrAttempts s \<and>
        lrAttempts s < MaxAttempts (rpConfig retry)"])
    (use assms(2) in \<open>auto dest: round_retries_attempts\<close>)

lemma retry_loop_attempts_max:
  assumes "retry_loop once hp retry cand dl rounds res pref ex w = Some (w', res', r)" and "lrAttempts res \<le> 0"
  shows "lrAttempts res' \<le> max 1 (MaxAttempts (rpConfig retry))"
  by (rule retry_loop_rule [OF assms(1), where I = "\<lambda>s _ _. lrAttempts s \<le> 0 \<or>
        lrAttempts s < MaxAttempts (rpConfig retry)"])
    (use assms(2) in \<open>auto dest: round_retries_attempts split: if_splits\<close>)

text \<open>The trail numbers the upstream calls of the candidate from 1.\<close>

definition trail_ok :: "candidate \<Rightarrow> loop_result \<Rightarrow> bool" where
  "trail_ok cand res \<longleftrightarrow> lrAttempts res = int (length (lrTrail res)) \<and>
     (\<forall>i < length (lrTrail res). arAttempt (lrTrail res ! i) = int i + 1 \<and>
        arProviderID (lrTrail res ! i) = caProviderID cand \<and>
        arUpstreamModel (lrTrail res ! i) = caUpstreamModel cand \<and>
        arCandidate (lrTrail res ! i) = caPriority cand)"

lemma trail_ok_start [simp]: "trail_ok cand loop_start"
  by (simp add: trail_ok_def loop_start_def)

lemma trail_ok_note: "trail_ok cand res \<Longrightarrow> trail_ok cand (note_outcome cand oc res)"
  by (cases "ocAttempted oc") (auto simp: trail_ok_def nth_append less_Suc_eq)

text \<open>Keys refused with 401 or 403 are in the excluded set from the next round on.\<close>

definition refused_keys :: "attempt_record list \<Rightarrow> string set" where
  "refused_keys trail = {arKeyID t | t. t \<in> set trail \<and> arKeyID t \<noteq> [] \<and>
     (arCategory t = CategoryKeyUnauthorized \<or> arCategory t = CategoryKeyForbidden)}"

fun trail_keys_ok :: "attempt_record list \<Rightarrow> bool" where
  "trail_keys_ok [] = True"
| "trail_keys_ok (t # ts) \<longleftrightarrow> trail_keys_ok ts \<and>
     (arKeyID t \<in> refused_keys [t] \<longrightarrow> (\<forall>u \<in> set ts. arKeyID u \<noteq> arKeyID t))"

lemma refused_keys_append: "refused_keys (xs @ ys) = refused_keys xs \<union> refused_keys ys"
  by (auto simp: refused_keys_def)

lemma trail_keys_append:
  "trail_keys_ok ts \<Longrightarrow> arKeyID u \<notin> refused_keys ts \<Longrightarrow> trail_keys_ok (ts @ [u])"
  by (induction ts) (auto simp: refused_keys_def)

lemma trail_keys_nth:
  assumes "trail_keys_ok ts" and "i < j" and "j < length ts"
    and "arCategory (ts ! i) = CategoryKeyUnauthorized \<or> arCategory (ts ! i) = CategoryKeyForbidden"
    and "arKeyID (ts ! i) \<noteq> []"
  shows "arKeyID (ts ! j) \<noteq> arKeyID (ts ! i)"
  using assms
proof (induction ts arbitrary: i j)
  case (Cons t ts)
  then obtain j' where j: "j = Suc j'" by (cases j) auto
  show ?case
  proof (cases i)
    case 0
    with Cons.prems j show ?thesis by (fastforce simp: refused_keys_def dest: nth_mem)
  next
    case (Suc i')
    with Cons j show ?thesis by auto
  qed
qed simp

section \<open>The contract of a single attempt\<close>

locale attempt_round =
  fixes once :: "'env \<Rightarrow> int \<Rightarrow> string \<Rightarrow> string set \<Rightarrow> 'w \<Rightarrow> 'w \<times> 'v outcome"
    and ok :: "'w \<Rightarrow> bool"
    and held :: "'w \<Rightarrow> int"
    and keeps :: int
    and fair :: "'env \<Rightarrow> bool"
    and quiet :: "'env \<Rightarrow> bool"
    and honest :: "'env \<Rightarrow> bool"
  assumes preserves: "ok w \<Longrightarrow> fair env \<Longrightarrow> once env n pref ex w = (w', oc) \<Longrightarrow> ok w'"
    and fresh_key: "once env n pref ex w = (w', oc) \<Longrightarrow> ocKeyID oc \<noteq> [] \<Longrightarrow> ocKeyID oc \<notin> ex"
    and success_attempted: "once env n pref ex w = (w', oc) \<Longrightarrow> ocFailure oc = None \<Longrightarrow> ocAttempted oc"
    and free_retry: "honest env \<Longrightarrow> once env n pref ex w = (w', oc) \<Longrightarrow> \<not> ocAttempted oc \<Longrightarrow>
          ocFailure oc = Some f \<Longrightarrow> Retry (SignalsFor (Some f)) \<or> SwitchKey (SignalsFor (Some f)) \<Longrightarrow>
          fCategory f = CategoryKeyExhausted \<and> 0 < fRetryAfter f"
    and balance: "ok w \<Longrightarrow> fair env \<Longrightarrow> quiet env \<Longrightarrow> once env n pref ex w = (w', oc) \<Longrightarrow>
          held w' = held w + (if ocFailure oc = None then keeps else 0)"
begin

lemma loop_trail:
  assumes "retry_loop once hp retry cand dl rounds res pref ex w = Some (w', res', r)" and "trail_ok cand res"
  shows "trail_ok cand res' \<and> ((\<exists>v. r = Inr v) \<longrightarrow>
       lrTrail res' \<noteq> [] \<and> arCategory (last (lrTrail res')) = CategoryEmpty)"
proof (rule retry_loop_rule [OF assms(1), where I = "\<lambda>s _ _. trail_ok cand s"])
  fix env res pref ex w w1 and oc :: "'v outcome" and r :: "failure + 'v"
  assume "trail_ok cand res" "once env (lrAttempts res + 1) pref ex w = (w1, oc)"
    "(\<exists>v. r = Inr v) \<longleftrightarrow> ocFailure oc = None"
  then show "trail_ok cand (note_outcome cand oc res) \<and> ((\<exists>v. r = Inr v) \<longrightarrow>
       lrTrail (note_outcome cand oc res) \<noteq> [] \<and>
       arCategory (last (lrTrail (note_outcome cand oc res))) = CategoryEmpty)"
    using success_attempted by (auto simp: trail_ok_note failureCategory_def)
qed (simp_all add: assms(2) trail_ok_note)

lemma round_keys:
  assumes "once env (lrAttempts res + 1) pref ex w = (w1, oc)"
    and "trail_keys_ok (lrTrail res)" and "refused_keys (lrTrail res) \<subseteq> ex"
  shows "trail_keys_ok (lrTrail (note_outcome cand oc res))"
proof -
  have "ocKeyID oc \<notin> refused_keys (lrTrail res)"
    using fresh_key [OF assms(1)] assms(3) by (auto simp: refused_keys_def)
  then show ?thesis
    using assms(2) by (cases "ocAttempted oc") (auto intro!: trail_keys_append)
qed

lemma round_excludes:
  assumes "refused_keys (lrTrail res) \<subseteq> ex" and "ocFailure oc = Some f0"
  shows "refused_keys (lrTrail (note_outcome cand oc res))
    \<subseteq> next_excluded oc (complete_failure oc (note_outcome cand oc res) f0) ex"
proof (cases "ocAttempted oc")
  case True
  with assms show ?thesis
    by (auto simp: refused_keys_append next_excluded_def refused_keys_def failureCategory_def SignalsFor_def)
qed (use assms in \<open>auto simp: next_excluded_def\<close>)

lemma loop_keys:
  assumes "retry_loop once hp retry cand dl rounds res pref ex w = Some (w', res', r)"
    and "trail_keys_ok (lrTrail res)" and "refused_keys (lrTrail res) \<subseteq> ex"
  shows "trail_keys_ok (lrTrail res')"
  by (rule retry_loop_rule [OF assms(1), where I = "\<lambda>s x _. trail_keys_ok (lrTrail s) \<and> refused_keys (lrTrail s) \<subseteq> x"])
    (use assms(2,3) in \<open>blast intro: round_keys round_excludes [THEN subsetD]\<close>)+

lemma loop_preserves:
  assumes "retry_loop once hp retry cand dl rounds res pref ex w = Some (w', res', r)"
    and "ok w" and "list_all (fair \<circ> fst) rounds"
  shows "ok w'"
  by (rule retry_loop_rule [OF assms(1), where I = "\<lambda>_ _ v. ok v" and Q = "\<lambda>v _ _. ok v"])
    (use assms(2,3) preserves in \<open>fastforce simp: list_all_iff\<close>)+

lemma loop_balance:
  assumes "retry_loop once hp retry cand dl rounds res pref ex w = Some (w', res', r)"
    and "ok w" and "list_all (fair \<circ> fst) rounds" and "list_all (quiet \<circ> fst) rounds"
  shows "held w' = held w + (case r of Inl f \<Rightarrow> 0 | Inr v \<Rightarrow> keeps)"
proof (rule retry_loop_rule [OF assms(1), where I = "\<lambda>_ _ v. ok v \<and> held v = held w"])
  fix env :: 'env and we :: wait_env
  assume "(env, we) \<in> set rounds"
  with assms(3,4) have env: "fair env" "quiet env" by (auto simp: list_all_iff)
  show "ok w1 \<and> held w1 = held w"
    if "ok v \<and> held v = held w" "once env (lrAttempts s + 1) p x v = (w1, oc)" "ocFailure oc = Some f0"
    for s p x v w1 oc f0
    using preserves [OF _ env(1) that(2)] balance [OF _ env that(2)] that by simp
  show "held w1 = held w + (case r of Inl f \<Rightarrow> 0 | Inr v \<Rightarrow> keeps)"
    if "ok v \<and> held v = held w" "once env (lrAttempts s + 1) p x v = (w1, oc)"
      "(\<exists>v. r = Inr v) \<longleftrightarrow> ocFailure oc = None" for s p x v w1 oc and r :: "failure + 'v"
    using balance [OF _ env that(2)] that by (auto split: sum.splits)
qed (use assms(2) in simp)

end

section \<open>The loop ends\<close>

text \<open>
  A round that made no upstream call is retried only when all keys cool down, after waiting
  for the earliest of them. Such rounds are not counted by \<open>MaxAttempts\<close>; the deadline of the
  request bounds them. \<open>clock_follows\<close> is the monotonic clock: it does not run backwards
  between the rounds, and a timer that fired has let time pass.
\<close>

definition clock_follows :: "'env \<times> wait_env \<Rightarrow> 'env \<times> wait_env \<Rightarrow> bool" where
  "clock_follows a b \<longleftrightarrow> weNow (snd a) \<le> weNow (snd b) \<and>
     (weTimerFired (snd a) \<longrightarrow> weNow (snd a) < weNow (snd b))"

lemma exhausted_round_waits:
  assumes "round_retries retry (Some d) we f n" and "fCategory f = CategoryKeyExhausted" and "0 < fRetryAfter f"
  shows "weTimerFired we \<and> weNow we < d"
proof -
  have "Backoff retry (weRandom we) (Some f) n = fRetryAfter f"
    using assms(2) by (simp add: Backoff_def SignalsFor_def no_signals_def)
  with assms(1,3) have "weTimerFired we" "fRetryAfter f < time_sub d (weNow we)"
    by (auto simp: round_retries_def retry_Wait_def split: if_splits)
  with assms(3) show ?thesis by (auto simp: time_sub_def int64_defs)
qed

definition rounds_needed :: "retry_policy \<Rightarrow> int \<Rightarrow> time \<Rightarrow> time \<Rightarrow> nat" where
  "rounds_needed retry attempts d now = nat (MaxAttempts (rpConfig retry) - attempts) + nat (d - now)"

context attempt_round
begin

lemma retrying_round_uses_up:
  assumes "honest env" and "once env (lrAttempts res + 1) pref ex w = (w1, oc)" and "ocFailure oc = Some f0"
    and "round_retries retry (Some d) we (complete_failure oc (note_outcome cand oc res) f0)
           (lrAttempts (note_outcome cand oc res))"
    and "clock_follows (env, we) next"
  shows "rounds_needed retry (lrAttempts (note_outcome cand oc res)) d (weNow (snd next))
    < rounds_needed retry (lrAttempts res) d (weNow we)"
proof (cases "ocAttempted oc")
  case True
  then show ?thesis
    using round_retries_attempts [OF assms(4)] assms(5)
    by (auto simp: rounds_needed_def clock_follows_def intro!: add_less_le_mono)
next
  case False
  have "Retry (SignalsFor (Some f0)) \<or> SwitchKey (SignalsFor (Some f0))"
    using assms(4) by (auto simp: round_retries_def ShouldRetry_def split: if_splits)
  from free_retry [OF assms(1,2) False assms(3) this] exhausted_round_waits [OF assms(4)]
  have "weTimerFired we" "weNow we < d" by simp_all
  with False assms(5) show ?thesis by (simp add: rounds_needed_def clock_follows_def)
qed

lemma loop_terminates:
  "list_all (honest \<circ> fst) rounds \<Longrightarrow> successively clock_follows rounds \<Longrightarrow> rounds \<noteq> [] \<Longrightarrow>
     rounds_needed retry (lrAttempts res) d (weNow (snd (hd rounds))) < length rounds \<Longrightarrow>
     \<exists>out. retry_loop once hp retry cand (Some d) rounds res pref ex w = Some out"
proof (induction rounds arbitrary: res pref ex w)
  case (Cons x rounds)
  obtain env we where x: "x = (env, we)" by fastforce
  obtain w1 oc where once: "once env (lrAttempts res + 1) pref ex w = (w1, oc)" by fastforce
  have honest: "honest env" using Cons.prems(1) x by simp
  from retry_loop_cases [of once env res pref ex w w1 oc, OF once, of hp retry cand "Some d" we rounds]
  show ?case
  proof (elim disjE exE conjE)
    fix f0
    let ?res = "note_outcome cand oc res" and ?f = "complete_failure oc (note_outcome cand oc res) f0"
    assume f0: "ocFailure oc = Some f0" and more: "round_retries retry (Some d) we ?f (lrAttempts ?res)"
      and eq: "retry_loop once hp retry cand (Some d) ((env, we) # rounds) res pref ex w =
        retry_loop once hp retry cand (Some d) rounds ?res (next_preferred oc ?f pref) (next_excluded oc ?f ex) w1"
    have "0 < rounds_needed retry (lrAttempts res) d (weNow we)"
      using retrying_round_uses_up [OF honest once f0 more, of "(env, we\<lparr>weNow := weNow we + 1\<rparr>)"]
      by (simp add: clock_follows_def)
    with Cons.prems(4) x obtain y ys where rounds: "rounds = y # ys" by (cases rounds) auto
    with Cons.prems(2) x have clock: "clock_follows (env, we) (hd rounds)" "successively clock_follows rounds"
      by simp_all
    have "rounds_needed retry (lrAttempts ?res) d (weNow (snd (hd rounds))) < length rounds"
      using retrying_round_uses_up [OF honest once f0 more clock(1)] Cons.prems(4) x by simp
    with Cons.IH [OF _ clock(2), of ?res "next_preferred oc ?f pref" "next_excluded oc ?f ex" w1]
      Cons.prems(1) rounds eq x show ?thesis by simp
  qed (use x in auto)
qed simp

end

section \<open>The shared state between attempts\<close>

definition world_ok :: "world \<Rightarrow> bool" where
  "world_ok w \<longleftrightarrow> breakers_inv (wBreakers w) \<and>
     (\<forall>p q. qrQueues (wQueues w) p = Some q \<longrightarrow> queue_ok q) \<and>
     (\<forall>keys p s. wKeys w = Some keys \<longrightarrow> krSelectors keys p = Some s \<longrightarrow> selector_inv s)"

definition slots_held :: "string \<Rightarrow> world \<Rightarrow> int" where
  "slots_held rawID w = (case qrQueues (wQueues w) (trim_space rawID) of None \<Rightarrow> 0 | Some q \<Rightarrow> qSlots q)"

definition same_provider :: "string \<Rightarrow> string \<Rightarrow> int" where
  "same_provider p q = (if trim_space p = trim_space q then 1 else 0)"

lemma same_provider_refl [simp]: "same_provider p p = 1"
  by (simp add: same_provider_def)

text \<open>
  Other requests keep the shared state in order and never give back the slot this request
  holds; a quiet environment has none of them.
\<close>

definition others_fair :: "'e base_env_scheme \<Rightarrow> bool" where
  "others_fair env \<longleftrightarrow> queue_env_ok (aeQueue env) \<and>
     (\<forall>k w. world_ok w \<longrightarrow> world_ok (aeOthers env k w) \<and>
        (\<forall>p. 0 < slots_held p w \<longrightarrow> 0 < slots_held p (aeOthers env k w)))"

definition others_quiet :: "'e base_env_scheme \<Rightarrow> bool" where
  "others_quiet env \<longleftrightarrow> (\<forall>k w. aeOthers env k w = w) \<and> (\<forall>q. qeOthers (aeQueue env) q = q)"

lemma world_ok_breakers: "world_ok w \<Longrightarrow> breakers_inv bs \<Longrightarrow> world_ok (w\<lparr>wBreakers := bs\<rparr>)"
  by (simp add: world_ok_def)

lemma breakers_inv_update:
  "breakers_inv bs \<Longrightarrow> breaker_inv b \<Longrightarrow> breakers_inv (bs\<lparr>brBreakers := (brBreakers bs)(p \<mapsto> b)\<rparr>)"
  by (simp add: breakers_inv_def)

lemma world_Complete_ok:
  "world_ok w \<Longrightarrow> world_Complete now p f permit w = (w', permit') \<Longrightarrow>
     world_ok w' \<and> slots_held p' w' = slots_held p' w \<and> wKeys w' = wKeys w"
  by (auto simp: world_Complete_def permit_Complete_def slots_held_def world_ok_def breakers_inv_def
      intro!: breaker_complete_inv split: option.splits if_splits)

lemma world_Abandon_ok:
  "world_ok w \<Longrightarrow> world_ok (world_Abandon p permit w) \<and> slots_held p' (world_Abandon p permit w) = slots_held p' w"
  by (auto simp: world_Abandon_def permit_Abandon_def slots_held_def world_ok_def breakers_inv_def
      intro!: breaker_abandon_inv split: option.splits if_splits)

lemma world_CompleteKey_ok:
  assumes "world_ok w"
  shows "world_ok (world_CompleteKey now f sel w)" and "slots_held p' (world_CompleteKey now f sel w) = slots_held p' w"
proof -
  have "selector_inv s'" if "selector_inv s" "selection_Complete now f s x = (s', y, z)" for s s' x y z
    using selection_Complete_inv [OF that(1), of now f x] that(2) by simp
  with assms show "world_ok (world_CompleteKey now f sel w)"
    by (fastforce simp: world_CompleteKey_def world_ok_def keys_Complete_def split: option.split prod.split)
  show "slots_held p' (world_CompleteKey now f sel w) = slots_held p' w"
    by (auto simp: world_CompleteKey_def slots_held_def split: option.split)
qed

lemma world_Release_ok:
  assumes "world_ok w" and "0 < slots_held p w" and "\<not> lsReleased lease"
  shows "world_ok (world_Release p lease w)"
    and "slots_held p' (world_Release p lease w) = slots_held p' w - same_provider p p'"
proof -
  obtain q where q: "qrQueues (wQueues w) (trim_space p) = Some q" "0 < qSlots q" "queue_ok q"
    using assms(1,2) by (auto simp: slots_held_def world_ok_def split: option.splits)
  have "queue_ok (fst (lease_Release q lease)) \<and> qSlots (fst (lease_Release q lease)) = qSlots q - 1"
    using q assms(3) queue_pool.release_fresh [OF q(3) assms(3) q(2)]
    by (metis prod_cases3 fst_conv)
  with q assms(1) show "world_ok (world_Release p lease w)"
    "slots_held p' (world_Release p lease w) = slots_held p' w - same_provider p p'"
    by (auto simp: world_ok_def slots_held_def world_Release_def queues_Release_def same_provider_def Let_def)
qed

lemma queue_Acquire_quiet:
  assumes "\<forall>q. qeOthers env q = q" and "queue_Acquire env q = (q', r)"
  shows "qSlots q' = qSlots q + (case r of Inl f \<Rightarrow> 0 | Inr l \<Rightarrow> 1)"
  using assms
  by (auto simp: queue_Acquire_def queue_enter_def queue_contextFailure_def queue_tryAcquire_def
      queue_reserveWaiting_def queue_resume_def queue_timeout_def leave_waiting_def Let_def
      split: if_splits option.splits enter_result.splits ctx_err.splits select_case.splits sum.splits)

lemma queues_Acquire_ok:
  assumes "world_ok w" and "queue_env_ok env" and "queues_Acquire env p (wQueues w) = (qs, r)"
  shows "world_ok (w\<lparr>wQueues := qs\<rparr>)"
    and "r = Inr l \<Longrightarrow> \<not> lsReleased l \<and> 0 < slots_held p (w\<lparr>wQueues := qs\<rparr>)"
    and "\<forall>q. qeOthers env q = q \<Longrightarrow>
      slots_held p' (w\<lparr>wQueues := qs\<rparr>) = slots_held p' w + (case r of Inl f \<Rightarrow> 0 | Inr l \<Rightarrow> same_provider p p')"
proof -
  have "world_ok (w\<lparr>wQueues := qs\<rparr>) \<and>
      (r = Inr l \<longrightarrow> \<not> lsReleased l \<and> 0 < slots_held p (w\<lparr>wQueues := qs\<rparr>)) \<and>
      ((\<forall>q. qeOthers env q = q) \<longrightarrow>
        slots_held p' (w\<lparr>wQueues := qs\<rparr>) = slots_held p' w + (case r of Inl f \<Rightarrow> 0 | Inr l \<Rightarrow> same_provider p p'))"
  proof (cases "qrQueues (wQueues w) (trim_space p)")
    case None
    with assms show ?thesis by (auto simp: queues_Acquire_def slots_held_def Let_def)
  next
    case (Some q)
    then obtain q' where a: "queue_Acquire env q = (q', r)"
      and qs: "qs = (wQueues w)\<lparr>qrQueues := (qrQueues (wQueues w))(trim_space p \<mapsto> q')\<rparr>"
      using assms(3) by (auto simp: queues_Acquire_def Let_def split: prod.splits)
    have "queue_ok q" using assms(1) Some by (auto simp: world_ok_def)
    note A = queue_Acquire_ok [OF this assms(2) a]
    show ?thesis
      using A assms(1) Some queue_Acquire_quiet [OF _ a]
      by (auto simp: qs world_ok_def slots_held_def same_provider_def split: sum.splits)
  qed
  then show "world_ok (w\<lparr>wQueues := qs\<rparr>)"
    "r = Inr l \<Longrightarrow> \<not> lsReleased l \<and> 0 < slots_held p (w\<lparr>wQueues := qs\<rparr>)"
    "\<forall>q. qeOthers env q = q \<Longrightarrow>
      slots_held p' (w\<lparr>wQueues := qs\<rparr>) = slots_held p' w + (case r of Inl f \<Rightarrow> 0 | Inr l \<Rightarrow> same_provider p p')"
    by blast+
qed

text \<open>What the three gatekeepers answer when they refuse.\<close>

definition final_refusal :: "failure \<Rightarrow> bool" where
  "final_refusal f \<longleftrightarrow> \<not> Retry (SignalsFor (Some f)) \<and> \<not> SwitchKey (SignalsFor (Some f))"

lemma located_fields [simp]:
  "fCategory (located c n f) = fCategory f" "fRetryAfter (located c n f) = fRetryAfter f"
  by (simp_all add: located_def)

lemma located_signals [simp]: "SignalsFor (Some (located c n f)) = SignalsFor (Some f)"
  by (rule SignalsFor_fields) (simp_all add: located_def)

lemma final_refusalI:
  "fCategory f \<in> {CategoryEmpty, CategoryLocalValidation, CategoryQueue, CategoryBreaker, CategoryCanceled,
     CategoryUnsupportedCapability, CategoryUnsupportedResponse} \<Longrightarrow> final_refusal f"
  "fCategory f = CategoryTimeout \<Longrightarrow> fTimeout f = TimeoutRequestBudget \<Longrightarrow> final_refusal f"
  by (auto simp: final_refusal_def SignalsFor_def no_signals_def)

lemma breaker_Allow_refusal: "breaker_Allow now b = (b', Inl f) \<Longrightarrow> fCategory f = CategoryBreaker"
  by (cases "bState (breaker_advance now b)")
    (auto simp: breaker_Allow_def breaker_reject_def Let_def split: if_splits)

lemma breakers_Allow_refusal:
  assumes "breakers_Allow now p bs = (bs', Inl f)"
  shows "final_refusal f"
proof (cases "brBreakers bs (trim_space p)")
  case None
  with assms have "fCategory f = CategoryLocalValidation" by (auto simp: breakers_Allow_def Let_def)
  then show ?thesis by (intro final_refusalI(1)) simp
next
  case (Some b)
  with assms have "\<exists>b'. breaker_Allow now b = (b', Inl f)"
    by (auto simp: breakers_Allow_def Let_def split: prod.splits)
  then show ?thesis using breaker_Allow_refusal by (intro final_refusalI(1)) auto
qed

lemma queue_failure_final: "final_refusal (queue_failure reason q)"
  by (rule final_refusalI(1)) (simp add: queue_failure_def)

lemma contextFailure_final: "queue_contextFailure e q = (q', Some f) \<Longrightarrow> final_refusal f"
  by (auto simp: queue_contextFailure_def intro: final_refusalI split: option.splits ctx_err.splits)

lemma queue_enter_refusal: "queue_enter n e q = (q', EnterFailed f) \<Longrightarrow> final_refusal f"
  by (auto simp: queue_enter_def intro: final_refusalI(1) queue_failure_final contextFailure_final
      split: if_splits option.splits prod.splits)

lemma queue_resume_refusal: "queue_resume c q = (q', Inl f) \<Longrightarrow> final_refusal f"
  by (auto simp: queue_resume_def queue_timeout_def Let_def
      intro: final_refusalI(1) queue_failure_final contextFailure_final
      split: if_splits option.splits prod.splits select_case.splits)

lemma queues_Acquire_refusal: "queues_Acquire env p qs = (qs', Inl f) \<Longrightarrow> final_refusal f"
  by (auto simp: queues_Acquire_def queue_Acquire_def Let_def
      intro: final_refusalI(1) queue_enter_refusal queue_resume_refusal
      split: option.splits prod.splits enter_result.splits)

lemma selectKey_refusal: "selectKey now p pref ex keys = (keys', Inl f) \<Longrightarrow> fCategory f = CategoryKeyExhausted"
  by (auto simp: selectKey_def selector_select_def Let_def split: option.splits prod.splits sum.splits if_splits)

lemma key_exhausted_signals:
  "fCategory f = CategoryKeyExhausted \<Longrightarrow> Retry (SignalsFor (Some f)) \<longleftrightarrow> 0 < fRetryAfter f"
  "fCategory f = CategoryKeyExhausted \<Longrightarrow> \<not> SwitchKey (SignalsFor (Some f))"
  by (simp_all add: SignalsFor_def no_signals_def)

lemma selectKey_fresh: "selectKey now p pref ex keys = (keys', Inr sel) \<Longrightarrow> seKeyID sel \<notin> ex"
  by (auto simp: selectKey_def selector_select_def newProviderKeySelection_def Let_def key_eligible_def
      split: option.splits prod.splits sum.splits if_splits
      dest!: preferred_scan_Some rotation_scan_Inr)

lemma selectKey_ok:
  assumes "world_ok w" and "wKeys w = Some keys" and "selectKey now p pref ex keys = (keys', r)"
  shows "world_ok (w\<lparr>wKeys := Some keys'\<rparr>)"
proof (cases "krSelectors keys (trim_space p)")
  case None
  with assms show ?thesis by (auto simp: selectKey_def Let_def world_ok_def)
next
  case (Some s)
  then obtain s' where s': "selector_select now pref ex (trim_space p) s = (s', r)"
    and keys': "keys' = keys\<lparr>krSelectors := (krSelectors keys)(trim_space p \<mapsto> s')\<rparr>"
    using assms(3) by (auto simp: selectKey_def Let_def split: prod.splits)
  have "selector_inv s'"
    using assms(1,2) Some selector_select_keys [OF s'] by (auto simp: world_ok_def selector_inv_def)
  with assms(1,2) show ?thesis by (auto simp: keys' world_ok_def)
qed

lemma admit_key_ok:
  assumes "world_ok w" and "admit_key env cand auth pref ex w = (w', r)"
  shows "world_ok w' \<and> slots_held p w' = slots_held p w"
proof (cases "wKeys w")
  case None
  with assms show ?thesis by (auto simp: admit_key_def)
next
  case (Some keys)
  obtain keys' x where k: "selectKey (aeNowSelect env) (caProviderID cand) pref ex keys = (keys', x)" by fastforce
  have "world_ok (w\<lparr>wKeys := Some keys'\<rparr>)" by (rule selectKey_ok [OF assms(1) Some k])
  with assms Some k show ?thesis
    by (auto simp: admit_key_def slots_held_def split: if_splits sum.splits)
qed

lemma admit_key_result:
  "admit_key env cand auth pref ex w = (w', Inr (Some sel)) \<Longrightarrow> seKeyID sel \<notin> ex"
  "admit_key env cand auth pref ex w = (w', Inl f) \<Longrightarrow> fCategory f = CategoryKeyExhausted"
  by (auto simp: admit_key_def split: option.splits if_splits prod.splits sum.splits
      dest: selectKey_fresh selectKey_refusal)

text \<open>How an admission can go: refused by the breaker, by the queue, by the keys, or granted.\<close>

lemma admit_cases:
  assumes "admit env cand auth n pref ex w = (w', r)"
  obtains
    (breaker) bs f where "breakers_Allow (aeNowAllow env) (caProviderID cand) (wBreakers (aeOthers env 0 w)) = (bs, Inl f)"
      "w' = (aeOthers env 0 w)\<lparr>wBreakers := bs\<rparr>" "r = Inl (located cand n f)"
  | (queue) bs permit w1 qs f w2 permit' where
      "breakers_Allow (aeNowAllow env) (caProviderID cand) (wBreakers (aeOthers env 0 w)) = (bs, Inr permit)"
      "w1 = aeOthers env 1 ((aeOthers env 0 w)\<lparr>wBreakers := bs\<rparr>)"
      "queues_Acquire (aeQueue env) (caProviderID cand) (wQueues w1) = (qs, Inl f)"
      "world_Complete (aeNowBreaker env) (caProviderID cand) (Some (located cand n f)) permit (w1\<lparr>wQueues := qs\<rparr>) = (w2, permit')"
      "w' = world_Abandon (caProviderID cand) permit' w2" "r = Inl (located cand n f)"
  | (key) bs permit w1 qs lease w3 f w4 permit' where
      "breakers_Allow (aeNowAllow env) (caProviderID cand) (wBreakers (aeOthers env 0 w)) = (bs, Inr permit)"
      "w1 = aeOthers env 1 ((aeOthers env 0 w)\<lparr>wBreakers := bs\<rparr>)"
      "queues_Acquire (aeQueue env) (caProviderID cand) (wQueues w1) = (qs, Inr lease)"
      "admit_key env cand auth pref ex (aeOthers env 2 (w1\<lparr>wQueues := qs\<rparr>)) = (w3, Inl f)"
      "world_Complete (aeNowBreaker env) (caProviderID cand) (Some (located cand n f)) permit w3 = (w4, permit')"
      "w' = world_Abandon (caProviderID cand) permit' (world_Release (caProviderID cand) lease w4)"
      "r = Inl (located cand n f)"
  | (granted) bs permit w1 qs lease sel where
      "breakers_Allow (aeNowAllow env) (caProviderID cand) (wBreakers (aeOthers env 0 w)) = (bs, Inr permit)"
      "w1 = aeOthers env 1 ((aeOthers env 0 w)\<lparr>wBreakers := bs\<rparr>)"
      "queues_Acquire (aeQueue env) (caProviderID cand) (wQueues w1) = (qs, Inr lease)"
      "admit_key env cand auth pref ex (aeOthers env 2 (w1\<lparr>wQueues := qs\<rparr>)) = (w', Inr sel)"
      "r = Inr (permit, lease, sel)"
  using assms
  by (simp add: admit_def Let_def split: prod.splits sum.splits)

lemma admit_refusal:
  assumes "admit env cand auth n pref ex w = (w', Inl f)"
    and "Retry (SignalsFor (Some f)) \<or> SwitchKey (SignalsFor (Some f))"
  shows "fCategory f = CategoryKeyExhausted \<and> 0 < fRetryAfter f"
  using assms(1)
proof (cases rule: admit_cases)
  case (breaker bs g)
  with assms(2) breakers_Allow_refusal show ?thesis by (fastforce simp: final_refusal_def)
next
  case (queue bs permit w1 qs g w2 permit')
  with assms(2) queues_Acquire_refusal show ?thesis by (fastforce simp: final_refusal_def)
next
  case (key bs permit w1 qs lease w3 g w4 permit')
  then have "fCategory f = CategoryKeyExhausted" using admit_key_result(2) by auto
  with assms(2) key_exhausted_signals show ?thesis by blast
qed simp

lemma admit_fresh: "admit env cand auth n pref ex w = (w', Inr (permit, lease, Some sel)) \<Longrightarrow> seKeyID sel \<notin> ex"
  by (erule admit_cases) (auto dest: admit_key_result(1))

lemma others_fairD:
  assumes "others_fair env" and "world_ok w"
  shows "world_ok (aeOthers env k w)" and "0 < slots_held p w \<Longrightarrow> 0 < slots_held p (aeOthers env k w)"
  using assms by (auto simp: others_fair_def)

lemma others_quietD:
  "others_quiet env \<Longrightarrow> aeOthers env k w = w" "others_quiet env \<Longrightarrow> qeOthers (aeQueue env) q = q"
  by (auto simp: others_quiet_def)

lemma slots_held_breakers [simp]: "slots_held p (w\<lparr>wBreakers := bs\<rparr>) = slots_held p w"
  by (simp add: slots_held_def)

lemma breakers_Allow_ok:
  "world_ok w \<Longrightarrow> breakers_Allow now p (wBreakers w) = (bs, r) \<Longrightarrow> world_ok (w\<lparr>wBreakers := bs\<rparr>)"
  using breakers_Allow_inv [of "wBreakers w" now p] by (simp add: world_ok_def)

lemma admit_ok:
  assumes "world_ok w" and "others_fair env" and "admit env cand auth n pref ex w = (w', r)"
  shows "world_ok w' \<and> (\<forall>permit lease sel. r = Inr (permit, lease, sel) \<longrightarrow>
      \<not> lsReleased lease \<and> 0 < slots_held (caProviderID cand) w') \<and>
    (others_quiet env \<longrightarrow> slots_held p w' =
       slots_held p w + (case r of Inl f \<Rightarrow> 0 | Inr x \<Rightarrow> same_provider (caProviderID cand) p))"
proof -
  let ?p = "caProviderID cand"
  have env: "queue_env_ok (aeQueue env)" using assms(2) by (simp add: others_fair_def)
  note fair = others_fairD [OF assms(2)]
  have w0: "world_ok (aeOthers env 0 w)" by (rule fair(1) [OF assms(1)])
  have w1: "world_ok (aeOthers env 1 ((aeOthers env 0 w)\<lparr>wBreakers := bs\<rparr>))"
    if "breakers_Allow (aeNowAllow env) ?p (wBreakers (aeOthers env 0 w)) = (bs, r0)" for bs r0
    by (rule fair(1) [OF breakers_Allow_ok [OF w0 that]])
  show ?thesis
    using assms(3)
  proof (cases rule: admit_cases)
    case (breaker bs f)
    then show ?thesis using breakers_Allow_ok [OF w0 breaker(1)] by (simp add: others_quietD)
  next
    case (queue bs permit w1 qs f w2 permit')
    note Q = queues_Acquire_ok [OF w1 [OF queue(1), folded queue(2)] env queue(3)]
    note C = world_Complete_ok [OF Q(1) queue(4), of p]
    then show ?thesis
      using world_Abandon_ok [of w2 ?p permit' p] queue(2,5,6) Q(3) [of p] by (auto simp: others_quietD)
  next
    case (key bs permit w1 qs lease w3 f w4 permit')
    note Q = queues_Acquire_ok [OF w1 [OF key(1), folded key(2)] env key(3)]
    note K = admit_key_ok [OF fair(1) [OF Q(1)] key(4)]
    have held: "0 < slots_held ?p w3" using K [of ?p] fair(2) [OF Q(1), of ?p] Q(2) [OF refl] by simp
    note C = world_Complete_ok [OF conjunct1 [OF K] key(5)]
    have "0 < slots_held ?p w4" using C [of ?p] held by simp
    note R = world_Release_ok [OF conjunct1 [OF C] this conjunct1 [OF Q(2) [OF refl]]]
    show ?thesis
      using world_Abandon_ok [OF R(1), of ?p permit' p] R(2) [of p] C [of p] K [of p] Q(3) [of p] key(2,6,7) by (auto simp: others_quietD)
  next
    case (granted bs permit w1 qs lease sel)
    note Q = queues_Acquire_ok [OF w1 [OF granted(1), folded granted(2)] env granted(3)]
    note K = admit_key_ok [OF fair(1) [OF Q(1)] granted(4)]
    show ?thesis
      using K [of p] K [of ?p] fair(2) [OF Q(1), of ?p] Q(2) [OF refl] Q(3) [of p] granted(2,5) by (auto simp: others_quietD)
  qed
qed

lemma settle_ok:
  assumes "world_ok w1" and "others_fair env" and "0 < slots_held p w1" and "\<not> lsReleased lease"
    and "world_Complete now p f permit (world_CompleteKey now' f sel (aeOthers env 3 w1)) = (w4, permit')"
    and "w' = world_Abandon p permit' (world_Release p lease (aeOthers env 4 w4))"
  shows "world_ok w' \<and> (others_quiet env \<longrightarrow> slots_held q w' = slots_held q w1 - same_provider p q)"
proof -
  note fair = others_fairD [OF assms(2)]
  note K = world_CompleteKey_ok [OF fair(1) [OF assms(1)]]
  note C = world_Complete_ok [OF K(1) assms(5)]
  have "0 < slots_held p w4" using C [of p] K(2) fair(2) [OF assms(1,3)] by simp
  then have "0 < slots_held p (aeOthers env 4 w4)" using C fair(2) by simp
  note R = world_Release_ok [OF fair(1) [OF conjunct1 [OF C]] this assms(4)]
  show ?thesis
    using world_Abandon_ok [OF R(1), of p permit' q] R(2) [of q] C [of q] K(2) assms(6)
    by (auto simp: others_quietD)
qed

section \<open>Execute keeps the contract\<close>

text \<open>
  What the retry loop relies on of an adapter: an error that marks a request as locally invalid
  or unsupported carries neither a deadline error of the upstream call nor a classified failure.
\<close>

definition adapter_error_ok :: "goerr option \<Rightarrow> bool" where
  "adapter_error_ok err = (case err of None \<Rightarrow> True
     | Some e \<Rightarrow> errors_is e ErrInvalidRequest \<or> errors_is e ErrUnsupportedCapability \<longrightarrow>
         \<not> errors_is e ContextDeadlineExceeded \<and> as_failure e = None)"

definition adapter_honest :: "'req attempt_env \<Rightarrow> bool" where
  "adapter_honest env \<longleftrightarrow> (\<forall>d input key. adapter_error_ok (snd (aeComplete env d input key)))"

lemma uncounted_error_final:
  assumes "adapter_error_ok err" and "\<not> counts_as_attempt err" and "FromProvider hp now ce p c n err = Some f"
  shows "final_refusal f"
proof -
  obtain e where e: "err = Some e" "errors_is e ErrInvalidRequest \<or> errors_is e ErrUnsupportedCapability"
    using assms(2) by (cases err) (auto simp: counts_as_attempt_def errors_is_opt_def)
  then have "\<not> errors_is e ContextDeadlineExceeded" "as_failure e = None"
    using assms(1) by (auto simp: adapter_error_ok_def)
  with e assms(3) show ?thesis
    by (auto simp: FromProvider_def Let_def intro: final_refusalI split: if_splits)
qed

lemma executeOnce_cases:
  assumes "executeOnce hp adapters input retry dl env n pref ex w = (w', oc)"
  obtains
    (unknown) "w' = w" "oc = refused [] (Some (unknown_adapter (aiCandidate input) n))"
  | (refused) auth f where "admit env (aiCandidate input) auth n pref ex w = (w', Inl f)" "oc = refused [] (Some f)"
  | (called) auth w1 permit lease sel body err w4 permit' where
      "admit env (aiCandidate input) auth n pref ex w = (w1, Inr (permit, lease, sel))"
      "aeComplete env (policy_AttemptContext retry dl (aeNowAttempt env)) (chat_input_of input) (world_Secret sel w1)
         = (body, err)"
      "ocFailure oc = (let f = FromProvider hp (aeNowClassify env) (aeCtxErr env) (caProviderID (aiCandidate input))
           (caPriority (aiCandidate input)) n err
         in if sel = None then f else map_option (set_key (ocKeyID oc)) f)"
      "ocKeyID oc = (case sel of None \<Rightarrow> [] | Some k \<Rightarrow> seKeyID k)" "ocAttempted oc = counts_as_attempt err"
      "ocValue oc = body"
      "world_Complete (aeNowBreaker env) (caProviderID (aiCandidate input)) (ocFailure oc) permit
         (world_CompleteKey (aeNowKey env) (ocFailure oc) sel (aeOthers env 3 w1)) = (w4, permit')"
      "w' = world_Abandon (caProviderID (aiCandidate input)) permit'
         (world_Release (caProviderID (aiCandidate input)) lease (aeOthers env 4 w4))"
proof (cases "adapters (trim_space (caProviderID (aiCandidate input)))")
  case None
  with assms show thesis by (intro unknown) (simp_all add: executeOnce_def)
next
  case (Some auth)
  let ?p = "caProviderID (aiCandidate input)"
  obtain w1 r where a: "admit env (aiCandidate input) auth n pref ex w = (w1, r)" by fastforce
  show thesis
  proof (cases r)
    case (Inl f)
    with assms Some a show thesis by (intro refused [of auth f]) (auto simp: executeOnce_def)
  next
    case (Inr x)
    obtain permit lease sel where x: "x = (permit, lease, sel)" by (cases x)
    obtain body err where c: "aeComplete env (policy_AttemptContext retry dl (aeNowAttempt env))
        (chat_input_of input) (world_Secret sel w1) = (body, err)" by fastforce
    let ?f0 = "FromProvider hp (aeNowClassify env) (aeCtxErr env) ?p (caPriority (aiCandidate input)) n err"
    let ?k = "case sel of None \<Rightarrow> [] | Some k \<Rightarrow> seKeyID k"
    let ?f = "if sel = None then ?f0 else map_option (set_key ?k) ?f0"
    obtain w4 permit' where d: "world_Complete (aeNowBreaker env) ?p ?f permit
        (world_CompleteKey (aeNowKey env) ?f sel (aeOthers env 3 w1)) = (w4, permit')" by fastforce
    have res: "w' = world_Abandon ?p permit' (world_Release ?p lease (aeOthers env 4 w4))"
      "oc = \<lparr>ocValue = body, ocFailure = ?f, ocKeyID = ?k, ocAttempted = counts_as_attempt err,
              ocDuration = aeDuration env\<rparr>"
      using assms Some a Inr x c d by (simp_all add: executeOnce_def Let_def)
    show thesis by (rule called [OF a [unfolded Inr x] c]) (use res d in \<open>simp_all add: Let_def\<close>)
  qed
qed

lemma FromProvider_None: "FromProvider hp now ce p c n err = None \<longleftrightarrow> err = None"
  by (auto simp: FromProvider_def Let_def split: option.split)

interpretation execute_round: attempt_round "executeOnce hp adapters input retry dl" world_ok
  "slots_held q" 0 others_fair others_quiet adapter_honest
  for hp adapters and input :: "'req attempt_input" and retry dl q
proof
  let ?p = "caProviderID (aiCandidate input)"
  fix w w' :: world and env :: "'req attempt_env" and n :: int and pref :: string and ex :: "string set"
    and oc :: "string outcome" and f :: failure
  assume run: "executeOnce hp adapters input retry dl env n pref ex w = (w', oc)"
  have ok: "world_ok w' \<and> (others_quiet env \<longrightarrow> slots_held q w' = slots_held q w)"
    if "world_ok w" "others_fair env"
    using run
  proof (cases rule: executeOnce_cases)
    case (refused auth g)
    with admit_ok [OF that refused(1), of q] show ?thesis by simp
  next
    case (called auth w1 permit lease sel body err w4 permit')
    note A = admit_ok [OF that called(1), of q]
    show ?thesis
      using settle_ok [OF _ that(2) _ _ called(7,8), of q] A by auto
  qed (use that in simp)
  show "world_ok w'" if "world_ok w" "others_fair env" using ok that by blast
  show "slots_held q w' = slots_held q w + (if ocFailure oc = None then 0 else 0)"
    if "world_ok w" "others_fair env" "others_quiet env" using ok that by simp
  show "ocKeyID oc \<notin> ex" if "ocKeyID oc \<noteq> []"
    using run that by (cases rule: executeOnce_cases) (auto simp: refused_def dest: admit_fresh split: option.splits)
  show "ocAttempted oc" if "ocFailure oc = None"
    using run that
    by (cases rule: executeOnce_cases)
      (auto simp: refused_def FromProvider_None counts_as_attempt_def errors_is_opt_def Let_def split: if_splits)
  show "fCategory f = CategoryKeyExhausted \<and> 0 < fRetryAfter f"
    if hyps: "adapter_honest env" "\<not> ocAttempted oc" "ocFailure oc = Some f"
      "Retry (SignalsFor (Some f)) \<or> SwitchKey (SignalsFor (Some f))"
    using run
  proof (cases rule: executeOnce_cases)
    case unknown
    then have "final_refusal f" using hyps(3) by (intro final_refusalI(1)) (auto simp: refused_def unknown_adapter_def)
    with hyps(4) show ?thesis by (simp add: final_refusal_def)
  next
    case (refused auth g)
    with hyps(3,4) admit_refusal [OF refused(1)] show ?thesis by (simp add: refused_def)
  next
    case (called auth w1 permit lease sel body err w4 permit')
    have err: "adapter_error_ok err" using hyps(1) called(2) by (metis adapter_honest_def snd_conv)
    obtain g where g: "FromProvider hp (aeNowClassify env) (aeCtxErr env) ?p (caPriority (aiCandidate input)) n err = Some g"
      and f: "f = g \<or> f = set_key (ocKeyID oc) g"
      using hyps(3) called(3) by (auto simp: Let_def split: if_splits)
    have "final_refusal g" using uncounted_error_final [OF err _ g] hyps(2) called(5) by simp
    moreover have "SignalsFor (Some f) = SignalsFor (Some g)" using f by (auto intro: SignalsFor_fields)
    ultimately show ?thesis using hyps(4) by (simp add: final_refusal_def)
  qed
qed

section \<open>Properties\<close>

definition example_candidate :: candidate where
  "example_candidate = \<lparr>caProviderID = ''acme'', caUpstreamModel = ''gpt'', caPriority = 0\<rparr>"

definition example_input :: "unit attempt_input" where
  "example_input = \<lparr>aiRequestID = ''r1'', aiRequestedModel = ''gpt'', aiRequest = (), aiCandidate = example_candidate\<rparr>"

definition example_world :: world where
  "example_world = \<lparr>wBreakers = \<lparr>brBreakers = [''acme'' \<mapsto> example_breaker], brIDs = [''acme'']\<rparr>,
     wQueues = \<lparr>qrQueues = [''acme'' \<mapsto> example_queue], qrIDs = [''acme'']\<rparr>,
     wKeys = Some \<lparr>krSelectors = [''acme'' \<mapsto> example_selector], krIDs = [''acme'']\<rparr>\<rparr>"

definition example_queue_env :: queue_env where
  "example_queue_env = \<lparr>qeCtxNil = False, qeCtxErr = None, qeOthers = (\<lambda>q. q), qeSelect = SelectTimer\<rparr>"

definition example_env :: "string \<times> goerr option \<Rightarrow> unit attempt_env" where
  "example_env answer = \<lparr>aeOthers = (\<lambda>k w. w), aeNowAllow = 1, aeQueue = example_queue_env, aeNowSelect = 2,
     aeCtxErr = None, aeNowClassify = 3, aeNowKey = 4, aeNowBreaker = 5, aeNowAttempt = 2, aeDuration = 7,
     aeComplete = (\<lambda>d input key. answer)\<rparr>"

definition example_wait :: "time \<Rightarrow> wait_env" where
  "example_wait now = \<lparr>weRandom = 0, weCtxErr = None, weNow = now, weTimerFired = False, weErrAfter = None\<rparr>"

definition unauthorized :: goerr where
  "unauthorized = ErrHTTP \<lparr>heStatusCode = 401, heRetryAfter = [], heCode = []\<rparr>"

definition example_rounds :: "(unit attempt_env \<times> wait_env) list" where
  "example_rounds = [(example_env ([], Some unauthorized), example_wait 10), (example_env (''ok'', None), example_wait 20)]"

definition example_retries :: retry_registry where
  "example_retries = \<lparr>rrPolicies = [''acme'' \<mapsto> \<lparr>rpConfig = DefaultRetryConfig\<rparr>], rrProviderIDs = [''acme''],
     rrRequestTimeout = 45 * second\<rparr>"

definition example_adapters :: "string \<rightharpoonup> authentication" where
  "example_adapters = [''acme'' \<mapsto> AuthenticationAPIKey]"

definition example_run :: "(world \<times> attempt_result \<times> failure option) option" where
  "example_run = Execute (\<lambda>s. None) example_adapters example_retries example_input (Some 100) example_rounds example_world"

lemma example_run_summary:
  "map_option (\<lambda>(w, res, f). (rsBody res, rsAttempts res, map arKeyID (rsTrail res), map arCategory (rsTrail res), f)) example_run
     = Some (''ok'', 2, [''a'', ''b''], [CategoryKeyUnauthorized, CategoryEmpty], None)"
  by code_simp

lemma example_policy:
  "retry_ForProvider example_retries (caProviderID (aiCandidate example_input)) = Some \<lparr>rpConfig = DefaultRetryConfig\<rparr>"
  "MaxAttempts DefaultRetryConfig = 3" "RequestTimeout DefaultRetryConfig = 45 * second"
proof -
  have "trim_space ''acme'' = ''acme''" by code_simp
  then show "retry_ForProvider example_retries (caProviderID (aiCandidate example_input)) = Some \<lparr>rpConfig = DefaultRetryConfig\<rparr>"
    by (simp add: retry_ForProvider_def example_retries_def example_input_def example_candidate_def)
qed (simp_all add: DefaultRetryConfig_def)

lemma example_registry: "NewRetryRegistry [''acme''] [''acme'' \<mapsto> DefaultRetryConfig] = Inr example_retries"
proof -
  have "trim_space ''acme'' = ''acme''" by code_simp
  then show ?thesis
    by (simp add: NewRetryRegistry_def registry_build_def retry_mk_def NewRetryPolicy_def DefaultRetryConfig_valid
        example_retries_def example_policy Let_def)
qed

lemma example_world_ok: "world_ok example_world"
proof -
  have "breaker_inv example_breaker" using NewBreaker_inv [OF example_breaker_new] .
  moreover have "queue_ok example_queue" using NewProviderQueue_ok [OF example_queue_new] by blast
  ultimately show ?thesis
    using example_selector_inv by (auto simp: world_ok_def example_world_def breakers_inv_def)
qed

lemma example_rounds_ok:
  "list_all (others_fair \<circ> fst) example_rounds" "list_all (others_quiet \<circ> fst) example_rounds"
  "list_all (adapter_honest \<circ> fst) example_rounds" "successively clock_follows example_rounds"
  by (simp_all add: example_rounds_def example_env_def example_wait_def example_queue_env_def others_fair_def
      others_quiet_def queue_env_ok_def adapter_honest_def adapter_error_ok_def unauthorized_def clock_follows_def)

lemma Execute_loop:
  assumes "Execute hp adapters retries input dl rounds w = Some (w', res, f)"
  obtains (no_policy) "retry_ForProvider retries (caProviderID (aiCandidate input)) = None" "w' = w"
      "rsAttempts res = 0" "rsTrail res = []" "f = Some (no_retry_policy (aiCandidate input))"
  | (loop) retry lr r where "retry_ForProvider retries (caProviderID (aiCandidate input)) = Some retry"
      "retry_loop (executeOnce hp adapters input retry dl) hp retry (aiCandidate input) dl rounds loop_start [] {} w
         = Some (w', lr, r)"
      "rsAttempts res = lrAttempts lr" "rsTrail res = lrTrail lr" "f = None \<longleftrightarrow> (\<exists>v. r = Inr v)"
  using assms
  by (cases "retry_ForProvider retries (caProviderID (aiCandidate input))")
    (auto simp: Execute_def Let_def split: sum.splits)

lemma Execute_resources:
  assumes "world_ok w" and "list_all (others_fair \<circ> fst) rounds"
    and "Execute hp adapters retries input dl rounds w = Some (w', res, f)"
  shows "world_ok w' \<and> (list_all (others_quiet \<circ> fst) rounds \<longrightarrow> (\<forall>q. slots_held q w' = slots_held q w))"
  using assms(3)
proof (cases rule: Execute_loop)
  case (loop retry lr r)
  with execute_round.loop_preserves [OF loop(2) assms(1,2)] execute_round.loop_balance [OF loop(2) assms(1,2)]
  show ?thesis by (auto split: sum.splits)
qed (use assms(1) in simp)

lemma Execute_ends:
  assumes "list_all (adapter_honest \<circ> fst) rounds" and "successively clock_follows rounds" and "rounds \<noteq> []"
    and "\<And>retry. retry_ForProvider retries (caProviderID (aiCandidate input)) = Some retry \<Longrightarrow>
           rounds_needed retry 0 d (weNow (snd (hd rounds))) < length rounds"
  shows "\<exists>w' res f. Execute hp adapters retries input (Some d) rounds w = Some (w', res, f)"
proof (cases "retry_ForProvider retries (caProviderID (aiCandidate input))")
  case None
  then show ?thesis by (simp add: Execute_def Let_def)
next
  case (Some retry)
  have "rounds_needed retry (lrAttempts loop_start) d (weNow (snd (hd rounds))) < length rounds"
    using assms(4) [OF Some] by (simp add: loop_start_def)
  from execute_round.loop_terminates [OF assms(1-3) this]
  obtain w' lr r where "retry_loop (executeOnce hp adapters input retry (Some d)) hp retry (aiCandidate input) (Some d)
      rounds loop_start [] {} w = Some (w', lr, r)" by (metis prod_cases3)
  then show ?thesis using Some by (simp add: Execute_def Let_def)
qed



text \<open>
  Claim C15: a key refused with 401 or 403 is not used again for the same candidate. In the trail
  of an Execute, whatever other requests do to the shared key state meanwhile, no call after
  the refusal carries the same key.
\<close>

theorem execute_never_reuses_refused_key:
  assumes "Execute hp adapters retries input dl rounds w = Some (w', res, f)"
    and "i < j" and "j < length (rsTrail res)"
    and "arCategory (rsTrail res ! i) = CategoryKeyUnauthorized \<or> arCategory (rsTrail res ! i) = CategoryKeyForbidden"
    and "arKeyID (rsTrail res ! i) \<noteq> []"
  shows "arKeyID (rsTrail res ! j) \<noteq> arKeyID (rsTrail res ! i)"
  using assms(1)
proof (cases rule: Execute_loop)
  case (loop retry lr r)
  have "trail_keys_ok (lrTrail lr)"
    by (rule execute_round.loop_keys [OF loop(2)]) (simp_all add: loop_start_def refused_keys_def)
  with assms loop(4) show ?thesis by (intro trail_keys_nth) simp_all
qed (use assms(3) in simp)

theorem execute_never_reuses_refused_key_witness:
  "\<exists>w' res f. example_run = Some (w', res, f) \<and> arKeyID (rsTrail res ! 1) \<noteq> arKeyID (rsTrail res ! 0)"
proof -
  obtain w' res f where run: "example_run = Some (w', res, f)"
    and keys: "map arKeyID (rsTrail res) = [''a'', ''b'']"
    and cats: "map arCategory (rsTrail res) = [CategoryKeyUnauthorized, CategoryEmpty]"
    using example_run_summary by (auto simp: map_option_eq_Some)
  have "length (rsTrail res) = 2" using keys by (metis length_map length_Cons list.size(3) numeral_2_eq_2)
  then have "arKeyID (rsTrail res ! 1) \<noteq> arKeyID (rsTrail res ! 0)"
    using keys cats by (intro execute_never_reuses_refused_key [OF run [unfolded example_run_def]]) auto
  with run show ?thesis by blast
qed

text \<open>
  Execute ends. With a request deadline (which the orchestrator always sets), a clock
  that does not run backwards and adapters whose local errors are plain, \<open>MaxAttempts\<close> rounds
  plus one per nanosecond left until the deadline are enough to reach a result.
\<close>

theorem execute_terminates:
  assumes "list_all (adapter_honest \<circ> fst) rounds" and "successively clock_follows rounds" and "rounds \<noteq> []"
    and "\<And>retry. retry_ForProvider retries (caProviderID (aiCandidate input)) = Some retry \<Longrightarrow>
           rounds_needed retry 0 d (weNow (snd (hd rounds))) < length rounds"
  shows "\<exists>w' res f. Execute hp adapters retries input (Some d) rounds w = Some (w', res, f)"
  using assms by (rule Execute_ends)

definition refused_rounds :: "(unit attempt_env \<times> wait_env) list" where
  "refused_rounds = map (\<lambda>t. (example_env ([], Some unauthorized), example_wait t)) [10, 20, 30, 40]"

theorem execute_terminates_witness:
  "\<exists>w' res f. Execute (\<lambda>s. None) example_adapters example_retries example_input (Some 9)
     refused_rounds example_world = Some (w', res, f)"
proof (rule execute_terminates)
  show "rounds_needed retry 0 9 (weNow (snd (hd refused_rounds))) < length refused_rounds"
    if "retry_ForProvider example_retries (caProviderID (aiCandidate example_input)) = Some retry" for retry
    using that by (auto simp: example_policy rounds_needed_def refused_rounds_def example_wait_def)
qed (simp_all add: refused_rounds_def clock_follows_def example_wait_def adapter_honest_def adapter_error_ok_def
    example_env_def unauthorized_def)

text \<open>
  Claim C14: Execute returns what it takes. Whatever fair requests run beside it, it leaves the
  breakers, queues and key selectors in states that satisfy their invariants; and when nothing
  else runs, the queue of every provider holds exactly as many slots afterwards as before, on
  success, on every failure and after any number of retries.
\<close>

theorem execute_returns_resources:
  assumes "world_ok w" and "list_all (others_fair \<circ> fst) rounds"
    and "Execute hp adapters retries input dl rounds w = Some (w', res, f)"
  shows "world_ok w' \<and> (list_all (others_quiet \<circ> fst) rounds \<longrightarrow> (\<forall>q. slots_held q w' = slots_held q w))"
  by (rule Execute_resources [OF assms])

theorem execute_returns_resources_witness:
  "\<exists>w' res f. example_run = Some (w', res, f) \<and> slots_held ''acme'' w' = 0"
proof -
  obtain w' res f where run: "example_run = Some (w', res, f)"
    using example_run_summary by (auto simp: map_option_eq_Some)
  have "trim_space ''acme'' = ''acme''" by code_simp
  then have "slots_held ''acme'' example_world = 0"
    by (simp add: slots_held_def example_world_def example_queue_def)
  then have "slots_held ''acme'' w' = 0"
    using execute_returns_resources [OF example_world_ok example_rounds_ok(1) run [unfolded example_run_def]]
      example_rounds_ok(2) by simp
  with run show ?thesis by blast
qed

text \<open>
  An open breaker fails fast. While the breaker of the provider is open, Execute ends in
  its first round with a breaker failure and no upstream call, and touches neither the queue
  nor the keys.
\<close>

theorem execute_open_breaker_fails_fast:
  assumes "retry_ForProvider retries (caProviderID (aiCandidate input)) = Some retry"
    and "adapters (trim_space (caProviderID (aiCandidate input))) = Some auth"
    and "aeOthers env 0 w = w"
    and "brBreakers (wBreakers w) (trim_space (caProviderID (aiCandidate input))) = Some b"
    and "bState b = StateOpen" and "aeNowAllow env < bOpenedUntil b"
  shows "\<exists>w' res f. Execute hp adapters retries input dl ((env, we) # rounds) w = Some (w', res, Some f) \<and>
    fCategory f = CategoryBreaker \<and> rsAttempts res = 0 \<and> rsTrail res = [] \<and>
    wQueues w' = wQueues w \<and> wKeys w' = wKeys w"
proof -
  let ?cand = "aiCandidate input"
  obtain bs g where allow: "breakers_Allow (aeNowAllow env) (caProviderID ?cand) (wBreakers w) = (bs, Inl g)"
    and cat: "fCategory g = CategoryBreaker"
    using assms(4-6)
    by (auto simp: breakers_Allow_def breaker_Allow_def breaker_advance_def breaker_reject_def Let_def)
  let ?w = "w\<lparr>wBreakers := bs\<rparr>" and ?f = "located ?cand 1 g"
  have once: "executeOnce hp adapters input retry dl env (lrAttempts loop_start + 1) [] {} w = (?w, refused [] (Some ?f))"
    using assms(2,3) allow by (simp add: executeOnce_def admit_def Let_def loop_start_def)
  have "\<not> round_retries retry dl we (complete_failure oc res ?f) n" for oc :: "string outcome" and res n
    using cat by (simp add: round_retries_def ShouldRetry_def SignalsFor_def no_signals_def)
  with once have "\<exists>h. retry_loop (executeOnce hp adapters input retry dl) hp retry ?cand dl ((env, we) # rounds) loop_start [] {} w =
      Some (?w, loop_start, Inl h) \<and> fCategory h = CategoryBreaker"
    using cat by (simp add: Let_def refused_def note_outcome_def round_retries_def ShouldRetry_def SignalsFor_def no_signals_def)
  then show ?thesis using assms(1) by (auto simp: Execute_def Let_def loop_start_def)
qed

theorem execute_open_breaker_fails_fast_witness:
  "\<exists>w' res f. Execute (\<lambda>s. None) example_adapters example_retries example_input (Some 100) example_rounds
     (example_world\<lparr>wBreakers := \<lparr>brBreakers = [''acme'' \<mapsto> example_open], brIDs = [''acme'']\<rparr>\<rparr>) = Some (w', res, Some f) \<and>
     fCategory f = CategoryBreaker"
proof -
  have t: "trim_space ''acme'' = ''acme''" by code_simp
  let ?w = "example_world\<lparr>wBreakers := \<lparr>brBreakers = [''acme'' \<mapsto> example_open], brIDs = [''acme'']\<rparr>\<rparr>"
  have "\<exists>w' res f. Execute (\<lambda>s. None) example_adapters example_retries example_input (Some 100)
      ((example_env ([], Some unauthorized), example_wait 10) # [(example_env (''ok'', None), example_wait 20)]) ?w
      = Some (w', res, Some f) \<and>
    fCategory f = CategoryBreaker \<and> rsAttempts res = 0 \<and> rsTrail res = [] \<and>
    wQueues w' = wQueues ?w \<and> wKeys w' = wKeys ?w"
    by (rule execute_open_breaker_fails_fast [OF example_policy(1), of _ AuthenticationAPIKey _ _ example_open])
      (simp_all add: t example_adapters_def example_input_def example_candidate_def example_env_def example_open_def
        breaker_open_def example_breaker_def example_config_def)
  then show ?thesis unfolding example_rounds_def by blast
qed

end
