(* ===== verification/Orchestrator.thy ===== *)
theory Orchestrator
  imports Attempt
begin

text \<open>
  Fallback across the candidates of a plan: \<open>internal/reliability/orchestrator.go\<close>. \<open>Execute\<close>
  and \<open>OpenStream\<close> run the same loop over the candidates with their own way of trying one of
  them, the parameter \<open>try_candidate\<close>. The environment gives, per candidate, the rounds of its
  retry loop and \<open>executionContext.Err()\<close> after it failed; running out of environments is
  \<open>None\<close>, as in the retry loop.
\<close>

section \<open>Data\<close>

record 'req execution_input =
  exRequestID :: string
  exRequest :: 'req
  exPlan :: plan

record execution_result =
  erBody :: string
  erProviderID :: string
  erUpstreamModel :: string
  erKeyID :: string
  erAttempts :: int
  erFallbacks :: int
  erCandidatesTried :: int
  erTrail :: "attempt_record list"

record 'env candidate_env =
  ceRounds :: "('env \<times> wait_env) list"
  ceCtxErr :: "ctx_err option"
  ceNow :: time

record totals =
  toAttempts :: int
  toFallbacks :: int
  toTrail :: "attempt_record list"

definition no_totals :: totals where
  "no_totals = \<lparr>toAttempts = 0, toFallbacks = 0, toTrail = []\<rparr>"

definition no_route_failure :: failure where
  "no_route_failure = set_category CategoryLocalValidation
     (set_cause (Some (ErrSentinel ErrNoRoute)) failure_zero)"

definition with_totals :: "totals \<Rightarrow> failure \<Rightarrow> failure" where
  "with_totals t f = set_trail (toTrail t) (set_fallbacks (toFallbacks t) (set_total_attempts (toAttempts t) f))"

section \<open>The loop over the candidates\<close>

definition ended_failure ::
  "(string \<Rightarrow> time option) \<Rightarrow> time \<Rightarrow> ctx_err \<Rightarrow> candidate \<Rightarrow> totals \<Rightarrow> failure \<Rightarrow> failure" where
  "ended_failure httpParseTime now e cand t f =
     with_totals t
       (case FromProvider httpParseTime now (Some e) (caProviderID cand) (caPriority cand) (fAttempt f)
               (Some (ctx_goerr e)) of
          None \<Rightarrow> f | Some g \<Rightarrow> g)"

fun candidate_loop ::
  "('env candidate_env \<Rightarrow> candidate \<Rightarrow> 'w \<Rightarrow> ('w \<times> int \<times> attempt_record list \<times> (failure + 'v)) option)
     \<Rightarrow> (string \<Rightarrow> time option) \<Rightarrow> candidate list \<Rightarrow> 'env candidate_env list \<Rightarrow> nat \<Rightarrow> totals \<Rightarrow> failure option \<Rightarrow> 'w
     \<Rightarrow> ('w \<times> nat \<times> totals \<times> (failure + 'v)) option" where
  "candidate_loop try_candidate httpParseTime [] envs index t lastFailure w =
     Some (w, index, t, Inl (with_totals t (case lastFailure of None \<Rightarrow> no_route_failure | Some f \<Rightarrow> f)))"
| "candidate_loop try_candidate httpParseTime (cand # rest) [] index t lastFailure w = None"
| "candidate_loop try_candidate httpParseTime (cand # rest) (ce # envs) index t lastFailure w =
     (case try_candidate ce cand w of
        None \<Rightarrow> None
      | Some (w1, attempts, trail, r) \<Rightarrow>
          (let t1 = t\<lparr>toAttempts := toAttempts t + attempts, toTrail := toTrail t @ trail\<rparr> in
           case r of
             Inr v \<Rightarrow> Some (w1, Suc index, t1, Inr v)
           | Inl f0 \<Rightarrow>
               (let f = with_totals t1 f0 in
                case ceCtxErr ce of
                  Some e \<Rightarrow> Some (w1, Suc index, t1, Inl (ended_failure httpParseTime (ceNow ce) e cand t1 f))
                | None \<Rightarrow>
                    if \<not> Fallback (SignalsFor (Some f)) \<or> rest = [] then Some (w1, Suc index, t1, Inl f)
                    else candidate_loop try_candidate httpParseTime rest envs (Suc index)
                           (t1\<lparr>toFallbacks := toFallbacks t1 + 1\<rparr>) (Some f) w1)))"

section \<open>Execute\<close>

definition attempt_input_for :: "'req execution_input \<Rightarrow> candidate \<Rightarrow> 'req attempt_input" where
  "attempt_input_for input cand =
     \<lparr>aiRequestID = exRequestID input, aiRequestedModel = plRequestedModel (exPlan input),
      aiRequest = exRequest input, aiCandidate = cand\<rparr>"

definition try_execute ::
  "(string \<Rightarrow> time option) \<Rightarrow> (string \<rightharpoonup> authentication) \<Rightarrow> retry_registry \<Rightarrow> 'req execution_input \<Rightarrow> time option
     \<Rightarrow> 'req attempt_env candidate_env \<Rightarrow> candidate \<Rightarrow> world
     \<Rightarrow> (world \<times> int \<times> attempt_record list \<times> (failure + attempt_result)) option" where
  "try_execute httpParseTime adapters retries input deadline ce cand w =
     map_option (\<lambda>(w', res, f). (w', rsAttempts res, rsTrail res, case f of None \<Rightarrow> Inr res | Some x \<Rightarrow> Inl x))
       (Attempt.Execute httpParseTime adapters retries (attempt_input_for input cand) deadline (ceRounds ce) w)"

definition execution_result_of :: "nat \<Rightarrow> totals \<Rightarrow> attempt_result \<Rightarrow> execution_result" where
  "execution_result_of tried t res =
     \<lparr>erBody = rsBody res, erProviderID = rsProviderID res, erUpstreamModel = rsUpstreamModel res,
      erKeyID = rsKeyID res, erAttempts = toAttempts t, erFallbacks = toFallbacks t,
      erCandidatesTried = int tried, erTrail = toTrail t\<rparr>"

text \<open>\<open>parent\<close> is the deadline of the client's context and \<open>now\<close> the clock on entry.\<close>

definition orchestrator_Execute ::
  "(string \<Rightarrow> time option) \<Rightarrow> (string \<rightharpoonup> authentication) \<Rightarrow> retry_registry \<Rightarrow> 'req execution_input \<Rightarrow> time option
     \<Rightarrow> time \<Rightarrow> 'req attempt_env candidate_env list \<Rightarrow> world \<Rightarrow> (world \<times> (failure + execution_result)) option" where
  "orchestrator_Execute httpParseTime adapters retries input parent now envs w =
     (if plCandidates (exPlan input) = [] then Some (w, Inl no_route_failure)
      else map_option (\<lambda>(w', tried, t, r).
             (w', case r of Inl f \<Rightarrow> Inl f | Inr res \<Rightarrow> Inr (execution_result_of tried t res)))
           (candidate_loop
              (try_execute httpParseTime adapters retries input (registry_RequestContext retries parent now))
              httpParseTime (plCandidates (exPlan input)) envs 0 no_totals None w))"

section \<open>The contract of trying one candidate\<close>

text \<open>
  What the loop needs of an attempt on one candidate: the trail names the candidate and has as
  many entries as it made upstream calls, the calls stay within the candidate's budget, the
  shared state stays in order, the slots it holds afterwards are known, and what a success
  returns is live in the state it leaves.
\<close>

locale candidate_attempt =
  fixes try_candidate :: "'env candidate_env \<Rightarrow> candidate \<Rightarrow> 'w \<Rightarrow> ('w \<times> int \<times> attempt_record list \<times> (failure + 'v)) option"
    and budget :: "candidate \<Rightarrow> int"
    and good :: "candidate \<Rightarrow> 'v \<Rightarrow> bool"
    and ok :: "'w \<Rightarrow> bool"
    and fair :: "'env candidate_env \<Rightarrow> bool"
    and held :: "'w \<Rightarrow> int"
    and keeps :: "candidate \<Rightarrow> int"
    and quiet :: "'env candidate_env \<Rightarrow> bool"
    and live :: "'v \<Rightarrow> 'w \<Rightarrow> bool"
  assumes attempts_trail: "try_candidate ce cand w = Some (w', n, trail, r) \<Longrightarrow>
          n = int (length trail) \<and> n \<le> budget cand \<and>
          (\<forall>a \<in> set trail. arProviderID a = caProviderID cand \<and> arCandidate a = caPriority cand)"
    and success_good: "try_candidate ce cand w = Some (w', n, trail, Inr v) \<Longrightarrow> good cand v"
    and keeps_ok: "ok w \<Longrightarrow> fair ce \<Longrightarrow> try_candidate ce cand w = Some (w', n, trail, r) \<Longrightarrow> ok w'"
    and balance: "ok w \<Longrightarrow> fair ce \<Longrightarrow> quiet ce \<Longrightarrow> try_candidate ce cand w = Some (w', n, trail, r) \<Longrightarrow>
          held w' = held w + (case r of Inl f \<Rightarrow> 0 | Inr v \<Rightarrow> keeps cand)"
    and success_live: "ok w \<Longrightarrow> fair ce \<Longrightarrow> try_candidate ce cand w = Some (w', n, trail, Inr v) \<Longrightarrow> live v w'"
begin

text \<open>What the loop has done when it returns: the candidates tried are a prefix of the plan.\<close>

definition covers :: "candidate list \<Rightarrow> totals \<Rightarrow> bool" where
  "covers tried t \<longleftrightarrow> toAttempts t = int (length (toTrail t)) \<and> toAttempts t \<le> sum_list (map budget tried) \<and>
     (\<exists>parts. length parts = length tried \<and> concat parts = toTrail t \<and>
        (\<forall>i < length tried. \<forall>a \<in> set (parts ! i).
           arProviderID a = caProviderID (tried ! i) \<and> arCandidate a = caPriority (tried ! i)))"

lemma covers_step:
  assumes "covers tried t" and "try_candidate ce cand w = Some (w', n, trail, r)"
  shows "covers (tried @ [cand]) (t\<lparr>toAttempts := toAttempts t + n, toTrail := toTrail t @ trail\<rparr>)"
proof -
  from assms(1) obtain parts where "length parts = length tried" "concat parts = toTrail t"
    "\<forall>i < length tried. \<forall>a \<in> set (parts ! i).
       arProviderID a = caProviderID (tried ! i) \<and> arCandidate a = caPriority (tried ! i)"
    by (auto simp: covers_def)
  with assms(1) attempts_trail [OF assms(2)] show ?thesis
    unfolding covers_def by (intro conjI exI [of _ "parts @ [trail]"]) (auto simp: nth_append less_Suc_eq)
qed

lemma covers_fallbacks [simp]: "covers tried (t\<lparr>toFallbacks := k\<rparr>) = covers tried t"
  by (simp add: covers_def)

lemma loop_spec:
  "candidate_loop try_candidate hp rest envs (length tried) t lf w = Some (w', n, t', r) \<Longrightarrow>
     covers tried t \<Longrightarrow> toFallbacks t = int (length tried) \<Longrightarrow> rest \<noteq> [] \<Longrightarrow>
     length tried < n \<and> n \<le> length tried + length rest \<and> toFallbacks t' = int n - 1 \<and>
     covers (take n (tried @ rest)) t' \<and>
     (\<forall>v. r = Inr v \<longrightarrow> good ((tried @ rest) ! (n - 1)) v) \<and>
     (\<forall>f. r = Inl f \<longrightarrow> fTotalAttempts f = toAttempts t' \<and> fFallbacks f = toFallbacks t' \<and> fTrail f = toTrail t')"
proof (induction rest arbitrary: tried envs t lf w)
  case (Cons cand rest)
  then obtain ce envs' where envs: "envs = ce # envs'" by (cases envs) auto
  from Cons.prems(1) envs obtain w1 k trail r1 where try1: "try_candidate ce cand w = Some (w1, k, trail, r1)"
    by (auto split: option.splits)
  let ?t = "t\<lparr>toAttempts := toAttempts t + k, toTrail := toTrail t @ trail\<rparr>"
  have cov: "covers (tried @ [cand]) ?t" by (rule covers_step [OF Cons.prems(2) try1])
  show ?case
  proof (cases r1)
    case (Inr v)
    with Cons.prems envs try1 cov success_good [OF try1 [unfolded Inr]] show ?thesis by (auto simp: nth_append)
  next
    case (Inl f0)
    show ?thesis
    proof (cases "ceCtxErr ce = None \<and> Fallback (SignalsFor (Some (with_totals ?t f0))) \<and> rest \<noteq> []")
      case True
      with Cons.prems(1) envs try1 Inl
      have loop: "candidate_loop try_candidate hp rest envs' (length (tried @ [cand]))
          (?t\<lparr>toFallbacks := toFallbacks ?t + 1\<rparr>) (Some (with_totals ?t f0)) w1 = Some (w', n, t', r)"
        by (simp add: Let_def)
      from Cons.IH [OF loop] cov Cons.prems(3) True show ?thesis by (simp del: take_append)
    next
      case False
      with Cons.prems(1) envs try1 Inl have res: "w' = w1" "n = Suc (length tried)" "t' = ?t"
        and f: "\<exists>f. r = Inl f \<and> fTotalAttempts f = toAttempts ?t \<and> fFallbacks f = toFallbacks ?t \<and> fTrail f = toTrail ?t"
        by (auto simp: Let_def with_totals_def ended_failure_def split: option.splits)
      from f res cov Cons.prems(3) show ?thesis by auto
    qed
  qed
qed simp

lemma loop_resources:
  "candidate_loop try_candidate hp rest envs i t lf w = Some (w', n, t', r) \<Longrightarrow> ok w \<Longrightarrow>
     list_all fair envs \<Longrightarrow> ok w' \<and> (list_all quiet envs \<longrightarrow>
       held w' = held w + (case r of Inl f \<Rightarrow> 0 | Inr v \<Rightarrow> keeps (rest ! (n - 1 - i)))) \<and> (\<forall>v. r = Inr v \<longrightarrow> i < n \<and> live v w')"
proof (induction rest arbitrary: envs i t lf w)
  case (Cons cand rest)
  then obtain ce envs' where envs: "envs = ce # envs'" by (cases envs) auto
  from Cons.prems(1) envs obtain w1 k trail r1 where try1: "try_candidate ce cand w = Some (w1, k, trail, r1)"
    by (auto split: option.splits)
  have ok: "ok w1" using keeps_ok [OF Cons.prems(2) _ try1] Cons.prems(3) envs by simp
  have bal: "list_all quiet envs \<longrightarrow> held w1 = held w + (case r1 of Inl f \<Rightarrow> 0 | Inr v \<Rightarrow> keeps cand)"
    using balance [OF Cons.prems(2) _ _ try1] Cons.prems(3) envs by simp
  let ?t = "t\<lparr>toAttempts := toAttempts t + k, toTrail := toTrail t @ trail\<rparr>"
  show ?case
  proof (cases r1)
    case (Inr v)
    have "live v w1" using success_live [OF Cons.prems(2) _ try1 [unfolded Inr]] Cons.prems(3) envs by simp
    with Inr Cons.prems(1) envs try1 ok bal show ?thesis by auto
  next
    case (Inl f0)
    show ?thesis
    proof (cases "ceCtxErr ce = None \<and> Fallback (SignalsFor (Some (with_totals ?t f0))) \<and> rest \<noteq> []")
      case True
      with Cons.prems(1) envs try1 Inl
      have loop: "candidate_loop try_candidate hp rest envs' (Suc i)
          (?t\<lparr>toFallbacks := toFallbacks ?t + 1\<rparr>) (Some (with_totals ?t f0)) w1 = Some (w', n, t', r)"
        by (simp add: Let_def)
      have "n - Suc i = Suc (n - Suc (Suc i))" if "Suc i < n" using that by simp
      with Cons.IH [OF loop ok] Cons.prems(3) envs bal Inl show ?thesis by (auto split: sum.splits)
    next
      case False
      with Cons.prems(1) envs try1 Inl have "w' = w1" "\<exists>f. r = Inl f"
        by (auto simp: Let_def split: option.splits)
      with ok bal Inl show ?thesis by auto
    qed
  qed
qed auto

end

section \<open>Execute keeps the contract\<close>

definition attempt_budget :: "retry_registry \<Rightarrow> candidate \<Rightarrow> int" where
  "attempt_budget retries cand = (case retry_ForProvider retries (caProviderID cand) of
     None \<Rightarrow> 0 | Some retry \<Rightarrow> max 1 (MaxAttempts (rpConfig retry)))"

lemma Execute_trail:
  assumes "Attempt.Execute hp adapters retries input dl rounds w = Some (w', res, f)"
  shows "rsAttempts res = int (length (rsTrail res)) \<and> rsAttempts res \<le> attempt_budget retries (aiCandidate input) \<and>
    (\<forall>a \<in> set (rsTrail res). arProviderID a = caProviderID (aiCandidate input) \<and>
       arCandidate a = caPriority (aiCandidate input)) \<and>
    rsProviderID res = caProviderID (aiCandidate input) \<and> rsUpstreamModel res = caUpstreamModel (aiCandidate input)"
proof -
  have "rsProviderID res = caProviderID (aiCandidate input) \<and> rsUpstreamModel res = caUpstreamModel (aiCandidate input)"
    using assms by (auto simp: Execute_def Let_def split: option.splits)
  moreover have "rsAttempts res = int (length (rsTrail res)) \<and> rsAttempts res \<le> attempt_budget retries (aiCandidate input) \<and>
    (\<forall>a \<in> set (rsTrail res). arProviderID a = caProviderID (aiCandidate input) \<and>
       arCandidate a = caPriority (aiCandidate input))"
    using assms
  proof (cases rule: Execute_loop)
    case (loop retry lr r)
    have "lrAttempts lr \<le> max 1 (MaxAttempts (rpConfig retry))"
      using retry_loop_attempts_max [OF loop(2)] by (simp add: loop_start_def)
    with execute_round.loop_trail [OF loop(2) trail_ok_start] loop show ?thesis
      by (auto simp: trail_ok_def attempt_budget_def in_set_conv_nth)
  qed (simp add: attempt_budget_def)
  ultimately show ?thesis by blast
qed

definition rounds_fair :: "'e base_env_scheme candidate_env \<Rightarrow> bool" where
  "rounds_fair ce = list_all (others_fair \<circ> fst) (ceRounds ce)"

definition rounds_quiet :: "'e base_env_scheme candidate_env \<Rightarrow> bool" where
  "rounds_quiet ce = list_all (others_quiet \<circ> fst) (ceRounds ce)"

interpretation execute_candidate: candidate_attempt "try_execute hp adapters retries input dl"
  "attempt_budget retries" "\<lambda>cand res. rsProviderID res = caProviderID cand \<and> rsUpstreamModel res = caUpstreamModel cand"
  world_ok rounds_fair "slots_held q" "\<lambda>cand. 0" rounds_quiet "\<lambda>_ _. True"
  for hp adapters retries and input :: "'req execution_input" and dl q
proof
  fix ce :: "'req attempt_env candidate_env" and cand w w' n trail and r :: "failure + attempt_result"
  assume "try_execute hp adapters retries input dl ce cand w = Some (w', n, trail, r)"
  then obtain res f where
    run: "Attempt.Execute hp adapters retries (attempt_input_for input cand) dl (ceRounds ce) w = Some (w', res, f)"
    and eq: "n = rsAttempts res" "trail = rsTrail res" "r = (case f of None \<Rightarrow> Inr res | Some x \<Rightarrow> Inl x)"
    by (auto simp: try_execute_def)
  note T = Execute_trail [OF run]
  show "n = int (length trail) \<and> n \<le> attempt_budget retries cand \<and>
      (\<forall>a \<in> set trail. arProviderID a = caProviderID cand \<and> arCandidate a = caPriority cand)"
    using T eq by (simp add: attempt_input_for_def)
  show "world_ok w'" if "world_ok w" "rounds_fair ce"
    using Execute_resources [OF that(1) _ run] that(2) by (simp add: rounds_fair_def)
  show "slots_held q w' = slots_held q w + (case r of Inl f \<Rightarrow> 0 | Inr v \<Rightarrow> 0)"
    if "world_ok w" "rounds_fair ce" "rounds_quiet ce"
    using Execute_resources [OF that(1) _ run] that(2,3) by (auto simp: rounds_fair_def rounds_quiet_def split: sum.split)
next
  fix ce :: "'req attempt_env candidate_env" and cand w w' n trail and v :: attempt_result
  assume "try_execute hp adapters retries input dl ce cand w = Some (w', n, trail, Inr v)"
  then have "\<exists>f. Attempt.Execute hp adapters retries (attempt_input_for input cand) dl (ceRounds ce) w = Some (w', v, f)"
    by (auto simp: try_execute_def split: option.splits)
  then show "rsProviderID v = caProviderID cand \<and> rsUpstreamModel v = caUpstreamModel cand"
    using Execute_trail by (force simp: attempt_input_for_def)
qed simp

section \<open>Properties\<close>

text \<open>The trail of a request lists the calls candidate by candidate, in the order of the plan.\<close>

definition trail_follows :: "candidate list \<Rightarrow> attempt_record list \<Rightarrow> bool" where
  "trail_follows cands trail \<longleftrightarrow> (\<exists>parts. length parts = length cands \<and> concat parts = trail \<and>
     (\<forall>i < length cands. \<forall>a \<in> set (parts ! i).
        arProviderID a = caProviderID (cands ! i) \<and> arCandidate a = caPriority (cands ! i)))"

lemma attempt_budget_valid:
  "NewRetryRegistry ps configs = Inr retries \<Longrightarrow> retry_ForProvider retries (caProviderID c) = Some retry \<Longrightarrow>
     attempt_budget retries c = MaxAttempts (rpConfig retry)"
  using retry_reg.build_made by (fastforce simp: attempt_budget_def retry_validate_None)

definition old_candidate :: candidate where
  "old_candidate = \<lparr>caProviderID = ''acme'', caUpstreamModel = ''gpt-old'', caPriority = 0\<rparr>"

definition new_candidate :: candidate where
  "new_candidate = \<lparr>caProviderID = ''acme'', caUpstreamModel = ''gpt'', caPriority = 1\<rparr>"

definition example_execution :: "unit execution_input" where
  "example_execution = \<lparr>exRequestID = ''r1'', exRequest = (),
     exPlan = \<lparr>plRequestedModel = ''gpt'', plCandidates = [old_candidate, new_candidate]\<rparr>\<rparr>"

definition model_gone :: goerr where
  "model_gone = ErrHTTP \<lparr>heStatusCode = 404, heRetryAfter = [], heCode = ''model_not_found''\<rparr>"

definition example_envs :: "unit attempt_env candidate_env list" where
  "example_envs =
     [\<lparr>ceRounds = [(example_env ([], Some model_gone), example_wait 10)], ceCtxErr = None, ceNow = 11\<rparr>,
      \<lparr>ceRounds = [(example_env (''ok'', None), example_wait 20)], ceCtxErr = None, ceNow = 21\<rparr>]"

definition example_execute :: "(world \<times> (failure + execution_result)) option" where
  "example_execute = orchestrator_Execute (\<lambda>s. None) example_adapters example_retries example_execution None 0
     example_envs example_world"

lemma example_execute_summary:
  "map_option (\<lambda>(w, r). case r of Inl f \<Rightarrow> None | Inr res \<Rightarrow>
       Some (erBody res, erAttempts res, erFallbacks res, erCandidatesTried res, map arCategory (erTrail res))) example_execute
     = Some (Some (''ok'', 2, 1, 2, [CategoryModelUnavailable, CategoryEmpty]))"
  by code_simp

lemma example_envs_ok: "list_all rounds_fair example_envs" "list_all rounds_quiet example_envs"
  by (simp_all add: example_envs_def rounds_fair_def rounds_quiet_def example_env_def example_queue_env_def
      others_fair_def others_quiet_def queue_env_ok_def)

lemma covers_follows:
  "candidate_attempt.covers (attempt_budget retries) tried t \<longleftrightarrow> toAttempts t = int (length (toTrail t)) \<and>
     toAttempts t \<le> sum_list (map (attempt_budget retries) tried) \<and> trail_follows tried (toTrail t)"
  by (simp add: execute_candidate.covers_def trail_follows_def)

lemma execute_loop_spec:
  assumes "candidate_loop (try_execute hp adapters retries input dl) hp cands envs 0 no_totals None w = Some (w', n, t, r)"
    and "cands \<noteq> []"
  shows "0 < n \<and> n \<le> length cands \<and> toFallbacks t = int n - 1 \<and> toAttempts t = int (length (toTrail t)) \<and>
    toAttempts t \<le> sum_list (map (attempt_budget retries) (take n cands)) \<and> trail_follows (take n cands) (toTrail t) \<and>
    (\<forall>res. r = Inr res \<longrightarrow> rsProviderID res = caProviderID (cands ! (n - 1)) \<and>
       rsUpstreamModel res = caUpstreamModel (cands ! (n - 1))) \<and>
    (\<forall>f. r = Inl f \<longrightarrow> fTotalAttempts f = toAttempts t \<and> fFallbacks f = toFallbacks t \<and> fTrail f = toTrail t)"
  using execute_candidate.loop_spec [of hp adapters retries input dl hp cands envs "[]" no_totals None w w' n t r] assms
  by (simp add: covers_follows no_totals_def trail_follows_def [of "[]"])



text \<open>
  A whole request gives its resources back. With fair requests beside it, the
  orchestrated execution leaves breakers, queues and keys in order; and when nothing else runs,
  the queue of every provider holds as many slots as before, whichever candidates were tried.
\<close>

theorem orchestrator_returns_resources:
  assumes "world_ok w" and "list_all rounds_fair envs"
    and "orchestrator_Execute hp adapters retries input parent now envs w = Some (w', r)"
  shows "world_ok w' \<and> (list_all rounds_quiet envs \<longrightarrow> (\<forall>q. slots_held q w' = slots_held q w))"
proof (cases "plCandidates (exPlan input) = []")
  case True
  with assms show ?thesis by (simp add: orchestrator_Execute_def)
next
  case False
  with assms(3) obtain n t r0 where
    "candidate_loop (try_execute hp adapters retries input (registry_RequestContext retries parent now))
      hp (plCandidates (exPlan input)) envs 0 no_totals None w = Some (w', n, t, r0)"
    by (auto simp: orchestrator_Execute_def)
  from execute_candidate.loop_resources [OF this assms(1,2)] show ?thesis by (auto split: sum.splits)
qed

theorem orchestrator_returns_resources_witness:
  "\<exists>w' r. example_execute = Some (w', r) \<and> world_ok w' \<and> slots_held ''acme'' w' = slots_held ''acme'' example_world"
proof -
  obtain w' r where run: "example_execute = Some (w', r)"
    using example_execute_summary by (auto simp: map_option_eq_Some)
  from orchestrator_returns_resources [OF example_world_ok example_envs_ok(1) run [unfolded example_execute_def]]
    example_envs_ok(2) run show ?thesis by blast
qed

text \<open>
  When the next candidate is tried. After a candidate failed, the request ends if its
  context has ended (with a cancellation or a budget timeout as the failure), if the failure does
  not allow a fallback, or if the candidate was the last one; in these cases nothing else
  changes the shared state. Otherwise the remaining candidates are tried from the state the
  failed one left.
\<close>

theorem orchestrator_fallback_rule:
  assumes "plCandidates (exPlan input) = cand # rest"
    and "Attempt.Execute hp adapters retries (attempt_input_for input cand)
           (registry_RequestContext retries parent now) (ceRounds ce) w = Some (w1, res, Some f)"
  shows "(case ceCtxErr ce of
      Some e \<Rightarrow> \<exists>g. orchestrator_Execute hp adapters retries input parent now (ce # envs) w = Some (w1, Inl g) \<and>
        (fCategory g = CategoryCanceled \<or> fCategory g = CategoryTimeout \<and> fTimeout g = TimeoutRequestBudget)
    | None \<Rightarrow>
        if Fallback (SignalsFor (Some f)) \<and> rest \<noteq> [] then
          orchestrator_Execute hp adapters retries input parent now (ce # envs) w =
            map_option (\<lambda>(w', tried, t, r).
                (w', case r of Inl f \<Rightarrow> Inl f | Inr v \<Rightarrow> Inr (execution_result_of tried t v)))
              (candidate_loop (try_execute hp adapters retries input (registry_RequestContext retries parent now))
                hp rest envs 1 \<lparr>toAttempts = rsAttempts res, toFallbacks = 1, toTrail = rsTrail res\<rparr>
                (Some (with_totals \<lparr>toAttempts = rsAttempts res, toFallbacks = 0, toTrail = rsTrail res\<rparr> f)) w1)
        else orchestrator_Execute hp adapters retries input parent now (ce # envs) w =
          Some (w1, Inl (with_totals \<lparr>toAttempts = rsAttempts res, toFallbacks = 0, toTrail = rsTrail res\<rparr> f)))"
proof -
  let ?t = "\<lparr>toAttempts = rsAttempts res, toFallbacks = 0, toTrail = rsTrail res\<rparr>"
  have try1: "try_execute hp adapters retries input (registry_RequestContext retries parent now) ce cand w =
      Some (w1, rsAttempts res, rsTrail res, Inl f)"
    using assms(2) by (simp add: try_execute_def)
  have sig: "SignalsFor (Some (with_totals ?t f)) = SignalsFor (Some f)"
    by (rule SignalsFor_fields) (simp_all add: with_totals_def)
  have cat: "fCategory (ended_failure hp n e cand ?t g) = CategoryCanceled \<or>
      fCategory (ended_failure hp n e cand ?t g) = CategoryTimeout \<and>
      fTimeout (ended_failure hp n e cand ?t g) = TimeoutRequestBudget" for n e g
    by (cases e) (simp_all add: ended_failure_def with_totals_def FromProvider_def Let_def)
  show ?thesis
  proof (cases "ceCtxErr ce")
    case None
    with assms(1) try1 sig show ?thesis
      by (simp add: orchestrator_Execute_def no_totals_def Let_def)
  next
    case (Some e)
    with assms(1) try1 cat show ?thesis
      by (simp add: orchestrator_Execute_def no_totals_def Let_def)
  qed
qed

definition canceled_env :: "unit attempt_env candidate_env" where
  "canceled_env = \<lparr>ceRounds = [(example_env ([], Some model_gone), example_wait 10)],
     ceCtxErr = Some CtxCanceled, ceNow = 11\<rparr>"

theorem orchestrator_fallback_rule_witness:
  "\<exists>w' g. orchestrator_Execute (\<lambda>s. None) example_adapters example_retries example_execution None 0
     [canceled_env] example_world = Some (w', Inl g)"
proof -
  have "map_option (\<lambda>(w, res, f). f = None) (Attempt.Execute (\<lambda>s. None) example_adapters example_retries
      (attempt_input_for example_execution old_candidate) (registry_RequestContext example_retries None 0)
      (ceRounds canceled_env) example_world) = Some False"
    by code_simp
  then obtain w1 res f where "Attempt.Execute (\<lambda>s. None) example_adapters example_retries
      (attempt_input_for example_execution old_candidate) (registry_RequestContext example_retries None 0)
      (ceRounds canceled_env) example_world = Some (w1, res, Some f)"
    by (auto simp: map_option_eq_Some)
  from orchestrator_fallback_rule [OF _ this, of "[new_candidate]" "[]"] show ?thesis
    by (auto simp: example_execution_def canceled_env_def)
qed

text \<open>
  Claim C16: a request ends. The orchestrator bounds the whole request by the retry registry's
  timeout; given one environment per candidate, each with enough rounds until that deadline,
  \<open>Execute\<close> returns a response or a failure.
\<close>

theorem orchestrator_terminates:
  assumes "length (plCandidates (exPlan input)) \<le> length envs"
    and "registry_RequestContext retries parent now = Some d"
    and "\<forall>ce \<in> set envs. list_all (adapter_honest \<circ> fst) (ceRounds ce) \<and> successively clock_follows (ceRounds ce) \<and>
      ceRounds ce \<noteq> [] \<and> (\<forall>p retry. retry_ForProvider retries p = Some retry \<longrightarrow>
        rounds_needed retry 0 d (weNow (snd (hd (ceRounds ce)))) < length (ceRounds ce))"
  shows "\<exists>w' r. orchestrator_Execute hp adapters retries input parent now envs w = Some (w', r)"
proof -
  have "\<exists>out. candidate_loop (try_execute hp adapters retries input (Some d)) hp cands es i t lf v = Some out"
    if "length cands \<le> length es" "set es \<subseteq> set envs" for cands es i t lf v
    using that
  proof (induction cands arbitrary: es i t lf v)
    case (Cons cand cands)
    then obtain ce es' where es: "es = ce # es'" by (cases es) auto
    with Cons.prems(2) have ce: "ce \<in> set envs" by simp
    have "\<exists>v' res f. Attempt.Execute hp adapters retries (attempt_input_for input cand) (Some d) (ceRounds ce) v = Some (v', res, f)"
      using assms(3) ce by (intro Execute_ends) auto
    then obtain v' n trail r where "try_execute hp adapters retries input (Some d) ce cand v = Some (v', n, trail, r)"
      by (auto simp: try_execute_def)
    with Cons es show ?case by (auto simp: Let_def split: sum.splits option.splits)
  qed simp
  from this [OF assms(1) subset_refl, of 0 no_totals None w] assms(2) show ?thesis
    by (auto simp: orchestrator_Execute_def)
qed

theorem orchestrator_terminates_witness:
  "\<exists>w' r. orchestrator_Execute (\<lambda>s. None) example_adapters example_retries example_execution (Some 9) 0
     (replicate 2 \<lparr>ceRounds = refused_rounds, ceCtxErr = None, ceNow = 50\<rparr>) example_world = Some (w', r)"
proof (rule orchestrator_terminates)
  show "registry_RequestContext example_retries (Some 9) 0 = Some 9"
    by (simp add: registry_RequestContext_def with_timeout_def example_retries_def duration_defs)
  have "retry = \<lparr>rpConfig = DefaultRetryConfig\<rparr>" if "retry_ForProvider example_retries p = Some retry" for p retry
    using that by (auto simp: retry_ForProvider_def example_retries_def split: if_splits)
  then show "\<forall>ce \<in> set (replicate 2 \<lparr>ceRounds = refused_rounds, ceCtxErr = None, ceNow = 50\<rparr>).
      list_all (adapter_honest \<circ> fst) (ceRounds ce) \<and> successively clock_follows (ceRounds ce) \<and>
      ceRounds ce \<noteq> [] \<and> (\<forall>p retry. retry_ForProvider example_retries p = Some retry \<longrightarrow>
        rounds_needed retry 0 9 (weNow (snd (hd (ceRounds ce)))) < length (ceRounds ce))"
    by (fastforce simp: refused_rounds_def clock_follows_def example_wait_def adapter_honest_def adapter_error_ok_def
        example_env_def unauthorized_def rounds_needed_def example_policy)
qed (simp add: example_execution_def)

end
