(* ===== verification/EventStream.thy ===== *)
theory EventStream
  imports Failure
begin

text \<open>
  The upstream event stream: \<open>internal/provider/stream.go\<close>, with the frame
  \<open>writeChatStreamEvent\<close> of \<open>internal/httpapi/chat.go\<close> puts around a payload. The body is
  the bytes the upstream will have sent and the error the connection reports when they are
  used up (\<open>io.EOF\<close> for a complete response). The JSON checks of \<open>validateCompatibleChatChunk\<close>
  are the parameter \<open>chunkError\<close>. The activity channel only resets a timer and is left out.
\<close>

section \<open>Data\<close>

definition streamReaderBufferBytes :: int where "streamReaderBufferBytes = 65536"
definition maxStreamLineBytes :: int where "maxStreamLineBytes = 1048576"
definition maxStreamEventBytes :: int where "maxStreamEventBytes = 2097152"

lemmas stream_limits = streamReaderBufferBytes_def maxStreamLineBytes_def maxStreamEventBytes_def

record stream_event =
  evData :: string
  evDone :: bool

definition no_event :: stream_event where
  "no_event = \<lparr>evData = [], evDone = False\<rparr>"

record event_stream =
  esBody :: string
  esEnd :: goerr
  esOpen :: bool
  esFinished :: bool

definition newChatEventStream :: "(string \<times> goerr) option \<Rightarrow> goerr + event_stream" where
  "newChatEventStream body =
     (case body of
        None \<Rightarrow> Inl (ErrSentinel ErrInvalidStream)
      | Some (bytes, end_err) \<Rightarrow>
          Inr \<lparr>esBody = bytes, esEnd = end_err, esOpen = True, esFinished = False\<rparr>)"

section \<open>Lines\<close>

text \<open>
  \<open>bufio.Reader.ReadSlice('\n')\<close> with a buffer of the given size: up to the delimiter, a full
  buffer without one, or what is left before the error at the end.
\<close>

datatype slice_status = SliceDelim | SliceFull | SliceEnd

fun read_slice :: "int \<Rightarrow> string \<Rightarrow> string \<times> string \<times> slice_status" where
  "read_slice room [] = ([], [], if room \<le> 0 then SliceFull else SliceEnd)"
| "read_slice room (c # cs) =
     (if room \<le> 0 then ([], c # cs, SliceFull)
      else if c = CHR 0x0A then ([c], cs, SliceDelim)
      else case read_slice (room - 1) cs of (fragment, rest, status) \<Rightarrow> (c # fragment, rest, status))"

lemma read_slice_append: "read_slice room xs = (fragment, rest, status) \<Longrightarrow> xs = fragment @ rest"
  by (induction room xs arbitrary: fragment rest status rule: read_slice.induct)
    (auto split: if_splits prod.splits)

lemma read_slice_status:
  "read_slice room xs = (fragment, rest, status) \<Longrightarrow>
     (status = SliceFull \<longrightarrow> int (length fragment) = max 0 room) \<and> (status = SliceDelim \<longrightarrow> fragment \<noteq> [])"
  by (induction room xs arbitrary: fragment rest status rule: read_slice.induct)
    (fastforce split: if_splits prod.splits)+

lemma read_slice_full_shorter:
  assumes "read_slice streamReaderBufferBytes xs = (fragment, rest, SliceFull)"
  shows "length rest < length xs"
  using read_slice_append [OF assms] read_slice_status [OF assms] by (auto simp: streamReaderBufferBytes_def)

definition trim_suffix :: "char \<Rightarrow> string \<Rightarrow> string" where
  "trim_suffix c line = (if line \<noteq> [] \<and> last line = c then butlast line else line)"

definition trimStreamLineEnding :: "string \<Rightarrow> string" where
  "trimStreamLineEnding line = trim_suffix (CHR 0x0D) (trim_suffix (CHR 0x0A) line)"

function read_line_loop :: "goerr \<Rightarrow> string \<Rightarrow> string \<Rightarrow> string \<times> (goerr + string)" where
  "read_line_loop end_err line xs =
     (case read_slice streamReaderBufferBytes xs of
        (fragment, rest, status) \<Rightarrow>
          if int (length line) + int (length fragment) > maxStreamLineBytes + 1
          then (rest, Inl (ErrSentinel ErrResponseTooLarge))
          else
            (let line' = line @ fragment in
             case status of
               SliceDelim \<Rightarrow> (rest, Inr (trimStreamLineEnding line'))
             | SliceFull \<Rightarrow> read_line_loop end_err line' rest
             | SliceEnd \<Rightarrow>
                 if errors_is end_err IoEOF \<and> line' \<noteq> [] then (rest, Inr (trimStreamLineEnding line'))
                 else (rest, Inl end_err)))"
  by pat_completeness auto
termination
  by (relation "measure (\<lambda>(e, line, xs). length xs)") (auto dest!: sym [of _ "read_slice _ _"] read_slice_full_shorter)

declare read_line_loop.simps [simp del]

definition readStreamLine :: "goerr \<Rightarrow> string \<Rightarrow> string \<times> (goerr + string)" where
  "readStreamLine end_err xs = read_line_loop end_err [] xs"

definition splitStreamField :: "string \<Rightarrow> string \<times> string" where
  "splitStreamField line =
     (case dropWhile (\<lambda>c. c \<noteq> CHR '':'') line of
        [] \<Rightarrow> (line, [])
      | colon # value \<Rightarrow>
          (takeWhile (\<lambda>c. c \<noteq> CHR '':'') line,
           if value \<noteq> [] \<and> hd value = CHR '' '' then tl value else value))"

lemma read_line_loop_shorter:
  "read_line_loop end_err line xs = (rest, Inr l) \<Longrightarrow> length rest < length xs + length line"
proof (induction end_err line xs rule: read_line_loop.induct)
  case (1 end_err line xs)
  obtain fragment r status where s: "read_slice streamReaderBufferBytes xs = (fragment, r, status)"
    using prod_cases3 by blast
  have A: "length xs = length fragment + length r" using read_slice_append [OF s] by simp
  note B = read_slice_status [OF s]
  have eq: "read_line_loop end_err line xs = (rest, Inr l)" by fact
  show ?case
  proof (cases status)
    case SliceFull
    with eq s have "read_line_loop end_err (line @ fragment) r = (rest, Inr l)"
      and small: "\<not> int (length line) + int (length fragment) > maxStreamLineBytes + 1"
      by (auto simp: read_line_loop.simps [of end_err line xs] Let_def split: if_splits)
    with "1.IH" [OF s [symmetric] refl small refl SliceFull] A show ?thesis by simp
  qed (use eq s A B in \<open>auto simp: read_line_loop.simps [of end_err line xs] Let_def split: if_splits\<close>)
qed

lemma read_line_loop_shrinks: "length (fst (read_line_loop end_err line xs)) \<le> length xs"
proof (induction end_err line xs rule: read_line_loop.induct)
  case (1 end_err line xs)
  obtain fragment r status where s: "read_slice streamReaderBufferBytes xs = (fragment, r, status)"
    using prod_cases3 by blast
  have A: "length r \<le> length xs" using read_slice_append [OF s] by simp
  with 1 s show ?case
    by (cases status) (fastforce simp: read_line_loop.simps [of end_err line xs] Let_def)+
qed

lemma readStreamLine_shrinks: "readStreamLine end_err xs = (rest, r) \<Longrightarrow> length rest \<le> length xs"
  using read_line_loop_shrinks [of end_err "[]" xs] by (simp add: readStreamLine_def)

lemma readStreamLine_shorter: "readStreamLine end_err xs = (rest, Inr l) \<Longrightarrow> length rest < length xs"
  using read_line_loop_shorter [of end_err "[]" xs rest l] by (simp add: readStreamLine_def)

section \<open>Events\<close>

definition decodeEvent ::
  "(string \<Rightarrow> goerr option) \<Rightarrow> string \<Rightarrow> event_stream \<Rightarrow> event_stream \<times> stream_event \<times> goerr option" where
  "decodeEvent chunkError raw s =
     (let data = trim_space raw in
      if data = ''[DONE]'' then (s\<lparr>esFinished := True\<rparr>, \<lparr>evData = [], evDone = True\<rparr>, None)
      else case chunkError data of
             Some err \<Rightarrow> (s, no_event, Some err)
           | None \<Rightarrow> (s, \<lparr>evData = data, evDone = False\<rparr>, None))"

function next_loop ::
  "(string \<Rightarrow> goerr option) \<Rightarrow> string \<Rightarrow> event_stream \<Rightarrow> event_stream \<times> stream_event \<times> goerr option" where
  "next_loop chunkError data s =
     (case readStreamLine (esEnd s) (esBody s) of
        (rest, Inl err) \<Rightarrow>
          (let s1 = s\<lparr>esBody := rest\<rparr> in
           if errors_is err IoEOF \<and> data \<noteq> [] then decodeEvent chunkError data s1
           else (s1, no_event, Some err))
      | (rest, Inr line) \<Rightarrow>
          (let s1 = s\<lparr>esBody := rest\<rparr> in
           if line = [] then
             (if data = [] then next_loop chunkError data s1 else decodeEvent chunkError data s1)
           else if hd line = CHR '':'' then next_loop chunkError data s1
           else
             (case splitStreamField line of
                (field, value) \<Rightarrow>
                  if field \<noteq> ''data'' then next_loop chunkError data s1
                  else
                    (let additional = int (length value) + (if data \<noteq> [] then 1 else 0) in
                     if int (length data) + additional > maxStreamEventBytes
                     then (s1, no_event, Some (ErrSentinel ErrResponseTooLarge))
                     else next_loop chunkError (if data \<noteq> [] then data @ [CHR 0x0A] @ value else value) s1))))"
  by pat_completeness auto
termination
  by (relation "measure (\<lambda>(v, data, s). length (esBody s))")
    (auto dest!: sym [of _ "readStreamLine _ _"] readStreamLine_shorter)

declare next_loop.simps [simp del]

definition events_Next ::
  "(string \<Rightarrow> goerr option) \<Rightarrow> event_stream \<Rightarrow> event_stream \<times> stream_event \<times> goerr option" where
  "events_Next chunkError s =
     (if \<not> esOpen s \<or> esFinished s then (s, no_event, Some (ErrSentinel IoEOF))
      else next_loop chunkError [] s)"

definition events_Close :: "event_stream \<Rightarrow> event_stream" where
  "events_Close s = (if \<not> esOpen s then s else s\<lparr>esFinished := True, esOpen := False\<rparr>)"

text \<open>The frame the gateway writes around the payload of an event.\<close>

definition chat_frame :: "string \<Rightarrow> string" where
  "chat_frame payload = ''data: '' @ payload @ [CHR 0x0A, CHR 0x0A]"

text \<open>Code equations that unfold only on a known body, for evaluation.\<close>

lemma read_line_loop_code [code]:
  "read_line_loop e line [] = (if int (length line) > maxStreamLineBytes + 1 then ([], Inl (ErrSentinel ErrResponseTooLarge))
     else if errors_is e IoEOF \<and> line \<noteq> [] then ([], Inr (trimStreamLineEnding line)) else ([], Inl e))"
  "read_line_loop e line (c # cs) =
     (case read_slice streamReaderBufferBytes (c # cs) of
        (fragment, rest, status) \<Rightarrow>
          if int (length line) + int (length fragment) > maxStreamLineBytes + 1
          then (rest, Inl (ErrSentinel ErrResponseTooLarge))
          else
            (let line' = line @ fragment in
             case status of
               SliceDelim \<Rightarrow> (rest, Inr (trimStreamLineEnding line'))
             | SliceFull \<Rightarrow> read_line_loop e line' rest
             | SliceEnd \<Rightarrow>
                 if errors_is e IoEOF \<and> line' \<noteq> [] then (rest, Inr (trimStreamLineEnding line'))
                 else (rest, Inl e)))"
  by (simp_all only: read_line_loop.simps [of e line]) (simp add: stream_limits)

lemma next_loop_code [code]:
  "next_loop chunkError data \<lparr>esBody = [], esEnd = e, esOpen = p, esFinished = q\<rparr> =
     (let s = \<lparr>esBody = [], esEnd = e, esOpen = p, esFinished = q\<rparr> in
      if errors_is e IoEOF \<and> data \<noteq> [] then decodeEvent chunkError data s else (s, no_event, Some e))"
  "next_loop chunkError data \<lparr>esBody = c # cs, esEnd = e, esOpen = p, esFinished = q\<rparr> =
     (case readStreamLine e (c # cs) of
        (rest, Inl err) \<Rightarrow>
          (let s1 = \<lparr>esBody = rest, esEnd = e, esOpen = p, esFinished = q\<rparr> in
           if errors_is err IoEOF \<and> data \<noteq> [] then decodeEvent chunkError data s1
           else (s1, no_event, Some err))
      | (rest, Inr line) \<Rightarrow>
          (let s1 = \<lparr>esBody = rest, esEnd = e, esOpen = p, esFinished = q\<rparr> in
           if line = [] then
             (if data = [] then next_loop chunkError data s1 else decodeEvent chunkError data s1)
           else if hd line = CHR '':'' then next_loop chunkError data s1
           else
             (case splitStreamField line of
                (field, value) \<Rightarrow>
                  if field \<noteq> ''data'' then next_loop chunkError data s1
                  else
                    (let additional = int (length value) + (if data \<noteq> [] then 1 else 0) in
                     if int (length data) + additional > maxStreamEventBytes
                     then (s1, no_event, Some (ErrSentinel ErrResponseTooLarge))
                     else next_loop chunkError (if data \<noteq> [] then data @ [CHR 0x0A] @ value else value) s1))))"
proof -
  have "readStreamLine e [] = ([], Inl e)"
    by (simp add: readStreamLine_def read_line_loop_code(1) stream_limits)
  then show "next_loop chunkError data \<lparr>esBody = [], esEnd = e, esOpen = p, esFinished = q\<rparr> =
     (let s = \<lparr>esBody = [], esEnd = e, esOpen = p, esFinished = q\<rparr> in
      if errors_is e IoEOF \<and> data \<noteq> [] then decodeEvent chunkError data s else (s, no_event, Some e))"
    by (simp add: next_loop.simps [of chunkError data "\<lparr>esBody = [], esEnd = e, esOpen = p, esFinished = q\<rparr>"] Let_def)
qed (subst next_loop.simps, simp only: event_stream.select_convs event_stream.update_convs)

lemma events_Close_closed [simp]: "\<not> esOpen (events_Close u)"
  by (simp add: events_Close_def)

section \<open>Lines are read whole\<close>

lemma read_slice_line:
  "CHR 0x0A \<notin> set l \<Longrightarrow> read_slice room (l @ CHR 0x0A # rest) =
     (if int (length l) < room then (l @ [CHR 0x0A], rest, SliceDelim)
      else (take (nat room) l, drop (nat room) l @ CHR 0x0A # rest, SliceFull))"
proof (induction l arbitrary: room)
  case (Cons c l)
  then have "nat room = Suc (nat (room - 1))" if "0 < room" using that by simp
  with Cons show ?case by auto
qed auto

lemma read_slice_tail:
  "CHR 0x0A \<notin> set l \<Longrightarrow> read_slice room l =
     (if int (length l) < room then (l, [], SliceEnd) else (take (nat room) l, drop (nat room) l, SliceFull))"
proof (induction l arbitrary: room)
  case (Cons c l)
  then have "nat room = Suc (nat (room - 1))" if "0 < room" using that by simp
  with Cons show ?case by auto
qed auto

lemma trim_suffix_snoc [simp]: "trim_suffix c (l @ [c]) = l" "trim_suffix c [] = []"
  by (simp_all add: trim_suffix_def)

lemma read_line_loop_line:
  assumes "CHR 0x0A \<notin> set l"
  shows "if int (length line) + int (length l) \<le> maxStreamLineBytes
     then read_line_loop e line (l @ CHR 0x0A # rest) = (rest, Inr (trimStreamLineEnding (line @ l @ [CHR 0x0A])))
     else snd (read_line_loop e line (l @ CHR 0x0A # rest)) = Inl (ErrSentinel ErrResponseTooLarge)"
  using assms
proof (induction "length l" arbitrary: line l rule: less_induct)
  case less
  show ?case
  proof (cases "int (length l) < streamReaderBufferBytes")
    case True
    with less.prems show ?thesis
      by (simp add: read_line_loop.simps [of e line] read_slice_line)
  next
    case False
    let ?n = "nat streamReaderBufferBytes"
    have n: "0 < ?n" "?n \<le> length l" using False by (auto simp: streamReaderBufferBytes_def)
    have "CHR 0x0A \<notin> set (drop ?n l)" using less.prems by (meson in_set_dropD)
    note IH = less.hyps [of "drop ?n l" "line @ take ?n l", OF _ this]
    have cut: "take ?n l @ drop ?n l @ zs = l @ zs" for zs by (metis append_assoc append_take_drop_id)
    show ?thesis
      using IH n less.prems False
      by (auto simp: read_line_loop.simps [of e line] read_slice_line Let_def cut split: if_splits)
  qed
qed

lemma readStreamLine_line:
  assumes "CHR 0x0A \<notin> set l" and "int (length l) \<le> maxStreamLineBytes"
  shows "readStreamLine e (l @ CHR 0x0A # rest) = (rest, Inr (trim_suffix (CHR 0x0D) l))"
  using read_line_loop_line [OF assms(1), of "[]" e rest] assms(2)
  by (simp add: readStreamLine_def trimStreamLineEnding_def)

section \<open>Frames are read back\<close>

lemma trim_space_last: "trim_space p = p \<Longrightarrow> p \<noteq> [] \<Longrightarrow> last p \<noteq> CHR 0x0D"
proof
  assume trim: "trim_space p = p" and p: "p \<noteq> []" "last p = CHR 0x0D"
  define u where "u = trim_runes (map rev space_runes) (rev (trim_runes space_runes p))"
  have "u = rev p" using trim unfolding trim_space_def u_def by (metis rev_rev_ident)
  then have "prefix [CHR 0x0D] u" using p by (cases p rule: rev_cases) auto
  moreover have "[CHR 0x0D] \<in> set (map rev space_runes)" by (simp add: space_runes_def)
  ultimately show False
    using cut_rune_trim [of "map rev space_runes" "rev (trim_runes space_runes p)", folded u_def]
    unfolding cut_rune_None by blast
qed

text \<open>A payload that fits one line: trimmed, as \<open>json.Compact\<close> and \<open>[DONE]\<close> are, and without a newline.\<close>

definition payload_ok :: "string \<Rightarrow> bool" where
  "payload_ok p \<longleftrightarrow> p \<noteq> [] \<and> trim_space p = p \<and> CHR 0x0A \<notin> set p \<and> int (length p) + 6 \<le> maxStreamLineBytes"

lemma next_loop_frame:
  assumes "payload_ok p"
  shows "next_loop chunkError [] (s\<lparr>esBody := chat_frame p @ rest\<rparr>) =
    decodeEvent chunkError p (s\<lparr>esBody := rest\<rparr>)"
proof -
  have p: "p \<noteq> []" "CHR 0x0A \<notin> set p" "int (length p) + 6 \<le> maxStreamLineBytes" "last p \<noteq> CHR 0x0D"
    using assms trim_space_last by (auto simp: payload_ok_def)
  have line: "readStreamLine (esEnd s) (chat_frame p @ rest) = (CHR 0x0A # rest, Inr (''data: '' @ p))"
    using readStreamLine_line [of "''data: '' @ p" "esEnd s" "CHR 0x0A # rest"] p
    by (simp add: chat_frame_def trim_suffix_def)
  have blank: "readStreamLine (esEnd s) (CHR 0x0A # rest) = (rest, Inr [])"
    using readStreamLine_line [of "[]" "esEnd s" rest] by (simp add: stream_limits)
  have split: "splitStreamField (''data: '' @ p) = (''data'', p)" by (simp add: splitStreamField_def)
  show ?thesis
    using p line blank split
    by (simp add: next_loop.simps [of chunkError "[]" "s\<lparr>esBody := chat_frame p @ rest\<rparr>"]
        next_loop.simps [of chunkError p "s\<lparr>esBody := CHR 0x0A # rest\<rparr>"] stream_limits)
qed

fun read_events ::
  "(string \<Rightarrow> goerr option) \<Rightarrow> nat \<Rightarrow> event_stream \<Rightarrow> (stream_event \<times> goerr option) list" where
  "read_events chunkError 0 s = []"
| "read_events chunkError (Suc n) s =
     (case events_Next chunkError s of (s', ev, err) \<Rightarrow> (ev, err) # read_events chunkError n s')"

definition opened_stream :: "string \<Rightarrow> event_stream" where
  "opened_stream body = \<lparr>esBody = body, esEnd = ErrSentinel IoEOF, esOpen = True, esFinished = False\<rparr>"

lemma read_events_finished:
  "esFinished s \<Longrightarrow> read_events chunkError n s = replicate n (no_event, Some (ErrSentinel IoEOF))"
  by (induction n) (simp_all add: events_Next_def)

lemma events_Next_frame:
  "payload_ok p \<Longrightarrow> events_Next chunkError (opened_stream (chat_frame p @ rest)) =
     decodeEvent chunkError p (opened_stream rest)"
  using next_loop_frame [where s = "opened_stream []" and rest = rest] by (simp add: events_Next_def opened_stream_def)

lemma payload_trim: "payload_ok p \<Longrightarrow> trim_space p = p"
  by (simp add: payload_ok_def)

lemma done_payload: "payload_ok ''[DONE]''"
proof -
  have "trim_space ''[DONE]'' = ''[DONE]''" by code_simp
  then show ?thesis by (simp add: payload_ok_def stream_limits)
qed

text \<open>
  Frames of accepted one-line payloads are read back as these events in order, then the end marker,
  and after it \<open>io.EOF\<close> for ever, whatever bytes follow.
\<close>

lemma stream_frames_read:
  assumes "\<forall>p \<in> set payloads. payload_ok p \<and> p \<noteq> ''[DONE]'' \<and> chunkError p = None"
  shows "read_events chunkError (length payloads + 1 + k)
      (opened_stream (concat (map chat_frame payloads) @ chat_frame ''[DONE]'' @ junk)) =
    map (\<lambda>p. (\<lparr>evData = p, evDone = False\<rparr>, None)) payloads @ (\<lparr>evData = [], evDone = True\<rparr>, None) #
      replicate k (no_event, Some (ErrSentinel IoEOF))"
  using assms
proof (induction payloads)
  case Nil
  then show ?case
    using events_Next_frame [OF done_payload, of chunkError junk] payload_trim [OF done_payload]
    by (simp add: decodeEvent_def read_events_finished)
next
  case (Cons p payloads)
  then show ?case
    using events_Next_frame [of p chunkError "concat (map chat_frame payloads) @ chat_frame ''[DONE]'' @ junk"]
    by (simp add: decodeEvent_def payload_trim)
qed

section \<open>What an event carries\<close>

lemma decodeEvent_ok:
  assumes "decodeEvent chunkError raw s = (s', ev, None)"
  shows "esBody s' = esBody s \<and> evDone ev = (trim_space raw = ''[DONE]'') \<and> (esFinished s' \<longleftrightarrow> esFinished s \<or> evDone ev) \<and>
    (\<not> evDone ev \<longrightarrow> evData ev = trim_space raw \<and> chunkError (evData ev) = None)"
  using assms by (auto simp: decodeEvent_def Let_def split: if_splits option.splits)

lemma next_loop_ok:
  "next_loop chunkError data s = (s', ev, None) \<Longrightarrow> int (length data) \<le> maxStreamEventBytes \<Longrightarrow>
     length (esBody s') \<le> length (esBody s) \<and> (data = [] \<longrightarrow> length (esBody s') < length (esBody s)) \<and>
     (esFinished s' \<longleftrightarrow> esFinished s \<or> evDone ev) \<and>
     (\<not> evDone ev \<longrightarrow> chunkError (evData ev) = None \<and> int (length (evData ev)) \<le> maxStreamEventBytes)"
proof (induction "length (esBody s)" arbitrary: data s rule: less_induct)
  case less
  obtain rest r where line: "readStreamLine (esEnd s) (esBody s) = (rest, r)" by fastforce
  let ?s = "s\<lparr>esBody := rest\<rparr>"
  note run = less.prems(1) [unfolded next_loop.simps [of chunkError data s], unfolded line, simplified]
  have decode: ?case if "decodeEvent chunkError data ?s = (s', ev, None)" "data \<noteq> []"
    using decodeEvent_ok [OF that(1)] that less.prems(2) trim_space_length [of data] readStreamLine_shrinks [OF line]
    by auto
  show ?case
  proof (cases r)
    case (Inl err)
    with run decode show ?thesis by (auto simp: Let_def split: if_splits)
  next
    case (Inr l)
    have shorter: "length (esBody ?s) < length (esBody s)" using readStreamLine_shorter line Inr by simp
    have again: ?thesis if "next_loop chunkError d ?s = (s', ev, None)" "int (length d) \<le> maxStreamEventBytes" for d
      using less.hyps [OF shorter that] shorter by auto
    obtain field v where fv: "splitStreamField l = (field, v)" by fastforce
    show ?thesis
      using run Inr fv decode again less.prems(2) by (simp add: Let_def split: if_splits)
  qed
qed

lemma events_Next_ok:
  assumes "events_Next chunkError s = (s', ev, None)"
  shows "length (esBody s') < length (esBody s) \<and> (esFinished s' \<longleftrightarrow> evDone ev) \<and>
    (\<not> evDone ev \<longrightarrow> chunkError (evData ev) = None \<and> int (length (evData ev)) \<le> maxStreamEventBytes)"
  using assms next_loop_ok [of chunkError "[]" s s' ev]
  by (auto simp: events_Next_def stream_limits split: if_splits)

text \<open>The errors \<open>Next\<close> can return.\<close>

lemma read_line_loop_error:
  "read_line_loop e line xs = (rest, Inl err) \<Longrightarrow> err = e \<or> err = ErrSentinel ErrResponseTooLarge"
proof (induction e line xs rule: read_line_loop.induct)
  case (1 e line xs)
  obtain fragment r status where s: "read_slice streamReaderBufferBytes xs = (fragment, r, status)"
    using prod_cases3 by blast
  with 1 show ?case
    by (cases status) (auto simp: read_line_loop.simps [of e line xs] Let_def split: if_splits)
qed

definition stream_error :: "(string \<Rightarrow> goerr option) \<Rightarrow> goerr \<Rightarrow> goerr \<Rightarrow> bool" where
  "stream_error chunkError end_err err \<longleftrightarrow> err = end_err \<or> err = ErrSentinel IoEOF \<or>
     err = ErrSentinel ErrResponseTooLarge \<or> (\<exists>data. chunkError data = Some err)"

lemma next_loop_error:
  "next_loop chunkError data s = (s', ev, Some err) \<Longrightarrow> stream_error chunkError (esEnd s) err"
proof (induction "length (esBody s)" arbitrary: data s rule: less_induct)
  case less
  obtain rest r where line: "readStreamLine (esEnd s) (esBody s) = (rest, r)" by fastforce
  let ?s = "s\<lparr>esBody := rest\<rparr>"
  note run = less.prems(1) [unfolded next_loop.simps [of chunkError data s], unfolded line, simplified]
  have decode: ?case if "decodeEvent chunkError data ?s = (s', ev, Some err)"
    using that by (auto simp: decodeEvent_def stream_error_def Let_def split: if_splits option.splits)
  show ?case
  proof (cases r)
    case (Inl e)
    with line have "e = esEnd s \<or> e = ErrSentinel ErrResponseTooLarge"
      by (auto simp: readStreamLine_def dest: read_line_loop_error)
    with run Inl decode show ?thesis by (auto simp: stream_error_def Let_def split: if_splits)
  next
    case (Inr l)
    have shorter: "length (esBody ?s) < length (esBody s)" using readStreamLine_shorter line Inr by simp
    have again: ?thesis if "next_loop chunkError d ?s = (s', ev, Some err)" for d
      using less.hyps [OF shorter that] by simp
    have large: "stream_error chunkError (esEnd s) (ErrSentinel ErrResponseTooLarge)" by (simp add: stream_error_def)
    obtain field v where fv: "splitStreamField l = (field, v)" by fastforce
    show ?thesis
      using run Inr fv decode again large by (auto simp: Let_def split: if_splits)
  qed
qed

lemma events_Next_error:
  "events_Next chunkError s = (s', ev, Some err) \<Longrightarrow> stream_error chunkError (esEnd s) err"
  by (auto simp: events_Next_def stream_error_def split: if_splits dest: next_loop_error [unfolded stream_error_def])

section \<open>Properties\<close>

text \<open>
  The event reader finds every line whole. However the line falls on the 64 KiB buffer of
  the connection, a line of at most 1 MiB is returned without its line ending and with the
  rest of the body untouched, and a longer one is refused as too large.
\<close>

theorem stream_line_exact:
  assumes "CHR 0x0A \<notin> set l"
  shows "if int (length l) \<le> maxStreamLineBytes
     then readStreamLine e (l @ CHR 0x0A # rest) = (rest, Inr (trim_suffix (CHR 0x0D) l))
     else snd (readStreamLine e (l @ CHR 0x0A # rest)) = Inl (ErrSentinel ErrResponseTooLarge)"
  using read_line_loop_line [OF assms, of "[]" e rest] by (simp add: readStreamLine_def trimStreamLineEnding_def)

theorem stream_line_exact_witness:
  "readStreamLine (ErrSentinel IoEOF) (''data: x'' @ CHR 0x0A # ''y'') = (''y'', Inr ''data: x'')"
  using stream_line_exact [of "''data: x''" "ErrSentinel IoEOF" "''y''"] by (simp add: stream_limits trim_suffix_def)

text \<open>
  An event is bounded and checked. Whatever the upstream sends, an event the reader
  returns without error passed the chunk check and is at most 2 MiB long, reading it consumed
  part of the body, and the stream is finished exactly when it was the end marker.
\<close>

theorem stream_event_bounded:
  assumes "events_Next chunkError s = (s', ev, None)"
  shows "length (esBody s') < length (esBody s) \<and> (esFinished s' \<longleftrightarrow> evDone ev) \<and>
    (\<not> evDone ev \<longrightarrow> chunkError (evData ev) = None \<and> int (length (evData ev)) \<le> maxStreamEventBytes)"
  using assms by (rule events_Next_ok)

theorem stream_event_bounded_witness:
  "\<exists>s'. events_Next (\<lambda>p. None) (opened_stream (chat_frame ''{}'')) = (s', \<lparr>evData = ''{}'', evDone = False\<rparr>, None) \<and>
     length (esBody s') < 10"
proof -
  have t: "trim_space ''{}'' = ''{}''" by code_simp
  then have "payload_ok ''{}''" by (simp add: payload_ok_def stream_limits)
  from events_Next_frame [OF this, of "\<lambda>p. None" "[]"] t
  have run: "events_Next (\<lambda>p. None) (opened_stream (chat_frame ''{}'')) =
      (opened_stream [], \<lparr>evData = ''{}'', evDone = False\<rparr>, None)"
    by (simp add: decodeEvent_def)
  from stream_event_bounded [OF run] have "length (esBody (opened_stream [])) < 10"
    by (simp add: opened_stream_def chat_frame_def)
  with run show ?thesis by blast
qed

end
