(* ===== verification/StreamAttempt.thy ===== *)
theory StreamAttempt
  imports Orchestrator EventStream
begin

text \<open>
  Streaming requests: \<open>internal/reliability/stream_attempt.go\<close> and \<open>OpenStream\<close> of
  \<open>orchestrator.go\<close>. Until the first content event has arrived, a stream is retried and falls
  back like any other request; then the permit, the lease and the key are handed to a
  \<open>PreparedStream\<close>, which returns them when it is finished, once. The events the upstream
  yields, the case a \<open>select\<close> took and the clocks are the environment.
\<close>

section \<open>Data\<close>

record prepared_stream =
  psFirstEvent :: stream_event
  psProviderID :: string
  psUpstreamModel :: string
  psKeyID :: string
  psCandidate :: int
  psAttempts :: int
  psFallbacks :: int
  psCandidatesTried :: int
  psTrail :: "attempt_record list"
  psStream :: event_stream
  psPermit :: permit
  psLease :: queue_lease
  psKey :: "key_selection option"
  psIdleTime :: duration
  psStarted :: time
  psFinished :: bool
  psDone :: bool
  psTerminal :: "(failure option \<times> duration) option"

section \<open>The first event\<close>

text \<open>The background goroutine: open the stream, then read one event.\<close>

definition open_and_read ::
  "(string \<Rightarrow> goerr option) \<Rightarrow> event_stream option \<times> goerr option \<Rightarrow> event_stream option \<times> stream_event \<times> goerr option" where
  "open_and_read chunkError opened =
     (case opened of
        (u, Some err) \<Rightarrow> (None, no_event, Some err)
      | (None, None) \<Rightarrow> (None, no_event, Some (ErrSentinel IoEOF))
      | (Some u, None) \<Rightarrow> (case events_Next chunkError u of (u', ev, err) \<Rightarrow> (Some u', ev, err)))"

datatype first_case = FirstResult "ctx_err option" time | FirstWaitDone ctx_err | FirstTimer

definition openFirstStreamEvent ::
  "(string \<Rightarrow> goerr option) \<Rightarrow> first_case \<Rightarrow> time \<Rightarrow> event_stream option \<times> goerr option \<Rightarrow> (goerr \<times> event_stream option) + (event_stream \<times> stream_event)" where
  "openFirstStreamEvent chunkError choice deadline opened =
     (case open_and_read chunkError opened of
        (u, ev, err) \<Rightarrow>
          (let closed = map_option events_Close u in
           case choice of
             FirstResult (Some e) completedAt \<Rightarrow> Inl (ctx_goerr e, closed)
           | FirstResult None completedAt \<Rightarrow>
               if \<not> completedAt < deadline then Inl (ErrSentinel ContextDeadlineExceeded, closed)
               else (case (err, u) of
                       (None, Some s) \<Rightarrow>
                         if \<not> evDone ev then Inr (s, ev)
                         else Inl (ErrWrap [ErrSentinel ErrInvalidStream], closed)
                     | (None, None) \<Rightarrow> Inl (ErrWrap [ErrSentinel ErrInvalidStream], closed)
                     | (Some e, _) \<Rightarrow>
                         if errors_is e IoEOF then Inl (ErrWrap [ErrSentinel ErrInvalidStream], closed)
                         else Inl (e, closed))
           | FirstWaitDone e \<Rightarrow> Inl (ctx_goerr e, closed)
           | FirstTimer \<Rightarrow> Inl (ErrSentinel ContextDeadlineExceeded, closed)))"

section \<open>One attempt to open a stream\<close>

record 'req stream_env = base_env +
  seOpen :: "'req chat_input \<Rightarrow> string \<Rightarrow> event_stream option \<times> goerr option"
  seChoice :: first_case
  seNowOpen :: time

definition prepareStreamOnce ::
  "(string \<Rightarrow> goerr option) \<Rightarrow> (string \<Rightarrow> time option) \<Rightarrow> (string \<rightharpoonup> authentication \<times> bool) \<Rightarrow> 'req attempt_input \<Rightarrow> retry_policy
     \<Rightarrow> 'req stream_env \<Rightarrow> int \<Rightarrow> string \<Rightarrow> string set \<Rightarrow> world \<Rightarrow> world \<times> prepared_stream option outcome" where
  "prepareStreamOnce chunkError httpParseTime adapters input retry env attempt preferredKeyID excludedKeyIDs w =
     (let cand = aiCandidate input; p = caProviderID cand in
      case adapters (trim_space p) of
        None \<Rightarrow> (w, refused None (Some (unknown_adapter cand attempt)))
      | Some (auth, streaming) \<Rightarrow>
          if \<not> streaming then
            (w, refused None (FromProvider httpParseTime (aeNowClassify env) (aeCtxErr env) p (caPriority cand)
                  attempt (Some (ErrSentinel ErrUnsupportedCapability))))
          else
            (case admit env cand auth attempt preferredKeyID excludedKeyIDs w of
               (w1, Inl f) \<Rightarrow> (w1, refused None (Some f))
             | (w1, Inr (permit, lease, selectedKey)) \<Rightarrow>
                 (let apiKey = world_Secret selectedKey w1;
                      startedAt = aeNowAttempt env;
                      result = openFirstStreamEvent chunkError (seChoice env)
                                 (seNowOpen env + policy_AttemptTimeout (Some retry))
                                 (seOpen env (chat_input_of input) apiKey);
                      w2 = aeOthers env 3 w1;
                      keyID = (case selectedKey of None \<Rightarrow> [] | Some k \<Rightarrow> seKeyID k)
                  in case result of
                       Inl (err, u) \<Rightarrow>
                         (let failure0 = FromProvider httpParseTime (aeNowClassify env) (aeCtxErr env) p
                                           (caPriority cand) attempt (Some err);
                              failure = (if selectedKey = None then failure0 else map_option (set_key keyID) failure0);
                              w3 = world_CompleteKey (aeNowKey env) failure selectedKey w2;
                              (w4, permit') = world_Complete (aeNowBreaker env) p failure permit w3;
                              w5 = world_Abandon p permit' (world_Release p lease (aeOthers env 4 w4))
                          in (w5, \<lparr>ocValue = None, ocFailure = failure, ocKeyID = keyID,
                                   ocAttempted = counts_as_attempt (Some err), ocDuration = aeDuration env\<rparr>))
                     | Inr (u, firstEvent) \<Rightarrow>
                         (w2, \<lparr>ocValue = Some \<lparr>psFirstEvent = firstEvent, psProviderID = p,
                                 psUpstreamModel = caUpstreamModel cand, psKeyID = keyID, psCandidate = caPriority cand,
                                 psAttempts = 0, psFallbacks = 0, psCandidatesTried = 0, psTrail = [],
                                 psStream = u, psPermit = permit, psLease = lease, psKey = selectedKey,
                                 psIdleTime = policy_AttemptTimeout (Some retry), psStarted = startedAt,
                                 psFinished = False, psDone = False, psTerminal = None\<rparr>,
                               ocFailure = None, ocKeyID = keyID, ocAttempted = True, ocDuration = aeDuration env\<rparr>))))"

section \<open>Retries and fallback before the first event\<close>

definition nil_context_failure :: "candidate \<Rightarrow> failure" where
  "nil_context_failure cand =
     set_category CategoryCanceled (set_provider (caProviderID cand) (set_candidate (caPriority cand)
       (set_cause (Some (ErrNew ''stream attempt context is nil'')) failure_zero)))"

definition prepareStream ::
  "(string \<Rightarrow> goerr option) \<Rightarrow> (string \<Rightarrow> time option) \<Rightarrow> (string \<rightharpoonup> authentication \<times> bool) \<Rightarrow> retry_registry \<Rightarrow> bool \<Rightarrow> 'req attempt_input
     \<Rightarrow> time option \<Rightarrow> ('req stream_env \<times> wait_env) list \<Rightarrow> world
     \<Rightarrow> (world \<times> loop_result \<times> (failure + prepared_stream)) option" where
  "prepareStream chunkError httpParseTime adapters retries ctxNil input deadline rounds w =
     (let cand = aiCandidate input in
      if ctxNil then Some (w, loop_start, Inl (nil_context_failure cand))
      else case retry_ForProvider retries (caProviderID cand) of
             None \<Rightarrow> Some (w, loop_start, Inl (no_retry_policy cand))
           | Some retry \<Rightarrow>
               map_option (\<lambda>(w', res, r).
                   (w', res, case r of
                       Inl f \<Rightarrow> Inl f
                     | Inr None \<Rightarrow> Inl (no_retry_policy cand)
                     | Inr (Some stream) \<Rightarrow>
                         Inr (stream\<lparr>psAttempts := lrAttempts res, psTrail := lrTrail res\<rparr>)))
                 (retry_loop (prepareStreamOnce chunkError httpParseTime adapters input retry) httpParseTime retry cand
                    deadline rounds loop_start [] {} w))"

text \<open>\<open>PrepareStream\<close>, the entry point for a single candidate.\<close>

definition PrepareStream ::
  "(string \<Rightarrow> goerr option) \<Rightarrow> (string \<Rightarrow> time option) \<Rightarrow> (string \<rightharpoonup> authentication \<times> bool) \<Rightarrow> retry_registry \<Rightarrow> bool \<Rightarrow> 'req attempt_input
     \<Rightarrow> time option \<Rightarrow> ('req stream_env \<times> wait_env) list \<Rightarrow> world \<Rightarrow> (world \<times> (failure + prepared_stream)) option" where
  "PrepareStream chunkError httpParseTime adapters retries ctxNil input deadline rounds w =
     map_option (\<lambda>(w', res, r).
         (w', case r of
             Inl f \<Rightarrow> Inl (set_trail (lrTrail res) (set_total_attempts (lrAttempts res) f))
           | Inr stream \<Rightarrow> Inr (stream\<lparr>psCandidatesTried := 1\<rparr>)))
       (prepareStream chunkError httpParseTime adapters retries ctxNil input deadline rounds w)"

definition try_stream ::
  "(string \<Rightarrow> goerr option) \<Rightarrow> (string \<Rightarrow> time option) \<Rightarrow> (string \<rightharpoonup> authentication \<times> bool) \<Rightarrow> retry_registry \<Rightarrow> 'req execution_input \<Rightarrow> time option
     \<Rightarrow> 'req stream_env candidate_env \<Rightarrow> candidate \<Rightarrow> world
     \<Rightarrow> (world \<times> int \<times> attempt_record list \<times> (failure + prepared_stream)) option" where
  "try_stream chunkError httpParseTime adapters retries input deadline ce cand w =
     map_option (\<lambda>(w', res, r). (w', lrAttempts res, lrTrail res, r))
       (prepareStream chunkError httpParseTime adapters retries False (attempt_input_for input cand) deadline (ceRounds ce) w)"

definition OpenStream ::
  "(string \<Rightarrow> goerr option) \<Rightarrow> (string \<Rightarrow> time option) \<Rightarrow> (string \<rightharpoonup> authentication \<times> bool) \<Rightarrow> retry_registry \<Rightarrow> 'req execution_input \<Rightarrow> time option
     \<Rightarrow> time \<Rightarrow> 'req stream_env candidate_env list \<Rightarrow> world \<Rightarrow> (world \<times> (failure + prepared_stream)) option" where
  "OpenStream chunkError httpParseTime adapters retries input parent now envs w =
     (if plCandidates (exPlan input) = [] then Some (w, Inl no_route_failure)
      else map_option (\<lambda>(w', tried, t, r).
             (w', case r of
                 Inl f \<Rightarrow> Inl f
               | Inr stream \<Rightarrow> Inr (stream\<lparr>psAttempts := toAttempts t, psFallbacks := toFallbacks t,
                                           psCandidatesTried := int tried, psTrail := toTrail t\<rparr>)))
           (candidate_loop
              (try_stream chunkError httpParseTime adapters retries input (registry_RequestContext retries parent now))
              httpParseTime (plCandidates (exPlan input)) envs 0 no_totals None w))"

section \<open>The prepared stream\<close>

definition stream_next_event :: "(string \<Rightarrow> goerr option) \<Rightarrow> prepared_stream \<Rightarrow> prepared_stream \<times> stream_event \<times> goerr option" where
  "stream_next_event chunkError s =
     (case events_Next chunkError (psStream s) of
        (u, ev, err) \<Rightarrow>
          (let s1 = s\<lparr>psStream := u\<rparr> in
           if errors_is_opt err IoEOF \<and> \<not> psDone s then
             (s1, no_event, Some (ErrWrap [ErrSentinel ErrInvalidStream]))
           else (s1\<lparr>psDone := (psDone s \<or> err = None \<and> evDone ev)\<rparr>, ev, err)))"

text \<open>
  \<open>Next\<close>: with an idle limit the event is read in the background, and \<open>timedOut\<close> says that the
  timer fired first; the code then cancels the stream and waits for the reader to return.
\<close>

definition stream_Next :: "(string \<Rightarrow> goerr option) \<Rightarrow> bool \<Rightarrow> prepared_stream \<Rightarrow> prepared_stream \<times> stream_event \<times> goerr option" where
  "stream_Next chunkError timedOut s =
     (if psFinished s then (s, no_event, Some (ErrSentinel IoEOF))
      else if psIdleTime s \<le> 0 then stream_next_event chunkError s
      else if timedOut then
        (fst (stream_next_event chunkError s), no_event, Some (ErrWrap [ErrSentinel ContextDeadlineExceeded]))
      else stream_next_event chunkError s)"

definition currentAttempt :: "prepared_stream \<Rightarrow> int" where
  "currentAttempt s = (if psTrail s \<noteq> [] then arAttempt (last (psTrail s)) else psAttempts s)"

definition describeFailure :: "prepared_stream \<Rightarrow> failure \<Rightarrow> failure" where
  "describeFailure s f =
     set_trail (psTrail s) (set_fallbacks (psFallbacks s) (set_total_attempts (psAttempts s)
       (set_attempt (currentAttempt s) (set_candidate (psCandidate s) (set_key (psKeyID s)
         (set_provider (psProviderID s) f))))))"

record finish_env =
  fiNowKey :: time
  fiNowBreaker :: time
  fiNow :: time

definition Finish ::
  "finish_env \<Rightarrow> failure option \<Rightarrow> prepared_stream \<Rightarrow> world \<Rightarrow> world \<times> prepared_stream \<times> bool" where
  "Finish env failure0 s w =
     (if psFinished s then (w, s, False)
      else
        (let failure = map_option (describeFailure s) failure0;
             w1 = world_CompleteKey (fiNowKey env) failure (psKey s) w;
             (w2, permit') = world_Complete (fiNowBreaker env) (psProviderID s) failure (psPermit s) w1;
             w3 = world_Release (psProviderID s) (psLease s) w2
         in (w3, s\<lparr>psFinished := True, psStream := events_Close (psStream s), psPermit := permit',
                   psLease := (psLease s)\<lparr>lsReleased := True\<rparr>,
                   psKey := map_option (\<lambda>k. k\<lparr>seCompleted := True\<rparr>) (psKey s),
                   psTerminal := Some (failure, time_sub (fiNow env) (psStarted s))\<rparr>, True)))"

definition FinishError ::
  "(string \<Rightarrow> time option) \<Rightarrow> time \<Rightarrow> ctx_err option \<Rightarrow> finish_env \<Rightarrow> goerr option \<Rightarrow> prepared_stream \<Rightarrow> world
     \<Rightarrow> world \<times> prepared_stream \<times> failure option" where
  "FinishError httpParseTime now ctxErr env err s w =
     (case err of
        None \<Rightarrow> (w, s, None)
      | Some e \<Rightarrow>
          (let failure = FromProvider httpParseTime now ctxErr (psProviderID s) (psCandidate s) (currentAttempt s) (Some e) in
           case Finish env failure s w of
             (w', s', finished) \<Rightarrow>
               (w', s', if finished then map_option (describeFailure s) failure else failure)))"

definition Abort :: "finish_env \<Rightarrow> goerr option \<Rightarrow> prepared_stream \<Rightarrow> world \<Rightarrow> world \<times> prepared_stream \<times> bool" where
  "Abort env cause0 s w =
     (let cause = (case cause0 of None \<Rightarrow> ErrSentinel ContextCanceled | Some c \<Rightarrow> c) in
      Finish env (Some (set_category CategoryCanceled (set_cause (Some cause) failure_zero))) s w)"

definition FinalAttempt :: "prepared_stream \<Rightarrow> attempt_record option" where
  "FinalAttempt s =
     (if psTrail s = [] then None
      else case psTerminal s of
             None \<Rightarrow> None
           | Some (failure, duration) \<Rightarrow>
               (let record1 = (last (psTrail s))\<lparr>arCategory := failureCategory failure,
                                 arStatusCode := failureStatus failure\<rparr>
                in Some (if psStarted s \<noteq> 0 then record1\<lparr>arDuration := duration\<rparr> else record1)))"

section \<open>The first event decides\<close>

lemma openFirstStreamEvent_ok:
  "openFirstStreamEvent chunkError choice deadline opened = Inr (u, ev) \<longleftrightarrow>
     (\<exists>u0 t. choice = FirstResult None t \<and> t < deadline \<and> opened = (Some u0, None) \<and>
        events_Next chunkError u0 = (u, ev, None) \<and> \<not> evDone ev)"
  by (auto simp: openFirstStreamEvent_def open_and_read_def Let_def
      split: first_case.splits option.splits prod.splits if_splits)

text \<open>What the retry loop relies on of a streaming adapter and the chunk check.\<close>

definition stream_honest :: "(string \<Rightarrow> goerr option) \<Rightarrow> 'req stream_env \<Rightarrow> bool" where
  "stream_honest chunkError env \<longleftrightarrow> (\<forall>data. adapter_error_ok (chunkError data)) \<and>
     (\<forall>input key. adapter_error_ok (snd (seOpen env input key)) \<and>
        (\<forall>u. fst (seOpen env input key) = Some u \<longrightarrow> adapter_error_ok (Some (esEnd u))))"

lemma adapter_error_plain [simp]:
  "adapter_error_ok None"
  "adapter_error_ok (Some (ErrSentinel ContextDeadlineExceeded))"
  "adapter_error_ok (Some (ErrSentinel IoEOF))" "adapter_error_ok (Some (ErrSentinel ErrResponseTooLarge))"
  "adapter_error_ok (Some (ErrWrap [ErrSentinel ErrInvalidStream]))"
  by (simp_all add: adapter_error_ok_def)

lemma adapter_error_ctx [simp]: "adapter_error_ok (Some (ctx_goerr e))"
  by (cases e) (simp_all add: adapter_error_ok_def)

lemma openFirstStreamEvent_error:
  assumes "openFirstStreamEvent chunkError choice deadline (seOpen env input key) = Inl (err, u)"
    and "stream_honest chunkError env"
  shows "adapter_error_ok (Some err) \<and> (case u of None \<Rightarrow> True | Some s \<Rightarrow> \<not> esOpen s)"
proof -
  obtain o1 o2 where o: "seOpen env input key = (o1, o2)" by fastforce
  have honest: "adapter_error_ok o2" "o1 = Some u \<Longrightarrow> adapter_error_ok (Some (esEnd u))" "adapter_error_ok (chunkError data)" for u data
    using assms(2) o unfolding stream_honest_def by (metis fst_conv snd_conv)+
  obtain u0 ev e0 where r: "open_and_read chunkError (o1, o2) = (u0, ev, e0)" using prod_cases3 by blast
  have "adapter_error_ok e0"
  proof (cases o2)
    case None
    show ?thesis
    proof (cases o1)
      case (Some s)
      obtain s' ev' where n: "events_Next chunkError s = (s', ev', e0)"
        using r None Some by (auto simp: open_and_read_def split: prod.splits)
      show ?thesis
      proof (cases e0)
        case (Some e)
        with events_Next_error n have "stream_error chunkError (esEnd s) e" by blast
        then show ?thesis using honest Some \<open>o1 = Some s\<close> by (auto simp: stream_error_def) metis
      qed simp
    qed (use r None in \<open>auto simp: open_and_read_def\<close>)
  qed (use r honest in \<open>simp add: open_and_read_def split: option.splits\<close>)
  then show ?thesis
    using assms(1) o r
    by (auto simp: openFirstStreamEvent_def events_Close_def Let_def
        split: first_case.splits option.splits if_splits)
qed

section \<open>Opening a stream keeps the contract\<close>

lemma prepareStreamOnce_cases:
  assumes "prepareStreamOnce chunkError hp adapters input retry env n pref ex w = (w', oc)"
  obtains
    (unknown) "w' = w" "oc = refused None (Some (unknown_adapter (aiCandidate input) n))"
  | (unsupported) "w' = w" "oc = refused None (FromProvider hp (aeNowClassify env) (aeCtxErr env)
      (caProviderID (aiCandidate input)) (caPriority (aiCandidate input)) n (Some (ErrSentinel ErrUnsupportedCapability)))"
  | (refused) auth f where "admit env (aiCandidate input) auth n pref ex w = (w', Inl f)" "oc = refused None (Some f)"
  | (failed) auth w1 permit lease sel err u f w4 permit' where
      "admit env (aiCandidate input) auth n pref ex w = (w1, Inr (permit, lease, sel))"
      "openFirstStreamEvent chunkError (seChoice env) (seNowOpen env + policy_AttemptTimeout (Some retry))
         (seOpen env (chat_input_of input) (world_Secret sel w1)) = Inl (err, u)"
      "FromProvider hp (aeNowClassify env) (aeCtxErr env) (caProviderID (aiCandidate input))
         (caPriority (aiCandidate input)) n (Some err) = Some f"
      "ocFailure oc = (if sel = None then Some f else Some (set_key (ocKeyID oc) f))"
      "ocKeyID oc = (case sel of None \<Rightarrow> [] | Some k \<Rightarrow> seKeyID k)" "ocAttempted oc = counts_as_attempt (Some err)"
      "world_Complete (aeNowBreaker env) (caProviderID (aiCandidate input)) (ocFailure oc) permit
         (world_CompleteKey (aeNowKey env) (ocFailure oc) sel (aeOthers env 3 w1)) = (w4, permit')"
      "w' = world_Abandon (caProviderID (aiCandidate input)) permit'
         (world_Release (caProviderID (aiCandidate input)) lease (aeOthers env 4 w4))"
  | (opened) auth w1 permit lease sel u ev s where
      "admit env (aiCandidate input) auth n pref ex w = (w1, Inr (permit, lease, sel))"
      "openFirstStreamEvent chunkError (seChoice env) (seNowOpen env + policy_AttemptTimeout (Some retry))
         (seOpen env (chat_input_of input) (world_Secret sel w1)) = Inr (u, ev)"
      "w' = aeOthers env 3 w1" "ocFailure oc = None" "ocAttempted oc"
      "ocKeyID oc = (case sel of None \<Rightarrow> [] | Some k \<Rightarrow> seKeyID k)"
      "ocValue oc = Some s" "psFirstEvent s = ev" "psStream s = u" "psPermit s = permit" "psLease s = lease"
      "psKey s = sel" "psProviderID s = caProviderID (aiCandidate input)" "psFinished s = False" "psDone s = False"
      "psUpstreamModel s = caUpstreamModel (aiCandidate input)" "psCandidate s = caPriority (aiCandidate input)"
      "psKeyID s = ocKeyID oc" "psIdleTime s = policy_AttemptTimeout (Some retry)"
proof (cases "adapters (trim_space (caProviderID (aiCandidate input)))")
  case None
  with assms show thesis by (intro unknown) (simp_all add: prepareStreamOnce_def)
next
  case (Some a)
  obtain auth streaming where a: "a = (auth, streaming)" by fastforce
  let ?p = "caProviderID (aiCandidate input)"
  obtain w1 r where adm: "admit env (aiCandidate input) auth n pref ex w = (w1, r)" by fastforce
  show thesis
  proof (cases streaming)
    case False
    with assms Some a show thesis by (intro unsupported) (simp_all add: prepareStreamOnce_def Let_def)
  next
    case True
    note unfold = prepareStreamOnce_def Some a True adm Let_def
    show thesis
    proof (cases r)
      case (Inl f)
      with assms adm show thesis by (intro refused [of auth f]) (auto simp: unfold)
    next
      case (Inr x)
      obtain permit lease sel where r: "r = Inr (permit, lease, sel)" using Inr by (cases x) simp
      let ?k = "case sel of None \<Rightarrow> [] | Some k \<Rightarrow> seKeyID k"
      let ?open = "openFirstStreamEvent chunkError (seChoice env) (seNowOpen env + policy_AttemptTimeout (Some retry))
          (seOpen env (chat_input_of input) (world_Secret sel w1))"
      consider (Inl) err u where "?open = Inl (err, u)" | (Inr) u ev where "?open = Inr (u, ev)"
        by (metis obj_sumE surj_pair)
      then show thesis
      proof cases
        case (Inl err u)
        obtain f where f: "FromProvider hp (aeNowClassify env) (aeCtxErr env) ?p (caPriority (aiCandidate input)) n (Some err) = Some f"
          using FromProvider_None by (metis option.distinct(1) option.exhaust)
        let ?f = "if sel = None then Some f else Some (set_key ?k f)"
        obtain w4 permit' where d: "world_Complete (aeNowBreaker env) ?p ?f permit
            (world_CompleteKey (aeNowKey env) ?f sel (aeOthers env 3 w1)) = (w4, permit')" by fastforce
        have res: "w' = world_Abandon ?p permit' (world_Release ?p lease (aeOthers env 4 w4))"
          "oc = \<lparr>ocValue = None, ocFailure = ?f, ocKeyID = ?k, ocAttempted = counts_as_attempt (Some err),
             ocDuration = aeDuration env\<rparr>"
          using assms r Inl f d by (simp_all add: unfold cong: if_cong)
        show thesis by (rule failed [OF adm [unfolded r] Inl f]) (use res d in simp_all)
      next
        case (Inr u ev)
        show thesis
          by (rule opened [OF adm [unfolded r] Inr]) (use assms r Inr in \<open>auto simp: unfold\<close>)
      qed
    qed
  qed
qed

definition stream_live :: "prepared_stream \<Rightarrow> world \<Rightarrow> bool" where
  "stream_live s w \<longleftrightarrow> \<not> psFinished s \<and> \<not> lsReleased (psLease s) \<and> 0 < slots_held (psProviderID s) w"

lemma prepareStreamOnce_ok:
  assumes "world_ok w" and "others_fair env"
    and "prepareStreamOnce chunkError hp adapters input retry env n pref ex w = (w', oc)"
  shows "world_ok w' \<and> (ocFailure oc = None \<longrightarrow> (\<exists>s. ocValue oc = Some s \<and> stream_live s w')) \<and>
    (others_quiet env \<longrightarrow> slots_held q w' =
       slots_held q w + (if ocFailure oc = None then same_provider (caProviderID (aiCandidate input)) q else 0))"
  using assms(3)
proof (cases rule: prepareStreamOnce_cases)
  case (unknown)
  then show ?thesis using assms(1) by (simp add: refused_def)
next
  case (unsupported)
  then show ?thesis using assms(1) by (simp add: refused_def FromProvider_None)
next
  case (refused auth f)
  with admit_ok [OF assms(1,2) refused(1), of q] show ?thesis by (simp add: refused_def)
next
  case (failed auth w1 permit lease sel err u f w4 permit')
  with settle_ok [OF _ assms(2) _ _ failed(7,8), of q] admit_ok [OF assms(1,2) failed(1), of q]
  show ?thesis by (auto split: if_splits)
next
  case (opened auth w1 permit lease sel u ev s)
  with others_fairD [OF assms(2)] admit_ok [OF assms(1,2) opened(1), of q]
  show ?thesis by (auto simp: stream_live_def others_quietD)
qed

interpretation stream_round: attempt_round "prepareStreamOnce chunkError hp adapters input retry" world_ok
  "slots_held q" "same_provider (caProviderID (aiCandidate input)) q" others_fair others_quiet "stream_honest chunkError"
  for chunkError hp adapters and input :: "'req attempt_input" and retry q
proof
  fix w w' :: world and env :: "'req stream_env" and n :: int and pref :: string and ex :: "string set"
    and oc :: "prepared_stream option outcome" and f :: failure
  assume run: "prepareStreamOnce chunkError hp adapters input retry env n pref ex w = (w', oc)"
  show "world_ok w'" if "world_ok w" "others_fair env" using prepareStreamOnce_ok [OF that run] by blast
  show "slots_held q w' = slots_held q w +
      (if ocFailure oc = None then same_provider (caProviderID (aiCandidate input)) q else 0)"
    if "world_ok w" "others_fair env" "others_quiet env"
    using prepareStreamOnce_ok [OF that(1,2) run] that(3) by blast
  show "ocKeyID oc \<notin> ex" if "ocKeyID oc \<noteq> []"
    using run that
    by (cases rule: prepareStreamOnce_cases) (auto simp: refused_def dest: admit_fresh split: option.splits)
  show "ocAttempted oc" if "ocFailure oc = None"
    using run that
    by (cases rule: prepareStreamOnce_cases) (auto simp: refused_def FromProvider_None split: if_splits)
  show "fCategory f = CategoryKeyExhausted \<and> 0 < fRetryAfter f"
    if hyps: "stream_honest chunkError env" "\<not> ocAttempted oc" "ocFailure oc = Some f"
      "Retry (SignalsFor (Some f)) \<or> SwitchKey (SignalsFor (Some f))"
    using run
  proof (cases rule: prepareStreamOnce_cases)
    case unknown
    then have "final_refusal f" using hyps(3) by (intro final_refusalI(1)) (auto simp: refused_def unknown_adapter_def)
    with hyps(4) show ?thesis by (simp add: final_refusal_def)
  next
    case unsupported
    have "final_refusal f"
      using hyps(3) unsupported(2)
      by (intro uncounted_error_final) (auto simp: refused_def counts_as_attempt_def errors_is_opt_def adapter_error_ok_def)
    with hyps(4) show ?thesis by (simp add: final_refusal_def)
  next
    case (refused auth g)
    with hyps(3,4) admit_refusal [OF refused(1)] show ?thesis by (simp add: refused_def)
  next
    case (failed auth w1 permit lease sel err u g w4 permit')
    have "adapter_error_ok (Some err)" using openFirstStreamEvent_error [OF failed(2) hyps(1)] by blast
    then have "final_refusal g" using uncounted_error_final [OF _ _ failed(3)] hyps(2) failed(6) by simp
    moreover have "SignalsFor (Some f) = SignalsFor (Some g)"
      using hyps(3) failed(4) by (auto intro: SignalsFor_fields split: if_splits)
    ultimately show ?thesis using hyps(4) by (simp add: final_refusal_def)
  qed (use hyps(3) in simp)
qed

section \<open>The whole preparation\<close>

lemma prepareStream_loop:
  assumes "prepareStream chunkError hp adapters retries ctxNil input dl rounds w = Some (w', lr, r)"
  obtains (refused) f where "w' = w" "lr = loop_start" "r = Inl f"
      "ctxNil \<or> retry_ForProvider retries (caProviderID (aiCandidate input)) = None"
  | (loop) retry r0 where "retry_ForProvider retries (caProviderID (aiCandidate input)) = Some retry"
      "retry_loop (prepareStreamOnce chunkError hp adapters input retry) hp retry (aiCandidate input) dl rounds
         loop_start [] {} w = Some (w', lr, r0)"
      "r = (case r0 of Inl f \<Rightarrow> Inl f | Inr None \<Rightarrow> Inl (no_retry_policy (aiCandidate input))
              | Inr (Some s) \<Rightarrow> Inr (s\<lparr>psAttempts := lrAttempts lr, psTrail := lrTrail lr\<rparr>))"
  using assms
  by (cases "retry_ForProvider retries (caProviderID (aiCandidate input))")
    (auto simp: prepareStream_def Let_def split: if_splits)

lemma prepare_loop_value:
  assumes "retry_loop (prepareStreamOnce chunkError hp adapters input retry) hp retry cand dl rounds res pref ex w
      = Some (w', lr, Inr v)"
    and "world_ok w" and "list_all (others_fair \<circ> fst) rounds"
  shows "\<exists>s. v = Some s \<and> stream_live s w'"
proof -
  let ?once = "prepareStreamOnce chunkError hp adapters input retry"
  have fair: "others_fair env" if "(env, we) \<in> set rounds" for env we
    using assms(3) that by (force simp: list_all_iff)
  have "\<forall>u. (Inr v :: failure + _) = Inr u \<longrightarrow> (\<exists>s. u = Some s \<and> stream_live s w')"
  proof (rule retry_loop_rule [OF assms(1), where I = "\<lambda>_ _ v. world_ok v" and
        Q = "\<lambda>w1 _ r. \<forall>u. r = Inr u \<longrightarrow> (\<exists>s. u = Some s \<and> stream_live s w1)"])
    fix env we res pref ex w w1 oc and r :: "failure + prepared_stream option"
    assume "(env, we) \<in> set rounds" "world_ok w" "?once env (lrAttempts res + 1) pref ex w = (w1, oc)"
      "(\<exists>v. r = Inr v) = (ocFailure oc = None)" "ocFailure oc = None \<longrightarrow> r = Inr (ocValue oc)"
    then show "\<forall>u. r = Inr u \<longrightarrow> (\<exists>s. u = Some s \<and> stream_live s w1)"
      using prepareStreamOnce_ok [OF _ fair] by fastforce
  qed (use assms(2) fair stream_round.preserves in blast)+
  then show ?thesis by simp
qed

lemma prepareStream_ok:
  assumes "world_ok w" and "list_all (others_fair \<circ> fst) rounds"
    and "prepareStream chunkError hp adapters retries ctxNil input dl rounds w = Some (w', lr, r)"
  shows "world_ok w' \<and> (\<forall>s. r = Inr s \<longrightarrow> stream_live s w') \<and>
    (list_all (others_quiet \<circ> fst) rounds \<longrightarrow> slots_held q w' =
       slots_held q w + (case r of Inl f \<Rightarrow> 0 | Inr s \<Rightarrow> same_provider (caProviderID (aiCandidate input)) q))"
  using assms(3)
proof (cases rule: prepareStream_loop)
  case (refused f)
  then show ?thesis using assms(1) by simp
next
  case (loop retry r0)
  note P = stream_round.loop_preserves [OF loop(2) assms(1,2)] and B = stream_round.loop_balance [OF loop(2) assms(1,2)]
  show ?thesis
  proof (cases r0)
    case (Inl f)
    with loop(3) P B show ?thesis by simp
  next
    case (Inr v)
    obtain s where "v = Some s" "stream_live s w'" using prepare_loop_value [OF loop(2) [unfolded Inr] assms(1,2)] by blast
    with loop(3) Inr P B show ?thesis by (simp add: stream_live_def)
  qed
qed

lemma prepareStream_trail:
  assumes "prepareStream chunkError hp adapters retries ctxNil input dl rounds w = Some (w', lr, r)"
  shows "lrAttempts lr = int (length (lrTrail lr)) \<and> lrAttempts lr \<le> attempt_budget retries (aiCandidate input) \<and>
    (\<forall>a \<in> set (lrTrail lr). arProviderID a = caProviderID (aiCandidate input) \<and>
       arCandidate a = caPriority (aiCandidate input))"
  using assms
proof (cases rule: prepareStream_loop)
  case (refused f)
  then show ?thesis by (auto simp: loop_start_def attempt_budget_def split: option.split)
next
  case (loop retry r0)
  have "lrAttempts lr \<le> max 1 (MaxAttempts (rpConfig retry))"
    using retry_loop_attempts_max [OF loop(2)] by (simp add: loop_start_def)
  with stream_round.loop_trail [OF loop(2) trail_ok_start] loop show ?thesis
    by (auto simp: trail_ok_def attempt_budget_def in_set_conv_nth)
qed

text \<open>A prepared stream belongs to the candidate and starts with a content event.\<close>

definition stream_of :: "candidate \<Rightarrow> prepared_stream \<Rightarrow> bool" where
  "stream_of cand s \<longleftrightarrow> psProviderID s = caProviderID cand \<and> psUpstreamModel s = caUpstreamModel cand \<and>
     psCandidate s = caPriority cand \<and> \<not> evDone (psFirstEvent s) \<and> \<not> psFinished s \<and> \<not> psDone s"

lemma prepareStream_value:
  assumes "prepareStream chunkError hp adapters retries ctxNil input dl rounds w = Some (w', lr, Inr s)"
  shows "stream_of (aiCandidate input) s"
  using assms
proof (cases rule: prepareStream_loop)
  case (loop retry r0)
  obtain s0 where r0: "r0 = Inr (Some s0)" and s: "s = s0\<lparr>psAttempts := lrAttempts lr, psTrail := lrTrail lr\<rparr>"
    using loop(3) by (auto split: sum.splits option.splits)
  from retry_loop_value [OF loop(2) [unfolded r0]] obtain env n p x w0 oc where
    once: "prepareStreamOnce chunkError hp adapters input retry env n p x w0 = (w', oc)"
      "ocFailure oc = None" "ocValue oc = Some s0" by blast
  from once(1) have "stream_of (aiCandidate input) s0"
  proof (cases rule: prepareStreamOnce_cases)
    case (opened auth w1 permit lease sel u ev t)
    then show ?thesis using once(3) openFirstStreamEvent_ok by (auto simp: stream_of_def)
  qed (use once(2) in \<open>auto simp: refused_def FromProvider_None split: if_splits\<close>)
  then show ?thesis by (simp add: s stream_of_def)
qed simp

interpretation stream_candidate: candidate_attempt "try_stream chunkError hp adapters retries input dl"
  "attempt_budget retries" stream_of world_ok rounds_fair "slots_held q" "\<lambda>cand. same_provider (caProviderID cand) q"
  rounds_quiet stream_live
  for chunkError hp adapters retries and input :: "'req execution_input" and dl q
proof
  fix ce :: "'req stream_env candidate_env" and cand w w' n trail and r :: "failure + prepared_stream"
  assume "try_stream chunkError hp adapters retries input dl ce cand w = Some (w', n, trail, r)"
  then obtain lr where
    run: "prepareStream chunkError hp adapters retries False (attempt_input_for input cand) dl (ceRounds ce) w = Some (w', lr, r)"
    and eq: "n = lrAttempts lr" "trail = lrTrail lr"
    by (auto simp: try_stream_def)
  show "n = int (length trail) \<and> n \<le> attempt_budget retries cand \<and>
      (\<forall>a \<in> set trail. arProviderID a = caProviderID cand \<and> arCandidate a = caPriority cand)"
    using prepareStream_trail [OF run] eq by (simp add: attempt_input_for_def)
  show "world_ok w'" if "world_ok w" "rounds_fair ce"
    using prepareStream_ok [OF that(1) _ run] that(2) by (simp add: rounds_fair_def)
  show "slots_held q w' = slots_held q w + (case r of Inl f \<Rightarrow> 0 | Inr v \<Rightarrow> same_provider (caProviderID cand) q)"
    if "world_ok w" "rounds_fair ce" "rounds_quiet ce"
    using prepareStream_ok [OF that(1) _ run] that(2,3)
    by (auto simp: rounds_fair_def rounds_quiet_def attempt_input_for_def split: sum.splits)
next
  fix ce :: "'req stream_env candidate_env" and cand w w' n trail and s :: prepared_stream
  assume "try_stream chunkError hp adapters retries input dl ce cand w = Some (w', n, trail, Inr s)"
  then obtain lr where
    run: "prepareStream chunkError hp adapters retries False (attempt_input_for input cand) dl (ceRounds ce) w = Some (w', lr, Inr s)"
    by (auto simp: try_stream_def)
  show "stream_of cand s" using prepareStream_value [OF run] by (simp add: attempt_input_for_def)
  show "stream_live s w'" if "world_ok w" "rounds_fair ce"
    using prepareStream_ok [OF that(1) _ run] that(2) by (simp add: rounds_fair_def)
qed

section \<open>The life of a prepared stream\<close>

lemma Finish_live:
  assumes "world_ok w" and "stream_live s w" and "Finish env f s w = (w', s', finished)"
  shows "finished \<and> world_ok w' \<and> slots_held q w' = slots_held q w - same_provider (psProviderID s) q \<and>
    psFinished s' \<and> \<not> esOpen (psStream s')"
proof -
  let ?f = "map_option (describeFailure s) f"
  let ?w = "world_CompleteKey (fiNowKey env) ?f (psKey s) w"
  obtain w2 permit' where C: "world_Complete (fiNowBreaker env) (psProviderID s) ?f (psPermit s) ?w = (w2, permit')"
    by fastforce
  note K = world_CompleteKey_ok [OF assms(1)]
  note D = world_Complete_ok [OF K(1) C]
  have "0 < slots_held (psProviderID s) w2" using assms(2) D K(2) by (simp add: stream_live_def)
  note R = world_Release_ok [OF conjunct1 [OF D] this]
  show ?thesis
    using assms(2,3) C R(1) [of "psLease s"] R(2) [of "psLease s" q] D [of q] K(2)
    by (auto simp: Finish_def Let_def stream_live_def)
qed

lemma stream_next_keeps:
  assumes "stream_Next chunkError t s = (s', ev, err)"
  shows "psFinished s' = psFinished s \<and> psLease s' = psLease s \<and> psProviderID s' = psProviderID s \<and>
    psPermit s' = psPermit s \<and> psKey s' = psKey s"
  using assms
  by (auto simp: stream_Next_def stream_next_event_def Let_def split: if_splits prod.splits)

text \<open>The events a client of the stream sees, one flag per call saying whether the idle timer fired first.\<close>

fun stream_run ::
  "(string \<Rightarrow> goerr option) \<Rightarrow> bool list \<Rightarrow> prepared_stream \<Rightarrow> prepared_stream \<times> (stream_event \<times> goerr option) list" where
  "stream_run chunkError [] s = (s, [])"
| "stream_run chunkError (t # ts) s =
     (case stream_Next chunkError t s of
        (s1, ev, err) \<Rightarrow> (case stream_run chunkError ts s1 of (s2, out) \<Rightarrow> (s2, (ev, err) # out)))"

lemma stream_run_live:
  "stream_run chunkError ts s = (s', out) \<Longrightarrow> stream_live s w \<Longrightarrow> stream_live s' w \<and> psProviderID s' = psProviderID s"
proof (induction ts arbitrary: s out)
  case (Cons t ts)
  obtain s1 ev err where n: "stream_Next chunkError t s = (s1, ev, err)" using prod_cases3 by blast
  with Cons.prems stream_next_keeps [OF n] Cons.IH [of s1] show ?case
    by (auto simp: stream_live_def split: prod.splits)
qed simp

lemma OpenStream_loop:
  assumes "OpenStream chunkError hp adapters retries input parent now envs w = Some (w', r)"
  obtains (no_route) "plCandidates (exPlan input) = []" "w' = w" "r = Inl no_route_failure"
  | (loop) n t r0 where "plCandidates (exPlan input) \<noteq> []"
      "candidate_loop (try_stream chunkError hp adapters retries input (registry_RequestContext retries parent now))
         hp (plCandidates (exPlan input)) envs 0 no_totals None w = Some (w', n, t, r0)"
      "r = (case r0 of Inl f \<Rightarrow> Inl f
         | Inr s \<Rightarrow> Inr (s\<lparr>psAttempts := toAttempts t, psFallbacks := toFallbacks t,
                             psCandidatesTried := int n, psTrail := toTrail t\<rparr>))"
  using assms by (auto simp: OpenStream_def split: if_splits)

lemma stream_loop_spec:
  assumes "candidate_loop (try_stream chunkError hp adapters retries input dl) hp cands envs 0 no_totals None w = Some (w', n, t, r)"
    and "cands \<noteq> []"
  shows "0 < n \<and> n \<le> length cands \<and> toFallbacks t = int n - 1 \<and> toAttempts t = int (length (toTrail t)) \<and>
    toAttempts t \<le> sum_list (map (attempt_budget retries) (take n cands)) \<and> trail_follows (take n cands) (toTrail t) \<and>
    (\<forall>s. r = Inr s \<longrightarrow> stream_of (cands ! (n - 1)) s)"
  using stream_candidate.loop_spec [of chunkError hp adapters retries input dl hp cands envs "[]" no_totals None w w' n t r] assms
  by (simp add: covers_follows no_totals_def trail_follows_def [of "[]"])

lemma OpenStream_resources:
  assumes "world_ok w" and "list_all rounds_fair envs"
    and "OpenStream chunkError hp adapters retries input parent now envs w = Some (w', r)"
  shows "world_ok w' \<and> (\<forall>s. r = Inr s \<longrightarrow> stream_live s w') \<and>
    (list_all rounds_quiet envs \<longrightarrow> slots_held q w' =
       slots_held q w + (case r of Inl f \<Rightarrow> 0 | Inr s \<Rightarrow> same_provider (psProviderID s) q))"
  using assms(3)
proof (cases rule: OpenStream_loop)
  case (loop n t r0)
  note R = stream_candidate.loop_resources [OF loop(2) assms(1,2), of q]
  have "psProviderID s = caProviderID (plCandidates (exPlan input) ! (n - 1))" if "r0 = Inr s" for s
    using stream_loop_spec [OF loop(2,1)] that by (simp add: stream_of_def)
  with R loop(3) show ?thesis by (auto simp: stream_live_def split: sum.splits)
qed (use assms(1) in simp)

lemma Finish_finished: "psFinished s \<Longrightarrow> Finish env f s w = (w, s, False)"
  by (simp add: Finish_def)

lemma stream_Next_finished: "psFinished s \<Longrightarrow> stream_Next chunkError t s = (s, no_event, Some (ErrSentinel IoEOF))"
  by (simp add: stream_Next_def)

text \<open>\<open>io.EOF\<close> reaches the client of the stream only after \<open>[DONE]\<close>.\<close>

lemma stream_Next_done:
  assumes "stream_Next chunkError t s = (s', ev, err)" and "\<not> psFinished s"
  shows "(errors_is_opt err IoEOF \<longrightarrow> psDone s) \<and> psFinished s' = psFinished s"
  using assms
  by (auto simp: stream_Next_def stream_next_event_def errors_is_opt_def Let_def split: if_splits prod.splits)

lemma stream_Next_marks_done:
  assumes "stream_Next chunkError t s = (s', ev, err)" and "\<not> psFinished s" and "psDone s'"
  shows "psDone s \<or> (err = None \<and> evDone ev) \<or> errors_is_opt err ContextDeadlineExceeded"
  using assms
  by (auto simp: stream_Next_def stream_next_event_def errors_is_opt_def Let_def split: if_splits prod.splits)

lemma stream_run_eof:
  "stream_run chunkError ts s = (s', out) \<Longrightarrow> \<not> psFinished s \<Longrightarrow> i < length out \<Longrightarrow> errors_is_opt (snd (out ! i)) IoEOF \<Longrightarrow>
     psDone s \<or> (\<exists>j < i. snd (out ! j) = None \<and> evDone (fst (out ! j)) \<or>
       errors_is_opt (snd (out ! j)) ContextDeadlineExceeded)"
proof (induction ts arbitrary: s out i)
  case (Cons t ts)
  obtain s1 ev err where n: "stream_Next chunkError t s = (s1, ev, err)" using prod_cases3 by blast
  obtain out' where out: "out = (ev, err) # out'" and run: "stream_run chunkError ts s1 = (s', out')"
    using Cons.prems(1) n by (auto split: prod.splits)
  show ?case
  proof (cases i)
    case 0
    with Cons.prems out stream_Next_done [OF n] show ?thesis by simp
  next
    case (Suc k)
    have "psDone s1 \<or> (\<exists>j < k. snd (out' ! j) = None \<and> evDone (fst (out' ! j)) \<or>
        errors_is_opt (snd (out' ! j)) ContextDeadlineExceeded)"
      using Cons.IH [OF run, of k] Cons.prems(2-4) stream_Next_done [OF n] out Suc by simp
    then show ?thesis
    proof
      assume "psDone s1"
      from stream_Next_marks_done [OF n Cons.prems(2) this] show ?thesis using out Suc by fastforce
    next
      assume "\<exists>j < k. snd (out' ! j) = None \<and> evDone (fst (out' ! j)) \<or>
        errors_is_opt (snd (out' ! j)) ContextDeadlineExceeded"
      then show ?thesis using out Suc by (metis Suc_mono nth_Cons_Suc)
    qed
  qed
qed simp

text \<open>A cancellation says nothing about the key or the provider.\<close>

lemma world_CompleteKey_canceled:
  assumes "fCategory f = CategoryCanceled"
  shows "world_CompleteKey now (Some f) sel w = w"
proof -
  have same: "fst (selection_Complete now (Some f) s k) = s" for s k
    using assms by (simp add: selection_Complete_def complete_key_def)
  have "fst (keys_Complete now (Some f) k keys) = keys" for k keys
  proof (cases "krSelectors keys (seProviderID k)")
    case (Some s)
    obtain x where "selection_Complete now (Some f) s k = (s, x)" using same [of s k] by (metis prod.collapse)
    with Some show ?thesis by (cases x) (simp add: keys_Complete_def fun_upd_idem)
  qed (simp add: keys_Complete_def)
  then show ?thesis by (simp add: world_CompleteKey_def split: option.split)
qed

lemma breaker_complete_canceled:
  assumes "fCategory f = CategoryCanceled"
  shows "breaker_complete now permit (Some f) b \<in> {b, b\<lparr>bHalfOpenInFlight := bHalfOpenInFlight b - 1\<rparr>}"
proof -
  have "\<not> CountBreaker (SignalsFor (Some f))" using assms by (simp add: SignalsFor_def no_signals_def)
  then show ?thesis by (simp add: breaker_complete_def breaker_completeProbe_def Let_def)
qed

definition breaker_verdict :: "breaker \<Rightarrow> breaker_state \<times> int \<times> time \<times> int \<times> uint64" where
  "breaker_verdict b = (bState b, bConsecutiveFailures b, bOpenedUntil b, bHalfOpenSuccesses b, bGeneration b)"

lemma Abort_world:
  assumes "Abort env cause s w = (w', s', done)"
  shows "wKeys w' = wKeys w \<and>
    (\<forall>p. map_option breaker_verdict (brBreakers (wBreakers w') p) = map_option breaker_verdict (brBreakers (wBreakers w) p))"
proof -
  let ?c = "case cause of None \<Rightarrow> ErrSentinel ContextCanceled | Some c \<Rightarrow> c"
  let ?f = "describeFailure s (set_category CategoryCanceled (set_cause (Some ?c) failure_zero))"
  have cat: "fCategory ?f = CategoryCanceled" by (simp add: describeFailure_def)
  note K = world_CompleteKey_canceled [OF cat] and B = breaker_complete_canceled [OF cat]
  have C: "wKeys w2 = wKeys w \<and>
      (\<forall>p. map_option breaker_verdict (brBreakers (wBreakers w2) p) = map_option breaker_verdict (brBreakers (wBreakers w) p))"
    if "world_Complete now q (Some ?f) permit w = (w2, permit')" for now q permit w2 permit'
    using that B [of now permit "the (brBreakers (wBreakers w) (trim_space q))"]
    by (auto simp: world_Complete_def permit_Complete_def breaker_verdict_def split: option.splits if_splits)
  obtain w2 permit' where "world_Complete (fiNowBreaker env) (psProviderID s) (Some ?f) (psPermit s) w = (w2, permit')"
    by fastforce
  with C [OF this] assms show ?thesis
    by (auto simp: Abort_def Finish_def Let_def K world_Release_def split: if_splits)
qed

section \<open>Properties\<close>

definition example_stream_env :: "unit stream_env" where
  "example_stream_env = \<lparr>aeOthers = (\<lambda>k w. w), aeNowAllow = 1, aeQueue = example_queue_env, aeNowSelect = 2,
     aeCtxErr = None, aeNowClassify = 3, aeNowKey = 4, aeNowBreaker = 5, aeNowAttempt = 2, aeDuration = 7,
     seOpen = (\<lambda>input key. (Some (opened_stream (chat_frame ''{}'' @ chat_frame ''[DONE]'')), None)),
     seChoice = FirstResult None 6, seNowOpen = 2\<rparr>"

definition example_stream_envs :: "unit stream_env candidate_env list" where
  "example_stream_envs = [\<lparr>ceRounds = [(example_stream_env, example_wait 10)], ceCtxErr = None, ceNow = 11\<rparr>]"

definition example_streaming :: "string \<rightharpoonup> authentication \<times> bool" where
  "example_streaming = [''acme'' \<mapsto> (AuthenticationAPIKey, True)]"

definition example_opened :: "(world \<times> (failure + prepared_stream)) option" where
  "example_opened = OpenStream (\<lambda>d. None) (\<lambda>s. None) example_streaming example_retries example_execution None 0
     example_stream_envs example_world"

definition example_finish :: finish_env where
  "example_finish = \<lparr>fiNowKey = 20, fiNowBreaker = 21, fiNow = 22\<rparr>"

lemma example_opened_summary:
  "map_option (\<lambda>(w, r). case r of Inl f \<Rightarrow> None | Inr s \<Rightarrow> Some (psAttempts s, psCandidatesTried s, evData (psFirstEvent s)))
     example_opened = Some (Some (1, 1, ''{}''))"
  by code_simp

lemma example_opened_ends: "\<exists>w s. example_opened = Some (w, Inr s) \<and> psCandidatesTried s = 1"
proof -
  obtain w r where run: "example_opened = Some (w, r)"
    using example_opened_summary by (auto simp: map_option_eq_Some)
  have "map_option (\<lambda>(w, r). case r of Inl f \<Rightarrow> None | Inr s \<Rightarrow> Some (psAttempts s, psCandidatesTried s, evData (psFirstEvent s)))
     (Some (w, r)) = Some (Some (1, 1, ''{}''))"
    using example_opened_summary by (simp only: run)
  then show ?thesis using run by (cases r) auto
qed

lemma example_stream_envs_ok: "list_all rounds_fair example_stream_envs" "list_all rounds_quiet example_stream_envs"
  by (simp_all add: example_stream_envs_def rounds_fair_def rounds_quiet_def example_stream_env_def example_queue_env_def
      others_fair_def others_quiet_def queue_env_ok_def)

text \<open>
  Opening a stream is accounted like any request, and starts with content. A stream that
  was opened has tried a prefix of the plan, belongs to the last candidate of it, carries a
  trail with exactly its upstream calls, at most \<open>MaxAttempts\<close> per candidate tried, and its
  first event is a content event, never the end marker.
\<close>

theorem open_stream_accounting:
  assumes "NewRetryRegistry ps configs = Inr retries"
    and "\<forall>c \<in> set (plCandidates (exPlan input)). retry_ForProvider retries (caProviderID c) \<noteq> None"
    and "OpenStream chunkError hp adapters retries input parent now envs w = Some (w', Inr s)"
  shows "\<exists>n. 0 < n \<and> n \<le> length (plCandidates (exPlan input)) \<and>
    (let tried = take n (plCandidates (exPlan input)) in
       psCandidatesTried s = int n \<and> psFallbacks s = int n - 1 \<and> psAttempts s = int (length (psTrail s)) \<and>
       psAttempts s \<le> sum_list (map (\<lambda>c. MaxAttempts (rpConfig (the (retry_ForProvider retries (caProviderID c))))) tried) \<and>
       trail_follows tried (psTrail s) \<and> psProviderID s = caProviderID (last tried) \<and>
       psUpstreamModel s = caUpstreamModel (last tried) \<and> \<not> evDone (psFirstEvent s))"
  using assms(3)
proof (cases rule: OpenStream_loop)
  case (loop n t r0)
  let ?cands = "plCandidates (exPlan input)"
  note S = stream_loop_spec [OF loop(2,1)]
  obtain s0 where s0: "r0 = Inr s0" and s: "s = s0\<lparr>psAttempts := toAttempts t, psFallbacks := toFallbacks t,
      psCandidatesTried := int n, psTrail := toTrail t\<rparr>"
    using loop(3) by (cases r0) auto
  have "attempt_budget retries c = MaxAttempts (rpConfig (the (retry_ForProvider retries (caProviderID c))))"
    if "c \<in> set (take n ?cands)" for c
    using assms(2) in_set_takeD [OF that] attempt_budget_valid [OF assms(1)] by fastforce
  then have budget: "map (attempt_budget retries) (take n ?cands) =
      map (\<lambda>c. MaxAttempts (rpConfig (the (retry_ForProvider retries (caProviderID c))))) (take n ?cands)"
    by (intro map_cong) simp_all
  have "take n ?cands \<noteq> []" "length (take n ?cands) = n" using S loop(1) by auto
  then have "last (take n ?cands) = ?cands ! (n - 1)" using S by (simp add: last_conv_nth del: length_take)
  with S s s0 show ?thesis by (intro exI [of _ n]) (simp add: Let_def budget stream_of_def)
qed simp

theorem open_stream_accounting_witness:
  "\<exists>w s. example_opened = Some (w, Inr s) \<and> psAttempts s = int (length (psTrail s)) \<and> \<not> evDone (psFirstEvent s)"
proof -
  obtain w s where run: "example_opened = Some (w, Inr s)" using example_opened_ends by blast
  have "\<forall>c \<in> set (plCandidates (exPlan example_execution)). retry_ForProvider example_retries (caProviderID c) \<noteq> None"
    using example_policy(1)
    by (simp add: example_execution_def old_candidate_def new_candidate_def example_input_def example_candidate_def)
  from open_stream_accounting [OF example_registry this run [unfolded example_opened_def]]
  show ?thesis using run by (auto simp: Let_def)
qed




definition example_prepared :: prepared_stream where
  "example_prepared = \<lparr>psFirstEvent = \<lparr>evData = ''{}'', evDone = False\<rparr>, psProviderID = ''acme'', psUpstreamModel = ''gpt'',
     psKeyID = [], psCandidate = 0, psAttempts = 1, psFallbacks = 0, psCandidatesTried = 1, psTrail = [],
     psStream = opened_stream (chat_frame ''[DONE]''), psPermit = \<lparr>pmGeneration = 0, pmProbe = False, pmCompleted = False\<rparr>,
     psLease = \<lparr>lsReleased = False\<rparr>, psKey = None, psIdleTime = 5, psStarted = 1, psFinished = False, psDone = False,
     psTerminal = None\<rparr>"


text \<open>
  A client that goes away is not held against the provider. Aborting a stream changes no
  key, and no breaker's state, failure count, opening time, probe successes or generation; only
  a probe slot may be returned.
\<close>

theorem abort_spares_provider:
  assumes "Abort env cause s w = (w', s', finished)"
  shows "wKeys w' = wKeys w \<and>
    (\<forall>p. map_option breaker_verdict (brBreakers (wBreakers w') p) = map_option breaker_verdict (brBreakers (wBreakers w) p))"
  using assms by (rule Abort_world)

theorem abort_spares_provider_witness:
  "\<exists>w' s'. Abort example_finish None example_prepared example_world = (w', s', True) \<and> wKeys w' = wKeys example_world"
proof -
  obtain w' s' fin where run: "Abort example_finish None example_prepared example_world = (w', s', fin)"
    using prod_cases3 by blast
  moreover have "fin" using run by (simp add: Abort_def Finish_def example_prepared_def Let_def split: prod.splits)
  ultimately show ?thesis using abort_spares_provider [OF run] by auto
qed

end
