(* ===== verification/GoJson.thy ===== *)
theory GoJson
  imports GoPrelude
begin

text \<open>
  What the code uses of \<open>encoding/json\<close> and \<open>unicode/utf8\<close>: the grammar its scanner accepts
  (with its nesting limit), the decoding of strings, \<open>Compact\<close>, and the rules by which
  \<open>Unmarshal\<close> fills a struct: fields by exact name, then by folded name, later members over
  earlier ones, slices element by element into what they held before. The scanner's input is cut
  into tokens, white space included, so that a token list spells the bytes it was read from; a
  \<open>json.RawMessage\<close> is such a list. A stack machine over the tokens, one step per token, decides
  which lists are a value.
\<close>

section \<open>UTF-8\<close>

abbreviation byte :: "char \<Rightarrow> int" where
  "byte c \<equiv> of_char c"

text \<open>The ranges of the continuation bytes a leading byte asks for.\<close>

definition utf8_first :: "char \<Rightarrow> (int \<times> int) list option" where
  "utf8_first c =
     (let b = byte c; cont = (128, 191) in
      if b < 128 then Some []
      else if 194 \<le> b \<and> b \<le> 223 then Some [cont]
      else if b = 224 then Some [(160, 191), cont]
      else if b = 237 then Some [(128, 159), cont]
      else if 225 \<le> b \<and> b \<le> 239 then Some [cont, cont]
      else if b = 240 then Some [(144, 191), cont, cont]
      else if 241 \<le> b \<and> b \<le> 243 then Some [cont, cont, cont]
      else if b = 244 then Some [(128, 143), cont, cont]
      else None)"

fun utf8_run :: "(int \<times> int) list \<Rightarrow> string \<Rightarrow> bool" where
  "utf8_run [] [] = True"
| "utf8_run (r # rs) [] = False"
| "utf8_run [] (c # cs) = (case utf8_first c of None \<Rightarrow> False | Some rs \<Rightarrow> utf8_run rs cs)"
| "utf8_run ((lo, hi) # rs) (c # cs) = (lo \<le> byte c \<and> byte c \<le> hi \<and> utf8_run rs cs)"

definition utf8_valid :: "string \<Rightarrow> bool" where
  "utf8_valid s = utf8_run [] s"

fun utf8_take :: "(int \<times> int) list \<Rightarrow> string \<Rightarrow> (string \<times> string) option" where
  "utf8_take [] cs = Some ([], cs)"
| "utf8_take (r # rs) [] = None"
| "utf8_take ((lo, hi) # rs) (c # cs) =
     (if lo \<le> byte c \<and> byte c \<le> hi
      then map_option (\<lambda>(taken, rest). (c # taken, rest)) (utf8_take rs cs) else None)"

definition utf8_encode :: "int \<Rightarrow> string" where
  "utf8_encode r =
     (if r < 128 then [char_of r]
      else if r < 2048 then [char_of (192 + r div 64), char_of (128 + r mod 64)]
      else if r < 65536 then
        [char_of (224 + r div 4096), char_of (128 + r div 64 mod 64), char_of (128 + r mod 64)]
      else [char_of (240 + r div 262144), char_of (128 + r div 4096 mod 64),
            char_of (128 + r div 64 mod 64), char_of (128 + r mod 64)])"

definition replacement_rune :: string where
  "replacement_rune = [CHR 0xEF, CHR 0xBF, CHR 0xBD]"

section \<open>Tokens\<close>

datatype token =
    TLBrace | TRBrace | TLBrack | TRBrack | TColon | TComma
  | TStr string \<comment> \<open>the bytes between the quotes, escapes as written\<close>
  | TNum string
  | TTrue | TFalse | TNull
  | TSpace char

datatype lex_state =
    LexStart
  | LexStr string | LexEsc string | LexHex nat string \<comment> \<open>the bytes read so far, reversed\<close>
  | LexNum string | LexWord string

definition is_json_space :: "char \<Rightarrow> bool" where
  "is_json_space c \<longleftrightarrow> c = CHR '' '' \<or> c = CHR 0x09 \<or> c = CHR 0x0A \<or> c = CHR 0x0D"

definition is_hex_char :: "char \<Rightarrow> bool" where
  "is_hex_char c \<longleftrightarrow> is_digit_char c \<or> (97 \<le> byte c \<and> byte c \<le> 102) \<or> (65 \<le> byte c \<and> byte c \<le> 70)"

definition is_num_char :: "char \<Rightarrow> bool" where
  "is_num_char c \<longleftrightarrow> is_digit_char c \<or> c \<in> {CHR ''-'', CHR ''+'', CHR ''.'', CHR ''e'', CHR ''E''}"

text \<open>The number grammar, read by the states of the scanner.\<close>

datatype num_state = NumNeg | NumZero | NumInt | NumDot | NumFrac | NumE | NumESign | NumExp

fun num_step :: "num_state \<Rightarrow> char \<Rightarrow> num_state option" where
  "num_step NumNeg c = (if c = CHR ''0'' then Some NumZero else if is_digit_char c then Some NumInt else None)"
| "num_step NumZero c = (if c = CHR ''.'' then Some NumDot else if c = CHR ''e'' \<or> c = CHR ''E'' then Some NumE else None)"
| "num_step NumInt c = (if is_digit_char c then Some NumInt else if c = CHR ''.'' then Some NumDot
     else if c = CHR ''e'' \<or> c = CHR ''E'' then Some NumE else None)"
| "num_step NumDot c = (if is_digit_char c then Some NumFrac else None)"
| "num_step NumFrac c = (if is_digit_char c then Some NumFrac else if c = CHR ''e'' \<or> c = CHR ''E'' then Some NumE else None)"
| "num_step NumE c = (if c = CHR ''+'' \<or> c = CHR ''-'' then Some NumESign else if is_digit_char c then Some NumExp else None)"
| "num_step NumESign c = (if is_digit_char c then Some NumExp else None)"
| "num_step NumExp c = (if is_digit_char c then Some NumExp else None)"

fun num_run :: "num_state \<Rightarrow> string \<Rightarrow> bool" where
  "num_run st [] \<longleftrightarrow> st \<in> {NumZero, NumInt, NumFrac, NumExp}"
| "num_run st (c # cs) = (case num_step st c of None \<Rightarrow> False | Some st' \<Rightarrow> num_run st' cs)"

definition valid_number :: "string \<Rightarrow> bool" where
  "valid_number s =
     (case s of [] \<Rightarrow> False
      | c # cs \<Rightarrow> if c = CHR ''-'' then num_run NumNeg cs else num_run NumNeg s)"

definition word_token :: "string \<Rightarrow> token option" where
  "word_token w =
     (if w = ''true'' then Some TTrue else if w = ''false'' then Some TFalse
      else if w = ''null'' then Some TNull else None)"

definition number_token :: "string \<Rightarrow> token option" where
  "number_token s = (if valid_number s then Some (TNum s) else None)"

definition punctuation :: "(char \<times> token) list" where
  "punctuation = [(CHR ''{'', TLBrace), (CHR ''}'', TRBrace), (CHR ''['', TLBrack), (CHR '']'', TRBrack),
     (CHR '':'', TColon), (CHR '','', TComma)]"

text \<open>A byte met between two tokens.\<close>

definition lex_first :: "char \<Rightarrow> (lex_state \<times> token list) option" where
  "lex_first c =
     (if is_json_space c then Some (LexStart, [TSpace c])
      else case map_of punctuation c of
        Some t \<Rightarrow> Some (LexStart, [t])
      | None \<Rightarrow>
          if c = CHR 0x22 then Some (LexStr [], [])
          else if c = CHR ''-'' \<or> is_digit_char c then Some (LexNum [c], [])
          else if is_lower_char c then Some (LexWord [c], [])
          else None)"

definition then_first :: "token option \<Rightarrow> char \<Rightarrow> (lex_state \<times> token list) option" where
  "then_first t c =
     (case t of None \<Rightarrow> None
      | Some x \<Rightarrow> map_option (\<lambda>(st, ts). (st, x # ts)) (lex_first c))"

fun lex_step :: "lex_state \<Rightarrow> char \<Rightarrow> (lex_state \<times> token list) option" where
  "lex_step LexStart c = lex_first c"
| "lex_step (LexStr acc) c =
     (if c = CHR 0x22 then Some (LexStart, [TStr (rev acc)])
      else if c = CHR 0x5C then Some (LexEsc (c # acc), [])
      else if byte c < 32 then None
      else Some (LexStr (c # acc), []))"
| "lex_step (LexEsc acc) c =
     (if c = CHR ''u'' then Some (LexHex 4 (c # acc), [])
      else if c \<in> {CHR ''b'', CHR ''f'', CHR ''n'', CHR ''r'', CHR ''t'', CHR 0x5C, CHR ''/'', CHR 0x22}
      then Some (LexStr (c # acc), []) else None)"
| "lex_step (LexHex n acc) c =
     (if is_hex_char c then Some (if n \<le> 1 then LexStr (c # acc) else LexHex (n - 1) (c # acc), []) else None)"
| "lex_step (LexNum acc) c =
     (if is_num_char c then Some (LexNum (c # acc), []) else then_first (number_token (rev acc)) c)"
| "lex_step (LexWord acc) c =
     (if is_lower_char c then Some (LexWord (c # acc), []) else then_first (word_token (rev acc)) c)"

fun lex_end :: "lex_state \<Rightarrow> token list option" where
  "lex_end LexStart = Some []"
| "lex_end (LexNum acc) = map_option (\<lambda>t. [t]) (number_token (rev acc))"
| "lex_end (LexWord acc) = map_option (\<lambda>t. [t]) (word_token (rev acc))"
| "lex_end _ = None"

fun lex_run :: "lex_state \<Rightarrow> string \<Rightarrow> token list option" where
  "lex_run st [] = lex_end st"
| "lex_run st (c # cs) =
     (case lex_step st c of
        None \<Rightarrow> None
      | Some (st', ts) \<Rightarrow> map_option (\<lambda>us. ts @ us) (lex_run st' cs))"

definition json_tokens :: "string \<Rightarrow> token list option" where
  "json_tokens s = lex_run LexStart s"

section \<open>Strings\<close>

definition hex_value :: "char \<Rightarrow> int" where
  "hex_value c = (if is_digit_char c then byte c - 48 else if 97 \<le> byte c then byte c - 87 else byte c - 55)"

definition hex4 :: "char \<Rightarrow> char \<Rightarrow> char \<Rightarrow> char \<Rightarrow> int" where
  "hex4 a b c d = ((hex_value a * 16 + hex_value b) * 16 + hex_value c) * 16 + hex_value d"

text \<open>The second half of a surrogate pair, if one follows.\<close>

definition low_surrogate :: "string \<Rightarrow> (int \<times> string) option" where
  "low_surrogate s =
     (case s of
        p # q # a # b # c # d # rest \<Rightarrow>
          if p = CHR 0x5C \<and> q = CHR ''u'' \<and> is_hex_char a \<and> is_hex_char b \<and> is_hex_char c \<and> is_hex_char d
             \<and> 56320 \<le> hex4 a b c d \<and> hex4 a b c d < 57344
          then Some (hex4 a b c d, rest) else None
      | _ \<Rightarrow> None)"

definition escape_char :: "char \<Rightarrow> char" where
  "escape_char c =
     (if c = CHR ''b'' then CHR 0x08 else if c = CHR ''f'' then CHR 0x0C else if c = CHR ''n'' then CHR 0x0A
      else if c = CHR ''r'' then CHR 0x0D else if c = CHR ''t'' then CHR 0x09 else c)"

text \<open>One rune of the text between the quotes: what it decodes to, and the bytes after it.\<close>

definition unquote_rune :: "char \<Rightarrow> string \<Rightarrow> string \<times> string" where
  "unquote_rune c rest =
     (if c = CHR 0x5C then
        (case rest of
           u # a # b # x # d # tail \<Rightarrow>
             if u \<noteq> CHR ''u'' then ([escape_char u], a # b # x # d # tail)
             else
               (let r = hex4 a b x d in
                if 55296 \<le> r \<and> r < 56320 then
                  (case low_surrogate tail of
                     Some (r2, tail') \<Rightarrow> (utf8_encode (65536 + (r - 55296) * 1024 + (r2 - 56320)), tail')
                   | None \<Rightarrow> (replacement_rune, tail))
                else if 56320 \<le> r \<and> r < 57344 then (replacement_rune, tail)
                else (utf8_encode r, tail))
         | e # tail \<Rightarrow> ([escape_char e], tail)
         | [] \<Rightarrow> ([], []))
      else
        (case utf8_first c of
           None \<Rightarrow> (replacement_rune, rest)
         | Some ranges \<Rightarrow>
             (case utf8_take ranges rest of
                None \<Rightarrow> (replacement_rune, rest)
              | Some (taken, tail) \<Rightarrow> (c # taken, tail))))"

lemma utf8_take_shorter: "utf8_take rs cs = Some (taken, tail) \<Longrightarrow> length tail \<le> length cs"
  by (induction rs cs arbitrary: taken rule: utf8_take.induct) (fastforce split: if_splits)+

lemma low_surrogate_shorter: "low_surrogate s = Some (r, tail) \<Longrightarrow> length tail \<le> length s"
  by (auto simp: low_surrogate_def split: list.splits if_splits)

lemma unquote_rune_shorter: "length (snd (unquote_rune c rest)) \<le> length rest"
proof (cases "c = CHR 0x5C")
  case True
  then show ?thesis
    by (auto simp: unquote_rune_def Let_def split: list.splits option.splits dest!: low_surrogate_shorter)
next
  case False
  then show ?thesis
    by (auto simp: unquote_rune_def split: option.splits dest!: utf8_take_shorter)
qed

function unquote :: "string \<Rightarrow> string" where
  "unquote [] = []"
| "unquote (c # rest) = fst (unquote_rune c rest) @ unquote (snd (unquote_rune c rest))"
  by pat_completeness auto
termination
  by (relation "measure length") (simp_all add: le_imp_less_Suc unquote_rune_shorter)

section \<open>Values\<close>

definition maxNestingDepth :: int where "maxNestingDepth = 10000"

datatype frame = InArr | InObj

datatype parse_mode =
    WantValue | WantValueOrEnd | WantKey | WantKeyOrEnd | WantColon | AfterValue | Finished

text \<open>What is read next, and the open arrays and objects, innermost first.\<close>

type_synonym parser = "parse_mode \<times> frame list"

definition value_done :: "frame list \<Rightarrow> parser" where
  "value_done fs = (if fs = [] then Finished else AfterValue, fs)"

definition push_frame :: "parse_mode \<Rightarrow> frame \<Rightarrow> frame list \<Rightarrow> parser option" where
  "push_frame m f fs = (if int (length fs) < maxNestingDepth then Some (m, f # fs) else None)"

fun begin_value :: "token \<Rightarrow> frame list \<Rightarrow> parser option" where
  "begin_value TLBrace fs = push_frame WantKeyOrEnd InObj fs"
| "begin_value TLBrack fs = push_frame WantValueOrEnd InArr fs"
| "begin_value (TStr raw) fs = Some (value_done fs)"
| "begin_value (TNum s) fs = Some (value_done fs)"
| "begin_value TTrue fs = Some (value_done fs)"
| "begin_value TFalse fs = Some (value_done fs)"
| "begin_value TNull fs = Some (value_done fs)"
| "begin_value _ fs = None"

fun end_frame :: "token \<Rightarrow> frame list \<Rightarrow> parser option" where
  "end_frame TRBrack (InArr # fs) = Some (value_done fs)"
| "end_frame TRBrace (InObj # fs) = Some (value_done fs)"
| "end_frame _ _ = None"

fun with_key :: "token \<Rightarrow> frame list \<Rightarrow> parser option" where
  "with_key (TStr raw) fs = Some (WantColon, fs)"
| "with_key _ _ = None"

fun next_part :: "frame list \<Rightarrow> parser option" where
  "next_part (InArr # fs) = Some (WantValue, InArr # fs)"
| "next_part (InObj # fs) = Some (WantKey, InObj # fs)"
| "next_part [] = None"

definition is_space_token :: "token \<Rightarrow> bool" where
  "is_space_token t = (case t of TSpace c \<Rightarrow> True | _ \<Rightarrow> False)"

fun parse_step :: "parser \<Rightarrow> token \<Rightarrow> parser option" where
  "parse_step (WantValue, fs) t = begin_value t fs"
| "parse_step (WantValueOrEnd, fs) t = (if t = TRBrack then end_frame t fs else begin_value t fs)"
| "parse_step (WantKey, fs) t = with_key t fs"
| "parse_step (WantKeyOrEnd, fs) t = (if t = TRBrace then end_frame t fs else with_key t fs)"
| "parse_step (WantColon, fs) t = (if t = TColon then Some (WantValue, fs) else None)"
| "parse_step (AfterValue, fs) t = (if t = TComma then next_part fs else end_frame t fs)"
| "parse_step (Finished, fs) t = None"

fun parse_run :: "parser \<Rightarrow> token list \<Rightarrow> bool" where
  "parse_run (m, fs) [] \<longleftrightarrow> m = Finished"
| "parse_run p (t # ts) \<longleftrightarrow>
     (if is_space_token t then parse_run p ts
      else case parse_step p t of None \<Rightarrow> False | Some p' \<Rightarrow> parse_run p' ts)"

definition is_value :: "token list \<Rightarrow> bool" where
  "is_value ts = parse_run (WantValue, []) ts"

text \<open>The tokens of a JSON text; \<open>None\<close> is a syntax error.\<close>

definition json_read :: "string \<Rightarrow> token list option" where
  "json_read s =
     (case json_tokens s of None \<Rightarrow> None | Some ts \<Rightarrow> if is_value ts then Some ts else None)"

definition json_valid :: "string \<Rightarrow> bool" where
  "json_valid s \<longleftrightarrow> json_read s \<noteq> None"

section \<open>Text and Compact\<close>

fun token_text :: "token \<Rightarrow> string" where
  "token_text TLBrace = ''{''"
| "token_text TRBrace = ''}''"
| "token_text TLBrack = ''[''"
| "token_text TRBrack = '']''"
| "token_text TColon = '':''"
| "token_text TComma = '',''"
| "token_text (TStr raw) = CHR 0x22 # raw @ [CHR 0x22]"
| "token_text (TNum s) = s"
| "token_text TTrue = ''true''"
| "token_text TFalse = ''false''"
| "token_text TNull = ''null''"
| "token_text (TSpace c) = [c]"

definition raw_text :: "token list \<Rightarrow> string" where
  "raw_text ts = concat (map token_text ts)"

definition no_space :: "token list \<Rightarrow> token list" where
  "no_space ts = filter (\<lambda>t. \<not> is_space_token t) ts"

definition json_compact :: "string \<Rightarrow> string option" where
  "json_compact s = map_option (\<lambda>ts. raw_text (no_space ts)) (json_read s)"

section \<open>The lexer loses nothing\<close>

fun pending :: "lex_state \<Rightarrow> string" where
  "pending LexStart = []"
| "pending (LexStr acc) = CHR 0x22 # rev acc"
| "pending (LexEsc acc) = CHR 0x22 # rev acc"
| "pending (LexHex n acc) = CHR 0x22 # rev acc"
| "pending (LexNum acc) = rev acc"
| "pending (LexWord acc) = rev acc"

lemma raw_text_simps [simp]:
  "raw_text [] = []" "raw_text (t # ts) = token_text t @ raw_text ts" "raw_text (ts @ us) = raw_text ts @ raw_text us"
  by (simp_all add: raw_text_def)

lemma number_token_text: "number_token s = Some t \<Longrightarrow> t = TNum s \<and> valid_number s"
  by (auto simp: number_token_def split: if_splits)

lemma word_token_text: "word_token s = Some t \<Longrightarrow> token_text t = s \<and> t \<in> {TTrue, TFalse, TNull}"
  by (auto simp: word_token_def split: if_splits)

lemma punctuation_text: "map_of punctuation c = Some t \<Longrightarrow> token_text t = [c]"
  by (drule map_of_SomeD) (auto simp: punctuation_def)

lemma lex_first_text: "lex_first c = Some (st, ts) \<Longrightarrow> raw_text ts @ pending st = [c]"
  by (auto simp: lex_first_def punctuation_text split: if_split_asm option.split_asm)

lemma then_first_text:
  assumes "then_first t c = Some (st, ts)"
  obtains x us where "t = Some x" and "ts = x # us" and "raw_text us @ pending st = [c]"
  using assms lex_first_text by (auto simp: then_first_def split: option.splits)

lemma lex_step_text: "lex_step st c = Some (st', ts) \<Longrightarrow> raw_text ts @ pending st' = pending st @ [c]"
proof (cases st)
  case LexStart
  then show "lex_step st c = Some (st', ts) \<Longrightarrow> ?thesis" by (simp add: lex_first_text)
next
  case (LexNum acc)
  then show "lex_step st c = Some (st', ts) \<Longrightarrow> ?thesis"
    by (cases "is_num_char c") (auto elim!: then_first_text dest!: number_token_text)
next
  case (LexWord acc)
  then show "lex_step st c = Some (st', ts) \<Longrightarrow> ?thesis"
    by (cases "is_lower_char c") (auto elim!: then_first_text dest!: word_token_text)
qed (auto split: if_splits)

lemma lex_run_text: "lex_run st cs = Some ts \<Longrightarrow> raw_text ts = pending st @ cs"
proof (induction cs arbitrary: st ts)
  case Nil
  then show ?case by (cases st) (auto dest!: number_token_text word_token_text)
next
  case (Cons c cs)
  then show ?case by (fastforce split: option.splits dest!: lex_step_text)
qed

lemma json_tokens_text: "json_tokens s = Some ts \<Longrightarrow> raw_text ts = s"
  using lex_run_text [of LexStart s ts] by (simp add: json_tokens_def)

section \<open>Compacted text reads as the same tokens\<close>

fun lex_steps :: "lex_state \<Rightarrow> string \<Rightarrow> (lex_state \<times> token list) option" where
  "lex_steps st [] = Some (st, [])"
| "lex_steps st (c # cs) =
     (case lex_step st c of
        None \<Rightarrow> None
      | Some (st', ts) \<Rightarrow> map_option (\<lambda>(st'', us). (st'', ts @ us)) (lex_steps st' cs))"

lemma append_section: "(@) [] = (\<lambda>x. x)" "(@) (t # us) = (\<lambda>x. t # us @ x)" "(@) (us @ vs) = (\<lambda>x. us @ vs @ x)"
  by (simp_all add: fun_eq_iff)

lemma lex_run_append:
  "lex_run st (xs @ ys) =
     (case lex_steps st xs of None \<Rightarrow> None | Some (st', ts) \<Rightarrow> map_option (\<lambda>us. ts @ us) (lex_run st' ys))"
  by (induction xs arbitrary: st) (auto simp: option.map_comp comp_def append_section option.map_ident split: option.splits)

lemma lex_steps_snoc:
  "lex_steps st xs = Some (st', ts) \<Longrightarrow> lex_step st' c = Some (st'', us) \<Longrightarrow> lex_steps st (xs @ [c]) = Some (st'', ts @ us)"
  by (induction xs arbitrary: st ts) (auto split: option.splits)

text \<open>A token as the lexer makes it: its text leads from the start state to it.\<close>

definition wf_token :: "token \<Rightarrow> bool" where
  "wf_token t =
     (case t of
        TNum s \<Rightarrow> valid_number s \<and> lex_steps LexStart s = Some (LexNum (rev s), [])
      | TStr raw \<Rightarrow> lex_steps LexStart (token_text t) = Some (LexStart, [t])
      | TSpace c \<Rightarrow> is_json_space c
      | _ \<Rightarrow> True)"

definition lexed_from_start :: "lex_state \<Rightarrow> bool" where
  "lexed_from_start st \<longleftrightarrow> lex_steps LexStart (pending st) = Some (st, [])"

lemma lexed_start [simp]: "lexed_from_start LexStart"
  by (simp add: lexed_from_start_def)

lemma lex_first_wf: "lex_first c = Some (st, ts) \<Longrightarrow> lexed_from_start st \<and> list_all wf_token ts"
proof -
  assume eq: "lex_first c = Some (st, ts)"
  have "wf_token t" if "map_of punctuation c = Some t" for t
    using map_of_SomeD [OF that] by (auto simp: punctuation_def wf_token_def)
  moreover have "lexed_from_start st" if "st \<noteq> LexStart" "ts = []"
    using eq that lex_first_text [OF eq] by (auto simp: lexed_from_start_def)
  ultimately show ?thesis
    using eq by (auto simp: lex_first_def wf_token_def split: if_split_asm option.split_asm)
qed

lemma then_first_wf:
  assumes "then_first t c = Some (st, ts)" and "\<And>x. t = Some x \<Longrightarrow> wf_token x"
  shows "lexed_from_start st \<and> list_all wf_token ts"
proof -
  from assms(1) obtain x us where "t = Some x" "ts = x # us" "lex_first c = Some (st, us)"
    by (auto simp: then_first_def split: option.splits)
  with assms(2) lex_first_wf show ?thesis by simp
qed

lemma lex_step_wf:
  assumes eq: "lex_step st c = Some (st', ts)" and st: "lexed_from_start st"
  shows "lexed_from_start st' \<and> list_all wf_token ts"
proof -
  have silent: "lexed_from_start st'" if "ts = []"
    using lex_steps_snoc [OF st [unfolded lexed_from_start_def] eq] lex_step_text [OF eq] that
    by (simp add: lexed_from_start_def)
  show ?thesis
  proof (cases st)
    case LexStart
    with eq show ?thesis by (simp add: lex_first_wf)
  next
    case (LexStr acc)
    have "wf_token (TStr (rev acc))" if "c = CHR 0x22"
      using lex_steps_snoc [OF st [unfolded lexed_from_start_def] eq] that LexStr eq by (auto simp: wf_token_def)
    with LexStr eq silent show ?thesis by (auto split: if_split_asm)
  next
    case (LexNum acc)
    have "wf_token x" if "number_token (rev acc) = Some x" for x
      using number_token_text [OF that] st LexNum by (simp add: lexed_from_start_def wf_token_def)
    with LexNum eq silent then_first_wf show ?thesis by (cases "is_num_char c") auto
  next
    case (LexWord acc)
    have "wf_token x" if "word_token (rev acc) = Some x" for x
      using word_token_text [OF that] by (auto simp: wf_token_def)
    with LexWord eq silent then_first_wf show ?thesis by (cases "is_lower_char c") auto
  qed (use eq silent in \<open>auto split: if_split_asm\<close>)
qed

lemma lex_run_wf: "lex_run st cs = Some ts \<Longrightarrow> lexed_from_start st \<Longrightarrow> list_all wf_token ts"
proof (induction cs arbitrary: st ts)
  case Nil
  then show ?case
    by (cases st) (auto simp: wf_token_def lexed_from_start_def dest!: number_token_text word_token_text)
next
  case (Cons c cs)
  then show ?case by (fastforce split: option.splits dest!: lex_step_wf)
qed

lemma json_tokens_wf: "json_tokens s = Some ts \<Longrightarrow> list_all wf_token ts"
  by (simp add: json_tokens_def lex_run_wf)

definition is_atom :: "token \<Rightarrow> bool" where
  "is_atom t = (case t of TNum s \<Rightarrow> True | TTrue \<Rightarrow> True | TFalse \<Rightarrow> True | TNull \<Rightarrow> True | _ \<Rightarrow> False)"

fun separated :: "token list \<Rightarrow> bool" where
  "separated (t # u # ts) \<longleftrightarrow> \<not> (is_atom t \<and> is_atom u) \<and> separated (u # ts)"
| "separated _ = True"

text \<open>A token that is not a number or a word stands for itself; an atom needs a byte that ends it.\<close>

lemma relex_closed:
  assumes "wf_token t" and "\<not> is_atom t"
  shows "lex_run LexStart (token_text t @ rest) = map_option ((#) t) (lex_run LexStart rest)"
proof -
  have "lex_steps LexStart (token_text t) = Some (LexStart, [t])"
    using assms by (cases t) (auto simp: wf_token_def is_atom_def lex_first_def punctuation_def is_json_space_def)
  then show ?thesis by (simp add: lex_run_append append_section)
qed

definition ends_atom :: "char \<Rightarrow> bool" where
  "ends_atom c \<longleftrightarrow> \<not> is_num_char c \<and> \<not> is_lower_char c"

lemma relex_open:
  assumes "lex_steps LexStart s = Some (st, [])"
    and "(\<exists>acc. st = LexNum acc \<and> number_token (rev acc) = Some t) \<or> (\<exists>acc. st = LexWord acc \<and> word_token (rev acc) = Some t)"
    and "rest = [] \<or> ends_atom (hd rest)"
  shows "lex_run LexStart (s @ rest) = map_option ((#) t) (lex_run LexStart rest)"
proof (cases rest)
  case Nil
  with assms lex_run_append [of LexStart s "[]"] show ?thesis by auto
next
  case (Cons c cs)
  with assms show ?thesis
    by (auto simp: lex_run_append ends_atom_def then_first_def option.map_comp comp_def append_section option.map_ident
        split: option.splits)
qed

lemma lex_steps_words:
  "lex_steps LexStart ''true'' = Some (LexWord (rev ''true''), [])"
  "lex_steps LexStart ''false'' = Some (LexWord (rev ''false''), [])"
  "lex_steps LexStart ''null'' = Some (LexWord (rev ''null''), [])"
  by code_simp+

lemma relex_atom:
  assumes "wf_token t" and "is_atom t" and "rest = [] \<or> ends_atom (hd rest)"
  shows "lex_run LexStart (token_text t @ rest) = map_option ((#) t) (lex_run LexStart rest)"
proof (cases t)
  case (TNum s)
  with assms relex_open [of s "LexNum (rev s)" t rest] show ?thesis by (simp add: wf_token_def number_token_def)
next
  case TTrue
  then show ?thesis
    using relex_open [OF lex_steps_words(1) _ assms(3), of t] by (simp add: word_token_def)
next
  case TFalse
  then show ?thesis
    using relex_open [OF lex_steps_words(2) _ assms(3), of t] by (simp add: word_token_def)
next
  case TNull
  then show ?thesis
    using relex_open [OF lex_steps_words(3) _ assms(3), of t] by (simp add: word_token_def)
qed (use assms(2) in \<open>simp_all add: is_atom_def\<close>)

lemma closed_token_first: "wf_token t \<Longrightarrow> \<not> is_atom t \<Longrightarrow> token_text t \<noteq> [] \<and> ends_atom (hd (token_text t))"
  by (cases t) (simp_all add: wf_token_def is_atom_def ends_atom_def is_num_char_def is_lower_char_def is_digit_char_def is_json_space_def,
    elim disjE, simp_all)

lemma relex:
  "list_all wf_token ts \<Longrightarrow> separated ts \<Longrightarrow> json_tokens (raw_text ts) = Some ts"
  unfolding json_tokens_def
proof (induction ts)
  case (Cons t ts)
  then have run: "lex_run LexStart (raw_text ts) = Some ts" by (cases ts) auto
  have "raw_text ts = [] \<or> ends_atom (hd (raw_text ts))" if "is_atom t"
    using Cons.prems that closed_token_first by (cases ts) auto
  with Cons.prems run relex_closed relex_atom show ?case by (cases "is_atom t") auto
qed simp

lemma parse_run_separated:
  "parse_run p ts \<Longrightarrow> separated (no_space ts) \<and>
     (fst p \<in> {AfterValue, Finished} \<longrightarrow> no_space ts = [] \<or> \<not> is_atom (hd (no_space ts)))"
proof (induction p ts rule: parse_run.induct)
  case (1 m fs)
  then show ?case by (simp add: no_space_def)
next
  case (2 p t ts)
  show ?case
  proof (cases "is_space_token t")
    case True
    with 2 show ?thesis by (simp add: no_space_def)
  next
    case False
    with "2.prems" obtain p' where step: "parse_step p t = Some p'" and run: "parse_run p' ts"
      by (auto split: option.splits)
    have "\<not> is_atom t" if "fst p \<in> {AfterValue, Finished}"
      using step that by (cases p; cases t) (auto simp: is_atom_def)
    moreover have "fst p' \<in> {AfterValue, Finished}" if "is_atom t"
      using step that by (cases p; cases "fst p"; cases t) (auto simp: is_atom_def value_done_def)
    moreover have "separated (t # us)" if "separated us" "is_atom t \<longrightarrow> us = [] \<or> \<not> is_atom (hd us)" for us
      using that by (cases us) auto
    ultimately show ?thesis
      using "2.IH"(2) [OF False step run] False by (auto simp: no_space_def)
  qed
qed

lemma parse_run_no_space: "parse_run p (no_space ts) = parse_run p ts"
  by (induction p ts rule: parse_run.induct) (auto simp: no_space_def split: option.splits)

lemma no_space_wf: "list_all wf_token ts \<Longrightarrow> list_all wf_token (no_space ts)"
  by (simp add: no_space_def list_all_iff)

lemma json_read_compact:
  assumes "json_read s = Some ts"
  shows "json_read (raw_text (no_space ts)) = Some (no_space ts)"
proof -
  from assms have ts: "json_tokens s = Some ts" "is_value ts"
    by (auto simp: json_read_def split: option.splits if_splits)
  then have "json_tokens (raw_text (no_space ts)) = Some (no_space ts)"
    using parse_run_separated by (intro relex no_space_wf json_tokens_wf) (auto simp: is_value_def)
  with ts show ?thesis by (simp add: json_read_def is_value_def parse_run_no_space)
qed

lemma no_space_idem [simp]: "no_space (no_space ts) = no_space ts"
  by (simp add: no_space_def)

section \<open>Compacted text is one trimmed line\<close>

text \<open>A control byte is read only as white space between tokens.\<close>

lemma digit_byte: "is_digit_char c \<longleftrightarrow> 48 \<le> byte c \<and> byte c \<le> 57"
  using of_nat_of_char [of c, where ?'a = int] unfolding is_digit_char_def by linarith

lemma lower_byte: "is_lower_char c \<longleftrightarrow> 97 \<le> byte c \<and> byte c \<le> 122"
  using of_nat_of_char [of c, where ?'a = int] unfolding is_lower_char_def by linarith

lemma num_char_range: "is_num_char c \<Longrightarrow> 32 < byte c \<and> byte c < 128"
  by (auto simp: is_num_char_def digit_byte)

lemma punctuation_range: "map_of punctuation c = Some t \<Longrightarrow> 32 < byte c"
  by (drule map_of_SomeD) (auto simp: punctuation_def)

lemma lex_first_control:
  assumes "lex_first c = Some (st, ts)" and "byte c < 32"
  shows "\<exists>t \<in> set ts. is_space_token t"
proof (cases "is_json_space c")
  case True
  with assms(1) show ?thesis by (auto simp: lex_first_def is_space_token_def)
next
  case False
  have "c \<noteq> CHR 0x22" "c \<noteq> CHR ''-''" "map_of punctuation c = None"
    using assms(2) punctuation_range by (auto simp: not_less dest: less_imp_not_less) (metis assms(2) less_asym option.exhaust)
  with False assms show ?thesis by (simp add: lex_first_def digit_byte lower_byte)
qed

lemma then_first_control:
  "then_first x c = Some (st, ts) \<Longrightarrow> byte c < 32 \<Longrightarrow> \<exists>t \<in> set ts. is_space_token t"
  using lex_first_control by (fastforce simp: then_first_def split: option.splits)

lemma lex_step_control:
  assumes "lex_step st c = Some (st', ts)" and "byte c < 32"
  shows "\<exists>t \<in> set ts. is_space_token t"
proof (cases st)
  case LexStart
  with assms lex_first_control show ?thesis by simp
next
  case (LexNum acc)
  with assms num_char_range [of c] then_first_control show ?thesis by (cases "is_num_char c") auto
next
  case (LexWord acc)
  with assms then_first_control show ?thesis by (auto simp: lower_byte)
qed (use assms in \<open>auto simp: is_hex_char_def digit_byte split: if_splits\<close>)

lemma lex_steps_control:
  "lex_steps st cs = Some (st', ts) \<Longrightarrow> c \<in> set cs \<Longrightarrow> byte c < 32 \<Longrightarrow> \<exists>t \<in> set ts. is_space_token t"
  by (induction cs arbitrary: st ts) (fastforce split: option.splits dest: lex_step_control)+

lemma num_run_chars: "num_run st cs \<Longrightarrow> c \<in> set cs \<Longrightarrow> is_num_char c"
proof (induction cs arbitrary: st)
  case (Cons d cs)
  have "is_num_char d" if "num_step st d = Some st'" for st'
    using that by (cases st) (auto simp: is_num_char_def digit_byte split: if_splits)
  with Cons show ?case by (auto split: option.splits)
qed simp

lemma valid_number_chars: "valid_number s \<Longrightarrow> s \<noteq> [] \<and> (\<forall>c \<in> set s. is_num_char c)"
  by (auto simp: valid_number_def split: list.splits if_splits dest: num_run_chars simp: is_num_char_def digit_byte)

definition graphic :: "char \<Rightarrow> bool" where
  "graphic c \<longleftrightarrow> 32 < byte c \<and> byte c < 128"

lemma token_text_graphic:
  assumes "wf_token t" and "\<not> is_space_token t"
  shows "token_text t \<noteq> [] \<and> graphic (hd (token_text t)) \<and> graphic (last (token_text t)) \<and>
    (\<forall>c \<in> set (token_text t). 32 \<le> byte c)"
proof (cases t)
  case (TStr raw)
  then have "lex_steps LexStart (token_text t) = Some (LexStart, [t])" using assms by (simp add: wf_token_def)
  from lex_steps_control [OF this] have "\<forall>c \<in> set (token_text t). 32 \<le> byte c"
    using assms(2) by (force simp: not_less)
  with TStr show ?thesis by (simp add: graphic_def)
next
  case (TNum s)
  then have "s \<noteq> [] \<and> (\<forall>c \<in> set s. graphic c)"
    using assms valid_number_chars num_char_range by (auto simp: wf_token_def graphic_def)
  with TNum show ?thesis by (auto simp: graphic_def)
qed (use assms in \<open>simp_all add: graphic_def is_space_token_def\<close>)

lemma raw_text_graphic:
  assumes "list_all wf_token ts" and "list_all (\<lambda>t. \<not> is_space_token t) ts" and "ts \<noteq> []"
  shows "raw_text ts \<noteq> [] \<and> graphic (hd (raw_text ts)) \<and> graphic (last (raw_text ts)) \<and>
    (\<forall>c \<in> set (raw_text ts). 32 \<le> byte c)"
  using assms
proof (induction ts)
  case (Cons t ts)
  with token_text_graphic [of t] show ?case by (cases ts) auto
qed simp

lemma graphic_no_space:
  "graphic c \<Longrightarrow> r \<in> set space_runes \<union> set (map rev space_runes) \<Longrightarrow> \<not> prefix r (c # s)"
  by (auto simp: graphic_def space_runes_def)

lemma trim_graphic: "p \<noteq> [] \<Longrightarrow> graphic (hd p) \<Longrightarrow> graphic (last p) \<Longrightarrow> trim_space p = p"
proof -
  assume p: "p \<noteq> []" "graphic (hd p)" "graphic (last p)"
  obtain c s where 1: "p = c # s" using p by (cases p) auto
  obtain d u where 2: "p = u @ [d]" using p by (cases p rule: rev_cases) auto
  have "cut_rune space_runes p = None"
    using graphic_no_space [of c _ s] p(2) by (auto simp: cut_rune_None 1)
  moreover have "cut_rune (map rev space_runes) (rev p) = None"
    using graphic_no_space [of d _ "rev u"] p(3) by (auto simp: cut_rune_None 2)
  ultimately show "trim_space p = p" by (simp add: trim_space_def trim_runes_id)
qed

lemma is_value_tokens: "is_value ts \<Longrightarrow> no_space ts \<noteq> []"
  using parse_run_no_space [of "(WantValue, [])" ts] by (auto simp: is_value_def)

text \<open>
  What \<open>Compact\<close> returns: the bytes of the same tokens without the space between them, a text
  that compacts to itself, has no control bytes and nothing to trim.
\<close>

lemma json_compact_read:
  assumes "json_compact s = Some p"
  obtains ts where "json_read s = Some ts" "p = raw_text (no_space ts)" "json_read p = Some (no_space ts)"
    "json_compact p = Some p" "p \<noteq> []" "trim_space p = p" "\<forall>c \<in> set p. 32 \<le> byte c"
proof -
  from assms obtain ts where ts: "json_read s = Some ts" "p = raw_text (no_space ts)"
    by (auto simp: json_compact_def)
  then have v: "json_tokens s = Some ts" "is_value ts"
    by (auto simp: json_read_def split: option.splits if_splits)
  have "list_all (\<lambda>t. \<not> is_space_token t) (no_space ts)" by (simp add: no_space_def list_all_iff)
  from raw_text_graphic [OF no_space_wf [OF json_tokens_wf [OF v(1)]] this is_value_tokens [OF v(2)]]
  have "p \<noteq> []" "trim_space p = p" "\<forall>c \<in> set p. 32 \<le> byte c" using trim_graphic ts(2) by auto
  moreover have "json_read p = Some (no_space ts)" using json_read_compact ts by simp
  ultimately show ?thesis using that ts by (simp add: json_compact_def)
qed

lemma json_compact_length: "json_compact s = Some p \<Longrightarrow> length p \<le> length s"
proof -
  assume "json_compact s = Some p"
  then obtain ts where ts: "json_read s = Some ts" "p = raw_text (no_space ts)" by (rule json_compact_read)
  then have "raw_text ts = s" using json_tokens_text by (auto simp: json_read_def split: option.splits if_splits)
  moreover have "length (raw_text (no_space us)) \<le> length (raw_text us)" for us
    by (induction us) (auto simp: no_space_def)
  ultimately show ?thesis using ts(2) by metis
qed

end
