(* ===== verification/JsonDecode.thy ===== *)
theory JsonDecode
  imports GoJson
begin

text \<open>
  \<open>json.Unmarshal\<close> over the tokens of a value, for the targets the code decodes into: strings,
  integers and pointers to them, \<open>json.RawMessage\<close>, maps of raw messages, structs and slices.
  A raw message is the token list of its bytes, \<open>[]\<close> when it is absent; a decoder returns
  \<open>None\<close> for an \<open>UnmarshalTypeError\<close>, after which no caller looks at the target.
\<close>

type_synonym raw = "token list"

section \<open>Parts of a value\<close>

definition strip :: "raw \<Rightarrow> raw" where
  "strip ts = rev (dropWhile is_space_token (rev (dropWhile is_space_token ts)))"

definition nest :: "token \<Rightarrow> int" where
  "nest t = (if t = TLBrace \<or> t = TLBrack then 1 else if t = TRBrace \<or> t = TRBrack then - 1 else 0)"

text \<open>Cut at the commas that are not inside a nested array or object.\<close>

fun split_parts :: "int \<Rightarrow> raw \<Rightarrow> raw \<Rightarrow> raw list" where
  "split_parts depth acc [] = [rev acc]"
| "split_parts depth acc (t # ts) =
     (if t = TComma \<and> depth = 0 then rev acc # split_parts 0 [] ts
      else split_parts (depth + nest t) (t # acc) ts)"

definition inner :: "raw \<Rightarrow> raw" where
  "inner ts = butlast (tl (strip ts))"

definition elements :: "raw \<Rightarrow> raw list" where
  "elements ts = (if strip (inner ts) = [] then [] else map strip (split_parts 0 [] (inner ts)))"

definition member :: "raw \<Rightarrow> string \<times> raw" where
  "member part =
     (case part of
        TStr key # rest \<Rightarrow> (unquote key, strip (tl (dropWhile (\<lambda>t. t \<noteq> TColon) rest)))
      | _ \<Rightarrow> ([], []))"

definition members :: "raw \<Rightarrow> (string \<times> raw) list" where
  "members ts = map member (elements ts)"

section \<open>Scalars\<close>

text \<open>\<open>strconv.ParseInt\<close> on a number literal.\<close>

definition parse_int64 :: "string \<Rightarrow> int option" where
  "parse_int64 s =
     (let neg = (take 1 s = ''-''); ds = (if neg then drop 1 s else s);
          n = (if neg then - int (digits_value 0 ds) else int (digits_value 0 ds)) in
      if ds \<noteq> [] \<and> list_all is_digit_char ds \<and> is_int64 n then Some n else None)"

definition scalar :: "raw \<Rightarrow> token option" where
  "scalar r = (case strip r of [t] \<Rightarrow> Some t | _ \<Rightarrow> None)"

definition decode_string :: "string \<Rightarrow> raw \<Rightarrow> string option" where
  "decode_string old r =
     (case scalar r of Some (TStr s) \<Rightarrow> Some (unquote s) | Some TNull \<Rightarrow> Some old | _ \<Rightarrow> None)"

definition decode_string_ptr :: "raw \<Rightarrow> string option option" where
  "decode_string_ptr r =
     (case scalar r of Some (TStr s) \<Rightarrow> Some (Some (unquote s)) | Some TNull \<Rightarrow> Some None | _ \<Rightarrow> None)"

definition decode_int_ptr :: "raw \<Rightarrow> int option option" where
  "decode_int_ptr r =
     (case scalar r of Some (TNum s) \<Rightarrow> map_option Some (parse_int64 s) | Some TNull \<Rightarrow> Some None | _ \<Rightarrow> None)"

section \<open>Maps, structs and slices\<close>

definition is_object :: "raw \<Rightarrow> bool" where
  "is_object r \<longleftrightarrow> take 1 (strip r) = [TLBrace]"

definition is_array :: "raw \<Rightarrow> bool" where
  "is_array r \<longleftrightarrow> take 1 (strip r) = [TLBrack]"

text \<open>A \<open>map[string]json.RawMessage\<close>; \<open>Some None\<close> is the nil map of \<open>null\<close>.\<close>

definition decode_map :: "raw \<Rightarrow> (string \<times> raw) list option option" where
  "decode_map r =
     (if is_object r then Some (Some (members r)) else if strip r = [TNull] then Some None else None)"

definition map_get :: "(string \<times> raw) list \<Rightarrow> string \<Rightarrow> raw" where
  "map_get ms key = (case map_of (rev ms) key of None \<Rightarrow> [] | Some r \<Rightarrow> r)"

text \<open>
  The struct field a member belongs to: the one of its name, otherwise the one whose name is the
  same up to case. Outside ASCII only U+212A and U+017F fold to a letter of a field name.
\<close>

fun fold_name :: "string \<Rightarrow> string" where
  "fold_name [] = []"
| "fold_name (c # s) =
     (if c = CHR 0xE2 \<and> take 2 s = [CHR 0x84, CHR 0xAA] then CHR ''k'' # fold_name (drop 2 s)
      else if c = CHR 0xC5 \<and> take 1 s = [CHR 0xBF] then CHR ''s'' # fold_name (drop 1 s)
      else lower_char c # fold_name s)"

definition field_of :: "string list \<Rightarrow> string \<Rightarrow> string option" where
  "field_of names key =
     (if key \<in> set names then Some key else find (\<lambda>n. fold_name n = fold_name key) names)"

text \<open>A field's decoder takes the struct, so that it can decode into the value already there.\<close>

type_synonym 'a fields = "(string \<times> (raw \<Rightarrow> 'a \<Rightarrow> 'a option)) list"

fun decode_members :: "'a fields \<Rightarrow> (string \<times> raw) list \<Rightarrow> 'a \<Rightarrow> 'a option" where
  "decode_members fields [] x = Some x"
| "decode_members fields ((key, r) # ms) x =
     (case field_of (map fst fields) key of
        None \<Rightarrow> decode_members fields ms x
      | Some name \<Rightarrow>
          (case the (map_of fields name) r x of None \<Rightarrow> None | Some x' \<Rightarrow> decode_members fields ms x'))"

definition decode_struct :: "'a fields \<Rightarrow> 'a \<Rightarrow> raw \<Rightarrow> 'a option" where
  "decode_struct fields x r =
     (if is_object r then decode_members fields (members r) x
      else if strip r = [TNull] then Some x else None)"

definition decode_struct_ptr :: "'a fields \<Rightarrow> 'a \<Rightarrow> 'a option \<Rightarrow> raw \<Rightarrow> 'a option option" where
  "decode_struct_ptr fields zero old r =
     (if strip r = [TNull] then Some None
      else map_option Some (decode_struct fields (case old of None \<Rightarrow> zero | Some x \<Rightarrow> x) r))"

text \<open>
  A slice is its backing array and its length: decoding an array writes over the elements that
  are there, also those beyond the length, and grows with zero values.
\<close>

type_synonym 'a slice = "'a list \<times> nat"

definition slice_list :: "'a slice \<Rightarrow> 'a list" where
  "slice_list s = take (snd s) (fst s)"

fun decode_elements :: "('a \<Rightarrow> raw \<Rightarrow> 'a option) \<Rightarrow> 'a \<Rightarrow> raw list \<Rightarrow> 'a list \<Rightarrow> 'a list option" where
  "decode_elements dec zero [] old = Some old"
| "decode_elements dec zero (r # rs) old =
     (case dec (case old of [] \<Rightarrow> zero | x # xs \<Rightarrow> x) r of
        None \<Rightarrow> None
      | Some y \<Rightarrow> map_option ((#) y) (decode_elements dec zero rs (tl old)))"

definition decode_slice :: "('a \<Rightarrow> raw \<Rightarrow> 'a option) \<Rightarrow> 'a \<Rightarrow> 'a slice \<Rightarrow> raw \<Rightarrow> 'a slice option" where
  "decode_slice dec zero old r =
     (if is_array r then
        (if elements r = [] then Some ([], 0)
         else map_option (\<lambda>xs. (xs, length (elements r))) (decode_elements dec zero (elements r) (fst old)))
      else if strip r = [TNull] then Some ([], 0) else None)"

section \<open>White space does not matter\<close>

lemma no_space_dropWhile: "no_space (dropWhile is_space_token ts) = no_space ts"
  by (induction ts) (simp_all add: no_space_def)

lemma no_space_rev: "no_space (rev ts) = rev (no_space ts)"
  by (simp add: no_space_def rev_filter)

lemma no_space_strip [simp]: "no_space (strip ts) = no_space ts"
  by (simp add: strip_def no_space_rev no_space_dropWhile)

lemma dropWhile_no_space: "dropWhile is_space_token (no_space ts) = no_space ts"
  by (cases "no_space ts") (auto simp: dropWhile_eq_self_iff no_space_def filter_eq_Cons_iff)

lemma strip_no_space [simp]: "strip (no_space ts) = no_space ts"
proof -
  have "dropWhile is_space_token (rev (no_space ts)) = rev (no_space ts)"
    using dropWhile_no_space [of "rev ts"] by (simp add: no_space_rev)
  then show ?thesis by (simp add: strip_def dropWhile_no_space)
qed

lemma strip_ends:
  "strip ts = [] \<or> (\<not> is_space_token (hd (strip ts)) \<and> \<not> is_space_token (last (strip ts)))"
proof -
  define u where "u = dropWhile is_space_token ts"
  have u: "u = [] \<or> \<not> is_space_token (hd u)" using hd_dropWhile [of is_space_token ts] by (auto simp: u_def)
  define v where "v = dropWhile is_space_token (rev u)"
  have v: "v = [] \<or> \<not> is_space_token (hd v)"
    using hd_dropWhile [of is_space_token "rev u"] by (auto simp: v_def)
  have "v = [] \<or> last v = hd u"
  proof -
    obtain w where "rev u = w @ v" using suffix_dropWhile [of is_space_token "rev u"] by (auto simp: v_def suffix_def)
    then have "u = rev v @ rev w" by (metis rev_append rev_rev_ident)
    then show ?thesis by (cases v rule: rev_cases) auto
  qed
  moreover have "strip ts = rev v" by (simp add: strip_def v_def u_def)
  moreover have "v = []" if "u = []" using that by (simp add: v_def)
  ultimately show ?thesis using u v by (auto simp: hd_rev last_rev)
qed

lemma strip_singleton: "strip r = [t] \<longleftrightarrow> no_space r = [t]"
proof
  assume "strip r = [t]"
  then show "no_space r = [t]"
    using strip_ends [of r] no_space_strip [of r] by (auto simp: no_space_def)
next
  assume eq: "no_space r = [t]"
  then have "no_space (strip r) = [t]" by simp
  moreover have "strip r \<noteq> []" using eq no_space_strip [of r] by (auto simp: no_space_def)
  moreover have "length us = 0" if "strip r = u # us" for u us
  proof (rule ccontr)
    assume "length us \<noteq> 0"
    then obtain vs w where "us = vs @ [w]" by (cases us rule: rev_cases) auto
    then have "length (no_space (strip r)) \<ge> 2" using that strip_ends [of r] by (simp add: no_space_def)
    with eq show False by simp
  qed
  ultimately show "strip r = [t]" using strip_ends [of r] by (cases "strip r") (auto simp: no_space_def split: if_splits)
qed

lemma strip_empty: "strip r = [] \<longleftrightarrow> no_space r = []"
  using strip_ends [of r] no_space_strip [of r] by (cases "strip r") (auto simp: no_space_def)

lemma scalar_no_space [simp]: "scalar (no_space r) = scalar r"
proof (cases "\<exists>t. strip r = [t]")
  case True
  then obtain t where "strip r = [t]" ..
  with strip_singleton [of r t] strip_no_space [of r] show ?thesis by (simp add: scalar_def del: strip_no_space)
next
  case False
  with strip_singleton [of r] show ?thesis by (auto simp: scalar_def split: list.splits)
qed

lemma decode_scalars_no_space [simp]:
  "decode_string old (no_space r) = decode_string old r"
  "decode_string_ptr (no_space r) = decode_string_ptr r"
  "decode_int_ptr (no_space r) = decode_int_ptr r"
  by (simp_all add: decode_string_def decode_string_ptr_def decode_int_ptr_def)

lemma no_space_butlast: "ts = [] \<or> \<not> is_space_token (last ts) \<Longrightarrow> no_space (butlast ts) = butlast (no_space ts)"
  by (cases ts rule: rev_cases) (simp_all add: no_space_def)

lemma no_space_head: "\<not> is_space_token t \<Longrightarrow> no_space (t # ts) = t # no_space ts"
  by (simp add: no_space_def)

lemma inner_no_space: "inner (no_space ts) = no_space (inner ts)"
proof (cases "strip ts")
  case Nil
  with strip_empty [of ts] strip_no_space [of ts] show ?thesis
    by (simp add: inner_def no_space_def del: strip_no_space)
next
  case (Cons t us)
  with strip_ends [of ts] have t: "\<not> is_space_token t" and us: "us = [] \<or> \<not> is_space_token (last us)" by auto
  have "no_space ts = t # no_space us" using no_space_strip [of ts] Cons no_space_head [OF t] by simp
  then have "strip (no_space ts) = t # no_space us" using strip_no_space [of ts] by (simp del: strip_no_space)
  with us Cons show ?thesis by (simp only: inner_def no_space_butlast list.sel)
qed

lemma split_parts_no_space:
  "map no_space (split_parts d acc ts) = split_parts d (no_space acc) (no_space ts)"
proof (induction d acc ts rule: split_parts.induct)
  case (2 d acc t ts)
  show ?case
  proof (cases "is_space_token t")
    case True
    then have "nest t = 0" "t \<noteq> TComma" by (auto simp: nest_def is_space_token_def)
    with 2 True show ?thesis by (simp add: no_space_def)
  next
    case False
    with 2 show ?thesis by (simp add: no_space_head no_space_rev) (simp add: no_space_def)
  qed
qed (simp add: no_space_rev no_space_def [of "[]"])

lemma map_strip_no_space: "map strip (map no_space tss) = map no_space tss"
  by simp

lemma elements_no_space: "elements (no_space ts) = map no_space (elements ts)"
proof -
  have "map strip (split_parts 0 [] (no_space (inner ts))) = map no_space (map strip (split_parts 0 [] (inner ts)))"
    using split_parts_no_space [of 0 "[]" "inner ts"]
    by (simp add: comp_def no_space_def [of "[]"]) (metis (no_types, lifting) list.map_comp map_strip_no_space)
  then show ?thesis by (simp add: elements_def inner_no_space strip_empty)
qed

lemma head_no_space: "take 1 (strip (no_space r)) = take 1 (strip r)"
proof (cases "strip r")
  case Nil
  with strip_empty [of r] strip_no_space [of r] show ?thesis by (simp del: strip_no_space)
next
  case (Cons t us)
  then have "no_space r = t # no_space us"
    using strip_ends [of r] no_space_strip [of r] no_space_head [of t us] by auto
  with Cons strip_no_space [of r] show ?thesis by (simp del: strip_no_space)
qed

lemma kind_no_space [simp]:
  "is_object (no_space r) = is_object r" "is_array (no_space r) = is_array r"
  "(no_space r = [TNull]) = (strip r = [TNull])"
  by (simp_all only: is_object_def is_array_def head_no_space strip_singleton)

lemma dropWhile_colon_no_space:
  "no_space (tl (dropWhile (\<lambda>t. t \<noteq> TColon) ts)) = tl (dropWhile (\<lambda>t. t \<noteq> TColon) (no_space ts))"
  by (induction ts) (auto simp: no_space_def is_space_token_def)

lemma member_no_space:
  assumes "part = [] \<or> \<not> is_space_token (hd part)"
  shows "member (no_space part) = apsnd no_space (member part)"
proof (cases part)
  case Nil
  then show ?thesis by (simp add: member_def no_space_def)
next
  case (Cons t ts)
  with assms have "no_space part = t # no_space ts" by (simp add: no_space_head)
  with Cons show ?thesis
    using strip_no_space [of "tl (dropWhile (\<lambda>t. t \<noteq> TColon) ts)"]
    by (cases t) (simp_all add: member_def dropWhile_colon_no_space no_space_def [of "[]"])
qed

lemma members_no_space: "members (no_space r) = map (apsnd no_space) (members r)"
proof -
  have "part = [] \<or> \<not> is_space_token (hd part)" if "part \<in> set (elements r)" for part
    using that strip_ends by (auto simp: elements_def split: if_splits)
  then show ?thesis by (simp add: members_def elements_no_space member_no_space)
qed

lemma map_get_no_space: "map_get (map (apsnd no_space) ms) key = no_space (map_get ms key)"
proof -
  have "map_of (rev (map (apsnd no_space) ms)) key = map_option no_space (map_of (rev ms) key)"
    by (induction ms) (auto simp: map_add_def split: option.splits)
  then show ?thesis by (simp add: map_get_def no_space_def [of "[]"] split: option.splits)
qed

lemma decode_map_no_space:
  "decode_map (no_space r) = map_option (map_option (map (apsnd no_space))) (decode_map r)"
  by (simp add: decode_map_def members_no_space)

text \<open>
  A struct decoded from tokens without white space is the struct decoded from them with it, up to
  a change \<open>h\<close> that takes the white space out of its raw messages.
\<close>

lemma decode_members_no_space:
  assumes "\<And>name dec r x. (name, dec) \<in> set fields \<Longrightarrow> dec (no_space r) (h x) = map_option h (dec r x)"
  shows "decode_members fields (map (apsnd no_space) ms) (h x) = map_option h (decode_members fields ms x)"
proof (induction ms arbitrary: x)
  case (Cons m ms)
  obtain key r where m: "m = (key, r)" by fastforce
  show ?case
  proof (cases "field_of (map fst fields) key")
    case None
    with Cons m show ?thesis by simp
  next
    case (Some name)
    then have "name \<in> fst ` set fields"
      by (auto simp: field_of_def find_Some_iff split: if_splits dest: nth_mem)
    then obtain dec where "map_of fields name = Some dec" by (metis map_of_eq_None_iff option.exhaust)
    moreover from this have "dec (no_space r) (h x) = map_option h (dec r x)"
      by (intro assms) (rule map_of_SomeD)
    ultimately show ?thesis using Some Cons m by (cases "dec r x") auto
  qed
qed simp

lemma decode_struct_no_space:
  assumes "\<And>name dec r x. (name, dec) \<in> set fields \<Longrightarrow> dec (no_space r) (h x) = map_option h (dec r x)"
  shows "decode_struct fields (h x) (no_space r) = map_option h (decode_struct fields x r)"
  using decode_members_no_space [of fields h] assms by (simp add: decode_struct_def members_no_space)

lemma decode_elements_no_space:
  assumes "\<And>x r. dec (h x) (no_space r) = map_option h (dec x r)" and "h zero = zero"
  shows "decode_elements dec zero (map no_space rs) (map h old) = map_option (map h) (decode_elements dec zero rs old)"
proof (induction rs arbitrary: old)
  case (Cons r rs)
  define x where "x = (case old of [] \<Rightarrow> zero | x # xs \<Rightarrow> x)"
  have hx: "(case map h old of [] \<Rightarrow> zero | x # xs \<Rightarrow> x) = h x"
    using assms(2) by (simp add: x_def split: list.splits)
  show ?case
    using assms(1) [of x r] Cons [of "tl old"]
    by (cases "dec x r") (simp_all add: hx flip: x_def, simp add: map_tl option.map_comp comp_def)
qed simp

lemma decode_slice_no_space:
  assumes "\<And>x r. dec (h x) (no_space r) = map_option h (dec x r)" and "h zero = zero"
  shows "decode_slice dec zero (apfst (map h) old) (no_space r) = map_option (apfst (map h)) (decode_slice dec zero old r)"
  using decode_elements_no_space [of dec h zero "elements r" "fst old", OF assms]
  by (simp add: decode_slice_def elements_no_space option.map_comp comp_def)

end
