(* ===== verification/ChunkCheck.thy ===== *)
theory ChunkCheck
  imports JsonDecode EventStream
begin

text \<open>
  The check an event's payload passes before the gateway relays it
  (\<open>validateCompatibleChatChunk\<close> of \<open>internal/provider/stream.go\<close>), and the writer that sends the
  event on (\<open>writeChatStreamEvent\<close> of \<open>internal/httpapi/chat.go\<close>). The event reader of
  \<open>EventStream\<close> is used with this check as its \<open>chunkError\<close>.
\<close>

section \<open>Raw messages\<close>

definition valuePresent :: "raw \<Rightarrow> bool" where
  "valuePresent r \<longleftrightarrow> strip r \<noteq> [] \<and> strip r \<noteq> [TNull]"

definition jsonObject :: "raw \<Rightarrow> bool" where
  "jsonObject r = (if strip r = [] \<or> hd (strip r) \<noteq> TLBrace then False else decode_map r \<notin> {None, Some None})"

section \<open>The delta of a choice\<close>

record delta_call =
  dcIndex :: "int option"
  dcID :: raw
  dcType :: raw
  dcFunction :: raw

definition delta_call_zero :: delta_call where
  "delta_call_zero = \<lparr>dcIndex = None, dcID = [], dcType = [], dcFunction = []\<rparr>"

definition delta_call_fields :: "delta_call fields" where
  "delta_call_fields =
     [(''index'', \<lambda>r x. map_option (\<lambda>i. x\<lparr>dcIndex := i\<rparr>) (decode_int_ptr r)),
      (''id'', \<lambda>r x. Some (x\<lparr>dcID := r\<rparr>)),
      (''type'', \<lambda>r x. Some (x\<lparr>dcType := r\<rparr>)),
      (''function'', \<lambda>r x. Some (x\<lparr>dcFunction := r\<rparr>))]"

text \<open>A member that is absent or null, or a string the condition accepts.\<close>

definition string_or_absent :: "(string \<Rightarrow> bool) \<Rightarrow> raw \<Rightarrow> bool" where
  "string_or_absent ok r \<longleftrightarrow>
     (valuePresent r \<longrightarrow> (case decode_string [] r of None \<Rightarrow> False | Some v \<Rightarrow> ok v))"

definition delta_call_ok :: "delta_call \<Rightarrow> bool" where
  "delta_call_ok call \<longleftrightarrow>
     (case dcIndex call of None \<Rightarrow> False | Some i \<Rightarrow> 0 \<le> i) \<and> jsonObject (dcFunction call) \<and>
     string_or_absent (\<lambda>v. v \<noteq> []) (dcID call) \<and>
     string_or_absent (\<lambda>v. v = ''function'') (dcType call) \<and>
     (case decode_map (dcFunction call) of
        None \<Rightarrow> False
      | Some f \<Rightarrow>
          string_or_absent (\<lambda>v. v \<noteq> []) (map_get (case f of None \<Rightarrow> [] | Some ms \<Rightarrow> ms) ''name'') \<and>
          string_or_absent (\<lambda>v. True) (map_get (case f of None \<Rightarrow> [] | Some ms \<Rightarrow> ms) ''arguments''))"

definition validateCompatibleStreamDelta :: "raw \<Rightarrow> goerr option" where
  "validateCompatibleStreamDelta r =
     (let bad = Some (ErrSentinel ErrInvalidStream) in
      case decode_map r of
        None \<Rightarrow> bad
      | Some None \<Rightarrow> bad
      | Some (Some delta) \<Rightarrow>
          if \<not> string_or_absent (\<lambda>v. v = ''assistant'') (map_get delta ''role'') then bad
          else if \<not> list_all (\<lambda>field. string_or_absent (\<lambda>v. True) (map_get delta field))
                      [''content'', ''reasoning_content'', ''refusal''] then bad
          else if \<not> valuePresent (map_get delta ''tool_calls'') then None
          else
            (case decode_slice (decode_struct delta_call_fields) delta_call_zero ([], 0) (map_get delta ''tool_calls'') of
               None \<Rightarrow> bad
             | Some calls \<Rightarrow>
                 if slice_list calls = [] then bad
                 else if list_all delta_call_ok (slice_list calls) then None else bad))"

section \<open>The chunk\<close>

record chunk_choice =
  chDelta :: raw

record chunk_envelope =
  ceError :: raw
  ceChoices :: "chunk_choice slice"
  ceUsage :: raw

definition chunk_choice_zero :: chunk_choice where "chunk_choice_zero = \<lparr>chDelta = []\<rparr>"

definition chunk_envelope_zero :: chunk_envelope where
  "chunk_envelope_zero = \<lparr>ceError = [], ceChoices = ([], 0), ceUsage = []\<rparr>"

definition chunk_choice_fields :: "chunk_choice fields" where
  "chunk_choice_fields = [(''delta'', \<lambda>r x. Some (x\<lparr>chDelta := r\<rparr>))]"

definition chunk_envelope_fields :: "chunk_envelope fields" where
  "chunk_envelope_fields =
     [(''error'', \<lambda>r x. Some (x\<lparr>ceError := r\<rparr>)),
      (''choices'', \<lambda>r x. map_option (\<lambda>cs. x\<lparr>ceChoices := cs\<rparr>)
         (decode_slice (decode_struct chunk_choice_fields) chunk_choice_zero (ceChoices x) r)),
      (''usage'', \<lambda>r x. Some (x\<lparr>ceUsage := r\<rparr>))]"

fun check_choices :: "chunk_choice list \<Rightarrow> goerr option" where
  "check_choices [] = None"
| "check_choices (c # cs) =
     (if \<not> jsonObject (chDelta c) then Some (ErrSentinel ErrInvalidStream)
      else case validateCompatibleStreamDelta (chDelta c) of
             Some err \<Rightarrow> Some err
           | None \<Rightarrow> check_choices cs)"

definition check_envelope :: "chunk_envelope \<Rightarrow> goerr option" where
  "check_envelope env =
     (if valuePresent (ceError env) then Some (ErrSentinel ErrInvalidStream)
      else if slice_list (ceChoices env) = [] then
        (if \<not> jsonObject (ceUsage env) then Some (ErrSentinel ErrInvalidStream) else None)
      else check_choices (slice_list (ceChoices env)))"

definition validateCompatibleChatChunk :: "string \<Rightarrow> goerr option" where
  "validateCompatibleChatChunk data =
     (case json_read data of
        None \<Rightarrow> Some (ErrSentinel ErrInvalidStream)
      | Some ts \<Rightarrow>
          if \<not> utf8_valid data then Some (ErrSentinel ErrInvalidStream)
          else
            (case decode_struct chunk_envelope_fields chunk_envelope_zero ts of
               None \<Rightarrow> Some (ErrSentinel ErrInvalidStream)
             | Some env \<Rightarrow> check_envelope env))"

section \<open>Relaying an event\<close>

text \<open>The bytes of an event; \<open>writer\<close> is what the client connection does with them.\<close>

definition event_frame :: "stream_event \<Rightarrow> goerr + string" where
  "event_frame ev =
     (if evDone ev then Inr (chat_frame ''[DONE]'')
      else case json_compact (evData ev) of
             None \<Rightarrow> Inl (ErrSentinel ErrInvalidStream)
           | Some payload \<Rightarrow> Inr (chat_frame payload))"

definition writeChatStreamEvent :: "(string \<Rightarrow> int \<times> goerr option) \<Rightarrow> stream_event \<Rightarrow> goerr option" where
  "writeChatStreamEvent writer ev =
     (case event_frame ev of
        Inl err \<Rightarrow> Some err
      | Inr frame \<Rightarrow>
          (case writer frame of
             (written, None) \<Rightarrow> if written \<noteq> int (length frame) then Some (ErrNew ''short write'') else None
           | (written, Some err) \<Rightarrow> Some err))"

section \<open>White space does not change the verdict\<close>

lemma valuePresent_no_space [simp]: "valuePresent (no_space r) = valuePresent r"
  by (simp add: valuePresent_def strip_empty [of r])

lemma jsonObject_is_object: "jsonObject r = is_object r"
proof -
  have "is_object r \<longleftrightarrow> strip r \<noteq> [] \<and> hd (strip r) = TLBrace"
    unfolding is_object_def by (cases "strip r") auto
  then show ?thesis by (auto simp: jsonObject_def decode_map_def)
qed

lemma jsonObject_no_space [simp]: "jsonObject (no_space r) = jsonObject r"
  by (simp add: jsonObject_is_object)

lemma string_or_absent_no_space [simp]: "string_or_absent ok (no_space r) = string_or_absent ok r"
  by (simp add: string_or_absent_def)

definition call_no_space :: "delta_call \<Rightarrow> delta_call" where
  "call_no_space c = c\<lparr>dcID := no_space (dcID c), dcType := no_space (dcType c), dcFunction := no_space (dcFunction c)\<rparr>"

lemma case_map_no_space:
  "(case map_option (map (apsnd no_space)) f of None \<Rightarrow> [] | Some ms \<Rightarrow> ms) =
     map (apsnd no_space) (case f of None \<Rightarrow> [] | Some ms \<Rightarrow> ms)"
  by (cases f) auto

lemma delta_call_ok_no_space: "delta_call_ok (call_no_space c) = delta_call_ok c"
  by (simp add: delta_call_ok_def call_no_space_def decode_map_no_space case_map_no_space map_get_no_space
      split: option.splits)

lemma slice_list_map: "slice_list (map h xs, n) = map h (slice_list (xs, n))"
  by (simp add: slice_list_def take_map)

lemma decode_call_no_space:
  "decode_struct delta_call_fields (call_no_space x) (no_space r) = map_option call_no_space (decode_struct delta_call_fields x r)"
  by (rule decode_struct_no_space)
    (auto simp: delta_call_fields_def call_no_space_def split: option.splits intro!: option.map_cong0
      simp: option.map_comp)

lemma decode_calls_no_space:
  "decode_slice (decode_struct delta_call_fields) delta_call_zero ([], 0) (no_space r) =
     map_option (apfst (map call_no_space)) (decode_slice (decode_struct delta_call_fields) delta_call_zero ([], 0) r)"
  using decode_slice_no_space [of "decode_struct delta_call_fields" call_no_space delta_call_zero "([], 0)" r,
      OF decode_call_no_space]
  by (simp add: call_no_space_def delta_call_zero_def no_space_def)

lemma delta_no_space: "validateCompatibleStreamDelta (no_space r) = validateCompatibleStreamDelta r"
  by (simp add: validateCompatibleStreamDelta_def decode_map_no_space map_get_no_space decode_calls_no_space
      slice_list_map Let_def list.pred_map comp_def delta_call_ok_no_space split: option.splits)

definition choice_no_space :: "chunk_choice \<Rightarrow> chunk_choice" where
  "choice_no_space c = c\<lparr>chDelta := no_space (chDelta c)\<rparr>"

definition envelope_no_space :: "chunk_envelope \<Rightarrow> chunk_envelope" where
  "envelope_no_space e = e\<lparr>ceError := no_space (ceError e), ceChoices := apfst (map choice_no_space) (ceChoices e),
     ceUsage := no_space (ceUsage e)\<rparr>"

lemma decode_choices_no_space:
  "decode_slice (decode_struct chunk_choice_fields) chunk_choice_zero (apfst (map choice_no_space) old) (no_space r) =
     map_option (apfst (map choice_no_space)) (decode_slice (decode_struct chunk_choice_fields) chunk_choice_zero old r)"
proof (rule decode_slice_no_space)
  show "decode_struct chunk_choice_fields (choice_no_space x) (no_space r) =
      map_option choice_no_space (decode_struct chunk_choice_fields x r)" for x r
    by (rule decode_struct_no_space) (auto simp: chunk_choice_fields_def choice_no_space_def)
qed (simp add: choice_no_space_def chunk_choice_zero_def no_space_def)

lemma decode_envelope_no_space:
  "decode_struct chunk_envelope_fields (envelope_no_space x) (no_space r) =
     map_option envelope_no_space (decode_struct chunk_envelope_fields x r)"
  by (rule decode_struct_no_space)
    (auto simp: chunk_envelope_fields_def envelope_no_space_def decode_choices_no_space option.map_comp
      intro!: option.map_cong0)

lemma check_choices_no_space: "check_choices (map choice_no_space cs) = check_choices cs"
  by (induction cs) (simp_all add: choice_no_space_def delta_no_space split: option.splits)

lemma check_envelope_no_space: "check_envelope (envelope_no_space e) = check_envelope e"
  by (cases "ceChoices e") (simp add: check_envelope_def envelope_no_space_def slice_list_map check_choices_no_space)

lemma envelope_zero_no_space [simp]: "envelope_no_space chunk_envelope_zero = chunk_envelope_zero"
  by (simp add: envelope_no_space_def chunk_envelope_zero_def no_space_def)

lemma utf8_first_low: "utf8_first c = Some rs \<Longrightarrow> (\<forall>(lo, hi) \<in> set rs. 128 \<le> lo) \<and> (byte c < 128 \<longrightarrow> rs = [])"
  by (auto simp: utf8_first_def Let_def split: if_splits)

lemma utf8_first_ascii: "byte c < 128 \<Longrightarrow> utf8_first c = Some []"
  by (simp add: utf8_first_def)

lemma utf8_run_ascii:
  "byte c < 128 \<Longrightarrow> \<forall>(lo, hi) \<in> set rs. 128 \<le> lo \<Longrightarrow>
     utf8_run rs (xs @ c # ys) \<longleftrightarrow> utf8_run rs xs \<and> utf8_run [] ys"
proof (induction rs xs rule: utf8_run.induct)
  case (3 d cs)
  then show ?case using utf8_first_low by (auto split: option.splits)
qed (auto simp: utf8_first_ascii)

lemma utf8_run_both: "utf8_run rs xs \<Longrightarrow> utf8_run [] ys \<Longrightarrow> utf8_run rs (xs @ ys)"
  by (induction rs xs rule: utf8_run.induct) (auto split: option.splits)

lemma space_token_ascii: "wf_token t \<Longrightarrow> is_space_token t \<Longrightarrow> \<exists>c. t = TSpace c \<and> byte c < 128"
  by (cases t) (auto simp: is_space_token_def wf_token_def is_json_space_def)

lemma utf8_no_space:
  "list_all wf_token ts \<Longrightarrow> utf8_run [] (xs @ raw_text ts) \<Longrightarrow> utf8_run [] (xs @ raw_text (no_space ts))"
proof (induction ts arbitrary: xs)
  case (Cons t ts)
  show ?case
  proof (cases "is_space_token t")
    case True
    with Cons.prems obtain c where "t = TSpace c" "byte c < 128" using space_token_ascii by auto
    with Cons.prems have "utf8_run [] (xs @ raw_text ts)"
      using utf8_run_ascii [of c "[]" xs] utf8_run_both by auto
    with Cons True show ?thesis by (simp add: no_space_def)
  next
    case False
    with Cons.IH [of "xs @ token_text t"] Cons.prems show ?thesis by (simp add: no_space_head)
  qed
qed (simp add: no_space_def)

lemma chunk_compact:
  assumes "validateCompatibleChatChunk data = None" and "json_compact data = Some p"
  shows "validateCompatibleChatChunk p = None"
proof -
  from assms(2) obtain ts where ts: "json_read data = Some ts" "p = raw_text (no_space ts)" "json_read p = Some (no_space ts)"
    by (rule json_compact_read)
  then have tok: "json_tokens data = Some ts" by (auto simp: json_read_def split: option.splits if_splits)
  from assms(1) ts(1) have "utf8_valid data"
    and "\<exists>env. decode_struct chunk_envelope_fields chunk_envelope_zero ts = Some env \<and> check_envelope env = None"
    by (auto simp: validateCompatibleChatChunk_def split: if_splits option.splits)
  then obtain env where env: "decode_struct chunk_envelope_fields chunk_envelope_zero ts = Some env" "check_envelope env = None"
    by blast
  have "utf8_valid p"
    using utf8_no_space [OF json_tokens_wf [OF tok], of "[]"] json_tokens_text [OF tok] \<open>utf8_valid data\<close> ts(2)
    by (simp add: utf8_valid_def)
  moreover have "decode_struct chunk_envelope_fields chunk_envelope_zero (no_space ts) = Some (envelope_no_space env)"
    using decode_envelope_no_space [of chunk_envelope_zero ts] env(1) by simp
  ultimately show ?thesis
    using ts(3) env(2) by (simp add: validateCompatibleChatChunk_def check_envelope_no_space)
qed

lemma chunk_valid: "validateCompatibleChatChunk data = None \<Longrightarrow> \<exists>p. json_compact data = Some p"
  by (auto simp: validateCompatibleChatChunk_def json_compact_def split: option.splits)

text \<open>The check has one error, so the retry accounting of the attempts may rely on it.\<close>

lemma delta_error: "validateCompatibleStreamDelta r = Some err \<Longrightarrow> err = ErrSentinel ErrInvalidStream"
  by (auto simp: validateCompatibleStreamDelta_def Let_def split: option.splits if_splits)

lemma chunk_error: "validateCompatibleChatChunk data = Some err \<Longrightarrow> err = ErrSentinel ErrInvalidStream"
proof -
  have "check_choices cs = Some err \<Longrightarrow> err = ErrSentinel ErrInvalidStream" for cs
    by (induction cs) (auto split: if_splits option.splits dest: delta_error)
  then show "validateCompatibleChatChunk data = Some err \<Longrightarrow> err = ErrSentinel ErrInvalidStream"
    by (auto simp: validateCompatibleChatChunk_def check_envelope_def split: option.splits if_splits)
qed

section \<open>Properties\<close>

lemma compact_payload:
  assumes "json_compact data = Some p" and "int (length data) + 6 \<le> maxStreamLineBytes"
  shows "payload_ok p \<and> p \<noteq> ''[DONE]''"
proof -
  from assms(1) obtain ts where ts: "json_read data = Some ts" "p = raw_text (no_space ts)" "json_read p = Some (no_space ts)"
    and p: "p \<noteq> []" "trim_space p = p" "\<forall>c \<in> set p. 32 \<le> byte c"
    by (rule json_compact_read)
  have "length p \<le> length data" using assms(1) by (rule json_compact_length)
  moreover have "CHR 0x0A \<notin> set p" using p(3) by auto
  moreover have "json_read ''[DONE]'' = None" by code_simp
  ultimately show ?thesis using p assms(2) ts(3) by (auto simp: payload_ok_def)
qed

text \<open>The bytes a sequence of events puts on the connection, up to the first error.\<close>

fun relay :: "stream_event list \<Rightarrow> goerr + string" where
  "relay [] = Inr []"
| "relay (ev # evs) =
     (case event_frame ev of
        Inl err \<Rightarrow> Inl err
      | Inr frame \<Rightarrow> (case relay evs of Inl err \<Rightarrow> Inl err | Inr frames \<Rightarrow> Inr (frame @ frames)))"

definition done_event :: stream_event where
  "done_event = \<lparr>evData = [], evDone = True\<rparr>"

definition compacted :: "stream_event \<Rightarrow> stream_event" where
  "compacted ev = \<lparr>evData = the (json_compact (evData ev)), evDone = False\<rparr>"

lemma relay_frames:
  "\<forall>ev \<in> set evs. \<not> evDone ev \<and> validateCompatibleChatChunk (evData ev) = None \<Longrightarrow>
     relay (evs @ [done_event]) = Inr (concat (map chat_frame (map (evData \<circ> compacted) evs)) @ chat_frame ''[DONE]'')"
proof (induction evs)
  case (Cons ev evs)
  moreover from Cons.prems obtain p where "json_compact (evData ev) = Some p" using chunk_valid by fastforce
  ultimately show ?case by (simp add: event_frame_def compacted_def)
qed (simp add: event_frame_def done_event_def)

text \<open>
  Claim C36: what the gateway relays can be read back. If every event it read passed the chunk check and
  fits a line, all of them are written without error; a reader of what was written returns one
  event per event, in order, each with the same JSON tokens less the white space and accepted by
  the same check, then the end marker, and after it \<open>io.EOF\<close> for ever, whatever bytes follow on
  the connection.
\<close>

theorem stream_relay_roundtrip:
  assumes "\<forall>ev \<in> set evs. \<not> evDone ev \<and> validateCompatibleChatChunk (evData ev) = None \<and>
      int (length (evData ev)) + 6 \<le> maxStreamLineBytes"
  shows "\<exists>body. relay (evs @ [done_event]) = Inr body \<and>
    read_events validateCompatibleChatChunk (length evs + 1 + k) (opened_stream (body @ junk)) =
      map (\<lambda>ev. (compacted ev, None)) evs @ (done_event, None) # replicate k (no_event, Some (ErrSentinel IoEOF)) \<and>
    (\<forall>ev \<in> set evs. json_read (evData (compacted ev)) = map_option no_space (json_read (evData ev)))"
proof -
  let ?ps = "map (evData \<circ> compacted) evs"
  have one: "\<exists>p. evData (compacted ev) = p \<and> payload_ok p \<and> p \<noteq> ''[DONE]'' \<and> validateCompatibleChatChunk p = None \<and>
      json_read p = map_option no_space (json_read (evData ev))" if "ev \<in> set evs" for ev
  proof -
    from that assms obtain p where p: "json_compact (evData ev) = Some p" using chunk_valid by blast
    moreover from p obtain ts where "json_read (evData ev) = Some ts" "json_read p = Some (no_space ts)"
      by (rule json_compact_read)
    ultimately show ?thesis
      using that assms compact_payload [OF p] chunk_compact [OF _ p] by (simp add: compacted_def)
  qed
  then have "\<forall>p \<in> set ?ps. payload_ok p \<and> p \<noteq> ''[DONE]'' \<and> validateCompatibleChatChunk p = None" by auto
  from stream_frames_read [OF this, of k junk]
  have "read_events validateCompatibleChatChunk (length evs + 1 + k)
      (opened_stream ((concat (map chat_frame ?ps) @ chat_frame ''[DONE]'') @ junk)) =
    map (\<lambda>ev. (compacted ev, None)) evs @ (done_event, None) # replicate k (no_event, Some (ErrSentinel IoEOF))"
    by (simp add: comp_def compacted_def done_event_def)
  moreover have "relay (evs @ [done_event]) = Inr (concat (map chat_frame ?ps) @ chat_frame ''[DONE]'')"
    using assms by (intro relay_frames) auto
  ultimately show ?thesis using one by auto
qed

theorem stream_relay_roundtrip_witness:
  "let q = [CHR 0x22]; data = ''{ '' @ q @ ''choices'' @ q @ '': [{'' @ q @ ''delta'' @ q @ '': {}} ] }'';
       ev = \<lparr>evData = data, evDone = False\<rparr> in
   (\<exists>body. relay [ev, done_event] = Inr body \<and>
     read_events validateCompatibleChatChunk 3 (opened_stream (body @ [])) =
       [(compacted ev, None), (done_event, None), (no_event, Some (ErrSentinel IoEOF))]) \<and>
   evData (compacted ev) = ''{'' @ q @ ''choices'' @ q @ '':[{'' @ q @ ''delta'' @ q @ '':{}}]}''"
proof -
  let ?q = "[CHR 0x22]"
  let ?data = "''{ '' @ ?q @ ''choices'' @ ?q @ '': [{'' @ ?q @ ''delta'' @ ?q @ '': {}} ] }''"
  let ?ev = "\<lparr>evData = ?data, evDone = False\<rparr>"
  have ok: "validateCompatibleChatChunk ?data = None" by code_simp
  have small: "json_compact ?data = Some (''{'' @ ?q @ ''choices'' @ ?q @ '':[{'' @ ?q @ ''delta'' @ ?q @ '':{}}]}'')"
    by code_simp
  from ok stream_relay_roundtrip [of "[?ev]" 1 "[]"]
  have "\<exists>body. relay [?ev, done_event] = Inr body \<and>
     read_events validateCompatibleChatChunk 3 (opened_stream (body @ [])) =
       [(compacted ?ev, None), (done_event, None), (no_event, Some (ErrSentinel IoEOF))]"
    by (auto simp: stream_limits numeral_3_eq_3)
  with small show ?thesis by (simp add: Let_def compacted_def)
qed

end
