(* ===== verification/UsageEvent.thy ===== *)
theory UsageEvent
  imports JsonDecode Failure "HOL-Library.Signed_Division"
begin

text \<open>
  Usage events: \<open>internal/usage/event.go\<close>, with the money and caveat helpers of \<open>pricing.go\<close> it
  calls. \<open>Event\<close>, \<open>TokenUsage\<close> and the token details are records with the fields of the
  structs; an \<open>int64\<close> is an \<open>int\<close>, with the additions that can wrap written out. The
  \<open>big.Rat\<close> a string denotes (\<open>Rat.SetString\<close>) is the parameter \<open>setString\<close>; the JSON form of an
  event (\<open>Marshal\<close>, \<open>Decode\<close>) is not modelled.
\<close>

section \<open>Text helpers\<close>

fun split_on :: "char \<Rightarrow> string \<Rightarrow> string list" where
  "split_on sep [] = [[]]"
| "split_on sep (c # s) =
     (if c = sep then [] # split_on sep s
      else case split_on sep s of [] \<Rightarrow> [[c]] | part # parts \<Rightarrow> (c # part) # parts)"

fun join_with :: "string \<Rightarrow> string list \<Rightarrow> string" where
  "join_with sep [] = []"
| "join_with sep [s] = s"
| "join_with sep (s # t # rest) = s @ sep @ join_with sep (t # rest)"

text \<open>\<open>strings.ToUpper\<close> as far as ASCII text can tell: U+0131 and U+017F have ASCII upper forms.\<close>

definition upper_char :: "char \<Rightarrow> char" where
  "upper_char c = (if is_lower_char c then char_of (of_char c - (32::nat)) else c)"

fun to_upper :: "string \<Rightarrow> string" where
  "to_upper [] = []"
| "to_upper (c # s) =
     (if c = CHR 0xC4 \<and> take 1 s = [CHR 0xB1] then CHR ''I'' # to_upper (drop 1 s)
      else if c = CHR 0xC5 \<and> take 1 s = [CHR 0xBF] then CHR ''S'' # to_upper (drop 1 s)
      else upper_char c # to_upper s)"

section \<open>Data\<close>

definition SchemaVersion :: int where "SchemaVersion = 2"
definition minimumSchemaVersion :: int where "minimumSchemaVersion = 1"
definition maximumRawUsageBytes :: int where "maximumRawUsageBytes = 65536"
definition maximumTokenCount :: int where "maximumTokenCount = 1000000000"
definition maximumUsageCaveatLen :: int where "maximumUsageCaveatLen = 256"

lemmas usage_limits = SchemaVersion_def minimumSchemaVersion_def maximumRawUsageBytes_def
  maximumTokenCount_def maximumUsageCaveatLen_def

definition StatusSuccess :: string where "StatusSuccess = ''success''"
definition StatusCacheHit :: string where "StatusCacheHit = ''cache_hit''"
definition StatusFailed :: string where "StatusFailed = ''failed''"
definition StatusCanceled :: string where "StatusCanceled = ''cancelled''"
definition StatusStreamCompleted :: string where "StatusStreamCompleted = ''stream_completed''"
definition StatusStreamInterrupted :: string where "StatusStreamInterrupted = ''stream_interrupted''"

lemmas usage_statuses = StatusSuccess_def StatusCacheHit_def StatusFailed_def StatusCanceled_def
  StatusStreamCompleted_def StatusStreamInterrupted_def

definition UsageSourceUnknown :: string where "UsageSourceUnknown = ''unknown''"
definition UsageSourceProvider :: string where "UsageSourceProvider = ''provider''"
definition UsageSourceCacheReplay :: string where "UsageSourceCacheReplay = ''cache_replay''"

lemmas usage_sources = UsageSourceUnknown_def UsageSourceProvider_def UsageSourceCacheReplay_def

record input_details =
  idText :: int
  idAudio :: int
  idImage :: int
  idCachedRead :: int
  idCachedWrite :: int

record output_details =
  odText :: int
  odAudio :: int
  odReasoning :: int
  odAcceptedPrediction :: int
  odRejectedPrediction :: int

record reported_cost =
  rcInputNanoUSD :: "int option"
  rcOutputNanoUSD :: "int option"
  rcTotalNanoUSD :: int
  rcCurrency :: string

record token_usage =
  tuInput :: int
  tuOutput :: int
  tuTotal :: int
  tuInputDetails :: "input_details option"
  tuOutputDetails :: "output_details option"
  tuReportedCost :: "reported_cost option"
  tuRaw :: string

record usage_event =
  ueSchemaVersion :: int
  ueEventID :: string
  ueRequestID :: string
  ueTenantID :: string
  ueAPIKeyID :: string
  ueRequestedModel :: string
  ueProviderID :: string
  ueUpstreamModel :: string
  ueCacheStatus :: string
  ueStream :: bool
  ueAttempts :: int
  ueRetries :: int
  ueFallbacks :: int
  ueUsage :: "token_usage option"
  ueUsageSource :: string
  ueUsageCaveat :: string
  ueFinishReason :: string
  ueStatus :: string
  ueErrorCategory :: string
  ueErrorCode :: string
  ueStartedAt :: time
  ueEndedAt :: time
  ueLatencyMS :: int
  ueFirstTokenMS :: "int option"

definition event_zero :: usage_event where
  "event_zero =
     \<lparr>ueSchemaVersion = 0, ueEventID = [], ueRequestID = [], ueTenantID = [], ueAPIKeyID = [],
      ueRequestedModel = [], ueProviderID = [], ueUpstreamModel = [], ueCacheStatus = [], ueStream = False,
      ueAttempts = 0, ueRetries = 0, ueFallbacks = 0, ueUsage = None, ueUsageSource = [], ueUsageCaveat = [],
      ueFinishReason = [], ueStatus = [], ueErrorCategory = [], ueErrorCode = [], ueStartedAt = 0, ueEndedAt = 0,
      ueLatencyMS = 0, ueFirstTokenMS = None\<rparr>"

record new_event_input =
  niRequestID :: string
  niTenantID :: string
  niAPIKeyID :: string
  niRequestedModel :: string
  niStream :: bool
  niStartedAt :: time

record outcome_input =
  oiStatus :: string
  oiErrorCategory :: string
  oiErrorCode :: string
  oiEndedAt :: time

section \<open>Money and caveats\<close>

text \<open>\<open>big.Int.Quo\<close> truncates.\<close>

definition quo :: "int \<Rightarrow> int \<Rightarrow> int" where
  "quo a b = a sdiv b"

definition roundedRat :: "rat \<Rightarrow> int" where
  "roundedRat value =
     (case quotient_of value of (numerator, denominator) \<Rightarrow> quo (numerator + quo denominator 2) denominator)"

definition parseUSD :: "(string \<Rightarrow> rat option) \<Rightarrow> string \<Rightarrow> goerr + int" where
  "parseUSD setString raw0 =
     (let raw = trim_space raw0 in
      if raw = [] \<or> take 1 raw = ''-'' \<or> take 1 raw = ''+'' then Inl (ErrNew ''invalid USD amount'')
      else
        (case setString raw of
           None \<Rightarrow> Inl (ErrNew ''invalid USD amount'')
         | Some value \<Rightarrow>
             if value < 0 then Inl (ErrNew ''invalid USD amount'')
             else
               (let rounded = roundedRat (value * 1000000000) in
                if \<not> is_int64 rounded then Inl (ErrNew ''USD amount is too large'') else Inr rounded)))"

text \<open>The sum, when it is an \<open>int64\<close>.\<close>

definition safeAdd :: "int \<Rightarrow> int \<Rightarrow> int option" where
  "safeAdd left right = (let total = left + right in if is_int64 total then Some total else None)"

definition add_caveat :: "string list \<Rightarrow> string \<Rightarrow> string list" where
  "add_caveat joined item0 =
     (let item = trim_space item0 in
      if item = [] \<or> item \<in> set joined then joined else joined @ [item])"

definition joinCaveats :: "string list \<Rightarrow> string" where
  "joinCaveats caveats =
     (let joined = foldl add_caveat [] (concat (map (split_on (CHR '','')) caveats));
          result = join_with '','' joined in
      if int (length result) > maximumUsageCaveatLen then take (nat maximumUsageCaveatLen) result else result)"

section \<open>Validation\<close>

definition validRequiredText :: "string \<Rightarrow> int \<Rightarrow> bool" where
  "validRequiredText value maximum \<longleftrightarrow>
     value = trim_space value \<and> value \<noteq> [] \<and> int (length value) \<le> maximum"

definition invalidTokenCount :: "int \<Rightarrow> bool" where
  "invalidTokenCount count \<longleftrightarrow> count < 0 \<or> count > maximumTokenCount"

definition input_counts :: "input_details \<Rightarrow> int list" where
  "input_counts d = [idText d, idAudio d, idImage d, idCachedRead d, idCachedWrite d]"

definition output_counts :: "output_details \<Rightarrow> int list" where
  "output_counts d = [odText d, odAudio d, odReasoning d, odAcceptedPrediction d, odRejectedPrediction d]"

definition invalidInputDetails :: "input_details \<Rightarrow> bool" where
  "invalidInputDetails d = list_ex invalidTokenCount (input_counts d)"

definition invalidOutputDetails :: "output_details \<Rightarrow> bool" where
  "invalidOutputDetails d = list_ex invalidTokenCount (output_counts d)"

definition usage_validate :: "token_usage \<Rightarrow> goerr option" where
  "usage_validate u =
     (if invalidTokenCount (tuInput u) \<or> invalidTokenCount (tuOutput u) \<or> invalidTokenCount (tuTotal u)
      then Some (ErrNew ''usage token counts are invalid'')
      else if (case tuInputDetails u of None \<Rightarrow> False | Some d \<Rightarrow> list_ex invalidTokenCount (input_counts d))
      then Some (ErrNew ''usage input token details are invalid'')
      else if (case tuOutputDetails u of None \<Rightarrow> False | Some d \<Rightarrow> list_ex invalidTokenCount (output_counts d))
      then Some (ErrNew ''usage output token details are invalid'')
      else if int (length (tuRaw u)) > maximumRawUsageBytes \<or> (tuRaw u \<noteq> [] \<and> \<not> json_valid (tuRaw u))
      then Some (ErrNew ''usage raw data is invalid'')
      else case tuReportedCost u of
             None \<Rightarrow> None
           | Some c \<Rightarrow>
               if rcCurrency c \<noteq> ''USD'' \<or> rcTotalNanoUSD c < 0 \<or>
                  (case rcInputNanoUSD c of None \<Rightarrow> False | Some n \<Rightarrow> n < 0) \<or>
                  (case rcOutputNanoUSD c of None \<Rightarrow> False | Some n \<Rightarrow> n < 0)
               then Some (ErrNew ''usage reported cost is invalid'') else None)"

definition validCacheStatus :: "string \<Rightarrow> bool" where
  "validCacheStatus status \<longleftrightarrow> status = ''bypass'' \<or> status = ''miss'' \<or> status = ''hit''"

definition validUsageStatus :: "string \<Rightarrow> bool" where
  "validUsageStatus status \<longleftrightarrow>
     status \<in> {StatusSuccess, StatusCacheHit, StatusFailed, StatusCanceled, StatusStreamCompleted, StatusStreamInterrupted}"

definition failedStatus :: "string \<Rightarrow> bool" where
  "failedStatus status \<longleftrightarrow> status = StatusFailed \<or> status = StatusCanceled \<or> status = StatusStreamInterrupted"

definition milliseconds :: "duration \<Rightarrow> int" where
  "milliseconds d = quo d millisecond"

text \<open>
  The cases of \<open>Validate\<close>, in order; the message of the first one that holds is the error. The
  version the first message ends with is left out.
\<close>

definition event_faults :: "usage_event \<Rightarrow> (bool \<times> string) list" where
  "event_faults e =
     [(ueSchemaVersion e < minimumSchemaVersion \<or> ueSchemaVersion e > SchemaVersion, ''unsupported usage schema version''),
      (\<not> validRequiredText (ueEventID e) 64, ''usage event ID is invalid''),
      (\<not> validRequiredText (ueRequestID e) 128, ''usage request ID is invalid''),
      (\<not> validRequiredText (ueTenantID e) 128, ''usage tenant ID is invalid''),
      (ueSchemaVersion e \<ge> 2 \<and> \<not> validRequiredText (ueAPIKeyID e) 64, ''usage API key ID is invalid''),
      (\<not> validRequiredText (ueRequestedModel e) 200, ''usage requested model is invalid''),
      (length (ueProviderID e) > 100 \<or> length (ueUpstreamModel e) > 200, ''usage route metadata is too long''),
      (\<not> validCacheStatus (ueCacheStatus e), ''usage cache status is invalid''),
      (ueAttempts e < 0 \<or> ueRetries e < 0 \<or> ueFallbacks e < 0, ''usage reliability counters must not be negative''),
      (\<not> validUsageStatus (ueStatus e), ''usage status is invalid''),
      (length (ueErrorCategory e) > 64 \<or> length (ueErrorCode e) > 100, ''usage error metadata is too long''),
      (length (ueFinishReason e) > 64 \<or> int (length (ueUsageCaveat e)) > maximumUsageCaveatLen,
       ''usage response metadata is too long''),
      (ueStartedAt e = 0 \<or> ueEndedAt e = 0 \<or> ueEndedAt e < ueStartedAt e, ''usage timestamps are invalid''),
      (ueLatencyMS e < 0, ''usage latency must not be negative''),
      (ueLatencyMS e \<noteq> milliseconds (time_sub (ueEndedAt e) (ueStartedAt e)), ''usage latency does not match timestamps''),
      ((case ueFirstTokenMS e of None \<Rightarrow> False | Some n \<Rightarrow> n < 0 \<or> n > ueLatencyMS e), ''usage first token latency is invalid''),
      (ueUsageSource e \<noteq> UsageSourceUnknown \<and> ueUsageSource e \<noteq> UsageSourceProvider \<and>
         ueUsageSource e \<noteq> UsageSourceCacheReplay, ''usage source is invalid''),
      (ueUsage e = None \<and> ueUsageSource e \<noteq> UsageSourceUnknown, ''usage source requires token data''),
      (ueUsage e \<noteq> None \<and> ueUsageSource e = UsageSourceUnknown \<and> ueSchemaVersion e \<ge> 2, ''usage token data requires a source''),
      (ueUsageSource e = UsageSourceCacheReplay \<and> ueStatus e \<noteq> StatusCacheHit, ''cache replay usage requires a cache hit''),
      (ueStatus e = StatusCacheHit \<and> (ueStream e \<or> ueCacheStatus e \<noteq> ''hit'' \<or>
         (ueUsage e \<noteq> None \<and> ueUsageSource e \<noteq> UsageSourceCacheReplay)), ''usage cache hit metadata is inconsistent''),
      (ueStatus e \<noteq> StatusCacheHit \<and> ueCacheStatus e = ''hit'', ''usage cache status is inconsistent''),
      (ueStatus e = StatusStreamCompleted \<and> \<not> ueStream e, ''stream completion requires a stream request''),
      (ueStatus e = StatusStreamInterrupted \<and> \<not> ueStream e, ''stream interruption requires a stream request''),
      (ueFirstTokenMS e \<noteq> None \<and> \<not> ueStream e, ''first token latency requires a stream request'')]"

definition event_Validate :: "usage_event \<Rightarrow> goerr option" where
  "event_Validate e =
     (case find fst (event_faults e) of
        Some (_, message) \<Rightarrow> Some (ErrNew message)
      | None \<Rightarrow>
          if failedStatus (ueStatus e) \<and> (ueErrorCategory e = [] \<or> ueErrorCode e = [])
          then Some (ErrNew ''usage failure metadata is required'')
          else case ueUsage e of None \<Rightarrow> None | Some u \<Rightarrow> usage_validate u)"

definition inferredUsageSource :: "usage_event \<Rightarrow> string" where
  "inferredUsageSource e =
     (if ueUsage e = None then UsageSourceUnknown
      else if ueStatus e = StatusCacheHit then UsageSourceCacheReplay
      else UsageSourceProvider)"

text \<open>
  A new event. \<open>random\<close> is the 16 bytes read for its ID, \<open>None\<close> when reading fails; \<open>now\<close> is
  the clock.
\<close>

definition hex_digit :: "nat \<Rightarrow> char" where
  "hex_digit n = char_of (if n < 10 then 48 + n else 87 + n)"

definition hex_encode :: "string \<Rightarrow> string" where
  "hex_encode s = concat (map (\<lambda>c. [hex_digit (of_char c div 16), hex_digit (of_char c mod 16)]) s)"

definition generateEventID :: "string option \<Rightarrow> goerr + string" where
  "generateEventID random =
     (case random of
        None \<Rightarrow> Inl (ErrNew ''generate usage event ID'')
      | Some bytes \<Rightarrow> Inr (''use_'' @ hex_encode bytes))"

definition newEvent :: "string option \<Rightarrow> time \<Rightarrow> new_event_input \<Rightarrow> goerr + usage_event" where
  "newEvent random now input =
     (case generateEventID random of
        Inl err \<Rightarrow> Inl err
      | Inr eventID \<Rightarrow>
          (let event = event_zero\<lparr>ueSchemaVersion := SchemaVersion, ueEventID := eventID,
                 ueRequestID := trim_space (niRequestID input), ueTenantID := trim_space (niTenantID input),
                 ueAPIKeyID := trim_space (niAPIKeyID input), ueRequestedModel := trim_space (niRequestedModel input),
                 ueCacheStatus := ''bypass'', ueStream := niStream input, ueUsageSource := UsageSourceUnknown,
                 ueStartedAt := if niStartedAt input = 0 then now else niStartedAt input\<rparr> in
           if \<not> validRequiredText (ueRequestID event) 128 then Inl (ErrNew ''usage request ID is invalid'')
           else if \<not> validRequiredText (ueTenantID event) 128 then Inl (ErrNew ''usage tenant ID is invalid'')
           else if \<not> validRequiredText (ueAPIKeyID event) 64 then Inl (ErrNew ''usage API key ID is invalid'')
           else if \<not> validRequiredText (ueRequestedModel event) 200 then Inl (ErrNew ''usage requested model is invalid'')
           else Inr event))"

section \<open>Helper facts\<close>

lemma joinCaveats_length: "int (length (joinCaveats cs)) \<le> maximumUsageCaveatLen"
  by (simp add: joinCaveats_def Let_def usage_limits)

lemma quo_nonneg: "0 \<le> a \<Longrightarrow> 0 < b \<Longrightarrow> quo a b = a div b"
  by (cases "a = 0") (simp_all add: quo_def signed_divide_int_def)

lemma roundedRat_nonneg: "0 \<le> value \<Longrightarrow> 0 \<le> roundedRat value"
proof -
  assume nn: "0 \<le> value"
  obtain n d where q: "quotient_of value = (n, d)" by fastforce
  then have "0 < d" by (rule quotient_of_denom_pos)
  moreover have "value = of_int n / of_int d" using q by (rule quotient_of_div)
  ultimately have "0 \<le> n" using nn by (simp add: zero_le_divide_iff)
  with \<open>0 < d\<close> show ?thesis by (simp add: roundedRat_def q quo_nonneg pos_imp_zdiv_nonneg_iff)
qed

lemma parseUSD_range: "parseUSD setString raw = Inr n \<Longrightarrow> 0 \<le> n \<and> is_int64 n"
  using roundedRat_nonneg by (auto simp: parseUSD_def Let_def split: if_splits option.splits)

lemma hex_digit_graphic: "n < 16 \<Longrightarrow> graphic (hex_digit n)"
proof -
  assume n: "n < 16"
  have "byte (char_of m :: char) = int m" if "m < 128" for m :: nat
  proof -
    have "of_char (char_of m :: char) = m" using that by simp
    then show ?thesis by (metis of_nat_of_char)
  qed
  with n show ?thesis by (simp add: hex_digit_def graphic_def)
qed

lemma hex_encode_graphic: "list_all graphic (hex_encode bytes)"
  by (induction bytes) (simp_all add: hex_encode_def hex_digit_graphic less_mult_imp_div_less)

end
