(* ===== verification/UsageMetadata.thy ===== *)
theory UsageMetadata
  imports UsageEvent
begin

text \<open>
  What a response says about its usage: \<open>parseResponseMetadata\<close> and \<open>parseTokenUsage\<close> of
  \<open>internal/usage/event.go\<close>, over the JSON model. The structs the source decodes into are the
  records \<open>provider_input\<close>, \<open>provider_output\<close>, \<open>usage_fields\<close>, \<open>cost_fields\<close> and
  \<open>metadata_envelope\<close>.
\<close>

section \<open>Provider structs\<close>

record provider_input =
  piText :: "int option"
  piAudio :: "int option"
  piImage :: "int option"
  piCached :: "int option"
  piCachedRead :: "int option"
  piCachedWrite :: "int option"
  piCacheReadInput :: "int option"
  piCacheWrite :: "int option"
  piCacheCreation :: "int option"

record provider_output =
  poText :: "int option"
  poAudio :: "int option"
  poReasoning :: "int option"
  poThoughts :: "int option"
  poAcceptedPrediction :: "int option"
  poRejectedPrediction :: "int option"

record usage_fields =
  ufPromptTokens :: "int option"
  ufCompletionTokens :: "int option"
  ufInputTokens :: "int option"
  ufOutputTokens :: "int option"
  ufTotalTokens :: "int option"
  ufCacheReadInputTokens :: "int option"
  ufCacheWriteInputTokens :: "int option"
  ufCacheCreationTokens :: "int option"
  ufPromptDetails :: "provider_input option"
  ufInputDetails :: "provider_input option"
  ufCompletionDetails :: "provider_output option"
  ufOutputDetails :: "provider_output option"
  ufCost :: raw

record cost_fields =
  cfInput :: raw
  cfOutput :: raw
  cfTotal :: raw
  cfCurrency :: string

record metadata_choice =
  mcFinishReason :: "string option"
  mcDelta :: raw
  mcMessage :: raw

record metadata_envelope =
  meUsage :: raw
  meChoices :: "metadata_choice slice"

record response_metadata =
  rmUsage :: "token_usage option"
  rmUsageCaveat :: string
  rmFinishReason :: string
  rmHasChunk :: bool

definition provider_input_zero :: provider_input where
  "provider_input_zero = \<lparr>piText = None, piAudio = None, piImage = None, piCached = None, piCachedRead = None,
     piCachedWrite = None, piCacheReadInput = None, piCacheWrite = None, piCacheCreation = None\<rparr>"

definition provider_output_zero :: provider_output where
  "provider_output_zero = \<lparr>poText = None, poAudio = None, poReasoning = None, poThoughts = None,
     poAcceptedPrediction = None, poRejectedPrediction = None\<rparr>"

definition usage_fields_zero :: usage_fields where
  "usage_fields_zero = \<lparr>ufPromptTokens = None, ufCompletionTokens = None, ufInputTokens = None, ufOutputTokens = None,
     ufTotalTokens = None, ufCacheReadInputTokens = None, ufCacheWriteInputTokens = None, ufCacheCreationTokens = None,
     ufPromptDetails = None, ufInputDetails = None, ufCompletionDetails = None, ufOutputDetails = None, ufCost = []\<rparr>"

definition cost_fields_zero :: cost_fields where
  "cost_fields_zero = \<lparr>cfInput = [], cfOutput = [], cfTotal = [], cfCurrency = []\<rparr>"

definition metadata_choice_zero :: metadata_choice where
  "metadata_choice_zero = \<lparr>mcFinishReason = None, mcDelta = [], mcMessage = []\<rparr>"

definition metadata_envelope_zero :: metadata_envelope where
  "metadata_envelope_zero = \<lparr>meUsage = [], meChoices = ([], 0)\<rparr>"

definition metadata_zero :: response_metadata where
  "metadata_zero = \<lparr>rmUsage = None, rmUsageCaveat = [], rmFinishReason = [], rmHasChunk = False\<rparr>"

text \<open>A pointer-to-integer field, given by its update.\<close>

definition int_field :: "(int option \<Rightarrow> 'a \<Rightarrow> 'a) \<Rightarrow> raw \<Rightarrow> 'a \<Rightarrow> 'a option" where
  "int_field upd r x = map_option (\<lambda>n. upd n x) (decode_int_ptr r)"

definition provider_input_fields :: "provider_input fields" where
  "provider_input_fields =
     [(''text_tokens'', int_field (\<lambda>n x. x\<lparr>piText := n\<rparr>)),
      (''audio_tokens'', int_field (\<lambda>n x. x\<lparr>piAudio := n\<rparr>)),
      (''image_tokens'', int_field (\<lambda>n x. x\<lparr>piImage := n\<rparr>)),
      (''cached_tokens'', int_field (\<lambda>n x. x\<lparr>piCached := n\<rparr>)),
      (''cached_read_tokens'', int_field (\<lambda>n x. x\<lparr>piCachedRead := n\<rparr>)),
      (''cached_write_tokens'', int_field (\<lambda>n x. x\<lparr>piCachedWrite := n\<rparr>)),
      (''cache_read_input_tokens'', int_field (\<lambda>n x. x\<lparr>piCacheReadInput := n\<rparr>)),
      (''cache_write_input_tokens'', int_field (\<lambda>n x. x\<lparr>piCacheWrite := n\<rparr>)),
      (''cache_creation_input_tokens'', int_field (\<lambda>n x. x\<lparr>piCacheCreation := n\<rparr>))]"

definition provider_output_fields :: "provider_output fields" where
  "provider_output_fields =
     [(''text_tokens'', int_field (\<lambda>n x. x\<lparr>poText := n\<rparr>)),
      (''audio_tokens'', int_field (\<lambda>n x. x\<lparr>poAudio := n\<rparr>)),
      (''reasoning_tokens'', int_field (\<lambda>n x. x\<lparr>poReasoning := n\<rparr>)),
      (''thoughts_tokens'', int_field (\<lambda>n x. x\<lparr>poThoughts := n\<rparr>)),
      (''accepted_prediction_tokens'', int_field (\<lambda>n x. x\<lparr>poAcceptedPrediction := n\<rparr>)),
      (''rejected_prediction_tokens'', int_field (\<lambda>n x. x\<lparr>poRejectedPrediction := n\<rparr>))]"

definition input_ptr :: "provider_input option \<Rightarrow> raw \<Rightarrow> provider_input option option" where
  "input_ptr old r = decode_struct_ptr provider_input_fields provider_input_zero old r"

definition output_ptr :: "provider_output option \<Rightarrow> raw \<Rightarrow> provider_output option option" where
  "output_ptr old r = decode_struct_ptr provider_output_fields provider_output_zero old r"

definition usage_fields_fields :: "usage_fields fields" where
  "usage_fields_fields =
     [(''prompt_tokens'', int_field (\<lambda>n x. x\<lparr>ufPromptTokens := n\<rparr>)),
      (''completion_tokens'', int_field (\<lambda>n x. x\<lparr>ufCompletionTokens := n\<rparr>)),
      (''input_tokens'', int_field (\<lambda>n x. x\<lparr>ufInputTokens := n\<rparr>)),
      (''output_tokens'', int_field (\<lambda>n x. x\<lparr>ufOutputTokens := n\<rparr>)),
      (''total_tokens'', int_field (\<lambda>n x. x\<lparr>ufTotalTokens := n\<rparr>)),
      (''cache_read_input_tokens'', int_field (\<lambda>n x. x\<lparr>ufCacheReadInputTokens := n\<rparr>)),
      (''cache_write_input_tokens'', int_field (\<lambda>n x. x\<lparr>ufCacheWriteInputTokens := n\<rparr>)),
      (''cache_creation_input_tokens'', int_field (\<lambda>n x. x\<lparr>ufCacheCreationTokens := n\<rparr>)),
      (''prompt_tokens_details'', \<lambda>r x. map_option (\<lambda>d. x\<lparr>ufPromptDetails := d\<rparr>) (input_ptr (ufPromptDetails x) r)),
      (''input_tokens_details'', \<lambda>r x. map_option (\<lambda>d. x\<lparr>ufInputDetails := d\<rparr>) (input_ptr (ufInputDetails x) r)),
      (''completion_tokens_details'',
        \<lambda>r x. map_option (\<lambda>d. x\<lparr>ufCompletionDetails := d\<rparr>) (output_ptr (ufCompletionDetails x) r)),
      (''output_tokens_details'', \<lambda>r x. map_option (\<lambda>d. x\<lparr>ufOutputDetails := d\<rparr>) (output_ptr (ufOutputDetails x) r)),
      (''cost'', \<lambda>r x. Some (x\<lparr>ufCost := r\<rparr>))]"

definition cost_fields_fields :: "cost_fields fields" where
  "cost_fields_fields =
     [(''input_cost'', \<lambda>r x. Some (x\<lparr>cfInput := r\<rparr>)),
      (''output_cost'', \<lambda>r x. Some (x\<lparr>cfOutput := r\<rparr>)),
      (''total_cost'', \<lambda>r x. Some (x\<lparr>cfTotal := r\<rparr>)),
      (''currency'', \<lambda>r x. map_option (\<lambda>s. x\<lparr>cfCurrency := s\<rparr>) (decode_string (cfCurrency x) r))]"

definition metadata_choice_fields :: "metadata_choice fields" where
  "metadata_choice_fields =
     [(''finish_reason'', \<lambda>r x. map_option (\<lambda>s. x\<lparr>mcFinishReason := s\<rparr>) (decode_string_ptr r)),
      (''delta'', \<lambda>r x. Some (x\<lparr>mcDelta := r\<rparr>)),
      (''message'', \<lambda>r x. Some (x\<lparr>mcMessage := r\<rparr>))]"

definition metadata_envelope_fields :: "metadata_envelope fields" where
  "metadata_envelope_fields =
     [(''usage'', \<lambda>r x. Some (x\<lparr>meUsage := r\<rparr>)),
      (''choices'', \<lambda>r x. map_option (\<lambda>cs. x\<lparr>meChoices := cs\<rparr>)
         (decode_slice (decode_struct metadata_choice_fields) metadata_choice_zero (meChoices x) r))]"

section \<open>Token counts\<close>

fun firstTokenCount :: "int option list \<Rightarrow> int option" where
  "firstTokenCount [] = None"
| "firstTokenCount (v # vs) = (if v \<noteq> None then v else firstTokenCount vs)"

definition tokenValue :: "int option \<Rightarrow> int" where
  "tokenValue v = (case v of None \<Rightarrow> 0 | Some n \<Rightarrow> n)"

definition mergeInputDetails ::
  "provider_input option \<Rightarrow> provider_input option \<Rightarrow> int option \<Rightarrow> int option \<Rightarrow> input_details option" where
  "mergeInputDetails prompt input directRead directWrite =
     (let details = (if prompt = None then input else prompt) in
      if details = None \<and> directRead = None \<and> directWrite = None then None
      else
        (let base = (case details of
               None \<Rightarrow> \<lparr>idText = 0, idAudio = 0, idImage = 0, idCachedRead = 0, idCachedWrite = 0\<rparr>
             | Some d \<Rightarrow> \<lparr>idText = tokenValue (piText d), idAudio = tokenValue (piAudio d), idImage = tokenValue (piImage d),
                 idCachedRead = tokenValue (firstTokenCount [piCachedRead d, piCached d, piCacheReadInput d]),
                 idCachedWrite = tokenValue (firstTokenCount [piCachedWrite d, piCacheWrite d, piCacheCreation d])\<rparr>);
             read = (case directRead of None \<Rightarrow> base | Some n \<Rightarrow> base\<lparr>idCachedRead := n\<rparr>);
             result = (case directWrite of None \<Rightarrow> read | Some n \<Rightarrow> read\<lparr>idCachedWrite := n\<rparr>) in
         if invalidInputDetails result then None else Some result))"

definition mergeOutputDetails :: "provider_output option \<Rightarrow> provider_output option \<Rightarrow> output_details option" where
  "mergeOutputDetails completion output =
     (case (if completion = None then output else completion) of
        None \<Rightarrow> None
      | Some d \<Rightarrow>
          (let result = \<lparr>odText = tokenValue (poText d), odAudio = tokenValue (poAudio d),
                 odReasoning = tokenValue (firstTokenCount [poReasoning d, poThoughts d]),
                 odAcceptedPrediction = tokenValue (poAcceptedPrediction d),
                 odRejectedPrediction = tokenValue (poRejectedPrediction d)\<rparr> in
           if invalidOutputDetails result then None else Some result))"

section \<open>Reported cost\<close>

definition absent_or_null :: "raw \<Rightarrow> bool" where
  "absent_or_null r \<longleftrightarrow> strip r = [] \<or> strip r = [TNull]"

definition parseUSDJSON :: "(string \<Rightarrow> rat option) \<Rightarrow> raw \<Rightarrow> int option" where
  "parseUSDJSON setString r =
     (if absent_or_null r then None
      else
        (case (case hd (strip r) of TStr s \<Rightarrow> decode_string [] r | _ \<Rightarrow> Some (raw_text (strip r))) of
           None \<Rightarrow> None
         | Some value \<Rightarrow> (case parseUSD setString value of Inl err \<Rightarrow> None | Inr nanos \<Rightarrow> Some nanos)))"

definition parseReportedCost :: "(string \<Rightarrow> rat option) \<Rightarrow> raw \<Rightarrow> reported_cost option" where
  "parseReportedCost setString r =
     (if absent_or_null r then None
      else if hd (strip r) \<noteq> TLBrace then
        map_option (\<lambda>total. \<lparr>rcInputNanoUSD = None, rcOutputNanoUSD = None, rcTotalNanoUSD = total, rcCurrency = ''USD''\<rparr>)
          (parseUSDJSON setString r)
      else
        (case decode_struct cost_fields_fields cost_fields_zero r of
           None \<Rightarrow> None
         | Some reported \<Rightarrow>
             (let input = parseUSDJSON setString (cfInput reported);
                  output = parseUSDJSON setString (cfOutput reported);
                  total = (case parseUSDJSON setString (cfTotal reported) of
                      Some t \<Rightarrow> Some t
                    | None \<Rightarrow> if input = None \<and> output = None then None
                              else safeAdd (tokenValue input) (tokenValue output));
                  upper = to_upper (trim_space (cfCurrency reported));
                  currency = (if upper = [] then ''USD'' else upper) in
              case total of
                None \<Rightarrow> None
              | Some t \<Rightarrow>
                  if currency \<noteq> ''USD'' then None
                  else Some \<lparr>rcInputNanoUSD = input, rcOutputNanoUSD = output, rcTotalNanoUSD = t, rcCurrency = currency\<rparr>)))"

section \<open>Usage and metadata\<close>

definition caveat_if :: "bool \<Rightarrow> string \<Rightarrow> string \<Rightarrow> string" where
  "caveat_if cond item caveat = (if cond then joinCaveats [caveat, item] else caveat)"

text \<open>The counts of \<open>Input\<close>, \<open>Output\<close> and \<open>Total\<close>; then the details, the cost and their caveats.\<close>

definition input_count :: "usage_fields \<Rightarrow> int option" where
  "input_count uf = firstTokenCount [ufPromptTokens uf, ufInputTokens uf]"

definition output_count :: "usage_fields \<Rightarrow> int option" where
  "output_count uf = firstTokenCount [ufCompletionTokens uf, ufOutputTokens uf]"

definition total_count :: "usage_fields \<Rightarrow> int" where
  "total_count uf =
     (case ufTotalTokens uf of
        Some n \<Rightarrow> n
      | None \<Rightarrow> wrap_int64 (tokenValue (input_count uf) + tokenValue (output_count uf)))"

definition usage_of_fields :: "(string \<Rightarrow> rat option) \<Rightarrow> usage_fields \<Rightarrow> token_usage \<times> string" where
  "usage_of_fields setString uf =
     (let inputDetailsPresent = (ufPromptDetails uf \<noteq> None \<or> ufInputDetails uf \<noteq> None \<or>
            ufCacheReadInputTokens uf \<noteq> None \<or> ufCacheWriteInputTokens uf \<noteq> None \<or> ufCacheCreationTokens uf \<noteq> None);
          inputDetails = mergeInputDetails (ufPromptDetails uf) (ufInputDetails uf) (ufCacheReadInputTokens uf)
            (firstTokenCount [ufCacheWriteInputTokens uf, ufCacheCreationTokens uf]);
          caveat1 = caveat_if (inputDetailsPresent \<and> inputDetails = None) ''provider_input_details_invalid'' [];
          outputDetailsPresent = (ufCompletionDetails uf \<noteq> None \<or> ufOutputDetails uf \<noteq> None);
          outputDetails = mergeOutputDetails (ufCompletionDetails uf) (ufOutputDetails uf);
          caveat2 = caveat_if (outputDetailsPresent \<and> outputDetails = None) ''provider_output_details_invalid'' caveat1;
          cost = parseReportedCost setString (ufCost uf);
          caveat3 = caveat_if (\<not> absent_or_null (ufCost uf) \<and> cost = None) ''provider_cost_invalid'' caveat2 in
      (\<lparr>tuInput = tokenValue (input_count uf), tuOutput = tokenValue (output_count uf), tuTotal = total_count uf,
        tuInputDetails = inputDetails, tuOutputDetails = outputDetails, tuReportedCost = cost, tuRaw = []\<rparr>, caveat3))"

definition parseTokenUsage :: "(string \<Rightarrow> rat option) \<Rightarrow> raw \<Rightarrow> token_usage option \<times> string" where
  "parseTokenUsage setString r =
     (if int (length (raw_text r)) > maximumRawUsageBytes then (None, ''provider_usage_oversized'')
      else
        (case decode_struct usage_fields_fields usage_fields_zero r of
           None \<Rightarrow> (None, ''provider_usage_invalid'')
         | Some uf \<Rightarrow>
             if input_count uf = None \<and> output_count uf = None \<and> ufTotalTokens uf = None
             then (None, ''provider_usage_missing_tokens'')
             else if invalidTokenCount (tokenValue (input_count uf)) \<or> invalidTokenCount (tokenValue (output_count uf)) \<or>
                invalidTokenCount (total_count uf)
             then (None, ''provider_usage_invalid_tokens'')
             else
               (case usage_of_fields setString uf of
                  (usage, caveat) \<Rightarrow>
                    if int (length (raw_text r)) \<le> maximumRawUsageBytes \<and> json_compact (raw_text r) \<noteq> None
                    then (Some (usage\<lparr>tuRaw := the (json_compact (raw_text r))\<rparr>), caveat)
                    else (Some usage, joinCaveats [caveat, ''provider_usage_raw_omitted'']))))"

definition jsonObjectPresent :: "raw \<Rightarrow> bool" where
  "jsonObjectPresent r \<longleftrightarrow>
     length (raw_text (strip r)) > 1 \<and> hd (raw_text (strip r)) = CHR ''{'' \<and> last (raw_text (strip r)) = CHR ''}''"

definition observe_choice :: "response_metadata \<Rightarrow> metadata_choice \<Rightarrow> response_metadata" where
  "observe_choice m choice =
     (let reason = (case mcFinishReason choice of None \<Rightarrow> [] | Some s \<Rightarrow> trim_space s);
          m1 = (if reason = [] then m
                else if length reason \<le> 64 then m\<lparr>rmFinishReason := reason\<rparr>
                else m\<lparr>rmUsageCaveat := joinCaveats [rmUsageCaveat m, ''provider_finish_reason_omitted'']\<rparr>) in
      if jsonObjectPresent (mcDelta choice) \<or> jsonObjectPresent (mcMessage choice)
      then m1\<lparr>rmHasChunk := True\<rparr> else m1)"

definition parseResponseMetadata :: "(string \<Rightarrow> rat option) \<Rightarrow> string \<Rightarrow> response_metadata" where
  "parseResponseMetadata setString payload =
     (case json_read payload of
        None \<Rightarrow> metadata_zero
      | Some ts \<Rightarrow>
          (case decode_struct metadata_envelope_fields metadata_envelope_zero ts of
             None \<Rightarrow> metadata_zero
           | Some envelope \<Rightarrow>
               (let metadata = foldl observe_choice metadata_zero (slice_list (meChoices envelope)) in
                if absent_or_null (meUsage envelope) then metadata
                else
                  (case parseTokenUsage setString (meUsage envelope) of
                     (usage, caveat) \<Rightarrow>
                       metadata\<lparr>rmUsage := usage, rmUsageCaveat := joinCaveats [rmUsageCaveat metadata, caveat]\<rparr>))))"

section \<open>What is parsed is valid\<close>

lemma mergeInputDetails_valid:
  "mergeInputDetails p i rd wr = Some d \<Longrightarrow> \<not> list_ex invalidTokenCount (input_counts d)"
  by (auto simp: mergeInputDetails_def invalidInputDetails_def Let_def split: if_splits)

lemma mergeOutputDetails_valid:
  "mergeOutputDetails c d = Some x \<Longrightarrow> \<not> list_ex invalidTokenCount (output_counts x)"
  by (auto simp: mergeOutputDetails_def invalidOutputDetails_def Let_def split: if_splits option.splits)

lemma parseUSDJSON_nonneg: "parseUSDJSON setString r = Some n \<Longrightarrow> 0 \<le> n"
  using parseUSD_range by (auto simp: parseUSDJSON_def split: if_splits option.splits sum.splits)

lemma tokenValue_nonneg: "0 \<le> tokenValue (parseUSDJSON setString r)"
  using parseUSDJSON_nonneg by (auto simp: tokenValue_def split: option.splits)

lemma safeAdd_nonneg: "safeAdd a b = Some t \<Longrightarrow> 0 \<le> a \<Longrightarrow> 0 \<le> b \<Longrightarrow> 0 \<le> t"
  by (auto simp: safeAdd_def Let_def split: if_splits)

lemma parseReportedCost_valid:
  assumes "parseReportedCost setString r = Some c"
  shows "rcCurrency c = ''USD'' \<and> 0 \<le> rcTotalNanoUSD c \<and>
    (\<forall>n. rcInputNanoUSD c = Some n \<longrightarrow> 0 \<le> n) \<and> (\<forall>n. rcOutputNanoUSD c = Some n \<longrightarrow> 0 \<le> n)"
proof (cases "hd (strip r) = TLBrace")
  case True
  with assms obtain x t where "decode_struct cost_fields_fields cost_fields_zero r = Some x"
    and t: "parseUSDJSON setString (cfTotal x) = Some t \<or>
      safeAdd (tokenValue (parseUSDJSON setString (cfInput x))) (tokenValue (parseUSDJSON setString (cfOutput x))) = Some t"
    and c: "c = \<lparr>rcInputNanoUSD = parseUSDJSON setString (cfInput x), rcOutputNanoUSD = parseUSDJSON setString (cfOutput x),
      rcTotalNanoUSD = t, rcCurrency = ''USD''\<rparr>"
    by (auto simp: parseReportedCost_def Let_def split: if_split_asm option.split_asm)
  from t have "0 \<le> t" using parseUSDJSON_nonneg safeAdd_nonneg tokenValue_nonneg by blast
  then show ?thesis using c parseUSDJSON_nonneg by auto
next
  case False
  with assms show ?thesis
    using parseUSDJSON_nonneg by (auto simp: parseReportedCost_def Let_def split: if_split_asm)
qed

lemma usage_validate_parts:
  assumes "\<not> invalidTokenCount (tuInput u)" "\<not> invalidTokenCount (tuOutput u)" "\<not> invalidTokenCount (tuTotal u)"
    and "\<And>d. tuInputDetails u = Some d \<Longrightarrow> \<not> list_ex invalidTokenCount (input_counts d)"
    and "\<And>d. tuOutputDetails u = Some d \<Longrightarrow> \<not> list_ex invalidTokenCount (output_counts d)"
    and "tuRaw u = [] \<or> int (length (tuRaw u)) \<le> maximumRawUsageBytes \<and> json_valid (tuRaw u)"
    and "\<And>c. tuReportedCost u = Some c \<Longrightarrow> rcCurrency c = ''USD'' \<and> 0 \<le> rcTotalNanoUSD c \<and>
      (\<forall>n. rcInputNanoUSD c = Some n \<longrightarrow> 0 \<le> n) \<and> (\<forall>n. rcOutputNanoUSD c = Some n \<longrightarrow> 0 \<le> n)"
  shows "usage_validate u = None"
proof -
  have 1: "\<not> (case tuInputDetails u of None \<Rightarrow> False | Some d \<Rightarrow> list_ex invalidTokenCount (input_counts d))"
    using assms(4) by (cases "tuInputDetails u") auto
  have 2: "\<not> (case tuOutputDetails u of None \<Rightarrow> False | Some d \<Rightarrow> list_ex invalidTokenCount (output_counts d))"
    using assms(5) by (cases "tuOutputDetails u") auto
  have 3: "\<not> (int (length (tuRaw u)) > maximumRawUsageBytes \<or> (tuRaw u \<noteq> [] \<and> \<not> json_valid (tuRaw u)))"
    using assms(6) by (auto simp: usage_limits)
  have 4: "\<not> (case rcInputNanoUSD c of None \<Rightarrow> False | Some n \<Rightarrow> n < 0)" "\<not> (case rcOutputNanoUSD c of None \<Rightarrow> False | Some n \<Rightarrow> n < 0)"
    if "tuReportedCost u = Some c" for c
    using assms(7) [OF that] by (auto split: option.splits)
  show ?thesis
    using assms(1-3) assms(7) 1 2 3 4 by (cases "tuReportedCost u") (simp_all add: usage_validate_def not_less)
qed

lemma usage_of_fields_valid:
  assumes "usage_of_fields setString uf = (u, caveat)"
    and "\<not> invalidTokenCount (tokenValue (input_count uf))" "\<not> invalidTokenCount (tokenValue (output_count uf))"
      "\<not> invalidTokenCount (total_count uf)"
    and "raw = [] \<or> int (length raw) \<le> maximumRawUsageBytes \<and> json_valid raw"
  shows "usage_validate (u\<lparr>tuRaw := raw\<rparr>) = None"
  using assms mergeInputDetails_valid mergeOutputDetails_valid parseReportedCost_valid
  by (intro usage_validate_parts) (auto simp: usage_of_fields_def Let_def)

lemma parseTokenUsage_valid:
  assumes "parseTokenUsage setString r = (Some u, caveat)"
  shows "usage_validate u = None"
proof -
  have raw: "int (length p) \<le> maximumRawUsageBytes \<and> json_valid p"
    if "json_compact (raw_text r) = Some p" "int (length (raw_text r)) \<le> maximumRawUsageBytes" for p
    using that json_compact_length [OF that(1)] by (auto simp: json_valid_def elim: json_compact_read)
  obtain uf v cv where uf: "usage_of_fields setString uf = (v, cv)"
      "\<not> invalidTokenCount (tokenValue (input_count uf))" "\<not> invalidTokenCount (tokenValue (output_count uf))"
      "\<not> invalidTokenCount (total_count uf)"
    and u: "u = v \<or> (\<exists>p. json_compact (raw_text r) = Some p \<and> int (length (raw_text r)) \<le> maximumRawUsageBytes \<and> u = v\<lparr>tuRaw := p\<rparr>)"
    using assms unfolding parseTokenUsage_def by (auto split: if_split_asm option.split_asm prod.split_asm)
  have "v = v\<lparr>tuRaw := []\<rparr>" using uf(1) by (auto simp: usage_of_fields_def Let_def)
  with u raw usage_of_fields_valid [OF uf] show ?thesis by metis
qed

lemma foldl_preserves: "(\<And>m x. P m \<Longrightarrow> P (f m x)) \<Longrightarrow> P m \<Longrightarrow> P (foldl f m xs)"
  by (induction xs arbitrary: m) auto

definition metadata_ok :: "response_metadata \<Rightarrow> bool" where
  "metadata_ok m \<longleftrightarrow> (case rmUsage m of None \<Rightarrow> True | Some u \<Rightarrow> usage_validate u = None) \<and>
     length (rmFinishReason m) \<le> 64 \<and> int (length (rmUsageCaveat m)) \<le> maximumUsageCaveatLen"

lemma metadata_ok_updates:
  "metadata_ok m \<Longrightarrow> length s \<le> 64 \<Longrightarrow> metadata_ok (m\<lparr>rmFinishReason := s\<rparr>)"
  "metadata_ok m \<Longrightarrow> metadata_ok (m\<lparr>rmUsageCaveat := joinCaveats xs\<rparr>)"
  "metadata_ok m \<Longrightarrow> metadata_ok (m\<lparr>rmHasChunk := b\<rparr>)"
  using joinCaveats_length [of xs] by (simp_all add: metadata_ok_def)

lemma observe_choice_ok: "metadata_ok m \<Longrightarrow> metadata_ok (observe_choice m c)"
  by (simp add: observe_choice_def Let_def metadata_ok_updates)

lemma parseResponseMetadata_ok: "metadata_ok (parseResponseMetadata setString payload)"
proof -
  have zero: "metadata_ok metadata_zero" by (simp add: metadata_ok_def metadata_zero_def usage_limits)
  then have "metadata_ok (foldl observe_choice metadata_zero cs)" for cs
    using observe_choice_ok by (rule foldl_preserves [rotated])
  moreover have "metadata_ok (m\<lparr>rmUsage := fst (parseTokenUsage setString r), rmUsageCaveat := joinCaveats xs\<rparr>)"
    if "metadata_ok m" for m r xs
  proof (cases "parseTokenUsage setString r")
    case (Pair a b)
    with that parseTokenUsage_valid [of setString r _ b] joinCaveats_length [of xs] show ?thesis
      by (cases a) (simp_all add: metadata_ok_def)
  qed
  ultimately show ?thesis
    using zero by (simp add: parseResponseMetadata_def Let_def split_beta split: option.split)
qed

end
