(* ===== verification/Collector.thy ===== *)
theory Collector
  imports UsageMetadata
begin

text \<open>
  The collector of one request's usage event: \<open>internal/usage/collector.go\<close>. Its methods lock a
  mutex for their whole body, so a request's calls are a sequence of steps \<open>collector_op\<close>. The
  clock is an argument.
\<close>

section \<open>Operations\<close>

record collector =
  coEvent :: usage_event
  coFinalized :: bool

definition NewCollector :: "string option \<Rightarrow> time \<Rightarrow> new_event_input \<Rightarrow> goerr + collector" where
  "NewCollector random now input =
     (case newEvent random now input of
        Inl err \<Rightarrow> Inl err
      | Inr event \<Rightarrow> Inr \<lparr>coEvent = event, coFinalized = False\<rparr>)"

record pending_event =
  peEventID :: string
  peRequestID :: string
  peTenantID :: string
  peAPIKeyID :: string
  peRequestedModel :: string
  peStream :: bool
  peStartedAt :: time

definition collector_Pending :: "collector \<Rightarrow> pending_event" where
  "collector_Pending c =
     (let e = coEvent c in
      \<lparr>peEventID = ueEventID e, peRequestID = ueRequestID e, peTenantID = ueTenantID e, peAPIKeyID = ueAPIKeyID e,
       peRequestedModel = ueRequestedModel e, peStream = ueStream e, peStartedAt = ueStartedAt e\<rparr>)"

definition SetCacheStatus :: "string \<Rightarrow> collector \<Rightarrow> collector" where
  "SetCacheStatus status0 c =
     (let status = to_lower (trim_space status0) in
      if \<not> coFinalized c \<and> status \<noteq> [] then c\<lparr>coEvent := (coEvent c)\<lparr>ueCacheStatus := status\<rparr>\<rparr> else c)"

definition SetRoute :: "string \<Rightarrow> string \<Rightarrow> int \<Rightarrow> int \<Rightarrow> int \<Rightarrow> collector \<Rightarrow> collector" where
  "SetRoute providerID upstreamModel attempts retries fallbacks c =
     (if coFinalized c then c
      else c\<lparr>coEvent := (coEvent c)\<lparr>ueProviderID := providerID, ueUpstreamModel := upstreamModel,
        ueAttempts := attempts, ueRetries := retries, ueFallbacks := fallbacks\<rparr>\<rparr>)"

definition first_token :: "time \<Rightarrow> time \<Rightarrow> usage_event \<Rightarrow> usage_event" where
  "first_token observedAt now e =
     (let seen = (if observedAt = 0 then now else observedAt);
          ms = milliseconds (time_sub seen (ueStartedAt e)) in
      e\<lparr>ueFirstTokenMS := Some (if ms < 0 then 0 else ms)\<rparr>)"

definition observe_metadata :: "response_metadata \<Rightarrow> usage_event \<Rightarrow> usage_event" where
  "observe_metadata m e =
     (let e1 = (if rmUsage m \<noteq> None then e\<lparr>ueUsage := rmUsage m, ueUsageCaveat := rmUsageCaveat m\<rparr>
                else if rmUsageCaveat m \<noteq> [] \<and> ueUsage e = None then e\<lparr>ueUsageCaveat := rmUsageCaveat m\<rparr>
                else e) in
      if rmFinishReason m \<noteq> [] then e1\<lparr>ueFinishReason := rmFinishReason m\<rparr> else e1)"

definition observe ::
  "(string \<Rightarrow> rat option) \<Rightarrow> string \<Rightarrow> bool \<Rightarrow> time \<Rightarrow> time \<Rightarrow> collector \<Rightarrow> collector" where
  "observe setString payload stream observedAt now c =
     (let m = parseResponseMetadata setString payload in
      if coFinalized c then c
      else
        (let e = observe_metadata m (coEvent c) in
         c\<lparr>coEvent := if stream \<and> rmHasChunk m \<and> ueFirstTokenMS e = None then first_token observedAt now e else e\<rparr>))"

definition ObserveResponse :: "(string \<Rightarrow> rat option) \<Rightarrow> string \<Rightarrow> collector \<Rightarrow> collector" where
  "ObserveResponse setString payload c = observe setString payload False 0 0 c"

definition ObserveStreamResponse ::
  "(string \<Rightarrow> rat option) \<Rightarrow> string \<Rightarrow> time \<Rightarrow> time \<Rightarrow> collector \<Rightarrow> collector" where
  "ObserveStreamResponse setString payload observedAt now c = observe setString payload True observedAt now c"

definition end_time :: "outcome_input \<Rightarrow> time \<Rightarrow> time \<Rightarrow> time" where
  "end_time outcome now started =
     (let ended = (if oiEndedAt outcome = 0 then now else oiEndedAt outcome) in
      if ended < started then started else ended)"

definition Finalize :: "outcome_input \<Rightarrow> time \<Rightarrow> collector \<Rightarrow> collector \<times> usage_event \<times> bool" where
  "Finalize outcome now c =
     (if coFinalized c then (c, event_zero, False)
      else
        (let e = coEvent c; ended = end_time outcome now (ueStartedAt e);
             e1 = e\<lparr>ueStatus := oiStatus outcome, ueErrorCategory := oiErrorCategory outcome,
                    ueErrorCode := oiErrorCode outcome, ueEndedAt := ended,
                    ueLatencyMS := milliseconds (time_sub ended (ueStartedAt e))\<rparr>;
             e2 = e1\<lparr>ueUsageSource := inferredUsageSource e1\<rparr>;
             e3 = (if ueUsage e2 = None \<and> ueUsageCaveat e2 = []
                   then e2\<lparr>ueUsageCaveat := ''provider_usage_unavailable''\<rparr> else e2) in
         (\<lparr>coEvent = e3, coFinalized = True\<rparr>, e3, True)))"

section \<open>The calls of one request\<close>

datatype collector_op =
    OpCacheStatus string
  | OpRoute string string int int int
  | OpResponse string
  | OpStreamResponse string time time \<comment> \<open>payload, observation time, clock\<close>

fun collector_step :: "(string \<Rightarrow> rat option) \<Rightarrow> collector_op \<Rightarrow> collector \<Rightarrow> collector" where
  "collector_step setString (OpCacheStatus s) c = SetCacheStatus s c"
| "collector_step setString (OpRoute p m a r f) c = SetRoute p m a r f c"
| "collector_step setString (OpResponse payload) c = ObserveResponse setString payload c"
| "collector_step setString (OpStreamResponse payload seen now) c = ObserveStreamResponse setString payload seen now c"

definition collector_run :: "(string \<Rightarrow> rat option) \<Rightarrow> collector_op list \<Rightarrow> collector \<Rightarrow> collector" where
  "collector_run setString ops c = foldl (\<lambda>c op. collector_step setString op c) c ops"

text \<open>
  What the callers keep to: a known cache status, route data within its bounds, chunk times only
  on a stream request and not after the end \<open>ended\<close> of the request.
\<close>

fun op_ok :: "bool \<Rightarrow> time \<Rightarrow> collector_op \<Rightarrow> bool" where
  "op_ok stream ended (OpCacheStatus s) \<longleftrightarrow>
     (let status = to_lower (trim_space s) in status = [] \<or> validCacheStatus status)"
| "op_ok stream ended (OpRoute p m a r f) \<longleftrightarrow> length p \<le> 100 \<and> length m \<le> 200 \<and> 0 \<le> a \<and> 0 \<le> r \<and> 0 \<le> f"
| "op_ok stream ended (OpResponse payload) \<longleftrightarrow> True"
| "op_ok stream ended (OpStreamResponse payload seen now) \<longleftrightarrow> stream \<and> (if seen = 0 then now else seen) \<le> ended"

definition outcome_ok :: "bool \<Rightarrow> string \<Rightarrow> outcome_input \<Rightarrow> bool" where
  "outcome_ok stream cacheStatus outcome \<longleftrightarrow>
     validUsageStatus (oiStatus outcome) \<and> length (oiErrorCategory outcome) \<le> 64 \<and> length (oiErrorCode outcome) \<le> 100 \<and>
     (failedStatus (oiStatus outcome) \<longrightarrow> oiErrorCategory outcome \<noteq> [] \<and> oiErrorCode outcome \<noteq> []) \<and>
     (oiStatus outcome = StatusCacheHit \<longleftrightarrow> cacheStatus = ''hit'') \<and>
     (oiStatus outcome = StatusCacheHit \<longrightarrow> \<not> stream) \<and>
     (oiStatus outcome \<in> {StatusStreamCompleted, StatusStreamInterrupted} \<longrightarrow> stream)"

section \<open>The event is valid\<close>

text \<open>What holds of the event before it is finalized.\<close>

definition open_event_ok :: "time \<Rightarrow> usage_event \<Rightarrow> bool" where
  "open_event_ok ended e \<longleftrightarrow>
     ueSchemaVersion e = SchemaVersion \<and> validRequiredText (ueEventID e) 64 \<and> validRequiredText (ueRequestID e) 128 \<and>
     validRequiredText (ueTenantID e) 128 \<and> validRequiredText (ueAPIKeyID e) 64 \<and>
     validRequiredText (ueRequestedModel e) 200 \<and> length (ueProviderID e) \<le> 100 \<and> length (ueUpstreamModel e) \<le> 200 \<and>
     validCacheStatus (ueCacheStatus e) \<and> 0 \<le> ueAttempts e \<and> 0 \<le> ueRetries e \<and> 0 \<le> ueFallbacks e \<and>
     length (ueFinishReason e) \<le> 64 \<and> int (length (ueUsageCaveat e)) \<le> maximumUsageCaveatLen \<and>
     ueStartedAt e \<noteq> 0 \<and> (\<forall>u. ueUsage e = Some u \<longrightarrow> usage_validate u = None) \<and>
     (\<forall>n. ueFirstTokenMS e = Some n \<longrightarrow>
        ueStream e \<and> 0 \<le> n \<and> n \<le> max 0 (milliseconds (time_sub ended (ueStartedAt e))))"

lemma milliseconds_mono: "a \<le> b \<Longrightarrow> milliseconds a \<le> max 0 (milliseconds b)"
proof -
  assume ab: "a \<le> b"
  have div: "milliseconds d = (if 0 \<le> d then d div 1000000 else - ((- d) div 1000000))" for d
    by (cases "d = 0") (simp_all add: milliseconds_def quo_def signed_divide_int_def millisecond_def sgn_if)
  show ?thesis
  proof (cases "0 \<le> a")
    case True
    with ab show ?thesis by (simp add: div zdiv_mono1 le_max_iff_disj)
  next
    case False
    then have "0 \<le> (- a) div 1000000" by (simp add: pos_imp_zdiv_nonneg_iff)
    with False show ?thesis by (simp add: div le_max_iff_disj)
  qed
qed

lemma time_sub_mono: "a \<le> b \<Longrightarrow> time_sub a s \<le> time_sub b s"
  by (simp add: time_sub_def)

lemma first_token_ok:
  assumes "open_event_ok ended e" "ueStream e" "(if seen = 0 then now else seen) \<le> ended"
  shows "open_event_ok ended (first_token seen now e)"
  using assms milliseconds_mono [OF time_sub_mono [OF assms(3), of "ueStartedAt e"]]
  by (simp add: first_token_def open_event_ok_def Let_def del: max.bounded_iff)

lemma observe_metadata_ok:
  "metadata_ok m \<Longrightarrow> open_event_ok ended e \<Longrightarrow> open_event_ok ended (observe_metadata m e)"
  by (simp add: observe_metadata_def metadata_ok_def open_event_ok_def Let_def split: option.splits)

lemma observe_metadata_stream [simp]: "ueStream (observe_metadata m e) = ueStream e"
  by (simp add: observe_metadata_def Let_def)

lemma collector_step_ok:
  assumes "op_ok (ueStream (coEvent c)) ended op" and "open_event_ok ended (coEvent c)" and "\<not> coFinalized c"
  shows "open_event_ok ended (coEvent (collector_step setString op c)) \<and> \<not> coFinalized (collector_step setString op c) \<and>
    ueStream (coEvent (collector_step setString op c)) = ueStream (coEvent c) \<and>
    ueStartedAt (coEvent (collector_step setString op c)) = ueStartedAt (coEvent c)"
proof (cases op)
  case (OpCacheStatus s)
  with assms show ?thesis by (auto simp: SetCacheStatus_def open_event_ok_def Let_def)
next
  case (OpRoute p m a r f)
  with assms show ?thesis by (simp add: SetRoute_def open_event_ok_def)
next
  case (OpResponse payload)
  with assms observe_metadata_ok [OF parseResponseMetadata_ok] show ?thesis
    by (simp add: ObserveResponse_def observe_def Let_def) (simp add: observe_metadata_def Let_def)
next
  case (OpStreamResponse payload seen now)
  with assms observe_metadata_ok [OF parseResponseMetadata_ok] show ?thesis
    by (simp add: ObserveStreamResponse_def observe_def Let_def first_token_ok)
      (simp add: observe_metadata_def first_token_def Let_def)
qed

lemma collector_run_ok:
  assumes "\<forall>op \<in> set ops. op_ok (ueStream (coEvent c)) ended op" and "open_event_ok ended (coEvent c)" and "\<not> coFinalized c"
  shows "open_event_ok ended (coEvent (collector_run setString ops c)) \<and> \<not> coFinalized (collector_run setString ops c) \<and>
    ueStream (coEvent (collector_run setString ops c)) = ueStream (coEvent c) \<and>
    ueStartedAt (coEvent (collector_run setString ops c)) = ueStartedAt (coEvent c)"
  using assms
proof (induction ops arbitrary: c)
  case (Cons op ops)
  with collector_step_ok [of c ended op setString] show ?case by (simp add: collector_run_def)
qed (simp add: collector_run_def)

lemma event_id_ok:
  assumes "generateEventID (Some bytes) = Inr i" and "length bytes \<le> 30"
  shows "validRequiredText i 64"
proof -
  have i: "i = ''use_'' @ hex_encode bytes" using assms(1) by (simp add: generateEventID_def)
  have "graphic (last i)"
    unfolding i using hex_encode_graphic [of bytes] by (cases "hex_encode bytes" rule: rev_cases) (simp_all add: graphic_def)
  moreover have "i \<noteq> []" "graphic (hd i)" unfolding i by (simp_all add: graphic_def)
  ultimately have "trim_space i = i" using trim_graphic by blast
  moreover have "length (hex_encode bytes) = 2 * length bytes" by (induction bytes) (simp_all add: hex_encode_def)
  ultimately show ?thesis using assms(2) by (simp add: validRequiredText_def i)
qed

lemma NewCollector_ok:
  assumes "NewCollector (Some bytes) now input = Inr c" and "length bytes = 16" and "niStartedAt input \<noteq> 0 \<or> now \<noteq> 0"
  shows "open_event_ok ended (coEvent c) \<and> \<not> coFinalized c"
proof -
  obtain i where i: "generateEventID (Some bytes) = Inr i" by (simp add: generateEventID_def)
  with assms event_id_ok [OF i] show ?thesis
    by (auto simp: NewCollector_def newEvent_def Let_def open_event_ok_def event_zero_def usage_limits validCacheStatus_def
        split: if_split_asm)
qed

lemma Finalize_valid:
  assumes open_event: "open_event_ok (end_time outcome now (ueStartedAt (coEvent c))) (coEvent c)"
    and "\<not> coFinalized c" and out: "outcome_ok (ueStream (coEvent c)) (ueCacheStatus (coEvent c)) outcome"
    and end_time: "end_time outcome now (ueStartedAt (coEvent c)) \<noteq> 0"
    and "Finalize outcome now c = (c', e, ok)"
  shows "ok \<and> event_Validate e = None"
proof -
  let ?e = "coEvent c" and ?t = "end_time outcome now (ueStartedAt (coEvent c))"
  have le: "ueStartedAt ?e \<le> ?t" by (simp add: end_time_def Let_def)
  have lat: "0 \<le> milliseconds (time_sub ?t (ueStartedAt ?e))"
    using time_sub_nonneg [OF le] by (simp add: milliseconds_def quo_nonneg millisecond_def pos_imp_zdiv_nonneg_iff)
  have e: "ok" "e = (let e1 = ?e\<lparr>ueStatus := oiStatus outcome, ueErrorCategory := oiErrorCategory outcome,
      ueErrorCode := oiErrorCode outcome, ueEndedAt := ?t,
      ueLatencyMS := milliseconds (time_sub ?t (ueStartedAt ?e)), ueUsageSource := inferredUsageSource (?e\<lparr>ueStatus := oiStatus outcome\<rparr>)\<rparr>
     in if ueUsage ?e = None \<and> ueUsageCaveat ?e = [] then e1\<lparr>ueUsageCaveat := ''provider_usage_unavailable''\<rparr> else e1)"
    using assms(2,5) by (auto simp: Finalize_def Let_def inferredUsageSource_def)
  have "find fst (event_faults e) = None"
    using open_event out end_time le lat
    by (cases "ueUsage ?e"; cases "ueFirstTokenMS ?e")
      (auto simp: find_None_iff event_faults_def e(2) Let_def open_event_ok_def outcome_ok_def inferredUsageSource_def
        usage_limits usage_sources not_less)
  moreover have "\<not> (failedStatus (ueStatus e) \<and> (ueErrorCategory e = [] \<or> ueErrorCode e = []))"
    using out by (auto simp: e(2) Let_def outcome_ok_def)
  moreover have "(case ueUsage e of None \<Rightarrow> None | Some u \<Rightarrow> usage_validate u) = None"
    using open_event by (auto simp: e(2) Let_def open_event_ok_def split: option.split)
  ultimately show ?thesis using e(1) by (simp add: event_Validate_def)
qed

lemma collector_run_request: "ueRequestID (coEvent (collector_run setString ops c)) = ueRequestID (coEvent c)"
proof -
  have "ueRequestID (coEvent (collector_step setString op c)) = ueRequestID (coEvent c)" for op c
    by (cases op) (simp_all add: SetCacheStatus_def SetRoute_def ObserveResponse_def ObserveStreamResponse_def observe_def
        observe_metadata_def first_token_def Let_def)
  then show ?thesis by (induction ops arbitrary: c) (simp_all add: collector_run_def)
qed

section \<open>Properties\<close>



text \<open>
  An event is finalized once. After the first \<open>Finalize\<close> no later call changes the event, and every
  further \<open>Finalize\<close> reports that there is nothing to emit.
\<close>

theorem collector_finalized_once:
  assumes "Finalize outcome now c = (c', e, True)"
  shows "coEvent c' = e \<and> collector_run setString ops c' = c' \<and>
    Finalize outcome2 now2 (collector_run setString ops c') = (c', event_zero, False)"
proof -
  have f: "coFinalized c'" "coEvent c' = e"
    using assms by (auto simp: Finalize_def Let_def split: if_split_asm)
  have "collector_step setString op c' = c'" for op
    using f(1) by (cases op)
      (simp_all add: SetCacheStatus_def SetRoute_def ObserveResponse_def ObserveStreamResponse_def observe_def Let_def)
  then have "collector_run setString ops c' = c'"
    by (induction ops) (simp_all add: collector_run_def)
  with f show ?thesis by (simp add: Finalize_def)
qed

theorem collector_finalized_once_witness:
  "\<exists>c' e. Finalize \<lparr>oiStatus = ''success'', oiErrorCategory = [], oiErrorCode = [], oiEndedAt = 7\<rparr> 1
       \<lparr>coEvent = event_zero, coFinalized = False\<rparr> = (c', e, True) \<and>
     collector_run (\<lambda>s. None) [OpCacheStatus ''hit''] c' = c'"
proof -
  obtain c' e ok where f: "Finalize \<lparr>oiStatus = ''success'', oiErrorCategory = [], oiErrorCode = [], oiEndedAt = 7\<rparr> 1
       \<lparr>coEvent = event_zero, coFinalized = False\<rparr> = (c', e, ok)" using prod_cases3 by blast
  then have "ok" by (auto simp: Finalize_def Let_def)
  with f collector_finalized_once [of _ 1 _ c' e "\<lambda>s. None" "[OpCacheStatus ''hit'']"] show ?thesis by auto
qed

end
