(* ===== verification/Pricing.thy ===== *)
theory Pricing
  imports UsageEvent
begin

text \<open>
  The pricing catalog: \<open>internal/usage/pricing.go\<close>. Amounts are nano-USD in \<open>int64\<close>; products
  are formed in \<open>big.Int\<close>, so in \<open>int\<close>, and checked before they are narrowed. The catalog's
  map is an association list in the order its keys were first configured; \<open>parseTime\<close> is
  \<open>time.Parse(time.RFC3339, _)\<close>.
\<close>

section \<open>Data\<close>

definition CostSourceProvider :: string where "CostSourceProvider = ''provider_reported''"
definition CostSourceCatalog :: string where "CostSourceCatalog = ''catalog''"
definition CostSourceCache :: string where "CostSourceCache = ''cache''"

record cost_snapshot =
  csInputNanoUSD :: "int option"
  csOutputNanoUSD :: "int option"
  csTotalNanoUSD :: int
  csCurrency :: string
  csSource :: string
  csPricingVersion :: string
  csCaveat :: string

record cost_result =
  crSnapshot :: "cost_snapshot option"
  crCaveat :: string

text \<open>An \<open>optionalRate\<close> is an option.\<close>

record token_rates =
  trInput :: int
  trOutput :: int
  trCachedRead :: "int option"
  trCachedWrite :: "int option"
  trAudioInput :: "int option"
  trAudioOutput :: "int option"
  trImageInput :: "int option"
  trReasoningOutput :: "int option"

record price_entry =
  pProviderID :: string
  pModel :: string
  pVersion :: string
  pFrom :: time
  pUntil :: time
  pRates :: token_rates

type_synonym catalog = "(string \<times> price_entry list) list"

record usage_price =
  upProviderID :: string
  upModel :: string
  upVersion :: string
  upEffectiveFrom :: string
  upEffectiveUntil :: string
  upInputUSDPerMillion :: string
  upOutputUSDPerMillion :: string
  upCachedReadUSDPerMillion :: string
  upCachedWriteUSDPerMillion :: string
  upAudioInputUSDPerMillion :: string
  upAudioOutputUSDPerMillion :: string
  upImageInputUSDPerMillion :: string
  upReasoningOutputUSDPerMillion :: string

section \<open>Parsing entries\<close>

definition validPriceName :: "string \<Rightarrow> int \<Rightarrow> bool" where
  "validPriceName name maximum \<longleftrightarrow>
     name = trim_space name \<and> name \<noteq> [] \<and> int (length name) \<le> maximum \<and>
     \<not> list_ex (\<lambda>c. c \<in> {CHR 0x00, CHR 0x0D, CHR 0x0A, CHR 0x09}) name"

definition parseRequiredRate :: "(string \<Rightarrow> rat option) \<Rightarrow> string \<Rightarrow> string \<Rightarrow> goerr + int" where
  "parseRequiredRate setString raw name =
     (if trim_space raw = [] then Inl (ErrNew (name @ '' is required''))
      else case parseUSD setString raw of
             Inl err \<Rightarrow> Inl (ErrNew (name @ '' is invalid''))
           | Inr rate \<Rightarrow> Inr rate)"

definition parseOptionalRate :: "(string \<Rightarrow> rat option) \<Rightarrow> string \<Rightarrow> string \<Rightarrow> goerr + int option" where
  "parseOptionalRate setString raw name =
     (if trim_space raw = [] then Inr None
      else case parseUSD setString raw of
             Inl err \<Rightarrow> Inl (ErrNew (name @ '' is invalid''))
           | Inr rate \<Rightarrow> Inr (Some rate))"

definition then_ok :: "goerr + 'a \<Rightarrow> ('a \<Rightarrow> goerr + 'b) \<Rightarrow> goerr + 'b" where
  "then_ok r f = (case r of Inl err \<Rightarrow> Inl err | Inr x \<Rightarrow> f x)"

definition optional_time :: "(string \<Rightarrow> time option) \<Rightarrow> string \<Rightarrow> time \<Rightarrow> string \<Rightarrow> goerr + time" where
  "optional_time parseTime raw unset message =
     (if trim_space raw = [] then Inr unset
      else case parseTime (trim_space raw) of None \<Rightarrow> Inl (ErrNew message) | Some t \<Rightarrow> Inr t)"

text \<open>\<open>time.Unix(0, 0)\<close> and the last second of the year 9999.\<close>

definition unix_epoch :: time where "unix_epoch = 62135596800000000000"
definition end_of_9999 :: time where "end_of_9999 = 315537897599000000000"

definition parse_rates :: "(string \<Rightarrow> rat option) \<Rightarrow> usage_price \<Rightarrow> goerr + token_rates" where
  "parse_rates setString c =
     then_ok (parseRequiredRate setString (upInputUSDPerMillion c) ''input_usd_per_million'') (\<lambda>i.
     then_ok (parseRequiredRate setString (upOutputUSDPerMillion c) ''output_usd_per_million'') (\<lambda>out.
     then_ok (parseOptionalRate setString (upCachedReadUSDPerMillion c) ''cached_read_usd_per_million'') (\<lambda>cr.
     then_ok (parseOptionalRate setString (upCachedWriteUSDPerMillion c) ''cached_write_usd_per_million'') (\<lambda>cw.
     then_ok (parseOptionalRate setString (upAudioInputUSDPerMillion c) ''audio_input_usd_per_million'') (\<lambda>ai.
     then_ok (parseOptionalRate setString (upAudioOutputUSDPerMillion c) ''audio_output_usd_per_million'') (\<lambda>ao.
     then_ok (parseOptionalRate setString (upImageInputUSDPerMillion c) ''image_input_usd_per_million'') (\<lambda>ii.
     then_ok (parseOptionalRate setString (upReasoningOutputUSDPerMillion c) ''reasoning_output_usd_per_million'') (\<lambda>ro.
       Inr \<lparr>trInput = i, trOutput = out, trCachedRead = cr, trCachedWrite = cw, trAudioInput = ai,
            trAudioOutput = ao, trImageInput = ii, trReasoningOutput = ro\<rparr>))))))))"

definition parsePriceEntry ::
  "(string \<Rightarrow> rat option) \<Rightarrow> (string \<Rightarrow> time option) \<Rightarrow> usage_price \<Rightarrow> goerr + price_entry" where
  "parsePriceEntry setString parseTime c =
     (let providerID = trim_space (upProviderID c); model = trim_space (upModel c); version = trim_space (upVersion c) in
      if \<not> validPriceName providerID 100 then Inl (ErrNew ''provider is invalid'')
      else if \<not> validPriceName model 200 then Inl (ErrNew ''model is invalid'')
      else if \<not> validPriceName version 100 then Inl (ErrNew ''version is invalid'')
      else
        then_ok (optional_time parseTime (upEffectiveFrom c) unix_epoch ''effective_from must be RFC3339'') (\<lambda>from.
        then_ok (optional_time parseTime (upEffectiveUntil c) end_of_9999 ''effective_until must be RFC3339'') (\<lambda>until.
          if \<not> from < until then Inl (ErrNew ''effective_until must be after effective_from'')
          else
            then_ok (parse_rates setString c) (\<lambda>rates.
              Inr \<lparr>pProviderID = providerID, pModel = model, pVersion = version, pFrom = from, pUntil = until,
                   pRates = rates\<rparr>))))"

section \<open>The catalog\<close>

definition priceKey :: "string \<Rightarrow> string \<Rightarrow> string" where
  "priceKey providerID model = providerID @ CHR 0x00 # model"

definition entries_of :: "catalog \<Rightarrow> string \<Rightarrow> price_entry list" where
  "entries_of cat key = (case map_of cat key of None \<Rightarrow> [] | Some es \<Rightarrow> es)"

fun append_entry :: "string \<Rightarrow> price_entry \<Rightarrow> catalog \<Rightarrow> catalog" where
  "append_entry key e [] = [(key, [e])]"
| "append_entry key e ((k, es) # cat) =
     (if k = key then (k, es @ [e]) # cat else (k, es) # append_entry key e cat)"

fun collect_entries ::
  "(string \<Rightarrow> rat option) \<Rightarrow> (string \<Rightarrow> time option) \<Rightarrow> usage_price list \<Rightarrow> catalog \<Rightarrow> goerr + catalog" where
  "collect_entries setString parseTime [] cat = Inr cat"
| "collect_entries setString parseTime (c # cs) cat =
     (case parsePriceEntry setString parseTime c of
        Inl err \<Rightarrow> Inl (ErrWrap [err])
      | Inr e \<Rightarrow> collect_entries setString parseTime cs (append_entry (priceKey (pProviderID e) (pModel e)) e cat))"

fun overlapping :: "price_entry list \<Rightarrow> bool" where
  "overlapping (e # f # es) \<longleftrightarrow> pFrom f < pUntil e \<or> overlapping (f # es)"
| "overlapping _ \<longleftrightarrow> False"

text \<open>
  Entries of one key that start at the same time overlap in either order, so it does not matter
  that \<open>slices.SortFunc\<close> is not stable.
\<close>

definition NewPricingCatalog ::
  "(string \<Rightarrow> rat option) \<Rightarrow> (string \<Rightarrow> time option) \<Rightarrow> usage_price list \<Rightarrow> goerr + catalog" where
  "NewPricingCatalog setString parseTime configured =
     (case collect_entries setString parseTime configured [] of
        Inl err \<Rightarrow> Inl err
      | Inr cat \<Rightarrow>
          (let sorted_cat = map (\<lambda>(key, es). (key, sort_key pFrom es)) cat in
           if list_ex (\<lambda>(key, es). overlapping es) sorted_cat
           then Inl (ErrNew ''usage prices have overlapping effective windows'') else Inr sorted_cat))"

definition catalog_Empty :: "catalog \<Rightarrow> bool" where
  "catalog_Empty cat \<longleftrightarrow> cat = []"

text \<open>\<open>sort.Search\<close>: binary search for the first index with the property.\<close>

function search_loop :: "nat \<Rightarrow> nat \<Rightarrow> (nat \<Rightarrow> bool) \<Rightarrow> nat" where
  "search_loop i j f =
     (if i < j then (let h = (i + j) div 2 in if \<not> f h then search_loop (h + 1) j f else search_loop i h f) else i)"
  by pat_completeness auto
termination by (relation "measure (\<lambda>(i, j, f). j - i)") auto

declare search_loop.simps [simp del]

definition sort_Search :: "nat \<Rightarrow> (nat \<Rightarrow> bool) \<Rightarrow> nat" where
  "sort_Search n f = search_loop 0 n f"

definition lookup_key :: "catalog \<Rightarrow> string \<Rightarrow> time \<Rightarrow> price_entry option" where
  "lookup_key cat key now =
     (let es = entries_of cat key; i = sort_Search (length es) (\<lambda>k. now < pFrom (es ! k)) in
      if i \<ge> 1 \<and> now < pUntil (es ! (i - 1)) then Some (es ! (i - 1)) else None)"

fun lookup_keys :: "catalog \<Rightarrow> (string \<times> string) list \<Rightarrow> time \<Rightarrow> price_entry option" where
  "lookup_keys cat [] now = None"
| "lookup_keys cat ((provider, model) # keys) now =
     (if model = [] then lookup_keys cat keys now
      else case lookup_key cat (priceKey provider model) now of
             Some e \<Rightarrow> Some e
           | None \<Rightarrow> lookup_keys cat keys now)"

definition lookup_order :: "string \<Rightarrow> string \<Rightarrow> string \<Rightarrow> (string \<times> string) list" where
  "lookup_order providerID upstreamModel requestedModel =
     (let models = [trim_space upstreamModel, trim_space requestedModel, ''*''] in
      map (Pair (trim_space providerID)) models @ map (Pair ''*'') models)"

definition catalog_lookup :: "catalog \<Rightarrow> string \<Rightarrow> string \<Rightarrow> string \<Rightarrow> time \<Rightarrow> price_entry option" where
  "catalog_lookup cat providerID upstreamModel requestedModel now =
     lookup_keys cat (lookup_order providerID upstreamModel requestedModel) now"

section \<open>Quotes\<close>

text \<open>The cost and whether it fits an \<open>int64\<close>; 0 when it does not.\<close>

definition tokenCost :: "int \<Rightarrow> int \<Rightarrow> int \<times> bool" where
  "tokenCost tokens nanoUSDPerMillion =
     (if tokens = 0 \<or> nanoUSDPerMillion = 0 then (0, True)
      else
        (let n = quo (tokens * nanoUSDPerMillion + 500000) 1000000 in
         if \<not> is_int64 n then (0, False) else (n, True)))"

definition rateOr :: "int option \<Rightarrow> int \<Rightarrow> int" where
  "rateOr rate fallback = (case rate of None \<Rightarrow> fallback | Some r \<Rightarrow> r)"

fun sum_costs :: "int \<Rightarrow> (int \<times> int) list \<Rightarrow> int \<times> string" where
  "sum_costs acc [] = (acc, [])"
| "sum_costs acc ((tokens, rate) # cs) =
     (case tokenCost tokens rate of
        (cost, ok) \<Rightarrow>
          if \<not> ok then (0, ''cost_overflow'')
          else case safeAdd acc cost of
                 None \<Rightarrow> (0, ''cost_overflow'')
               | Some acc' \<Rightarrow> sum_costs acc' cs)"

definition sumTokenCosts :: "(int \<times> int) list \<Rightarrow> int \<times> string" where
  "sumTokenCosts components = sum_costs 0 components"

definition quoteInput :: "token_usage \<Rightarrow> token_rates \<Rightarrow> int \<times> string" where
  "quoteInput u rates =
     (case tuInputDetails u of
        None \<Rightarrow>
          (case tokenCost (tuInput u) (trInput rates) of
             (cost, ok) \<Rightarrow> if \<not> ok then (0, ''cost_overflow'') else (cost, []))
      | Some d \<Rightarrow>
          (let special = wrap_int64 (wrap_int64 (wrap_int64 (idCachedRead d + idCachedWrite d) + idAudio d) + idImage d) in
           if special > tuInput u then (fst (tokenCost (tuInput u) (trInput rates)), ''input_token_details_overlap'')
           else
             sumTokenCosts
               [(wrap_int64 (tuInput u - special), trInput rates),
                (idCachedRead d, rateOr (trCachedRead rates) (trInput rates)),
                (idCachedWrite d, rateOr (trCachedWrite rates) (trInput rates)),
                (idAudio d, rateOr (trAudioInput rates) (trInput rates)),
                (idImage d, rateOr (trImageInput rates) (trInput rates))]))"

definition quoteOutput :: "token_usage \<Rightarrow> token_rates \<Rightarrow> int \<times> string" where
  "quoteOutput u rates =
     (case tuOutputDetails u of
        None \<Rightarrow>
          (case tokenCost (tuOutput u) (trOutput rates) of
             (cost, ok) \<Rightarrow> if \<not> ok then (0, ''cost_overflow'') else (cost, []))
      | Some d \<Rightarrow>
          (let special = wrap_int64 (odAudio d + odReasoning d) in
           if special > tuOutput u then (fst (tokenCost (tuOutput u) (trOutput rates)), ''output_token_details_overlap'')
           else
             sumTokenCosts
               [(wrap_int64 (tuOutput u - special), trOutput rates),
                (odAudio d, rateOr (trAudioOutput rates) (trOutput rates)),
                (odReasoning d, rateOr (trReasoningOutput rates) (trOutput rates))]))"

definition only_caveat :: "string list \<Rightarrow> cost_result" where
  "only_caveat caveats = \<lparr>crSnapshot = None, crCaveat = joinCaveats caveats\<rparr>"

definition Quote :: "catalog \<Rightarrow> usage_event \<Rightarrow> cost_result" where
  "Quote cat e =
     (let retryCaveat = (if ueAttempts e > 1 \<or> ueRetries e > 0 \<or> ueFallbacks e > 0
            then ''cost_excludes_unreported_failed_attempts'' else []) in
      if ueStatus e = StatusCacheHit then
        \<lparr>crSnapshot = Some \<lparr>csInputNanoUSD = Some 0, csOutputNanoUSD = Some 0, csTotalNanoUSD = 0, csCurrency = ''USD'',
           csSource = CostSourceCache, csPricingVersion = ''cache-v1'', csCaveat = []\<rparr>, crCaveat = []\<rparr>
      else case ueUsage e of
        None \<Rightarrow> only_caveat [ueUsageCaveat e, ''cost_unknown_without_usage'', retryCaveat]
      | Some u \<Rightarrow>
          (case tuReportedCost u of
             Some reported \<Rightarrow>
               \<lparr>crSnapshot = Some \<lparr>csInputNanoUSD = rcInputNanoUSD reported, csOutputNanoUSD = rcOutputNanoUSD reported,
                  csTotalNanoUSD = rcTotalNanoUSD reported, csCurrency = rcCurrency reported, csSource = CostSourceProvider,
                  csPricingVersion = ''provider-reported'', csCaveat = joinCaveats [ueUsageCaveat e, retryCaveat]\<rparr>,
                crCaveat = []\<rparr>
           | None \<Rightarrow>
               (case catalog_lookup cat (ueProviderID e) (ueUpstreamModel e) (ueRequestedModel e) (ueStartedAt e) of
                  None \<Rightarrow> only_caveat [ueUsageCaveat e, ''pricing_not_found'', retryCaveat]
                | Some entry \<Rightarrow>
                    (case (quoteInput u (pRates entry), quoteOutput u (pRates entry)) of
                       ((inputCost, inputCaveat), (outputCost, outputCaveat)) \<Rightarrow>
                         if inputCaveat = ''cost_overflow'' \<or> outputCaveat = ''cost_overflow''
                         then only_caveat [ueUsageCaveat e, ''cost_overflow'', retryCaveat]
                         else case safeAdd inputCost outputCost of
                           None \<Rightarrow> only_caveat [ueUsageCaveat e, ''cost_overflow'', retryCaveat]
                         | Some costs \<Rightarrow>
                             \<lparr>crSnapshot = Some \<lparr>csInputNanoUSD = Some inputCost, csOutputNanoUSD = Some outputCost,
                                csTotalNanoUSD = costs, csCurrency = ''USD'', csSource = CostSourceCatalog,
                                csPricingVersion = pVersion entry,
                                csCaveat = joinCaveats [ueUsageCaveat e, inputCaveat, outputCaveat, retryCaveat]\<rparr>,
                              crCaveat = []\<rparr>))))"

section \<open>Looking up a price\<close>

lemma search_loop_least:
  assumes "\<forall>h k. f h \<longrightarrow> h \<le> k \<longrightarrow> k < n \<longrightarrow> f k" and "i \<le> j" "j \<le> n"
    and "\<forall>k < i. \<not> f k" and "j < n \<longrightarrow> f j"
  shows "let r = search_loop i j f in r \<le> n \<and> (\<forall>k < r. \<not> f k) \<and> (r < n \<longrightarrow> f r)"
  using assms
proof (induction i j f rule: search_loop.induct)
  case (1 i j f)
  show ?case
  proof (cases "i < j")
    case True
    define h where "h = (i + j) div 2"
    have h: "i \<le> h" "h < j" using True by (auto simp: h_def)
    show ?thesis
    proof (cases "f h")
      case True
      with "1.IH"(2) [OF \<open>i < j\<close> h_def] "1.prems" h show ?thesis
        by (simp add: search_loop.simps [of i j f] \<open>i < j\<close> Let_def flip: h_def)
    next
      case False
      have "\<forall>k < h + 1. \<not> f k"
        using "1.prems"(1,3) h False by (metis Suc_eq_plus1 less_Suc_eq_le order.strict_trans2)
      with "1.IH"(1) [OF \<open>i < j\<close> h_def] "1.prems" h False show ?thesis
        by (simp add: search_loop.simps [of i j f] \<open>i < j\<close> Let_def flip: h_def)
    qed
  next
    case False
    then have "search_loop i j f = i" by (simp add: search_loop.simps [of i j f])
    with False "1.prems" show ?thesis by (auto simp: Let_def)
  qed
qed

text \<open>Entries of one key: each window is not empty and ends before the next one starts.\<close>

definition windows_ok :: "price_entry list \<Rightarrow> bool" where
  "windows_ok es \<longleftrightarrow> sorted_wrt (\<lambda>e f. pUntil e \<le> pFrom f) es \<and> list_all (\<lambda>e. pFrom e < pUntil e) es"

lemma windows_ok_if:
  "\<not> overlapping es \<Longrightarrow> list_all (\<lambda>e. pFrom e < pUntil e) es \<Longrightarrow> windows_ok es"
proof (induction es rule: overlapping.induct)
  case (1 e f es)
  then have "windows_ok (f # es)" "pUntil e \<le> pFrom f" "pFrom f < pUntil f" by auto
  then show ?case using "1.prems" by (auto simp: windows_ok_def)
qed (simp_all add: windows_ok_def)

lemma windows_ok_nth:
  assumes "windows_ok es" "i < j" "j < length es"
  shows "pUntil (es ! i) \<le> pFrom (es ! j)" "pFrom (es ! i) < pFrom (es ! j)"
proof -
  show le: "pUntil (es ! i) \<le> pFrom (es ! j)"
    using assms by (auto simp: windows_ok_def intro: sorted_wrt_nth_less)
  have "pFrom (es ! i) < pUntil (es ! i)" using assms by (simp add: windows_ok_def list_all_length)
  with le show "pFrom (es ! i) < pFrom (es ! j)" by simp
qed

lemma lookup_key_exact:
  assumes ok: "windows_ok (entries_of cat key)"
  shows "lookup_key cat key now = Some e \<longleftrightarrow> e \<in> set (entries_of cat key) \<and> pFrom e \<le> now \<and> now < pUntil e"
proof -
  define es where "es = entries_of cat key"
  define i where "i = sort_Search (length es) (\<lambda>k. now < pFrom (es ! k))"
  have es: "windows_ok es" using ok by (simp add: es_def)
  have mono: "now < pFrom (es ! k)" if "now < pFrom (es ! h)" "h \<le> k" "k < length es" for h k
    using windows_ok_nth(2) [OF es, of h k] that by (cases "h = k") simp_all
  then have "\<forall>h k. now < pFrom (es ! h) \<longrightarrow> h \<le> k \<longrightarrow> k < length es \<longrightarrow> now < pFrom (es ! k)" by blast
  note least = search_loop_least [OF this le0 le_refl]
  have i: "i \<le> length es" "\<forall>k < i. \<not> now < pFrom (es ! k)" "i < length es \<longrightarrow> now < pFrom (es ! i)"
    using least
    by (simp_all add: i_def sort_Search_def Let_def)
  have look: "lookup_key cat key now = (if i \<ge> 1 \<and> now < pUntil (es ! (i - 1)) then Some (es ! (i - 1)) else None)"
    by (simp add: lookup_key_def Let_def flip: es_def i_def)
  have active: "i = Suc k" if "k < length es" "pFrom (es ! k) \<le> now" "now < pUntil (es ! k)" for k
  proof (rule antisym)
    show "Suc k \<le> i"
    proof (rule ccontr)
      assume "\<not> Suc k \<le> i"
      with i(3) mono [of i k] that show False by simp
    qed
    show "i \<le> Suc k"
    proof (rule ccontr)
      assume "\<not> i \<le> Suc k"
      then have "pUntil (es ! k) \<le> pFrom (es ! Suc k)" "\<not> now < pFrom (es ! Suc k)"
        using i windows_ok_nth(1) [OF es, of k "Suc k"] by auto
      with that show False by simp
    qed
  qed
  show ?thesis
  proof
    assume "lookup_key cat key now = Some e"
    with look i have "1 \<le> i" "e = es ! (i - 1)" "now < pUntil e" "pFrom e \<le> now" "i - 1 < length es"
      by (auto simp: not_less split: if_splits)
    then show "e \<in> set (entries_of cat key) \<and> pFrom e \<le> now \<and> now < pUntil e" by (simp flip: es_def)
  next
    assume e: "e \<in> set (entries_of cat key) \<and> pFrom e \<le> now \<and> now < pUntil e"
    then obtain k where k: "k < length es" "e = es ! k" by (auto simp: in_set_conv_nth simp flip: es_def)
    with active e have "i = Suc k" by blast
    with look e k show "lookup_key cat key now = Some e" by simp
  qed
qed

section \<open>What the catalog holds\<close>

lemma then_ok_Inr: "then_ok r f = Inr y \<longleftrightarrow> (\<exists>x. r = Inr x \<and> f x = Inr y)"
  by (auto simp: then_ok_def split: sum.splits)

lemma map_of_append_entry:
  "map_of (append_entry key e cat) k =
     (if k = key then Some ((case map_of cat key of None \<Rightarrow> [] | Some es \<Rightarrow> es) @ [e]) else map_of cat k)"
  by (induction key e cat rule: append_entry.induct) auto

lemma entries_append:
  "entries_of (append_entry key e cat) k = entries_of cat k @ (if k = key then [e] else [])"
  by (simp add: entries_of_def map_of_append_entry)

lemma append_entry_keys: "set (map fst (append_entry key e cat)) = insert key (set (map fst cat))"
  by (induction key e cat rule: append_entry.induct) auto

lemma append_entry_distinct: "distinct (map fst cat) \<Longrightarrow> distinct (map fst (append_entry key e cat))"
  by (induction key e cat rule: append_entry.induct) (use append_entry_keys in auto)

lemma collect_entries_set:
  "collect_entries setString parseTime cs cat = Inr cat' \<Longrightarrow> distinct (map fst cat) \<Longrightarrow>
     distinct (map fst cat') \<and>
     (\<forall>k. set (entries_of cat' k) = set (entries_of cat k) \<union>
       {e. \<exists>c \<in> set cs. parsePriceEntry setString parseTime c = Inr e \<and> priceKey (pProviderID e) (pModel e) = k})"
proof (induction cs arbitrary: cat)
  case (Cons c cs)
  from Cons.prems obtain e where e: "parsePriceEntry setString parseTime c = Inr e"
    "collect_entries setString parseTime cs (append_entry (priceKey (pProviderID e) (pModel e)) e cat) = Inr cat'"
    by (auto split: sum.splits)
  from Cons.IH [OF e(2) append_entry_distinct [OF Cons.prems(2)]] e(1) show ?case
    by (auto simp: entries_append)
qed simp

lemma map_of_sorted: "map_of (map (\<lambda>(k, es). (k, f es)) cat) key = map_option f (map_of cat key)"
  by (induction cat) auto

lemma validPriceName_nul: "validPriceName name n \<Longrightarrow> CHR 0x00 \<notin> set name"
  unfolding validPriceName_def list_ex_iff by blast

lemma parsePriceEntry_ok:
  assumes "parsePriceEntry setString parseTime c = Inr e"
  shows "pFrom e < pUntil e" "CHR 0x00 \<notin> set (pProviderID e)" "CHR 0x00 \<notin> set (pModel e)"
  using assms
  by (auto simp: parsePriceEntry_def Let_def then_ok_Inr split: if_split_asm dest: validPriceName_nul)

lemma catalog_entries:
  assumes "NewPricingCatalog setString parseTime configured = Inr cat"
  shows "windows_ok (entries_of cat key)"
    and "set (entries_of cat key) =
      {e. \<exists>c \<in> set configured. parsePriceEntry setString parseTime c = Inr e \<and> priceKey (pProviderID e) (pModel e) = key}"
proof -
  from assms obtain cat0 where cat0: "collect_entries setString parseTime configured [] = Inr cat0"
    and cat: "cat = map (\<lambda>(k, es). (k, sort_key pFrom es)) cat0"
    and no: "\<forall>x \<in> set cat. \<not> overlapping (snd x)"
    by (auto simp: NewPricingCatalog_def Let_def list_ex_iff split_beta split: sum.splits if_splits)
  have entries: "entries_of cat key = sort_key pFrom (entries_of cat0 key)"
    by (simp add: entries_of_def cat map_of_sorted split: option.splits)
  show set: "set (entries_of cat key) =
      {e. \<exists>c \<in> set configured. parsePriceEntry setString parseTime c = Inr e \<and> priceKey (pProviderID e) (pModel e) = key}"
    using collect_entries_set [OF cat0] by (simp add: entries) (simp add: entries_of_def)
  have "list_all (\<lambda>e. pFrom e < pUntil e) (entries_of cat key)"
    using parsePriceEntry_ok(1) by (auto simp: list_all_iff set)
  moreover have "\<not> overlapping (entries_of cat key)"
  proof (cases "map_of cat key")
    case (Some es)
    with no map_of_SomeD [OF Some] show ?thesis by (auto simp: entries_of_def)
  qed (simp add: entries_of_def)
  ultimately show "windows_ok (entries_of cat key)" by (intro windows_ok_if)
qed

lemma priceKey_inject:
  assumes "CHR 0x00 \<notin> set p" "CHR 0x00 \<notin> set m"
  shows "priceKey p m = priceKey q n \<longleftrightarrow> p = q \<and> m = n"
proof
  assume eq: "priceKey p m = priceKey q n"
  have "CHR 0x00 \<notin> set q"
  proof
    assume "CHR 0x00 \<in> set q"
    then have "count_list q (CHR 0x00) \<noteq> 0" by (simp add: count_list_0_iff)
    moreover have "count_list (priceKey p m) (CHR 0x00) = 1" using assms by (simp add: priceKey_def count_notin)
    ultimately show False unfolding eq by (simp add: priceKey_def)
  qed
  with eq assms(1) show "p = q \<and> m = n"
    by (simp add: priceKey_def append_eq_append_conv2) (auto simp: append_eq_Cons_conv Cons_eq_append_conv)
qed simp

section \<open>Costs\<close>

text \<open>A cost that fits is the exact one rounded to the nearest nano-USD; otherwise it does not fit.\<close>

lemma tokenCost_cases:
  assumes "0 \<le> tokens" "0 \<le> rate"
  shows "let (cost, ok) = tokenCost tokens rate in
    if ok then 0 \<le> cost \<and> is_int64 cost \<and> \<bar>1000000 * cost - tokens * rate\<bar> \<le> 500000
    else cost = 0 \<and> int64_max < (tokens * rate + 500000) div 1000000"
proof -
  have nn: "0 \<le> tokens * rate" using assms by simp
  then have n: "quo (tokens * rate + 500000) 1000000 = (tokens * rate + 500000) div 1000000"
    by (simp add: quo_nonneg)
  moreover have "0 \<le> (tokens * rate + 500000) div 1000000" using nn by (simp add: pos_imp_zdiv_nonneg_iff)
  moreover have "\<bar>1000000 * ((tokens * rate + 500000) div 1000000) - tokens * rate\<bar> \<le> 500000"
    by (simp add: minus_mod_eq_mult_div [symmetric])
  ultimately show ?thesis
    by (auto simp: tokenCost_def Let_def int64_defs)
qed

definition exact_sum :: "(int \<times> int) list \<Rightarrow> int" where
  "exact_sum cs = sum_list (map (\<lambda>(tokens, rate). tokens * rate) cs)"

lemma sum_costs_exact:
  assumes "\<forall>(tokens, rate) \<in> set cs. 0 \<le> tokens \<and> 0 \<le> rate" and "0 \<le> acc" "is_int64 acc"
    and "sum_costs acc cs = (cost, [])"
  shows "acc \<le> cost \<and> is_int64 cost \<and> \<bar>1000000 * (cost - acc) - exact_sum cs\<bar> \<le> 500000 * int (length cs)"
  using assms
proof (induction cs arbitrary: acc)
  case (Cons x cs)
  obtain tokens rate where x: "x = (tokens, rate)" by fastforce
  obtain c ok where c: "tokenCost tokens rate = (c, ok)" by fastforce
  from Cons.prems x c have "ok" and add: "is_int64 (acc + c)" and run: "sum_costs (acc + c) cs = (cost, [])"
    by (auto simp: safeAdd_def Let_def split: if_splits option.splits)
  with tokenCost_cases [of tokens rate] Cons.prems(1) x c
  have "0 \<le> c" "\<bar>1000000 * c - tokens * rate\<bar> \<le> 500000" by auto
  moreover from Cons.IH [OF _ _ add run] Cons.prems(1,2) \<open>0 \<le> c\<close>
  have "acc + c \<le> cost \<and> is_int64 cost \<and> \<bar>1000000 * (cost - (acc + c)) - exact_sum cs\<bar> \<le> 500000 * int (length cs)"
    by simp
  ultimately show ?case by (simp add: exact_sum_def x) linarith
qed (simp add: exact_sum_def)

lemma sum_costs_caveat: "sum_costs acc cs = (c, caveat) \<Longrightarrow> caveat = [] \<or> caveat = ''cost_overflow'' \<and> c = 0"
  by (induction acc cs rule: sum_costs.induct) (auto split: prod.splits if_split_asm option.split_asm)

definition rate_ok :: "int option \<Rightarrow> bool" where
  "rate_ok rate = (case rate of None \<Rightarrow> True | Some n \<Rightarrow> 0 \<le> n)"

definition rates_ok :: "token_rates \<Rightarrow> bool" where
  "rates_ok r \<longleftrightarrow> 0 \<le> trInput r \<and> 0 \<le> trOutput r \<and> rate_ok (trCachedRead r) \<and> rate_ok (trCachedWrite r) \<and>
     rate_ok (trAudioInput r) \<and> rate_ok (trAudioOutput r) \<and> rate_ok (trImageInput r) \<and> rate_ok (trReasoningOutput r)"

lemma rateOr_nonneg: "rate_ok rate \<Longrightarrow> 0 \<le> r \<Longrightarrow> 0 \<le> rateOr rate r"
  by (simp add: rateOr_def rate_ok_def split: option.splits)

lemma parseRequiredRate_ok: "parseRequiredRate setString raw name = Inr n \<Longrightarrow> 0 \<le> n"
  using parseUSD_range by (auto simp: parseRequiredRate_def split: if_split_asm sum.split_asm)

lemma parseOptionalRate_ok: "parseOptionalRate setString raw name = Inr rate \<Longrightarrow> rate_ok rate"
  using parseUSD_range by (auto simp: parseOptionalRate_def rate_ok_def split: if_split_asm sum.split_asm)

lemma parse_rates_ok: "parse_rates setString c = Inr r \<Longrightarrow> rates_ok r"
  by (auto simp: parse_rates_def then_ok_Inr rates_ok_def dest: parseRequiredRate_ok parseOptionalRate_ok)

text \<open>What a usage costs before rounding: the parts of its input and output with their rates.\<close>

definition input_special :: "input_details \<Rightarrow> int" where
  "input_special d = idCachedRead d + idCachedWrite d + idAudio d + idImage d"

definition output_special :: "output_details \<Rightarrow> int" where
  "output_special d = odAudio d + odReasoning d"

definition input_overlap :: "token_usage \<Rightarrow> bool" where
  "input_overlap u = (case tuInputDetails u of None \<Rightarrow> False | Some d \<Rightarrow> input_special d > tuInput u)"

definition output_overlap :: "token_usage \<Rightarrow> bool" where
  "output_overlap u = (case tuOutputDetails u of None \<Rightarrow> False | Some d \<Rightarrow> output_special d > tuOutput u)"

definition input_parts :: "token_usage \<Rightarrow> token_rates \<Rightarrow> (int \<times> int) list" where
  "input_parts u r =
     (case tuInputDetails u of
        None \<Rightarrow> [(tuInput u, trInput r)]
      | Some d \<Rightarrow>
          [(tuInput u - input_special d, trInput r),
           (idCachedRead d, rateOr (trCachedRead r) (trInput r)), (idCachedWrite d, rateOr (trCachedWrite r) (trInput r)),
           (idAudio d, rateOr (trAudioInput r) (trInput r)), (idImage d, rateOr (trImageInput r) (trInput r))])"

definition output_parts :: "token_usage \<Rightarrow> token_rates \<Rightarrow> (int \<times> int) list" where
  "output_parts u r =
     (case tuOutputDetails u of
        None \<Rightarrow> [(tuOutput u, trOutput r)]
      | Some d \<Rightarrow>
          [(tuOutput u - output_special d, trOutput r),
           (odAudio d, rateOr (trAudioOutput r) (trOutput r)), (odReasoning d, rateOr (trReasoningOutput r) (trOutput r))])"

lemma valid_counts:
  assumes "usage_validate u = None"
  shows "0 \<le> tuInput u \<and> tuInput u \<le> maximumTokenCount \<and> 0 \<le> tuOutput u \<and> tuOutput u \<le> maximumTokenCount"
    and "tuInputDetails u = Some d \<Longrightarrow> \<forall>n \<in> set (input_counts d). 0 \<le> n \<and> n \<le> maximumTokenCount"
    and "tuOutputDetails u = Some x \<Longrightarrow> \<forall>n \<in> set (output_counts x). 0 \<le> n \<and> n \<le> maximumTokenCount"
  using assms by (auto simp: usage_validate_def invalidTokenCount_def list_ex_iff not_less split: if_split_asm)

lemma wrap_small: "0 \<le> n \<Longrightarrow> n \<le> 4000000000 \<Longrightarrow> wrap_int64 n = n"
  by (rule wrap_int64_id) (simp add: int64_defs)

text \<open>A cost is not negative and, unless the counts overlap or it overflows, within half a nano-USD per part.\<close>

definition close_to :: "int \<Rightarrow> string \<Rightarrow> bool \<Rightarrow> (int \<times> int) list \<Rightarrow> bool" where
  "close_to c caveat overlap parts \<longleftrightarrow> 0 \<le> c \<and>
     (caveat \<noteq> ''cost_overflow'' \<and> \<not> overlap \<longrightarrow> \<bar>1000000 * c - exact_sum parts\<bar> \<le> 500000 * int (length parts))"

lemma close_sum:
  assumes "\<forall>(tokens, rate) \<in> set parts. 0 \<le> tokens \<and> 0 \<le> rate" and "sum_costs 0 parts = (c, caveat)"
  shows "close_to c caveat overlap parts"
proof (cases "caveat = []")
  case True
  with sum_costs_exact [OF assms(1) _ _ assms(2) [unfolded True]] show ?thesis by (simp add: close_to_def int64_defs)
next
  case False
  with assms(2) sum_costs_caveat have "caveat = ''cost_overflow'' \<and> c = 0" by blast
  then show ?thesis by (simp add: close_to_def)
qed

lemma close_plain:
  assumes "0 \<le> tokens" "0 \<le> rate"
    and "(c, caveat) = (case tokenCost tokens rate of (cost, ok) \<Rightarrow> if \<not> ok then (0, ''cost_overflow'') else (cost, []))"
  shows "close_to c caveat False [(tokens, rate)]"
  using assms tokenCost_cases [OF assms(1,2)]
  by (auto simp: close_to_def exact_sum_def split: prod.splits if_split_asm)

lemma close_overlap: "0 \<le> tokens \<Longrightarrow> 0 \<le> rate \<Longrightarrow> close_to (fst (tokenCost tokens rate)) caveat True parts"
  using tokenCost_cases [of tokens rate] by (auto simp: close_to_def split: prod.splits if_split_asm)

lemma quoteInput_close:
  assumes u: "usage_validate u = None" and r: "rates_ok r" and q: "quoteInput u r = (c, caveat)"
  shows "close_to c caveat (input_overlap u) (input_parts u r)"
proof (cases "tuInputDetails u")
  case None
  with q r valid_counts(1) [OF u] close_plain [of "tuInput u" "trInput r" c caveat] show ?thesis
    by (simp add: quoteInput_def input_parts_def input_overlap_def rates_ok_def)
next
  case (Some d)
  note n = valid_counts(1) [OF u]
  have d: "0 \<le> idCachedRead d" "idCachedRead d \<le> 1000000000" "0 \<le> idCachedWrite d" "idCachedWrite d \<le> 1000000000"
    "0 \<le> idAudio d" "idAudio d \<le> 1000000000" "0 \<le> idImage d" "idImage d \<le> 1000000000"
    using valid_counts(2) [OF u Some] by (auto simp: input_counts_def usage_limits)
  have special: "wrap_int64 (wrap_int64 (wrap_int64 (idCachedRead d + idCachedWrite d) + idAudio d) + idImage d) = input_special d"
    using d by (simp add: wrap_small input_special_def)
  show ?thesis
  proof (cases "input_overlap u")
    case True
    with Some special q n r close_overlap show ?thesis by (auto simp: quoteInput_def input_overlap_def rates_ok_def)
  next
    case False
    then have le: "input_special d \<le> tuInput u" by (simp add: input_overlap_def Some)
    have rest: "wrap_int64 (tuInput u - input_special d) = tuInput u - input_special d"
      using le n d by (intro wrap_small) (simp_all add: usage_limits input_special_def)
    show ?thesis
      using q le d r by (intro close_sum)
        (auto simp: quoteInput_def Some special rest sumTokenCosts_def input_parts_def rates_ok_def rateOr_nonneg)
  qed
qed

lemma quoteOutput_close:
  assumes u: "usage_validate u = None" and r: "rates_ok r" and q: "quoteOutput u r = (c, caveat)"
  shows "close_to c caveat (output_overlap u) (output_parts u r)"
proof (cases "tuOutputDetails u")
  case None
  with q r valid_counts(1) [OF u] close_plain [of "tuOutput u" "trOutput r" c caveat] show ?thesis
    by (simp add: quoteOutput_def output_parts_def output_overlap_def rates_ok_def)
next
  case (Some d)
  note n = valid_counts(1) [OF u]
  have d: "0 \<le> odAudio d" "odAudio d \<le> 1000000000" "0 \<le> odReasoning d" "odReasoning d \<le> 1000000000"
    using valid_counts(3) [OF u Some] by (auto simp: output_counts_def usage_limits)
  have special: "wrap_int64 (odAudio d + odReasoning d) = output_special d"
    using d by (simp add: wrap_small output_special_def)
  show ?thesis
  proof (cases "output_overlap u")
    case True
    with Some special q n r close_overlap show ?thesis by (auto simp: quoteOutput_def output_overlap_def rates_ok_def)
  next
    case False
    then have le: "output_special d \<le> tuOutput u" by (simp add: output_overlap_def Some)
    have rest: "wrap_int64 (tuOutput u - output_special d) = tuOutput u - output_special d"
      using le n d by (intro wrap_small) (simp_all add: usage_limits output_special_def)
    show ?thesis
      using q le d r by (intro close_sum)
        (auto simp: quoteOutput_def Some special rest sumTokenCosts_def output_parts_def rates_ok_def rateOr_nonneg)
  qed
qed

lemma lookup_keys_entry:
  "lookup_keys cat keys now = Some e \<Longrightarrow> \<exists>(p, m) \<in> set keys. lookup_key cat (priceKey p m) now = Some e"
  by (induction cat keys now rule: lookup_keys.induct) (auto split: if_split_asm option.split_asm)

lemma lookup_configured:
  assumes "NewPricingCatalog setString parseTime configured = Inr cat" and "catalog_lookup cat p m q now = Some e"
  shows "\<exists>c \<in> set configured. parsePriceEntry setString parseTime c = Inr e" and "rates_ok (pRates e)"
proof -
  from lookup_keys_entry [OF assms(2) [unfolded catalog_lookup_def]] obtain key
    where "lookup_key cat key now = Some e" by blast
  with lookup_key_exact catalog_entries [OF assms(1)] show 1: "\<exists>c \<in> set configured. parsePriceEntry setString parseTime c = Inr e"
    by blast
  then show "rates_ok (pRates e)"
    by (auto simp: parsePriceEntry_def Let_def then_ok_Inr split: if_split_asm dest: parse_rates_ok)
qed

section \<open>Properties\<close>

text \<open>The configured price of a provider and model that is in force at a time.\<close>

definition in_force ::
  "(string \<Rightarrow> rat option) \<Rightarrow> (string \<Rightarrow> time option) \<Rightarrow> usage_price list \<Rightarrow> time \<Rightarrow> string \<times> string \<Rightarrow> price_entry \<Rightarrow> bool" where
  "in_force setString parseTime configured now key e \<longleftrightarrow>
     (\<exists>c \<in> set configured. parsePriceEntry setString parseTime c = Inr e) \<and> (pProviderID e, pModel e) = key \<and>
     pFrom e \<le> now \<and> now < pUntil e"

lemma lookup_key_in_force:
  assumes "NewPricingCatalog setString parseTime configured = Inr cat"
  shows "lookup_key cat (priceKey p m) now = Some e \<longleftrightarrow> in_force setString parseTime configured now (p, m) e"
proof -
  have "priceKey (pProviderID e) (pModel e) = priceKey p m \<longleftrightarrow> (pProviderID e, pModel e) = (p, m)"
    if "parsePriceEntry setString parseTime c = Inr e" for c
    using parsePriceEntry_ok(2,3) [OF that] priceKey_inject by simp
  then show ?thesis
    unfolding lookup_key_exact [OF catalog_entries(1) [OF assms]] catalog_entries(2) [OF assms] in_force_def by blast
qed

definition first_with :: "('a \<Rightarrow> bool) \<Rightarrow> ('a \<Rightarrow> bool) \<Rightarrow> 'a list \<Rightarrow> bool" where
  "first_with P Q xs \<longleftrightarrow> (\<exists>pre x post. xs = pre @ x # post \<and> P x \<and> (\<forall>y \<in> set pre. Q y))"

lemma first_with_Cons: "first_with P Q (x # xs) \<longleftrightarrow> P x \<or> Q x \<and> first_with P Q xs"
proof
  assume "first_with P Q (x # xs)"
  then obtain pre y post where y: "x # xs = pre @ y # post" "P y" "\<forall>y \<in> set pre. Q y" by (auto simp: first_with_def)
  show "P x \<or> Q x \<and> first_with P Q xs"
  proof (cases pre)
    case (Cons z zs)
    with y have "x = z" "xs = zs @ y # post" "Q z" "\<forall>y \<in> set zs. Q y" by auto
    with y(2) show ?thesis unfolding first_with_def by blast
  qed (use y in simp)
next
  assume "P x \<or> Q x \<and> first_with P Q xs"
  then show "first_with P Q (x # xs)"
  proof
    assume "P x"
    then show ?thesis unfolding first_with_def by (intro exI [of _ "[]"]) auto
  next
    assume "Q x \<and> first_with P Q xs"
    then obtain pre y post where "xs = pre @ y # post" "P y" "\<forall>y \<in> set (x # pre). Q y" by (auto simp: first_with_def)
    then show ?thesis unfolding first_with_def by (intro exI [of _ "x # pre"]) auto
  qed
qed

lemma lookup_keys_first:
  assumes "NewPricingCatalog setString parseTime configured = Inr cat"
  shows "lookup_keys cat keys now = Some e \<longleftrightarrow>
    first_with (\<lambda>k. snd k \<noteq> [] \<and> in_force setString parseTime configured now k e)
      (\<lambda>k. snd k = [] \<or> (\<forall>f. \<not> in_force setString parseTime configured now k f)) keys"
proof (induction keys)
  case (Cons key keys)
  obtain p m where key: "key = (p, m)" by fastforce
  note on = lookup_key_in_force [OF assms, of p m now]
  show ?case
  proof (cases "lookup_key cat (priceKey p m) now")
    case None
    then have "\<forall>f. \<not> in_force setString parseTime configured now (p, m) f" using on by (metis option.distinct(1))
    with None Cons key show ?thesis by (simp add: first_with_Cons)
  next
    case (Some f)
    then have "in_force setString parseTime configured now (p, m) g \<longleftrightarrow> g = f" for g using on by (metis option.inject)
    with Some Cons key show ?thesis by (auto simp: first_with_Cons)
  qed
qed (simp add: first_with_def)

text \<open>
  Claim C38: the price in force is found. A catalog that was built has, for a provider and a model, at most one
  configured price per moment; the lookup returns the price in force of the first pair that has
  one, in the order provider before the wildcard and upstream model before requested model before
  the wildcard, and finds none only if no pair has one.
\<close>

theorem pricing_lookup_exact:
  assumes "NewPricingCatalog setString parseTime configured = Inr cat"
  shows "catalog_lookup cat providerID upstreamModel requestedModel now = Some e \<longleftrightarrow>
    (\<exists>pre key post. lookup_order providerID upstreamModel requestedModel = pre @ key # post \<and>
      (snd key \<noteq> [] \<and> in_force setString parseTime configured now key e) \<and>
      (\<forall>k \<in> set pre. snd k = [] \<or> (\<forall>f. \<not> in_force setString parseTime configured now k f)))"
  unfolding catalog_lookup_def by (rule lookup_keys_first [OF assms, unfolded first_with_def])

text \<open>A price list of one entry, for the witnesses.\<close>

definition sample_price :: usage_price where
  "sample_price = \<lparr>upProviderID = ''p'', upModel = ''m'', upVersion = ''v1'', upEffectiveFrom = [], upEffectiveUntil = [],
     upInputUSDPerMillion = ''2'', upOutputUSDPerMillion = ''2'', upCachedReadUSDPerMillion = [],
     upCachedWriteUSDPerMillion = [], upAudioInputUSDPerMillion = [], upAudioOutputUSDPerMillion = [],
     upImageInputUSDPerMillion = [], upReasoningOutputUSDPerMillion = []\<rparr>"

definition sample_entry :: price_entry where
  "sample_entry = \<lparr>pProviderID = ''p'', pModel = ''m'', pVersion = ''v1'', pFrom = unix_epoch, pUntil = end_of_9999,
     pRates = \<lparr>trInput = 2000000000, trOutput = 2000000000, trCachedRead = None, trCachedWrite = None, trAudioInput = None,
       trAudioOutput = None, trImageInput = None, trReasoningOutput = None\<rparr>\<rparr>"

lemma sample_catalog:
  "NewPricingCatalog (\<lambda>s. Some 2) (\<lambda>s. None) [sample_price] = Inr [(priceKey ''p'' ''m'', [sample_entry])]"
proof -
  have trims: "trim_space ''p'' = ''p''" "trim_space ''m'' = ''m''" "trim_space ''v1'' = ''v1''" "trim_space ''2'' = ''2''"
    by code_simp+
  have rate: "parseUSD (\<lambda>s. Some 2) ''2'' = Inr 2000000000" by code_simp
  show ?thesis
    by (simp add: NewPricingCatalog_def parsePriceEntry_def parse_rates_def sample_price_def sample_entry_def trims rate
        validPriceName_def optional_time_def parseRequiredRate_def parseOptionalRate_def then_ok_def unix_epoch_def
        end_of_9999_def Let_def)
qed

theorem pricing_lookup_exact_witness:
  "catalog_lookup [(priceKey ''p'' ''m'', [sample_entry])] ''p'' ''m'' [] (unix_epoch + 1) = Some sample_entry"
proof -
  have trims: "trim_space ''p'' = ''p''" "trim_space ''m'' = ''m''" by code_simp+
  have entry: "parsePriceEntry (\<lambda>s. Some 2) (\<lambda>s. None) sample_price = Inr sample_entry" by code_simp
  have "in_force (\<lambda>s. Some 2) (\<lambda>s. None) [sample_price] (unix_epoch + 1) (''p'', ''m'') sample_entry"
    using entry by (simp add: in_force_def sample_entry_def unix_epoch_def end_of_9999_def)
  moreover have "lookup_order ''p'' ''m'' [] =
      [] @ (''p'', ''m'') # [(''p'', []), (''p'', ''*''), (''*'', ''m''), (''*'', []), (''*'', ''*'')]"
    by (simp add: lookup_order_def trims)
  ultimately show ?thesis
    unfolding pricing_lookup_exact [OF sample_catalog] by (metis empty_iff list.distinct(1) list.set(1) snd_conv)
qed


definition sample_event :: usage_event where
  "sample_event = event_zero\<lparr>ueSchemaVersion := 2, ueEventID := ''e'', ueRequestID := ''r'', ueTenantID := ''t'',
     ueAPIKeyID := ''k'', ueRequestedModel := ''m'', ueProviderID := ''p'', ueUpstreamModel := ''m'', ueCacheStatus := ''miss'',
     ueAttempts := 1, ueUsage := Some \<lparr>tuInput = 10, tuOutput = 5, tuTotal = 15, tuInputDetails = None,
       tuOutputDetails = None, tuReportedCost = None, tuRaw = []\<rparr>, ueUsageSource := ''provider'',
     ueStatus := ''success'', ueStartedAt := unix_epoch + 1, ueEndedAt := unix_epoch + 1\<rparr>"


text \<open>
  Details that exceed the token count hide an overflow: the cost of the plain count is taken
  without looking at its flag, so that a count whose cost does not fit an \<open>int64\<close> is quoted as
  free, with a caveat about the details only. The same count without details is not quoted.
\<close>

lemma overlap_hides_overflow:
  "\<exists>u r. usage_validate u = None \<and> rates_ok r \<and> snd (tokenCost (tuInput u) (trInput r)) = False \<and>
     quoteInput u r = (0, ''input_token_details_overlap'') \<and>
     quoteInput (u\<lparr>tuInputDetails := None\<rparr>) r = (0, ''cost_overflow'')"
proof -
  let ?d = "\<lparr>idText = 0, idAudio = 0, idImage = 0, idCachedRead = 1000000000, idCachedWrite = 0\<rparr>"
  let ?u = "\<lparr>tuInput = 999999999, tuOutput = 0, tuTotal = 999999999, tuInputDetails = Some ?d, tuOutputDetails = None,
      tuReportedCost = None, tuRaw = []\<rparr>"
  let ?r = "\<lparr>trInput = 9223372036854775807, trOutput = 0, trCachedRead = None, trCachedWrite = None, trAudioInput = None,
      trAudioOutput = None, trImageInput = None, trReasoningOutput = None\<rparr>"
  have cost: "tokenCost 999999999 9223372036854775807 = (0, False)"
    by (simp add: tokenCost_def quo_nonneg int64_defs)
  have "usage_validate ?u = None" by code_simp
  moreover have "rates_ok ?r" by (simp add: rates_ok_def rate_ok_def)
  moreover have "wrap_int64 1000000000 = 1000000000" by (rule wrap_small) simp_all
  ultimately show ?thesis using cost
    by (intro exI [of _ ?u] exI [of _ ?r]) (simp add: quoteInput_def)
qed

end
