(* ===== verification/Quota.thy ===== *)
theory Quota
  imports Pricing Routing "HOL-Library.AList" "HOL-Library.Product_Lexorder"
begin

text \<open>
  Tenant quotas: \<open>internal/quota/manager.go\<close> and \<open>policy_index.go\<close>, with the rows of
  \<open>internal/postgres/models.go\<close>. The database is a record of tables. A transaction is one step:
  its statements run on the tables it found, and its result is either committed whole or thrown
  away (the row locks the code takes make this the effect on the windows it touches); \<open>fault\<close> is
  the error of a statement or commit the database refuses. The clock, the random bytes and the
  \<open>Quoter\<close> are arguments.
\<close>

section \<open>Rows\<close>

definition QuotaPeriodMinute :: string where "QuotaPeriodMinute = ''minute''"
definition QuotaPeriodHour :: string where "QuotaPeriodHour = ''hour''"
definition QuotaPeriodDay :: string where "QuotaPeriodDay = ''day''"
definition QuotaPeriodMonth :: string where "QuotaPeriodMonth = ''month''"
definition QuotaOverageDeny :: string where "QuotaOverageDeny = ''deny''"
definition QuotaOverageAllow :: string where "QuotaOverageAllow = ''allow''"
definition QuotaOverageAlert :: string where "QuotaOverageAlert = ''alert''"

lemmas quota_words = QuotaPeriodMinute_def QuotaPeriodHour_def QuotaPeriodDay_def QuotaPeriodMonth_def
  QuotaOverageDeny_def QuotaOverageAllow_def QuotaOverageAlert_def

datatype reservation_state = ReservationActive | ReservationSettled | ReservationEstimated

record quota_policy =
  qpID :: string
  qpTenantID :: string
  qpGatewayModel :: string
  qpPeriod :: string
  qpRequestLimit :: "int option"
  qpTokenLimit :: "int option"
  qpBudgetNanoUSD :: "int option"
  qpOveragePolicy :: string
  qpEnabled :: bool
  qpVersion :: uint64
  qpCreatedBy :: string
  qpUpdatedBy :: string
  qpCreatedAt :: time
  qpUpdatedAt :: time

record quota_window =
  qwPolicyID :: string
  qwWindowStart :: time
  qwRequestsSettled :: int
  qwTokensSettled :: int
  qwCostSettled :: int
  qwRequestsReserved :: int
  qwTokensReserved :: int
  qwCostReserved :: int
  qwUpdatedAt :: time

record quota_reservation =
  qrID :: string
  qrGroupID :: string
  qrPolicyID :: string
  qrWindowStart :: time
  qrRequestsReserved :: int
  qrTokensReserved :: int
  qrCostReserved :: int
  qrRequestsActual :: "int option"
  qrTokensActual :: "int option"
  qrCostActual :: "int option"
  qrState :: reservation_state
  qrExceeded :: bool
  qrExpiresAt :: time
  qrCreatedAt :: time
  qrSettledAt :: "time option"

text \<open>The error values of the package.\<close>

datatype quota_error =
    ErrExceeded | ErrCostUnknown | ErrVersionConflict | ErrInvalidPolicy | ErrTenantNotFound
  | QuotaError string

record policy_input =
  piTenantID :: string
  piGatewayModel :: string
  piPeriod :: string
  piRequestLimit :: "int option"
  piTokenLimit :: "int option"
  piBudgetUSD :: "string option"
  piOveragePolicy :: string
  piEnabled :: bool

record policy_view =
  pvID :: string
  pvTenantID :: string
  pvGatewayModel :: string
  pvPeriod :: string
  pvRequestLimit :: "int option"
  pvTokenLimit :: "int option"
  pvBudgetUSD :: "string option"
  pvOveragePolicy :: string
  pvEnabled :: bool
  pvVersion :: uint64
  pvCreatedAt :: time
  pvUpdatedAt :: time

record mutation_meta =
  mmActorID :: string
  mmRequestID :: string
  mmRemoteIP :: string

text \<open>An audit row keeps the views whose JSON it stores.\<close>

record audit_log =
  alPrincipalID :: string
  alAction :: string
  alResourceID :: string
  alRequestID :: string
  alRemoteIP :: string
  alBefore :: "policy_view option"
  alAfter :: "policy_view option"

record quota_db =
  qdTenants :: "string list"
  qdPolicies :: "quota_policy list"
  qdWindows :: "((string \<times> time) \<times> quota_window) list"
  qdReservations :: "quota_reservation list"
  qdAudit :: "audit_log list"

record quota_settings =
  qsReservationTTL :: duration
  qsReapInterval :: duration
  qsDefaultMaxOutputTokens :: int

definition quota_settings_ok :: "quota_settings \<Rightarrow> bool" where
  "quota_settings_ok s \<longleftrightarrow>
     \<not> (qsReservationTTL s \<le> 0 \<or> qsReapInterval s \<le> 0 \<or> qsDefaultMaxOutputTokens s \<le> 0)"

section \<open>The calendar\<close>

text \<open>
  Days since 1 January of the year 1, cut into cycles of 400, 100, 4 and 1 years, as \<open>Time.Date\<close>
  reads them; the month is found in the table of the days before it.
\<close>

definition isLeap :: "int \<Rightarrow> bool" where
  "isLeap y \<longleftrightarrow> y mod 4 = 0 \<and> (y mod 100 \<noteq> 0 \<or> y mod 400 = 0)"

text \<open>The year and the day of the year, counted from 0.\<close>

definition year_day :: "int \<Rightarrow> int \<times> int" where
  "year_day d =
     (let n400 = d div 146097; d1 = d mod 146097;
          n100 = min 3 (d1 div 36524); d2 = d1 - 36524 * n100;
          n4 = d2 div 1461; d3 = d2 mod 1461;
          n1 = min 3 (d3 div 365); d4 = d3 - 365 * n1 in
      (400 * n400 + 100 * n100 + 4 * n4 + n1 + 1, d4))"

definition days_before :: "bool \<Rightarrow> int list" where
  "days_before leap =
     (if leap then [0, 31, 60, 91, 121, 152, 182, 213, 244, 274, 305, 335]
      else [0, 31, 59, 90, 120, 151, 181, 212, 243, 273, 304, 334])"

text \<open>The days between the first of the month and a day of the year.\<close>

definition day_of_month :: "bool \<Rightarrow> int \<Rightarrow> int" where
  "day_of_month leap yday = yday - last (filter (\<lambda>b. b \<le> yday) (days_before leap))"

definition day :: duration where "day = 86400000000000"

definition truncate :: "time \<Rightarrow> duration \<Rightarrow> time" where
  "truncate t d = t - t mod d"

definition periodStart :: "time \<Rightarrow> string \<Rightarrow> time" where
  "periodStart t period =
     (if period = QuotaPeriodMinute then truncate t minute
      else if period = QuotaPeriodHour then truncate t hour
      else if period = QuotaPeriodDay then truncate t day
      else
        (case year_day (t div day) of
           (year, yday) \<Rightarrow> (t div day - day_of_month (isLeap year) yday) * day))"

section \<open>Amounts\<close>

definition quota_add :: "int \<Rightarrow> int \<Rightarrow> int option" where
  "quota_add left right =
     (if right > 0 \<and> left > int64_max - right then None
      else if right < 0 \<and> left < int64_min - right then None
      else Some (left + right))"

definition exceedsLimit :: "int option \<Rightarrow> int \<Rightarrow> int \<Rightarrow> int \<Rightarrow> bool" where
  "exceedsLimit limit settled reserved incoming =
     (case limit of
        None \<Rightarrow> False
      | Some l \<Rightarrow>
          (case quota_add settled reserved of
             None \<Rightarrow> True
           | Some t \<Rightarrow> (case quota_add t incoming of None \<Rightarrow> True | Some t' \<Rightarrow> t' > l)))"

definition exceeds :: "quota_policy \<Rightarrow> quota_window \<Rightarrow> int \<Rightarrow> int \<Rightarrow> int \<Rightarrow> bool" where
  "exceeds p w requests tokens cost \<longleftrightarrow>
     exceedsLimit (qpRequestLimit p) (qwRequestsSettled w) (qwRequestsReserved w) requests \<or>
     exceedsLimit (qpTokenLimit p) (qwTokensSettled w) (qwTokensReserved w) tokens \<or>
     exceedsLimit (qpBudgetNanoUSD p) (qwCostSettled w) (qwCostReserved w) cost"

definition validLimit :: "int option \<Rightarrow> bool" where
  "validLimit v = (case v of None \<Rightarrow> True | Some n \<Rightarrow> 0 < n \<and> n \<le> 1000000000000000)"

definition quota_parseUSD :: "(string \<Rightarrow> rat option) \<Rightarrow> string \<Rightarrow> int option" where
  "quota_parseUSD setString raw =
     (case setString (trim_space raw) of
        None \<Rightarrow> None
      | Some v \<Rightarrow>
          if v < 0 then None
          else (let n = roundedRat (v * 1000000000) in if \<not> is_int64 n then None else Some n))"

text \<open>\<open>Rat.FloatString(9)\<close> of an amount: the whole dollars, a point and nine digits.\<close>

fun dec_digits :: "nat \<Rightarrow> nat \<Rightarrow> string" where
  "dec_digits 0 n = []"
| "dec_digits (Suc k) n = dec_digits k (n div 10) @ [char_of (48 + n mod 10)]"

fun nat_string :: "nat \<Rightarrow> string" where
  "nat_string n = (if n < 10 then dec_digits 1 n else nat_string (n div 10) @ dec_digits 1 n)"

definition formatUSD :: "int \<Rightarrow> string" where
  "formatUSD n =
     (if n < 0 then ''-'' else []) @ nat_string (nat (\<bar>n\<bar> div 1000000000)) @ ''.'' @
     dec_digits 9 (nat (\<bar>n\<bar> mod 1000000000))"

definition normalizePolicy :: "(string \<Rightarrow> rat option) \<Rightarrow> policy_input \<Rightarrow> quota_error + quota_policy" where
  "normalizePolicy setString input =
     (let model = trim_space (piGatewayModel input);
          policy = \<lparr>qpID = [], qpTenantID = trim_space (piTenantID input),
            qpGatewayModel = (if model = [] then ''*'' else model), qpPeriod = piPeriod input,
            qpRequestLimit = piRequestLimit input, qpTokenLimit = piTokenLimit input, qpBudgetNanoUSD = None,
            qpOveragePolicy = piOveragePolicy input, qpEnabled = piEnabled input, qpVersion = 0,
            qpCreatedBy = [], qpUpdatedBy = [], qpCreatedAt = 0, qpUpdatedAt = 0\<rparr> in
      if qpPeriod policy \<notin> {QuotaPeriodMinute, QuotaPeriodHour, QuotaPeriodDay, QuotaPeriodMonth} then Inl ErrInvalidPolicy
      else if qpOveragePolicy policy \<notin> {QuotaOverageDeny, QuotaOverageAllow, QuotaOverageAlert} then Inl ErrInvalidPolicy
      else if qpTenantID policy = [] \<or> length (qpGatewayModel policy) > 200 \<or>
        \<not> validLimit (qpRequestLimit policy) \<or> \<not> validLimit (qpTokenLimit policy) then Inl ErrInvalidPolicy
      else
        (case (case piBudgetUSD input of None \<Rightarrow> Some None | Some raw \<Rightarrow> map_option Some (quota_parseUSD setString raw)) of
           None \<Rightarrow> Inl ErrInvalidPolicy
         | Some budget \<Rightarrow>
             if qpRequestLimit policy = None \<and> qpTokenLimit policy = None \<and> budget = None then Inl ErrInvalidPolicy
             else Inr (policy\<lparr>qpBudgetNanoUSD := budget\<rparr>)))"

definition policyView :: "quota_policy \<Rightarrow> policy_view" where
  "policyView p =
     \<lparr>pvID = qpID p, pvTenantID = qpTenantID p, pvGatewayModel = qpGatewayModel p, pvPeriod = qpPeriod p,
      pvRequestLimit = qpRequestLimit p, pvTokenLimit = qpTokenLimit p,
      pvBudgetUSD = map_option formatUSD (qpBudgetNanoUSD p), pvOveragePolicy = qpOveragePolicy p,
      pvEnabled = qpEnabled p, pvVersion = qpVersion p, pvCreatedAt = qpCreatedAt p, pvUpdatedAt = qpUpdatedAt p\<rparr>"

text \<open>16 random bytes with the version and variant bits set, in the usual groups.\<close>

definition randomUUID :: "string \<Rightarrow> string" where
  "randomUUID bytes =
     (let set_bits = (\<lambda>i c. if i = 6 then char_of (of_char c mod 16 + 64 :: nat)
            else if i = 8 then char_of (of_char c mod 64 + 128 :: nat) else c);
          b = map (\<lambda>i. set_bits i (bytes ! i)) [0..<16] in
      hex_encode (take 4 b) @ ''-'' @ hex_encode (take 2 (drop 4 b)) @ ''-'' @ hex_encode (take 2 (drop 6 b)) @ ''-'' @
      hex_encode (take 2 (drop 8 b)) @ ''-'' @ hex_encode (drop 10 b))"

section \<open>The policy index\<close>

record policy_index =
  ixPolicies :: "(string \<times> quota_policy) list"
  ixMatches :: "(string \<times> (string \<times> int) list) list"

definition newPolicyIndex :: policy_index where
  "newPolicyIndex = \<lparr>ixPolicies = [], ixMatches = []\<rparr>"

definition count_of :: "(string \<times> int) list \<Rightarrow> string \<Rightarrow> int" where
  "count_of models model = (case map_of models model of None \<Rightarrow> 0 | Some n \<Rightarrow> n)"

definition models_of :: "policy_index \<Rightarrow> string \<Rightarrow> (string \<times> int) list" where
  "models_of ix tenant = (case map_of (ixMatches ix) tenant of None \<Rightarrow> [] | Some ms \<Rightarrow> ms)"

definition index_put :: "quota_policy \<Rightarrow> policy_index \<Rightarrow> policy_index" where
  "index_put p ix =
     (let ix1 = ix\<lparr>ixPolicies := AList.update (qpID p) p (ixPolicies ix)\<rparr> in
      if \<not> qpEnabled p then ix1
      else
        (let models = models_of ix (qpTenantID p) in
         ix1\<lparr>ixMatches := AList.update (qpTenantID p)
           (AList.update (qpGatewayModel p) (count_of models (qpGatewayModel p) + 1) models) (ixMatches ix)\<rparr>))"

definition index_remove :: "string \<Rightarrow> policy_index \<Rightarrow> policy_index" where
  "index_remove policyID ix =
     (case map_of (ixPolicies ix) policyID of
        None \<Rightarrow> ix
      | Some current \<Rightarrow>
          (let ix1 = ix\<lparr>ixPolicies := AList.delete policyID (ixPolicies ix)\<rparr> in
           if \<not> qpEnabled current then ix1
           else
             (let models = models_of ix (qpTenantID current); n = count_of models (qpGatewayModel current) - 1;
                  models' = (if n \<le> 0 then AList.delete (qpGatewayModel current) models
                             else AList.update (qpGatewayModel current) n models) in
              ix1\<lparr>ixMatches := if models' = [] then AList.delete (qpTenantID current) (ixMatches ix)
                               else AList.update (qpTenantID current) models' (ixMatches ix)\<rparr>)))"

definition index_Put :: "quota_policy \<Rightarrow> policy_index \<Rightarrow> policy_index" where
  "index_Put p ix = index_put p (index_remove (qpID p) ix)"

definition index_Replace :: "quota_policy list \<Rightarrow> policy_index" where
  "index_Replace ps = foldl (\<lambda>ix p. index_put p ix) newPolicyIndex ps"

definition index_Has :: "policy_index \<Rightarrow> string \<Rightarrow> string \<Rightarrow> bool" where
  "index_Has ix tenantID model \<longleftrightarrow>
     count_of (models_of ix tenantID) model > 0 \<or> count_of (models_of ix tenantID) ''*'' > 0"

section \<open>The manager\<close>

record quota_manager =
  qmDB :: quota_db
  qmIndex :: policy_index

definition HasPolicy :: "quota_manager \<Rightarrow> string \<Rightarrow> string \<Rightarrow> bool" where
  "HasPolicy m tenantID model = index_Has (qmIndex m) (trim_space tenantID) (trim_space model)"

text \<open>
  A transaction: the closure's result is committed unless it or the database reports an error.
\<close>

definition transaction :: "quota_error option \<Rightarrow> ('a \<times> (quota_error + quota_db)) \<Rightarrow> quota_db \<Rightarrow> quota_db \<times> 'a \<times> quota_error option" where
  "transaction fault body db =
     (case body of
        (x, Inl err) \<Rightarrow> (db, x, Some err)
      | (x, Inr db') \<Rightarrow> (case fault of Some err \<Rightarrow> (db, x, Some err) | None \<Rightarrow> (db', x, None)))"

definition ensureTenant :: "quota_db \<Rightarrow> string \<Rightarrow> quota_error option" where
  "ensureTenant db tenantID = (if tenantID \<in> set (qdTenants db) then None else Some ErrTenantNotFound)"

definition writeQuotaAudit ::
  "mutation_meta \<Rightarrow> string \<Rightarrow> string \<Rightarrow> policy_view option \<Rightarrow> policy_view option \<Rightarrow> quota_db \<Rightarrow> quota_error + quota_db" where
  "writeQuotaAudit meta action resourceID before after db =
     (if trim_space (mmActorID meta) = [] \<or> trim_space (mmRequestID meta) = []
      then Inl (QuotaError ''quota audit metadata is incomplete'')
      else Inr (db\<lparr>qdAudit := qdAudit db @ [\<lparr>alPrincipalID = mmActorID meta, alAction = action, alResourceID = resourceID,
             alRequestID = mmRequestID meta, alRemoteIP = mmRemoteIP meta, alBefore = before, alAfter = after\<rparr>]\<rparr>))"

definition audit_if ::
  "mutation_meta option \<Rightarrow> string \<Rightarrow> string \<Rightarrow> policy_view option \<Rightarrow> policy_view option \<Rightarrow> quota_db \<Rightarrow> quota_error + quota_db" where
  "audit_if meta action resourceID before after db =
     (case meta of None \<Rightarrow> Inr db | Some mm \<Rightarrow> writeQuotaAudit mm action resourceID before after db)"

definition create_body :: "quota_policy \<Rightarrow> mutation_meta option \<Rightarrow> quota_db \<Rightarrow> quota_error + quota_db" where
  "create_body policy meta db =
     (case ensureTenant db (qpTenantID policy) of
        Some err \<Rightarrow> Inl err
      | None \<Rightarrow>
          if qpID policy \<in> qpID ` set (qdPolicies db) then Inl (QuotaError ''create quota policy'')
          else audit_if meta ''quota.create'' (qpID policy) None (Some (policyView policy))
                 (db\<lparr>qdPolicies := qdPolicies db @ [policy]\<rparr>))"

text \<open>After the transaction: the index follows what was committed.\<close>

definition after_policy :: "quota_policy \<Rightarrow> quota_manager \<Rightarrow> quota_db \<times> unit \<times> quota_error option \<Rightarrow>
    quota_manager \<times> (quota_error + policy_view)" where
  "after_policy policy m result =
     (case result of
        (db', _, Some err) \<Rightarrow> (m\<lparr>qmDB := db'\<rparr>, Inl err)
      | (db', _, None) \<Rightarrow> (m\<lparr>qmDB := db', qmIndex := index_Put policy (qmIndex m)\<rparr>, Inr (policyView policy)))"

text \<open>\<open>random\<close> is the 16 bytes the policy ID is made of.\<close>

definition createPolicy ::
  "(string \<Rightarrow> rat option) \<Rightarrow> string option \<Rightarrow> time \<Rightarrow> quota_error option \<Rightarrow> policy_input \<Rightarrow> string \<Rightarrow> mutation_meta option \<Rightarrow>
     quota_manager \<Rightarrow> quota_manager \<times> (quota_error + policy_view)" where
  "createPolicy setString random now fault input actorID meta m =
     (case normalizePolicy setString input of
        Inl err \<Rightarrow> (m, Inl err)
      | Inr normalized \<Rightarrow>
          (case random of
             None \<Rightarrow> (m, Inl (QuotaError ''generate quota policy ID''))
           | Some bytes \<Rightarrow>
               (let actor = trim_space actorID;
                    policy = normalized\<lparr>qpID := randomUUID bytes, qpVersion := 1, qpCreatedBy := actor,
                      qpUpdatedBy := actor, qpCreatedAt := now, qpUpdatedAt := now\<rparr> in
                if actor = [] then (m, Inl ErrInvalidPolicy)
                else after_policy policy m (transaction fault ((), create_body policy meta (qmDB m)) (qmDB m)))))"

definition save_policy :: "quota_policy \<Rightarrow> quota_policy list \<Rightarrow> quota_policy list" where
  "save_policy p ps = map (\<lambda>q. if qpID q = qpID p then p else q) ps"

definition update_body ::
  "quota_policy \<Rightarrow> quota_policy \<Rightarrow> uint64 \<Rightarrow> mutation_meta option \<Rightarrow> quota_db \<Rightarrow> quota_error + quota_db" where
  "update_body current updated expectedVersion meta db =
     (if qpVersion current \<noteq> expectedVersion then Inl ErrVersionConflict
      else case ensureTenant db (qpTenantID updated) of
        Some err \<Rightarrow> Inl err
      | None \<Rightarrow>
          if qpUpdatedBy updated = [] then Inl ErrInvalidPolicy
          else audit_if meta ''quota.update'' (qpID current) (Some (policyView current)) (Some (policyView updated))
                 (db\<lparr>qdPolicies := save_policy updated (qdPolicies db)\<rparr>))"

definition updatePolicy ::
  "(string \<Rightarrow> rat option) \<Rightarrow> time \<Rightarrow> quota_error option \<Rightarrow> string \<Rightarrow> uint64 \<Rightarrow> policy_input \<Rightarrow> string \<Rightarrow> mutation_meta option \<Rightarrow>
     quota_manager \<Rightarrow> quota_manager \<times> (quota_error + policy_view)" where
  "updatePolicy setString now fault policyID expectedVersion input actorID meta m =
     (case normalizePolicy setString input of
        Inl err \<Rightarrow> (m, Inl err)
      | Inr normalized \<Rightarrow>
          (case find (\<lambda>p. qpID p = trim_space policyID) (qdPolicies (qmDB m)) of
             None \<Rightarrow> (m, Inl (QuotaError ''record not found''))
           | Some current \<Rightarrow>
               (let updated = normalized\<lparr>qpID := qpID current, qpVersion := qpVersion current + 1,
                      qpCreatedBy := qpCreatedBy current, qpCreatedAt := qpCreatedAt current,
                      qpUpdatedBy := trim_space actorID, qpUpdatedAt := now\<rparr> in
                after_policy updated m
                  (transaction fault ((), update_body current updated expectedVersion meta (qmDB m)) (qmDB m)))))"

definition LoadPolicyIndex :: "quota_error option \<Rightarrow> quota_manager \<Rightarrow> quota_manager \<times> quota_error option" where
  "LoadPolicyIndex fault m =
     (if fault \<noteq> None then (m, Some (QuotaError ''load quota policy index''))
      else (m\<lparr>qmIndex := index_Replace (filter qpEnabled (qdPolicies (qmDB m)))\<rparr>, None))"

definition ListPolicies :: "string \<Rightarrow> quota_db \<Rightarrow> policy_view list" where
  "ListPolicies tenantID db =
     map policyView (sort_key (\<lambda>p. (qpTenantID p, qpGatewayModel p, qpPeriod p, qpID p))
       (filter (\<lambda>p. trim_space tenantID = [] \<or> qpTenantID p = trim_space tenantID) (qdPolicies db)))"

section \<open>The index counts the enabled policies\<close>

definition counted :: "string \<Rightarrow> string \<Rightarrow> string \<times> quota_policy \<Rightarrow> bool" where
  "counted tenant model x \<longleftrightarrow> qpEnabled (snd x) \<and> qpTenantID (snd x) = tenant \<and> qpGatewayModel (snd x) = model"

definition index_ok :: "policy_index \<Rightarrow> bool" where
  "index_ok ix \<longleftrightarrow> distinct (map fst (ixPolicies ix)) \<and> (\<forall>(i, p) \<in> set (ixPolicies ix). qpID p = i) \<and>
     (\<forall>t m. count_of (models_of ix t) m = int (length (filter (counted t m) (ixPolicies ix))))"

lemma update_fresh: "k \<notin> fst ` set al \<Longrightarrow> AList.update k v al = al @ [(k, v)]"
  by (induction al) auto

lemma delete_fresh: "k \<notin> fst ` set al \<Longrightarrow> AList.delete k al = al"
  by (rule AList.delete_id)

lemma delete_filter:
  "distinct (map fst al) \<Longrightarrow> map_of al k = Some v \<Longrightarrow>
     int (length (filter P (AList.delete k al))) = int (length (filter P al)) - (if P (k, v) then 1 else 0)"
proof (induction al)
  case (Cons x al)
  show ?case
  proof (cases "fst x = k")
    case True
    with Cons.prems(1) have "AList.delete k al = al" by (intro delete_fresh) auto
    with True Cons.prems show ?thesis by (cases x) (auto simp: AList.delete_eq)
  next
    case False
    with Cons show ?thesis by (cases x) (auto simp: AList.delete_eq)
  qed
qed simp

lemma models_of_update:
  "models_of (ix\<lparr>ixPolicies := ps, ixMatches := AList.update t ms (ixMatches ix)\<rparr>) u = (if u = t then ms else models_of ix u)"
  "models_of (ix\<lparr>ixPolicies := ps, ixMatches := AList.delete t (ixMatches ix)\<rparr>) u = (if u = t then [] else models_of ix u)"
  "models_of (ix\<lparr>ixPolicies := ps\<rparr>) u = models_of ix u"
  by (simp_all add: models_of_def AList.update_conv' AList.delete_conv')

lemma count_of_simps [simp]:
  "count_of (AList.update m n ms) k = (if k = m then n else count_of ms k)"
  "count_of (AList.delete m ms) k = (if k = m then 0 else count_of ms k)" "count_of [] k = 0"
  by (simp_all add: count_of_def AList.update_conv' AList.delete_conv')

lemma index_put_count:
  "count_of (models_of (index_put p ix) t) m =
     count_of (models_of ix t) m + (if counted t m (qpID p, p) then 1 else 0)"
  by (simp add: index_put_def Let_def models_of_update counted_def)

lemma index_put_ok:
  assumes "index_ok ix" "qpID p \<notin> fst ` set (ixPolicies ix)"
  shows "index_ok (index_put p ix)" "set (ixPolicies (index_put p ix)) = insert (qpID p, p) (set (ixPolicies ix))"
proof -
  have ps: "ixPolicies (index_put p ix) = ixPolicies ix @ [(qpID p, p)]"
    using assms(2) by (simp add: index_put_def Let_def update_fresh)
  then show "set (ixPolicies (index_put p ix)) = insert (qpID p, p) (set (ixPolicies ix))" by simp
  show "index_ok (index_put p ix)"
    using assms by (simp add: index_ok_def ps index_put_count image_iff)
qed

lemma index_remove_ok:
  assumes ok: "index_ok ix"
  shows "index_ok (index_remove i ix)" "set (ixPolicies (index_remove i ix)) = {x \<in> set (ixPolicies ix). fst x \<noteq> i}"
proof -
  have dist: "distinct (map fst (ixPolicies ix))" using ok by (simp add: index_ok_def)
  have ps: "ixPolicies (index_remove i ix) = AList.delete i (ixPolicies ix)"
  proof (cases "map_of (ixPolicies ix) i")
    case None
    then have "AList.delete i (ixPolicies ix) = ixPolicies ix" by (intro delete_fresh) (simp add: map_of_eq_None_iff)
    with None show ?thesis by (simp add: index_remove_def)
  qed (simp add: index_remove_def Let_def)
  show set: "set (ixPolicies (index_remove i ix)) = {x \<in> set (ixPolicies ix). fst x \<noteq> i}"
    by (auto simp: ps AList.delete_eq)
  show "index_ok (index_remove i ix)"
  proof (cases "map_of (ixPolicies ix) i")
    case None
    with ok show ?thesis by (simp add: index_remove_def)
  next
    case (Some p)
    have p: "qpID p = i" using ok map_of_SomeD [OF Some] by (auto simp: index_ok_def)
    have pos: "1 \<le> count_of (models_of ix (qpTenantID p)) (qpGatewayModel p)" if "qpEnabled p"
    proof -
      have "(i, p) \<in> set (filter (counted (qpTenantID p) (qpGatewayModel p)) (ixPolicies ix))"
        using that map_of_SomeD [OF Some] by (simp add: counted_def)
      then have "filter (counted (qpTenantID p) (qpGatewayModel p)) (ixPolicies ix) \<noteq> []" by force
      with ok show ?thesis by (simp add: index_ok_def Suc_le_eq flip: length_greater_0_conv)
    qed
    have "count_of (models_of (index_remove i ix) t) m = count_of (models_of ix t) m - (if counted t m (i, p) then 1 else 0)" for t m
    proof (cases "qpEnabled p")
      case True
      define ms where "ms = models_of ix (qpTenantID p)"
      define n where "n = count_of ms (qpGatewayModel p) - 1"
      define ms' where "ms' = (if n \<le> 0 then AList.delete (qpGatewayModel p) ms else AList.update (qpGatewayModel p) n ms)"
      have "models_of (index_remove i ix) t = (if t = qpTenantID p then ms' else models_of ix t)"
        using True Some by (auto simp: index_remove_def Let_def models_of_update ms'_def n_def ms_def)
      moreover have "count_of ms' m = count_of ms m - (if m = qpGatewayModel p then 1 else 0)"
        using pos [OF True] by (auto simp: ms'_def n_def simp flip: ms_def)
      ultimately show ?thesis using True by (auto simp: counted_def ms_def)
    next
      case False
      with Some show ?thesis by (simp add: index_remove_def models_of_update counted_def)
    qed
    moreover have "distinct (map fst (AList.delete i (ixPolicies ix)))"
      using dist by (simp add: AList.delete_keys distinct_removeAll)
    ultimately show ?thesis
      using ok delete_filter [OF dist Some] set unfolding index_ok_def ps by auto
  qed
qed

lemma index_Put_ok:
  assumes "index_ok ix"
  shows "index_ok (index_Put p ix)"
    "set (ixPolicies (index_Put p ix)) = insert (qpID p, p) {x \<in> set (ixPolicies ix). fst x \<noteq> qpID p}"
proof -
  note rm = index_remove_ok [OF assms, of "qpID p"]
  have "qpID p \<notin> fst ` set (ixPolicies (index_remove (qpID p) ix))" by (auto simp: rm(2))
  from index_put_ok [OF rm(1) this] show "index_ok (index_Put p ix)"
    "set (ixPolicies (index_Put p ix)) = insert (qpID p, p) {x \<in> set (ixPolicies ix). fst x \<noteq> qpID p}"
    by (simp_all add: index_Put_def rm(2))
qed

lemma index_Replace_ok:
  assumes "distinct (map qpID ps)"
  shows "index_ok (index_Replace ps)" "set (ixPolicies (index_Replace ps)) = (\<lambda>p. (qpID p, p)) ` set ps"
proof -
  have "distinct (map qpID ps) \<Longrightarrow> qpID ` set ps \<inter> fst ` set (ixPolicies ix) = {} \<Longrightarrow> index_ok ix \<Longrightarrow>
      index_ok (foldl (\<lambda>ix p. index_put p ix) ix ps) \<and>
      set (ixPolicies (foldl (\<lambda>ix p. index_put p ix) ix ps)) = set (ixPolicies ix) \<union> (\<lambda>p. (qpID p, p)) ` set ps" for ix
  proof (induction ps arbitrary: ix)
    case (Cons p ps)
    then have fresh: "qpID p \<notin> fst ` set (ixPolicies ix)" by auto
    note put = index_put_ok [OF Cons.prems(3) fresh]
    have "qpID ` set ps \<inter> fst ` set (ixPolicies (index_put p ix)) = {}" using Cons.prems by (auto simp: put(2))
    with Cons.IH [of "index_put p ix"] Cons.prems put show ?case by auto
  qed simp
  from this [of newPolicyIndex] assms show "index_ok (index_Replace ps)" "set (ixPolicies (index_Replace ps)) = (\<lambda>p. (qpID p, p)) ` set ps"
    by (auto simp: index_Replace_def newPolicyIndex_def index_ok_def models_of_def)
qed

lemma index_Has_iff:
  assumes "index_ok ix"
  shows "index_Has ix t m \<longleftrightarrow>
    (\<exists>(i, p) \<in> set (ixPolicies ix). qpEnabled p \<and> qpTenantID p = t \<and> qpGatewayModel p \<in> {m, ''*''})"
proof -
  have "count_of (models_of ix t) k > 0 \<longleftrightarrow> (\<exists>x \<in> set (ixPolicies ix). counted t k x)" for k
    using assms by (auto simp: index_ok_def filter_empty_conv)
  then show ?thesis by (fastforce simp: index_Has_def counted_def)
qed

text \<open>The index and the policies table agree on the enabled policies.\<close>

definition enabled_in_index :: "policy_index \<Rightarrow> quota_policy set" where
  "enabled_in_index ix = {p. qpEnabled p \<and> (qpID p, p) \<in> set (ixPolicies ix)}"

definition enabled_in_db :: "quota_db \<Rightarrow> quota_policy set" where
  "enabled_in_db db = {p \<in> set (qdPolicies db). qpEnabled p}"

definition policies_ok :: "quota_manager \<Rightarrow> bool" where
  "policies_ok m \<longleftrightarrow> distinct (map qpID (qdPolicies (qmDB m))) \<and> index_ok (qmIndex m) \<and>
     enabled_in_index (qmIndex m) = enabled_in_db (qmDB m)"

lemma HasPolicy_iff:
  assumes "policies_ok m"
  shows "HasPolicy m t k \<longleftrightarrow>
    (\<exists>p \<in> set (qdPolicies (qmDB m)). qpEnabled p \<and> qpTenantID p = trim_space t \<and> qpGatewayModel p \<in> {trim_space k, ''*''})"
proof -
  have "HasPolicy m t k \<longleftrightarrow> (\<exists>p \<in> enabled_in_index (qmIndex m). qpTenantID p = trim_space t \<and> qpGatewayModel p \<in> {trim_space k, ''*''})"
    using assms index_Has_iff [of "qmIndex m" "trim_space t" "trim_space k"]
    by (fastforce simp: policies_ok_def HasPolicy_def enabled_in_index_def index_ok_def)
  then show ?thesis using assms by (auto simp: policies_ok_def enabled_in_db_def)
qed

lemma audit_if_ok:
  assumes "audit_if meta action i b a db = Inr db'"
  shows "qdPolicies db' = qdPolicies db \<and> qdWindows db' = qdWindows db \<and> qdReservations db' = qdReservations db"
  using assms by (auto simp: audit_if_def writeQuotaAudit_def split: option.split_asm if_split_asm)

lemma after_policy_cases:
  assumes "after_policy p m (transaction fault ((), body) (qmDB m)) = (m', res)"
  obtains (unchanged) err where "res = Inl err" "m' = m"
  | (committed) db' where "res = Inr (policyView p)" "body = Inr db'" "m' = m\<lparr>qmDB := db', qmIndex := index_Put p (qmIndex m)\<rparr>"
  using assms by (auto simp: after_policy_def transaction_def split: sum.split_asm option.split_asm)

lemma createPolicy_cases:
  assumes "createPolicy setString random now fault input actor meta m = (m', res)"
  obtains (unchanged) err where "res = Inl err" "m' = m"
  | (created) p db' where "res = Inr (policyView p)" "qpID p \<notin> qpID ` set (qdPolicies (qmDB m))" "qpVersion p = 1"
      "qdPolicies db' = qdPolicies (qmDB m) @ [p]" "qdWindows db' = qdWindows (qmDB m)"
      "qdReservations db' = qdReservations (qmDB m)"
      "m' = m\<lparr>qmDB := db', qmIndex := index_Put p (qmIndex m)\<rparr>"
proof -
  consider err where "res = Inl err" "m' = m"
    | p body where "after_policy p m (transaction fault ((), body) (qmDB m)) = (m', res)"
      "body = create_body p meta (qmDB m)" "qpVersion p = 1"
    using assms by (auto simp: createPolicy_def Let_def split: sum.split_asm option.split_asm if_split_asm)
  then show ?thesis
  proof cases
    case 1
    then show ?thesis by (rule unchanged)
  next
    case 2
    from 2(1) show ?thesis
    proof (cases rule: after_policy_cases)
      case (committed db')
      from committed(2) 2(2) have fresh: "qpID p \<notin> qpID ` set (qdPolicies (qmDB m))"
        and "audit_if meta ''quota.create'' (qpID p) None (Some (policyView p))
          ((qmDB m)\<lparr>qdPolicies := qdPolicies (qmDB m) @ [p]\<rparr>) = Inr db'"
        by (auto simp: create_body_def split: option.split_asm if_split_asm)
      with audit_if_ok [OF this(2)] created committed 2(3) show ?thesis by auto
    qed (rule unchanged)
  qed
qed

lemma updatePolicy_cases:
  assumes "updatePolicy setString now fault i v input actor meta m = (m', res)"
  obtains (unchanged) err where "res = Inl err" "m' = m"
  | (updated) q p db' where "res = Inr (policyView p)" "q \<in> set (qdPolicies (qmDB m))" "qpID q = trim_space i" "qpVersion q = v"
      "qpID p = qpID q" "qpVersion p = v + 1"
      "qdPolicies db' = save_policy p (qdPolicies (qmDB m))" "qdWindows db' = qdWindows (qmDB m)"
      "qdReservations db' = qdReservations (qmDB m)"
      "m' = m\<lparr>qmDB := db', qmIndex := index_Put p (qmIndex m)\<rparr>"
proof -
  consider err where "res = Inl err" "m' = m"
    | p q body where "after_policy p m (transaction fault ((), body) (qmDB m)) = (m', res)"
      "body = update_body q p v meta (qmDB m)" "q \<in> set (qdPolicies (qmDB m))" "qpID q = trim_space i"
      "qpID p = qpID q" "qpVersion p = qpVersion q + 1"
    using assms
    by (auto simp: updatePolicy_def Let_def find_Some_iff split: sum.split_asm option.split_asm dest: nth_mem)
  then show ?thesis
  proof cases
    case 1
    then show ?thesis by (rule unchanged)
  next
    case 2
    from 2(1) show ?thesis
    proof (cases rule: after_policy_cases)
      case (committed db')
      from committed(2) 2(2) have v: "qpVersion q = v"
        and "audit_if meta ''quota.update'' (qpID q) (Some (policyView q)) (Some (policyView p))
          ((qmDB m)\<lparr>qdPolicies := save_policy p (qdPolicies (qmDB m))\<rparr>) = Inr db'"
        by (auto simp: update_body_def split: option.split_asm if_split_asm)
      with audit_if_ok [OF this(2)] updated committed 2(3-6) show ?thesis by auto
    qed (rule unchanged)
  qed
qed

lemma index_sync_put:
  assumes ok: "index_ok ix" and old: "enabled_in_index ix = E"
    and new: "\<And>x. x \<in> E' \<longleftrightarrow> (if qpID x = qpID p then x = p \<and> qpEnabled p else x \<in> E)"
  shows "enabled_in_index (index_Put p ix) = E'"
proof -
  have "x \<in> enabled_in_index (index_Put p ix) \<longleftrightarrow> x \<in> E'" for x
    using old unfolding new by (auto simp: enabled_in_index_def index_Put_ok(2) [OF ok])
  then show ?thesis by blast
qed

lemma createPolicy_ok:
  assumes "createPolicy setString random now fault input actor meta m = (m', res)" "policies_ok m"
  shows "policies_ok m'"
  using assms(1)
proof (cases rule: createPolicy_cases)
  case (created p db')
  have "qpID x \<noteq> qpID p" if "x \<in> set (qdPolicies (qmDB m))" for x using created(2) that by (metis imageI)
  then have "enabled_in_index (index_Put p (qmIndex m)) = enabled_in_db db'"
    using assms(2) created(4)
    by (intro index_sync_put) (auto simp: policies_ok_def enabled_in_db_def)
  with assms(2) created index_Put_ok(1) show ?thesis by (simp add: policies_ok_def)
qed (use assms in simp)

lemma updatePolicy_ok:
  assumes "updatePolicy setString now fault i v input actor meta m = (m', res)" "policies_ok m"
  shows "policies_ok m'"
  using assms(1)
proof (cases rule: updatePolicy_cases)
  case (updated q p db')
  have "enabled_in_index (index_Put p (qmIndex m)) = enabled_in_db db'"
    using assms(2) updated(2,5,7)
    by (intro index_sync_put) (auto simp: policies_ok_def enabled_in_db_def save_policy_def image_iff)
  moreover have "map qpID (save_policy p ps) = map qpID ps" for ps
    by (induction ps) (auto simp: save_policy_def)
  ultimately show ?thesis using assms(2) updated index_Put_ok(1) by (simp add: policies_ok_def)
qed (use assms in simp)

lemma LoadPolicyIndex_ok:
  assumes "policies_ok m"
  shows "policies_ok (fst (LoadPolicyIndex fault m))"
proof -
  let ?ps = "filter qpEnabled (qdPolicies (qmDB m))"
  have "distinct (map qpID ?ps)" using assms by (simp add: policies_ok_def distinct_map inj_on_def)
  note rep = index_Replace_ok [OF this]
  then have "enabled_in_index (index_Replace ?ps) = enabled_in_db (qmDB m)"
    by (auto simp: enabled_in_index_def enabled_in_db_def)
  with assms rep(1) show ?thesis by (simp add: LoadPolicyIndex_def policies_ok_def)
qed

end
