(* ===== verification/QuotaLedger.thy ===== *)
theory QuotaLedger
  imports Quota
begin

text \<open>
  The quota ledger: \<open>Reserve\<close>, \<open>Settle\<close> and \<open>ReapExpired\<close> of \<open>internal/quota/manager.go\<close> over the
  tables of \<open>Quota\<close>, and the bookkeeping they keep: the counters of a window are the sums over
  its reservations. Counters are \<open>int64\<close>; where the code adds without a check they wrap.
\<close>

section \<open>Windows and reservations\<close>

definition new_window :: "string \<Rightarrow> time \<Rightarrow> time \<Rightarrow> quota_window" where
  "new_window policyID start now =
     \<lparr>qwPolicyID = policyID, qwWindowStart = start, qwRequestsSettled = 0, qwTokensSettled = 0, qwCostSettled = 0,
      qwRequestsReserved = 0, qwTokensReserved = 0, qwCostReserved = 0, qwUpdatedAt = now\<rparr>"

definition lockWindow :: "string \<Rightarrow> time \<Rightarrow> time \<Rightarrow> quota_db \<Rightarrow> quota_db \<times> quota_window" where
  "lockWindow policyID start now db =
     (case map_of (qdWindows db) (policyID, start) of
        Some w \<Rightarrow> (db, w)
      | None \<Rightarrow>
          (let w = new_window policyID start now in
           (db\<lparr>qdWindows := AList.update (policyID, start) w (qdWindows db)\<rparr>, w)))"

definition save_window :: "quota_window \<Rightarrow> quota_db \<Rightarrow> quota_db" where
  "save_window w db = db\<lparr>qdWindows := AList.update (qwPolicyID w, qwWindowStart w) w (qdWindows db)\<rparr>"

definition save_reservation :: "quota_reservation \<Rightarrow> quota_db \<Rightarrow> quota_db" where
  "save_reservation r db =
     db\<lparr>qdReservations := map (\<lambda>q. if qrID q = qrID r then r else q) (qdReservations db)\<rparr>"

section \<open>Reserving\<close>

record reserve_input =
  riGroupID :: string
  riTenantID :: string
  riGatewayModel :: string
  riEstimatedInputTokens :: int
  riEstimatedOutputTokens :: int
  riCandidates :: "candidate list"

record decision =
  deReservationID :: string
  deExceeded :: bool
  deAlerts :: "string list"
  deAppliedPolicies :: int

definition decision_zero :: decision where
  "decision_zero = \<lparr>deReservationID = [], deExceeded = False, deAlerts = [], deAppliedPolicies = 0\<rparr>"

definition estimate_event :: "reserve_input \<Rightarrow> time \<Rightarrow> candidate \<Rightarrow> usage_event" where
  "estimate_event input now c =
     event_zero\<lparr>ueRequestedModel := riGatewayModel input, ueProviderID := caProviderID c,
       ueUpstreamModel := caUpstreamModel c, ueStatus := StatusSuccess, ueStartedAt := now,
       ueUsage := Some \<lparr>tuInput = riEstimatedInputTokens input, tuOutput = riEstimatedOutputTokens input,
         tuTotal = wrap_int64 (riEstimatedInputTokens input + riEstimatedOutputTokens input), tuInputDetails = None,
         tuOutputDetails = None, tuReportedCost = None, tuRaw = []\<rparr>\<rparr>"

fun estimate_candidates ::
  "(usage_event \<Rightarrow> cost_result) \<Rightarrow> reserve_input \<Rightarrow> time \<Rightarrow> candidate list \<Rightarrow> int \<Rightarrow> bool \<Rightarrow> int \<times> bool" where
  "estimate_candidates quote input now [] maximum known = (maximum, known)"
| "estimate_candidates quote input now (c # cs) maximum known =
     (case crSnapshot (quote (estimate_event input now c)) of
        None \<Rightarrow> estimate_candidates quote input now cs maximum False
      | Some s \<Rightarrow> estimate_candidates quote input now cs (if csTotalNanoUSD s > maximum then csTotalNanoUSD s else maximum) known)"

definition estimateCost :: "(usage_event \<Rightarrow> cost_result) \<Rightarrow> reserve_input \<Rightarrow> time \<Rightarrow> int \<times> bool" where
  "estimateCost quote input now =
     estimate_candidates quote input now (riCandidates input) 0 (riCandidates input \<noteq> [])"

definition alert_if :: "bool \<Rightarrow> string \<Rightarrow> decision \<Rightarrow> decision" where
  "alert_if cond alert de = (if cond then de\<lparr>deAlerts := deAlerts de @ [alert]\<rparr> else de)"

definition exceeded_if :: "bool \<Rightarrow> decision \<Rightarrow> decision" where
  "exceeded_if cond de = (if cond then de\<lparr>deExceeded := True\<rparr> else de)"

definition new_reservation ::
  "quota_settings \<Rightarrow> time \<Rightarrow> string \<Rightarrow> string \<Rightarrow> quota_policy \<Rightarrow> int \<Rightarrow> int \<Rightarrow> bool \<Rightarrow> quota_reservation" where
  "new_reservation settings now bytes groupID p tokens cost exceeded =
     \<lparr>qrID = randomUUID bytes, qrGroupID = groupID, qrPolicyID = qpID p, qrWindowStart = periodStart now (qpPeriod p),
      qrRequestsReserved = 1, qrTokensReserved = tokens, qrCostReserved = cost, qrRequestsActual = None,
      qrTokensActual = None, qrCostActual = None, qrState = ReservationActive, qrExceeded = exceeded,
      qrExpiresAt = now + qsReservationTTL settings, qrCreatedAt = now, qrSettledAt = None\<rparr>"

text \<open>The unique indexes of the table refuse a second row with the ID or for the group and policy.\<close>

definition create_reservation :: "quota_reservation \<Rightarrow> quota_db \<Rightarrow> quota_error + quota_db" where
  "create_reservation r db =
     (if list_ex (\<lambda>q. qrID q = qrID r \<or> (qrGroupID q = qrGroupID r \<and> qrPolicyID q = qrPolicyID r)) (qdReservations db)
      then Inl (QuotaError ''create quota reservation'')
      else Inr (db\<lparr>qdReservations := qdReservations db @ [r]\<rparr>))"

text \<open>One policy of the loop; \<open>random\<close> is the bytes of the reservation's ID.\<close>

definition reserve_policy ::
  "quota_settings \<Rightarrow> time \<Rightarrow> string \<Rightarrow> int \<Rightarrow> int \<times> bool \<Rightarrow> string option \<Rightarrow> quota_policy \<Rightarrow> decision \<Rightarrow> quota_db \<Rightarrow>
     decision \<times> (quota_error + quota_db)" where
  "reserve_policy settings now groupID totalTokens estimate random p de db =
     (let de1 = de\<lparr>deAppliedPolicies := deAppliedPolicies de + 1\<rparr>;
          costUnknown = (qpBudgetNanoUSD p \<noteq> None \<and> \<not> snd estimate);
          costReservation = (if qpBudgetNanoUSD p \<noteq> None \<and> snd estimate then fst estimate else 0) in
      case lockWindow (qpID p) (periodStart now (qpPeriod p)) now db of
        (db1, w) \<Rightarrow>
          if costUnknown \<and> qpOveragePolicy p = QuotaOverageDeny then (de1, Inl ErrCostUnknown)
          else
            (let exceeded = exceeds p w 1 totalTokens costReservation;
                 de2 = exceeded_if exceeded (alert_if costUnknown (qpID p @ '':cost_unknown'') de1) in
             if exceeded \<and> qpOveragePolicy p = QuotaOverageDeny then (de2, Inl ErrExceeded)
             else
               (let de3 = alert_if (exceeded \<and> qpOveragePolicy p = QuotaOverageAlert) (qpID p @ '':exceeded'') de2 in
                case quota_add (qwTokensReserved w) totalTokens of
                  None \<Rightarrow> (de3, Inl (QuotaError ''quota reserved token counter overflow''))
                | Some tokensReserved \<Rightarrow>
                    (case quota_add (qwCostReserved w) costReservation of
                       None \<Rightarrow> (de3, Inl (QuotaError ''quota reserved cost counter overflow''))
                     | Some costReserved \<Rightarrow>
                         (let db2 = save_window (w\<lparr>qwRequestsReserved := wrap_int64 (qwRequestsReserved w + 1),
                                qwTokensReserved := tokensReserved, qwCostReserved := costReserved, qwUpdatedAt := now\<rparr>) db1 in
                          case random of
                            None \<Rightarrow> (de3, Inl (QuotaError ''generate quota reservation ID''))
                          | Some bytes \<Rightarrow>
                              (de3, create_reservation
                                 (new_reservation settings now bytes groupID p totalTokens costReservation exceeded) db2))))))"

fun reserve_policies ::
  "quota_settings \<Rightarrow> time \<Rightarrow> string \<Rightarrow> int \<Rightarrow> int \<times> bool \<Rightarrow> (nat \<Rightarrow> string option) \<Rightarrow> nat \<Rightarrow> quota_policy list \<Rightarrow> decision \<Rightarrow>
     quota_db \<Rightarrow> decision \<times> (quota_error + quota_db)" where
  "reserve_policies settings now groupID totalTokens estimate random i [] de db = (de, Inr db)"
| "reserve_policies settings now groupID totalTokens estimate random i (p # ps) de db =
     (case reserve_policy settings now groupID totalTokens estimate (random i) p de db of
        (de', Inl err) \<Rightarrow> (de', Inl err)
      | (de', Inr db') \<Rightarrow> reserve_policies settings now groupID totalTokens estimate random (i + 1) ps de' db')"

definition matching_policies :: "quota_db \<Rightarrow> string \<Rightarrow> string \<Rightarrow> quota_policy list" where
  "matching_policies db tenantID model =
     sort_key qpID (filter (\<lambda>p. qpTenantID p = tenantID \<and> qpEnabled p \<and> qpGatewayModel p \<in> {''*'', model}) (qdPolicies db))"

definition reserve_body ::
  "quota_settings \<Rightarrow> time \<Rightarrow> reserve_input \<Rightarrow> int \<Rightarrow> int \<times> bool \<Rightarrow> (nat \<Rightarrow> string option) \<Rightarrow> quota_db \<Rightarrow>
     decision \<times> (quota_error + quota_db)" where
  "reserve_body settings now input totalTokens estimate random db =
     (let de = decision_zero\<lparr>deReservationID := riGroupID input\<rparr> in
      if list_ex (\<lambda>r. qrGroupID r = riGroupID input) (qdReservations db) then (de, Inr db)
      else reserve_policies settings now (riGroupID input) totalTokens estimate random 0
             (matching_policies db (riTenantID input) (riGatewayModel input)) de db)"

definition trimmed_input :: "reserve_input \<Rightarrow> reserve_input" where
  "trimmed_input input = input\<lparr>riGroupID := trim_space (riGroupID input), riTenantID := trim_space (riTenantID input),
     riGatewayModel := trim_space (riGatewayModel input)\<rparr>"

definition Reserve ::
  "quota_settings \<Rightarrow> (usage_event \<Rightarrow> cost_result) \<Rightarrow> time \<Rightarrow> (nat \<Rightarrow> string option) \<Rightarrow> quota_error option \<Rightarrow> reserve_input \<Rightarrow>
     quota_manager \<Rightarrow> quota_manager \<times> decision \<times> quota_error option" where
  "Reserve settings quote now random fault input0 m =
     (let input = trimmed_input input0 in
      if riGroupID input = [] \<or> riTenantID input = [] \<or> riGatewayModel input = [] \<or>
         riEstimatedInputTokens input < 0 \<or> riEstimatedOutputTokens input < 0
      then (m, decision_zero, Some (QuotaError ''quota reservation input is invalid''))
      else if \<not> HasPolicy m (riTenantID input) (riGatewayModel input) then (m, decision_zero, None)
      else
        (case quota_add (riEstimatedInputTokens input) (riEstimatedOutputTokens input) of
           None \<Rightarrow> (m, decision_zero, Some (QuotaError ''quota token estimate overflow''))
         | Some totalTokens \<Rightarrow>
             (case transaction fault
                (reserve_body settings now input totalTokens (estimateCost quote input now) random (qmDB m)) (qmDB m) of
                (db', de, err) \<Rightarrow> (m\<lparr>qmDB := db'\<rparr>, de, err))))"

section \<open>Settling\<close>

definition actual_amounts :: "(usage_event \<Rightarrow> cost_result) \<Rightarrow> usage_event \<Rightarrow> quota_reservation \<Rightarrow> int \<times> int \<times> int" where
  "actual_amounts quote e r =
     (1, (case ueUsage e of Some u \<Rightarrow> tuTotal u | None \<Rightarrow> if ueAttempts e > 0 then qrTokensReserved r else 0),
      (case crSnapshot (quote e) of Some s \<Rightarrow> csTotalNanoUSD s | None \<Rightarrow> if ueAttempts e > 0 then qrCostReserved r else 0))"

definition unreserve :: "quota_reservation \<Rightarrow> quota_window \<Rightarrow> quota_window" where
  "unreserve r w = w\<lparr>qwRequestsReserved := wrap_int64 (qwRequestsReserved w - qrRequestsReserved r),
     qwTokensReserved := wrap_int64 (qwTokensReserved w - qrTokensReserved r),
     qwCostReserved := wrap_int64 (qwCostReserved w - qrCostReserved r)\<rparr>"

definition unsettle :: "quota_reservation \<Rightarrow> quota_window \<Rightarrow> quota_window" where
  "unsettle r w = w\<lparr>qwRequestsSettled := wrap_int64 (qwRequestsSettled w - qrRequestsReserved r),
     qwTokensSettled := wrap_int64 (qwTokensSettled w - qrTokensReserved r),
     qwCostSettled := wrap_int64 (qwCostSettled w - qrCostReserved r)\<rparr>"

definition add_settled :: "int \<times> int \<times> int \<Rightarrow> time \<Rightarrow> quota_window \<Rightarrow> quota_window" where
  "add_settled amounts now w =
     (case amounts of (requests, tokens, cost) \<Rightarrow>
        w\<lparr>qwRequestsSettled := wrap_int64 (qwRequestsSettled w + requests),
          qwTokensSettled := wrap_int64 (qwTokensSettled w + tokens),
          qwCostSettled := wrap_int64 (qwCostSettled w + cost), qwUpdatedAt := now\<rparr>)"

definition finish_reservation :: "reservation_state \<Rightarrow> int \<times> int \<times> int \<Rightarrow> time \<Rightarrow> quota_reservation \<Rightarrow> quota_reservation" where
  "finish_reservation st amounts now r =
     (case amounts of (requests, tokens, cost) \<Rightarrow>
        r\<lparr>qrState := st, qrRequestsActual := Some requests, qrTokensActual := Some tokens, qrCostActual := Some cost,
          qrSettledAt := Some now\<rparr>)"

definition settle_one :: "(usage_event \<Rightarrow> cost_result) \<Rightarrow> usage_event \<Rightarrow> time \<Rightarrow> quota_reservation \<Rightarrow> quota_db \<Rightarrow> quota_db" where
  "settle_one quote e now r db =
     (if qrState r = ReservationSettled then db
      else
        (case lockWindow (qrPolicyID r) (qrWindowStart r) now db of
           (db1, w) \<Rightarrow>
             (let amounts = actual_amounts quote e r;
                  w1 = (if qrState r = ReservationActive then unreserve r w else unsettle r w) in
              save_reservation (finish_reservation ReservationSettled amounts now r)
                (save_window (add_settled amounts now w1) db1))))"

definition Settle ::
  "(usage_event \<Rightarrow> cost_result) \<Rightarrow> time \<Rightarrow> quota_error option \<Rightarrow> string \<Rightarrow> usage_event \<Rightarrow> quota_manager \<Rightarrow>
     quota_manager \<times> quota_error option" where
  "Settle quote now fault groupID0 e m =
     (let groupID = trim_space groupID0 in
      if groupID = [] then (m, None)
      else
        (let db = qmDB m; rs = sort_key qrPolicyID (filter (\<lambda>r. qrGroupID r = groupID) (qdReservations db)) in
         case transaction fault ((), Inr (fold (settle_one quote e now) rs db)) db of
           (db', _, err) \<Rightarrow> (m\<lparr>qmDB := db'\<rparr>, err)))"

definition reserved_amounts :: "quota_reservation \<Rightarrow> int \<times> int \<times> int" where
  "reserved_amounts r = (qrRequestsReserved r, qrTokensReserved r, qrCostReserved r)"

definition reap_one :: "time \<Rightarrow> quota_reservation \<Rightarrow> quota_db \<Rightarrow> quota_db" where
  "reap_one now r db =
     (case lockWindow (qrPolicyID r) (qrWindowStart r) now db of
        (db1, w) \<Rightarrow>
          save_reservation (finish_reservation ReservationEstimated (reserved_amounts r) now r)
            (save_window (add_settled (reserved_amounts r) now (unreserve r w)) db1))"

text \<open>\<open>locked\<close> are the rows other transactions hold, which \<open>SKIP LOCKED\<close> leaves out.\<close>

definition expired :: "time \<Rightarrow> (string \<Rightarrow> bool) \<Rightarrow> quota_db \<Rightarrow> quota_reservation list" where
  "expired now locked db =
     sort_key qrExpiresAt
       (filter (\<lambda>r. qrState r = ReservationActive \<and> qrExpiresAt r \<le> now \<and> \<not> locked (qrID r)) (qdReservations db))"

definition ReapExpired ::
  "time \<Rightarrow> (string \<Rightarrow> bool) \<Rightarrow> quota_error option \<Rightarrow> int \<Rightarrow> quota_manager \<Rightarrow> quota_manager \<times> int \<times> quota_error option" where
  "ReapExpired now locked fault limit0 m =
     (let limit = (if limit0 \<le> 0 \<or> limit0 > 1000 then 100 else limit0);
          rs = take (nat limit) (expired now locked (qmDB m)) in
      case transaction fault (int (length rs), Inr (fold (reap_one now) rs (qmDB m))) (qmDB m) of
        (db', processed, err) \<Rightarrow> (m\<lparr>qmDB := db'\<rparr>, processed, err))"

section \<open>Listing the windows\<close>

record window_view =
  wvPolicyID :: string
  wvTenantID :: string
  wvGatewayModel :: string
  wvPeriod :: string
  wvWindowStart :: time
  wvRequestsSettled :: int
  wvRequestsReserved :: int
  wvTokensSettled :: int
  wvTokensReserved :: int
  wvCostSettledUSD :: string
  wvCostReservedUSD :: string
  wvUpdatedAt :: time

definition window_view_of :: "quota_policy \<Rightarrow> quota_window \<Rightarrow> window_view" where
  "window_view_of p w =
     \<lparr>wvPolicyID = qwPolicyID w, wvTenantID = qpTenantID p, wvGatewayModel = qpGatewayModel p, wvPeriod = qpPeriod p,
      wvWindowStart = qwWindowStart w, wvRequestsSettled = qwRequestsSettled w, wvRequestsReserved = qwRequestsReserved w,
      wvTokensSettled = qwTokensSettled w, wvTokensReserved = qwTokensReserved w,
      wvCostSettledUSD = formatUSD (qwCostSettled w), wvCostReservedUSD = formatUSD (qwCostReserved w),
      wvUpdatedAt = qwUpdatedAt w\<rparr>"

text \<open>The join of the windows with their policies, newest windows first.\<close>

definition ListWindows :: "quota_error option \<Rightarrow> string \<Rightarrow> int \<Rightarrow> quota_db \<Rightarrow> quota_error + window_view list" where
  "ListWindows fault tenantID limit0 db =
     (let limit = (if limit0 \<le> 0 then 100 else if limit0 > 500 then 500 else limit0);
          tenant = trim_space tenantID;
          rows = concat (map (\<lambda>(_, w). map (\<lambda>p. (p, w))
            (filter (\<lambda>p. qpID p = qwPolicyID w \<and> (tenant = [] \<or> qpTenantID p = tenant)) (qdPolicies db))) (qdWindows db)) in
      if fault \<noteq> None then Inl (QuotaError ''list quota windows'')
      else Inr (map (\<lambda>(p, w). window_view_of p w)
        (take (nat limit) (sort_key (\<lambda>(p, w). (- qwWindowStart w, qwPolicyID w)) rows))))"

section \<open>Bookkeeping\<close>

lemma wrap_int64_mod: "wrap_int64 a = wrap_int64 b \<longleftrightarrow> a mod 18446744073709551616 = b mod 18446744073709551616"
proof
  assume "wrap_int64 a = wrap_int64 b"
  then have "(a + 9223372036854775808) mod 18446744073709551616 = (b + 9223372036854775808) mod 18446744073709551616"
    by (simp add: wrap_int64_def)
  then have "(a + 9223372036854775808 - 9223372036854775808) mod 18446744073709551616 =
      (b + 9223372036854775808 - 9223372036854775808) mod 18446744073709551616"
    by (rule mod_diff_cong) simp
  then show "a mod 18446744073709551616 = b mod 18446744073709551616" by simp
next
  assume "a mod 18446744073709551616 = b mod 18446744073709551616"
  then have "(a + 9223372036854775808) mod 18446744073709551616 = (b + 9223372036854775808) mod 18446744073709551616"
    by (rule mod_add_cong) simp
  then show "wrap_int64 a = wrap_int64 b" by (simp add: wrap_int64_def)
qed

lemma wrap_mod: "wrap_int64 a mod 18446744073709551616 = a mod 18446744073709551616"
  using wrap_int64_mod [of "wrap_int64 a" a] wrap_int64_id [OF wrap_int64_range] by simp

lemma wrap_add: "wrap_int64 (wrap_int64 a + b) = wrap_int64 (a + b)"
  unfolding wrap_int64_mod using wrap_mod by (rule mod_add_cong) simp

lemma wrap_sub: "wrap_int64 (wrap_int64 a - b) = wrap_int64 (a - b)"
  unfolding wrap_int64_mod using wrap_mod by (rule mod_diff_cong) simp

lemma wrap_sub_add: "wrap_int64 (wrap_int64 a - b + c) = wrap_int64 (a - b + c)"
  using wrap_add [of a "c - b"] by (simp add: algebra_simps)

lemma quota_add_exact: "is_int64 a \<Longrightarrow> quota_add a b = Some c \<longleftrightarrow> is_int64 (a + b) \<and> c = a + b"
  by (auto simp: quota_add_def int64_defs)

text \<open>The three quantities of a window and of a reservation.\<close>

datatype dim = Requests | Tokens | Cost

fun win_reserved :: "dim \<Rightarrow> quota_window \<Rightarrow> int" where
  "win_reserved Requests w = qwRequestsReserved w"
| "win_reserved Tokens w = qwTokensReserved w"
| "win_reserved Cost w = qwCostReserved w"

fun win_settled :: "dim \<Rightarrow> quota_window \<Rightarrow> int" where
  "win_settled Requests w = qwRequestsSettled w"
| "win_settled Tokens w = qwTokensSettled w"
| "win_settled Cost w = qwCostSettled w"

fun part :: "dim \<Rightarrow> int \<times> int \<times> int \<Rightarrow> int" where
  "part Requests (r, t, c) = r"
| "part Tokens (r, t, c) = t"
| "part Cost (r, t, c) = c"

definition amount :: "int option \<Rightarrow> int" where
  "amount v = (case v of None \<Rightarrow> 0 | Some n \<Rightarrow> n)"

definition actual_of :: "quota_reservation \<Rightarrow> int \<times> int \<times> int" where
  "actual_of r = (amount (qrRequestsActual r), amount (qrTokensActual r), amount (qrCostActual r))"

definition res_key :: "quota_reservation \<Rightarrow> string \<times> time" where
  "res_key r = (qrPolicyID r, qrWindowStart r)"

text \<open>What a reservation adds to the reserved and to the settled amount of a window.\<close>

definition reserved_in :: "dim \<Rightarrow> string \<times> time \<Rightarrow> quota_reservation \<Rightarrow> int" where
  "reserved_in d k r = (if res_key r = k \<and> qrState r = ReservationActive then part d (reserved_amounts r) else 0)"

definition settled_in :: "dim \<Rightarrow> string \<times> time \<Rightarrow> quota_reservation \<Rightarrow> int" where
  "settled_in d k r = (if res_key r = k \<and> qrState r \<noteq> ReservationActive then part d (actual_of r) else 0)"

definition window_at :: "quota_db \<Rightarrow> string \<times> time \<Rightarrow> quota_window" where
  "window_at db k = (case map_of (qdWindows db) k of Some w \<Rightarrow> w | None \<Rightarrow> new_window (fst k) (snd k) 0)"

definition total_reserved :: "quota_db \<Rightarrow> dim \<Rightarrow> string \<times> time \<Rightarrow> int" where
  "total_reserved db d k = sum_list (map (reserved_in d k) (qdReservations db))"

definition total_settled :: "quota_db \<Rightarrow> dim \<Rightarrow> string \<times> time \<Rightarrow> int" where
  "total_settled db d k = sum_list (map (settled_in d k) (qdReservations db))"

definition ledger_ok :: "quota_db \<Rightarrow> bool" where
  "ledger_ok db \<longleftrightarrow>
     distinct (map qrID (qdReservations db)) \<and>
     (\<forall>r \<in> set (qdReservations db). qrState r = ReservationEstimated \<longrightarrow> actual_of r = reserved_amounts r) \<and>
     (\<forall>k. (qwPolicyID (window_at db k), qwWindowStart (window_at db k)) = k) \<and>
     (\<forall>d k. win_reserved d (window_at db k) = wrap_int64 (total_reserved db d k)) \<and>
     (\<forall>d k. win_settled d (window_at db k) = wrap_int64 (total_settled db d k))"

lemma ledger_okD:
  assumes "ledger_ok db"
  shows "distinct (map qrID (qdReservations db))"
    and "r \<in> set (qdReservations db) \<Longrightarrow> qrState r = ReservationEstimated \<Longrightarrow> actual_of r = reserved_amounts r"
    and "(qwPolicyID (window_at db k), qwWindowStart (window_at db k)) = k"
    and "win_reserved d (window_at db k) = wrap_int64 (total_reserved db d k)"
    and "win_settled d (window_at db k) = wrap_int64 (total_settled db d k)"
  using assms unfolding ledger_ok_def by blast+

lemma new_window_dims [simp]: "win_reserved d (new_window a b c) = 0" "win_settled d (new_window a b c) = 0"
  by (cases d; simp add: new_window_def)+

lemma lockWindow_at:
  assumes "lockWindow p s now db = (db1, w)"
  shows "qdReservations db1 = qdReservations db" "qdPolicies db1 = qdPolicies db"
    "\<And>d k. win_reserved d (window_at db1 k) = win_reserved d (window_at db k)"
    "\<And>d k. win_settled d (window_at db1 k) = win_settled d (window_at db k)"
    "\<And>d. win_reserved d w = win_reserved d (window_at db (p, s))"
    "\<And>d. win_settled d w = win_settled d (window_at db (p, s))"
    "\<And>k. (qwPolicyID (window_at db k), qwWindowStart (window_at db k)) = k \<Longrightarrow>
       (qwPolicyID (window_at db1 k), qwWindowStart (window_at db1 k)) = k"
    "(qwPolicyID (window_at db (p, s)), qwWindowStart (window_at db (p, s))) = (p, s) \<Longrightarrow> (qwPolicyID w, qwWindowStart w) = (p, s)"
proof -
  show "qdReservations db1 = qdReservations db" "qdPolicies db1 = qdPolicies db"
    "\<And>d k. win_reserved d (window_at db1 k) = win_reserved d (window_at db k)"
    "\<And>d k. win_settled d (window_at db1 k) = win_settled d (window_at db k)"
    "\<And>d. win_reserved d w = win_reserved d (window_at db (p, s))"
    "\<And>d. win_settled d w = win_settled d (window_at db (p, s))"
    "\<And>k. (qwPolicyID (window_at db k), qwWindowStart (window_at db k)) = k \<Longrightarrow>
       (qwPolicyID (window_at db1 k), qwWindowStart (window_at db1 k)) = k"
    "(qwPolicyID (window_at db (p, s)), qwWindowStart (window_at db (p, s))) = (p, s) \<Longrightarrow> (qwPolicyID w, qwWindowStart w) = (p, s)"
    using assms by (auto simp: lockWindow_def window_at_def Let_def update_conv' split: option.splits if_splits)
      (auto simp: new_window_def split: if_splits)
qed

lemma window_at_save: "window_at (save_window w db) k = (if k = (qwPolicyID w, qwWindowStart w) then w else window_at db k)"
  by (simp add: window_at_def save_window_def update_conv')

lemma window_at_reservation [simp]: "window_at (db\<lparr>qdReservations := rs\<rparr>) k = window_at db k"
  by (simp add: window_at_def)

lemma save_window_reservations [simp]: "qdReservations (save_window w db) = qdReservations db"
  by (simp add: save_window_def)

lemma save_ids: "map qrID (map (\<lambda>q. if qrID q = qrID r then r else q) rs) = map qrID rs"
  by (induction rs) auto

lemma save_sum:
  fixes g :: "quota_reservation \<Rightarrow> int"
  assumes "distinct (map qrID rs)" "r \<in> set rs" "qrID r' = qrID r"
  shows "sum_list (map g (map (\<lambda>q. if qrID q = qrID r' then r' else q) rs)) = sum_list (map g rs) - g r + g r'"
  using assms
proof (induction rs)
  case (Cons q rs)
  show ?case
  proof (cases "q = r")
    case True
    with Cons.prems have "map (\<lambda>q. if qrID q = qrID r' then r' else q) rs = rs"
      by (intro map_idI) (auto simp: image_iff)
    with True Cons.prems(3) show ?thesis by simp
  next
    case False
    with Cons.prems have "qrID q \<noteq> qrID r" "r \<in> set rs" by auto
    with Cons show ?thesis by simp
  qed
qed simp

lemma ledger_update:
  assumes ok: "ledger_ok db" and r: "r \<in> set (qdReservations db)"
    and lock: "lockWindow (qrPolicyID r) (qrWindowStart r) now db = (db1, w)"
    and r': "qrID r' = qrID r" "res_key r' = res_key r"
    and w': "(qwPolicyID w', qwWindowStart w') = (qwPolicyID w, qwWindowStart w)"
    and est: "qrState r' = ReservationEstimated \<Longrightarrow> actual_of r' = reserved_amounts r'"
    and reserved: "\<And>d. win_reserved d w' =
      wrap_int64 (win_reserved d w - reserved_in d (res_key r) r + reserved_in d (res_key r) r')"
    and settled: "\<And>d. win_settled d w' =
      wrap_int64 (win_settled d w - settled_in d (res_key r) r + settled_in d (res_key r) r')"
  shows "ledger_ok (save_reservation r' (save_window w' db1))"
proof -
  let ?db = "save_reservation r' (save_window w' db1)" and ?k = "res_key r"
  note lw = lockWindow_at [OF lock]
  have k: "?k = (qrPolicyID r, qrWindowStart r)" by (simp add: res_key_def)
  have rs: "qdReservations ?db = map (\<lambda>q. if qrID q = qrID r' then r' else q) (qdReservations db)"
    by (simp add: save_reservation_def lw(1))
  have keys: "(qwPolicyID (window_at db j), qwWindowStart (window_at db j)) = j" for j
    using ok by (rule ledger_okD)
  have wk: "(qwPolicyID w, qwWindowStart w) = ?k" using lw(8) keys k by simp
  have win: "window_at ?db j = (if j = ?k then w' else window_at db1 j)" for j
    using w' wk by (auto simp: save_reservation_def window_at_save)
  have dist: "distinct (map qrID (qdReservations db))" using ok by (simp add: ledger_ok_def)
  have sum: "sum_list (map g (qdReservations ?db)) = sum_list (map g (qdReservations db)) - g r + g r'"
    for g :: "quota_reservation \<Rightarrow> int"
    unfolding rs by (rule save_sum [OF dist r r'(1)])
  have other: "reserved_in d j r = 0" "reserved_in d j r' = 0" "settled_in d j r = 0" "settled_in d j r' = 0"
    if "j \<noteq> ?k" for d j
    using that r'(2) by (simp_all add: reserved_in_def settled_in_def)
  have "win_reserved d (window_at ?db j) = wrap_int64 (total_reserved ?db d j)" for d j
  proof -
    have "win_reserved d (window_at db j) = wrap_int64 (total_reserved db d j)" using ok by (rule ledger_okD)
    then show ?thesis
      using reserved [of d] lw(3) [of d j] lw(5) [of d] other [of j d] k
      by (cases "j = ?k") (simp_all add: win total_reserved_def sum wrap_sub_add)
  qed
  moreover have "win_settled d (window_at ?db j) = wrap_int64 (total_settled ?db d j)" for d j
  proof -
    have "win_settled d (window_at db j) = wrap_int64 (total_settled db d j)" using ok by (rule ledger_okD)
    then show ?thesis
      using settled [of d] lw(4) [of d j] lw(6) [of d] other [of j d] k
      by (cases "j = ?k") (simp_all add: win total_settled_def sum wrap_sub_add)
  qed
  moreover have "(qwPolicyID (window_at ?db j), qwWindowStart (window_at ?db j)) = j" for j
    using lw(7) [OF keys] w' wk by (auto simp: win)
  moreover have "distinct (map qrID (qdReservations ?db))" using dist by (simp only: rs save_ids)
  moreover have "\<forall>q \<in> set (qdReservations ?db). qrState q = ReservationEstimated \<longrightarrow> actual_of q = reserved_amounts q"
    using ok est unfolding rs by (auto simp: ledger_ok_def)
  ultimately show ?thesis by (simp add: ledger_ok_def)
qed

lemma dim_updates:
  "win_reserved d (unreserve r w) = wrap_int64 (win_reserved d w - part d (reserved_amounts r))"
  "win_settled d (unreserve r w) = win_settled d w"
  "win_settled d (unsettle r w) = wrap_int64 (win_settled d w - part d (reserved_amounts r))"
  "win_reserved d (unsettle r w) = win_reserved d w"
  "win_settled d (add_settled a now w) = wrap_int64 (win_settled d w + part d a)"
  "win_reserved d (add_settled a now w) = win_reserved d w"
  by (cases d; cases a; simp add: unreserve_def unsettle_def add_settled_def reserved_amounts_def)+

lemma window_names:
  "qwPolicyID (unreserve r w) = qwPolicyID w" "qwWindowStart (unreserve r w) = qwWindowStart w"
  "qwPolicyID (unsettle r w) = qwPolicyID w" "qwWindowStart (unsettle r w) = qwWindowStart w"
  "qwPolicyID (add_settled a now w) = qwPolicyID w" "qwWindowStart (add_settled a now w) = qwWindowStart w"
  by (simp_all add: unreserve_def unsettle_def add_settled_def split: prod.split)

lemma finish_fields:
  "qrID (finish_reservation st a now r) = qrID r" "res_key (finish_reservation st a now r) = res_key r"
  "qrState (finish_reservation st a now r) = st" "actual_of (finish_reservation st a now r) = a"
  "reserved_amounts (finish_reservation st a now r) = reserved_amounts r"
  "qrGroupID (finish_reservation st a now r) = qrGroupID r"
  by (simp_all add: finish_reservation_def res_key_def actual_of_def amount_def reserved_amounts_def split: prod.split)

lemma wrap_reserved: "ledger_ok db \<Longrightarrow> lockWindow p s now db = (db1, w) \<Longrightarrow> wrap_int64 (win_reserved d w) = win_reserved d w"
  using lockWindow_at(5) [of p s now db db1 w d] wrap_int64_id [OF wrap_int64_range] ledger_okD(4) [of db d "(p, s)"] by simp

lemma settle_one_ok:
  assumes "ledger_ok db" "r \<in> set (qdReservations db)"
  shows "ledger_ok (settle_one quote e now r db)"
proof (cases "qrState r = ReservationSettled")
  case False
  obtain db1 w where lock: "lockWindow (qrPolicyID r) (qrWindowStart r) now db = (db1, w)" by fastforce
  let ?a = "actual_amounts quote e r"
  let ?w = "add_settled ?a now (if qrState r = ReservationActive then unreserve r w else unsettle r w)"
  have est: "actual_of r = reserved_amounts r" if "qrState r = ReservationEstimated"
    using assms that by (auto simp: ledger_ok_def)
  have "ledger_ok (save_reservation (finish_reservation ReservationSettled ?a now r) (save_window ?w db1))"
  proof (rule ledger_update [OF assms lock])
    show "win_reserved d ?w = wrap_int64 (win_reserved d w - reserved_in d (res_key r) r +
        reserved_in d (res_key r) (finish_reservation ReservationSettled ?a now r))" for d
      using False wrap_reserved [OF assms(1) lock, of d]
      by (simp add: dim_updates reserved_in_def finish_fields)
    show "win_settled d ?w = wrap_int64 (win_settled d w - settled_in d (res_key r) r +
        settled_in d (res_key r) (finish_reservation ReservationSettled ?a now r))" for d
      using False est by (cases "qrState r") (simp_all add: dim_updates settled_in_def finish_fields wrap_add wrap_sub_add)
  qed (simp_all add: finish_fields window_names)
  with False lock show ?thesis by (simp add: settle_one_def Let_def)
qed (use assms in \<open>simp add: settle_one_def\<close>)

lemma reap_one_ok:
  assumes "ledger_ok db" "r \<in> set (qdReservations db)" "qrState r = ReservationActive"
  shows "ledger_ok (reap_one now r db)"
proof -
  obtain db1 w where lock: "lockWindow (qrPolicyID r) (qrWindowStart r) now db = (db1, w)" by fastforce
  let ?w = "add_settled (reserved_amounts r) now (unreserve r w)"
  have "ledger_ok (save_reservation (finish_reservation ReservationEstimated (reserved_amounts r) now r) (save_window ?w db1))"
    by (rule ledger_update [OF assms(1,2) lock])
      (simp_all add: finish_fields window_names dim_updates reserved_in_def settled_in_def assms(3))
  with lock show ?thesis by (simp add: reap_one_def)
qed

lemma settle_one_reservations:
  "qdReservations (settle_one quote e now r db) =
     (if qrState r = ReservationSettled then qdReservations db
      else map (\<lambda>q. if qrID q = qrID r then finish_reservation ReservationSettled (actual_amounts quote e r) now r else q)
             (qdReservations db))"
  using lockWindow_at(1) by (auto simp: settle_one_def save_reservation_def finish_fields Let_def split: prod.split)

lemma reap_one_reservations:
  "qdReservations (reap_one now r db) =
     map (\<lambda>q. if qrID q = qrID r then finish_reservation ReservationEstimated (reserved_amounts r) now r else q) (qdReservations db)"
  using lockWindow_at(1) by (auto simp: reap_one_def save_reservation_def finish_fields Let_def split: prod.split)

text \<open>
  A pass over reservations read before it, the way \<open>Settle\<close> and \<open>ReapExpired\<close> make one: each step
  keeps the books and finishes its own row, so every row is still there when its turn comes.
\<close>

locale reservation_pass =
  fixes f :: "quota_reservation \<Rightarrow> quota_db \<Rightarrow> quota_db"
    and finish :: "quota_reservation \<Rightarrow> quota_reservation"
    and P :: "quota_reservation \<Rightarrow> bool"
  assumes pass_ok: "ledger_ok db \<Longrightarrow> r \<in> set (qdReservations db) \<Longrightarrow> P r \<Longrightarrow> ledger_ok (f r db)"
    and pass_rows: "ledger_ok db \<Longrightarrow> r \<in> set (qdReservations db) \<Longrightarrow> P r \<Longrightarrow>
      qdReservations (f r db) = map (\<lambda>q. if q = r then finish r else q) (qdReservations db)"
    and finish_id: "qrID (finish r) = qrID r"
begin

lemma fold_pass:
  "ledger_ok db \<Longrightarrow> distinct (map qrID rs) \<Longrightarrow> \<forall>r \<in> set rs. r \<in> set (qdReservations db) \<and> P r \<Longrightarrow>
     ledger_ok (fold f rs db) \<and>
     qdReservations (fold f rs db) = map (\<lambda>q. if q \<in> set rs then finish q else q) (qdReservations db)"
proof (induction rs arbitrary: db)
  case (Cons r rs)
  have r: "r \<in> set (qdReservations db)" "P r" using Cons.prems(3) by simp_all
  note ok = pass_ok [OF Cons.prems(1) r] and rows = pass_rows [OF Cons.prems(1) r]
  have fresh: "r \<notin> set rs" "finish r \<notin> set rs"
    using Cons.prems(2) finish_id [of r] by (auto simp: image_iff)
  have "\<forall>q \<in> set rs. q \<in> set (qdReservations (f r db)) \<and> P q"
    using Cons.prems(3) fresh(1) by (auto simp: rows image_iff)
  with Cons.IH [OF ok] Cons.prems(2) fresh show ?case by (simp add: rows)
qed simp

end

lemma ids_inj: "ledger_ok db \<Longrightarrow> r \<in> set (qdReservations db) \<Longrightarrow> q \<in> set (qdReservations db) \<Longrightarrow> qrID q = qrID r \<longleftrightarrow> q = r"
  using ledger_okD(1) [of db] by (auto simp: distinct_map inj_on_def)

definition settled_row :: "(usage_event \<Rightarrow> cost_result) \<Rightarrow> usage_event \<Rightarrow> time \<Rightarrow> quota_reservation \<Rightarrow> quota_reservation" where
  "settled_row quote e now r =
     (if qrState r = ReservationSettled then r
      else finish_reservation ReservationSettled (actual_amounts quote e r) now r)"

definition reaped_row :: "time \<Rightarrow> quota_reservation \<Rightarrow> quota_reservation" where
  "reaped_row now r = finish_reservation ReservationEstimated (reserved_amounts r) now r"

lemma settle_one_rows:
  assumes "ledger_ok db" "r \<in> set (qdReservations db)"
  shows "qdReservations (settle_one quote e now r db) =
    map (\<lambda>q. if q = r then settled_row quote e now r else q) (qdReservations db)"
proof (cases "qrState r = ReservationSettled")
  case True
  then have "map (\<lambda>q. if q = r then settled_row quote e now r else q) (qdReservations db) = qdReservations db"
    by (simp add: settled_row_def map_idI)
  with True show ?thesis by (simp add: settle_one_reservations)
next
  case False
  with assms show ?thesis by (simp add: settle_one_reservations settled_row_def ids_inj)
qed

interpretation settle_pass: reservation_pass "settle_one quote e now" "settled_row quote e now" "\<lambda>r. True"
  by unfold_locales (simp_all add: settle_one_ok settle_one_rows settled_row_def finish_fields)

interpretation reap_pass: reservation_pass "reap_one now" "reaped_row now" "\<lambda>r. qrState r = ReservationActive"
  by unfold_locales (simp_all add: reap_one_ok reap_one_reservations reaped_row_def finish_fields ids_inj)

lemma distinct_ids_subset:
  "distinct (map qrID rs) \<Longrightarrow> distinct (map qrID (sort_key g (filter Q rs)))"
  by (simp add: distinct_map inj_on_def)

lemma distinct_ids_take: "distinct (map qrID rs) \<Longrightarrow> distinct (map qrID (take n rs))"
  by (metis distinct_take take_map)

lemma settle_fold:
  assumes "ledger_ok db"
  shows "ledger_ok (fold (settle_one quote e now) (sort_key qrPolicyID (filter Q (qdReservations db))) db)"
    and "qdReservations (fold (settle_one quote e now) (sort_key qrPolicyID (filter Q (qdReservations db))) db) =
      map (\<lambda>r. if Q r then settled_row quote e now r else r) (qdReservations db)"
  using settle_pass.fold_pass [OF assms distinct_ids_subset [OF ledger_okD(1) [OF assms]], of qrPolicyID Q] by simp_all

lemma reap_fold:
  assumes "ledger_ok db"
  shows "ledger_ok (fold (reap_one now) (take n (expired now locked db)) db)"
    and "qdReservations (fold (reap_one now) (take n (expired now locked db)) db) =
      map (\<lambda>r. if r \<in> set (take n (expired now locked db)) then reaped_row now r else r) (qdReservations db)"
proof -
  have "distinct (map qrID (take n (expired now locked db)))"
    unfolding expired_def using ledger_okD(1) [OF assms] by (intro distinct_ids_take distinct_ids_subset)
  moreover have "\<forall>r \<in> set (take n (expired now locked db)). r \<in> set (qdReservations db) \<and> qrState r = ReservationActive"
    by (auto simp: expired_def dest!: in_set_takeD)
  ultimately show "ledger_ok (fold (reap_one now) (take n (expired now locked db)) db)"
    "qdReservations (fold (reap_one now) (take n (expired now locked db)) db) =
      map (\<lambda>r. if r \<in> set (take n (expired now locked db)) then reaped_row now r else r) (qdReservations db)"
    using reap_pass.fold_pass [OF assms] by simp_all
qed

lemma Settle_ok: "ledger_ok (qmDB m) \<Longrightarrow> ledger_ok (qmDB (fst (Settle quote now fault g e m)))"
  by (simp add: Settle_def transaction_def Let_def settle_fold split: option.split)

lemma ReapExpired_ok: "ledger_ok (qmDB m) \<Longrightarrow> ledger_ok (qmDB (fst (ReapExpired now locked fault limit m)))"
  by (simp add: ReapExpired_def transaction_def Let_def reap_fold split: option.split)

lemma reserve_policy_cases:
  assumes "reserve_policy settings now g tot est random p de db = (de', Inr db')"
  obtains db1 w cost exceeded tr cr r where
    "lockWindow (qpID p) (periodStart now (qpPeriod p)) now db = (db1, w)"
    "cost = (if qpBudgetNanoUSD p \<noteq> None \<and> snd est then fst est else 0)"
    "exceeded = exceeds p w 1 tot cost"
    "\<not> (exceeded \<and> qpOveragePolicy p = QuotaOverageDeny)"
    "quota_add (qwTokensReserved w) tot = Some tr" "quota_add (qwCostReserved w) cost = Some cr"
    "res_key r = (qpID p, periodStart now (qpPeriod p))" "qrState r = ReservationActive"
    "reserved_amounts r = (1, tot, cost)" "qrGroupID r = g" "qrPolicyID r = qpID p" "qrExceeded r = exceeded"
    "qrID r \<notin> qrID ` set (qdReservations db)"
    "db' = (save_window (w\<lparr>qwRequestsReserved := wrap_int64 (qwRequestsReserved w + 1), qwTokensReserved := tr,
        qwCostReserved := cr, qwUpdatedAt := now\<rparr>) db1)\<lparr>qdReservations := qdReservations db @ [r]\<rparr>"
proof -
  obtain db1 w where lock: "lockWindow (qpID p) (periodStart now (qpPeriod p)) now db = (db1, w)" by fastforce
  define cost where "cost = (if qpBudgetNanoUSD p \<noteq> None \<and> snd est then fst est else 0)"
  define exceeded where "exceeded = exceeds p w 1 tot cost"
  note run = assms [unfolded reserve_policy_def Let_def, folded cost_def, unfolded lock prod.case, folded exceeded_def]
  have deny: "\<not> (exceeded \<and> qpOveragePolicy p = QuotaOverageDeny)"
    using run by (auto split: if_split_asm)
  from run obtain tr cr bytes where add: "quota_add (qwTokensReserved w) tot = Some tr" "quota_add (qwCostReserved w) cost = Some cr"
    and create: "create_reservation (new_reservation settings now bytes g p tot cost exceeded)
      (save_window (w\<lparr>qwRequestsReserved := wrap_int64 (qwRequestsReserved w + 1), qwTokensReserved := tr,
        qwCostReserved := cr, qwUpdatedAt := now\<rparr>) db1) = Inr db'"
    by (auto split: if_split_asm option.split_asm)
  let ?r = "new_reservation settings now bytes g p tot cost exceeded"
  have "res_key ?r = (qpID p, periodStart now (qpPeriod p))" "qrState ?r = ReservationActive"
    "reserved_amounts ?r = (1, tot, cost)" "qrGroupID ?r = g" "qrPolicyID ?r = qpID p" "qrExceeded ?r = exceeded"
    by (simp_all add: new_reservation_def res_key_def reserved_amounts_def)
  moreover have "qrID ?r \<notin> qrID ` set (qdReservations db)"
    "db' = (save_window (w\<lparr>qwRequestsReserved := wrap_int64 (qwRequestsReserved w + 1), qwTokensReserved := tr,
        qwCostReserved := cr, qwUpdatedAt := now\<rparr>) db1)\<lparr>qdReservations := qdReservations db @ [?r]\<rparr>"
    using create lockWindow_at(1) [OF lock] by (auto simp: create_reservation_def list_ex_iff image_iff split: if_split_asm)
  ultimately show ?thesis using that [OF lock cost_def exceeded_def deny add] by blast
qed

lemma reserve_policy_ok:
  assumes ok: "ledger_ok db" and run: "reserve_policy settings now g tot est random p de db = (de', Inr db')"
  shows "ledger_ok db'"
proof -
  from run obtain db1 w cost exceeded tr cr r where
    lock: "lockWindow (qpID p) (periodStart now (qpPeriod p)) now db = (db1, w)"
    and add: "quota_add (qwTokensReserved w) tot = Some tr" "quota_add (qwCostReserved w) cost = Some cr"
    and r: "res_key r = (qpID p, periodStart now (qpPeriod p))" "qrState r = ReservationActive"
      "reserved_amounts r = (1, tot, cost)" "qrID r \<notin> qrID ` set (qdReservations db)"
    and db': "db' = (save_window (w\<lparr>qwRequestsReserved := wrap_int64 (qwRequestsReserved w + 1), qwTokensReserved := tr,
        qwCostReserved := cr, qwUpdatedAt := now\<rparr>) db1)\<lparr>qdReservations := qdReservations db @ [r]\<rparr>"
    by (rule reserve_policy_cases)
  let ?k = "(qpID p, periodStart now (qpPeriod p))"
  let ?w = "w\<lparr>qwRequestsReserved := wrap_int64 (qwRequestsReserved w + 1), qwTokensReserved := tr,
        qwCostReserved := cr, qwUpdatedAt := now\<rparr>"
  note lw = lockWindow_at [OF lock]
  have wk: "(qwPolicyID w, qwWindowStart w) = ?k" using lw(8) ledger_okD(3) [OF ok] by simp
  have win: "window_at db' j = (if j = ?k then ?w else window_at db1 j)" for j
    using wk by (auto simp: db' window_at_save)
  have rs: "qdReservations db' = qdReservations db @ [r]" by (simp add: db')
  have int64: "is_int64 (win_reserved d w)" for d
    using lw(5) [of d] ledger_okD(4) [OF ok, of d ?k] by (simp add: wrap_int64_range)
  have new: "win_reserved d ?w = wrap_int64 (win_reserved d w + part d (reserved_amounts r))" for d
    using add int64 [of Tokens] int64 [of Cost] wrap_int64_id
    by (cases d) (auto simp: r(3) quota_add_exact)
  have "win_reserved d (window_at db' j) = wrap_int64 (total_reserved db' d j)" for d j
    using new [of d] lw(3) [of d j] lw(5) [of d] ledger_okD(4) [OF ok, of d j] r(1,2)
    by (cases "j = ?k") (auto simp: win total_reserved_def rs reserved_in_def wrap_add)
  moreover have "win_settled d (window_at db' j) = wrap_int64 (total_settled db' d j)" for d j
    using lw(4) [of d j] lw(6) [of d] ledger_okD(5) [OF ok, of d j] r(2)
    by (cases "j = ?k"; cases d) (simp_all add: win total_settled_def rs settled_in_def)
  moreover have "(qwPolicyID (window_at db' j), qwWindowStart (window_at db' j)) = j" for j
    using lw(7) [OF ledger_okD(3) [OF ok]] wk by (auto simp: win)
  moreover have "distinct (map qrID (qdReservations db'))" using ledger_okD(1) [OF ok] r(4) by (simp add: rs)
  moreover have "\<forall>q \<in> set (qdReservations db'). qrState q = ReservationEstimated \<longrightarrow> actual_of q = reserved_amounts q"
    using ledger_okD(2) [OF ok] r(2) by (auto simp: rs)
  ultimately show ?thesis by (simp add: ledger_ok_def)
qed

lemma reserve_policies_ok:
  "reserve_policies settings now g tot est random i ps de db = (de', Inr db') \<Longrightarrow> ledger_ok db \<Longrightarrow> ledger_ok db'"
  by (induction ps arbitrary: i de db) (auto split: prod.split_asm sum.split_asm dest: reserve_policy_ok)

lemma Reserve_ok: "ledger_ok (qmDB m) \<Longrightarrow> ledger_ok (qmDB (fst (Reserve settings quote now random fault input m)))"
proof -
  assume ok: "ledger_ok (qmDB m)"
  have body: "ledger_ok db'" if "reserve_body settings now i tot est random (qmDB m) = (de, Inr db')" for i tot est de db'
    using that ok by (auto simp: reserve_body_def Let_def split: if_split_asm dest: reserve_policies_ok)
  have "ledger_ok (fst (transaction fault (reserve_body settings now i tot est random (qmDB m)) (qmDB m)))" for i tot est
    using body ok by (auto simp: transaction_def split: prod.split sum.split option.split)
  then show ?thesis
    using ok by (auto simp: Reserve_def Let_def split_beta split: option.split)
qed

end
