(* ===== verification/QuotaRuns.thy ===== *)
theory QuotaRuns
  imports QuotaLedger
begin

text \<open>
  Runs of the quota manager: the calls the gateway makes on it as steps, the states they reach,
  and what holds in all of them: the books balance, the index agrees with the policies table,
  an admitted call stays within the limits, settling is final, reaping loses nothing.
\<close>

section \<open>Runs of the manager\<close>

text \<open>The calls of the gateway, with what the environment decides for each of them.\<close>

datatype quota_op =
    OpCreate "string option" time "quota_error option" policy_input string "mutation_meta option"
  | OpUpdate time "quota_error option" string uint64 policy_input string "mutation_meta option"
  | OpLoad "quota_error option"
  | OpReserve time "nat \<Rightarrow> string option" "quota_error option" reserve_input
  | OpSettle time "quota_error option" string usage_event
  | OpReap time "string \<Rightarrow> bool" "quota_error option" int

fun quota_step ::
  "quota_settings \<Rightarrow> (string \<Rightarrow> rat option) \<Rightarrow> (usage_event \<Rightarrow> cost_result) \<Rightarrow> quota_op \<Rightarrow> quota_manager \<Rightarrow> quota_manager" where
  "quota_step s ss quote (OpCreate random now fault input actor meta) m = fst (createPolicy ss random now fault input actor meta m)"
| "quota_step s ss quote (OpUpdate now fault i v input actor meta) m = fst (updatePolicy ss now fault i v input actor meta m)"
| "quota_step s ss quote (OpLoad fault) m = fst (LoadPolicyIndex fault m)"
| "quota_step s ss quote (OpReserve now random fault input) m = fst (Reserve s quote now random fault input m)"
| "quota_step s ss quote (OpSettle now fault g e) m = fst (Settle quote now fault g e m)"
| "quota_step s ss quote (OpReap now locked fault limit) m = fst (ReapExpired now locked fault limit m)"

inductive quota_reachable ::
  "quota_settings \<Rightarrow> (string \<Rightarrow> rat option) \<Rightarrow> (usage_event \<Rightarrow> cost_result) \<Rightarrow> quota_manager \<Rightarrow> bool"
  for s ss quote where
  initial: "quota_reachable s ss quote
    \<lparr>qmDB = \<lparr>qdTenants = tenants, qdPolicies = [], qdWindows = [], qdReservations = [], qdAudit = []\<rparr>, qmIndex = newPolicyIndex\<rparr>"
| step: "quota_reachable s ss quote m \<Longrightarrow> quota_reachable s ss quote (quota_step s ss quote op m)"

definition quota_ok :: "quota_manager \<Rightarrow> bool" where
  "quota_ok m \<longleftrightarrow> ledger_ok (qmDB m) \<and> policies_ok m"

lemma ledger_ok_cong:
  "qdWindows db' = qdWindows db \<Longrightarrow> qdReservations db' = qdReservations db \<Longrightarrow> ledger_ok db' = ledger_ok db"
  by (simp add: ledger_ok_def window_at_def total_reserved_def total_settled_def)

text \<open>The ledger calls leave the policies and the index alone.\<close>

lemma lockWindow_policies [simp]: "qdPolicies (fst (lockWindow p s now db)) = qdPolicies db"
  by (simp add: lockWindow_def Let_def split: option.split)

lemma ledger_policies [simp]:
  "qdPolicies (save_window w db) = qdPolicies db" "qdPolicies (save_reservation r db) = qdPolicies db"
  "qdPolicies (settle_one quote e now r db) = qdPolicies db" "qdPolicies (reap_one now r db) = qdPolicies db"
proof -
  show 1: "qdPolicies (save_window w db) = qdPolicies db" "qdPolicies (save_reservation r db) = qdPolicies db" for w r db
    by (simp_all add: save_window_def save_reservation_def)
  show "qdPolicies (settle_one quote e now r db) = qdPolicies db" "qdPolicies (reap_one now r db) = qdPolicies db"
    by (simp_all add: settle_one_def reap_one_def Let_def 1 split_beta)
qed

lemma fold_policies: "(\<And>r db. qdPolicies (f r db) = qdPolicies db) \<Longrightarrow> qdPolicies (fold f rs db) = qdPolicies db"
  by (induction rs arbitrary: db) auto

lemma reserve_policy_policies:
  "reserve_policy settings now g tot est random p de db = (de', Inr db') \<Longrightarrow> qdPolicies db' = qdPolicies db"
  by (erule reserve_policy_cases) (auto dest: lockWindow_at(2))

lemma reserve_policies_policies:
  "reserve_policies settings now g tot est random i ps de db = (de', Inr db') \<Longrightarrow> qdPolicies db' = qdPolicies db"
  by (induction ps arbitrary: i de db) (auto split: prod.split_asm sum.split_asm dest: reserve_policy_policies)

lemma transaction_policies:
  "(\<And>x db'. body = (x, Inr db') \<Longrightarrow> qdPolicies db' = qdPolicies db) \<Longrightarrow> qdPolicies (fst (transaction fault body db)) = qdPolicies db"
  by (auto simp: transaction_def split: prod.split sum.split option.split)

lemma fold_transaction_policies:
  "(\<And>r db. qdPolicies (f r db) = qdPolicies db) \<Longrightarrow>
     qdPolicies (fst (transaction fault (x, Inr (fold f rs db)) db)) = qdPolicies db"
  by (rule transaction_policies) (auto simp: fold_policies)

lemma Reserve_policies:
  "qdPolicies (qmDB (fst (Reserve s quote now random fault input m))) = qdPolicies (qmDB m) \<and>
   qmIndex (fst (Reserve s quote now random fault input m)) = qmIndex m"
proof -
  have "qdPolicies (fst (transaction fault (reserve_body s now i tot est random (qmDB m)) (qmDB m))) = qdPolicies (qmDB m)" for i tot est
    by (rule transaction_policies) (auto simp: reserve_body_def Let_def split: if_split_asm dest: reserve_policies_policies)
  then show ?thesis by (auto simp: Reserve_def Let_def split_beta split: option.split)
qed

lemma Settle_policies:
  "qdPolicies (qmDB (fst (Settle quote now fault g e m))) = qdPolicies (qmDB m) \<and>
   qmIndex (fst (Settle quote now fault g e m)) = qmIndex m"
  by (auto simp: Settle_def Let_def split_beta fold_transaction_policies)

lemma ReapExpired_policies:
  "qdPolicies (qmDB (fst (ReapExpired now locked fault limit m))) = qdPolicies (qmDB m) \<and>
   qmIndex (fst (ReapExpired now locked fault limit m)) = qmIndex m"
  by (auto simp: ReapExpired_def Let_def split_beta fold_transaction_policies)

lemma policies_ok_cong:
  "qdPolicies (qmDB m') = qdPolicies (qmDB m) \<and> qmIndex m' = qmIndex m \<Longrightarrow> policies_ok m' = policies_ok m"
  by (simp add: policies_ok_def enabled_in_db_def)

lemma quota_step_ok:
  assumes "quota_ok m"
  shows "quota_ok (quota_step s ss quote op m)"
proof (cases op)
  case (OpCreate random now fault input actor meta)
  obtain m' res where run: "createPolicy ss random now fault input actor meta m = (m', res)" by fastforce
  from run have "ledger_ok (qmDB m')"
  proof (cases rule: createPolicy_cases)
    case (created p db')
    with assms ledger_ok_cong [OF created(5,6)] show ?thesis by (simp add: quota_ok_def)
  qed (use assms in \<open>simp add: quota_ok_def\<close>)
  with createPolicy_ok [OF run] assms OpCreate run show ?thesis by (simp add: quota_ok_def)
next
  case (OpUpdate now fault i v input actor meta)
  obtain m' res where run: "updatePolicy ss now fault i v input actor meta m = (m', res)" by fastforce
  from run have "ledger_ok (qmDB m')"
  proof (cases rule: updatePolicy_cases)
    case (updated q p db')
    with assms ledger_ok_cong [OF updated(8,9)] show ?thesis by (simp add: quota_ok_def)
  qed (use assms in \<open>simp add: quota_ok_def\<close>)
  with updatePolicy_ok [OF run] assms OpUpdate run show ?thesis by (simp add: quota_ok_def)
next
  case (OpLoad fault)
  with assms LoadPolicyIndex_ok show ?thesis by (auto simp: quota_ok_def LoadPolicyIndex_def)
qed (use assms Reserve_ok Settle_ok ReapExpired_ok policies_ok_cong [OF Reserve_policies]
    policies_ok_cong [OF Settle_policies] policies_ok_cong [OF ReapExpired_policies] in \<open>simp_all add: quota_ok_def\<close>)

lemma quota_reachable_ok: "quota_reachable s ss quote m \<Longrightarrow> quota_ok m"
proof (induction rule: quota_reachable.induct)
  case (initial tenants)
  show ?case
    by (auto simp: quota_ok_def ledger_ok_def policies_ok_def window_at_def total_reserved_def total_settled_def
        wrap_int64_def index_ok_def newPolicyIndex_def models_of_def enabled_in_index_def enabled_in_db_def)
      (simp_all add: new_window_def)
qed (rule quota_step_ok)

section \<open>What a reservation checks\<close>

fun policy_limit :: "dim \<Rightarrow> quota_policy \<Rightarrow> int option" where
  "policy_limit Requests p = qpRequestLimit p"
| "policy_limit Tokens p = qpTokenLimit p"
| "policy_limit Cost p = qpBudgetNanoUSD p"

lemma exceedsLimit_not:
  assumes "\<not> exceedsLimit (Some l) settled reserved incoming" "is_int64 settled"
  shows "settled + reserved + incoming \<le> l"
proof -
  from assms(1) obtain t t' where "quota_add settled reserved = Some t" "quota_add t incoming = Some t'" "t' \<le> l"
    by (auto simp: exceedsLimit_def split: option.split_asm)
  with assms(2) show ?thesis by (auto simp: quota_add_exact)
qed

lemma exceeds_dims:
  assumes "\<not> exceeds p w requests tokens cost" "policy_limit d p = Some l" "is_int64 (win_settled d w)"
  shows "win_settled d w + win_reserved d w + part d (requests, tokens, cost) \<le> l"
  using assms exceedsLimit_not by (cases d) (fastforce simp: exceeds_def)+

lemma wrap_succ_le: "is_int64 a \<Longrightarrow> wrap_int64 (a + 1) \<le> a + 1"
proof (cases "is_int64 (a + 1)")
  case False
  assume "is_int64 a"
  with False have "int64_max \<le> a" by (simp add: int64_defs)
  with wrap_int64_range [of "a + 1"] show ?thesis by (simp add: is_int64_def)
qed (simp add: wrap_int64_id)

lemma reserve_policy_effect:
  assumes ok: "ledger_ok db" and run: "reserve_policy settings now g tot est random p de db = (de', Inr db')"
  shows "\<And>k d. fst k \<noteq> qpID p \<Longrightarrow> win_reserved d (window_at db' k) = win_reserved d (window_at db k) \<and>
      win_settled d (window_at db' k) = win_settled d (window_at db k)"
    and "\<exists>r. qdReservations db' = qdReservations db @ [r] \<and> qrGroupID r = g \<and> qrPolicyID r = qpID p \<and>
      qrWindowStart r = periodStart now (qpPeriod p) \<and> qrState r = ReservationActive \<and> qrTokensReserved r = tot"
    and "qpOveragePolicy p = QuotaOverageDeny \<Longrightarrow> policy_limit d p = Some l \<Longrightarrow>
      win_settled d (window_at db' (qpID p, periodStart now (qpPeriod p))) +
      win_reserved d (window_at db' (qpID p, periodStart now (qpPeriod p))) \<le> l"
proof -
  from run obtain db1 w cost exceeded tr cr r where
    lock: "lockWindow (qpID p) (periodStart now (qpPeriod p)) now db = (db1, w)"
    and ex: "exceeded = exceeds p w 1 tot cost" "\<not> (exceeded \<and> qpOveragePolicy p = QuotaOverageDeny)"
    and add: "quota_add (qwTokensReserved w) tot = Some tr" "quota_add (qwCostReserved w) cost = Some cr"
    and r: "res_key r = (qpID p, periodStart now (qpPeriod p))" "qrState r = ReservationActive"
      "reserved_amounts r = (1, tot, cost)" "qrGroupID r = g" "qrPolicyID r = qpID p"
    and db': "db' = (save_window (w\<lparr>qwRequestsReserved := wrap_int64 (qwRequestsReserved w + 1), qwTokensReserved := tr,
        qwCostReserved := cr, qwUpdatedAt := now\<rparr>) db1)\<lparr>qdReservations := qdReservations db @ [r]\<rparr>"
    by (rule reserve_policy_cases)
  let ?k = "(qpID p, periodStart now (qpPeriod p))"
  let ?w = "w\<lparr>qwRequestsReserved := wrap_int64 (qwRequestsReserved w + 1), qwTokensReserved := tr,
        qwCostReserved := cr, qwUpdatedAt := now\<rparr>"
  note lw = lockWindow_at [OF lock]
  have wk: "(qwPolicyID w, qwWindowStart w) = ?k" using lw(8) ledger_okD(3) [OF ok] by simp
  have win: "window_at db' j = (if j = ?k then ?w else window_at db1 j)" for j
    using wk by (auto simp: db' window_at_save)
  show "win_reserved d (window_at db' k) = win_reserved d (window_at db k) \<and>
      win_settled d (window_at db' k) = win_settled d (window_at db k)" if "fst k \<noteq> qpID p" for k d
    using that lw(3,4) by (auto simp: win)
  show "\<exists>r. qdReservations db' = qdReservations db @ [r] \<and> qrGroupID r = g \<and> qrPolicyID r = qpID p \<and>
      qrWindowStart r = periodStart now (qpPeriod p) \<and> qrState r = ReservationActive \<and> qrTokensReserved r = tot"
    using r by (intro exI [of _ r]) (simp add: db' res_key_def reserved_amounts_def)
  assume deny: "qpOveragePolicy p = QuotaOverageDeny" and limit: "policy_limit d p = Some l"
  have int64: "is_int64 (win_reserved e w)" "is_int64 (win_settled e w)" for e
    using lw(5) [of e] lw(6) [of e] ledger_okD(4,5) [OF ok, of e ?k] by (simp_all add: wrap_int64_range)
  have "win_settled d w + win_reserved d w + part d (1, tot, cost) \<le> l"
    using ex deny limit int64(2) exceeds_dims by blast
  moreover have "win_reserved d ?w \<le> win_reserved d w + part d (1, tot, cost)"
    using add int64(1) [of Requests] int64(1) [of Tokens] int64(1) [of Cost] wrap_succ_le
    by (cases d) (auto simp: quota_add_exact)
  moreover have "win_settled d ?w = win_settled d w" by (cases d) simp_all
  ultimately show "win_settled d (window_at db' ?k) + win_reserved d (window_at db' ?k) \<le> l" by (simp add: win)
qed

lemma reserve_policies_Cons:
  assumes "reserve_policies settings now g tot est random i (q # ps) de db = (de', Inr db')"
  obtains de1 db1 where "reserve_policy settings now g tot est (random i) q de db = (de1, Inr db1)"
    "reserve_policies settings now g tot est random (i + 1) ps de1 db1 = (de', Inr db')"
  using assms by (auto split: prod.split_asm sum.split_asm)

lemma reserve_policies_others:
  "reserve_policies settings now g tot est random i ps de db = (de', Inr db') \<Longrightarrow> ledger_ok db \<Longrightarrow> fst k \<notin> qpID ` set ps \<Longrightarrow>
     win_reserved d (window_at db' k) = win_reserved d (window_at db k) \<and>
     win_settled d (window_at db' k) = win_settled d (window_at db k)"
proof (induction ps arbitrary: i de db)
  case (Cons q ps)
  from Cons.prems(1) obtain de1 db1 where run: "reserve_policy settings now g tot est (random i) q de db = (de1, Inr db1)"
    "reserve_policies settings now g tot est random (i + 1) ps de1 db1 = (de', Inr db')" by (rule reserve_policies_Cons)
  show ?case
    using Cons.IH [OF run(2) reserve_policy_ok [OF Cons.prems(2) run(1)]] reserve_policy_effect(1) [OF Cons.prems(2) run(1)]
      Cons.prems(3) by simp
qed simp

definition reservation_for :: "string \<Rightarrow> time \<Rightarrow> int \<Rightarrow> quota_policy \<Rightarrow> quota_reservation \<Rightarrow> bool" where
  "reservation_for g now tot p r \<longleftrightarrow> qrGroupID r = g \<and> qrPolicyID r = qpID p \<and>
     qrWindowStart r = periodStart now (qpPeriod p) \<and> qrState r = ReservationActive \<and> qrTokensReserved r = tot"

lemma reserve_policies_rows:
  "reserve_policies settings now g tot est random i ps de db = (de', Inr db') \<Longrightarrow> ledger_ok db \<Longrightarrow>
     \<exists>rs. qdReservations db' = qdReservations db @ rs \<and> list_all2 (reservation_for g now tot) ps rs"
proof (induction ps arbitrary: i de db)
  case (Cons q ps)
  from Cons.prems(1) obtain de1 db1 where run: "reserve_policy settings now g tot est (random i) q de db = (de1, Inr db1)"
    "reserve_policies settings now g tot est random (i + 1) ps de1 db1 = (de', Inr db')" by (rule reserve_policies_Cons)
  from Cons.IH [OF run(2) reserve_policy_ok [OF Cons.prems(2) run(1)]] obtain rs where
    rs: "qdReservations db' = qdReservations db1 @ rs" "list_all2 (reservation_for g now tot) ps rs" by blast
  from reserve_policy_effect(2) [OF Cons.prems(2) run(1)] obtain r where
    "qdReservations db1 = qdReservations db @ [r]" "reservation_for g now tot q r" by (auto simp: reservation_for_def)
  with rs show ?case by (intro exI [of _ "r # rs"]) simp
qed simp

lemma reserve_policies_limits:
  "reserve_policies settings now g tot est random i ps de db = (de', Inr db') \<Longrightarrow> ledger_ok db \<Longrightarrow> distinct (map qpID ps) \<Longrightarrow>
     p \<in> set ps \<Longrightarrow> qpOveragePolicy p = QuotaOverageDeny \<Longrightarrow> policy_limit d p = Some l \<Longrightarrow>
     win_settled d (window_at db' (qpID p, periodStart now (qpPeriod p))) +
     win_reserved d (window_at db' (qpID p, periodStart now (qpPeriod p))) \<le> l"
proof (induction ps arbitrary: i de db)
  case (Cons q ps)
  from Cons.prems(1) obtain de1 db1 where run: "reserve_policy settings now g tot est (random i) q de db = (de1, Inr db1)"
    "reserve_policies settings now g tot est random (i + 1) ps de1 db1 = (de', Inr db')" by (rule reserve_policies_Cons)
  note ok1 = reserve_policy_ok [OF Cons.prems(2) run(1)]
  show ?case
  proof (cases "p = q")
    case True
    with Cons.prems(3) have "qpID p \<notin> qpID ` set ps" by simp
    with reserve_policies_others [OF run(2) ok1, of "(qpID p, periodStart now (qpPeriod p))" d]
      reserve_policy_effect(3) [OF Cons.prems(2) run(1), of d l] Cons.prems(5,6) True
    show ?thesis by simp
  qed (use Cons.IH [OF run(2) ok1] Cons.prems(3-6) in simp)
qed simp

section \<open>What the ledger promises\<close>

lemma matching_policies_iff:
  "p \<in> set (matching_policies db t k) \<longleftrightarrow> p \<in> set (qdPolicies db) \<and> qpTenantID p = t \<and> qpEnabled p \<and> qpGatewayModel p \<in> {''*'', k}"
  by (auto simp: matching_policies_def)

lemma matching_policies_ids: "distinct (map qpID (qdPolicies db)) \<Longrightarrow> distinct (map qpID (matching_policies db t k))"
  by (simp add: matching_policies_def distinct_map inj_on_def)

lemma list_all2_in_set: "list_all2 R xs ys \<Longrightarrow> x \<in> set xs \<Longrightarrow> \<exists>y \<in> set ys. R x y"
  by (induction rule: list_all2_induct) auto

lemma Reserve_runs:
  assumes "Reserve s quote now random fault input m = (m', de, None)" "HasPolicy m (riTenantID input) (riGatewayModel input)"
    "\<forall>r \<in> set (qdReservations (qmDB m)). qrGroupID r \<noteq> trim_space (riGroupID input)"
  obtains tot de0 where "quota_add (riEstimatedInputTokens input) (riEstimatedOutputTokens input) = Some tot"
    "reserve_policies s now (trim_space (riGroupID input)) tot (estimateCost quote (trimmed_input input) now) random 0
       (matching_policies (qmDB m) (trim_space (riTenantID input)) (trim_space (riGatewayModel input))) de0 (qmDB m) =
     (de, Inr (qmDB m'))"
  using assms
  by (auto simp: Reserve_def Let_def trimmed_input_def HasPolicy_def transaction_def reserve_body_def list_ex_iff
      split: if_split_asm option.split_asm prod.split_asm sum.split_asm)

text \<open>
  Claim C17: the ledger balances. In every state a run of the manager reaches (policies created and
  changed, the index reloaded, calls reserving, settling and reaped, each with any database fault),
  the reserved and settled requests, tokens and cost of every window are the sums over the
  reservations of that window, as \<open>int64\<close> values.
\<close>
theorem quota_ledger_balanced:
  assumes "quota_reachable s ss quote m"
  shows "win_reserved d (window_at (qmDB m) k) = wrap_int64 (\<Sum>r \<leftarrow> qdReservations (qmDB m). reserved_in d k r) \<and>
    win_settled d (window_at (qmDB m) k) = wrap_int64 (\<Sum>r \<leftarrow> qdReservations (qmDB m). settled_in d k r)"
  using quota_reachable_ok [OF assms] ledger_okD(4,5)
  by (simp add: quota_ok_def flip: total_reserved_def total_settled_def)

text \<open>
  Claim C18: admission is safe. When \<open>Reserve\<close> succeeds for a new group, every enabled policy of the
  tenant for the model has an active reservation of the group for the estimated tokens, and in
  the window of each denying policy the settled and reserved amounts stay within each limit it sets.
\<close>
theorem quota_reserve_admits:
  assumes "quota_reachable s ss quote m" "Reserve s quote now random fault input m = (m', de, None)"
    "HasPolicy m (riTenantID input) (riGatewayModel input)"
    "\<forall>r \<in> set (qdReservations (qmDB m)). qrGroupID r \<noteq> trim_space (riGroupID input)"
    "p \<in> set (qdPolicies (qmDB m))" "qpEnabled p" "qpTenantID p = trim_space (riTenantID input)"
    "qpGatewayModel p \<in> {''*'', trim_space (riGatewayModel input)}"
  shows "(\<exists>r \<in> set (qdReservations (qmDB m')).
      reservation_for (trim_space (riGroupID input)) now (riEstimatedInputTokens input + riEstimatedOutputTokens input) p r) \<and>
    (\<forall>d. case policy_limit d p of None \<Rightarrow> True | Some l \<Rightarrow>
       (qpOveragePolicy p = QuotaOverageDeny \<longrightarrow>
        win_settled d (window_at (qmDB m') (qpID p, periodStart now (qpPeriod p))) +
        win_reserved d (window_at (qmDB m') (qpID p, periodStart now (qpPeriod p))) \<le> l))"
proof -
  have ok: "ledger_ok (qmDB m)" "distinct (map qpID (qdPolicies (qmDB m)))"
    using quota_reachable_ok [OF assms(1)] by (simp_all add: quota_ok_def policies_ok_def)
  from assms(2-4) obtain tot de0 where tot: "quota_add (riEstimatedInputTokens input) (riEstimatedOutputTokens input) = Some tot"
    and run: "reserve_policies s now (trim_space (riGroupID input)) tot (estimateCost quote (trimmed_input input) now) random 0
       (matching_policies (qmDB m) (trim_space (riTenantID input)) (trim_space (riGatewayModel input))) de0 (qmDB m) =
     (de, Inr (qmDB m'))" by (rule Reserve_runs)
  have p: "p \<in> set (matching_policies (qmDB m) (trim_space (riTenantID input)) (trim_space (riGatewayModel input)))"
    using assms(5-8) by (simp add: matching_policies_iff)
  have "tot = riEstimatedInputTokens input + riEstimatedOutputTokens input"
    using tot by (simp add: quota_add_def split: if_split_asm)
  with reserve_policies_rows [OF run ok(1)] p
  have "\<exists>r \<in> set (qdReservations (qmDB m')).
      reservation_for (trim_space (riGroupID input)) now (riEstimatedInputTokens input + riEstimatedOutputTokens input) p r"
    by (metis UnCI list_all2_in_set set_append)
  with reserve_policies_limits [OF run ok(1) matching_policies_ids [OF ok(2)] p] show ?thesis
    by (auto split: option.split)
qed

text \<open>
  Settling is exact and final. When \<open>Settle\<close> succeeds, every reservation of the group that was
  not settled is, with the actual amounts of the event, all other rows are as they were,
  and settling the group again, whatever the event, changes nothing.
\<close>
theorem quota_settle_final:
  assumes "quota_reachable s ss quote m" "Settle quote now fault g e m = (m', None)" "trim_space g \<noteq> []"
  shows "qdReservations (qmDB m') =
      map (\<lambda>r. if qrGroupID r = trim_space g \<and> qrState r \<noteq> ReservationSettled
               then finish_reservation ReservationSettled (actual_amounts quote e r) now r else r)
        (qdReservations (qmDB m)) \<and>
    Settle quote now' None g e' m' = (m', None)"
proof -
  have ok: "ledger_ok (qmDB m)" using quota_reachable_ok [OF assms(1)] by (simp add: quota_ok_def)
  from assms(2,3) have "qmDB m' = fold (settle_one quote e now)
      (sort_key qrPolicyID (filter (\<lambda>r. qrGroupID r = trim_space g) (qdReservations (qmDB m)))) (qmDB m)"
    by (auto simp: Settle_def Let_def transaction_def split: option.split_asm)
  then have rows: "qdReservations (qmDB m') =
      map (\<lambda>r. if qrGroupID r = trim_space g then settled_row quote e now r else r) (qdReservations (qmDB m))"
    by (simp only: settle_fold(2) [OF ok])
  have "fold (settle_one quote e' now') rs db = db" if "\<forall>r \<in> set rs. qrState r = ReservationSettled" for rs db
    using that by (induction rs) (simp_all add: settle_one_def)
  moreover have "\<forall>r \<in> set (filter (\<lambda>r. qrGroupID r = trim_space g) (qdReservations (qmDB m'))). qrState r = ReservationSettled"
    unfolding rows by (auto simp: settled_row_def finish_fields)
  ultimately have "Settle quote now' None g e' m' = (m', None)"
    using assms(3) by (simp add: Settle_def Let_def transaction_def)
  moreover have "(if qrGroupID r = trim_space g then settled_row quote e now r else r) =
      (if qrGroupID r = trim_space g \<and> qrState r \<noteq> ReservationSettled
       then finish_reservation ReservationSettled (actual_amounts quote e r) now r else r)" for r
    by (simp add: settled_row_def)
  ultimately show ?thesis unfolding rows by simp
qed


text \<open>
  Reaping gives up on calls that never settled. A batch moves the oldest expired reservations from
  reserved to settled at their reserved amounts, so that what a window has used and holds
  together stays the same, counts them, and leaves none behind when it was not full.
\<close>
theorem quota_reap_conserves:
  assumes "quota_reachable s ss quote m" "ReapExpired now locked None limit m = (m', n, err)" "0 < limit" "limit \<le> 1000"
  shows "err = None \<and> n = min limit (int (length (expired now locked (qmDB m)))) \<and>
    qdReservations (qmDB m') =
      map (\<lambda>r. if r \<in> set (take (nat limit) (expired now locked (qmDB m)))
               then finish_reservation ReservationEstimated (reserved_amounts r) now r else r) (qdReservations (qmDB m)) \<and>
    total_reserved (qmDB m') d k + total_settled (qmDB m') d k = total_reserved (qmDB m) d k + total_settled (qmDB m) d k \<and>
    (n < limit \<longrightarrow> expired now locked (qmDB m') = [])"
proof -
  have ok: "ledger_ok (qmDB m)" using quota_reachable_ok [OF assms(1)] by (simp add: quota_ok_def)
  let ?rs = "take (nat limit) (expired now locked (qmDB m))"
  from assms(2-4) have m': "qmDB m' = fold (reap_one now) ?rs (qmDB m)" and n: "err = None" "n = int (length ?rs)"
    by (auto simp: ReapExpired_def Let_def transaction_def)
  from m' have rows: "qdReservations (qmDB m') = map (\<lambda>r. if r \<in> set ?rs then reaped_row now r else r) (qdReservations (qmDB m))"
    by (simp only: reap_fold(2) [OF ok])
  have active: "qrState r = ReservationActive" if "r \<in> set ?rs" for r
    using that by (auto simp: expired_def dest!: in_set_takeD)
  have "reserved_in d k (reaped_row now r) + settled_in d k (reaped_row now r) = reserved_in d k r + settled_in d k r"
    if "qrState r = ReservationActive" for r
    using that by (simp add: reserved_in_def settled_in_def reaped_row_def finish_fields)
  then have "(\<Sum>r \<leftarrow> qdReservations (qmDB m'). reserved_in d k r + settled_in d k r) =
      (\<Sum>r \<leftarrow> qdReservations (qmDB m). reserved_in d k r + settled_in d k r)"
    unfolding rows map_map o_def using active by (intro arg_cong [where f = sum_list] map_cong) auto
  then have "total_reserved (qmDB m') d k + total_settled (qmDB m') d k = total_reserved (qmDB m) d k + total_settled (qmDB m) d k"
    by (simp only: total_reserved_def total_settled_def sum_list_addf)
  moreover have "expired now locked (qmDB m') = []" if "n < limit"
  proof -
    have "?rs = expired now locked (qmDB m)" using that n(2) assms(3) by simp
    then have "set ?rs = {r \<in> set (qdReservations (qmDB m)). qrState r = ReservationActive \<and> qrExpiresAt r \<le> now \<and> \<not> locked (qrID r)}"
      by (auto simp: expired_def)
    then have "set (expired now locked (qmDB m')) = {}"
      by (auto simp: expired_def rows reaped_row_def finish_fields)
    then show ?thesis by simp
  qed
  ultimately show ?thesis
    unfolding rows reaped_row_def using n assms(3) by (auto simp: min_def)
qed

text \<open>A run: a policy for all models of a tenant, a call admitted under it, settled or reaped.\<close>

definition sample_settings :: quota_settings where
  "sample_settings = \<lparr>qsReservationTTL = 60, qsReapInterval = 30, qsDefaultMaxOutputTokens = 4096\<rparr>"

definition sample_quote :: "usage_event \<Rightarrow> cost_result" where
  "sample_quote e = \<lparr>crSnapshot = None, crCaveat = ''pricing_unavailable''\<rparr>"

definition sample_start :: quota_manager where
  "sample_start = \<lparr>qmDB = \<lparr>qdTenants = [''t''], qdPolicies = [], qdWindows = [], qdReservations = [], qdAudit = []\<rparr>,
     qmIndex = newPolicyIndex\<rparr>"

definition sample_create :: quota_op where
  "sample_create = OpCreate (Some ''aaaaaaaaaaaaaaaa'') 0 None
     \<lparr>piTenantID = ''t'', piGatewayModel = [], piPeriod = QuotaPeriodMinute, piRequestLimit = Some 1, piTokenLimit = Some 100,
      piBudgetUSD = None, piOveragePolicy = QuotaOverageDeny, piEnabled = True\<rparr> ''t'' None"

definition sample_input :: reserve_input where
  "sample_input = \<lparr>riGroupID = ''g'', riTenantID = ''t'', riGatewayModel = ''m'', riEstimatedInputTokens = 30,
     riEstimatedOutputTokens = 40, riCandidates = []\<rparr>"

definition sample_policy :: quota_manager where
  "sample_policy = quota_step sample_settings (\<lambda>_. None) sample_quote sample_create sample_start"

definition sample_reserved :: quota_manager where
  "sample_reserved = quota_step sample_settings (\<lambda>_. None) sample_quote
     (OpReserve 5 (\<lambda>i. Some ''bbbbbbbbbbbbbbbb'') None sample_input) sample_policy"

lemma sample_reachable:
  "quota_reachable sample_settings (\<lambda>_. None) sample_quote sample_policy"
  "quota_reachable sample_settings (\<lambda>_. None) sample_quote sample_reserved"
  using quota_reachable.initial [of sample_settings "\<lambda>_. None" sample_quote "[''t'']", folded sample_start_def]
  unfolding sample_policy_def sample_reserved_def by (auto intro: quota_reachable.step simp del: quota_step.simps)

definition sample_row :: quota_policy where
  "sample_row = \<lparr>qpID = randomUUID ''aaaaaaaaaaaaaaaa'', qpTenantID = ''t'', qpGatewayModel = ''*'',
     qpPeriod = QuotaPeriodMinute, qpRequestLimit = Some 1, qpTokenLimit = Some 100, qpBudgetNanoUSD = None,
     qpOveragePolicy = QuotaOverageDeny, qpEnabled = True, qpVersion = 1, qpCreatedBy = ''t'', qpUpdatedBy = ''t'',
     qpCreatedAt = 0, qpUpdatedAt = 0\<rparr>"

lemma sample_trims: "trim_space ''t'' = ''t''" "trim_space ''g'' = ''g''" "trim_space ''m'' = ''m''" "trim_space '' t'' = ''t''"
  by code_simp+

lemma sample_policy_eq:
  "sample_policy = \<lparr>qmDB = \<lparr>qdTenants = [''t''], qdPolicies = [sample_row], qdWindows = [], qdReservations = [], qdAudit = []\<rparr>,
     qmIndex = index_Put sample_row newPolicyIndex\<rparr>"
  by (simp add: sample_policy_def sample_create_def sample_start_def createPolicy_def normalizePolicy_def validLimit_def Let_def
      sample_trims after_policy_def transaction_def create_body_def ensureTenant_def audit_if_def sample_row_def)

lemma sample_matching: "matching_policies (qmDB sample_policy) ''t'' ''m'' = [sample_row]"
  by (simp add: sample_policy_eq matching_policies_def sample_row_def)


definition sample_reservation :: quota_reservation where
  "sample_reservation = new_reservation sample_settings 5 ''bbbbbbbbbbbbbbbb'' ''g'' sample_row 70 0 False"

lemma sample_has: "HasPolicy sample_policy ''t'' ''m''"
  using HasPolicy_iff [of sample_policy "''t''" "''m''"] quota_reachable_ok [OF sample_reachable(1)]
  by (simp add: quota_ok_def sample_trims) (simp add: sample_policy_eq sample_row_def)

lemma sample_fields:
  "qpPeriod sample_row = QuotaPeriodMinute" "qpRequestLimit sample_row = Some 1" "qpTokenLimit sample_row = Some 100"
  "qpBudgetNanoUSD sample_row = None" "qpOveragePolicy sample_row = QuotaOverageDeny"
  by (simp_all add: sample_row_def)

lemma sample_period: "periodStart 5 QuotaPeriodMinute = 0"
  by code_simp

lemma sample_run:
  "reserve_policy sample_settings 5 ''g'' 70 (0, False) (Some ''bbbbbbbbbbbbbbbb'') sample_row de (qmDB sample_policy) =
     (de\<lparr>deAppliedPolicies := deAppliedPolicies de + 1\<rparr>,
      Inr ((qmDB sample_policy)\<lparr>qdReservations := [sample_reservation],
        qdWindows := [((qpID sample_row, 0), (new_window (qpID sample_row) 0 5)\<lparr>qwRequestsReserved := 1, qwTokensReserved := 70\<rparr>)]\<rparr>))"
  by (simp add: reserve_policy_def sample_period Let_def lockWindow_def sample_policy_eq new_window_def exceeds_def exceedsLimit_def
      quota_add_def int64_max_def int64_min_def save_window_def create_reservation_def sample_reservation_def exceeded_if_def
      alert_if_def wrap_int64_def sample_fields)

lemma sample_reserve:
  "Reserve sample_settings sample_quote 5 (\<lambda>i. Some ''bbbbbbbbbbbbbbbb'') None sample_input sample_policy =
     (sample_reserved, decision_zero\<lparr>deReservationID := ''g'', deAppliedPolicies := 1\<rparr>, None)"
  "sample_reserved = sample_policy\<lparr>qmDB := (qmDB sample_policy)\<lparr>qdReservations := [sample_reservation],
        qdWindows := [((qpID sample_row, 0), (new_window (qpID sample_row) 0 5)\<lparr>qwRequestsReserved := 1, qwTokensReserved := 70\<rparr>)]\<rparr>\<rparr>"
proof -
  have "quota_add 30 40 = Some 70" by (simp add: quota_add_def int64_max_def int64_min_def)
  moreover have "qdReservations (qmDB sample_policy) = []" by (simp add: sample_policy_eq)
  ultimately have run: "Reserve sample_settings sample_quote 5 (\<lambda>i. Some ''bbbbbbbbbbbbbbbb'') None sample_input sample_policy =
    (sample_policy\<lparr>qmDB := (qmDB sample_policy)\<lparr>qdReservations := [sample_reservation],
        qdWindows := [((qpID sample_row, 0), (new_window (qpID sample_row) 0 5)\<lparr>qwRequestsReserved := 1, qwTokensReserved := 70\<rparr>)]\<rparr>\<rparr>,
     decision_zero\<lparr>deReservationID := ''g'', deAppliedPolicies := 1\<rparr>, None)"
    by (simp add: Reserve_def trimmed_input_def sample_input_def sample_trims Let_def sample_has transaction_def reserve_body_def
        sample_matching estimateCost_def sample_run decision_zero_def)
  show eq: "sample_reserved = sample_policy\<lparr>qmDB := (qmDB sample_policy)\<lparr>qdReservations := [sample_reservation],
        qdWindows := [((qpID sample_row, 0), (new_window (qpID sample_row) 0 5)\<lparr>qwRequestsReserved := 1, qwTokensReserved := 70\<rparr>)]\<rparr>\<rparr>"
    by (simp add: sample_reserved_def run)
  show "Reserve sample_settings sample_quote 5 (\<lambda>i. Some ''bbbbbbbbbbbbbbbb'') None sample_input sample_policy =
     (sample_reserved, decision_zero\<lparr>deReservationID := ''g'', deAppliedPolicies := 1\<rparr>, None)"
    by (simp add: run eq)
qed

theorem quota_ledger_balanced_witness:
  "wrap_int64 (\<Sum>r \<leftarrow> qdReservations (qmDB sample_reserved). reserved_in Tokens (qpID sample_row, 0) r) = 70"
  using quota_ledger_balanced [OF sample_reachable(2), of Tokens "(qpID sample_row, 0)"]
  by (simp add: sample_reserve(2) window_at_def)

theorem quota_reserve_admits_witness:
  "\<exists>r \<in> set (qdReservations (qmDB sample_reserved)). reservation_for ''g'' 5 70 sample_row r"
  using quota_reserve_admits [OF sample_reachable(1) sample_reserve(1), of sample_row] sample_has
  by (simp add: sample_policy_eq sample_input_def sample_trims) (simp add: sample_row_def)

theorem quota_settle_final_witness:
  "Settle sample_quote 9 None ''g'' event_zero (fst (Settle sample_quote 7 None ''g'' event_zero sample_reserved)) =
     (fst (Settle sample_quote 7 None ''g'' event_zero sample_reserved), None)"
proof -
  let ?m = "fst (Settle sample_quote 7 None ''g'' event_zero sample_reserved)"
  have "Settle sample_quote 7 None ''g'' event_zero sample_reserved = (?m, None)"
    by (simp add: Settle_def Let_def transaction_def)
  then show ?thesis
    using quota_settle_final [OF sample_reachable(2), of 7 None "''g''" event_zero ?m 9 event_zero] by (simp add: sample_trims)
qed

theorem quota_reap_conserves_witness:
  "expired 100 (\<lambda>_. False) (qmDB (fst (ReapExpired 100 (\<lambda>_. False) None 10 sample_reserved))) = [] \<and>
   fst (snd (ReapExpired 100 (\<lambda>_. False) None 10 sample_reserved)) = 1"
proof -
  let ?run = "ReapExpired 100 (\<lambda>_. False) None 10 sample_reserved"
  have "expired 100 (\<lambda>_. False) (qmDB sample_reserved) = [sample_reservation]"
    by (simp add: sample_reserve(2) expired_def sample_reservation_def new_reservation_def sample_settings_def)
  with quota_reap_conserves [OF sample_reachable(2), of 100 "\<lambda>_. False" 10 "fst ?run" "fst (snd ?run)" "snd (snd ?run)"]
  show ?thesis by simp
qed

end
