(* ===== verification/GoCrypto.thy ===== *)
theory GoCrypto
  imports "HOL-Library.Word"
begin

text \<open>
  What the code uses of Go's \<open>crypto/sha256\<close>, \<open>crypto/hmac\<close> and \<open>encoding/base64\<close>: SHA-256 over 32-bit
  words, HMAC over it, and the unpadded URL alphabet of \<open>base64.RawURLEncoding\<close>. Bytes are
  characters.
\<close>

unbundle bit_operations_syntax

section \<open>SHA-256\<close>

definition rotr :: "nat \<Rightarrow> 32 word \<Rightarrow> 32 word" where
  "rotr n w = drop_bit n w OR push_bit (32 - n) w"

definition sha_K :: "32 word list" where
  "sha_K =
    [1116352408, 1899447441, 3049323471, 3921009573, 961987163, 1508970993, 2453635748, 2870763221,
     3624381080, 310598401, 607225278, 1426881987, 1925078388, 2162078206, 2614888103, 3248222580,
     3835390401, 4022224774, 264347078, 604807628, 770255983, 1249150122, 1555081692, 1996064986,
     2554220882, 2821834349, 2952996808, 3210313671, 3336571891, 3584528711, 113926993, 338241895,
     666307205, 773529912, 1294757372, 1396182291, 1695183700, 1986661051, 2177026350, 2456956037,
     2730485921, 2820302411, 3259730800, 3345764771, 3516065817, 3600352804, 4094571909, 275423344,
     430227734, 506948616, 659060556, 883997877, 958139571, 1322822218, 1537002063, 1747873779,
     1955562222, 2024104815, 2227730452, 2361852424, 2428436474, 2756734187, 3204031479, 3329325298]"

definition sha_init :: "32 word list" where
  "sha_init = [1779033703, 3144134277, 1013904242, 2773480762, 1359893119, 2600822924, 528734635, 1541459225]"

definition sha_pad :: "string \<Rightarrow> string" where
  "sha_pad m =
     m @ [char_of (128 :: nat)] @ replicate ((119 - length m mod 64) mod 64) (char_of (0 :: nat)) @
     map (\<lambda>i. char_of (8 * length m div 256 ^ (7 - i))) [0..<8]"

fun sha_words :: "string \<Rightarrow> 32 word list" where
  "sha_words (a # b # c # d # s) =
     word_of_nat (((of_char a * 256 + of_char b) * 256 + of_char c) * 256 + of_char d) # sha_words s"
| "sha_words _ = []"

text \<open>The message schedule, latest word first.\<close>

fun sha_extend :: "nat \<Rightarrow> 32 word list \<Rightarrow> 32 word list" where
  "sha_extend 0 ws = ws"
| "sha_extend (Suc n) ws =
     (let x = ws ! 14; y = ws ! 1;
          s0 = rotr 7 x XOR rotr 18 x XOR drop_bit 3 x;
          s1 = rotr 17 y XOR rotr 19 y XOR drop_bit 10 y in
      sha_extend n ((ws ! 15 + s0 + ws ! 6 + s1) # ws))"

fun sha_rounds :: "(32 word \<times> 32 word) list \<Rightarrow> 32 word list \<Rightarrow> 32 word list" where
  "sha_rounds ((k, w) # r) [a, b, c, d, e, f, g, h] =
     (let t1 = h + (rotr 6 e XOR rotr 11 e XOR rotr 25 e) + ((e AND f) XOR (NOT e AND g)) + k + w;
          t2 = (rotr 2 a XOR rotr 13 a XOR rotr 22 a) + ((a AND b) XOR (a AND c) XOR (b AND c)) in
      sha_rounds r [t1 + t2, a, b, c, d + t1, e, f, g])"
| "sha_rounds _ st = st"

definition sha_block :: "32 word list \<Rightarrow> string \<Rightarrow> 32 word list" where
  "sha_block st block = map2 (+) st (sha_rounds (zip sha_K (rev (sha_extend 48 (rev (sha_words block))))) st)"

function sha_blocks :: "32 word list \<Rightarrow> string \<Rightarrow> 32 word list" where
  "sha_blocks st m = (if m = [] then st else sha_blocks (sha_block st (take 64 m)) (drop 64 m))"
  by auto
termination by (relation "measure (length \<circ> snd)") auto

declare sha_blocks.simps [simp del]

definition sha_bytes :: "32 word \<Rightarrow> string" where
  "sha_bytes w = map (\<lambda>i. char_of (unat w div 256 ^ (3 - i))) [0..<4]"

definition sha256 :: "string \<Rightarrow> string" where
  "sha256 m = concat (map sha_bytes (sha_blocks sha_init (sha_pad m)))"

definition xor_bytes :: "nat \<Rightarrow> string \<Rightarrow> string" where
  "xor_bytes x = map (\<lambda>c. char_of (of_char c XOR x))"

definition hmac_sha256 :: "string \<Rightarrow> string \<Rightarrow> string" where
  "hmac_sha256 key m =
     (let k = (if length key > 64 then sha256 key else key);
          k64 = k @ replicate (64 - length k) (char_of (0 :: nat)) in
      sha256 (xor_bytes 0x5c k64 @ sha256 (xor_bytes 0x36 k64 @ m)))"

lemma sha_rounds_length: "length st = 8 \<Longrightarrow> length (sha_rounds r st) = 8"
  by (induction r st rule: sha_rounds.induct) (auto simp: Let_def)

lemma sha_block_length: "length st = 8 \<Longrightarrow> length (sha_block st b) = 8"
  by (simp add: sha_block_def sha_rounds_length)

lemma sha_blocks_length: "length st = 8 \<Longrightarrow> length (sha_blocks st m) = 8"
  by (induction st m rule: sha_blocks.induct) (subst sha_blocks.simps, simp add: sha_block_length)

lemma sha256_length [simp]: "length (sha256 m) = 32"
proof -
  have "length (concat (map sha_bytes ws)) = 4 * length ws" for ws
    by (induction ws) (simp_all add: sha_bytes_def)
  then show ?thesis using sha_blocks_length [of sha_init] by (simp add: sha256_def sha_init_def)
qed

lemma hmac_sha256_length [simp]: "length (hmac_sha256 key m) = 32"
  by (simp add: hmac_sha256_def Let_def)

section \<open>Base64\<close>

definition b64_char :: "nat \<Rightarrow> char" where
  "b64_char n =
     char_of (if n < 26 then 65 + n else if n < 52 then 71 + n else if n < 62 then n - 4 else if n = 62 then 45 else (95 :: nat))"

definition b64_value :: "char \<Rightarrow> nat option" where
  "b64_value c =
     (let n = of_char c in
      if 65 \<le> n \<and> n \<le> 90 then Some (n - 65) else if 97 \<le> n \<and> n \<le> 122 then Some (n - 71)
      else if 48 \<le> n \<and> n \<le> 57 then Some (n + 4) else if n = 45 then Some 62 else if n = 95 then Some 63 else None)"

fun b64_groups :: "nat list \<Rightarrow> nat list" where
  "b64_groups (a # b # c # s) =
     (a div 4) # (a mod 4 * 16 + b div 16) # (b mod 16 * 4 + c div 64) # (c mod 64) # b64_groups s"
| "b64_groups [a, b] = [a div 4, a mod 4 * 16 + b div 16, b mod 16 * 4]"
| "b64_groups [a] = [a div 4, a mod 4 * 16]"
| "b64_groups [] = []"

definition b64_encode :: "string \<Rightarrow> string" where
  "b64_encode s = map b64_char (b64_groups (map of_char s))"

definition b64_encodedLen :: "nat \<Rightarrow> nat" where
  "b64_encodedLen n = n div 3 * 4 + (n mod 3 * 8 + 5) div 6"

text \<open>The decoder skips line breaks; spare bits of the last group are not checked.\<close>

fun b64_bytes :: "nat list \<Rightarrow> nat list option" where
  "b64_bytes (a # b # c # d # s) =
     map_option (\<lambda>r. (a * 4 + b div 16) # (b mod 16 * 16 + c div 4) # (c mod 4 * 64 + d) # r) (b64_bytes s)"
| "b64_bytes [a, b, c] = Some [a * 4 + b div 16, b mod 16 * 16 + c div 4]"
| "b64_bytes [a, b] = Some [a * 4 + b div 16]"
| "b64_bytes [a] = None"
| "b64_bytes [] = Some []"

definition b64_decode :: "string \<Rightarrow> string option" where
  "b64_decode s =
     (let cs = filter (\<lambda>c. c \<notin> {CHR 0x0A, CHR 0x0D}) s in
      if list_ex (\<lambda>c. b64_value c = None) cs then None
      else map_option (map char_of) (b64_bytes (map (\<lambda>c. the (b64_value c)) cs)))"

lemma b64_char_value: "n < 64 \<Longrightarrow> b64_value (b64_char n) = Some n"
  by (auto simp: b64_value_def b64_char_def Let_def)

lemma b64_char_no_break: "n < 64 \<Longrightarrow> b64_char n \<notin> {CHR 0x0A, CHR 0x0D}"
  using b64_char_value [of n] by (auto simp: b64_value_def)

lemma b64_groups_small: "\<forall>a \<in> set s. a < 256 \<Longrightarrow> \<forall>n \<in> set (b64_groups s). n < 64"
  by (induction s rule: b64_groups.induct) (auto simp: less_mult_imp_div_less)

lemma b64_bytes_groups: "\<forall>a \<in> set s. a < 256 \<Longrightarrow> b64_bytes (b64_groups s) = Some s"
  by (induction s rule: b64_groups.induct) (auto simp: less_mult_imp_div_less)

lemma b64_groups_length: "length (b64_groups s) = b64_encodedLen (length s)"
  by (induction s rule: b64_groups.induct) (auto simp: b64_encodedLen_def div_add_self1)

lemma b64_encode_length [simp]: "length (b64_encode s) = b64_encodedLen (length s)"
  by (simp add: b64_encode_def b64_groups_length)

lemma b64_decode_encode: "b64_decode (b64_encode s) = Some s"
proof -
  let ?ns = "b64_groups (map of_char s) :: nat list"
  have bytes: "\<forall>a \<in> set (map of_char s). a < (256 :: nat)" by auto
  note small = b64_groups_small [OF bytes]
  have cs: "filter (\<lambda>c. c \<noteq> CHR 0x0A \<and> c \<noteq> CHR 0x0D) (b64_encode s) = b64_encode s"
    using small b64_char_no_break by (auto simp: b64_encode_def filter_id_conv)
  have "\<not> list_ex (\<lambda>c. b64_value c = None) (b64_encode s)"
    using small b64_char_value by (auto simp: b64_encode_def list_ex_iff)
  moreover have "map (\<lambda>c. the (b64_value c)) (b64_encode s) = ?ns"
    using small b64_char_value by (auto simp: b64_encode_def intro!: map_idI)
  ultimately show ?thesis
    using b64_bytes_groups [OF bytes] by (simp add: b64_decode_def cs Let_def comp_def)
qed

end
