(* ===== verification/ApiToken.thy ===== *)
theory ApiToken
  imports GoCrypto GoPrelude
begin

text \<open>
  The API keys of a tenant as text, \<open>internal/apikey/token.go\<close>: \<open>mvl_<locator>_<secret>\<close>, where the
  locator finds the row and the row keeps only a keyed hash of the secret. The bytes
  \<open>crypto/rand\<close> delivers are arguments (\<open>None\<close>: it fails).
\<close>

definition tokenNamespace :: string where "tokenNamespace = ''mvl''"
definition locatorByteCount :: nat where "locatorByteCount = 12"
definition secretByteCount :: nat where "secretByteCount = 32"
definition hashVersion :: int where "hashVersion = 1"

datatype token_error = ErrInvalidToken | TokenError string

record generated_token =
  gtPlaintext :: string
  gtPrefix :: string
  gtLookupDigest :: string
  gtKeyHash :: string
  gtHashVersion :: int

record parsed_token =
  ptPrefix :: string
  ptSecret :: string

definition digestPrefix :: "string \<Rightarrow> string" where
  "digestPrefix p = sha256 p"

definition hashSecret :: "string \<Rightarrow> string \<Rightarrow> string" where
  "hashSecret secret pepper = hmac_sha256 pepper secret"

definition randomText :: "string option \<Rightarrow> string option" where
  "randomText random = map_option b64_encode random"

definition validEncodedSize :: "string \<Rightarrow> nat \<Rightarrow> bool" where
  "validEncodedSize s byteCount \<longleftrightarrow>
     (case b64_decode s of None \<Rightarrow> False | Some decoded \<Rightarrow> length decoded = byteCount)"

definition generateToken :: "string option \<Rightarrow> string option \<Rightarrow> string \<Rightarrow> token_error + generated_token" where
  "generateToken random1 random2 pepper =
     (case randomText random1 of
        None \<Rightarrow> Inl (TokenError ''generate API key locator'')
      | Some locator \<Rightarrow>
          (case randomText random2 of
             None \<Rightarrow> Inl (TokenError ''generate API key secret'')
           | Some secret \<Rightarrow>
               (let pre = tokenNamespace @ ''_'' @ locator in
                Inr \<lparr>gtPlaintext = pre @ ''_'' @ secret, gtPrefix = pre, gtLookupDigest = digestPrefix pre,
                     gtKeyHash = hashSecret secret pepper, gtHashVersion = hashVersion\<rparr>)))"

definition parseToken :: "string \<Rightarrow> token_error + parsed_token" where
  "parseToken s =
     (let namespace = tokenNamespace @ ''_'';
          locatorLength = b64_encodedLen locatorByteCount;
          secretLength = b64_encodedLen secretByteCount;
          wantLength = length namespace + locatorLength + 1 + secretLength;
          separator = length namespace + locatorLength;
          locator = take locatorLength (drop (length namespace) s);
          secret = drop (separator + 1) s in
      if length s \<noteq> wantLength \<or> take (length namespace) s \<noteq> namespace then Inl ErrInvalidToken
      else if s ! separator \<noteq> CHR ''_'' then Inl ErrInvalidToken
      else if \<not> validEncodedSize locator locatorByteCount \<or> \<not> validEncodedSize secret secretByteCount then Inl ErrInvalidToken
      else Inr \<lparr>ptPrefix = namespace @ locator, ptSecret = secret\<rparr>)"

definition verifyToken :: "parsed_token \<Rightarrow> string \<Rightarrow> int \<Rightarrow> string \<Rightarrow> bool" where
  "verifyToken token expectedHash version pepper \<longleftrightarrow>
     \<not> (version \<noteq> hashVersion \<or> length expectedHash \<noteq> 32) \<and> hashSecret (ptSecret token) pepper = expectedHash"

lemmas token_consts = tokenNamespace_def locatorByteCount_def secretByteCount_def hashVersion_def

lemma token_lengths:
  "length (tokenNamespace @ ''_'') = 4" "b64_encodedLen locatorByteCount = 16" "b64_encodedLen secretByteCount = 43"
  by (simp_all add: token_consts b64_encodedLen_def)

lemma parseToken_eq:
  "parseToken s =
     (if length s \<noteq> 64 \<or> take 4 s \<noteq> ''mvl_'' then Inl ErrInvalidToken
      else if s ! 20 \<noteq> CHR ''_'' then Inl ErrInvalidToken
      else if \<not> validEncodedSize (take 16 (drop 4 s)) 12 \<or> \<not> validEncodedSize (drop 21 s) 32 then Inl ErrInvalidToken
      else Inr \<lparr>ptPrefix = ''mvl_'' @ take 16 (drop 4 s), ptSecret = drop 21 s\<rparr>)"
  unfolding parseToken_def Let_def token_lengths by (simp add: token_consts)

lemma validEncodedSize_encode: "length bytes = n \<Longrightarrow> validEncodedSize (b64_encode bytes) n"
  by (simp add: validEncodedSize_def b64_decode_encode)

text \<open>A parsed token is its text: nothing is dropped or normalised.\<close>

lemma parseToken_text:
  assumes "parseToken s = Inr t"
  shows "s = ptPrefix t @ ''_'' @ ptSecret t" "length (ptPrefix t) = 20" "length (ptSecret t) = 43"
proof -
  from assms have len: "length s = 64" and ns: "take 4 s = ''mvl_''" and sep: "s ! 20 = CHR ''_''"
    and t: "ptPrefix t = ''mvl_'' @ take 16 (drop 4 s)" "ptSecret t = drop 21 s"
    by (auto simp: parseToken_eq split: if_split_asm)
  have "s = take 4 s @ take 16 (drop 4 s) @ drop 20 s"
    using append_take_drop_id [of 4 s] append_take_drop_id [of 16 "drop 4 s"] by simp
  also have "drop 20 s = s ! 20 # drop 21 s" using len Cons_nth_drop_Suc [of 20 s] by simp
  finally show "s = ptPrefix t @ ''_'' @ ptSecret t" using ns sep t by simp
  show "length (ptPrefix t) = 20" "length (ptSecret t) = 43" using len t by simp_all
qed

lemma parse_generated:
  assumes "generateToken (Some l) (Some k) pepper = Inr g" "length l = 12" "length k = 32"
  shows "parseToken (gtPlaintext g) = Inr \<lparr>ptPrefix = gtPrefix g, ptSecret = b64_encode k\<rparr>"
    and "gtKeyHash g = hashSecret (b64_encode k) pepper" "gtHashVersion g = hashVersion" "gtLookupDigest g = digestPrefix (gtPrefix g)"
proof -
  have len: "length (b64_encode l) = 16" "length (b64_encode k) = 43"
    using assms(2,3) by (simp_all add: b64_encodedLen_def)
  have g: "gtPlaintext g = ''mvl_'' @ b64_encode l @ ''_'' @ b64_encode k" "gtPrefix g = ''mvl_'' @ b64_encode l"
    "gtKeyHash g = hashSecret (b64_encode k) pepper" "gtHashVersion g = hashVersion" "gtLookupDigest g = digestPrefix (gtPrefix g)"
    using assms(1) by (auto simp: generateToken_def randomText_def token_consts Let_def)
  let ?s = "gtPlaintext g"
  have "length ?s = 64" "take 4 ?s = ''mvl_''" "?s ! 20 = CHR ''_''" "take 16 (drop 4 ?s) = b64_encode l" "drop 21 ?s = b64_encode k"
    using len by (simp_all add: g(1) nth_append)
  moreover have "validEncodedSize (b64_encode l) 12" "validEncodedSize (b64_encode k) 32"
    using assms(2,3) by (simp_all add: validEncodedSize_encode)
  ultimately show "parseToken ?s = Inr \<lparr>ptPrefix = gtPrefix g, ptSecret = b64_encode k\<rparr>"
    by (simp add: parseToken_eq g(2))
qed (use assms(1) in \<open>auto simp: generateToken_def randomText_def Let_def\<close>)

text \<open>
  Claim C25: issued keys authenticate, and only as themselves. The text of a generated key parses back to
  its prefix and secret, finds its row (the digest is the stored one) and passes verification
  against its stored hash; and no other text parses to the same token.
\<close>
theorem api_key_roundtrip:
  assumes "generateToken (Some locator) (Some secret) pepper = Inr g" "length locator = 12" "length secret = 32"
  shows "(\<exists>t. parseToken (gtPlaintext g) = Inr t \<and> ptPrefix t = gtPrefix g \<and> digestPrefix (ptPrefix t) = gtLookupDigest g \<and>
      verifyToken t (gtKeyHash g) (gtHashVersion g) pepper \<and>
      (\<forall>s. parseToken s = Inr t \<longrightarrow> s = gtPlaintext g))"
proof -
  note p = parse_generated [OF assms]
  have "s = gtPlaintext g" if "parseToken s = Inr \<lparr>ptPrefix = gtPrefix g, ptSecret = b64_encode secret\<rparr>" for s
    using parseToken_text(1) [OF that] parseToken_text(1) [OF p(1)] by simp
  moreover have "verifyToken \<lparr>ptPrefix = gtPrefix g, ptSecret = b64_encode secret\<rparr> (gtKeyHash g) (gtHashVersion g) pepper"
    unfolding verifyToken_def p(2,3) by (simp add: hashSecret_def)
  moreover note p(1) p(4) [symmetric]
  ultimately show ?thesis by (metis parsed_token.select_convs(1))
qed

theorem api_key_roundtrip_witness:
  "\<exists>g. generateToken (Some (replicate 12 (CHR ''l''))) (Some (replicate 32 (CHR ''s''))) ''pepper'' = Inr g \<and>
     (\<exists>t. parseToken (gtPlaintext g) = Inr t \<and> verifyToken t (gtKeyHash g) (gtHashVersion g) ''pepper'')"
proof -
  obtain g where g: "generateToken (Some (replicate 12 (CHR ''l''))) (Some (replicate 32 (CHR ''s''))) ''pepper'' = Inr g"
    by (simp add: generateToken_def randomText_def Let_def)
  from api_key_roundtrip [OF g] g show ?thesis by auto
qed

end
