(* ===== verification/AuthCache.thy ===== *)
theory AuthCache
  imports ApiToken "HOL-Library.Multiset"
begin

text \<open>
  The in-process cache of authentication snapshots, \<open>internal/apikey/cache_l1.go\<close>, with the snapshot
  of \<open>snapshot.go\<close>. A \<open>*list.Element\<close> is an address; the recency list holds the elements, the map
  \<open>entries\<close> the addresses by cache key, and two indexes the cache keys by API key and by tenant.
  The mutex makes every operation one step. The order in which Go ranges over a map is the
  argument \<open>visit\<close>. Shown: the structure refines a plain list of entries, most recent first.
\<close>

section \<open>Snapshots\<close>

definition APIKeyActive :: string where "APIKeyActive = ''active''"
definition APIKeyDisabled :: string where "APIKeyDisabled = ''disabled''"
definition APIKeyRevoked :: string where "APIKeyRevoked = ''revoked''"
definition TenantActive :: string where "TenantActive = ''active''"
definition TenantDisabled :: string where "TenantDisabled = ''disabled''"

record auth_snapshot =
  asVersion :: int
  asAPIKeyID :: string
  asTenantID :: string
  asKeyPrefix :: string
  asLookupDigest :: string
  asKeyHash :: string
  asHashVersion :: int
  asKeyStatus :: string
  asKeyExpiresAt :: "time option"
  asLastUsedAt :: "time option"
  asTenantStatus :: string
  asTenantVersion :: uint64
  asAllowedModels :: "string list"
  asGeneratedAt :: time
  asCachedUntil :: time

section \<open>The cache\<close>

record l1_entry =
  leCacheKey :: string
  leSnapshot :: auth_snapshot
  leExpiresAt :: time

type_synonym cache_index = "string \<rightharpoonup> string list"

record l1_cache =
  lcMaxEntries :: int
  lcTTL :: duration
  lcEntries :: "string \<rightharpoonup> nat"
  lcKeys :: cache_index
  lcTenants :: cache_index
  lcOrder :: "(nat \<times> l1_entry) list"
  lcFresh :: nat

datatype l1_result = L1Miss | L1Expired | L1Hit auth_snapshot

definition newL1Cache :: "int \<Rightarrow> duration \<Rightarrow> l1_cache" where
  "newL1Cache maxEntries ttl =
     \<lparr>lcMaxEntries = maxEntries, lcTTL = ttl, lcEntries = Map.empty, lcKeys = Map.empty, lcTenants = Map.empty,
      lcOrder = [], lcFresh = 0\<rparr>"

definition index_keys :: "cache_index \<Rightarrow> string \<Rightarrow> string list" where
  "index_keys index i = (case index i of None \<Rightarrow> [] | Some ks \<Rightarrow> ks)"

definition addCacheIndex :: "cache_index \<Rightarrow> string \<Rightarrow> string \<Rightarrow> cache_index" where
  "addCacheIndex index i cacheKey = index(i \<mapsto> List.insert cacheKey (index_keys index i))"

definition deleteCacheIndex :: "cache_index \<Rightarrow> string \<Rightarrow> string \<Rightarrow> cache_index" where
  "deleteCacheIndex index i cacheKey =
     (let cacheKeys = removeAll cacheKey (index_keys index i) in
      if cacheKeys = [] then index(i := None) else index(i \<mapsto> cacheKeys))"

definition l1_remove :: "nat \<Rightarrow> l1_cache \<Rightarrow> l1_cache" where
  "l1_remove element cache =
     (case map_of (lcOrder cache) element of
        None \<Rightarrow> cache
      | Some entry \<Rightarrow>
          cache\<lparr>lcEntries := (lcEntries cache)(leCacheKey entry := None),
            lcKeys := deleteCacheIndex (lcKeys cache) (asAPIKeyID (leSnapshot entry)) (leCacheKey entry),
            lcTenants := deleteCacheIndex (lcTenants cache) (asTenantID (leSnapshot entry)) (leCacheKey entry),
            lcOrder := filter (\<lambda>x. fst x \<noteq> element) (lcOrder cache)\<rparr>)"

definition moveToFront :: "nat \<Rightarrow> l1_entry \<Rightarrow> l1_cache \<Rightarrow> l1_cache" where
  "moveToFront element entry cache =
     cache\<lparr>lcOrder := (element, entry) # filter (\<lambda>x. fst x \<noteq> element) (lcOrder cache)\<rparr>"

definition l1_Get :: "string \<Rightarrow> time \<Rightarrow> l1_cache \<Rightarrow> l1_cache \<times> l1_result" where
  "l1_Get cacheKey now cache =
     (case lcEntries cache cacheKey of
        None \<Rightarrow> (cache, L1Miss)
      | Some element \<Rightarrow>
          (case map_of (lcOrder cache) element of
             None \<Rightarrow> (cache, L1Miss)
           | Some entry \<Rightarrow>
               if \<not> now < leExpiresAt entry then (l1_remove element cache, L1Expired)
               else (moveToFront element entry cache, L1Hit (leSnapshot entry))))"

definition entry_expiry :: "duration \<Rightarrow> auth_snapshot \<Rightarrow> time \<Rightarrow> time" where
  "entry_expiry ttl snapshot now =
     (let expiresAt = now + ttl in
      if asCachedUntil snapshot \<noteq> 0 \<and> asCachedUntil snapshot < expiresAt then asCachedUntil snapshot else expiresAt)"

definition pushFront :: "l1_entry \<Rightarrow> l1_cache \<Rightarrow> l1_cache" where
  "pushFront entry cache =
     cache\<lparr>lcOrder := (lcFresh cache, entry) # lcOrder cache, lcFresh := lcFresh cache + 1,
       lcEntries := (lcEntries cache)(leCacheKey entry \<mapsto> lcFresh cache),
       lcKeys := addCacheIndex (lcKeys cache) (asAPIKeyID (leSnapshot entry)) (leCacheKey entry),
       lcTenants := addCacheIndex (lcTenants cache) (asTenantID (leSnapshot entry)) (leCacheKey entry)\<rparr>"

definition l1_Set :: "string \<Rightarrow> auth_snapshot \<Rightarrow> time \<Rightarrow> l1_cache \<Rightarrow> l1_cache \<times> bool" where
  "l1_Set cacheKey snapshot now cache =
     (let cache1 = (case lcEntries cache cacheKey of Some element \<Rightarrow> l1_remove element cache | None \<Rightarrow> cache);
          cache2 = pushFront \<lparr>leCacheKey = cacheKey, leSnapshot = snapshot,
            leExpiresAt = entry_expiry (lcTTL cache) snapshot now\<rparr> cache1 in
      if int (length (lcOrder cache2)) \<le> lcMaxEntries cache2 then (cache2, False)
      else (l1_remove (fst (last (lcOrder cache2))) cache2, True))"

fun deleteIndexed :: "string list \<Rightarrow> l1_cache \<Rightarrow> l1_cache \<times> int" where
  "deleteIndexed [] cache = (cache, 0)"
| "deleteIndexed (cacheKey # cacheKeys) cache =
     (case lcEntries cache cacheKey of
        None \<Rightarrow> deleteIndexed cacheKeys cache
      | Some element \<Rightarrow>
          (case deleteIndexed cacheKeys (l1_remove element cache) of (cache', removed) \<Rightarrow> (cache', removed + 1)))"

definition DeleteKey :: "(string list \<Rightarrow> string list) \<Rightarrow> string \<Rightarrow> l1_cache \<Rightarrow> l1_cache \<times> int" where
  "DeleteKey visit keyID cache = deleteIndexed (visit (index_keys (lcKeys cache) keyID)) cache"

definition DeleteTenant :: "(string list \<Rightarrow> string list) \<Rightarrow> string \<Rightarrow> l1_cache \<Rightarrow> l1_cache \<times> int" where
  "DeleteTenant visit tenantID cache = deleteIndexed (visit (index_keys (lcTenants cache) tenantID)) cache"

section \<open>The structure is consistent\<close>

definition l1_rows :: "l1_cache \<Rightarrow> l1_entry list" where
  "l1_rows cache = map snd (lcOrder cache)"

text \<open>An index lists the cache keys of each identifier, once, and keeps no empty lists.\<close>

definition cache_index_ok :: "(auth_snapshot \<Rightarrow> string) \<Rightarrow> cache_index \<Rightarrow> l1_entry list \<Rightarrow> bool" where
  "cache_index_ok sel index es \<longleftrightarrow>
     (\<forall>i. index i \<noteq> Some [] \<and> distinct (index_keys index i) \<and>
        set (index_keys index i) = leCacheKey ` {e \<in> set es. sel (leSnapshot e) = i})"

definition l1_ok :: "l1_cache \<Rightarrow> bool" where
  "l1_ok cache \<longleftrightarrow>
     distinct (map fst (lcOrder cache)) \<and> (\<forall>x \<in> set (lcOrder cache). fst x < lcFresh cache) \<and>
     distinct (map leCacheKey (l1_rows cache)) \<and>
     (\<forall>k a. lcEntries cache k = Some a \<longleftrightarrow> (\<exists>e. (a, e) \<in> set (lcOrder cache) \<and> leCacheKey e = k)) \<and>
     cache_index_ok asAPIKeyID (lcKeys cache) (l1_rows cache) \<and> cache_index_ok asTenantID (lcTenants cache) (l1_rows cache)"

lemma l1_okD:
  assumes "l1_ok cache"
  shows "distinct (map fst (lcOrder cache))" "\<And>x. x \<in> set (lcOrder cache) \<Longrightarrow> fst x < lcFresh cache"
    "distinct (map leCacheKey (l1_rows cache))"
    "\<And>k a. lcEntries cache k = Some a \<longleftrightarrow> (\<exists>e. (a, e) \<in> set (lcOrder cache) \<and> leCacheKey e = k)"
    "cache_index_ok asAPIKeyID (lcKeys cache) (l1_rows cache)" "cache_index_ok asTenantID (lcTenants cache) (l1_rows cache)"
  using assms unfolding l1_ok_def by blast+

lemma index_keys_upd [simp]:
  "index_keys (index(i \<mapsto> ks)) j = (if j = i then ks else index_keys index j)"
  "index_keys (index(i := None)) j = (if j = i then [] else index_keys index j)"
  by (simp_all add: index_keys_def)

lemma delete_index_ok:
  assumes "cache_index_ok sel index es" "e \<in> set es" "distinct (map leCacheKey es)"
  shows "cache_index_ok sel (deleteCacheIndex index (sel (leSnapshot e)) (leCacheKey e)) (filter (\<lambda>x. leCacheKey x \<noteq> leCacheKey e) es)"
proof -
  have same: "x = e" if "x \<in> set es" "leCacheKey x = leCacheKey e" for x
    using that assms(2,3) by (auto simp: distinct_map inj_on_def)
  have keys: "index_keys (deleteCacheIndex index (sel (leSnapshot e)) (leCacheKey e)) i =
      (if i = sel (leSnapshot e) then removeAll (leCacheKey e) (index_keys index i) else index_keys index i)" for i
    by (auto simp: deleteCacheIndex_def Let_def)
  show ?thesis
    unfolding cache_index_ok_def
  proof (intro allI conjI)
    fix i
    show "deleteCacheIndex index (sel (leSnapshot e)) (leCacheKey e) i \<noteq> Some []"
      using assms(1) by (auto simp: deleteCacheIndex_def Let_def cache_index_ok_def)
    show "distinct (index_keys (deleteCacheIndex index (sel (leSnapshot e)) (leCacheKey e)) i)"
      using assms(1) by (auto simp: keys cache_index_ok_def distinct_removeAll)
    show "set (index_keys (deleteCacheIndex index (sel (leSnapshot e)) (leCacheKey e)) i) =
        leCacheKey ` {x \<in> set (filter (\<lambda>x. leCacheKey x \<noteq> leCacheKey e) es). sel (leSnapshot x) = i}"
    proof -
      have "leCacheKey ` {x \<in> set (filter (\<lambda>x. leCacheKey x \<noteq> leCacheKey e) es). sel (leSnapshot x) = i} =
          leCacheKey ` {x \<in> set es. sel (leSnapshot x) = i} - {leCacheKey e}" by auto
      moreover have "leCacheKey e \<notin> leCacheKey ` {x \<in> set es. sel (leSnapshot x) = i}" if "i \<noteq> sel (leSnapshot e)"
        using that same by auto
      ultimately show ?thesis using assms(1) by (simp add: keys cache_index_ok_def)
    qed
  qed
qed

lemma add_index_ok:
  assumes "cache_index_ok sel index es" "leCacheKey e \<notin> leCacheKey ` set es"
  shows "cache_index_ok sel (addCacheIndex index (sel (leSnapshot e)) (leCacheKey e)) (e # es)"
  using assms unfolding cache_index_ok_def addCacheIndex_def
  by (auto simp: distinct_insert List.insert_def)

lemma cache_index_ok_cong: "set es = set es' \<Longrightarrow> cache_index_ok sel index es = cache_index_ok sel index es'"
  by (simp add: cache_index_ok_def)

lemma order_find: "l1_ok cache \<Longrightarrow> (a, e) \<in> set (lcOrder cache) \<Longrightarrow> map_of (lcOrder cache) a = Some e"
  by (rule map_of_is_SomeI) (simp_all add: l1_okD)

lemma order_same:
  assumes "l1_ok cache" "(a, e) \<in> set (lcOrder cache)" "x \<in> set (lcOrder cache)"
  shows "fst x = a \<longleftrightarrow> leCacheKey (snd x) = leCacheKey e"
proof
  assume "fst x = a"
  with assms l1_okD(1) [OF assms(1)] have "x = (a, e)" by (metis eq_key_imp_eq_value surjective_pairing)
  then show "leCacheKey (snd x) = leCacheKey e" by simp
next
  assume "leCacheKey (snd x) = leCacheKey e"
  then have "lcEntries cache (leCacheKey e) = Some (fst x)" "lcEntries cache (leCacheKey e) = Some a"
    using assms(2,3) l1_okD(4) [OF assms(1)] by (metis surjective_pairing)+
  then show "fst x = a" by simp
qed

lemma rows_without:
  assumes "l1_ok cache" "(a, e) \<in> set (lcOrder cache)"
  shows "map snd (filter (\<lambda>x. fst x \<noteq> a) (lcOrder cache)) = filter (\<lambda>x. leCacheKey x \<noteq> leCacheKey e) (l1_rows cache)"
proof -
  have "filter (\<lambda>x. fst x \<noteq> a) (lcOrder cache) = filter (\<lambda>x. leCacheKey (snd x) \<noteq> leCacheKey e) (lcOrder cache)"
    using order_same [OF assms] by (intro filter_cong) auto
  then show ?thesis by (simp add: l1_rows_def filter_map comp_def)
qed

lemma rows_mem: "(a, e) \<in> set (lcOrder cache) \<Longrightarrow> e \<in> set (l1_rows cache)"
  by (force simp: l1_rows_def)

lemma l1_remove_ok:
  assumes ok: "l1_ok cache" and e: "(a, e) \<in> set (lcOrder cache)"
  shows "l1_ok (l1_remove a cache)"
    and "l1_rows (l1_remove a cache) = filter (\<lambda>x. leCacheKey x \<noteq> leCacheKey e) (l1_rows cache)"
    and "lcMaxEntries (l1_remove a cache) = lcMaxEntries cache" "lcTTL (l1_remove a cache) = lcTTL cache"
proof -
  let ?c = "l1_remove a cache"
  have c: "lcOrder ?c = filter (\<lambda>x. fst x \<noteq> a) (lcOrder cache)" "lcEntries ?c = (lcEntries cache)(leCacheKey e := None)"
    "lcKeys ?c = deleteCacheIndex (lcKeys cache) (asAPIKeyID (leSnapshot e)) (leCacheKey e)"
    "lcTenants ?c = deleteCacheIndex (lcTenants cache) (asTenantID (leSnapshot e)) (leCacheKey e)" "lcFresh ?c = lcFresh cache"
    by (simp_all add: l1_remove_def order_find [OF ok e])
  show "lcMaxEntries ?c = lcMaxEntries cache" "lcTTL ?c = lcTTL cache" by (simp_all add: l1_remove_def split: option.split)
  show rows: "l1_rows ?c = filter (\<lambda>x. leCacheKey x \<noteq> leCacheKey e) (l1_rows cache)"
    using rows_without [OF ok e] by (simp add: l1_rows_def c)
  have entries: "lcEntries ?c k = Some b \<longleftrightarrow> (\<exists>f. (b, f) \<in> set (lcOrder ?c) \<and> leCacheKey f = k)" for k b
  proof (cases "k = leCacheKey e")
    case True
    then show ?thesis using order_same [OF ok e] by (auto simp: c)
  next
    case False
    then have "(b, f) \<in> set (lcOrder cache) \<Longrightarrow> leCacheKey f = k \<Longrightarrow> b \<noteq> a" for f
      using order_same [OF ok e, of "(b, f)"] by simp
    with False l1_okD(4) [OF ok, of k b] show ?thesis by (auto simp: c)
  qed
  have "distinct (map fst (lcOrder ?c))" "\<forall>x \<in> set (lcOrder ?c). fst x < lcFresh ?c" "distinct (map leCacheKey (l1_rows ?c))"
    using l1_okD(1-3) [OF ok] unfolding rows by (auto simp: c distinct_map_filter)
  moreover have "cache_index_ok asAPIKeyID (lcKeys ?c) (l1_rows ?c)" "cache_index_ok asTenantID (lcTenants ?c) (l1_rows ?c)"
    unfolding rows c using l1_okD(3,5,6) [OF ok] delete_index_ok rows_mem [OF e] by blast+
  ultimately show "l1_ok ?c" unfolding l1_ok_def using entries by blast
qed

lemma moveToFront_ok:
  assumes ok: "l1_ok cache" and e: "(a, e) \<in> set (lcOrder cache)"
  shows "l1_ok (moveToFront a e cache)"
    and "l1_rows (moveToFront a e cache) = e # filter (\<lambda>x. leCacheKey x \<noteq> leCacheKey e) (l1_rows cache)"
proof -
  let ?c = "moveToFront a e cache"
  have c: "lcOrder ?c = (a, e) # filter (\<lambda>x. fst x \<noteq> a) (lcOrder cache)" "lcEntries ?c = lcEntries cache"
    "lcKeys ?c = lcKeys cache" "lcTenants ?c = lcTenants cache" "lcFresh ?c = lcFresh cache"
    by (simp_all add: moveToFront_def)
  show rows: "l1_rows ?c = e # filter (\<lambda>x. leCacheKey x \<noteq> leCacheKey e) (l1_rows cache)"
    using rows_without [OF ok e] by (simp add: l1_rows_def c)
  have same: "set (lcOrder ?c) = set (lcOrder cache)"
    using e l1_okD(1) [OF ok] by (auto simp: c dest: eq_key_imp_eq_value)
  then have "set (l1_rows ?c) = set (l1_rows cache)" by (simp add: l1_rows_def)
  from cache_index_ok_cong [OF this] same l1_okD [OF ok] show "l1_ok ?c"
    unfolding l1_ok_def rows by (auto simp: c distinct_map_filter)
qed

lemma pushFront_ok:
  assumes ok: "l1_ok cache" and fresh: "leCacheKey e \<notin> leCacheKey ` set (l1_rows cache)"
  shows "l1_ok (pushFront e cache)" and "l1_rows (pushFront e cache) = e # l1_rows cache"
proof -
  let ?c = "pushFront e cache"
  have c: "lcOrder ?c = (lcFresh cache, e) # lcOrder cache" "lcEntries ?c = (lcEntries cache)(leCacheKey e \<mapsto> lcFresh cache)"
    "lcKeys ?c = addCacheIndex (lcKeys cache) (asAPIKeyID (leSnapshot e)) (leCacheKey e)"
    "lcTenants ?c = addCacheIndex (lcTenants cache) (asTenantID (leSnapshot e)) (leCacheKey e)" "lcFresh ?c = lcFresh cache + 1"
    by (simp_all add: pushFront_def)
  show rows: "l1_rows ?c = e # l1_rows cache" by (simp add: l1_rows_def c)
  have "lcEntries ?c k = Some b \<longleftrightarrow> (\<exists>f. (b, f) \<in> set (lcOrder ?c) \<and> leCacheKey f = k)" for k b
  proof (cases "k = leCacheKey e")
    case True
    have "(b, f) \<notin> set (lcOrder cache)" if "leCacheKey f = k" for f
      using that True fresh rows_mem [of b f cache] by (metis imageI)
    with True show ?thesis by (auto simp: c)
  next
    case False
    with l1_okD(4) [OF ok, of k b] show ?thesis by (auto simp: c)
  qed
  moreover have "distinct (map fst (lcOrder ?c))" "\<forall>x \<in> set (lcOrder ?c). fst x < lcFresh ?c" "distinct (map leCacheKey (l1_rows ?c))"
    using l1_okD(1-3) [OF ok] fresh unfolding rows by (fastforce simp: c)+
  moreover have "cache_index_ok asAPIKeyID (lcKeys ?c) (l1_rows ?c)" "cache_index_ok asTenantID (lcTenants ?c) (l1_rows ?c)"
    unfolding rows c using l1_okD(5,6) [OF ok] add_index_ok fresh by blast+
  ultimately show "l1_ok ?c" unfolding l1_ok_def by blast
qed

section \<open>The cache refines a list of entries\<close>

definition lru_get :: "string \<Rightarrow> time \<Rightarrow> l1_entry list \<Rightarrow> l1_entry list \<times> l1_result" where
  "lru_get k now es =
     (case find (\<lambda>e. leCacheKey e = k) es of
        None \<Rightarrow> (es, L1Miss)
      | Some e \<Rightarrow>
          if leExpiresAt e \<le> now then (filter (\<lambda>x. leCacheKey x \<noteq> k) es, L1Expired)
          else (e # filter (\<lambda>x. leCacheKey x \<noteq> k) es, L1Hit (leSnapshot e)))"

definition lru_set :: "int \<Rightarrow> duration \<Rightarrow> string \<Rightarrow> auth_snapshot \<Rightarrow> time \<Rightarrow> l1_entry list \<Rightarrow> l1_entry list \<times> bool" where
  "lru_set maximum ttl k snapshot now es =
     (let es' = \<lparr>leCacheKey = k, leSnapshot = snapshot, leExpiresAt = entry_expiry ttl snapshot now\<rparr> #
            filter (\<lambda>x. leCacheKey x \<noteq> k) es in
      if int (length es') \<le> maximum then (es', False) else (butlast es', True))"

definition lru_delete :: "(l1_entry \<Rightarrow> bool) \<Rightarrow> l1_entry list \<Rightarrow> l1_entry list \<times> int" where
  "lru_delete P es = (filter (\<lambda>e. \<not> P e) es, int (length (filter P es)))"

lemma entries_find:
  assumes ok: "l1_ok cache"
  shows "(case lcEntries cache k of None \<Rightarrow> find (\<lambda>e. leCacheKey e = k) (l1_rows cache) = None
    | Some a \<Rightarrow> \<exists>e. (a, e) \<in> set (lcOrder cache) \<and> leCacheKey e = k \<and> find (\<lambda>e. leCacheKey e = k) (l1_rows cache) = Some e)"
proof (cases "lcEntries cache k")
  case None
  then have "\<not> (\<exists>e \<in> set (l1_rows cache). leCacheKey e = k)"
    using l1_okD(4) [OF ok, of k] by (fastforce simp: l1_rows_def)
  with None show ?thesis by (simp add: find_None_iff)
next
  case (Some a)
  then obtain e where e: "(a, e) \<in> set (lcOrder cache)" "leCacheKey e = k" using l1_okD(4) [OF ok] by blast
  then have "find (\<lambda>e. leCacheKey e = k) (l1_rows cache) \<noteq> None"
    unfolding find_None_iff using rows_mem [of a e cache] by blast
  then obtain f where f: "find (\<lambda>e. leCacheKey e = k) (l1_rows cache) = Some f" by blast
  then have "f \<in> set (l1_rows cache)" "leCacheKey f = k" by (auto simp: find_Some_iff)
  with e rows_mem [OF e(1)] l1_okD(3) [OF ok] have "f = e" by (auto simp: distinct_map inj_on_def)
  with Some e f show ?thesis by auto
qed

lemma l1_Get_refines:
  assumes ok: "l1_ok cache"
  shows "l1_ok (fst (l1_Get k now cache))" "lru_get k now (l1_rows cache) = apfst l1_rows (l1_Get k now cache)"
    "lcMaxEntries (fst (l1_Get k now cache)) = lcMaxEntries cache" "lcTTL (fst (l1_Get k now cache)) = lcTTL cache"
proof -
  have "l1_ok (fst (l1_Get k now cache)) \<and> lru_get k now (l1_rows cache) = apfst l1_rows (l1_Get k now cache) \<and>
    lcMaxEntries (fst (l1_Get k now cache)) = lcMaxEntries cache \<and> lcTTL (fst (l1_Get k now cache)) = lcTTL cache"
  proof (cases "lcEntries cache k")
    case None
    with entries_find [OF ok, of k] ok show ?thesis by (simp add: l1_Get_def lru_get_def)
  next
    case (Some a)
    with entries_find [OF ok, of k] obtain e where e: "(a, e) \<in> set (lcOrder cache)" "leCacheKey e = k"
      "find (\<lambda>e. leCacheKey e = k) (l1_rows cache) = Some e" by auto
    with Some l1_remove_ok [OF ok e(1)] moveToFront_ok [OF ok e(1)] order_find [OF ok e(1)] show ?thesis
      by (simp add: l1_Get_def lru_get_def) (simp add: moveToFront_def)
  qed
  then show "l1_ok (fst (l1_Get k now cache))" "lru_get k now (l1_rows cache) = apfst l1_rows (l1_Get k now cache)"
    "lcMaxEntries (fst (l1_Get k now cache)) = lcMaxEntries cache" "lcTTL (fst (l1_Get k now cache)) = lcTTL cache" by simp_all
qed

lemma without_key:
  fixes k :: string
  assumes ok: "l1_ok cache"
  defines "c1 \<equiv> (case lcEntries cache k of Some element \<Rightarrow> l1_remove element cache | None \<Rightarrow> cache)"
  shows "l1_ok c1" "l1_rows c1 = filter (\<lambda>x. leCacheKey x \<noteq> k) (l1_rows cache)"
    "lcMaxEntries c1 = lcMaxEntries cache" "lcTTL c1 = lcTTL cache"
proof -
  have "l1_ok c1 \<and> l1_rows c1 = filter (\<lambda>x. leCacheKey x \<noteq> k) (l1_rows cache) \<and> lcMaxEntries c1 = lcMaxEntries cache \<and> lcTTL c1 = lcTTL cache"
  proof (cases "lcEntries cache k")
    case None
    with entries_find [OF ok, of k] have "filter (\<lambda>x. leCacheKey x \<noteq> k) (l1_rows cache) = l1_rows cache"
      by (auto simp: find_None_iff filter_id_conv)
    with None ok show ?thesis by (simp add: c1_def)
  next
    case (Some a)
    with entries_find [OF ok, of k] obtain e where "(a, e) \<in> set (lcOrder cache)" "leCacheKey e = k" by auto
    with Some l1_remove_ok [OF ok this(1)] show ?thesis by (simp add: c1_def)
  qed
  then show "l1_ok c1" "l1_rows c1 = filter (\<lambda>x. leCacheKey x \<noteq> k) (l1_rows cache)"
    "lcMaxEntries c1 = lcMaxEntries cache" "lcTTL c1 = lcTTL cache" by simp_all
qed

lemma filter_not_last:
  assumes "distinct (map f xs)" "xs \<noteq> []"
  shows "filter (\<lambda>x. f x \<noteq> f (last xs)) xs = butlast xs"
proof -
  obtain ys y where xs: "xs = ys @ [y]" using assms(2) by (cases xs rule: rev_cases) auto
  with assms(1) have "f y \<notin> f ` set ys" by simp
  then have "filter (\<lambda>x. f x \<noteq> f y) ys = ys" unfolding filter_id_conv by (metis imageI)
  with xs show ?thesis by simp
qed

lemma l1_Set_refines:
  assumes ok: "l1_ok cache"
  shows "l1_ok (fst (l1_Set k s now cache))"
    "lru_set (lcMaxEntries cache) (lcTTL cache) k s now (l1_rows cache) = apfst l1_rows (l1_Set k s now cache)"
    "lcMaxEntries (fst (l1_Set k s now cache)) = lcMaxEntries cache" "lcTTL (fst (l1_Set k s now cache)) = lcTTL cache"
proof -
  define c1 where "c1 = (case lcEntries cache k of Some element \<Rightarrow> l1_remove element cache | None \<Rightarrow> cache)"
  define e where "e = \<lparr>leCacheKey = k, leSnapshot = s, leExpiresAt = entry_expiry (lcTTL cache) s now\<rparr>"
  define c2 where "c2 = pushFront e c1"
  note w = without_key [OF ok, of k, folded c1_def]
  have "leCacheKey e \<notin> leCacheKey ` set (l1_rows c1)" by (auto simp: w e_def)
  note p = pushFront_ok [OF w(1) this, folded c2_def]
  have fields: "lcMaxEntries c2 = lcMaxEntries cache" "lcTTL c2 = lcTTL cache" using w by (simp_all add: c2_def pushFront_def)
  have len: "length (lcOrder c2) = length (l1_rows c2)" by (simp add: l1_rows_def)
  have "lcOrder c2 \<noteq> []" by (simp add: c2_def pushFront_def)
  then have last: "(fst (last (lcOrder c2)), snd (last (lcOrder c2))) \<in> set (lcOrder c2)" "snd (last (lcOrder c2)) = last (l1_rows c2)"
    "l1_rows c2 \<noteq> []" by (simp_all add: l1_rows_def last_map)
  note r = l1_remove_ok [OF p(1) last(1)]
  have "l1_rows (l1_remove (fst (last (lcOrder c2))) c2) = butlast (l1_rows c2)"
    using filter_not_last [OF l1_okD(3) [OF p(1)] last(3)] by (simp add: r(2) last(2))
  moreover have run: "l1_Set k s now cache = (if int (length (l1_rows c2)) \<le> lcMaxEntries cache then (c2, False)
      else (l1_remove (fst (last (lcOrder c2))) c2, True))"
    by (simp add: l1_Set_def Let_def len fields flip: c1_def e_def c2_def)
  ultimately show "l1_ok (fst (l1_Set k s now cache))"
    "lru_set (lcMaxEntries cache) (lcTTL cache) k s now (l1_rows cache) = apfst l1_rows (l1_Set k s now cache)"
    "lcMaxEntries (fst (l1_Set k s now cache)) = lcMaxEntries cache" "lcTTL (fst (l1_Set k s now cache)) = lcTTL cache"
    using p r(1,3,4) fields by (simp_all add: lru_set_def Let_def w(2) flip: e_def)
qed

lemma filter_key_one: "distinct (map f xs) \<Longrightarrow> e \<in> set xs \<Longrightarrow> length (filter (\<lambda>x. f x = f e) xs) = 1"
proof (induction xs)
  case (Cons a xs)
  have "filter (\<lambda>x. f x = f a) xs = []" using Cons.prems(1) by (auto simp: filter_empty_conv image_iff)
  with Cons show ?case by (cases "e = a") (auto simp: image_iff)
qed simp

lemma filter_key_split:
  "k \<notin> A \<Longrightarrow> length (filter (\<lambda>x. f x = k \<or> f x \<in> A) xs) =
     length (filter (\<lambda>x. f x = k) xs) + length (filter (\<lambda>x. f x \<in> A) (filter (\<lambda>x. f x \<noteq> k) xs))"
  by (induction xs) auto

lemma deleteIndexed_ok:
  assumes "l1_ok cache" "distinct ks"
  shows "l1_ok (fst (deleteIndexed ks cache)) \<and>
    l1_rows (fst (deleteIndexed ks cache)) = filter (\<lambda>e. leCacheKey e \<notin> set ks) (l1_rows cache) \<and>
    snd (deleteIndexed ks cache) = int (length (filter (\<lambda>e. leCacheKey e \<in> set ks) (l1_rows cache))) \<and>
    lcMaxEntries (fst (deleteIndexed ks cache)) = lcMaxEntries cache \<and> lcTTL (fst (deleteIndexed ks cache)) = lcTTL cache"
  using assms
proof (induction ks arbitrary: cache)
  case (Cons k ks)
  note w = without_key [OF Cons.prems(1), of k]
  show ?case
  proof (cases "lcEntries cache k")
    case None
    then have no: "\<forall>e \<in> set (l1_rows cache). leCacheKey e \<noteq> k"
      using entries_find [OF Cons.prems(1), of k] by (simp add: find_None_iff)
    then have "filter (\<lambda>e. leCacheKey e \<noteq> k \<and> leCacheKey e \<notin> set ks) (l1_rows cache) = filter (\<lambda>e. leCacheKey e \<notin> set ks) (l1_rows cache)"
      "filter (\<lambda>e. leCacheKey e = k \<or> leCacheKey e \<in> set ks) (l1_rows cache) = filter (\<lambda>e. leCacheKey e \<in> set ks) (l1_rows cache)"
      by (auto intro: filter_cong)
    with None Cons.IH [OF Cons.prems(1)] Cons.prems(2) show ?thesis by simp
  next
    case (Some a)
    with w have c1: "l1_ok (l1_remove a cache)" "l1_rows (l1_remove a cache) = filter (\<lambda>x. leCacheKey x \<noteq> k) (l1_rows cache)"
      "lcMaxEntries (l1_remove a cache) = lcMaxEntries cache" "lcTTL (l1_remove a cache) = lcTTL cache" by simp_all
    obtain e where e: "(a, e) \<in> set (lcOrder cache)" "leCacheKey e = k"
      using entries_find [OF Cons.prems(1), of k] Some by auto
    have one: "length (filter (\<lambda>x. leCacheKey x = k) (l1_rows cache)) = 1"
      using filter_key_one [OF l1_okD(3) [OF Cons.prems(1)] rows_mem [OF e(1)]] e(2) by simp
    have "length (filter (\<lambda>x. leCacheKey x = k \<or> leCacheKey x \<in> set ks) (l1_rows cache)) =
        length (filter (\<lambda>x. leCacheKey x = k) (l1_rows cache)) +
        length (filter (\<lambda>x. leCacheKey x \<in> set ks) (filter (\<lambda>x. leCacheKey x \<noteq> k) (l1_rows cache)))"
      using Cons.prems(2) by (intro filter_key_split) simp
    with one Cons.IH [OF c1(1)] Cons.prems(2) Some c1 show ?thesis by (simp add: split_beta conj_commute)
  qed
qed simp

lemma index_selects:
  assumes "l1_ok cache" "cache_index_ok sel index (l1_rows cache)" "e \<in> set (l1_rows cache)"
  shows "leCacheKey e \<in> set (index_keys index i) \<longleftrightarrow> sel (leSnapshot e) = i"
  using assms(2,3) l1_okD(3) [OF assms(1)] by (auto simp: cache_index_ok_def distinct_map inj_on_def image_iff)

lemma delete_refines:
  assumes ok: "l1_ok cache" and index: "cache_index_ok sel index (l1_rows cache)"
    and visit: "mset (visit (index_keys index i)) = mset (index_keys index i)"
  shows "l1_ok (fst (deleteIndexed (visit (index_keys index i)) cache))"
    "lru_delete (\<lambda>e. sel (leSnapshot e) = i) (l1_rows cache) = apfst l1_rows (deleteIndexed (visit (index_keys index i)) cache)"
    "lcMaxEntries (fst (deleteIndexed (visit (index_keys index i)) cache)) = lcMaxEntries cache"
    "lcTTL (fst (deleteIndexed (visit (index_keys index i)) cache)) = lcTTL cache"
proof -
  let ?ks = "visit (index_keys index i)"
  have set: "set ?ks = set (index_keys index i)" using mset_eq_setD [OF visit] .
  have "distinct (index_keys index i)" using index by (simp add: cache_index_ok_def)
  then have "distinct ?ks" using mset_eq_imp_distinct_iff [OF visit] by simp
  note d = deleteIndexed_ok [OF ok this]
  then show "l1_ok (fst (deleteIndexed ?ks cache))" "lcMaxEntries (fst (deleteIndexed ?ks cache)) = lcMaxEntries cache"
    "lcTTL (fst (deleteIndexed ?ks cache)) = lcTTL cache" by simp_all
  have "filter (\<lambda>e. leCacheKey e \<notin> set ?ks) (l1_rows cache) = filter (\<lambda>e. sel (leSnapshot e) \<noteq> i) (l1_rows cache)"
    "filter (\<lambda>e. leCacheKey e \<in> set ?ks) (l1_rows cache) = filter (\<lambda>e. sel (leSnapshot e) = i) (l1_rows cache)"
    using index_selects [OF ok index] by (auto simp: set intro!: filter_cong)
  with d show "lru_delete (\<lambda>e. sel (leSnapshot e) = i) (l1_rows cache) = apfst l1_rows (deleteIndexed ?ks cache)"
    by (simp add: lru_delete_def apfst_def map_prod_def split_beta)
qed

datatype l1_op =
    L1Get string time
  | L1Set string auth_snapshot time
  | L1DeleteKey "string list \<Rightarrow> string list" string
  | L1DeleteTenant "string list \<Rightarrow> string list" string

datatype l1_out = OutGet l1_result | OutSet bool | OutDelete int

fun l1_step :: "l1_op \<Rightarrow> l1_cache \<Rightarrow> l1_cache \<times> l1_out" where
  "l1_step (L1Get k now) cache = apsnd OutGet (l1_Get k now cache)"
| "l1_step (L1Set k s now) cache = apsnd OutSet (l1_Set k s now cache)"
| "l1_step (L1DeleteKey visit i) cache = apsnd OutDelete (DeleteKey visit i cache)"
| "l1_step (L1DeleteTenant visit i) cache = apsnd OutDelete (DeleteTenant visit i cache)"

fun lru_step :: "int \<Rightarrow> duration \<Rightarrow> l1_op \<Rightarrow> l1_entry list \<Rightarrow> l1_entry list \<times> l1_out" where
  "lru_step maximum ttl (L1Get k now) es = apsnd OutGet (lru_get k now es)"
| "lru_step maximum ttl (L1Set k s now) es = apsnd OutSet (lru_set maximum ttl k s now es)"
| "lru_step maximum ttl (L1DeleteKey visit i) es = apsnd OutDelete (lru_delete (\<lambda>e. asAPIKeyID (leSnapshot e) = i) es)"
| "lru_step maximum ttl (L1DeleteTenant visit i) es = apsnd OutDelete (lru_delete (\<lambda>e. asTenantID (leSnapshot e) = i) es)"

fun run_ops :: "('op \<Rightarrow> 's \<Rightarrow> 's \<times> 'out) \<Rightarrow> 'op list \<Rightarrow> 's \<Rightarrow> 's \<times> 'out list" where
  "run_ops step [] s = (s, [])"
| "run_ops step (op # ops) s =
     (case step op s of (s', out) \<Rightarrow> (case run_ops step ops s' of (s'', outs) \<Rightarrow> (s'', out # outs)))"

fun visits_all :: "l1_op \<Rightarrow> bool" where
  "visits_all (L1DeleteKey visit i) \<longleftrightarrow> (\<forall>ks. mset (visit ks) = mset ks)"
| "visits_all (L1DeleteTenant visit i) \<longleftrightarrow> (\<forall>ks. mset (visit ks) = mset ks)"
| "visits_all _ \<longleftrightarrow> True"

lemma l1_step_refines:
  assumes "l1_ok cache" "visits_all op"
  shows "l1_ok (fst (l1_step op cache)) \<and> lcMaxEntries (fst (l1_step op cache)) = lcMaxEntries cache \<and>
    lcTTL (fst (l1_step op cache)) = lcTTL cache \<and>
    lru_step (lcMaxEntries cache) (lcTTL cache) op (l1_rows cache) = apfst l1_rows (l1_step op cache)"
proof (cases op)
  case (L1Get k now)
  with l1_Get_refines [OF assms(1), of k now] show ?thesis by (simp add: apfst_def apsnd_def map_prod_def split_beta)
next
  case (L1Set k s now)
  with l1_Set_refines [OF assms(1), of k s now] show ?thesis by (simp add: apfst_def apsnd_def map_prod_def split_beta)
next
  case (L1DeleteKey visit i)
  with delete_refines [OF assms(1) l1_okD(5) [OF assms(1)], of visit i] assms(2) show ?thesis
    by (simp add: DeleteKey_def apfst_def apsnd_def map_prod_def split_beta)
next
  case (L1DeleteTenant visit i)
  with delete_refines [OF assms(1) l1_okD(6) [OF assms(1)], of visit i] assms(2) show ?thesis
    by (simp add: DeleteTenant_def apfst_def apsnd_def map_prod_def split_beta)
qed

lemma l1_run_refines:
  assumes "l1_ok cache" "\<forall>op \<in> set ops. visits_all op"
  shows "l1_ok (fst (run_ops l1_step ops cache)) \<and>
    run_ops (lru_step (lcMaxEntries cache) (lcTTL cache)) ops (l1_rows cache) = apfst l1_rows (run_ops l1_step ops cache)"
  using assms
proof (induction ops arbitrary: cache)
  case (Cons op ops)
  then have op: "visits_all op" and ops: "\<forall>op \<in> set ops. visits_all op" by simp_all
  note s = l1_step_refines [OF Cons.prems(1) op]
  with Cons.IH [of "fst (l1_step op cache)"] ops show ?case
    by (simp add: apfst_def map_prod_def split_beta)
qed simp

lemma filter_bounded: "int (length es) \<le> maximum \<Longrightarrow> int (length (filter P es)) \<le> maximum"
  using length_filter_le [of P es] by linarith

lemma lru_step_bounded:
  assumes "1 \<le> maximum" "int (length es) \<le> maximum"
  shows "int (length (fst (lru_step maximum ttl op es))) \<le> maximum"
proof (cases op)
  case (L1Get k now)
  show ?thesis
  proof (cases "find (\<lambda>e. leCacheKey e = k) es")
    case (Some e)
    then have "e \<in> set es" "leCacheKey e = k" by (auto simp: find_Some_iff)
    then have "length (filter (\<lambda>x. leCacheKey x \<noteq> k) es) < length es" by (auto intro: length_filter_less)
    with Some L1Get assms show ?thesis by (simp add: lru_get_def)
  qed (use L1Get assms in \<open>simp add: lru_get_def\<close>)
qed (use assms filter_bounded [OF assms(2)] in \<open>simp_all add: lru_set_def lru_delete_def Let_def\<close>)

lemma lru_run_bounded:
  "1 \<le> maximum \<Longrightarrow> int (length es) \<le> maximum \<Longrightarrow> int (length (fst (run_ops (lru_step maximum ttl) ops es))) \<le> maximum"
  by (induction ops arbitrary: es) (simp_all add: split_beta lru_step_bounded)

lemma newL1Cache_ok: "l1_ok (newL1Cache maximum ttl)" "l1_rows (newL1Cache maximum ttl) = []"
  by (simp_all add: newL1Cache_def l1_ok_def l1_rows_def cache_index_ok_def index_keys_def)

text \<open>
  Claim C24: the snapshot cache is a bounded list of entries, most recently used first. For every sequence of
  operations, in whatever order Go ranges over the indexes, \<open>Get\<close>, \<open>Set\<close>, \<open>DeleteKey\<close> and
  \<open>DeleteTenant\<close> answer exactly as on that list: a hit is the entry last stored under the key and not
  yet expired, a deletion removes exactly the entries of the API key or tenant, an insertion over the
  limit drops the least recently used entry; and the list never grows beyond the limit.
\<close>
theorem l1_cache_refines_lru:
  assumes "1 \<le> maximum" "\<forall>op \<in> set ops. visits_all op"
  shows "run_ops (lru_step maximum ttl) ops [] = apfst l1_rows (run_ops l1_step ops (newL1Cache maximum ttl)) \<and>
    int (length (lcOrder (fst (run_ops l1_step ops (newL1Cache maximum ttl))))) \<le> maximum"
proof -
  have "run_ops (lru_step maximum ttl) ops [] = apfst l1_rows (run_ops l1_step ops (newL1Cache maximum ttl))"
    using l1_run_refines [OF newL1Cache_ok(1) assms(2), of maximum ttl] by (simp add: newL1Cache_ok(2)) (simp add: newL1Cache_def)
  moreover from this lru_run_bounded [OF assms(1), of "[]" ttl ops]
  have "int (length (l1_rows (fst (run_ops l1_step ops (newL1Cache maximum ttl))))) \<le> maximum" using assms(1) by simp
  ultimately show ?thesis by (simp add: l1_rows_def)
qed

definition sample_snapshot :: auth_snapshot where
  "sample_snapshot = \<lparr>asVersion = 1, asAPIKeyID = ''k'', asTenantID = ''t'', asKeyPrefix = ''p'', asLookupDigest = [],
     asKeyHash = [], asHashVersion = 1, asKeyStatus = APIKeyActive, asKeyExpiresAt = None, asLastUsedAt = None,
     asTenantStatus = TenantActive, asTenantVersion = 1, asAllowedModels = [''*''], asGeneratedAt = 1, asCachedUntil = 0\<rparr>"

theorem l1_cache_refines_lru_witness:
  "snd (run_ops l1_step [L1Set ''a'' sample_snapshot 5, L1Get ''a'' 6, L1DeleteKey rev ''k'', L1Get ''a'' 7] (newL1Cache 2 10)) =
     [OutSet False, OutGet (L1Hit sample_snapshot), OutDelete 1, OutGet L1Miss]"
proof -
  let ?ops = "[L1Set ''a'' sample_snapshot 5, L1Get ''a'' 6, L1DeleteKey rev ''k'', L1Get ''a'' 7]"
  have "snd (run_ops (lru_step 2 10) ?ops []) = [OutSet False, OutGet (L1Hit sample_snapshot), OutDelete 1, OutGet L1Miss]"
    by (simp add: lru_set_def lru_get_def lru_delete_def entry_expiry_def sample_snapshot_def)
  with l1_cache_refines_lru [of 2 ?ops 10] show ?thesis by simp
qed

end
