(* ===== verification/AuthStore.thy ===== *)
theory AuthStore
  imports AuthCache Quota
begin

text \<open>
  The tables of tenants, API keys and model grants, the snapshot a key is authenticated with
  (\<open>internal/apikey/snapshot.go\<close>), and the store that keeps snapshots in process and in a shared cache
  (\<open>cache.go\<close>). The shared cache is Redis: its answer to a \<open>Load\<close> is an argument (\<open>shared_load\<close>, with the
  snapshot its payload decodes to), and what the store asks of it is recorded in order
  (\<open>shared_cmd\<close>). What other requests do to the store and the tables between two atomic steps of a
  load is the argument \<open>ldOthers\<close>; \<open>invalidationMu\<close> makes an invalidation, and the check of the
  generation together with the writes after it, single steps. Metrics are left out.
\<close>

section \<open>Tables\<close>

record tenant_row =
  teID :: string
  teSlug :: string
  teDisplayName :: string
  teStatus :: string
  teVersion :: uint64
  teCreatedAt :: time
  teUpdatedAt :: time

record key_row =
  akID :: string
  akTenantID :: string
  akLabel :: string
  akKeyPrefix :: string
  akLookupDigest :: string
  akKeyHash :: string
  akHashVersion :: int
  akStatus :: string
  akExpiresAt :: "time option"
  akLastUsedAt :: "time option"
  akRevokedAt :: "time option"
  akCreatedAt :: time
  akUpdatedAt :: time

record grant_row =
  grTenantID :: string
  grGatewayModel :: string
  grCreatedAt :: time

datatype key_error =
    ErrInvalidInput string | ErrTenantAlreadyExists | ErrNoSuchTenant | ErrKeyNotFound | ErrInvalidCredential
  | ErrKeyInactive | ErrKeyRevoked | ErrKeyExpired | ErrTenantInactive | ErrModelNotAllowed
  | ErrTenantVersionConflict | ErrSnapshotNotFound | ErrRecordNotFound | ErrContext string | KeyError string

section \<open>Snapshots\<close>

definition authSnapshotVersion :: int where "authSnapshotVersion = 1"

text \<open>\<open>utf8.RuneCountInString\<close>: a byte that starts no rune counts as one.\<close>

function rune_count :: "string \<Rightarrow> nat" where
  "rune_count [] = 0"
| "rune_count (c # cs) =
     (case utf8_first c of
        None \<Rightarrow> Suc (rune_count cs)
      | Some rs \<Rightarrow> (case utf8_take rs cs of None \<Rightarrow> Suc (rune_count cs) | Some (_, rest) \<Rightarrow> Suc (rune_count rest)))"
  by pat_completeness auto
termination
  by (relation "measure length") (auto dest!: utf8_take_shorter)

definition models_normalize :: "string list \<Rightarrow> key_error + string list" where
  "models_normalize models =
     (if list_ex (\<lambda>m. trim_space m = [] \<or> rune_count (trim_space m) > 200) models
      then Inl (ErrInvalidInput ''model names must contain 1-200 characters'')
      else Inr (sort (remdups (map trim_space models))))"

record identity =
  idTenantID :: string
  idAPIKeyID :: string
  idKeyPrefix :: string
  idAuthorization :: "string list option"

definition snapshot_identity :: "auth_snapshot \<Rightarrow> identity" where
  "snapshot_identity s =
     \<lparr>idTenantID = asTenantID s, idAPIKeyID = asAPIKeyID s, idKeyPrefix = asKeyPrefix s,
      idAuthorization = Some (asAllowedModels s)\<rparr>"

definition snapshot_validate :: "string \<Rightarrow> time \<Rightarrow> bool \<Rightarrow> auth_snapshot \<Rightarrow> key_error + auth_snapshot" where
  "snapshot_validate expectedDigest now requireCacheLifetime s =
     (if asVersion s \<noteq> authSnapshotVersion \<or> trim_space (asAPIKeyID s) = [] \<or> trim_space (asTenantID s) = [] \<or>
         trim_space (asKeyPrefix s) = [] \<or> length (asKeyHash s) \<noteq> 32 \<or> asHashVersion s \<noteq> hashVersion \<or>
         asTenantVersion s = 0 \<or> asGeneratedAt s = 0 \<or> asLookupDigest s \<noteq> expectedDigest \<or>
         digestPrefix (asKeyPrefix s) \<noteq> expectedDigest
      then Inl (KeyError ''authentication snapshot is invalid'')
      else if asKeyStatus s \<notin> {APIKeyActive, APIKeyDisabled, APIKeyRevoked}
      then Inl (KeyError ''authentication snapshot key status is invalid'')
      else if asTenantStatus s \<notin> {TenantActive, TenantDisabled}
      then Inl (KeyError ''authentication snapshot tenant status is invalid'')
      else
        (case models_normalize (asAllowedModels s) of
           Inl err \<Rightarrow> Inl (KeyError ''authentication snapshot model grants are invalid'')
         | Inr models \<Rightarrow>
             if requireCacheLifetime \<and> (asCachedUntil s = 0 \<or> \<not> now < asCachedUntil s)
             then Inl (KeyError ''authentication snapshot is expired'')
             else Inr (s\<lparr>asAllowedModels := models\<rparr>)))"

record key_db =
  kdTenants :: "tenant_row list"
  kdKeys :: "key_row list"
  kdGrants :: "grant_row list"
  kdAudit :: "(mutation_meta \<times> string \<times> string) list"

definition granted_models :: "string \<Rightarrow> key_db \<Rightarrow> string list" where
  "granted_models tenantID db = sort (map grGatewayModel (filter (\<lambda>g. grTenantID g = tenantID) (kdGrants db)))"

definition find_key :: "string \<Rightarrow> key_db \<Rightarrow> (key_row \<times> tenant_row) option" where
  "find_key digest db =
     find (\<lambda>(k, t). akLookupDigest k = digest \<and> teID t = akTenantID k) (List.product (kdKeys db) (kdTenants db))"

definition row_snapshot :: "key_row \<Rightarrow> tenant_row \<Rightarrow> string list \<Rightarrow> time \<Rightarrow> auth_snapshot" where
  "row_snapshot k t models now =
     \<lparr>asVersion = authSnapshotVersion, asAPIKeyID = akID k, asTenantID = akTenantID k, asKeyPrefix = akKeyPrefix k,
      asLookupDigest = akLookupDigest k, asKeyHash = akKeyHash k, asHashVersion = akHashVersion k, asKeyStatus = akStatus k,
      asKeyExpiresAt = akExpiresAt k, asLastUsedAt = akLastUsedAt k, asTenantStatus = teStatus t,
      asTenantVersion = teVersion t, asAllowedModels = models, asGeneratedAt = now, asCachedUntil = 0\<rparr>"

text \<open>\<open>fault1\<close> and \<open>fault2\<close>: the database refuses the first or the second query.\<close>

definition source_Load :: "bool \<Rightarrow> bool \<Rightarrow> string \<Rightarrow> time \<Rightarrow> key_db \<Rightarrow> (key_error + auth_snapshot) \<times> int" where
  "source_Load fault1 fault2 lookupDigest now db =
     (if fault1 then (Inl (KeyError ''read API key authentication snapshot''), 1)
      else
        (case find_key lookupDigest db of
           None \<Rightarrow> (Inl ErrSnapshotNotFound, 1)
         | Some (k, t) \<Rightarrow>
             if fault2 then (Inl (KeyError ''read API key model grants''), 2)
             else (snapshot_validate lookupDigest now False (row_snapshot k t (granted_models (akTenantID k) db) now), 2)))"

definition touch_interval :: duration where "touch_interval = 300000000000"

definition source_Touch :: "bool \<Rightarrow> string \<Rightarrow> time \<Rightarrow> key_db \<Rightarrow> key_db" where
  "source_Touch fault keyID now db =
     (if fault then db
      else db\<lparr>kdKeys := map (\<lambda>k. if akID k = keyID \<and> (case akLastUsedAt k of None \<Rightarrow> True | Some u \<Rightarrow> u < now - touch_interval)
                           then k\<lparr>akLastUsedAt := Some now\<rparr> else k) (kdKeys db)\<rparr>)"

section \<open>The store\<close>

datatype shared_load = SharedMiss | SharedError | SharedPayload "auth_snapshot option"

datatype shared_cmd =
    SharedStore string string string auth_snapshot duration
  | SharedDeleteValue string
  | SharedInvalidateKey string
  | SharedInvalidateTenant string
  | SharedPublish string string

record store =
  stEnabled :: bool
  stL2TTL :: duration
  stKeyPrefix :: string
  stL1 :: l1_cache
  stGeneration :: uint64
  stShared :: "shared_cmd list"

record auth_world =
  awStore :: store
  awDB :: key_db

record auth_settings =
  seEnabled :: bool
  seL1MaxEntries :: int
  seL1TTL :: duration
  seL2TTL :: duration
  seKeyPrefix :: string
  seInvalidationChannel :: string

definition zero_auth_settings :: auth_settings where
  "zero_auth_settings = \<lparr>seEnabled = False, seL1MaxEntries = 0, seL1TTL = 0, seL2TTL = 0, seKeyPrefix = [], seInvalidationChannel = []\<rparr>"

text \<open>A disabled store has no first level; its operations do not look at the field.\<close>

definition newCredentialStore :: "auth_settings \<Rightarrow> store" where
  "newCredentialStore settings =
     \<lparr>stEnabled = seEnabled settings, stL2TTL = seL2TTL settings, stKeyPrefix = seKeyPrefix settings,
      stL1 = newL1Cache (seL1MaxEntries settings) (seL1TTL settings), stGeneration = 0, stShared = []\<rparr>"

definition newRedisCredentialStore :: "bool \<Rightarrow> auth_settings \<Rightarrow> key_error + store" where
  "newRedisCredentialStore client settings =
     (if \<not> client then Inl (KeyError ''authentication cache requires Redis'')
      else if \<not> seEnabled settings \<or> seL1MaxEntries settings \<le> 0 \<or> seL1TTL settings \<le> 0 \<or> seL2TTL settings < seL1TTL settings \<or>
        seKeyPrefix settings = [] \<or> seInvalidationChannel settings = []
      then Inl (KeyError ''authentication cache settings are invalid'')
      else Inr (newCredentialStore settings))"

record cache_load =
  clSnapshot :: "auth_snapshot option"
  clSource :: string
  clQueries :: int
  clErr :: "key_error option"
  clGeneration :: uint64
  clPromoted :: bool
  clTouched :: bool

definition load_hit :: "auth_snapshot \<Rightarrow> string \<Rightarrow> uint64 \<Rightarrow> cache_load" where
  "load_hit s source generation =
     \<lparr>clSnapshot = Some s, clSource = source, clQueries = 0, clErr = None, clGeneration = generation,
      clPromoted = False, clTouched = False\<rparr>"

definition load_source :: "(key_error + auth_snapshot) \<times> int \<Rightarrow> uint64 \<Rightarrow> cache_load" where
  "load_source result generation =
     \<lparr>clSnapshot = (case fst result of Inl _ \<Rightarrow> None | Inr s \<Rightarrow> Some s), clSource = ''postgres'', clQueries = snd result,
      clErr = (case fst result of Inl err \<Rightarrow> Some err | Inr _ \<Rightarrow> None), clGeneration = generation,
      clPromoted = False, clTouched = False\<rparr>"

definition load_canceled :: "key_error \<Rightarrow> cache_load" where
  "load_canceled err =
     \<lparr>clSnapshot = None, clSource = [], clQueries = 0, clErr = Some err, clGeneration = 0, clPromoted = False, clTouched = False\<rparr>"

definition store_cacheKey :: "store \<Rightarrow> string \<Rightarrow> string" where
  "store_cacheKey st digest = stKeyPrefix st @ '':snapshot:'' @ hex_encode digest"

definition setL1 :: "string \<Rightarrow> auth_snapshot \<Rightarrow> time \<Rightarrow> store \<Rightarrow> store" where
  "setL1 cacheKey s now st = st\<lparr>stL1 := fst (l1_Set cacheKey s now (stL1 st))\<rparr>"

definition shared_call :: "shared_cmd \<Rightarrow> store \<Rightarrow> store" where
  "shared_call cmd st = st\<lparr>stShared := stShared st @ [cmd]\<rparr>"

definition with_store :: "(store \<Rightarrow> store) \<Rightarrow> auth_world \<Rightarrow> auth_world" where
  "with_store f w = w\<lparr>awStore := f (awStore w)\<rparr>"

definition get_l1 :: "string \<Rightarrow> time \<Rightarrow> auth_world \<Rightarrow> auth_world \<times> l1_result" where
  "get_l1 cacheKey now w =
     (case l1_Get cacheKey now (stL1 (awStore w)) of (c, r) \<Rightarrow> (with_store (\<lambda>st. st\<lparr>stL1 := c\<rparr>) w, r))"

record load_env =
  ldOthers :: "nat \<Rightarrow> auth_world \<Rightarrow> auth_world"
  ldShared :: shared_load
  ldNowL1 :: time
  ldNowL2 :: time
  ldNowSet :: time
  ldNowSource :: time
  ldFault1 :: bool
  ldFault2 :: bool

definition load_from_source :: "load_env \<Rightarrow> string \<Rightarrow> uint64 \<Rightarrow> auth_world \<Rightarrow> auth_world \<times> cache_load" where
  "load_from_source env digest generation w =
     (let w1 = ldOthers env 3 w in
      (w1, load_source (source_Load (ldFault1 env) (ldFault2 env) digest (ldNowSource env) (awDB w1)) generation))"

definition keep_l2 :: "string \<Rightarrow> auth_snapshot \<Rightarrow> uint64 \<Rightarrow> time \<Rightarrow> store \<Rightarrow> store" where
  "keep_l2 cacheKey s generation now st = (if stGeneration st = generation then setL1 cacheKey s now st else st)"

definition store_load :: "load_env \<Rightarrow> string \<Rightarrow> string \<Rightarrow> auth_world \<Rightarrow> auth_world \<times> cache_load" where
  "store_load env cacheKey digest w =
     (let generation = stGeneration (awStore w) in
      case get_l1 cacheKey (ldNowL1 env) (ldOthers env 0 w) of
        (w1, L1Hit s) \<Rightarrow> (w1, load_hit s ''l1'' generation)
      | (w1, _) \<Rightarrow>
          (let w2 = ldOthers env 1 w1 in
           case ldShared env of
             SharedPayload payload \<Rightarrow>
               (case (case payload of None \<Rightarrow> Inl (KeyError ''decode'') | Some s \<Rightarrow> snapshot_validate digest (ldNowL2 env) True s) of
                  Inr s \<Rightarrow>
                    (with_store (keep_l2 cacheKey s generation (ldNowSet env)) (ldOthers env 2 w2), load_hit s ''l2'' generation)
                | Inl _ \<Rightarrow>
                    load_from_source env digest generation (with_store (shared_call (SharedDeleteValue cacheKey)) w2))
           | _ \<Rightarrow> load_from_source env digest generation w2))"

text \<open>The single flight: a request loads itself, joins the load of another, or its context ends first.\<close>

datatype flight = FlightOwn load_env | FlightJoined cache_load | FlightCanceled key_error

definition store_Lookup :: "flight \<Rightarrow> time \<Rightarrow> load_env \<Rightarrow> string \<Rightarrow> auth_world \<Rightarrow> auth_world \<times> cache_load \<times> bool" where
  "store_Lookup flight now env digest w =
     (if \<not> stEnabled (awStore w) then
        (w, load_source (source_Load (ldFault1 env) (ldFault2 env) digest now (awDB w)) 0, True)
      else
        (let cacheKey = store_cacheKey (awStore w) digest in
         case get_l1 cacheKey now w of
           (w1, L1Hit s) \<Rightarrow> (w1, load_hit s ''l1'' 0, False)
         | (w1, _) \<Rightarrow>
             (case flight of
                FlightOwn env' \<Rightarrow> (case store_load env' cacheKey digest w1 of (w2, l) \<Rightarrow> (w2, l, True))
              | FlightJoined l \<Rightarrow> (w1, l, False)
              | FlightCanceled err \<Rightarrow> (w1, load_canceled err, False))))"

text \<open>\<open>marshals\<close>: \<open>json.Marshal\<close> of the snapshot succeeds.\<close>

definition store_Promote :: "time \<Rightarrow> time \<Rightarrow> bool \<Rightarrow> string \<Rightarrow> cache_load \<Rightarrow> store \<Rightarrow> store \<times> cache_load" where
  "store_Promote now nowSet marshals cacheKey l st =
     (if \<not> stEnabled st \<or> clErr l \<noteq> None \<or> clSource l \<noteq> ''postgres'' then (st, l)
      else if stGeneration st \<noteq> clGeneration l then (st, l)
      else if clPromoted l then (st, l)
      else
        (case clSnapshot l of
           None \<Rightarrow> (st, l)
         | Some s0 \<Rightarrow>
             (let s = s0\<lparr>asCachedUntil := now + stL2TTL st\<rparr>;
                  st1 = (if marshals then shared_call (SharedStore cacheKey (asAPIKeyID s) (asTenantID s) s (stL2TTL st)) st else st) in
              (setL1 cacheKey s nowSet st1, l\<lparr>clPromoted := True\<rparr>))))"

definition store_Touch :: "bool \<Rightarrow> time \<Rightarrow> cache_load \<Rightarrow> key_db \<Rightarrow> key_db \<times> cache_load \<times> int" where
  "store_Touch fault now l db =
     (case clSnapshot l of
        None \<Rightarrow> (db, l, 0)
      | Some s \<Rightarrow>
          if clSource l \<noteq> ''postgres'' \<or> asAPIKeyID s = [] then (db, l, 0)
          else if clTouched l then (db, l, 0)
          else (source_Touch fault (asAPIKeyID s) now db, l\<lparr>clTouched := True\<rparr>, 1))"

text \<open>\<open>event\<close>: the ID of the event, if one could be drawn and published.\<close>

definition store_invalidate :: "shared_cmd \<Rightarrow> string \<Rightarrow> string \<Rightarrow> bool \<Rightarrow> store \<Rightarrow> store" where
  "store_invalidate cmd scope i publishes st =
     (let st1 = shared_call cmd st in if publishes then shared_call (SharedPublish scope i) st1 else st1)"

definition InvalidateKey :: "(string list \<Rightarrow> string list) \<Rightarrow> bool \<Rightarrow> string \<Rightarrow> store \<Rightarrow> store" where
  "InvalidateKey visit publishes keyID st =
     (if \<not> stEnabled st then st
      else store_invalidate (SharedInvalidateKey keyID) ''key'' keyID publishes
             (st\<lparr>stGeneration := stGeneration st + 1, stL1 := fst (DeleteKey visit keyID (stL1 st))\<rparr>))"

definition InvalidateTenant :: "(string list \<Rightarrow> string list) \<Rightarrow> bool \<Rightarrow> string \<Rightarrow> store \<Rightarrow> store" where
  "InvalidateTenant visit publishes tenantID st =
     (if \<not> stEnabled st then st
      else store_invalidate (SharedInvalidateTenant tenantID) ''tenant'' tenantID publishes
             (st\<lparr>stGeneration := stGeneration st + 1, stL1 := fst (DeleteTenant visit tenantID (stL1 st))\<rparr>))"

record invalidation_event =
  ieVersion :: int
  ieEventID :: string
  ieScope :: string
  ieID :: string

text \<open>The message of another instance, as its payload decodes.\<close>

definition handleInvalidation :: "(string list \<Rightarrow> string list) \<Rightarrow> invalidation_event option \<Rightarrow> store \<Rightarrow> store" where
  "handleInvalidation visit event st =
     (case event of
        None \<Rightarrow> st
      | Some e \<Rightarrow>
          if ieVersion e \<noteq> 1 \<or> ieEventID e = [] \<or> ieID e = [] then st
          else if ieScope e = ''key'' then
            shared_call (SharedInvalidateKey (ieID e))
              (st\<lparr>stGeneration := stGeneration st + 1, stL1 := fst (DeleteKey visit (ieID e) (stL1 st))\<rparr>)
          else if ieScope e = ''tenant'' then
            shared_call (SharedInvalidateTenant (ieID e))
              (st\<lparr>stGeneration := stGeneration st + 1, stL1 := fst (DeleteTenant visit (ieID e) (stL1 st))\<rparr>)
          else st)"

end
