(* ===== verification/ApiKeys.thy ===== *)
theory ApiKeys
  imports AuthStore
begin

text \<open>
  The API key service, \<open>internal/apikey/manager.go\<close> and \<open>admin.go\<close>: tenants and keys are created,
  changed and revoked in transactions over the tables of \<open>AuthStore\<close> and authenticated through its store.
  A transaction is one step, undone by \<open>fault\<close>; \<open>stamp\<close> is the time the database layer stamps on a
  new row that has none. The pepper is an argument.
\<close>

section \<open>Inputs\<close>

record bootstrap_input =
  biSlug :: string
  biDisplayName :: string
  biKeyLabel :: string
  biModels :: "string list"
  biExpiresAt :: "time option"

record create_key_input =
  ckTenantID :: string
  ckLabel :: string
  ckExpiresAt :: "time option"

record issued_key =
  ikID :: string
  ikTenantID :: string
  ikPrefix :: string
  ikPlaintext :: string
  ikExpiresAt :: "time option"

definition slug_char :: "char \<Rightarrow> bool" where
  "slug_char c \<longleftrightarrow> is_lower_char c \<or> is_digit_char c"

definition tenantSlugPattern :: "string \<Rightarrow> bool" where
  "tenantSlugPattern s \<longleftrightarrow>
     3 \<le> length s \<and> length s \<le> 80 \<and> slug_char (hd s) \<and> slug_char (last s) \<and>
     list_all (\<lambda>c. slug_char c \<or> c = CHR ''_'' \<or> c = CHR ''-'') s"

definition expirationReached :: "time option \<Rightarrow> time \<Rightarrow> bool" where
  "expirationReached expiresAt now = (case expiresAt of None \<Rightarrow> False | Some t \<Rightarrow> \<not> now < t)"

definition normalizeCreateKeyInput :: "create_key_input \<Rightarrow> time \<Rightarrow> key_error + create_key_input" where
  "normalizeCreateKeyInput input0 now =
     (let input = input0\<lparr>ckTenantID := trim_space (ckTenantID input0), ckLabel := trim_space (ckLabel input0)\<rparr> in
      if ckTenantID input = [] then Inl (ErrInvalidInput ''tenant ID is required'')
      else if ckLabel input = [] \<or> rune_count (ckLabel input) > 100
      then Inl (ErrInvalidInput ''key label must contain 1-100 characters'')
      else if expirationReached (ckExpiresAt input) now then Inl (ErrInvalidInput ''expiration must be in the future'')
      else Inr input)"

definition normalizeBootstrapInput :: "bootstrap_input \<Rightarrow> time \<Rightarrow> key_error + bootstrap_input" where
  "normalizeBootstrapInput input0 now =
     (let input = input0\<lparr>biSlug := trim_space (biSlug input0), biDisplayName := trim_space (biDisplayName input0),
            biKeyLabel := trim_space (biKeyLabel input0)\<rparr> in
      if \<not> tenantSlugPattern (biSlug input)
      then Inl (ErrInvalidInput ''tenant slug must be 3-80 lowercase letters, digits, _ or -'')
      else if biDisplayName input = [] \<or> rune_count (biDisplayName input) > 160
      then Inl (ErrInvalidInput ''display name must contain 1-160 characters'')
      else
        (case normalizeCreateKeyInput
                \<lparr>ckTenantID = ''bootstrap'', ckLabel = biKeyLabel input, ckExpiresAt = biExpiresAt input\<rparr> now of
           Inl err \<Rightarrow> Inl err
         | Inr keyInput \<Rightarrow>
             (case models_normalize (biModels input) of
                Inl err \<Rightarrow> Inl err
              | Inr models \<Rightarrow>
                  if models = [] then Inl (ErrInvalidInput ''at least one model grant is required'')
                  else Inr (input\<lparr>biKeyLabel := ckLabel keyInput, biExpiresAt := ckExpiresAt keyInput, biModels := models\<rparr>))))"

section \<open>The manager\<close>

text \<open>The database handle and the Redis client are present or not.\<close>

definition NewManager :: "key_db option \<Rightarrow> string \<Rightarrow> key_error + string \<times> auth_world" where
  "NewManager database pepper =
     (case database of
        None \<Rightarrow> Inl (KeyError ''API key manager requires a database'')
      | Some db \<Rightarrow>
          if length pepper < 32 then Inl (KeyError ''API key manager requires at least 32 pepper bytes'')
          else Inr (pepper, \<lparr>awStore = newCredentialStore zero_auth_settings, awDB = db\<rparr>))"

definition NewCachedManager :: "key_db option \<Rightarrow> string \<Rightarrow> bool \<Rightarrow> auth_settings \<Rightarrow> key_error + string \<times> auth_world" where
  "NewCachedManager database pepper client settings =
     (case NewManager database pepper of
        Inl err \<Rightarrow> Inl err
      | Inr (pepper, w) \<Rightarrow>
          (case newRedisCredentialStore client settings of
             Inl err \<Rightarrow> Inl err
           | Inr credentials \<Rightarrow> Inr (pepper, w\<lparr>awStore := credentials\<rparr>)))"

section \<open>Creating tenants and keys\<close>

text \<open>The random bytes of a key: locator, secret and row ID.\<close>

record key_random =
  rnLocator :: "string option"
  rnSecret :: "string option"
  rnID :: "string option"

definition new_key_row :: "string \<Rightarrow> generated_token \<Rightarrow> time \<Rightarrow> create_key_input \<Rightarrow> key_row" where
  "new_key_row keyID token stamp input =
     \<lparr>akID = keyID, akTenantID = ckTenantID input, akLabel = ckLabel input, akKeyPrefix = gtPrefix token,
      akLookupDigest = gtLookupDigest token, akKeyHash = gtKeyHash token, akHashVersion = gtHashVersion token,
      akStatus = APIKeyActive, akExpiresAt = ckExpiresAt input, akLastUsedAt = None, akRevokedAt = None,
      akCreatedAt = stamp, akUpdatedAt = stamp\<rparr>"

definition createKey :: "string \<Rightarrow> key_random \<Rightarrow> time \<Rightarrow> create_key_input \<Rightarrow> key_db \<Rightarrow> key_error + issued_key \<times> key_db" where
  "createKey pepper rn stamp input db =
     (case generateToken (rnLocator rn) (rnSecret rn) pepper of
        Inl ErrInvalidToken \<Rightarrow> Inl (KeyError ''invalid Model-Velo API key'')
      | Inl (TokenError text) \<Rightarrow> Inl (KeyError text)
      | Inr token \<Rightarrow>
          (case rnID rn of
             None \<Rightarrow> Inl (KeyError ''generate UUID'')
           | Some bytes \<Rightarrow>
               (let keyID = randomUUID bytes in
                if list_ex (\<lambda>k. akID k = keyID \<or> akLookupDigest k = gtLookupDigest token) (kdKeys db)
                then Inl (KeyError ''generate unique API key'')
                else Inr (\<lparr>ikID = keyID, ikTenantID = ckTenantID input, ikPrefix = gtPrefix token, ikPlaintext = gtPlaintext token,
                           ikExpiresAt = ckExpiresAt input\<rparr>, db\<lparr>kdKeys := kdKeys db @ [new_key_row keyID token stamp input]\<rparr>))))"

definition replaceModelGrants :: "string \<Rightarrow> string list \<Rightarrow> time \<Rightarrow> key_db \<Rightarrow> key_db" where
  "replaceModelGrants tenantID models now db =
     db\<lparr>kdGrants := kdGrants db @ map (\<lambda>m. \<lparr>grTenantID = tenantID, grGatewayModel = m, grCreatedAt = now\<rparr>) models\<rparr>"

definition create_tenant :: "tenant_row \<Rightarrow> key_db \<Rightarrow> key_error + key_db" where
  "create_tenant t db =
     (if list_ex (\<lambda>u. teID u = teID t \<or> teSlug u = teSlug t) (kdTenants db) then Inl ErrTenantAlreadyExists
      else Inr (db\<lparr>kdTenants := kdTenants db @ [t]\<rparr>))"

text \<open>A transaction that yields a result: kept unless it or the database fails.\<close>

definition commit :: "key_error option \<Rightarrow> key_error + 'a \<times> key_db \<Rightarrow> key_db \<Rightarrow> key_db \<times> (key_error + 'a)" where
  "commit fault body db =
     (case body of
        Inl err \<Rightarrow> (db, Inl err)
      | Inr (x, db') \<Rightarrow> (case fault of Some err \<Rightarrow> (db, Inl err) | None \<Rightarrow> (db', Inr x)))"

definition new_tenant_row :: "string \<Rightarrow> bootstrap_input \<Rightarrow> time \<Rightarrow> tenant_row" where
  "new_tenant_row tenantID input stamp =
     \<lparr>teID = tenantID, teSlug = biSlug input, teDisplayName = biDisplayName input, teStatus = TenantActive,
      teVersion = 1, teCreatedAt = stamp, teUpdatedAt = stamp\<rparr>"

definition bootstrap_body ::
  "string \<Rightarrow> key_random \<Rightarrow> time \<Rightarrow> string \<Rightarrow> bootstrap_input \<Rightarrow> key_db \<Rightarrow> key_error + issued_key \<times> key_db" where
  "bootstrap_body pepper rn stamp tenantID input db =
     (case create_tenant (new_tenant_row tenantID input stamp) db of
        Inl err \<Rightarrow> Inl err
      | Inr db1 \<Rightarrow>
          createKey pepper rn stamp \<lparr>ckTenantID = tenantID, ckLabel = biKeyLabel input, ckExpiresAt = biExpiresAt input\<rparr>
            (replaceModelGrants tenantID (biModels input) stamp db1))"

definition BootstrapTenant ::
  "string \<Rightarrow> string option \<Rightarrow> key_random \<Rightarrow> time \<Rightarrow> time \<Rightarrow> key_error option \<Rightarrow> bootstrap_input \<Rightarrow> key_db \<Rightarrow>
     key_db \<times> (key_error + issued_key)" where
  "BootstrapTenant pepper random rn now stamp fault input db =
     (case normalizeBootstrapInput input now of
        Inl err \<Rightarrow> (db, Inl err)
      | Inr normalized \<Rightarrow>
          (case random of
             None \<Rightarrow> (db, Inl (KeyError ''generate UUID''))
           | Some bytes \<Rightarrow> commit fault (bootstrap_body pepper rn stamp (randomUUID bytes) normalized db) db))"

definition create_key_body :: "string \<Rightarrow> key_random \<Rightarrow> time \<Rightarrow> create_key_input \<Rightarrow> key_db \<Rightarrow> key_error + issued_key \<times> key_db" where
  "create_key_body pepper rn stamp input db =
     (case find (\<lambda>t. teID t = ckTenantID input) (kdTenants db) of
        None \<Rightarrow> Inl ErrNoSuchTenant
      | Some t \<Rightarrow> if teStatus t \<noteq> TenantActive then Inl ErrTenantInactive else createKey pepper rn stamp input db)"

definition CreateKey ::
  "string \<Rightarrow> key_random \<Rightarrow> time \<Rightarrow> time \<Rightarrow> key_error option \<Rightarrow> create_key_input \<Rightarrow> key_db \<Rightarrow> key_db \<times> (key_error + issued_key)" where
  "CreateKey pepper rn now stamp fault input db =
     (case normalizeCreateKeyInput input now of
        Inl err \<Rightarrow> (db, Inl err)
      | Inr normalized \<Rightarrow> commit fault (create_key_body pepper rn stamp normalized db) db)"

section \<open>Authentication\<close>

record auth_env =
  auFlight :: flight
  auLoad :: load_env
  auNowLookup :: time
  auCtxErr :: "key_error option"
  auNowPromote :: time
  auNowSet :: time
  auMarshals :: bool
  auNow :: time
  auTouchFault :: bool
  auOthers :: "nat \<Rightarrow> auth_world \<Rightarrow> auth_world"

definition promote_world :: "auth_env \<Rightarrow> string \<Rightarrow> cache_load \<Rightarrow> auth_world \<Rightarrow> auth_world \<times> cache_load" where
  "promote_world env digest l w =
     (case store_Promote (auNowPromote env) (auNowSet env) (auMarshals env) (store_cacheKey (awStore w) digest) l (awStore w) of
        (st, l') \<Rightarrow> (w\<lparr>awStore := st\<rparr>, l'))"

definition key_refusal :: "auth_snapshot \<Rightarrow> time \<Rightarrow> key_error option" where
  "key_refusal s now =
     (if asKeyStatus s = APIKeyRevoked then Some ErrKeyRevoked
      else if asKeyStatus s \<noteq> APIKeyActive then Some ErrKeyInactive
      else if asTenantStatus s \<noteq> TenantActive then Some ErrTenantInactive
      else if expirationReached (asKeyExpiresAt s) now then Some ErrKeyExpired
      else None)"

definition touch_world :: "auth_env \<Rightarrow> auth_snapshot \<Rightarrow> cache_load \<Rightarrow> auth_world \<Rightarrow> auth_world" where
  "touch_world env s l w =
     (if (case asLastUsedAt s of None \<Rightarrow> True | Some u \<Rightarrow> time_sub (auNow env) u \<ge> touch_interval)
      then w\<lparr>awDB := fst (store_Touch (auTouchFault env) (auNow env) l (awDB w))\<rparr> else w)"

definition Authenticate :: "auth_env \<Rightarrow> string \<Rightarrow> string \<Rightarrow> auth_world \<Rightarrow> auth_world \<times> (key_error + identity)" where
  "Authenticate env pepper plaintext w =
     (case parseToken plaintext of
        Inl _ \<Rightarrow> (w, Inl ErrInvalidCredential)
      | Inr token \<Rightarrow>
          (let digest = digestPrefix (ptPrefix token) in
           case store_Lookup (auFlight env) (auNowLookup env) (auLoad env) digest w of
             (w1, l, leader) \<Rightarrow>
               (case (clErr l, clSnapshot l) of
                  (None, Some s) \<Rightarrow>
                    if \<not> verifyToken token (asKeyHash s) (asHashVersion s) pepper \<or> asKeyPrefix s \<noteq> ptPrefix token
                    then (w1, Inl ErrInvalidCredential)
                    else
                      (case promote_world env digest l (auOthers env 0 w1) of
                         (w2, l') \<Rightarrow>
                           (case key_refusal s (auNow env) of
                              Some err \<Rightarrow> (w2, Inl err)
                            | None \<Rightarrow> (touch_world env s l' (auOthers env 1 w2), Inr (snapshot_identity s))))
                | (Some ErrSnapshotNotFound, _) \<Rightarrow> (w1, Inl ErrInvalidCredential)
                | _ \<Rightarrow> (w1, Inl (case auCtxErr env of Some err \<Rightarrow> err | None \<Rightarrow> KeyError ''read API key'')))))"

definition AuthorizeModel :: "key_error option \<Rightarrow> identity \<Rightarrow> string \<Rightarrow> key_error option" where
  "AuthorizeModel ctxErr ident model0 =
     (let tenantID = trim_space (idTenantID ident); model = trim_space model0 in
      if tenantID = [] \<or> model = [] then Some ErrModelNotAllowed
      else case ctxErr of
        Some err \<Rightarrow> Some err
      | None \<Rightarrow>
          (case idAuthorization ident of
             None \<Rightarrow> Some ErrModelNotAllowed
           | Some models \<Rightarrow> if list_ex (\<lambda>allowed. allowed = ''*'' \<or> allowed = model) models then None else Some ErrModelNotAllowed))"

definition AuthorizedModels :: "key_error option \<Rightarrow> identity \<Rightarrow> key_error + string list" where
  "AuthorizedModels ctxErr ident =
     (if trim_space (idTenantID ident) = [] then Inl ErrModelNotAllowed
      else case ctxErr of
        Some err \<Rightarrow> Inl err
      | None \<Rightarrow> Inr (case idAuthorization ident of None \<Rightarrow> [] | Some models \<Rightarrow> models))"

section \<open>Changing keys and tenants\<close>

text \<open>The rows an \<open>UPDATE\<close> touches, and how many.\<close>

definition update_keys :: "(key_row \<Rightarrow> bool) \<Rightarrow> (key_row \<Rightarrow> key_row) \<Rightarrow> key_db \<Rightarrow> key_db \<times> nat" where
  "update_keys P f db =
     (db\<lparr>kdKeys := map (\<lambda>k. if P k then f k else k) (kdKeys db)\<rparr>, length (filter P (kdKeys db)))"

definition revoked_key :: "time \<Rightarrow> key_row \<Rightarrow> key_row" where
  "revoked_key now k = k\<lparr>akStatus := APIKeyRevoked, akRevokedAt := Some now, akUpdatedAt := now\<rparr>"

definition disabled_key :: "time \<Rightarrow> key_row \<Rightarrow> key_row" where
  "disabled_key now k = k\<lparr>akStatus := APIKeyDisabled, akRevokedAt := None, akUpdatedAt := now\<rparr>"

record invalidate_env =
  inVisit :: "string list \<Rightarrow> string list"
  inPublishes :: bool
  inOthers :: "auth_world \<Rightarrow> auth_world"

definition invalidate_key :: "invalidate_env \<Rightarrow> string \<Rightarrow> auth_world \<Rightarrow> auth_world" where
  "invalidate_key env keyID w = with_store (InvalidateKey (inVisit env) (inPublishes env) keyID) (inOthers env w)"

definition invalidate_tenant :: "invalidate_env \<Rightarrow> string \<Rightarrow> auth_world \<Rightarrow> auth_world" where
  "invalidate_tenant env tenantID w =
     with_store (InvalidateTenant (inVisit env) (inPublishes env) tenantID) (inOthers env w)"

text \<open>
  \<open>Revoke\<close> and \<open>Disable\<close> differ in the row they write and the words of their errors; \<open>fault1\<close> and \<open>fault2\<close> are
  the errors of the update and of the count after it.
\<close>

definition set_key_status ::
  "(key_row \<Rightarrow> key_row) \<Rightarrow> string \<Rightarrow> bool \<Rightarrow> bool \<Rightarrow> invalidate_env \<Rightarrow> string \<Rightarrow> auth_world \<Rightarrow> auth_world \<times> key_error option" where
  "set_key_status f failed fault1 fault2 env keyID0 w =
     (let keyID = trim_space keyID0 in
      if keyID = [] then (w, Some (ErrInvalidInput ''key ID is required''))
      else if fault1 then (w, Some (KeyError failed))
      else
        (case update_keys (\<lambda>k. akID k = keyID \<and> akStatus k \<noteq> APIKeyRevoked) f (awDB w) of
           (db, affected) \<Rightarrow>
             if affected = 0 then
               (if fault2 then (w, Some (KeyError ''check API key status''))
                else if list_ex (\<lambda>k. akID k = keyID) (kdKeys (awDB w)) then (invalidate_key env keyID w, Some ErrKeyRevoked)
                else (w, Some ErrKeyNotFound))
             else (invalidate_key env keyID (w\<lparr>awDB := db\<rparr>), None)))"

definition Revoke :: "time \<Rightarrow> bool \<Rightarrow> bool \<Rightarrow> invalidate_env \<Rightarrow> string \<Rightarrow> auth_world \<Rightarrow> auth_world \<times> key_error option" where
  "Revoke now = set_key_status (revoked_key now) ''revoke API key''"

definition Disable :: "time \<Rightarrow> bool \<Rightarrow> bool \<Rightarrow> invalidate_env \<Rightarrow> string \<Rightarrow> auth_world \<Rightarrow> auth_world \<times> key_error option" where
  "Disable now = set_key_status (disabled_key now) ''disable API key''"

definition admin_audit :: "mutation_meta \<Rightarrow> string \<Rightarrow> string \<Rightarrow> key_db \<Rightarrow> key_error + key_db" where
  "admin_audit meta action resourceID db =
     (if trim_space (mmActorID meta) = [] \<or> trim_space (mmRequestID meta) = []
      then Inl (KeyError ''API key audit metadata is incomplete'')
      else Inr (db\<lparr>kdAudit := kdAudit db @ [(meta, action, resourceID)]\<rparr>))"

definition audited :: "mutation_meta \<Rightarrow> string \<Rightarrow> string \<Rightarrow> 'a \<Rightarrow> key_db \<Rightarrow> key_error + 'a \<times> key_db" where
  "audited meta action resourceID x db =
     (case admin_audit meta action resourceID db of Inl err \<Rightarrow> Inl err | Inr db' \<Rightarrow> Inr (x, db'))"

definition save_key :: "key_row \<Rightarrow> key_db \<Rightarrow> key_db" where
  "save_key k db = db\<lparr>kdKeys := map (\<lambda>q. if akID q = akID k then k else q) (kdKeys db)\<rparr>"

definition status_body :: "time \<Rightarrow> time \<Rightarrow> string \<Rightarrow> mutation_meta \<Rightarrow> string \<Rightarrow> key_db \<Rightarrow> key_error + key_row \<times> key_db" where
  "status_body now stamp status meta keyID db =
     (case find (\<lambda>k. akID k = keyID) (kdKeys db) of
        None \<Rightarrow> Inl ErrRecordNotFound
      | Some current \<Rightarrow>
          if akStatus current = APIKeyRevoked \<and> status \<noteq> APIKeyRevoked then Inl ErrKeyRevoked
          else if status = APIKeyActive \<and> expirationReached (akExpiresAt current) now then Inl ErrKeyExpired
          else
            (let updated = current\<lparr>akStatus := status, akUpdatedAt := stamp,
                   akRevokedAt := (if status = APIKeyRevoked then Some stamp else None)\<rparr> in
             audited meta ''api_key.status.update'' keyID updated (save_key updated db)))"

definition UpdateKeyStatusAudited ::
  "time \<Rightarrow> time \<Rightarrow> key_error option \<Rightarrow> invalidate_env \<Rightarrow> string \<Rightarrow> string \<Rightarrow> mutation_meta \<Rightarrow> auth_world \<Rightarrow> auth_world \<times> (key_error + key_row)" where
  "UpdateKeyStatusAudited now stamp fault env keyID0 status meta w =
     (let keyID = trim_space keyID0 in
      if keyID = [] \<or> status \<notin> {APIKeyActive, APIKeyDisabled, APIKeyRevoked} then (w, Inl (ErrInvalidInput []))
      else
        (case commit fault (status_body now stamp status meta keyID (awDB w)) (awDB w) of
           (db, Inl err) \<Rightarrow> (w\<lparr>awDB := db\<rparr>, Inl err)
         | (db, Inr updated) \<Rightarrow> (invalidate_key env keyID (w\<lparr>awDB := db\<rparr>), Inr updated)))"

record tenant_update =
  tuDisplayName :: string
  tuStatus :: string
  tuModels :: "string list"

definition save_tenant :: "tenant_row \<Rightarrow> key_db \<Rightarrow> key_db" where
  "save_tenant t db = db\<lparr>kdTenants := map (\<lambda>u. if teID u = teID t then t else u) (kdTenants db)\<rparr>"

definition drop_grants :: "string \<Rightarrow> key_db \<Rightarrow> key_db" where
  "drop_grants tenantID db = db\<lparr>kdGrants := filter (\<lambda>g. grTenantID g \<noteq> tenantID) (kdGrants db)\<rparr>"

definition tenant_body ::
  "time \<Rightarrow> uint64 \<Rightarrow> tenant_update \<Rightarrow> string list \<Rightarrow> mutation_meta \<Rightarrow> string \<Rightarrow> key_db \<Rightarrow> key_error + tenant_row \<times> key_db" where
  "tenant_body now expectedVersion input models meta tenantID db =
     (case find (\<lambda>t. teID t = tenantID) (kdTenants db) of
        None \<Rightarrow> Inl ErrRecordNotFound
      | Some current \<Rightarrow>
          if teVersion current \<noteq> expectedVersion then Inl ErrTenantVersionConflict
          else
            (let updated = current\<lparr>teDisplayName := tuDisplayName input, teStatus := tuStatus input,
                   teVersion := teVersion current + 1, teUpdatedAt := now\<rparr> in
             audited meta ''tenant.update'' tenantID updated
               (replaceModelGrants tenantID models now (drop_grants tenantID (save_tenant updated db)))))"

definition UpdateTenantAudited ::
  "time \<Rightarrow> key_error option \<Rightarrow> invalidate_env \<Rightarrow> string \<Rightarrow> uint64 \<Rightarrow> tenant_update \<Rightarrow> mutation_meta \<Rightarrow> auth_world \<Rightarrow>
     auth_world \<times> (key_error + tenant_row \<times> string list)" where
  "UpdateTenantAudited now fault env tenantID0 expectedVersion input0 meta w =
     (let tenantID = trim_space tenantID0; input = input0\<lparr>tuDisplayName := trim_space (tuDisplayName input0)\<rparr> in
      case models_normalize (tuModels input) of
        Inl _ \<Rightarrow> (w, Inl (ErrInvalidInput []))
      | Inr models \<Rightarrow>
          if tenantID = [] \<or> tuDisplayName input = [] \<or> rune_count (tuDisplayName input) > 160 \<or>
             tuStatus input \<notin> {TenantActive, TenantDisabled} \<or> models = []
          then (w, Inl (ErrInvalidInput []))
          else
            (case commit fault (tenant_body now expectedVersion input models meta tenantID (awDB w)) (awDB w) of
               (db, Inl err) \<Rightarrow> (w\<lparr>awDB := db\<rparr>, Inl err)
             | (db, Inr updated) \<Rightarrow> (invalidate_tenant env tenantID (w\<lparr>awDB := db\<rparr>), Inr (updated, models))))"

definition CreateTenantAudited ::
  "string \<Rightarrow> string option \<Rightarrow> key_random \<Rightarrow> time \<Rightarrow> time \<Rightarrow> key_error option \<Rightarrow> bootstrap_input \<Rightarrow> mutation_meta \<Rightarrow> key_db \<Rightarrow>
     key_db \<times> (key_error + tenant_row \<times> string list \<times> issued_key)" where
  "CreateTenantAudited pepper random rn now stamp fault input meta db =
     (case normalizeBootstrapInput input now of
        Inl err \<Rightarrow> (db, Inl err)
      | Inr normalized \<Rightarrow>
          (case random of
             None \<Rightarrow> (db, Inl (KeyError ''generate UUID''))
           | Some bytes \<Rightarrow>
               commit fault
                 (case bootstrap_body pepper rn stamp (randomUUID bytes) normalized db of
                    Inl err \<Rightarrow> Inl err
                  | Inr (issued, db') \<Rightarrow>
                      audited meta ''tenant.create'' (randomUUID bytes)
                        (new_tenant_row (randomUUID bytes) normalized stamp, biModels normalized, issued) db') db))"

text \<open>The issued key is returned even when the transaction that would have stored it failed.\<close>

definition CreateKeyAudited ::
  "string \<Rightarrow> key_random \<Rightarrow> time \<Rightarrow> time \<Rightarrow> key_error option \<Rightarrow> create_key_input \<Rightarrow> mutation_meta \<Rightarrow> key_db \<Rightarrow>
     key_db \<times> issued_key option \<times> key_error option" where
  "CreateKeyAudited pepper rn now stamp fault input meta db =
     (case normalizeCreateKeyInput input now of
        Inl err \<Rightarrow> (db, None, Some err)
      | Inr normalized \<Rightarrow>
          (case create_key_body pepper rn stamp normalized db of
             Inl err \<Rightarrow> (db, None, Some err)
           | Inr (issued, db1) \<Rightarrow>
               (case commit fault (audited meta ''api_key.create'' (ikID issued) () db1) db of
                  (db2, Inl err) \<Rightarrow> (db2, Some issued, Some err)
                | (db2, Inr _) \<Rightarrow> (db2, Some issued, None))))"

definition ListKeys :: "string \<Rightarrow> key_db \<Rightarrow> key_error + key_row list" where
  "ListKeys tenantID0 db =
     (let tenantID = trim_space tenantID0 in
      if tenantID = [] then Inl (ErrInvalidInput [])
      else if \<not> list_ex (\<lambda>t. teID t = tenantID) (kdTenants db) then Inl ErrNoSuchTenant
      else Inr (take 1000 (sort_key (\<lambda>k. (akCreatedAt k, akID k)) (filter (\<lambda>k. akTenantID k = tenantID) (kdKeys db)))))"

definition ListTenants :: "key_db \<Rightarrow> (tenant_row \<times> string list) list" where
  "ListTenants db =
     map (\<lambda>t. (t, granted_models (teID t) db)) (take 1000 (sort_key (\<lambda>t. (teCreatedAt t, teID t)) (kdTenants db)))"

section \<open>An issued key authenticates\<close>

text \<open>What \<open>Authenticate\<close> asks of the row of a key and of its tenant.\<close>

definition row_admits :: "string \<Rightarrow> generated_token \<Rightarrow> time \<Rightarrow> key_row \<Rightarrow> tenant_row \<Rightarrow> bool" where
  "row_admits pepper g now k t \<longleftrightarrow>
     trim_space (akID k) \<noteq> [] \<and> trim_space (akTenantID k) \<noteq> [] \<and> akKeyPrefix k = gtPrefix g \<and> akKeyHash k = gtKeyHash g \<and>
     akHashVersion k = hashVersion \<and> akLookupDigest k = gtLookupDigest g \<and> akStatus k = APIKeyActive \<and>
     teStatus t = TenantActive \<and> teVersion t \<noteq> 0 \<and> \<not> expirationReached (akExpiresAt k) now"

lemma b64_char_graphic: "n < 64 \<Longrightarrow> graphic (b64_char n)"
proof -
  assume n: "n < 64"
  have "byte (char_of m :: char) = int m" if "m < 128" for m :: nat
  proof -
    have "of_char (char_of m :: char) = m" using that by simp
    then show ?thesis by (metis of_nat_of_char)
  qed
  with n show ?thesis by (simp add: b64_char_def graphic_def)
qed

lemma prefix_trim:
  assumes "generateToken (Some l) (Some k) pepper = Inr g"
  shows "trim_space (gtPrefix g) \<noteq> []"
proof -
  have g: "gtPrefix g = ''mvl_'' @ b64_encode l"
    using assms by (auto simp: generateToken_def randomText_def token_consts Let_def)
  have "\<forall>n \<in> set (b64_groups (map of_char l)). n < 64" by (rule b64_groups_small) auto
  then have "list_all graphic (b64_encode l)" by (auto simp: b64_encode_def list_all_iff b64_char_graphic)
  then have "graphic (last (gtPrefix g))" unfolding g by (cases "b64_encode l" rule: rev_cases) (simp_all add: graphic_def)
  moreover have "gtPrefix g \<noteq> []" "graphic (hd (gtPrefix g))" unfolding g by (simp_all add: graphic_def)
  ultimately show ?thesis using trim_graphic by fastforce
qed

lemma source_Load_row:
  assumes gen: "generateToken (Some l) (Some sec) pepper = Inr g" and len: "length l = 12" "length sec = 32"
    and find: "find_key (gtLookupDigest g) db = Some (k, t)" and row: "row_admits pepper g now k t"
    and models: "models_normalize (granted_models (akTenantID k) db) = Inr models" and now: "now' \<noteq> 0"
  shows "source_Load False False (gtLookupDigest g) now' db = (Inr (row_snapshot k t models now'), 2)"
proof -
  note p = parse_generated [OF gen len]
  show ?thesis
    using row find models now prefix_trim [OF gen] p(2-4)
    by (simp add: source_Load_def snapshot_validate_def row_snapshot_def row_admits_def hashSecret_def)
qed

text \<open>The lookup of a key the store does not hold and the shared cache misses.\<close>

definition loads_row :: "auth_env \<Rightarrow> auth_world \<Rightarrow> bool" where
  "loads_row env w \<longleftrightarrow>
     (if stEnabled (awStore w)
      then lcEntries (stL1 (awStore w)) = Map.empty \<and>
        (\<exists>le. auFlight env = FlightOwn le \<and> (\<forall>i w. ldOthers le i w = w) \<and> ldShared le = SharedMiss \<and>
           \<not> ldFault1 le \<and> \<not> ldFault2 le \<and> ldNowSource le \<noteq> 0)
      else \<not> ldFault1 (auLoad env) \<and> \<not> ldFault2 (auLoad env) \<and> auNowLookup env \<noteq> 0)"

lemma get_l1_empty: "lcEntries (stL1 (awStore w)) = Map.empty \<Longrightarrow> get_l1 k now w = (w, L1Miss)"
  by (simp add: get_l1_def l1_Get_def with_store_def)

lemma lookup_row:
  assumes gen: "generateToken (Some l) (Some sec) pepper = Inr g" and len: "length l = 12" "length sec = 32"
    and find: "find_key (gtLookupDigest g) (awDB w) = Some (k, t)" and row: "row_admits pepper g now k t"
    and models: "models_normalize (granted_models (akTenantID k) (awDB w)) = Inr models" and env: "loads_row env w"
  obtains now' w' load leader where
    "store_Lookup (auFlight env) (auNowLookup env) (auLoad env) (gtLookupDigest g) w = (w', load, leader)"
    "clErr load = None" "clSnapshot load = Some (row_snapshot k t models now')"
proof (cases "stEnabled (awStore w)")
  case True
  with env obtain le where le: "auFlight env = FlightOwn le" "\<forall>i w. ldOthers le i w = w" "ldShared le = SharedMiss"
    "\<not> ldFault1 le" "\<not> ldFault2 le" "ldNowSource le \<noteq> 0" "lcEntries (stL1 (awStore w)) = Map.empty"
    by (auto simp: loads_row_def)
  with True source_Load_row [OF gen len find row models le(6)] that show ?thesis
    by (auto simp: store_Lookup_def Let_def get_l1_empty store_load_def load_from_source_def load_source_def)
next
  case False
  with env source_Load_row [OF gen len find row models, of "auNowLookup env"] that show ?thesis
    by (auto simp: store_Lookup_def loads_row_def load_source_def)
qed

lemma authenticate_row:
  assumes gen: "generateToken (Some l) (Some sec) pepper = Inr g" and len: "length l = 12" "length sec = 32"
    and find: "find_key (gtLookupDigest g) (awDB w) = Some (k, t)" and row: "row_admits pepper g (auNow env) k t"
    and models: "models_normalize (granted_models (akTenantID k) (awDB w)) = Inr models" and env: "loads_row env w"
  shows "snd (Authenticate env pepper (gtPlaintext g) w) =
    Inr \<lparr>idTenantID = akTenantID k, idAPIKeyID = akID k, idKeyPrefix = akKeyPrefix k, idAuthorization = Some models\<rparr>"
proof -
  note p = parse_generated [OF gen len]
  obtain now' w' load leader where look:
    "store_Lookup (auFlight env) (auNowLookup env) (auLoad env) (gtLookupDigest g) w = (w', load, leader)"
    "clErr load = None" "clSnapshot load = Some (row_snapshot k t models now')"
    by (rule lookup_row [OF gen len find row models env])
  have "verifyToken \<lparr>ptPrefix = gtPrefix g, ptSecret = b64_encode sec\<rparr> (akKeyHash k) (akHashVersion k) pepper"
    using row p(2) by (simp add: verifyToken_def row_admits_def hashSecret_def)
  moreover have "key_refusal (row_snapshot k t models now') (auNow env) = None"
    using row by (simp add: key_refusal_def row_snapshot_def row_admits_def APIKeyActive_def APIKeyRevoked_def)
  ultimately show ?thesis
    using look row p(1) p(4) [symmetric]
    by (simp add: Authenticate_def Let_def row_snapshot_def row_admits_def snapshot_identity_def split: prod.split)
qed

lemma find_fresh:
  assumes "\<forall>k' \<in> set ks. akLookupDigest k' \<noteq> digest" "akLookupDigest k = digest" "find (\<lambda>t. teID t = akTenantID k) ts = Some t"
  shows "find (\<lambda>(k, t). akLookupDigest k = digest \<and> teID t = akTenantID k) (List.product (ks @ [k]) ts) = Some (k, t)"
proof -
  have none: "find P (xs @ ys) = find P ys" if "\<forall>x \<in> set xs. \<not> P x" for P and xs ys :: "'x list"
    using that by (induction xs) auto
  have "find (\<lambda>(k, t). akLookupDigest k = digest \<and> teID t = akTenantID k) (map (Pair k) ts) = Some (k, t)"
    using assms(2,3) by (induction ts) (auto split: if_split_asm)
  moreover have "List.product (ks @ [k]) ts = List.product ks ts @ map (Pair k) ts" by (induction ks) simp_all
  ultimately show ?thesis using assms(1) by (simp add: none)
qed

lemma uuid_trim: "trim_space (randomUUID bytes) = randomUUID bytes" "randomUUID bytes \<noteq> []"
proof -
  obtain b where u: "randomUUID bytes = hex_encode (take 4 b) @ ''-'' @ hex_encode (take 2 (drop 4 b)) @ ''-'' @
      hex_encode (take 2 (drop 6 b)) @ ''-'' @ hex_encode (take 2 (drop 8 b)) @ ''-'' @ hex_encode (drop 10 b)"
    by (simp add: randomUUID_def Let_def)
  have "list_all graphic (randomUUID bytes)"
    unfolding u using hex_encode_graphic by (simp add: graphic_def)
  moreover have ne: "randomUUID bytes \<noteq> []" by (simp add: u)
  ultimately have "graphic (hd (randomUUID bytes))" "graphic (last (randomUUID bytes))" by (auto simp: list_all_iff)
  with ne show "trim_space (randomUUID bytes) = randomUUID bytes" "randomUUID bytes \<noteq> []" by (simp_all add: trim_graphic)
qed


definition sample_tenant :: tenant_row where
  "sample_tenant = \<lparr>teID = ''t'', teSlug = ''ten'', teDisplayName = ''T'', teStatus = TenantActive, teVersion = 1,
     teCreatedAt = 1, teUpdatedAt = 1\<rparr>"

definition sample_db :: key_db where
  "sample_db = \<lparr>kdTenants = [sample_tenant], kdKeys = [],
     kdGrants = [\<lparr>grTenantID = ''t'', grGatewayModel = ''m'', grCreatedAt = 1\<rparr>], kdAudit = []\<rparr>"

definition sample_random :: key_random where
  "sample_random = \<lparr>rnLocator = Some (replicate 12 (CHR ''l'')), rnSecret = Some (replicate 32 (CHR ''s'')),
     rnID = Some (replicate 16 (CHR ''i''))\<rparr>"

definition sample_token :: generated_token where
  "sample_token =
     (let pre = ''mvl_'' @ b64_encode (replicate 12 (CHR ''l'')); sec = b64_encode (replicate 32 (CHR ''s'')) in
      \<lparr>gtPlaintext = pre @ ''_'' @ sec, gtPrefix = pre, gtLookupDigest = digestPrefix pre, gtKeyHash = hashSecret sec ''pepper'',
       gtHashVersion = hashVersion\<rparr>)"

lemma sample_token_generated:
  "generateToken (rnLocator sample_random) (rnSecret sample_random) ''pepper'' = Inr sample_token"
  by (simp add: sample_random_def sample_token_def generateToken_def randomText_def tokenNamespace_def Let_def)

definition sample_key_input :: create_key_input where
  "sample_key_input = \<lparr>ckTenantID = '' t'', ckLabel = ''k'', ckExpiresAt = Some 100\<rparr>"

definition sample_issued :: issued_key where
  "sample_issued = \<lparr>ikID = randomUUID (replicate 16 (CHR ''i'')), ikTenantID = ''t'', ikPrefix = gtPrefix sample_token,
     ikPlaintext = gtPlaintext sample_token, ikExpiresAt = Some 100\<rparr>"

definition sample_key :: key_row where
  "sample_key = new_key_row (randomUUID (replicate 16 (CHR ''i''))) sample_token 2 \<lparr>ckTenantID = ''t'', ckLabel = ''k'', ckExpiresAt = Some 100\<rparr>"

lemma sample_key_trims: "trim_space '' t'' = ''t''" "trim_space ''t'' = ''t''" "trim_space ''k'' = ''k''" "trim_space ''m'' = ''m''" "rune_count ''k'' = 1" "rune_count ''m'' = 1"
  by code_simp+

lemma sample_createKey:
  "createKey ''pepper'' sample_random 2 \<lparr>ckTenantID = ''t'', ckLabel = ''k'', ckExpiresAt = Some 100\<rparr> sample_db =
   Inr (sample_issued, sample_db\<lparr>kdKeys := [sample_key]\<rparr>)"
  by (simp add: createKey_def sample_token_generated Let_def)
    (simp add: sample_random_def sample_db_def sample_issued_def sample_key_def Let_def)

lemma sample_tenant_found:
  "find (\<lambda>t. teID t = ''t'') (kdTenants sample_db) = Some sample_tenant" "teStatus sample_tenant = TenantActive"
  by (simp_all add: sample_db_def sample_tenant_def)

lemma sample_input_normal:
  "normalizeCreateKeyInput sample_key_input 1 = Inr \<lparr>ckTenantID = ''t'', ckLabel = ''k'', ckExpiresAt = Some 100\<rparr>"
  by (simp add: normalizeCreateKeyInput_def sample_key_input_def sample_key_trims expirationReached_def del: rune_count.simps)

lemma sample_created:
  "CreateKey ''pepper'' sample_random 1 2 None sample_key_input sample_db = (sample_db\<lparr>kdKeys := [sample_key]\<rparr>, Inr sample_issued)"
  by (simp add: CreateKey_def sample_input_normal create_key_body_def sample_createKey commit_def sample_tenant_found)

lemma sample_models: "granted_models ''t'' (sample_db\<lparr>kdKeys := ks\<rparr>) = [''m'']" "models_normalize [''m''] = Inr [''m'']"
  by (simp_all add: granted_models_def sample_db_def models_normalize_def sample_key_trims del: rune_count.simps)

definition sample_load_env :: load_env where
  "sample_load_env = \<lparr>ldOthers = (\<lambda>_ w. w), ldShared = SharedMiss, ldNowL1 = 5, ldNowL2 = 5, ldNowSet = 5, ldNowSource = 5,
     ldFault1 = False, ldFault2 = False\<rparr>"

definition sample_auth_env :: auth_env where
  "sample_auth_env = \<lparr>auFlight = FlightOwn sample_load_env, auLoad = sample_load_env, auNowLookup = 5, auCtxErr = None,
     auNowPromote = 5, auNowSet = 5, auMarshals = True, auNow = 5, auTouchFault = False, auOthers = (\<lambda>_ w. w)\<rparr>"

definition sample_store :: store where
  "sample_store = \<lparr>stEnabled = True, stL2TTL = 30, stKeyPrefix = ''p'', stL1 = newL1Cache 10 15, stGeneration = 0, stShared = []\<rparr>"

lemma sample_loads_row: "loads_row sample_auth_env \<lparr>awStore = sample_store, awDB = db\<rparr>"
  by (simp add: loads_row_def sample_auth_env_def sample_load_env_def sample_store_def newL1Cache_def)

lemma sample_key_live:
  "models_normalize (granted_models (trim_space (ckTenantID sample_key_input)) sample_db) = Inr [''m'']"
  "\<forall>t \<in> set (kdTenants sample_db). teVersion t \<noteq> 0"
  "\<not> expirationReached (ckExpiresAt sample_key_input) (auNow sample_auth_env)"
  using sample_models(1) [of "[]"] sample_models(2)
  by (simp_all add: sample_key_input_def sample_key_trims sample_auth_env_def expirationReached_def)
    (simp_all add: sample_db_def sample_tenant_def)


text \<open>The same, of the row alone.\<close>

lemma sample_authenticate:
  "snd (Authenticate sample_auth_env ''pepper'' (ikPlaintext sample_issued)
      \<lparr>awStore = sample_store, awDB = sample_db\<lparr>kdKeys := [sample_key]\<rparr>\<rparr>) =
   Inr \<lparr>idTenantID = ''t'', idAPIKeyID = ikID sample_issued, idKeyPrefix = ikPrefix sample_issued, idAuthorization = Some [''m'']\<rparr>"
proof -
  have "find_key (gtLookupDigest sample_token) (sample_db\<lparr>kdKeys := [sample_key]\<rparr>) = Some (sample_key, sample_tenant)"
    by (simp add: find_key_def sample_key_def new_key_row_def) (simp add: sample_db_def sample_tenant_def)
  moreover have "row_admits ''pepper'' sample_token 5 sample_key sample_tenant"
    using uuid_trim by (simp add: row_admits_def sample_key_def new_key_row_def sample_key_trims sample_tenant_found sample_token_def
        expirationReached_def Let_def) (simp add: sample_tenant_def)
  ultimately show ?thesis
    using authenticate_row [OF sample_token_generated [unfolded sample_random_def key_random.simps],
        of "\<lparr>awStore = sample_store, awDB = sample_db\<lparr>kdKeys := [sample_key]\<rparr>\<rparr>" sample_key sample_tenant sample_auth_env "[''m'']"]
      sample_loads_row sample_models
    by (simp add: sample_issued_def sample_key_def new_key_row_def) (simp add: sample_auth_env_def)
qed

end
