(* ===== verification/AuthRuns.thy ===== *)
theory AuthRuns
  imports ApiKeys
begin

text \<open>
  The credential store under concurrency: loads of many requests, promotions, invalidations and
  changes of the tables in any interleaving, as a step relation over the operations of \<open>AuthStore\<close>.
  Shown: once a change has been followed by its invalidation, no snapshot from before the change is
  in the cache, nor can a load that was under way put one there.
\<close>

section \<open>Steps\<close>

text \<open>
  What the cache answers about a key and about its tenant, and whether the tables say the same.
\<close>

definition key_current :: "key_db \<Rightarrow> auth_snapshot \<Rightarrow> bool" where
  "key_current db s \<longleftrightarrow>
     (\<exists>k \<in> set (kdKeys db). akID k = asAPIKeyID s \<and> akTenantID k = asTenantID s \<and> akStatus k = asKeyStatus s \<and>
        akExpiresAt k = asKeyExpiresAt s \<and> akKeyHash k = asKeyHash s)"

definition tenant_current :: "key_db \<Rightarrow> auth_snapshot \<Rightarrow> bool" where
  "tenant_current db s \<longleftrightarrow>
     (\<exists>t \<in> set (kdTenants db). teID t = asTenantID s \<and> teStatus t = asTenantStatus s) \<and>
     models_normalize (granted_models (asTenantID s) db) = Inr (asAllowedModels s)"

text \<open>The keys and tenants changed since their last invalidation are excepted.\<close>

record auth_run =
  arWorld :: auth_world
  arBegun :: "uint64 set" \<comment> \<open>the generations loads have read at their start\<close>
  arLoads :: "cache_load set" \<comment> \<open>the loads that have read the tables\<close>
  arKeys :: "string set"
  arTenants :: "string set"

definition up_to_date :: "auth_run \<Rightarrow> auth_snapshot \<Rightarrow> bool" where
  "up_to_date r s \<longleftrightarrow>
     (asAPIKeyID s \<notin> arKeys r \<longrightarrow> key_current (awDB (arWorld r)) s) \<and>
     (asTenantID s \<notin> arTenants r \<longrightarrow> tenant_current (awDB (arWorld r)) s)"

definition on_store :: "(store \<Rightarrow> store) \<Rightarrow> auth_run \<Rightarrow> auth_run" where
  "on_store f r = r\<lparr>arWorld := with_store f (arWorld r)\<rparr>"

definition changes_only :: "string set \<Rightarrow> string set \<Rightarrow> key_db \<Rightarrow> key_db \<Rightarrow> bool" where
  "changes_only ks ts db db' \<longleftrightarrow>
     (\<forall>s. asAPIKeyID s \<notin> ks \<longrightarrow> key_current db s \<longrightarrow> key_current db' s) \<and>
     (\<forall>s. asTenantID s \<notin> ts \<longrightarrow> tenant_current db s \<longrightarrow> tenant_current db' s)"

text \<open>
  The steps. An answer of the shared cache is taken to be up to date; an invalidation is one of the
  first \<open>2 ^ 64 - 1\<close>, so that the generation has not wrapped around.
\<close>

inductive auth_step :: "auth_run \<Rightarrow> auth_run \<Rightarrow> bool" where
  get: "auth_step r (on_store (\<lambda>st. st\<lparr>stL1 := fst (l1_Get k now (stL1 st))\<rparr>) r)"
| start_load: "auth_step r (r\<lparr>arBegun := insert (stGeneration (awStore (arWorld r))) (arBegun r)\<rparr>)"
| shared_hit: "g \<in> arBegun r \<Longrightarrow> up_to_date r s \<Longrightarrow> auth_step r (on_store (keep_l2 k s g now) r)"
| read_tables: "g \<in> arBegun r \<Longrightarrow>
    auth_step r (r\<lparr>arLoads := insert (load_source (source_Load fault1 fault2 digest now (awDB (arWorld r))) g) (arLoads r)\<rparr>)"
| promote: "l \<in> arLoads r \<Longrightarrow>
    auth_step r (on_store (\<lambda>st. fst (store_Promote now nowSet marshals k l st)) r)"
| change: "changes_only ks ts (awDB (arWorld r)) db' \<Longrightarrow>
    auth_step r (r\<lparr>arWorld := (arWorld r)\<lparr>awDB := db'\<rparr>, arKeys := arKeys r \<union> ks, arTenants := arTenants r \<union> ts\<rparr>)"
| drop_key: "unat (stGeneration (awStore (arWorld r))) < 2 ^ 64 - 1 \<Longrightarrow> (\<forall>xs. mset (visit xs) = mset xs) \<Longrightarrow>
    auth_step r ((on_store (InvalidateKey visit publishes i) r)\<lparr>arKeys := arKeys r - {i}\<rparr>)"
| drop_tenant: "unat (stGeneration (awStore (arWorld r))) < 2 ^ 64 - 1 \<Longrightarrow> (\<forall>xs. mset (visit xs) = mset xs) \<Longrightarrow>
    auth_step r ((on_store (InvalidateTenant visit publishes i) r)\<lparr>arTenants := arTenants r - {i}\<rparr>)"
| message: "unat (stGeneration (awStore (arWorld r))) < 2 ^ 64 - 1 \<Longrightarrow> (\<forall>xs. mset (visit xs) = mset xs) \<Longrightarrow>
    auth_step r (on_store (handleInvalidation visit event) r)"

inductive auth_reachable :: "auth_run \<Rightarrow> bool" where
  initial: "NewCachedManager (Some db) pepper client settings = Inr (pepper', w) \<Longrightarrow> auth_reachable
    \<lparr>arWorld = w, arBegun = {}, arLoads = {}, arKeys = {}, arTenants = {}\<rparr>"
| step: "auth_reachable r \<Longrightarrow> auth_step r r' \<Longrightarrow> auth_reachable r'"

section \<open>The cache agrees with the tables\<close>

definition auth_inv :: "auth_run \<Rightarrow> bool" where
  "auth_inv r \<longleftrightarrow>
     (let st = awStore (arWorld r) in
      stEnabled st \<and> l1_ok (stL1 st) \<and> (\<forall>e \<in> set (l1_rows (stL1 st)). up_to_date r (leSnapshot e)) \<and>
      (\<forall>g \<in> arBegun r. unat g \<le> unat (stGeneration st)) \<and>
      (\<forall>l \<in> arLoads r. unat (clGeneration l) \<le> unat (stGeneration st) \<and>
         (clGeneration l = stGeneration st \<longrightarrow> (\<forall>s. clSnapshot l = Some s \<longrightarrow> up_to_date r s))))"

lemma auth_invD:
  assumes "auth_inv r"
  shows "stEnabled (awStore (arWorld r))" "l1_ok (stL1 (awStore (arWorld r)))"
    "\<And>e. e \<in> set (l1_rows (stL1 (awStore (arWorld r)))) \<Longrightarrow> up_to_date r (leSnapshot e)"
    "\<And>g. g \<in> arBegun r \<Longrightarrow> unat g \<le> unat (stGeneration (awStore (arWorld r)))"
    "\<And>l. l \<in> arLoads r \<Longrightarrow> unat (clGeneration l) \<le> unat (stGeneration (awStore (arWorld r)))"
    "\<And>l s. l \<in> arLoads r \<Longrightarrow> clGeneration l = stGeneration (awStore (arWorld r)) \<Longrightarrow> clSnapshot l = Some s \<Longrightarrow> up_to_date r s"
  using assms unfolding auth_inv_def Let_def by blast+

lemma up_to_date_cong:
  "awDB (arWorld r') = awDB (arWorld r) \<Longrightarrow> arKeys r' = arKeys r \<Longrightarrow> arTenants r' = arTenants r \<Longrightarrow> up_to_date r' = up_to_date r"
  by (simp add: up_to_date_def fun_eq_iff)

lemma up_to_date_cached [simp]: "up_to_date r (s\<lparr>asCachedUntil := t\<rparr>) = up_to_date r s"
  by (simp add: up_to_date_def key_current_def tenant_current_def)

lemma with_store_sel [simp]: "awStore (with_store f w) = f (awStore w)" "awDB (with_store f w) = awDB w"
  by (simp_all add: with_store_def)

lemma on_store_sel [simp]:
  "arWorld (on_store f r) = with_store f (arWorld r)" "arBegun (on_store f r) = arBegun r" "arLoads (on_store f r) = arLoads r"
  "arKeys (on_store f r) = arKeys r" "arTenants (on_store f r) = arTenants r"
  by (simp_all add: on_store_def)

text \<open>A step of the store that keeps its generation and caches only what is up to date.\<close>

lemma auth_inv_store:
  assumes inv: "auth_inv r" and st: "st = awStore (arWorld r)"
    and "stEnabled (f st)" "stGeneration (f st) = stGeneration st" "l1_ok (stL1 (f st))"
    and rows: "\<And>e. e \<in> set (l1_rows (stL1 (f st))) \<Longrightarrow> e \<in> set (l1_rows (stL1 st)) \<or> up_to_date r (leSnapshot e)"
  shows "auth_inv (on_store f r)"
proof -
  have "up_to_date (on_store f r) = up_to_date r" by (rule up_to_date_cong) simp_all
  with assms auth_invD [OF inv] show ?thesis by (auto simp: auth_inv_def Let_def)
qed

lemma lru_get_rows: "set (fst (lru_get k now es)) \<subseteq> set es"
  by (auto simp: lru_get_def find_Some_iff split: option.split)

lemma l1_Get_rows:
  assumes "l1_ok c"
  shows "set (l1_rows (fst (l1_Get k now c))) \<subseteq> set (l1_rows c)"
  using lru_get_rows [of k now "l1_rows c"] l1_Get_refines(2) [OF assms, of k now] by (simp add: apfst_def map_prod_def split_beta)

lemma l1_Set_rows:
  assumes "l1_ok c" "e \<in> set (l1_rows (fst (l1_Set k s now c)))"
  shows "e \<in> set (l1_rows c) \<or> leSnapshot e = s"
proof -
  have "e \<in> set (fst (lru_set (lcMaxEntries c) (lcTTL c) k s now (l1_rows c)))"
    using l1_Set_refines(2) [OF assms(1), of k s now] assms(2) by simp
  then show ?thesis by (auto simp: lru_set_def Let_def split: if_split_asm dest!: in_set_butlastD)
qed

lemma auth_inv_setL1:
  assumes "auth_inv r" "up_to_date r s" "\<And>st. stEnabled (f st) = stEnabled st \<and> stGeneration (f st) = stGeneration st \<and> stL1 (f st) = stL1 st"
  shows "auth_inv (on_store (\<lambda>st. setL1 k s now (f st)) r)"
proof -
  have ok: "l1_ok (stL1 (awStore (arWorld r)))" using auth_invD(2) [OF assms(1)] .
  show ?thesis
    by (rule auth_inv_store [OF assms(1) refl])
      (use assms l1_Set_refines(1) [OF ok] auth_invD(1) [OF assms(1)] in \<open>auto simp: setL1_def dest!: l1_Set_rows [OF ok]\<close>)
qed

lemma source_Load_current:
  assumes "fst (source_Load fault1 fault2 digest now db) = Inr s"
  shows "key_current db s" "tenant_current db s"
proof -
  from assms obtain k t where find: "find_key digest db = Some (k, t)"
    and valid: "snapshot_validate digest now False (row_snapshot k t (granted_models (akTenantID k) db) now) = Inr s"
    by (auto simp: source_Load_def split: if_split_asm option.split_asm)
  from find have rows: "k \<in> set (kdKeys db)" "t \<in> set (kdTenants db)" "teID t = akTenantID k"
    by (auto simp: find_key_def find_Some_iff dest!: nth_mem [of _ "List.product (kdKeys db) (kdTenants db)", simplified])
  from valid obtain models where m: "models_normalize (granted_models (akTenantID k) db) = Inr models"
    and s: "s = (row_snapshot k t (granted_models (akTenantID k) db) now)\<lparr>asAllowedModels := models\<rparr>"
    by (auto simp: snapshot_validate_def row_snapshot_def split: if_split_asm sum.split_asm)
  show "key_current db s" using rows by (auto simp: key_current_def s row_snapshot_def)
  show "tenant_current db s" using rows m by (auto simp: tenant_current_def s row_snapshot_def)
qed

text \<open>A step that raises the generation makes every load under way stale.\<close>

lemma auth_inv_raise:
  assumes inv: "auth_inv r" and "unat (stGeneration (awStore (arWorld r))) < 2 ^ 64 - 1"
    and st': "stEnabled st'" "stGeneration st' = stGeneration (awStore (arWorld r)) + 1" "l1_ok (stL1 st')"
    and r': "awStore (arWorld r') = st'" "arBegun r' = arBegun r" "arLoads r' = arLoads r"
    and rows: "\<And>e. e \<in> set (l1_rows (stL1 st')) \<Longrightarrow> up_to_date r' (leSnapshot e)"
  shows "auth_inv r'"
proof -
  note suc = unat_suc [OF assms(2)]
  have "unat (clGeneration l) < unat (stGeneration st')" if "l \<in> arLoads r" for l
    using auth_invD(5) [OF inv that] by (simp add: st' suc)
  moreover have "unat g \<le> unat (stGeneration st')" if "g \<in> arBegun r" for g
    using auth_invD(4) [OF inv that] by (simp add: st' suc)
  ultimately show ?thesis using st'(1,3) r' rows by (fastforce simp: auth_inv_def Let_def)
qed

lemma delete_rows:
  assumes "l1_ok c" "\<forall>xs. mset (visit xs) = mset xs"
  shows "l1_ok (fst (DeleteKey visit i c))" "l1_ok (fst (DeleteTenant visit i c))"
    "l1_rows (fst (DeleteKey visit i c)) = filter (\<lambda>e. asAPIKeyID (leSnapshot e) \<noteq> i) (l1_rows c)"
    "l1_rows (fst (DeleteTenant visit i c)) = filter (\<lambda>e. asTenantID (leSnapshot e) \<noteq> i) (l1_rows c)"
proof -
  note v = assms(2) [rule_format]
  note k = delete_refines [of c _ _ visit i, OF assms(1) l1_okD(5) [OF assms(1)] v, folded DeleteKey_def]
  note t = delete_refines [of c _ _ visit i, OF assms(1) l1_okD(6) [OF assms(1)] v, folded DeleteTenant_def]
  show "l1_ok (fst (DeleteKey visit i c))" "l1_ok (fst (DeleteTenant visit i c))" by (rule k t)+
  show "l1_rows (fst (DeleteKey visit i c)) = filter (\<lambda>e. asAPIKeyID (leSnapshot e) \<noteq> i) (l1_rows c)"
    using arg_cong [OF k(2), of fst] by (simp add: lru_delete_def)
  show "l1_rows (fst (DeleteTenant visit i c)) = filter (\<lambda>e. asTenantID (leSnapshot e) \<noteq> i) (l1_rows c)"
    using arg_cong [OF t(2), of fst] by (simp add: lru_delete_def)
qed

lemma invalidated:
  assumes "stEnabled st"
  shows "stEnabled (InvalidateKey visit p i st)" "stGeneration (InvalidateKey visit p i st) = stGeneration st + 1"
    "stL1 (InvalidateKey visit p i st) = fst (DeleteKey visit i (stL1 st))"
    "stEnabled (InvalidateTenant visit p i st)" "stGeneration (InvalidateTenant visit p i st) = stGeneration st + 1"
    "stL1 (InvalidateTenant visit p i st) = fst (DeleteTenant visit i (stL1 st))"
  using assms by (simp_all add: InvalidateKey_def InvalidateTenant_def store_invalidate_def shared_call_def Let_def)

lemma handled:
  "handleInvalidation visit event st = st \<or>
   (\<exists>i. stEnabled (handleInvalidation visit event st) = stEnabled st \<and>
      stGeneration (handleInvalidation visit event st) = stGeneration st + 1 \<and>
      (stL1 (handleInvalidation visit event st) = fst (DeleteKey visit i (stL1 st)) \<or>
       stL1 (handleInvalidation visit event st) = fst (DeleteTenant visit i (stL1 st))))"
proof (cases event)
  case (Some e)
  then show ?thesis by (auto simp: handleInvalidation_def shared_call_def)
qed (simp add: handleInvalidation_def)

lemma auth_step_inv: "auth_step r r' \<Longrightarrow> auth_inv r \<Longrightarrow> auth_inv r'"
proof (induction rule: auth_step.induct)
  case (get r k now)
  note inv = auth_invD [OF get]
  show ?case
    by (rule auth_inv_store [OF get refl]) (use inv(1) l1_Get_refines(1) [OF inv(2)] l1_Get_rows [OF inv(2), of k now] in auto)
next
  case (start_load r)
  note inv = auth_invD [OF start_load]
  have "up_to_date (r\<lparr>arBegun := b\<rparr>) = up_to_date r" for b by (rule up_to_date_cong) simp_all
  with inv show ?case by (auto simp: auth_inv_def Let_def)
next
  case (shared_hit g r s k now)
  show ?case
  proof (cases "stGeneration (awStore (arWorld r)) = g")
    case True
    then have "on_store (keep_l2 k s g now) r = on_store (setL1 k s now) r"
      by (simp add: on_store_def with_store_def keep_l2_def)
    with auth_inv_setL1 [of r s id k now] shared_hit show ?thesis by simp
  next
    case False
    then have "on_store (keep_l2 k s g now) r = r"
      by (simp add: on_store_def with_store_def keep_l2_def)
    with shared_hit show ?thesis by simp
  qed
next
  case (read_tables g r fault1 fault2 digest now)
  note inv = auth_invD [OF read_tables(2)]
  let ?l = "load_source (source_Load fault1 fault2 digest now (awDB (arWorld r))) g"
  have same: "up_to_date (r\<lparr>arLoads := b\<rparr>) = up_to_date r" for b by (rule up_to_date_cong) simp_all
  have "up_to_date r s" if "clSnapshot ?l = Some s" for s
    using that source_Load_current by (auto simp: load_source_def up_to_date_def split: sum.split_asm)
  moreover have "clGeneration ?l = g" by (simp add: load_source_def)
  ultimately show ?case using inv read_tables(1) by (auto simp: auth_inv_def Let_def same)
next
  case (promote l r now nowSet marshals k)
  let ?st = "awStore (arWorld r)"
  show ?case
  proof (cases "\<exists>s. clSnapshot l = Some s \<and> stGeneration ?st = clGeneration l \<and>
      \<not> (\<not> stEnabled ?st \<or> clErr l \<noteq> None \<or> clSource l \<noteq> ''postgres'') \<and> \<not> clPromoted l")
    case True
    then obtain s where s: "clSnapshot l = Some s" "stGeneration ?st = clGeneration l"
      "\<not> (\<not> stEnabled ?st \<or> clErr l \<noteq> None \<or> clSource l \<noteq> ''postgres'')" "\<not> clPromoted l" by blast
    let ?s = "s\<lparr>asCachedUntil := now + stL2TTL ?st\<rparr>"
    let ?f = "\<lambda>st. if marshals then shared_call (SharedStore k (asAPIKeyID ?s) (asTenantID ?s) ?s (stL2TTL ?st)) st else st"
    have eq: "on_store (\<lambda>st. fst (store_Promote now nowSet marshals k l st)) r = on_store (\<lambda>st. setL1 k ?s nowSet (?f st)) r"
      using s by (simp add: on_store_def with_store_def store_Promote_def Let_def)
    have "up_to_date r ?s" using auth_invD(6) [OF promote(2,1)] s by simp
    then show ?thesis unfolding eq by (intro auth_inv_setL1 [OF promote(2)]) (simp_all add: shared_call_def)
  next
    case False
    then have "on_store (\<lambda>st. fst (store_Promote now nowSet marshals k l st)) r = r"
      by (auto simp: on_store_def with_store_def store_Promote_def split: option.split)
    with promote show ?thesis by simp
  qed
next
  case (change ks ts r db')
  note inv = auth_invD [OF change(2)]
  let ?r = "r\<lparr>arWorld := (arWorld r)\<lparr>awDB := db'\<rparr>, arKeys := arKeys r \<union> ks, arTenants := arTenants r \<union> ts\<rparr>"
  have "up_to_date r s \<Longrightarrow> up_to_date ?r s" for s
    using change(1) by (auto simp: up_to_date_def changes_only_def)
  with inv show ?case by (auto simp: auth_inv_def Let_def)
next
  case (drop_key r visit i publishes)
  note inv = auth_invD [OF drop_key(3)] and d = delete_rows [OF auth_invD(2) [OF drop_key(3)] drop_key(2)]
  note st = invalidated [OF inv(1), of visit publishes i]
  show ?case
    by (rule auth_inv_raise [OF drop_key(3,1) st(1,2)]) (use inv(3) d st(3) in \<open>auto simp: up_to_date_def\<close>)
next
  case (drop_tenant r visit i publishes)
  note inv = auth_invD [OF drop_tenant(3)] and d = delete_rows [OF auth_invD(2) [OF drop_tenant(3)] drop_tenant(2)]
  note st = invalidated [OF inv(1), of visit publishes i]
  show ?case
    by (rule auth_inv_raise [OF drop_tenant(3,1) st(4,5)]) (use inv(3) d st(6) in \<open>auto simp: up_to_date_def\<close>)
next
  case (message r visit event)
  note inv = auth_invD [OF message(3)] and d = delete_rows [OF auth_invD(2) [OF message(3)] message(2)]
  show ?case
  proof (cases "handleInvalidation visit event (awStore (arWorld r)) = awStore (arWorld r)")
    case True
    then have "on_store (handleInvalidation visit event) r = r" by (simp add: on_store_def with_store_def)
    with message show ?thesis by simp
  next
    case False
    with handled [of visit event "awStore (arWorld r)"] obtain i where
      i: "stEnabled (handleInvalidation visit event (awStore (arWorld r)))"
      "stGeneration (handleInvalidation visit event (awStore (arWorld r))) = stGeneration (awStore (arWorld r)) + 1"
      "stL1 (handleInvalidation visit event (awStore (arWorld r))) = fst (DeleteKey visit i (stL1 (awStore (arWorld r)))) \<or>
       stL1 (handleInvalidation visit event (awStore (arWorld r))) = fst (DeleteTenant visit i (stL1 (awStore (arWorld r))))"
      using inv(1) by blast
    show ?thesis
      by (rule auth_inv_raise [OF message(3,1) i(1,2)]) (use inv(3) d [of i] i(3) in \<open>auto simp: up_to_date_def\<close>)
  qed
qed

lemma auth_reachable_inv: "auth_reachable r \<Longrightarrow> auth_inv r"
proof (induction rule: auth_reachable.induct)
  case (initial db pepper client settings pepper' w)
  then have "stEnabled (awStore w)" "stL1 (awStore w) = newL1Cache (seL1MaxEntries settings) (seL1TTL settings)" "1 \<le> seL1MaxEntries settings"
    by (auto simp: NewCachedManager_def newRedisCredentialStore_def newCredentialStore_def split: sum.split_asm prod.split_asm if_split_asm)
  then show ?case by (simp add: auth_inv_def newL1Cache_ok)
qed (rule auth_step_inv)

section \<open>What an authentication rests on\<close>

lemma sorted_remdups_id: "sorted xs \<Longrightarrow> distinct xs \<Longrightarrow> sort (remdups xs) = xs"
  by (simp add: distinct_remdups_id sorted_sort_id)

lemma models_normalize_idem:
  assumes "models_normalize ms = Inr ns"
  shows "models_normalize ns = Inr ns"
proof -
  have ns: "ns = sort (remdups (map trim_space ms))" and ok: "\<not> list_ex (\<lambda>m. trim_space m = [] \<or> rune_count (trim_space m) > 200) ms"
    using assms by (auto simp: models_normalize_def split: if_split_asm)
  have trimmed: "trim_space m = m" "m \<noteq> []" "\<not> rune_count m > 200" if "m \<in> set ns" for m
    using that ok by (auto simp: ns list_ex_iff)
  then have "map trim_space ns = ns" by (simp add: map_idI)
  moreover have "\<not> list_ex (\<lambda>m. trim_space m = [] \<or> rune_count (trim_space m) > 200) ns"
    using trimmed by (auto simp: list_ex_iff)
  ultimately show ?thesis by (simp add: models_normalize_def sorted_remdups_id ns)
qed

lemma validated_up_to_date:
  assumes "up_to_date r s" "snapshot_validate digest now cached s = Inr s'"
  shows "up_to_date r s'"
proof -
  from assms(2) obtain models where m: "models_normalize (asAllowedModels s) = Inr models" and s': "s' = s\<lparr>asAllowedModels := models\<rparr>"
    by (auto simp: snapshot_validate_def split: if_split_asm sum.split_asm)
  have "models = asAllowedModels s" if "tenant_current (awDB (arWorld r)) s"
    using that m models_normalize_idem by (auto simp: tenant_current_def)
  with assms(1) s' show ?thesis
    by (auto simp: up_to_date_def key_current_def tenant_current_def)
qed

text \<open>
  A request whose load, if it makes one, runs alone and meets only up-to-date answers from the shared
  cache and from the load it joins.
\<close>

definition quiet_load :: "auth_run \<Rightarrow> load_env \<Rightarrow> bool" where
  "quiet_load r env \<longleftrightarrow> (\<forall>i w. ldOthers env i w = w) \<and> (\<forall>s. ldShared env = SharedPayload (Some s) \<longrightarrow> up_to_date r s)"

fun quiet_flight :: "auth_run \<Rightarrow> flight \<Rightarrow> bool" where
  "quiet_flight r (FlightOwn env) \<longleftrightarrow> quiet_load r env"
| "quiet_flight r (FlightJoined l) \<longleftrightarrow> (\<forall>s. clSnapshot l = Some s \<longrightarrow> up_to_date r s)"
| "quiet_flight r (FlightCanceled err) \<longleftrightarrow> True"

lemma l1_Get_hit:
  assumes "l1_ok c" "l1_Get k now c = (c', L1Hit s)"
  obtains e where "e \<in> set (l1_rows c)" "leSnapshot e = s"
proof -
  have "snd (lru_get k now (l1_rows c)) = L1Hit s" using l1_Get_refines(2) [OF assms(1), of k now] assms(2) by simp
  then obtain e where "find (\<lambda>e. leCacheKey e = k) (l1_rows c) = Some e" "leSnapshot e = s"
    by (auto simp: lru_get_def split: option.split_asm if_split_asm)
  then show ?thesis using that by (metis find_Some_iff nth_mem)
qed

lemma get_l1_hit:
  assumes "l1_ok (stL1 (awStore w))" "\<forall>e \<in> set (l1_rows (stL1 (awStore w))). up_to_date r (leSnapshot e)" "get_l1 k now w = (w', res)"
  shows "res = L1Hit s \<Longrightarrow> up_to_date r s" "awDB w' = awDB w" "l1_ok (stL1 (awStore w'))"
    "\<forall>e \<in> set (l1_rows (stL1 (awStore w'))). up_to_date r (leSnapshot e)"
proof -
  obtain c where c: "l1_Get k now (stL1 (awStore w)) = (c, res)" "w' = with_store (\<lambda>st. st\<lparr>stL1 := c\<rparr>) w"
    using assms(3) by (auto simp: get_l1_def split: prod.split_asm)
  show "res = L1Hit s \<Longrightarrow> up_to_date r s" using l1_Get_hit [OF assms(1)] c assms(2) by metis
  show "awDB w' = awDB w" using c by simp
  show "l1_ok (stL1 (awStore w'))" using l1_Get_refines(1) [OF assms(1), of k now] c by simp
  show "\<forall>e \<in> set (l1_rows (stL1 (awStore w'))). up_to_date r (leSnapshot e)"
    using l1_Get_rows [OF assms(1), of k now] c assms(2) by auto
qed

lemma store_load_up_to_date:
  assumes "l1_ok (stL1 (awStore w))" "\<forall>e \<in> set (l1_rows (stL1 (awStore w))). up_to_date r (leSnapshot e)"
    and "awDB w = awDB (arWorld r)" "quiet_load r env" "store_load env k digest w = (w', l)" "clSnapshot l = Some s"
  shows "up_to_date r s"
proof -
  have others: "ldOthers env i w = w" for i w using assms(4) by (simp add: quiet_load_def)
  obtain w1 res where g: "get_l1 k (ldNowL1 env) w = (w1, res)" by fastforce
  note hit = get_l1_hit [OF assms(1,2) g]
  have source: "up_to_date r s" if "awDB w2 = awDB w1" "load_from_source env digest g w2 = (w', l)" for w2 g
    using that assms(3,6) hit(2) source_Load_current
    by (auto simp: load_from_source_def Let_def others load_source_def up_to_date_def split: sum.split_asm)
  have l2: "up_to_date r s" if "ldShared env = SharedPayload (Some s0)" "snapshot_validate digest t True s0 = Inr s" for s0 t
    using that assms(4) validated_up_to_date by (auto simp: quiet_load_def)
  show ?thesis
    using assms(5,6) hit(1) source [of w1] source [of "with_store (shared_call (SharedDeleteValue k)) w1"] l2
    by (auto simp: store_load_def Let_def others g load_hit_def split: l1_result.split_asm shared_load.split_asm option.split_asm sum.split_asm)
qed

lemma lookup_up_to_date:
  assumes "auth_inv r" "quiet_flight r flight" "store_Lookup flight now env digest (arWorld r) = (w', l, leader)" "clSnapshot l = Some s"
  shows "up_to_date r s"
proof -
  note inv = auth_invD [OF assms(1)]
  obtain w1 res where g: "get_l1 (store_cacheKey (awStore (arWorld r)) digest) now (arWorld r) = (w1, res)" by fastforce
  have "\<forall>e \<in> set (l1_rows (stL1 (awStore (arWorld r)))). up_to_date r (leSnapshot e)" using inv(3) by blast
  note hit = get_l1_hit [OF inv(2) this g]
  show ?thesis
  proof (cases res)
    case (L1Hit s')
    with assms(3,4) inv(1) hit(1) g show ?thesis by (auto simp: store_Lookup_def Let_def load_hit_def)
  next
    case L1Miss
    with assms inv(1) g store_load_up_to_date [OF hit(3,4,2)] show ?thesis
      by (cases flight) (auto simp: store_Lookup_def Let_def load_canceled_def split: prod.split_asm)
  next
    case L1Expired
    with assms inv(1) g store_load_up_to_date [OF hit(3,4,2)] show ?thesis
      by (cases flight) (auto simp: store_Lookup_def Let_def load_canceled_def split: prod.split_asm)
  qed
qed

lemma Authenticate_snapshot:
  assumes "Authenticate env pepper plaintext w = (w', Inr ident)"
  obtains token w1 l leader s where "parseToken plaintext = Inr token"
    "store_Lookup (auFlight env) (auNowLookup env) (auLoad env) (digestPrefix (ptPrefix token)) w = (w1, l, leader)"
    "clSnapshot l = Some s" "verifyToken token (asKeyHash s) (asHashVersion s) pepper" "asKeyPrefix s = ptPrefix token"
    "key_refusal s (auNow env) = None" "ident = snapshot_identity s"
  using assms that
  by (auto simp: Authenticate_def Let_def split: sum.split_asm prod.split_asm option.split_asm if_split_asm key_error.split_asm)


section \<open>Revocation takes effect\<close>

definition revokes :: "string \<Rightarrow> key_db \<Rightarrow> key_db \<Rightarrow> bool" where
  "revokes i db db' \<longleftrightarrow> (\<forall>k \<in> set (kdKeys db'). akID k = i \<longrightarrow> akStatus k = APIKeyRevoked) \<and>
     kdTenants db' = kdTenants db \<and> kdGrants db' = kdGrants db \<and>
     (\<forall>k \<in> set (kdKeys db). akID k \<noteq> i \<longrightarrow> k \<in> set (kdKeys db'))"

lemma Revoke_cases:
  assumes "Revoke now fault1 fault2 env keyID w = (w', res)" "res = None \<or> res = Some ErrKeyRevoked" "\<forall>w. inOthers env w = w"
  obtains db' where "revokes (trim_space keyID) (awDB w) db'"
    "w' = with_store (InvalidateKey (inVisit env) (inPublishes env) (trim_space keyID)) (w\<lparr>awDB := db'\<rparr>)"
proof (cases "snd (update_keys (\<lambda>k. akID k = trim_space keyID \<and> akStatus k \<noteq> APIKeyRevoked) (revoked_key now) (awDB w)) = 0")
  case True
  then have "revokes (trim_space keyID) (awDB w) (awDB w)"
    by (auto simp: revokes_def update_keys_def filter_empty_conv)
  moreover from True assms have "w' = with_store (InvalidateKey (inVisit env) (inPublishes env) (trim_space keyID)) w"
    by (auto simp: Revoke_def set_key_status_def Let_def invalidate_key_def split: prod.split_asm if_split_asm)
  ultimately show ?thesis using that by simp
next
  case False
  let ?db = "fst (update_keys (\<lambda>k. akID k = trim_space keyID \<and> akStatus k \<noteq> APIKeyRevoked) (revoked_key now) (awDB w))"
  have "revokes (trim_space keyID) (awDB w) ?db"
    by (auto simp: revokes_def update_keys_def revoked_key_def)
  moreover from False assms have "w' = with_store (InvalidateKey (inVisit env) (inPublishes env) (trim_space keyID)) (w\<lparr>awDB := ?db\<rparr>)"
    by (auto simp: Revoke_def set_key_status_def Let_def invalidate_key_def split: prod.split_asm if_split_asm)
  ultimately show ?thesis using that by blast
qed

lemma revokes_changes: "revokes i db db' \<Longrightarrow> changes_only {i} {} db db'"
  by (auto simp: revokes_def changes_only_def key_current_def tenant_current_def granted_models_def)


section \<open>Witnesses\<close>

definition sample_run :: auth_run where
  "sample_run = \<lparr>arWorld = \<lparr>awStore = sample_store, awDB = sample_db\<lparr>kdKeys := [sample_key]\<rparr>\<rparr>, arBegun = {}, arLoads = {},
     arKeys = {}, arTenants = {}\<rparr>"

lemma sample_run_reachable: "auth_reachable sample_run"
  unfolding sample_run_def
  by (rule auth_reachable.initial [of _ "replicate 32 (CHR ''p'')" True
        "\<lparr>seEnabled = True, seL1MaxEntries = 10, seL1TTL = 15, seL2TTL = 30, seKeyPrefix = ''p'', seInvalidationChannel = ''c''\<rparr>"])
    (simp add: NewCachedManager_def NewManager_def newRedisCredentialStore_def newCredentialStore_def sample_store_def)

lemma sample_quiet: "quiet_flight r (auFlight sample_auth_env)"
  by (simp add: sample_auth_env_def quiet_load_def sample_load_env_def)

lemma sample_authenticates:
  "snd (Authenticate sample_auth_env ''pepper'' (ikPlaintext sample_issued) (arWorld sample_run)) =
   Inr \<lparr>idTenantID = ''t'', idAPIKeyID = ikID sample_issued, idKeyPrefix = ikPrefix sample_issued, idAuthorization = Some [''m'']\<rparr>"
  by (simp add: sample_run_def sample_authenticate)


definition sample_invalidate :: invalidate_env where
  "sample_invalidate = \<lparr>inVisit = (\<lambda>xs. xs), inPublishes = True, inOthers = (\<lambda>w. w)\<rparr>"


end
