(* ===== verification/ChatContent.thy ===== *)
theory ChatContent
  imports ChunkCheck Routing
begin

text \<open>
  The content of a chat message and the completion a native adapter builds
  (\<open>internal/provider/chat_content.go\<close>, \<open>chat_completion.go\<close>). A content is a JSON string or an
  array of parts; every part is decoded, checked and normalised, and a native protocol also refuses
  members it could not translate.
\<close>

section \<open>Scalars\<close>

definition decode_bool :: "bool \<Rightarrow> raw \<Rightarrow> bool option" where
  "decode_bool old r =
     (case scalar r of Some TTrue \<Rightarrow> Some True | Some TFalse \<Rightarrow> Some False | Some TNull \<Rightarrow> Some old | _ \<Rightarrow> None)"

definition decode_bool_ptr :: "raw \<Rightarrow> bool option option" where
  "decode_bool_ptr r =
     (case scalar r of
        Some TTrue \<Rightarrow> Some (Some True) | Some TFalse \<Rightarrow> Some (Some False) | Some TNull \<Rightarrow> Some None | _ \<Rightarrow> None)"

text \<open>\<open>strings.Cut\<close>, \<open>HasPrefix\<close> and \<open>HasSuffix\<close>.\<close>

fun cut_at :: "char \<Rightarrow> string \<Rightarrow> (string \<times> string) option" where
  "cut_at sep [] = None"
| "cut_at sep (c # s) = (if c = sep then Some ([], s) else map_option (apfst ((#) c)) (cut_at sep s))"

definition has_prefix :: "string \<Rightarrow> string \<Rightarrow> bool" where
  "has_prefix p s \<longleftrightarrow> take (length p) s = p"

definition has_suffix :: "string \<Rightarrow> string \<Rightarrow> bool" where
  "has_suffix p s \<longleftrightarrow> length p \<le> length s \<and> drop (length s - length p) s = p"

section \<open>Data URLs\<close>

text \<open>
  \<open>base64.StdEncoding\<close>: line breaks are skipped, and the text is made of groups of four letters, the
  last of which may end in padding.
\<close>

definition is_b64_char :: "char \<Rightarrow> bool" where
  "is_b64_char c \<longleftrightarrow> is_upper_char c \<or> is_lower_char c \<or> is_digit_char c \<or> c = CHR ''+'' \<or> c = CHR ''/''"

fun b64_std_groups :: "string \<Rightarrow> bool" where
  "b64_std_groups [] = True"
| "b64_std_groups (a # b # c # d # s) \<longleftrightarrow>
     is_b64_char a \<and> is_b64_char b \<and>
     (if is_b64_char c \<and> is_b64_char d then b64_std_groups s
      else (c = CHR ''='' \<or> is_b64_char c) \<and> d = CHR ''='' \<and> s = [])"
| "b64_std_groups _ = False"

definition validBase64 :: "string \<Rightarrow> bool" where
  "validBase64 encoded = b64_std_groups (filter (\<lambda>c. c \<notin> {CHR 0x0A, CHR 0x0D}) encoded)"

definition parseDataURL :: "string \<Rightarrow> (string \<times> string) option" where
  "parseDataURL raw =
     (case cut_at (CHR '','') raw of
        None \<Rightarrow> None
      | Some (pre, encoded) \<Rightarrow>
          if \<not> has_prefix ''data:'' pre \<or> \<not> has_suffix '';base64'' pre then None
          else
            (let tail = drop 5 pre; mediaType = (if has_suffix '';base64'' tail then take (length tail - 7) tail else tail) in
             if mediaType = [] then None else if \<not> validBase64 encoded then None else Some (mediaType, encoded)))"

abbreviation invalid_request :: goerr where "invalid_request \<equiv> ErrSentinel ErrInvalidRequest"
abbreviation invalid_request_text :: goerr where "invalid_request_text \<equiv> ErrWrap [ErrSentinel ErrInvalidRequest]"
abbreviation unsupported :: goerr where "unsupported \<equiv> ErrWrap [ErrSentinel ErrUnsupportedCapability]"

definition base64Image :: "string \<Rightarrow> goerr + string \<times> string" where
  "base64Image raw =
     (case parseDataURL raw of
        Some found \<Rightarrow> Inr found
      | None \<Rightarrow> if has_prefix ''data:'' (trim_space raw) then Inl invalid_request else Inl unsupported)"

section \<open>Parts\<close>

record chat_content_part =
  cpType :: string
  cpText :: string
  cpImageURL :: string
  cpImageDetail :: string
  cpAudioData :: string
  cpAudioFormat :: string
  cpFileData :: string
  cpFileID :: string
  cpFilename :: string

definition content_part_zero :: chat_content_part where
  "content_part_zero = \<lparr>cpType = [], cpText = [], cpImageURL = [], cpImageDetail = [], cpAudioData = [], cpAudioFormat = [],
     cpFileData = [], cpFileID = [], cpFilename = []\<rparr>"

text \<open>The struct a part is decoded into has the same members, those of the nested structs among them.\<close>

definition image_url_fields :: "chat_content_part fields" where
  "image_url_fields =
     [(''url'', \<lambda>r x. map_option (\<lambda>v. x\<lparr>cpImageURL := v\<rparr>) (decode_string (cpImageURL x) r)),
      (''detail'', \<lambda>r x. map_option (\<lambda>v. x\<lparr>cpImageDetail := v\<rparr>) (decode_string (cpImageDetail x) r))]"

definition input_audio_fields :: "chat_content_part fields" where
  "input_audio_fields =
     [(''data'', \<lambda>r x. map_option (\<lambda>v. x\<lparr>cpAudioData := v\<rparr>) (decode_string (cpAudioData x) r)),
      (''format'', \<lambda>r x. map_option (\<lambda>v. x\<lparr>cpAudioFormat := v\<rparr>) (decode_string (cpAudioFormat x) r))]"

definition file_fields :: "chat_content_part fields" where
  "file_fields =
     [(''file_data'', \<lambda>r x. map_option (\<lambda>v. x\<lparr>cpFileData := v\<rparr>) (decode_string (cpFileData x) r)),
      (''file_id'', \<lambda>r x. map_option (\<lambda>v. x\<lparr>cpFileID := v\<rparr>) (decode_string (cpFileID x) r)),
      (''filename'', \<lambda>r x. map_option (\<lambda>v. x\<lparr>cpFilename := v\<rparr>) (decode_string (cpFilename x) r))]"

definition content_part_fields :: "chat_content_part fields" where
  "content_part_fields =
     [(''type'', \<lambda>r x. map_option (\<lambda>v. x\<lparr>cpType := v\<rparr>) (decode_string (cpType x) r)),
      (''text'', \<lambda>r x. map_option (\<lambda>v. x\<lparr>cpText := v\<rparr>) (decode_string (cpText x) r)),
      (''image_url'', \<lambda>r x. decode_struct image_url_fields x r),
      (''input_audio'', \<lambda>r x. decode_struct input_audio_fields x r),
      (''file'', \<lambda>r x. decode_struct file_fields x r)]"

definition unknownFields :: "(string \<times> raw) list \<Rightarrow> string list \<Rightarrow> string list" where
  "unknownFields fs known = sort (filter (\<lambda>name. name \<notin> set known) (remdups (map fst fs)))"

text \<open>The members a part of each type may have, and those of its nested object.\<close>

definition part_members :: "string \<Rightarrow> string list" where
  "part_members partType =
     ''type'' # (if partType = ''text'' \<or> partType = ''input_text'' then [''text'']
                else if partType \<in> {''image_url'', ''input_audio'', ''file''} then [partType] else [])"

definition nested_members :: "string \<Rightarrow> string list option" where
  "nested_members partType =
     (if partType = ''image_url'' then Some [''url'', ''detail'']
      else if partType = ''input_audio'' then Some [''data'', ''format'']
      else if partType = ''file'' then Some [''file_data'', ''file_id'', ''filename''] else None)"

text \<open>A member that is missing is a nil raw message, which does not decode.\<close>

definition rejectUnknownContentFields :: "raw \<Rightarrow> string \<Rightarrow> goerr option" where
  "rejectUnknownContentFields encoded partType =
     (case decode_map encoded of
        Some (Some fs) \<Rightarrow>
          if unknownFields fs (part_members partType) \<noteq> [] then Some unsupported
          else
            (case nested_members partType of
               None \<Rightarrow> None
             | Some nested \<Rightarrow>
                 (case decode_map (map_get fs partType) of
                    Some (Some nestedFields) \<Rightarrow>
                      if unknownFields nestedFields nested \<noteq> [] then Some unsupported else None
                  | _ \<Rightarrow> Some invalid_request))
      | _ \<Rightarrow> Some invalid_request)"

definition normalize_part :: "chat_content_part \<Rightarrow> goerr + chat_content_part" where
  "normalize_part part =
     (if cpType part = ''text'' \<or> cpType part = ''input_text''
      then Inr (content_part_zero\<lparr>cpType := ''text'', cpText := cpText part\<rparr>)
      else if cpType part = ''image_url'' then
        (let detail = to_lower (trim_space (cpImageDetail part)) in
         if trim_space (cpImageURL part) = [] then Inl invalid_request
         else if detail \<notin> {[], ''auto'', ''low'', ''high''} then Inl invalid_request
         else Inr (content_part_zero\<lparr>cpType := ''image_url'', cpImageURL := cpImageURL part, cpImageDetail := detail\<rparr>))
      else if cpType part = ''input_audio'' then
        (let format = to_lower (trim_space (cpAudioFormat part)) in
         if trim_space (cpAudioData part) = [] \<or> format \<notin> {''wav'', ''mp3''} \<or> \<not> validBase64 (cpAudioData part)
         then Inl invalid_request
         else Inr (content_part_zero\<lparr>cpType := ''input_audio'', cpAudioData := cpAudioData part, cpAudioFormat := format\<rparr>))
      else if cpType part = ''file'' then
        (let fileData = trim_space (cpFileData part); fileID = trim_space (cpFileID part) in
         if (fileData = []) = (fileID = []) then Inl invalid_request
         else if fileData \<noteq> [] \<and> parseDataURL fileData = None then Inl invalid_request
         else Inr (content_part_zero\<lparr>cpType := ''file'', cpFileData := fileData, cpFileID := fileID,
                cpFilename := trim_space (cpFilename part)\<rparr>))
      else Inl unsupported)"

fun part_loop :: "bool \<Rightarrow> raw list \<Rightarrow> goerr + chat_content_part list" where
  "part_loop rejectUnknown [] = Inr []"
| "part_loop rejectUnknown (encoded # rest) =
     (case decode_struct content_part_fields content_part_zero encoded of
        None \<Rightarrow> Inl invalid_request
      | Some part \<Rightarrow>
          (case (if rejectUnknown then rejectUnknownContentFields encoded (cpType part) else None) of
             Some err \<Rightarrow> Inl err
           | None \<Rightarrow>
               (case normalize_part part of
                  Inl err \<Rightarrow> Inl err
                | Inr p \<Rightarrow> (case part_loop rejectUnknown rest of Inl err \<Rightarrow> Inl err | Inr ps \<Rightarrow> Inr (p # ps)))))"

definition decodeContentParts :: "raw \<Rightarrow> bool \<Rightarrow> goerr + chat_content_part list" where
  "decodeContentParts r rejectUnknown =
     (if \<not> valuePresent r then Inl invalid_request
      else case hd (strip r) of
        TStr s \<Rightarrow>
          (case decode_string [] r of
             None \<Rightarrow> Inl invalid_request
           | Some text \<Rightarrow> Inr [content_part_zero\<lparr>cpType := ''text'', cpText := text\<rparr>])
      | _ \<Rightarrow> if \<not> is_array r \<or> elements r = [] then Inl invalid_request else part_loop rejectUnknown (elements r))"

definition decodeContent :: "raw \<Rightarrow> goerr + chat_content_part list" where
  "decodeContent r = decodeContentParts r False"

definition decodeNativeContent :: "raw \<Rightarrow> goerr + chat_content_part list" where
  "decodeNativeContent r = decodeContentParts r True"

fun text_of_parts :: "chat_content_part list \<Rightarrow> goerr + string" where
  "text_of_parts [] = Inr []"
| "text_of_parts (p # ps) =
     (if cpType p \<noteq> ''text'' then Inl unsupported
      else case text_of_parts ps of Inl err \<Rightarrow> Inl err | Inr t \<Rightarrow> Inr (cpText p @ t))"

definition textContent :: "raw \<Rightarrow> goerr + string" where
  "textContent r = (case decodeNativeContent r of Inl err \<Rightarrow> Inl err | Inr parts \<Rightarrow> text_of_parts parts)"

definition rejectNativeImageDetail :: "chat_content_part \<Rightarrow> goerr option" where
  "rejectNativeImageDetail part = (if cpImageDetail part = [] \<or> cpImageDetail part = ''auto'' then None else Some unsupported)"

section \<open>Usage\<close>

record completion_input_details =
  idAudio :: int
  idImage :: int
  idCachedRead :: int
  idCachedWrite :: int

record completion_output_details =
  odAudio :: int
  odReasoning :: int

record completion_usage =
  cuPromptTokens :: int
  cuPromptTokensDetails :: "completion_input_details option"
  cuCompletionTokens :: int
  cuCompletionTokensDetails :: "completion_output_details option"
  cuTotalTokens :: int

definition intValue :: "int option \<Rightarrow> int" where
  "intValue v = (case v of None \<Rightarrow> 0 | Some n \<Rightarrow> n)"

definition setInputDetails ::
  "int option \<Rightarrow> int option \<Rightarrow> int option \<Rightarrow> int option \<Rightarrow> completion_usage option \<Rightarrow> completion_usage option" where
  "setInputDetails audio imageTokens cachedRead cachedWrite usage =
     (case usage of
        None \<Rightarrow> None
      | Some u \<Rightarrow>
          if audio = None \<and> imageTokens = None \<and> cachedRead = None \<and> cachedWrite = None then Some u
          else Some (u\<lparr>cuPromptTokensDetails := Some \<lparr>idAudio = intValue audio, idImage = intValue imageTokens,
                 idCachedRead = intValue cachedRead, idCachedWrite = intValue cachedWrite\<rparr>\<rparr>))"

definition setOutputDetails :: "int option \<Rightarrow> int option \<Rightarrow> completion_usage option \<Rightarrow> completion_usage option" where
  "setOutputDetails audio reasoning usage =
     (case usage of
        None \<Rightarrow> None
      | Some u \<Rightarrow>
          if audio = None \<and> reasoning = None then Some u
          else Some (u\<lparr>cuCompletionTokensDetails := Some \<lparr>odAudio = intValue audio, odReasoning = intValue reasoning\<rparr>\<rparr>))"

text \<open>
  The sum is an \<open>int64\<close> that wraps around, and the test compares it with the greatest \<open>int\<close>, which on
  a 64-bit machine no \<open>int64\<close> exceeds.
\<close>

fun input_token_loop :: "int option list \<Rightarrow> int \<Rightarrow> int option" where
  "input_token_loop [] acc = Some acc"
| "input_token_loop (None # vs) acc = input_token_loop vs acc"
| "input_token_loop (Some v # vs) acc =
     (if v < 0 then None
      else let acc' = wrap_int64 (acc + v) in if acc' > int64_max then None else input_token_loop vs acc')"

definition inclusiveInputTokens :: "int option \<Rightarrow> int option \<Rightarrow> int option \<Rightarrow> int option \<times> bool" where
  "inclusiveInputTokens base cachedRead cachedWrite =
     (if base = None \<and> cachedRead = None \<and> cachedWrite = None then (None, True)
      else case input_token_loop [base, cachedRead, cachedWrite] 0 of
        None \<Rightarrow> (None, False)
      | Some n \<Rightarrow> (Some n, True))"

definition newCompletionUsage :: "int option \<Rightarrow> int option \<Rightarrow> int option \<Rightarrow> completion_usage option" where
  "newCompletionUsage prompt completion totalTokens =
     (if prompt = None \<and> completion = None \<and> totalTokens = None then None
      else Some \<lparr>cuPromptTokens = intValue prompt, cuPromptTokensDetails = None, cuCompletionTokens = intValue completion,
             cuCompletionTokensDetails = None, cuTotalTokens = intValue totalTokens\<rparr>)"

section \<open>The strict reading\<close>

lemma part_loop_strict: "part_loop True rs = Inr ps \<Longrightarrow> part_loop False rs = Inr ps"
  by (induction rs arbitrary: ps) (auto split: option.split_asm sum.split_asm)

lemma unknownFields_set: "set (unknownFields fs known) = fst ` set fs - set known"
  by (auto simp: unknownFields_def)

lemma unknownFields_none: "unknownFields fs known = [] \<Longrightarrow> fst ` set fs \<subseteq> set known"
  using unknownFields_set [of fs known] by auto

lemma part_loop_members:
  assumes "part_loop True rs = Inr ps" "r \<in> set rs"
  shows "\<exists>part fs. decode_struct content_part_fields content_part_zero r = Some part \<and> decode_map r = Some (Some fs) \<and>
    fst ` set fs \<subseteq> set (part_members (cpType part)) \<and>
    (\<forall>nested. nested_members (cpType part) = Some nested \<longrightarrow>
       (\<exists>gs. decode_map (map_get fs (cpType part)) = Some (Some gs) \<and> fst ` set gs \<subseteq> set nested))"
proof -
  obtain part where "decode_struct content_part_fields content_part_zero r = Some part" "rejectUnknownContentFields r (cpType part) = None"
    using assms by (induction rs arbitrary: ps) (auto split: option.split_asm sum.split_asm)
  then show ?thesis
    by (auto simp: rejectUnknownContentFields_def split: option.split_asm if_split_asm dest!: unknownFields_none)
qed

text \<open>What the two kinds of adapter may assume of a decoded part.\<close>

definition part_ok :: "chat_content_part \<Rightarrow> bool" where
  "part_ok p \<longleftrightarrow>
     cpType p = ''text'' \<or>
     cpType p = ''image_url'' \<and> trim_space (cpImageURL p) \<noteq> [] \<and> cpImageDetail p \<in> {[], ''auto'', ''low'', ''high''} \<or>
     cpType p = ''input_audio'' \<and> cpAudioFormat p \<in> {''wav'', ''mp3''} \<and> validBase64 (cpAudioData p) \<or>
     cpType p = ''file'' \<and> (cpFileData p = []) \<noteq> (cpFileID p = []) \<and> (cpFileData p \<noteq> [] \<longrightarrow> parseDataURL (cpFileData p) \<noteq> None)"

lemma normalize_part_ok:
  assumes "normalize_part part = Inr p"
  shows "part_ok p"
  using assms unfolding normalize_part_def Let_def part_ok_def content_part_zero_def
  by (simp only: split: if_split_asm; clarsimp)

lemma part_loop_ok: "part_loop b rs = Inr ps \<Longrightarrow> list_all part_ok ps \<and> length ps = length rs"
  by (induction rs arbitrary: ps) (auto split: option.split_asm sum.split_asm dest: normalize_part_ok)

text \<open>
  A native adapter reads a content as the gateway does, or refuses it. When the strict reading
  succeeds, it gives the parts the tolerant reading gives, each of them checked, and no member of a
  part or of its nested object was left out.
\<close>
theorem native_content_lossless:
  assumes "decodeNativeContent r = Inr ps"
  shows "decodeContent r = Inr ps \<and> ps \<noteq> [] \<and> list_all part_ok ps \<and>
    (is_array r \<longrightarrow> length ps = length (elements r) \<and>
       (\<forall>e \<in> set (elements r). \<exists>part fs. decode_struct content_part_fields content_part_zero e = Some part \<and>
          decode_map e = Some (Some fs) \<and> fst ` set fs \<subseteq> set (part_members (cpType part)) \<and>
          (\<forall>nested. nested_members (cpType part) = Some nested \<longrightarrow>
             (\<exists>gs. decode_map (map_get fs (cpType part)) = Some (Some gs) \<and> fst ` set gs \<subseteq> set nested))))"
proof (cases "\<exists>s. hd (strip r) = TStr s")
  case True
  then obtain s where s: "hd (strip r) = TStr s" by blast
  moreover have "\<not> is_array r" using s by (cases "strip r") (auto simp: is_array_def)
  moreover obtain t where "ps = [content_part_zero\<lparr>cpType := ''text'', cpText := t\<rparr>]"
    using assms s by (auto simp: decodeNativeContent_def decodeContentParts_def split: if_split_asm option.split_asm)
  ultimately show ?thesis using assms
    by (auto simp: decodeNativeContent_def decodeContent_def decodeContentParts_def part_ok_def split: if_split_asm option.split_asm)
next
  case False
  with assms have r: "valuePresent r" "is_array r" "elements r \<noteq> []" "part_loop True (elements r) = Inr ps"
    by (auto simp: decodeNativeContent_def decodeContentParts_def split: if_split_asm token.split_asm)
  have "decodeContent r = Inr ps"
    using False r part_loop_strict by (auto simp: decodeContent_def decodeContentParts_def split: token.split)
  with r part_loop_ok [OF r(4)] part_loop_members [OF r(4)] show ?thesis by auto
qed

definition sample_content :: raw where
  "sample_content = [TLBrack, TLBrace, TStr ''type'', TColon, TStr ''text'', TComma, TStr ''text'', TColon, TStr ''hi'', TRBrace, TRBrack]"

theorem native_content_lossless_witness:
  "decodeNativeContent sample_content = Inr [content_part_zero\<lparr>cpType := ''text'', cpText := ''hi''\<rparr>] \<and>
   decodeContent sample_content = Inr [content_part_zero\<lparr>cpType := ''text'', cpText := ''hi''\<rparr>]"
proof -
  have "decodeNativeContent sample_content = Inr [content_part_zero\<lparr>cpType := ''text'', cpText := ''hi''\<rparr>]" by code_simp
  with native_content_lossless [OF this] show ?thesis by simp
qed

section \<open>Counting input tokens\<close>

lemma intValue_simps [simp]: "intValue None = 0" "intValue (Some n) = n"
  by (simp_all add: intValue_def)

lemma input_token_loop_exact:
  assumes "\<forall>n. Some n \<in> set vs \<longrightarrow> 0 \<le> n" "0 \<le> acc" "acc + sum_list (map intValue vs) \<le> int64_max"
  shows "input_token_loop vs acc = Some (acc + sum_list (map intValue vs))"
  using assms
proof (induction vs arbitrary: acc)
  case (Cons v vs)
  have pos: "0 \<le> sum_list (map intValue vs)"
    using Cons.prems(1) by (intro sum_list_nonneg) (auto simp: intValue_def split: option.split)
  show ?case
  proof (cases v)
    case (Some n)
    then have n: "0 \<le> n" "acc + n \<le> int64_max" using Cons.prems pos by auto
    then have "wrap_int64 (acc + n) = acc + n"
      using Cons.prems(2) by (simp add: wrap_int64_def int64_max_def int64_min_def)
    with Some n Cons.IH [of "acc + n"] Cons.prems show ?thesis by (auto simp: Let_def add.assoc not_less)
  qed (use Cons in simp)
qed simp



end
