(* ===== verification/ChatRequest.thy ===== *)
theory ChatRequest
  imports ChatContent GoFloat
begin

text \<open>
  Chat requests (\<open>internal/provider/chat_request.go\<close>, \<open>chat_tools.go\<close>): decoding the client's JSON,
  the checks on tools, tool calls and generation parameters, the capabilities a request needs of its
  provider, and the strict reading native adapters make of it.
\<close>

section \<open>Numbers\<close>

text \<open>\<open>strconv.ParseFloat\<close> on a number literal: the exact value, rounded; \<open>None\<close> when it is too large.\<close>

definition decimal_value :: "string \<Rightarrow> rat" where
  "decimal_value s =
     (let neg = take 1 s = ''-''; body = (if neg then drop 1 s else s);
          mantissa = takeWhile (\<lambda>c. c \<noteq> CHR ''e'' \<and> c \<noteq> CHR ''E'') body; ex = drop (Suc (length mantissa)) body;
          whole = takeWhile (\<lambda>c. c \<noteq> CHR ''.'') mantissa; frac = drop (Suc (length whole)) mantissa;
          digits = (if take 1 ex \<in> {''-'', ''+''} then drop 1 ex else ex);
          e = (if take 1 ex = ''-'' then - int (digits_value 0 digits) else int (digits_value 0 digits));
          x = of_int (int (digits_value 0 (whole @ frac))) * 10 powi (e - int (length frac)) in
      if neg then - x else x)"

definition parse_float64 :: "string \<Rightarrow> rat option" where
  "parse_float64 s = (let x = fl64 (decimal_value s) in if \<bar>x\<bar> < 2 ^ 1024 then Some x else None)"

definition decode_float_ptr :: "raw \<Rightarrow> rat option option" where
  "decode_float_ptr r =
     (case scalar r of Some (TNum s) \<Rightarrow> map_option Some (parse_float64 s) | Some TNull \<Rightarrow> Some None | _ \<Rightarrow> None)"

section \<open>Tools\<close>

record chat_function_definition =
  fdName :: string
  fdDescription :: string
  fdParameters :: raw
  fdStrict :: "bool option"

record chat_tool =
  tlType :: string
  tlFunction :: chat_function_definition

record chat_function_call =
  fcName :: string
  fcArguments :: string

record chat_tool_call =
  tcID :: string
  tcType :: string
  tcFunction :: chat_function_call

record response_format =
  rfType :: string
  rfName :: string
  rfDescription :: string
  rfSchema :: raw
  rfStrict :: "bool option"

record tool_choice =
  chMode :: string
  chName :: string

record native_request_support =
  nsTools :: bool
  nsStructured :: bool
  nsSeed :: bool
  nsPenalties :: bool
  nsCandidates :: bool
  nsLogprobs :: bool
  nsReasoning :: bool
  nsDeveloper :: bool
  nsMessageName :: bool
  nsToolName :: bool

definition function_definition_fields :: "chat_function_definition fields" where
  "function_definition_fields =
     [(''name'', \<lambda>r x. map_option (\<lambda>v. x\<lparr>fdName := v\<rparr>) (decode_string (fdName x) r)),
      (''description'', \<lambda>r x. map_option (\<lambda>v. x\<lparr>fdDescription := v\<rparr>) (decode_string (fdDescription x) r)),
      (''parameters'', \<lambda>r x. Some (x\<lparr>fdParameters := r\<rparr>)),
      (''strict'', \<lambda>r x. map_option (\<lambda>v. x\<lparr>fdStrict := v\<rparr>) (decode_bool_ptr r))]"

definition tool_fields :: "chat_tool fields" where
  "tool_fields =
     [(''type'', \<lambda>r x. map_option (\<lambda>v. x\<lparr>tlType := v\<rparr>) (decode_string (tlType x) r)),
      (''function'', \<lambda>r x. map_option (\<lambda>v. x\<lparr>tlFunction := v\<rparr>) (decode_struct function_definition_fields (tlFunction x) r))]"

definition tool_zero :: chat_tool where
  "tool_zero = \<lparr>tlType = [], tlFunction = \<lparr>fdName = [], fdDescription = [], fdParameters = [], fdStrict = None\<rparr>\<rparr>"

definition function_call_fields :: "chat_function_call fields" where
  "function_call_fields =
     [(''name'', \<lambda>r x. map_option (\<lambda>v. x\<lparr>fcName := v\<rparr>) (decode_string (fcName x) r)),
      (''arguments'', \<lambda>r x. map_option (\<lambda>v. x\<lparr>fcArguments := v\<rparr>) (decode_string (fcArguments x) r))]"

definition tool_call_fields :: "chat_tool_call fields" where
  "tool_call_fields =
     [(''id'', \<lambda>r x. map_option (\<lambda>v. x\<lparr>tcID := v\<rparr>) (decode_string (tcID x) r)),
      (''type'', \<lambda>r x. map_option (\<lambda>v. x\<lparr>tcType := v\<rparr>) (decode_string (tcType x) r)),
      (''function'', \<lambda>r x. map_option (\<lambda>v. x\<lparr>tcFunction := v\<rparr>) (decode_struct function_call_fields (tcFunction x) r))]"

definition tool_call_zero :: chat_tool_call where
  "tool_call_zero = \<lparr>tcID = [], tcType = [], tcFunction = \<lparr>fcName = [], fcArguments = []\<rparr>\<rparr>"

section \<open>Requests\<close>

record chat_message =
  cmRole :: string
  cmContent :: raw
  cmName :: string
  cmToolCallID :: string
  cmToolCalls :: "chat_tool_call slice"
  cmExtraFields :: "string list"

record chat_request =
  crModel :: string
  crMessages :: "chat_message slice"
  crStream :: bool
  crMaxTokens :: "int option"
  crMaxCompletionTokens :: "int option"
  crTemperature :: "rat option"
  crTopP :: "rat option"
  crStop :: raw
  crTools :: "chat_tool slice"
  crToolChoice :: raw
  crParallelToolCalls :: "bool option"
  crResponseFormat :: raw
  crSeed :: "int option"
  crFrequencyPenalty :: "rat option"
  crPresencePenalty :: "rat option"
  crN :: "int option"
  crLogprobs :: "bool option"
  crTopLogprobs :: "int option"
  crReasoningEffort :: string
  crRawBody :: string
  crExtraFields :: "string list"

abbreviation request_messages :: "chat_request \<Rightarrow> chat_message list" where
  "request_messages req \<equiv> slice_list (crMessages req)"

abbreviation request_tools :: "chat_request \<Rightarrow> chat_tool list" where
  "request_tools req \<equiv> slice_list (crTools req)"

abbreviation message_calls :: "chat_message \<Rightarrow> chat_tool_call list" where
  "message_calls m \<equiv> slice_list (cmToolCalls m)"

definition message_zero :: chat_message where
  "message_zero = \<lparr>cmRole = [], cmContent = [], cmName = [], cmToolCallID = [], cmToolCalls = ([], 0), cmExtraFields = []\<rparr>"

definition request_zero :: chat_request where
  "request_zero = \<lparr>crModel = [], crMessages = ([], 0), crStream = False, crMaxTokens = None, crMaxCompletionTokens = None,
     crTemperature = None, crTopP = None, crStop = [], crTools = ([], 0), crToolChoice = [], crParallelToolCalls = None,
     crResponseFormat = [], crSeed = None, crFrequencyPenalty = None, crPresencePenalty = None, crN = None, crLogprobs = None,
     crTopLogprobs = None, crReasoningEffort = [], crRawBody = [], crExtraFields = []\<rparr>"

definition message_fields :: "chat_message fields" where
  "message_fields =
     [(''role'', \<lambda>r x. map_option (\<lambda>v. x\<lparr>cmRole := v\<rparr>) (decode_string (cmRole x) r)),
      (''content'', \<lambda>r x. Some (x\<lparr>cmContent := r\<rparr>)),
      (''name'', \<lambda>r x. map_option (\<lambda>v. x\<lparr>cmName := v\<rparr>) (decode_string (cmName x) r)),
      (''tool_call_id'', \<lambda>r x. map_option (\<lambda>v. x\<lparr>cmToolCallID := v\<rparr>) (decode_string (cmToolCallID x) r)),
      (''tool_calls'', \<lambda>r x. map_option (\<lambda>v. x\<lparr>cmToolCalls := v\<rparr>)
         (decode_slice (decode_struct tool_call_fields) tool_call_zero (cmToolCalls x) r))]"

definition request_fields :: "chat_request fields" where
  "request_fields =
     [(''model'', \<lambda>r x. map_option (\<lambda>v. x\<lparr>crModel := v\<rparr>) (decode_string (crModel x) r)),
      (''messages'', \<lambda>r x. map_option (\<lambda>v. x\<lparr>crMessages := v\<rparr>)
         (decode_slice (decode_struct message_fields) message_zero (crMessages x) r)),
      (''stream'', \<lambda>r x. map_option (\<lambda>v. x\<lparr>crStream := v\<rparr>) (decode_bool (crStream x) r)),
      (''max_tokens'', \<lambda>r x. map_option (\<lambda>v. x\<lparr>crMaxTokens := v\<rparr>) (decode_int_ptr r)),
      (''max_completion_tokens'', \<lambda>r x. map_option (\<lambda>v. x\<lparr>crMaxCompletionTokens := v\<rparr>) (decode_int_ptr r)),
      (''temperature'', \<lambda>r x. map_option (\<lambda>v. x\<lparr>crTemperature := v\<rparr>) (decode_float_ptr r)),
      (''top_p'', \<lambda>r x. map_option (\<lambda>v. x\<lparr>crTopP := v\<rparr>) (decode_float_ptr r)),
      (''stop'', \<lambda>r x. Some (x\<lparr>crStop := r\<rparr>)),
      (''tools'', \<lambda>r x. map_option (\<lambda>v. x\<lparr>crTools := v\<rparr>) (decode_slice (decode_struct tool_fields) tool_zero (crTools x) r)),
      (''tool_choice'', \<lambda>r x. Some (x\<lparr>crToolChoice := r\<rparr>)),
      (''parallel_tool_calls'', \<lambda>r x. map_option (\<lambda>v. x\<lparr>crParallelToolCalls := v\<rparr>) (decode_bool_ptr r)),
      (''response_format'', \<lambda>r x. Some (x\<lparr>crResponseFormat := r\<rparr>)),
      (''seed'', \<lambda>r x. map_option (\<lambda>v. x\<lparr>crSeed := v\<rparr>) (decode_int_ptr r)),
      (''frequency_penalty'', \<lambda>r x. map_option (\<lambda>v. x\<lparr>crFrequencyPenalty := v\<rparr>) (decode_float_ptr r)),
      (''presence_penalty'', \<lambda>r x. map_option (\<lambda>v. x\<lparr>crPresencePenalty := v\<rparr>) (decode_float_ptr r)),
      (''n'', \<lambda>r x. map_option (\<lambda>v. x\<lparr>crN := v\<rparr>) (decode_int_ptr r)),
      (''logprobs'', \<lambda>r x. map_option (\<lambda>v. x\<lparr>crLogprobs := v\<rparr>) (decode_bool_ptr r)),
      (''top_logprobs'', \<lambda>r x. map_option (\<lambda>v. x\<lparr>crTopLogprobs := v\<rparr>) (decode_int_ptr r)),
      (''reasoning_effort'', \<lambda>r x. map_option (\<lambda>v. x\<lparr>crReasoningEffort := v\<rparr>) (decode_string (crReasoningEffort x) r))]"

section \<open>Checks\<close>

definition validateJSONObject :: "raw \<Rightarrow> bool \<Rightarrow> bool" where
  "validateJSONObject r allowEmpty = (if allowEmpty \<and> \<not> valuePresent r then True else jsonObject r)"

text \<open>On a text that need not be JSON.\<close>

definition validateJSONStringObject :: "string \<Rightarrow> bool" where
  "validateJSONStringObject v =
     (let text = (if trim_space v = [] then ''{}'' else trim_space v) in
      if take 1 text \<noteq> ''{'' then False
      else case json_read text of None \<Rightarrow> False | Some ts \<Rightarrow> validateJSONObject ts False)"

definition toolArgumentsObject :: "string \<Rightarrow> goerr + string" where
  "toolArgumentsObject arguments =
     (let text = trim_space arguments in
      if text = [] then Inr ''{}'' else if validateJSONStringObject text then Inr text else Inl invalid_request)"

record choice_target =
  ctType :: string
  ctName :: string

definition choice_function_fields :: "choice_target fields" where
  "choice_function_fields = [(''name'', \<lambda>r x. map_option (\<lambda>v. x\<lparr>ctName := v\<rparr>) (decode_string (ctName x) r))]"

definition choice_fields :: "choice_target fields" where
  "choice_fields =
     [(''type'', \<lambda>r x. map_option (\<lambda>v. x\<lparr>ctType := v\<rparr>) (decode_string (ctType x) r)),
      (''function'', \<lambda>r x. decode_struct choice_function_fields x r)]"

definition decodeToolChoice :: "raw \<Rightarrow> goerr + tool_choice" where
  "decodeToolChoice r =
     (if \<not> valuePresent r then Inr \<lparr>chMode = [], chName = []\<rparr>
      else case hd (strip r) of
        TStr s \<Rightarrow>
          (case decode_string [] r of
             None \<Rightarrow> Inl invalid_request
           | Some v \<Rightarrow>
               (let mode = to_lower (trim_space v) in
                if mode \<in> {''none'', ''auto'', ''required''} then Inr \<lparr>chMode = mode, chName = []\<rparr> else Inl invalid_request_text))
      | _ \<Rightarrow>
          (case decode_struct choice_fields \<lparr>ctType = [], ctName = []\<rparr> r of
             None \<Rightarrow> Inl invalid_request_text
           | Some c \<Rightarrow>
               if trim_space (ctType c) \<noteq> ''function'' \<or> trim_space (ctName c) = [] then Inl invalid_request_text
               else Inr \<lparr>chMode = ''function'', chName = trim_space (ctName c)\<rparr>))"

definition json_schema_fields :: "response_format fields" where
  "json_schema_fields =
     [(''name'', \<lambda>r x. map_option (\<lambda>v. x\<lparr>rfName := v\<rparr>) (decode_string (rfName x) r)),
      (''description'', \<lambda>r x. map_option (\<lambda>v. x\<lparr>rfDescription := v\<rparr>) (decode_string (rfDescription x) r)),
      (''schema'', \<lambda>r x. Some (x\<lparr>rfSchema := r\<rparr>)),
      (''strict'', \<lambda>r x. map_option (\<lambda>v. x\<lparr>rfStrict := v\<rparr>) (decode_bool_ptr r))]"

definition response_format_fields :: "response_format fields" where
  "response_format_fields =
     [(''type'', \<lambda>r x. map_option (\<lambda>v. x\<lparr>rfType := v\<rparr>) (decode_string (rfType x) r)),
      (''json_schema'', \<lambda>r x. decode_struct json_schema_fields x r)]"

definition response_format_zero :: response_format where
  "response_format_zero = \<lparr>rfType = [], rfName = [], rfDescription = [], rfSchema = [], rfStrict = None\<rparr>"

definition decodeResponseFormat :: "raw \<Rightarrow> goerr + response_format" where
  "decodeResponseFormat r =
     (if \<not> valuePresent r then Inr response_format_zero
      else case decode_struct response_format_fields response_format_zero r of
        None \<Rightarrow> Inl invalid_request
      | Some v \<Rightarrow>
          (let ty = to_lower (trim_space (rfType v)) in
           if ty \<in> {''text'', ''json_object''} then Inr (response_format_zero\<lparr>rfType := ty\<rparr>)
           else if ty = ''json_schema'' then
             (if trim_space (rfName v) = [] then Inl invalid_request_text
              else if \<not> validateJSONObject (rfSchema v) False then Inl invalid_request_text
              else Inr (v\<lparr>rfType := ty, rfName := trim_space (rfName v)\<rparr>))
           else Inl invalid_request_text))"

fun decode_strings :: "raw list \<Rightarrow> string list option" where
  "decode_strings [] = Some []"
| "decode_strings (r # rs) =
     (case decode_string [] r of None \<Rightarrow> None | Some v \<Rightarrow> map_option ((#) v) (decode_strings rs))"

definition decodeStop :: "raw \<Rightarrow> goerr + string list" where
  "decodeStop r =
     (if \<not> valuePresent r then Inr []
      else case hd (strip r) of
        TStr s \<Rightarrow> (case decode_string [] r of None \<Rightarrow> Inl invalid_request | Some v \<Rightarrow> Inr [v])
      | _ \<Rightarrow>
          if \<not> is_array r then Inl invalid_request
          else case decode_strings (elements r) of None \<Rightarrow> Inl invalid_request | Some vs \<Rightarrow> Inr vs)"

text \<open>The names of the tools, in the order of the request; \<open>seen\<close> are those before.\<close>

fun tool_loop :: "chat_tool list \<Rightarrow> string set \<Rightarrow> goerr + string set" where
  "tool_loop [] seen = Inr seen"
| "tool_loop (t # ts) seen =
     (if trim_space (tlType t) \<noteq> ''function'' then Inl invalid_request_text
      else if trim_space (fdName (tlFunction t)) = [] then Inl invalid_request_text
      else if fdName (tlFunction t) \<in> seen then Inl invalid_request_text
      else if \<not> validateJSONObject (fdParameters (tlFunction t)) True then Inl invalid_request_text
      else tool_loop ts (insert (fdName (tlFunction t)) seen))"

fun call_loop :: "chat_tool_call list \<Rightarrow> string set \<Rightarrow> goerr + string set" where
  "call_loop [] awaiting = Inr awaiting"
| "call_loop (c # cs) awaiting =
     (if trim_space (tcID c) = [] \<or> trim_space (tcType c) \<noteq> ''function'' \<or> trim_space (fcName (tcFunction c)) = []
      then Inl invalid_request_text
      else if \<not> validateJSONStringObject (fcArguments (tcFunction c)) then Inl invalid_request_text
      else if tcID c \<in> awaiting then Inl invalid_request_text
      else call_loop cs (insert (tcID c) awaiting))"

text \<open>\<open>earlier\<close> are the messages before, the last one first.\<close>

fun priorToolName :: "chat_message list \<Rightarrow> string \<Rightarrow> string" where
  "priorToolName [] toolCallID = []"
| "priorToolName (m # earlier) toolCallID =
     (case find (\<lambda>c. tcID c = toolCallID) (message_calls m) of
        Some c \<Rightarrow> fcName (tcFunction c)
      | None \<Rightarrow> priorToolName earlier toolCallID)"

fun message_loop :: "chat_message list \<Rightarrow> chat_message list \<Rightarrow> string set \<Rightarrow> goerr option" where
  "message_loop earlier [] awaiting = None"
| "message_loop earlier (m # ms) awaiting =
     (if cmToolCallID m \<noteq> [] \<and> cmRole m \<noteq> ''tool'' then Some invalid_request_text
      else if cmRole m = ''tool'' \<and> trim_space (cmToolCallID m) = [] then Some invalid_request_text
      else if message_calls m \<noteq> [] \<and> cmRole m \<noteq> ''assistant'' then Some invalid_request_text
      else case call_loop (message_calls m) awaiting of
        Inl err \<Rightarrow> Some err
      | Inr awaiting' \<Rightarrow>
          if cmRole m = ''tool'' then
            (if cmToolCallID m \<notin> awaiting' then Some invalid_request_text
             else if cmName m \<noteq> [] \<and>
               (let name = priorToolName earlier (cmToolCallID m) in name = [] \<or> name \<noteq> cmName m)
             then Some invalid_request_text
             else message_loop (m # earlier) ms (awaiting' - {cmToolCallID m}))
          else message_loop (m # earlier) ms awaiting')"

definition validateToolRequest :: "chat_request \<Rightarrow> goerr option" where
  "validateToolRequest req =
     (case tool_loop (request_tools req) {} of
        Inl err \<Rightarrow> Some err
      | Inr toolNames \<Rightarrow>
          (case decodeToolChoice (crToolChoice req) of
             Inl err \<Rightarrow> Some err
           | Inr choice \<Rightarrow>
               if chMode choice \<noteq> [] \<and> chMode choice \<noteq> ''none'' \<and> request_tools req = [] then Some invalid_request_text
               else if chMode choice = ''function'' \<and> chName choice \<notin> toolNames then Some invalid_request_text
               else message_loop [] (request_messages req) {}))"

definition in_bounds :: "rat \<Rightarrow> rat \<Rightarrow> rat option \<Rightarrow> bool" where
  "in_bounds lo hi v = (case v of None \<Rightarrow> True | Some x \<Rightarrow> lo \<le> x \<and> x \<le> hi)"

definition validateGenerationFields :: "chat_request \<Rightarrow> goerr option" where
  "validateGenerationFields req =
     (if list_ex (\<lambda>v. case v of None \<Rightarrow> False | Some n \<Rightarrow> n < 1) [crMaxTokens req, crMaxCompletionTokens req, crN req]
      then Some invalid_request_text
      else if \<not> in_bounds 0 2 (crTemperature req) then Some invalid_request_text
      else if \<not> in_bounds 0 1 (crTopP req) then Some invalid_request_text
      else if \<not> (in_bounds (- 2) 2 (crFrequencyPenalty req) \<and> in_bounds (- 2) 2 (crPresencePenalty req)) then Some invalid_request_text
      else case crTopLogprobs req of
        None \<Rightarrow> None
      | Some n \<Rightarrow>
          if n < 0 \<or> n > 20 then Some invalid_request_text
          else if crLogprobs req \<noteq> Some True then Some invalid_request_text else None)"

section \<open>Parsing\<close>

text \<open>A call returns a value or an error, or panics.\<close>

datatype 'a outcome = Returns "goerr + 'a" | Panics

definition known_request_fields :: "string list" where
  "known_request_fields =
     [''model'', ''messages'', ''stream'', ''max_tokens'', ''max_completion_tokens'', ''temperature'', ''top_p'', ''stop'',
      ''tools'', ''tool_choice'', ''parallel_tool_calls'', ''response_format'', ''seed'', ''frequency_penalty'',
      ''presence_penalty'', ''n'', ''logprobs'', ''top_logprobs'', ''reasoning_effort'']"

definition known_message_fields :: "string list" where
  "known_message_fields = [''role'', ''content'', ''name'', ''tool_call_id'', ''tool_calls'']"

text \<open>
  The members of each message, read from the member \<open>messages\<close> of the body. The request's messages
  come from any member whose name is \<open>messages\<close> up to case; indexing past the first list panics.
\<close>

fun decode_maps :: "raw list \<Rightarrow> (string \<times> raw) list list option" where
  "decode_maps [] = Some []"
| "decode_maps (r # rs) =
     (case decode_map r of
        None \<Rightarrow> None
      | Some m \<Rightarrow> map_option ((#) (case m of None \<Rightarrow> [] | Some fs \<Rightarrow> fs)) (decode_maps rs))"

definition encoded_messages :: "(string \<times> raw) list \<Rightarrow> (string \<times> raw) list list option" where
  "encoded_messages fs =
     (case map_of (rev fs) ''messages'' of
        None \<Rightarrow> Some []
      | Some r \<Rightarrow> if is_array r then decode_maps (elements r) else if strip r = [TNull] then Some [] else None)"

fun mark_extra :: "chat_message list \<Rightarrow> (string \<times> raw) list list \<Rightarrow> chat_message list option" where
  "mark_extra [] encoded = Some []"
| "mark_extra (m # ms) [] = None"
| "mark_extra (m # ms) (e # es) =
     map_option ((#) (m\<lparr>cmExtraFields := unknownFields e known_message_fields\<rparr>)) (mark_extra ms es)"

definition check_request :: "chat_request \<Rightarrow> goerr + chat_request" where
  "check_request req =
     (case decodeStop (crStop req) of
        Inl err \<Rightarrow> Inl err
      | Inr stop \<Rightarrow>
          (case validateToolRequest req of
             Some err \<Rightarrow> Inl err
           | None \<Rightarrow>
               (case decodeResponseFormat (crResponseFormat req) of
                  Inl err \<Rightarrow> Inl err
                | Inr format \<Rightarrow>
                    (case validateGenerationFields req of Some err \<Rightarrow> Inl err | None \<Rightarrow> Inr req))))"

definition parse_messages :: "(string \<times> raw) list \<Rightarrow> chat_request \<Rightarrow> chat_request outcome" where
  "parse_messages fs req =
     (case encoded_messages fs of
        None \<Rightarrow> Returns (Inl invalid_request)
      | Some encoded \<Rightarrow>
          (case mark_extra (request_messages req) encoded of
             None \<Rightarrow> Panics
           | Some ms \<Rightarrow> Returns (check_request (req\<lparr>crMessages := (ms, length ms)\<rparr>))))"

definition ParseChatRequest :: "string \<Rightarrow> chat_request outcome" where
  "ParseChatRequest body =
     (case json_read body of
        None \<Rightarrow> Returns (Inl invalid_request)
      | Some ts \<Rightarrow>
          (case decode_map ts of
             Some (Some fs) \<Rightarrow>
               (case decode_struct request_fields request_zero ts of
                  None \<Rightarrow> Returns (Inl invalid_request)
                | Some req \<Rightarrow>
                    parse_messages fs (req\<lparr>crRawBody := body, crExtraFields := unknownFields fs known_request_fields\<rparr>))
           | _ \<Rightarrow> Returns (Inl invalid_request)))"

section \<open>Capabilities\<close>

definition part_capability :: "chat_content_part \<Rightarrow> capability set" where
  "part_capability part =
     (if cpType part = ''image_url'' then {CapabilityImage}
      else if cpType part = ''input_audio'' then {CapabilityAudio}
      else if cpType part = ''file'' then {CapabilityFile} else {})"

definition message_uses_tools :: "chat_message \<Rightarrow> bool" where
  "message_uses_tools m \<longleftrightarrow> cmRole m = ''tool'' \<or> message_calls m \<noteq> [] \<or> cmToolCallID m \<noteq> []"

fun content_capability_loop :: "chat_message list \<Rightarrow> capability set \<Rightarrow> goerr + capability set" where
  "content_capability_loop [] required = Inr required"
| "content_capability_loop (m # ms) required0 =
     (let required = (if message_uses_tools m then insert CapabilityTools required0 else required0) in
      if \<not> valuePresent (cmContent m) \<and> message_calls m \<noteq> [] then content_capability_loop ms required
      else case decodeContent (cmContent m) of
        Inl err \<Rightarrow> Inl err
      | Inr parts \<Rightarrow> content_capability_loop ms (required \<union> \<Union> (set (map part_capability parts))))"

definition RequiredCapabilities :: "chat_request \<Rightarrow> goerr + capability list" where
  "RequiredCapabilities req =
     (let required1 = {CapabilityText} \<union> (if request_tools req \<noteq> [] \<or> valuePresent (crToolChoice req) then {CapabilityTools} else {}) in
      case decodeResponseFormat (crResponseFormat req) of
        Inl err \<Rightarrow> Inl err
      | Inr format \<Rightarrow>
          (let required2 = required1 \<union> (if rfType format \<in> {''json_object'', ''json_schema''} then {CapabilityStructured} else {}) in
           case content_capability_loop (request_messages req) required2 of
             Inl err \<Rightarrow> Inl err
           | Inr required \<Rightarrow>
               Inr (filter (\<lambda>c. c \<in> required)
                 [CapabilityText, CapabilityImage, CapabilityAudio, CapabilityFile, CapabilityTools, CapabilityStructured])))"

section \<open>What an adapter reads\<close>

definition decodeChatRequest :: "chat_request chat_input \<Rightarrow> goerr + chat_request" where
  "decodeChatRequest input =
     (let req = ciRequest input; model = trim_space (if ciModelOverride input \<noteq> [] then ciModelOverride input else crModel req) in
      if model = [] \<or> request_messages req = [] then Inl invalid_request else Inr (req\<lparr>crModel := model\<rparr>))"

definition support_validate :: "native_request_support \<Rightarrow> chat_request \<Rightarrow> goerr option" where
  "support_validate support req =
     (let effort = to_lower (trim_space (crReasoningEffort req)) in
      if (request_tools req \<noteq> [] \<or> valuePresent (crToolChoice req)) \<and> \<not> nsTools support then Some unsupported
      else if valuePresent (crResponseFormat req) \<and> \<not> nsStructured support then Some unsupported
      else if crSeed req \<noteq> None \<and> \<not> nsSeed support then Some unsupported
      else if (crFrequencyPenalty req \<noteq> None \<or> crPresencePenalty req \<noteq> None) \<and> \<not> nsPenalties support then Some unsupported
      else if crN req \<noteq> None \<and> crN req \<noteq> Some 1 \<and> \<not> nsCandidates support then Some unsupported
      else if (crLogprobs req = Some True \<or> crTopLogprobs req \<noteq> None) \<and> \<not> nsLogprobs support then Some unsupported
      else if effort \<noteq> [] \<and> effort \<noteq> ''none'' \<and> \<not> nsReasoning support then Some unsupported
      else None)"

definition message_refusal :: "native_request_support \<Rightarrow> chat_message \<Rightarrow> goerr option" where
  "message_refusal support m =
     (if cmExtraFields m \<noteq> [] then Some unsupported
      else if \<not> (cmRole m \<in> {''system'', ''user'', ''assistant''} \<or> (cmRole m = ''developer'' \<and> nsDeveloper support) \<or>
                 (cmRole m = ''tool'' \<and> nsTools support)) then Some unsupported
      else if (message_calls m \<noteq> [] \<or> cmToolCallID m \<noteq> []) \<and> \<not> nsTools support then Some unsupported
      else if cmName m \<noteq> [] \<and> \<not> (nsMessageName support \<or> (cmRole m = ''tool'' \<and> nsToolName support)) then Some unsupported
      else None)"

definition first_refusal :: "('a \<Rightarrow> goerr option) \<Rightarrow> 'a list \<Rightarrow> goerr option" where
  "first_refusal f xs = (case find (\<lambda>x. f x \<noteq> None) xs of None \<Rightarrow> None | Some x \<Rightarrow> f x)"

definition decodeNativeChatRequest :: "chat_request chat_input \<Rightarrow> native_request_support \<Rightarrow> goerr + chat_request" where
  "decodeNativeChatRequest input support =
     (case decodeChatRequest input of
        Inl err \<Rightarrow> Inl err
      | Inr req \<Rightarrow>
          if crExtraFields req \<noteq> [] then Inl unsupported
          else case support_validate support req of
            Some err \<Rightarrow> Inl err
          | None \<Rightarrow>
              (case first_refusal (message_refusal support) (request_messages req) of Some err \<Rightarrow> Inl err | None \<Rightarrow> Inr req))"

definition is_instruction :: "chat_message \<Rightarrow> bool" where
  "is_instruction m \<longleftrightarrow> cmRole m = ''system'' \<or> cmRole m = ''developer''"

fun leading_loop :: "chat_message list \<Rightarrow> bool \<Rightarrow> goerr option" where
  "leading_loop [] started = None"
| "leading_loop (m # ms) started =
     (if is_instruction m then (if started then Some unsupported else leading_loop ms started) else leading_loop ms True)"

definition requireLeadingInstructions :: "chat_request \<Rightarrow> goerr option" where
  "requireLeadingInstructions req = leading_loop (request_messages req) False"

definition requestedMaxTokens :: "chat_request \<Rightarrow> int \<Rightarrow> int" where
  "requestedMaxTokens req fallback =
     (case crMaxCompletionTokens req of Some n \<Rightarrow> n | None \<Rightarrow> (case crMaxTokens req of Some n \<Rightarrow> n | None \<Rightarrow> fallback))"

fun response_call_loop :: "chat_tool_call list \<Rightarrow> string set \<Rightarrow> goerr option" where
  "response_call_loop [] seen = None"
| "response_call_loop (c # cs) seen =
     (if trim_space (tcID c) = [] \<or> trim_space (tcType c) \<noteq> ''function'' \<or> trim_space (fcName (tcFunction c)) = [] \<or>
         \<not> validateJSONStringObject (fcArguments (tcFunction c))
      then Some (ErrSentinel ErrInvalidResponse)
      else if tcID c \<in> seen then Some (ErrSentinel ErrInvalidResponse)
      else response_call_loop cs (insert (tcID c) seen))"

definition validateResponseToolCalls :: "chat_tool_call list \<Rightarrow> goerr option" where
  "validateResponseToolCalls calls = response_call_loop calls {}"

section \<open>What a parsed request satisfies\<close>

definition answers :: "chat_message \<Rightarrow> string \<Rightarrow> bool" where
  "answers m i \<longleftrightarrow> cmRole m = ''tool'' \<and> cmToolCallID m = i"

text \<open>The call \<open>i\<close> was made by an assistant message and not answered since; the last message first.\<close>

fun open_call :: "chat_message list \<Rightarrow> string \<Rightarrow> bool" where
  "open_call [] i = False"
| "open_call (m # earlier) i \<longleftrightarrow>
     \<not> answers m i \<and> (cmRole m = ''assistant'' \<and> i \<in> tcID ` set (message_calls m) \<or> open_call earlier i)"

lemma call_loop_ids:
  assumes "call_loop cs seen = Inr seen'"
  shows "seen' = seen \<union> tcID ` set cs \<and> distinct (map tcID cs) \<and> tcID ` set cs \<inter> seen = {}"
  using assms by (induction cs arbitrary: seen) (auto split: if_split_asm)

lemma message_loop_open:
  assumes "message_loop earlier ms awaiting = None" "\<forall>i \<in> awaiting. open_call earlier i" "n < length ms"
    and "cmRole (ms ! n) = ''tool''"
  shows "open_call (rev (take n ms) @ earlier) (cmToolCallID (ms ! n))"
  using assms
proof (induction ms arbitrary: earlier awaiting n)
  case (Cons m ms)
  from Cons.prems(1) obtain waiting where calls: "call_loop (message_calls m) awaiting = Inr waiting"
    by (auto split: if_split_asm sum.split_asm)
  have ids: "waiting = awaiting \<union> tcID ` set (message_calls m)" using call_loop_ids [OF calls] by blast
  show ?case
  proof (cases "cmRole m = ''tool''")
    case True
    with Cons.prems(1) calls have none: "message_calls m = []" and mem: "cmToolCallID m \<in> waiting"
      and run: "message_loop (m # earlier) ms (waiting - {cmToolCallID m}) = None" by (auto split: if_split_asm)
    have "\<forall>i \<in> waiting - {cmToolCallID m}. open_call (m # earlier) i"
      using none ids Cons.prems(2) by (auto simp: answers_def)
    from Cons.IH [OF run this] Cons.prems(2-) none ids mem show ?thesis by (cases n) auto
  next
    case False
    with Cons.prems(1) calls have run: "message_loop (m # earlier) ms waiting = None"
      and role: "message_calls m \<noteq> [] \<longrightarrow> cmRole m = ''assistant''" by (auto split: if_split_asm)
    have "\<forall>i \<in> waiting. open_call (m # earlier) i"
      using role False ids Cons.prems(2) by (auto simp: answers_def)
    from Cons.IH [OF run this] Cons.prems(3,4) False show ?thesis by (cases n) auto
  qed
qed simp

lemma tool_loop_names:
  assumes "tool_loop ts seen = Inr names"
  shows "names = seen \<union> (fdName \<circ> tlFunction) ` set ts \<and> distinct (map (fdName \<circ> tlFunction) ts) \<and>
    (\<forall>t \<in> set ts. trim_space (tlType t) = ''function'' \<and> trim_space (fdName (tlFunction t)) \<noteq> [] \<and>
       fdName (tlFunction t) \<notin> seen \<and> validateJSONObject (fdParameters (tlFunction t)) True)"
  using assms
proof (induction ts arbitrary: seen)
  case (Cons t ts)
  then have ok: "trim_space (tlType t) = ''function''" "trim_space (fdName (tlFunction t)) \<noteq> []" "fdName (tlFunction t) \<notin> seen"
    "validateJSONObject (fdParameters (tlFunction t)) True" and run: "tool_loop ts (insert (fdName (tlFunction t)) seen) = Inr names"
    by (auto split: if_split_asm)
  from Cons.IH [OF run] ok show ?case by (auto simp: image_iff)
qed simp

lemma message_loop_calls:
  assumes "message_loop earlier ms awaiting = None" "m \<in> set ms" "c \<in> set (message_calls m)"
  shows "cmRole m = ''assistant'' \<and> trim_space (tcID c) \<noteq> [] \<and> validateJSONStringObject (fcArguments (tcFunction c))"
proof -
  have call: "trim_space (tcID c) \<noteq> [] \<and> validateJSONStringObject (fcArguments (tcFunction c))"
    if "call_loop cs seen = Inr seen'" "c \<in> set cs" for cs seen seen'
    using that by (induction cs arbitrary: seen) (auto split: if_split_asm)
  show ?thesis using assms
    by (induction ms arbitrary: earlier awaiting)
      (auto split: if_split_asm sum.split_asm dest: call)
qed

definition tools_ok :: "chat_tool list \<Rightarrow> bool" where
  "tools_ok ts \<longleftrightarrow> distinct (map (fdName \<circ> tlFunction) ts) \<and>
     (\<forall>t \<in> set ts. trim_space (fdName (tlFunction t)) \<noteq> [] \<and> validateJSONObject (fdParameters (tlFunction t)) True)"

definition messages_ok :: "chat_message list \<Rightarrow> bool" where
  "messages_ok ms \<longleftrightarrow>
     (\<forall>m \<in> set ms. \<forall>c \<in> set (message_calls m). cmRole m = ''assistant'' \<and> trim_space (tcID c) \<noteq> [] \<and>
        validateJSONStringObject (fcArguments (tcFunction c))) \<and>
     (\<forall>n < length ms. cmRole (ms ! n) = ''tool'' \<longrightarrow> open_call (rev (take n ms)) (cmToolCallID (ms ! n)))"

definition generation_ok :: "chat_request \<Rightarrow> bool" where
  "generation_ok req \<longleftrightarrow>
     (\<forall>n. Some n \<in> {crMaxTokens req, crMaxCompletionTokens req, crN req} \<longrightarrow> 1 \<le> n) \<and>
     in_bounds 0 2 (crTemperature req) \<and> in_bounds 0 1 (crTopP req) \<and>
     in_bounds (- 2) 2 (crFrequencyPenalty req) \<and> in_bounds (- 2) 2 (crPresencePenalty req) \<and>
     (\<forall>n. crTopLogprobs req = Some n \<longrightarrow> 0 \<le> n \<and> n \<le> 20 \<and> crLogprobs req = Some True)"

definition choice_ok :: "chat_request \<Rightarrow> bool" where
  "choice_ok req \<longleftrightarrow>
     (\<exists>choice. decodeToolChoice (crToolChoice req) = Inr choice \<and>
        (chMode choice \<in> {''auto'', ''required'', ''function''} \<longrightarrow> request_tools req \<noteq> []) \<and>
        (chMode choice = ''function'' \<longrightarrow> chName choice \<in> (fdName \<circ> tlFunction) ` set (request_tools req)))"

lemma check_request_ok:
  assumes "check_request req = Inr req'"
  shows "req' = req \<and> tools_ok (request_tools req) \<and> messages_ok (request_messages req) \<and> choice_ok req \<and> generation_ok req"
proof -
  from assms have req': "req' = req" and tool: "validateToolRequest req = None" and gen: "validateGenerationFields req = None"
    by (auto simp: check_request_def split: sum.split_asm option.split_asm)
  from tool obtain names choice where t: "tool_loop (request_tools req) {} = Inr names"
    "decodeToolChoice (crToolChoice req) = Inr choice"
    "\<not> (chMode choice \<noteq> [] \<and> chMode choice \<noteq> ''none'' \<and> request_tools req = [])"
    "\<not> (chMode choice = ''function'' \<and> chName choice \<notin> names)" "message_loop [] (request_messages req) {} = None"
    by (auto simp: validateToolRequest_def split: sum.split_asm if_split_asm)
  have "tools_ok (request_tools req)" "choice_ok req"
    using tool_loop_names [OF t(1)] t(2-4) by (auto simp: tools_ok_def choice_ok_def)
  moreover have "messages_ok (request_messages req)"
    using message_loop_calls [OF t(5)] message_loop_open [OF t(5)] by (auto simp: messages_ok_def)
  moreover have "generation_ok req"
    using gen by (auto simp: validateGenerationFields_def generation_ok_def split: if_split_asm option.split_asm)
  ultimately show ?thesis using req' by simp
qed

lemma parsed_request:
  assumes "ParseChatRequest body = Returns (Inr req)"
  obtains req0 where "check_request req0 = Inr req" "crRawBody req0 = body"
proof -
  from assms obtain fs req1 where p: "parse_messages fs (req1\<lparr>crRawBody := body, crExtraFields := unknownFields fs known_request_fields\<rparr>) =
      Returns (Inr req)"
    by (auto simp: ParseChatRequest_def split: option.split_asm)
  then obtain ms where "check_request (req1\<lparr>crRawBody := body, crExtraFields := unknownFields fs known_request_fields,
      crMessages := (ms, length ms)\<rparr>) = Inr req"
    by (auto simp: parse_messages_def split: option.split_asm)
  then show ?thesis by (rule that) simp
qed

lemma parsed_request_body: "ParseChatRequest body = Returns (Inr req) \<Longrightarrow> crRawBody req = body"
  using check_request_ok by (auto elim!: parsed_request)


text \<open>A JSON text written with backquotes for its quotation marks.\<close>

definition quoted :: "string \<Rightarrow> string" where
  "quoted s = map (\<lambda>c. if c = CHR 0x60 then CHR 0x22 else c) s"

definition sample_chat_body :: string where
  "sample_chat_body = quoted (''{`model`:`m`,`tools`:[{`type`:`function`,`function`:{`name`:`f`}}],`messages`:['' @
     ''{`role`:`assistant`,`tool_calls`:[{`id`:`c`,`type`:`function`,`function`:{`name`:`f`,`arguments`:`{}`}}]},'' @
     ''{`role`:`tool`,`tool_call_id`:`c`,`content`:`x`}],`n`:1}'')"


section \<open>Panics\<close>

text \<open>The messages of the request come from the members that are called \<open>messages\<close> up to case.\<close>

lemma request_field_names: "map fst request_fields = known_request_fields"
  by (simp add: request_fields_def known_request_fields_def)

lemma request_fields_keep:
  "(name, f) \<in> set request_fields \<Longrightarrow> name \<noteq> ''messages'' \<Longrightarrow> f r x = Some x' \<Longrightarrow> crMessages x' = crMessages x"
  unfolding request_fields_def set_simps by (elim insertE; clarsimp)

lemma request_field_other:
  assumes "name \<in> set (map fst request_fields)" "name \<noteq> ''messages''" "the (map_of request_fields name) r x = Some x'"
  shows "crMessages x' = crMessages x"
proof -
  obtain f where "map_of request_fields name = Some f" using assms(1) weak_map_of_SomeI by fastforce
  with assms(2,3) request_fields_keep show ?thesis by (auto dest: map_of_SomeD)
qed

lemma field_of_known: "field_of names key = Some name \<Longrightarrow> name \<in> set names \<and> fold_name name = fold_name key"
  by (auto simp: field_of_def find_Some_iff split: if_split_asm)

lemma decode_slice_length:
  assumes "decode_slice dec zero old r = Some v"
  shows "length (slice_list v) = (if is_array r then length (elements r) else 0)"
proof -
  have "length rs \<le> length xs" if "decode_elements dec zero rs old' = Some xs" for rs old' xs
    using that by (induction rs arbitrary: old' xs) (auto split: option.split_asm)
  with assms show ?thesis by (auto simp: decode_slice_def slice_list_def split: if_split_asm)
qed

lemma request_field_messages:
  assumes "the (map_of request_fields ''messages'') r x = Some x'"
  shows "length (request_messages x') = (if is_array r then length (elements r) else 0)"
proof -
  obtain v where "decode_slice (decode_struct message_fields) message_zero (crMessages x) r = Some v" "x' = x\<lparr>crMessages := v\<rparr>"
    using assms by (auto simp: request_fields_def)
  then show ?thesis using decode_slice_length [of "decode_struct message_fields" message_zero "crMessages x" r v] by simp
qed

lemma decode_members_messages:
  assumes "decode_members request_fields ms x = Some x'" "\<forall>(k, r) \<in> set ms. fold_name k = fold_name ''messages'' \<longrightarrow> k = ''messages''"
  shows "length (request_messages x') =
    (case map_of (rev ms) ''messages'' of
       None \<Rightarrow> length (request_messages x) | Some r \<Rightarrow> if is_array r then length (elements r) else 0)"
  using assms
proof (induction ms arbitrary: x)
  case (Cons kr ms)
  obtain k r where kr: "kr = (k, r)" by (cases kr)
  show ?case
  proof (cases "k = ''messages''")
    case True
    then have "field_of (map fst request_fields) k = Some ''messages''" unfolding request_field_names by (simp add: field_of_def known_request_fields_def)
    with Cons.prems kr obtain x1 where x1: "the (map_of request_fields ''messages'') r x = Some x1" "decode_members request_fields ms x1 = Some x'"
      by (auto split: option.split_asm)
    have "length (request_messages x1) = (if is_array r then length (elements r) else 0)"
      by (rule request_field_messages [OF x1(1)])
    with Cons.IH [OF x1(2)] Cons.prems(2) True kr show ?thesis by (auto simp: map_add_def split: option.split)
  next
    case False
    obtain x1 where x1: "crMessages x1 = crMessages x" "decode_members request_fields ms x1 = Some x'"
    proof (cases "field_of (map fst request_fields) k")
      case None
      with Cons.prems(1) kr that show ?thesis by auto
    next
      case (Some name)
      then have name: "name \<in> set (map fst request_fields)" "name \<noteq> ''messages''"
        using field_of_known [OF Some] Cons.prems(2) False kr by auto
      from Some Cons.prems(1) kr obtain x2 where x2: "the (map_of request_fields name) r x = Some x2" "decode_members request_fields ms x2 = Some x'"
        by (auto split: option.split_asm)
      show ?thesis by (rule that [OF request_field_other [OF name x2(1)] x2(2)])
    qed
    with Cons.IH [OF x1(2)] Cons.prems(2) False kr show ?thesis by (auto simp: map_add_def split: option.split)
  qed
qed simp

lemma decode_maps_length: "decode_maps rs = Some es \<Longrightarrow> length es = length rs"
  by (induction rs arbitrary: es) (auto split: option.split_asm)

lemma mark_extra_panics: "mark_extra ms es = None \<longleftrightarrow> length es < length ms"
  by (induction ms es rule: mark_extra.induct) auto



end
