(* ===== verification/JsonString.thy ===== *)
theory JsonString
  imports JsonDecode
begin

text \<open>
  Strings in the output of \<open>json.Marshal\<close>: how a Go string is quoted, how the bytes of a raw message
  are escaped when it is written, and that the decoder reads both back as the same string.
\<close>

section \<open>Quoting\<close>

definition hex_lower :: "int \<Rightarrow> char" where
  "hex_lower n = char_of (if n < 10 then 48 + n else 87 + n)"

definition u_escape :: "char \<Rightarrow> string" where
  "u_escape c = [CHR 0x5C, CHR ''u'', CHR ''0'', CHR ''0'', hex_lower (byte c div 16), hex_lower (byte c mod 16)]"

definition html_char :: "char \<Rightarrow> bool" where
  "html_char c \<longleftrightarrow> c = CHR ''<'' \<or> c = CHR ''>'' \<or> c = CHR ''&''"

definition quote_ascii :: "char \<Rightarrow> string" where
  "quote_ascii c =
     (if c = CHR 0x22 \<or> c = CHR 0x5C then [CHR 0x5C, c]
      else if c = CHR 0x08 then [CHR 0x5C, CHR ''b''] else if c = CHR 0x0C then [CHR 0x5C, CHR ''f'']
      else if c = CHR 0x0A then [CHR 0x5C, CHR ''n''] else if c = CHR 0x0D then [CHR 0x5C, CHR ''r'']
      else if c = CHR 0x09 then [CHR 0x5C, CHR ''t'']
      else if byte c < 32 \<or> html_char c then u_escape c else [c])"

text \<open>The line and paragraph separators U+2028 and U+2029.\<close>

definition line_separator :: "string \<Rightarrow> string option" where
  "line_separator s =
     (if s = [CHR 0xE2, CHR 0x80, CHR 0xA8] then Some (CHR 0x5C # ''u2028'')
      else if s = [CHR 0xE2, CHR 0x80, CHR 0xA9] then Some (CHR 0x5C # ''u2029'') else None)"

definition quote_rune :: "string \<Rightarrow> string" where
  "quote_rune r = (case r of [c] \<Rightarrow> quote_ascii c | _ \<Rightarrow> (case line_separator r of Some t \<Rightarrow> t | None \<Rightarrow> r))"

lemma utf8_take_append: "utf8_take rs s = Some (taken, tail) \<Longrightarrow> s = taken @ tail"
  by (induction rs s arbitrary: taken rule: utf8_take.induct) (auto split: if_split_asm)

function json_quote :: "string \<Rightarrow> string" where
  "json_quote [] = []"
| "json_quote (c # s) =
     (case Option.bind (utf8_first c) (\<lambda>rs. utf8_take rs s) of
        None \<Rightarrow> CHR 0x5C # ''ufffd'' @ json_quote s
      | Some (taken, tail) \<Rightarrow> quote_rune (c # taken) @ json_quote tail)"
  by pat_completeness auto
termination
  by (relation "measure length")
    (auto dest!: utf8_take_append simp: bind_eq_Some_conv)

declare json_quote.simps [simp del]

text \<open>The bytes of a raw message.\<close>

function html_escape :: "string \<Rightarrow> string" where
  "html_escape [] = []"
| "html_escape (c # s) =
     (if html_char c then u_escape c @ html_escape s
      else case line_separator (c # take 2 s) of
        Some t \<Rightarrow> t @ html_escape (drop 2 s)
      | None \<Rightarrow> c # html_escape s)"
  by pat_completeness auto
termination
  by (relation "measure length") auto

declare html_escape.simps [simp del]

fun html_token :: "token \<Rightarrow> token" where
  "html_token (TStr b) = TStr (html_escape b)"
| "html_token t = t"

section \<open>The bytes between quotation marks\<close>

text \<open>
  What the lexer accepts there: state 0 is the plain text, 5 is after a backslash, 4 to 1 are the
  hexadecimal digits still to come.
\<close>

fun str_ok :: "nat \<Rightarrow> string \<Rightarrow> bool" where
  "str_ok k [] \<longleftrightarrow> k = 0"
| "str_ok k (c # s) \<longleftrightarrow>
     (if k = 0 then c \<noteq> CHR 0x22 \<and> 32 \<le> byte c \<and> str_ok (if c = CHR 0x5C then 5 else 0) s
      else if k = 5 then
        (if c = CHR ''u'' then str_ok 4 s
         else c \<in> {CHR ''b'', CHR ''f'', CHR ''n'', CHR ''r'', CHR ''t'', CHR 0x5C, CHR ''/'', CHR 0x22} \<and> str_ok 0 s)
      else is_hex_char c \<and> str_ok (k - 1) s)"

fun str_state :: "nat \<Rightarrow> string \<Rightarrow> lex_state" where
  "str_state k acc = (if k = 0 then LexStr acc else if k = 5 then LexEsc acc else LexHex k acc)"

lemma str_ok_lex:
  "k \<le> 5 \<Longrightarrow> lex_steps (str_state k acc) (b @ [CHR 0x22]) = Some (LexStart, [TStr (rev acc @ b)]) \<longleftrightarrow> str_ok k b"
proof (induction b arbitrary: k acc)
  case Nil
  then show ?case by (auto simp: is_hex_char_def is_digit_char_def)
next
  case (Cons c b)
  have step: "lex_steps (str_state k acc) ((c # b) @ [CHR 0x22]) = Some (LexStart, [TStr (rev acc @ c # b)]) \<longleftrightarrow>
      lex_steps (str_state k' (c # acc)) (b @ [CHR 0x22]) = Some (LexStart, [TStr (rev (c # acc) @ b)])"
    if "lex_step (str_state k acc) c = Some (str_state k' (c # acc), [])" for k'
    using that by (cases "lex_steps (str_state k' (c # acc)) (b @ [CHR 0x22])") (auto simp del: str_state.simps)
  have bad: "lex_steps (str_state k acc) ((c # b) @ [CHR 0x22]) \<noteq> Some (LexStart, [TStr (rev acc @ c # b)])"
    if "lex_step (str_state k acc) c = None \<or> lex_step (str_state k acc) c = Some (LexStart, [TStr (rev acc)])"
    using that by (auto simp del: str_state.simps)
  show ?case
  proof (cases "k = 0")
    case True
    then show ?thesis using step [of "if c = CHR 0x5C then 5 else 0"] bad Cons.IH [of "if c = CHR 0x5C then 5 else 0" "c # acc"]
      by (cases "c = CHR 0x22"; cases "c = CHR 0x5C"; cases "byte c < 32") (auto simp del: lex_steps.simps)
  next
    case k: False
    show ?thesis
    proof (cases "k = 5")
      case True
      then show ?thesis using step [of "if c = CHR ''u'' then 4 else 0"] bad Cons.IH [of "if c = CHR ''u'' then 4 else 0" "c # acc"]
        by (cases "c = CHR ''u''"; cases "c \<in> {CHR ''b'', CHR ''f'', CHR ''n'', CHR ''r'', CHR ''t'', CHR 0x5C, CHR ''/'', CHR 0x22}")
          (simp_all del: lex_steps.simps)
    next
      case False
      with Cons.prems have "k - Suc 0 \<noteq> 5" by linarith
      with False k Cons.prems show ?thesis using step [of "k - 1"] bad Cons.IH [of "k - 1" "c # acc"]
        by (cases "is_hex_char c"; cases "k = 1") (simp_all del: lex_steps.simps)
    qed
  qed
qed

lemma wf_string: "wf_token (TStr b) \<longleftrightarrow> str_ok 0 b"
  using str_ok_lex [of 0 "[]" b]
  by (simp add: wf_token_def lex_first_def is_json_space_def punctuation_def map_option_case split: option.split)
    (auto split: option.split_asm)

section \<open>Reading back\<close>

lemma hex_lower_ok: "0 \<le> n \<Longrightarrow> n < 16 \<Longrightarrow> is_hex_char (hex_lower n) \<and> hex_value (hex_lower n) = n"
proof -
  assume n: "0 \<le> n" "n < 16"
  have "list_all (\<lambda>n. is_hex_char (hex_lower n) \<and> hex_value (hex_lower n) = n) [0..15]" by code_simp
  moreover have "n \<in> set [0..15]" using n by simp
  ultimately show ?thesis by (simp add: list_all_iff del: set_upto)
qed

lemma byte_range: "0 \<le> byte c \<and> byte c < 256"
  by (cases c) simp

lemma byte_digits:
  "is_hex_char (hex_lower (byte c div 16))" "is_hex_char (hex_lower (byte c mod 16))"
  "hex_value (hex_lower (byte c div 16)) = byte c div 16" "hex_value (hex_lower (byte c mod 16)) = byte c mod 16"
proof -
  have "0 \<le> byte c div 16 \<and> byte c div 16 < 16" using byte_range [of c] by auto
  then show "is_hex_char (hex_lower (byte c div 16))" "is_hex_char (hex_lower (byte c mod 16))"
    "hex_value (hex_lower (byte c div 16)) = byte c div 16" "hex_value (hex_lower (byte c mod 16)) = byte c mod 16"
    using hex_lower_ok [of "byte c div 16"] hex_lower_ok [of "byte c mod 16"] by auto
qed

lemma u_escape_str_ok: "str_ok 0 (u_escape c @ s) = str_ok 0 s"
proof -
  have "is_hex_char (CHR ''0'')" by code_simp
  then show ?thesis by (simp add: u_escape_def byte_digits)
qed

lemma unquote_u_escape: "byte c < 128 \<Longrightarrow> unquote (u_escape c @ s) = c # unquote s"
proof -
  assume c: "byte c < 128"
  have "hex_value (CHR ''0'') = 0" by code_simp
  then have "hex4 (CHR ''0'') (CHR ''0'') (hex_lower (byte c div 16)) (hex_lower (byte c mod 16)) = byte c"
    by (simp add: hex4_def byte_digits)
  with c show ?thesis by (simp add: u_escape_def unquote_rune_def utf8_encode_def)
qed

lemma unquote_escape: "e \<noteq> CHR ''u'' \<Longrightarrow> unquote (CHR 0x5C # e # s) = escape_char e # unquote s"
proof -
  assume "e \<noteq> CHR ''u''"
  then have "unquote_rune (CHR 0x5C) (e # s) = ([escape_char e], s)" by (auto simp: unquote_rune_def split: list.split)
  then show ?thesis by simp
qed

lemma line_separator_hex:
  "hex4 (CHR ''2'') (CHR ''0'') (CHR ''2'') (CHR ''8'') = 8232" "hex4 (CHR ''2'') (CHR ''0'') (CHR ''2'') (CHR ''9'') = 8233"
  "utf8_encode 8232 = [CHR 0xE2, CHR 0x80, CHR 0xA8]" "utf8_encode 8233 = [CHR 0xE2, CHR 0x80, CHR 0xA9]"
  "is_hex_char (CHR ''2'')" "is_hex_char (CHR ''0'')" "is_hex_char (CHR ''8'')" "is_hex_char (CHR ''9'')"
  by code_simp+

lemma unquote_line_separator:
  "line_separator r = Some t \<Longrightarrow> unquote (t @ s) = r @ unquote s \<and> str_ok 0 (t @ s) = str_ok 0 s"
  by (auto simp: line_separator_def unquote_rune_def line_separator_hex split: if_split_asm)

lemma unquote_plain:
  assumes "c \<noteq> CHR 0x5C" "utf8_first c = Some rs" "utf8_take rs (taken @ s) = Some (taken, s)"
  shows "unquote (c # taken @ s) = c # taken @ unquote s"
  using assms by (simp add: unquote_rune_def)

lemma utf8_first_ranges:
  assumes "utf8_first c = Some rs"
  shows "\<forall>(lo, hi) \<in> set rs. 128 \<le> lo \<and> hi \<le> 191" "rs = [] \<longleftrightarrow> byte c < 128" "rs \<noteq> [] \<longrightarrow> 194 \<le> byte c"
  using assms by (auto simp: utf8_first_def Let_def split: if_split_asm)

lemma utf8_take_bytes:
  "utf8_take rs s = Some (taken, tail) \<Longrightarrow> \<forall>(lo, hi) \<in> set rs. 128 \<le> lo \<and> hi \<le> 191 \<Longrightarrow>
   length taken = length rs \<and> (\<forall>d \<in> set taken. 128 \<le> byte d \<and> byte d \<le> 191) \<and> utf8_take rs (taken @ x) = Some (taken, x)"
  by (induction rs s arbitrary: taken rule: utf8_take.induct) (auto split: if_split_asm)

lemma str_ok_high: "\<forall>d \<in> set t. 128 \<le> byte d \<Longrightarrow> str_ok 0 (t @ x) = str_ok 0 x"
  by (induction t) auto

lemma quote_ascii_ok:
  assumes "byte c < 128"
  shows "str_ok 0 (quote_ascii c @ x) = str_ok 0 x" "unquote (quote_ascii c @ x) = c # unquote x"
proof -
  have plain: "unquote (c # x) = c # unquote x" if "c \<noteq> CHR 0x5C"
    using assms that unquote_plain [of c "[]" "[]" x] by (simp add: utf8_first_def)
  show "str_ok 0 (quote_ascii c @ x) = str_ok 0 x"
    by (auto simp: quote_ascii_def u_escape_str_ok)
  show "unquote (quote_ascii c @ x) = c # unquote x"
    using assms plain unquote_u_escape
    by (simp add: quote_ascii_def unquote_escape escape_char_def del: unquote.simps)
qed

lemma quote_rune_ok:
  assumes "utf8_first c = Some rs" "utf8_take rs s = Some (taken, tail)"
  shows "str_ok 0 (quote_rune (c # taken) @ x) = str_ok 0 x" "unquote (quote_rune (c # taken) @ x) = c # taken @ unquote x"
proof -
  note ranges = utf8_first_ranges [OF assms(1)]
  note bytes = utf8_take_bytes [OF assms(2) ranges(1)]
  have "str_ok 0 (quote_rune (c # taken) @ x) = str_ok 0 x \<and> unquote (quote_rune (c # taken) @ x) = c # taken @ unquote x"
  proof (cases taken)
    case Nil
    with bytes ranges(2) have "byte c < 128" by simp
    with quote_ascii_ok [OF this] Nil show ?thesis by (simp add: quote_rune_def)
  next
    case (Cons d ds)
    with bytes ranges have c: "194 \<le> byte c" by auto
    show ?thesis
    proof (cases "line_separator (c # taken)")
      case None
      moreover have "str_ok 0 ((c # taken) @ x) = str_ok 0 x" using bytes c by (intro str_ok_high) auto
      moreover have "c \<noteq> CHR 0x5C" using c by auto
      then have "unquote (c # taken @ x) = c # taken @ unquote x" using bytes by (intro unquote_plain [OF _ assms(1)]) auto
      moreover have "quote_rune (c # taken) = c # taken" using None Cons by (simp add: quote_rune_def)
      ultimately show ?thesis by simp
    qed (use unquote_line_separator Cons in \<open>simp add: quote_rune_def\<close>)
  qed
  then show "str_ok 0 (quote_rune (c # taken) @ x) = str_ok 0 x" "unquote (quote_rune (c # taken) @ x) = c # taken @ unquote x"
    by blast+
qed

lemma json_quote_ok: "str_ok 0 (json_quote s)"
proof (induction s rule: json_quote.induct)
  case (2 c s)
  have fd: "is_hex_char (CHR ''f'')" "is_hex_char (CHR ''d'')" by code_simp+
  show ?case
  proof (cases "Option.bind (utf8_first c) (\<lambda>rs. utf8_take rs s)")
    case None
    with 2 fd show ?thesis by (simp add: json_quote.simps)
  next
    case (Some tt)
    obtain taken tail where tt: "tt = (taken, tail)" by (cases tt)
    with Some quote_rune_ok 2 show ?thesis by (auto simp: json_quote.simps bind_eq_Some_conv)
  qed
qed (simp add: json_quote.simps)

lemma utf8_run_take: "utf8_run rs s \<Longrightarrow> \<exists>taken tail. utf8_take rs s = Some (taken, tail) \<and> utf8_run [] tail"
  by (induction rs s rule: utf8_take.induct) auto

lemma utf8_valid_Cons:
  assumes "utf8_valid (c # s)"
  obtains rs taken tail where "utf8_first c = Some rs" "utf8_take rs s = Some (taken, tail)" "utf8_valid tail"
  using assms utf8_run_take by (fastforce simp: utf8_valid_def split: option.split_asm)

lemma unquote_quote: "utf8_valid s \<Longrightarrow> unquote (json_quote s) = s"
proof (induction "length s" arbitrary: s rule: less_induct)
  case less
  show ?case
  proof (cases s)
    case (Cons c s')
    with less.prems obtain rs taken tail where u: "utf8_first c = Some rs" "utf8_take rs s' = Some (taken, tail)" "utf8_valid tail"
      using utf8_valid_Cons by blast
    have "s' = taken @ tail" using utf8_take_append [OF u(2)] .
    with less.hyps [OF _ u(3)] quote_rune_ok(2) [OF u(1,2)] u Cons show ?thesis by (simp add: json_quote.simps)
  qed (simp add: json_quote.simps)
qed

section \<open>Decoded strings are UTF-8\<close>

lemma utf8_run_append: "utf8_run rs a \<Longrightarrow> utf8_run rs (a @ b) = utf8_run [] b"
  by (induction rs a rule: utf8_run.induct) (auto split: option.split_asm)

lemma utf8_valid_append: "utf8_valid a \<Longrightarrow> utf8_valid b \<Longrightarrow> utf8_valid (a @ b)"
  by (simp add: utf8_valid_def utf8_run_append)

lemma byte_of_char: "0 \<le> n \<Longrightarrow> n \<le> 255 \<Longrightarrow> byte (char_of n) = n"
  by simp

lemma byte_cont: "byte (char_of (128 + n mod 64)) = 128 + n mod 64" "128 \<le> 128 + n mod 64" "128 + n mod 64 \<le> (191 :: int)"
proof -
  have "0 \<le> n mod 64" "n mod 64 < 64" by simp_all
  then show "128 \<le> 128 + n mod 64" "128 + n mod 64 \<le> (191 :: int)" by linarith+
  then show "byte (char_of (128 + n mod 64)) = 128 + n mod 64" by (intro byte_of_char) linarith+
qed

lemma byte_lead: "192 \<le> n \<Longrightarrow> n \<le> 244 \<Longrightarrow> byte (char_of n) = n"
  by (rule byte_of_char) linarith+

lemma digits64: "q = 64 * (q div 64) + q mod (64 :: int)"
  by simp

definition cont_byte :: "char \<Rightarrow> bool" where
  "cont_byte c \<longleftrightarrow> 128 \<le> byte c \<and> byte c \<le> 191"

lemma cont_byte_mod: "cont_byte (char_of (128 + n mod (64 :: int)))"
  unfolding cont_byte_def byte_cont(1) using byte_cont(2,3) [of n] by blast

lemma utf8_valid_runes:
  "194 \<le> byte a \<Longrightarrow> byte a \<le> 223 \<Longrightarrow> cont_byte b \<Longrightarrow> utf8_valid [a, b]"
  "224 \<le> byte a \<Longrightarrow> byte a \<le> 239 \<Longrightarrow> cont_byte b \<Longrightarrow> cont_byte c \<Longrightarrow> (byte a = 224 \<longrightarrow> 160 \<le> byte b) \<Longrightarrow>
     (byte a = 237 \<longrightarrow> byte b \<le> 159) \<Longrightarrow> utf8_valid [a, b, c]"
  "240 \<le> byte a \<Longrightarrow> byte a \<le> 244 \<Longrightarrow> cont_byte b \<Longrightarrow> cont_byte c \<Longrightarrow> cont_byte d \<Longrightarrow> (byte a = 240 \<longrightarrow> 144 \<le> byte b) \<Longrightarrow>
     (byte a = 244 \<longrightarrow> byte b \<le> 143) \<Longrightarrow> utf8_valid [a, b, c, d]"
  by (auto simp: utf8_valid_def utf8_first_def Let_def cont_byte_def)

lemma utf8_encode_valid:
  assumes "0 \<le> r" "r < 1114112" "\<not> (55296 \<le> r \<and> r < 57344)"
  shows "utf8_valid (utf8_encode r)"
proof -
  consider "r < 128" | "128 \<le> r" "r < 2048" | "2048 \<le> r" "r < 65536" | "65536 \<le> r" by linarith
  then show ?thesis
  proof cases
    case 1
    with assms show ?thesis by (simp add: utf8_encode_def utf8_valid_def utf8_first_def)
  next
    case 2
    let ?a = "192 + r div 64" and ?b = "128 + r mod 64"
    have a: "194 \<le> ?a" "?a \<le> 223" using 2 by auto
    have "byte (char_of ?a) = ?a" by (rule byte_lead) (use a in linarith)+
    with 2 a have "utf8_valid [char_of ?a, char_of ?b]" by (intro utf8_valid_runes cont_byte_mod) simp_all
    with 2 show ?thesis by (simp add: utf8_encode_def)
  next
    case 3
    let ?a = "224 + r div 4096" and ?b = "128 + r div 64 mod 64" and ?c = "128 + r mod 64"
    have a: "224 \<le> ?a" "?a \<le> 239" using 3 by auto
    have "byte (char_of ?a) = ?a" by (rule byte_lead) (use a in linarith)+
    moreover define q where "q = r div 64"
    have "32 \<le> q" "q < 1024" "q < 864 \<or> 896 \<le> q" "r div 4096 = q div 64"
    proof -
      define p where "p = r mod 64"
      have "r = 64 * q + p" "0 \<le> p" "p < 64" unfolding q_def p_def by simp_all
      then show "32 \<le> q" "q < 1024" "q < 864 \<or> 896 \<le> q" using 3 assms(3) by linarith+
      show "r div 4096 = q div 64" using zdiv_zmult2_eq [of 64 r 64] by (simp add: q_def)
    qed
    then have "?a = 224 \<Longrightarrow> 160 \<le> ?b" "?a = 237 \<Longrightarrow> ?b \<le> 159" unfolding q_def [symmetric] using digits64 [of q] by auto
    ultimately have "utf8_valid [char_of ?a, char_of ?b, char_of ?c]"
      using a byte_cont(1) [of "r div 64"] by (intro utf8_valid_runes cont_byte_mod) simp_all
    with 3 show ?thesis by (simp add: utf8_encode_def)
  next
    case 4
    let ?a = "240 + r div 262144" and ?b = "128 + r div 4096 mod 64" and ?c = "128 + r div 64 mod 64" and ?d = "128 + r mod 64"
    have a: "240 \<le> ?a" "?a \<le> 244" using 4 assms(2) by auto
    have "byte (char_of ?a) = ?a" by (rule byte_lead) (use a in linarith)+
    moreover define q where "q = r div 4096"
    have "16 \<le> q" "q < 272" "r div 262144 = q div 64"
    proof -
      define p where "p = r mod 4096"
      have "r = 4096 * q + p" "0 \<le> p" "p < 4096" unfolding q_def p_def by simp_all
      then show "16 \<le> q" "q < 272" using 4 assms(2) by linarith+
      show "r div 262144 = q div 64" using zdiv_zmult2_eq [of 64 r 4096] by (simp add: q_def)
    qed
    then have "?a = 240 \<Longrightarrow> 144 \<le> ?b" "?a = 244 \<Longrightarrow> ?b \<le> 143" unfolding q_def [symmetric] using digits64 [of q] by auto
    ultimately have "utf8_valid [char_of ?a, char_of ?b, char_of ?c, char_of ?d]"
      using a byte_cont(1) [of "r div 4096"] by (intro utf8_valid_runes cont_byte_mod) simp_all
    with 4 show ?thesis by (simp add: utf8_encode_def)
  qed
qed

text \<open>The three ways the text of a string begins.\<close>

lemma str_ok_cases [consumes 1, case_names Nil Plain Escape Unicode]:
  assumes "str_ok 0 b"
  obtains "b = []"
  | c s where "b = c # s" "c \<noteq> CHR 0x5C" "str_ok 0 s"
  | e s where "b = CHR 0x5C # e # s" "e \<in> {CHR ''b'', CHR ''f'', CHR ''n'', CHR ''r'', CHR ''t'', CHR 0x5C, CHR ''/'', CHR 0x22}" "str_ok 0 s"
  | p q x d s where "b = CHR 0x5C # CHR ''u'' # p # q # x # d # s" "is_hex_char p" "is_hex_char q" "is_hex_char x" "is_hex_char d"
      "str_ok 0 s"
proof (cases b)
  case (Cons c s)
  show ?thesis
  proof (cases "c = CHR 0x5C")
    case True
    with assms Cons have s: "str_ok 5 s" by simp
    then obtain e s1 where e: "s = e # s1" by (cases s) auto
    show ?thesis
    proof (cases "e = CHR ''u''")
      case u: True
      with s e have h: "str_ok 4 s1" by simp
      then obtain p s2 where p: "s1 = p # s2" "is_hex_char p" "str_ok 3 s2" by (cases s1) auto
      then obtain q s3 where q: "s2 = q # s3" "is_hex_char q" "str_ok 2 s3" by (cases s2) auto
      then obtain x s4 where x: "s3 = x # s4" "is_hex_char x" "str_ok 1 s4" by (cases s3) auto
      then obtain d s5 where "s4 = d # s5" "is_hex_char d" "str_ok 0 s5" by (cases s4) auto
      with p q x u e True Cons that(4) show ?thesis by blast
    next
      case False
      with s e have "e \<in> {CHR ''b'', CHR ''f'', CHR ''n'', CHR ''r'', CHR ''t'', CHR 0x5C, CHR ''/'', CHR 0x22}" "str_ok 0 s1" by simp_all
      with e True Cons that(3) show ?thesis by blast
    qed
  qed (use assms Cons that(2) in auto)
qed (use that(1) in blast)

definition rune_of :: "int \<Rightarrow> string \<Rightarrow> string \<times> string" where
  "rune_of r tail =
     (if 55296 \<le> r \<and> r < 56320 then
        (case low_surrogate tail of
           Some (r2, tail') \<Rightarrow> (utf8_encode (65536 + (r - 55296) * 1024 + (r2 - 56320)), tail')
         | None \<Rightarrow> (replacement_rune, tail))
      else if 56320 \<le> r \<and> r < 57344 then (replacement_rune, tail)
      else (utf8_encode r, tail))"

lemma unquote_unicode:
  "unquote (CHR 0x5C # CHR ''u'' # p # q # x # d # s) = fst (rune_of (hex4 p q x d) s) @ unquote (snd (rune_of (hex4 p q x d) s))"
  by (simp add: unquote_rune_def rune_of_def Let_def)

lemma hex_value_range: "is_hex_char c \<Longrightarrow> 0 \<le> hex_value c \<and> hex_value c < 16"
  by (auto simp: is_hex_char_def hex_value_def digit_byte)

lemma hex4_range: "is_hex_char p \<Longrightarrow> is_hex_char q \<Longrightarrow> is_hex_char x \<Longrightarrow> is_hex_char d \<Longrightarrow> 0 \<le> hex4 p q x d \<and> hex4 p q x d < 65536"
  using hex_value_range [of p] hex_value_range [of q] hex_value_range [of x] hex_value_range [of d] by (simp add: hex4_def)

lemma low_surrogate_str:
  assumes "str_ok 0 s" "low_surrogate s = Some (r, tail)"
  obtains p q x d where "s = CHR 0x5C # CHR ''u'' # p # q # x # d # tail" "r = hex4 p q x d" "is_hex_char p" "is_hex_char q" "is_hex_char x"
    "is_hex_char d" "56320 \<le> r" "r < 57344" "str_ok 0 tail"
  using assms by (auto simp: low_surrogate_def split: list.split_asm if_split_asm)

lemma rune_of_valid:
  assumes "0 \<le> r" "r < 65536" "str_ok 0 s"
  shows "utf8_valid (fst (rune_of r s)) \<and> str_ok 0 (snd (rune_of r s)) \<and> length (snd (rune_of r s)) \<le> length s"
proof -
  have repl: "utf8_valid replacement_rune" by code_simp
  show ?thesis
  proof (cases "55296 \<le> r \<and> r < 56320")
    case True
    show ?thesis
    proof (cases "low_surrogate s")
      case (Some rt)
      obtain r2 tail where rt: "rt = (r2, tail)" by (cases rt)
      with Some have ls: "low_surrogate s = Some (r2, tail)" by simp
      have r2: "56320 \<le> r2" "r2 < 57344" "str_ok 0 tail" by (rule low_surrogate_str [OF assms(3) ls], assumption)+
      have len: "length tail \<le> length s" by (rule low_surrogate_shorter [OF ls])
      have "utf8_valid (utf8_encode (65536 + (r - 55296) * 1024 + (r2 - 56320)))"
        using True r2 by (intro utf8_encode_valid) auto
      with ls True r2 len show ?thesis by (simp add: rune_of_def)
    qed (use True repl assms in \<open>simp add: rune_of_def\<close>)
  qed (use assms repl utf8_encode_valid [of r] in \<open>auto simp: rune_of_def\<close>)
qed

lemma utf8_take_valid: "utf8_first c = Some rs \<Longrightarrow> utf8_take rs s = Some (taken, tail) \<Longrightarrow> utf8_valid (c # taken)"
proof -
  assume a: "utf8_first c = Some rs" "utf8_take rs s = Some (taken, tail)"
  have "utf8_run rs taken" using a(2) by (induction rs s arbitrary: taken rule: utf8_take.induct) (auto split: if_split_asm)
  with a(1) show ?thesis by (simp add: utf8_valid_def)
qed

lemma str_ok_tail:
  assumes "str_ok 0 s" "utf8_first c = Some rs" "utf8_take rs s = Some (taken, tail)"
  shows "str_ok 0 tail"
  using utf8_take_append [OF assms(3)] utf8_take_bytes [OF assms(3) utf8_first_ranges(1) [OF assms(2)]] assms(1) str_ok_high
  by auto

lemma unquote_valid: "str_ok 0 b \<Longrightarrow> utf8_valid (unquote b)"
proof (induction "length b" arbitrary: b rule: less_induct)
  case less
  have repl: "utf8_valid replacement_rune" by code_simp
  from less.prems show ?case
  proof (cases rule: str_ok_cases)
    case Nil
    then show ?thesis by (simp add: utf8_valid_def)
  next
    case (Plain c s)
    show ?thesis
    proof (cases "Option.bind (utf8_first c) (\<lambda>rs. utf8_take rs s)")
      case None
      then have "unquote_rune c s = (replacement_rune, s)"
        using Plain(2) by (auto simp: unquote_rune_def bind_eq_None_conv split: option.split)
      with less.hyps [of s] Plain repl show ?thesis by (simp add: utf8_valid_append)
    next
      case (Some tt)
      then obtain rs taken tail where u: "utf8_first c = Some rs" "utf8_take rs s = Some (taken, tail)"
        by (cases tt) (auto simp: bind_eq_Some_conv)
      then have "unquote_rune c s = (c # taken, tail)" using Plain(2) by (simp add: unquote_rune_def)
      moreover have "length tail < length b" using utf8_take_shorter [OF u(2)] Plain(1) by simp
      ultimately show ?thesis
        using less.hyps [of tail] str_ok_tail [OF Plain(3) u] utf8_take_valid [OF u] utf8_valid_append [of "c # taken"] Plain(1) by simp
    qed
  next
    case (Escape e s)
    have "list_all (\<lambda>e. utf8_valid [escape_char e])
        [CHR ''b'', CHR ''f'', CHR ''n'', CHR ''r'', CHR ''t'', CHR 0x5C, CHR ''/'', CHR 0x22]" by code_simp
    with Escape(2) have "utf8_valid [escape_char e]" by (simp only: list_all_iff set_simps)
    moreover have "e \<noteq> CHR ''u''" using Escape(2) by auto
    ultimately show ?thesis
      using less.hyps [of s] Escape utf8_valid_append [of "[escape_char e]"] unquote_escape [of e s] by simp
  next
    case (Unicode p q x d s)
    note r = rune_of_valid [OF _ _ Unicode(6), of "hex4 p q x d"]
    have "utf8_valid (unquote (snd (rune_of (hex4 p q x d) s)))"
      using less.hyps r hex4_range Unicode by auto
    then show ?thesis using r hex4_range Unicode unquote_unicode by (simp add: utf8_valid_append del: unquote.simps)
  qed
qed

section \<open>Escaping a raw message changes no string\<close>

lemma line_separator_head: "c \<noteq> CHR 0xE2 \<Longrightarrow> line_separator (c # s) = None"
  by (simp add: line_separator_def)

lemma html_keep: "\<not> html_char c \<Longrightarrow> c \<noteq> CHR 0xE2 \<Longrightarrow> html_escape (c # s) = c # html_escape s"
  by (simp add: html_escape.simps line_separator_head)

lemma html_keep_list: "\<forall>c \<in> set t. \<not> html_char c \<and> c \<noteq> CHR 0xE2 \<Longrightarrow> html_escape (t @ s) = t @ html_escape s"
  by (induction t) (simp_all add: html_keep)

lemma html_keep_high: "\<forall>c \<in> set t. 128 \<le> byte c \<and> byte c \<le> 191 \<Longrightarrow> html_escape (t @ s) = t @ html_escape s"
  by (rule html_keep_list) (auto simp: html_char_def)

lemma hex_not_html: "is_hex_char c \<Longrightarrow> \<not> html_char c \<and> c \<noteq> CHR 0xE2"
  by (auto simp: html_char_def is_hex_char_def digit_byte)

lemma html_unicode:
  assumes "is_hex_char p" "is_hex_char q" "is_hex_char x" "is_hex_char d"
  shows "html_escape (CHR 0x5C # CHR ''u'' # p # q # x # d # s) = CHR 0x5C # CHR ''u'' # p # q # x # d # html_escape s"
  using html_keep_list [of "[CHR 0x5C, CHR ''u'', p, q, x, d]" s] assms hex_not_html by (simp add: html_char_def)

lemma escape_not_html:
  assumes "e \<in> {CHR ''b'', CHR ''f'', CHR ''n'', CHR ''r'', CHR ''t'', CHR 0x5C, CHR ''/'', CHR 0x22}"
  shows "\<not> html_char e \<and> e \<noteq> CHR 0xE2 \<and> e \<noteq> CHR ''u''"
proof -
  have "list_all (\<lambda>e. \<not> html_char e \<and> e \<noteq> CHR 0xE2 \<and> e \<noteq> CHR ''u'')
      [CHR ''b'', CHR ''f'', CHR ''n'', CHR ''r'', CHR ''t'', CHR 0x5C, CHR ''/'', CHR 0x22]" by code_simp
  then show ?thesis using assms unfolding list_all_iff set_simps by blast
qed

lemma html_backslash:
  assumes "e \<in> {CHR ''b'', CHR ''f'', CHR ''n'', CHR ''r'', CHR ''t'', CHR 0x5C, CHR ''/'', CHR 0x22}"
  shows "html_escape (CHR 0x5C # e # s) = CHR 0x5C # e # html_escape s"
  using escape_not_html [OF assms] by (simp add: html_keep html_char_def)

text \<open>The first byte after escaping.\<close>

lemma html_head: "html_escape (c # s) = c # html_escape s \<or> (\<exists>t. html_escape (c # s) = CHR 0x5C # t)"
  by (auto simp: html_escape.simps u_escape_def line_separator_def split: option.split)

lemma utf8_take_html:
  "\<forall>(lo, hi) \<in> set rs. 128 \<le> lo \<and> hi \<le> 191 \<Longrightarrow> utf8_take rs (html_escape s) = map_option (apsnd html_escape) (utf8_take rs s)"
proof (induction rs s rule: utf8_take.induct)
  case (3 lo hi rs c cs)
  show ?case
  proof (cases "lo \<le> byte c \<and> byte c \<le> hi")
    case True
    with 3 have "html_escape (c # cs) = c # html_escape cs" using html_keep_high [of "[c]" cs] by auto
    with 3 True show ?thesis by (simp add: option.map_comp comp_def split_beta)
  next
    case False
    with 3 html_head [of c cs] show ?thesis by auto
  qed
qed (simp_all add: html_escape.simps)

lemma low_surrogate_escape: "byte c < 128 \<Longrightarrow> low_surrogate (u_escape c @ s) = None"
proof -
  assume c: "byte c < 128"
  have "hex_value (CHR ''0'') = 0" by code_simp
  then have "hex4 (CHR ''0'') (CHR ''0'') (hex_lower (byte c div 16)) (hex_lower (byte c mod 16)) = byte c"
    by (simp add: hex4_def byte_digits)
  with c show ?thesis by (simp add: low_surrogate_def u_escape_def)
qed

lemma low_surrogate_html:
  assumes "str_ok 0 s"
  shows "low_surrogate (html_escape s) = map_option (apsnd html_escape) (low_surrogate s)"
  using assms
proof (cases rule: str_ok_cases)
  case (Plain c t)
  then have none: "low_surrogate s = None" by (auto simp: low_surrogate_def split: list.split)
  show ?thesis
  proof (cases "html_char c")
    case True
    then have "byte c < 128" by (auto simp: html_char_def)
    with True Plain(1) none show ?thesis by (simp add: html_escape.simps low_surrogate_escape)
  next
    case False
    show ?thesis
    proof (cases "line_separator (c # take 2 t)")
      case None
      with False Plain none show ?thesis by (auto simp: html_escape.simps low_surrogate_def split: list.split)
    next
      case (Some u)
      then have "low_surrogate (u @ v) = None" for v
        by (auto simp: line_separator_def low_surrogate_def line_separator_hex split: if_split_asm)
      with Some False Plain(1) none show ?thesis by (simp add: html_escape.simps)
    qed
  qed
next
  case (Escape e t)
  with escape_not_html [OF Escape(2)] show ?thesis by (auto simp: html_backslash low_surrogate_def split: list.split)
next
  case (Unicode p q x d t)
  then show ?thesis by (simp add: html_unicode low_surrogate_def)
qed (simp add: html_escape.simps low_surrogate_def)

lemma rune_of_html: "str_ok 0 s \<Longrightarrow> rune_of r (html_escape s) = apsnd html_escape (rune_of r s)"
  by (auto simp: rune_of_def low_surrogate_html split: option.split)

lemma html_escape_ok: "str_ok 0 b \<Longrightarrow> str_ok 0 (html_escape b) \<and> unquote (html_escape b) = unquote b"
proof (induction "length b" arbitrary: b rule: less_induct)
  case less
  from less.prems show ?case
  proof (cases rule: str_ok_cases)
    case Nil
    then show ?thesis by (simp add: html_escape.simps)
  next
    case (Plain c s)
    have s: "str_ok 0 (html_escape s)" using less.hyps Plain by simp
    have c: "c \<noteq> CHR 0x22" "32 \<le> byte c" using less.prems Plain by auto
    show ?thesis
    proof (cases "html_char c")
      case True
      then have "byte c < 128" by (auto simp: html_char_def)
      moreover from this Plain(2) have "unquote (c # s) = c # unquote s"
        using unquote_plain [of c "[]" "[]" s] by (simp add: utf8_first_def)
      ultimately show ?thesis
        using True Plain less.hyps [of s] s by (simp add: html_escape.simps unquote_u_escape u_escape_str_ok del: unquote.simps)
    next
      case html: False
      show ?thesis
      proof (cases "line_separator (c # take 2 s)")
        case (Some u)
        then have c2: "c = CHR 0xE2" "take 2 s = [CHR 0x80, CHR 0xA8] \<or> take 2 s = [CHR 0x80, CHR 0xA9]"
          by (auto simp: line_separator_def split: if_split_asm)
        then obtain d s' where d: "s = CHR 0x80 # d # s'" "d = CHR 0xA8 \<or> d = CHR 0xA9"
          by (cases s rule: remdups_adj.cases) auto
        have "utf8_first (CHR 0xE2) = Some [(128, 191), (128, 191)]" by code_simp
        then have "unquote (c # s) = c # [CHR 0x80, d] @ unquote s'"
          using unquote_plain [of c "[(128, 191), (128, 191)]" "[CHR 0x80, d]" s'] d c2(1) by auto
        moreover have "str_ok 0 s'" using Plain(3) d by auto
        ultimately show ?thesis
          using Some html Plain(1) d less.hyps [of s'] unquote_line_separator [OF Some, of "html_escape s'"]
          by (simp add: html_escape.simps del: unquote.simps)
      next
        case None
        with html Plain(1) have esc: "html_escape b = c # html_escape s" by (simp add: html_escape.simps)
        have "unquote (c # html_escape s) = unquote (c # s)"
        proof (cases "Option.bind (utf8_first c) (\<lambda>rs. utf8_take rs s)")
          case None
          have "Option.bind (utf8_first c) (\<lambda>rs. utf8_take rs (html_escape s)) = None"
            using None utf8_take_html utf8_first_ranges(1) by (cases "utf8_first c") auto
          then have "unquote_rune c (html_escape s) = (replacement_rune, html_escape s)" "unquote_rune c s = (replacement_rune, s)"
            using Plain(2) None by (auto simp: unquote_rune_def bind_eq_None_conv split: option.split)
          with less.hyps [of s] Plain show ?thesis by simp
        next
          case (Some tt)
          then obtain rs taken tail where u: "utf8_first c = Some rs" "utf8_take rs s = Some (taken, tail)"
            by (cases tt) (auto simp: bind_eq_Some_conv)
          then have "unquote_rune c (html_escape s) = (c # taken, html_escape tail)" "unquote_rune c s = (c # taken, tail)"
            using Plain(2) utf8_take_html [OF utf8_first_ranges(1) [OF u(1)], of s] by (simp_all add: unquote_rune_def)
          moreover have "length tail < length b" using utf8_take_shorter [OF u(2)] Plain(1) by simp
          ultimately show ?thesis using less.hyps [of tail] str_ok_tail [OF Plain(3) u] by simp
        qed
        with esc Plain c s show ?thesis by (simp del: unquote.simps)
      qed
    qed
  next
    case (Escape e s)
    note e = escape_not_html [OF Escape(2)]
    have "str_ok 0 (html_escape s) \<and> unquote (html_escape s) = unquote s" using less.hyps Escape by simp
    with Escape e show ?thesis by (simp add: html_backslash unquote_escape del: unquote.simps)
  next
    case (Unicode p q x d s)
    have s: "str_ok 0 (html_escape s)" using less.hyps Unicode by simp
    note r = rune_of_valid [OF _ _ Unicode(6), of "hex4 p q x d"] and h = hex4_range [OF Unicode(2-5)]
    have "unquote (html_escape (snd (rune_of (hex4 p q x d) s))) = unquote (snd (rune_of (hex4 p q x d) s))"
      using less.hyps r h Unicode(1) by auto
    with Unicode s show ?thesis
      by (simp add: html_unicode unquote_unicode rune_of_html del: unquote.simps)
  qed
qed

end
