(* ===== verification/JsonEncode.thy ===== *)
theory JsonEncode
  imports JsonString "HOL-Library.List_Lexorder" "HOL-Library.Char_ord"
begin

text \<open>
  \<open>json.Marshal\<close> for the values the code writes, as tokens whose text is the output, and the way back:
  what \<open>json.Unmarshal\<close> finds in an object or array that was put together this way. A value's
  nesting is counted, since the decoder stops at a depth of 10000.
\<close>

section \<open>Objects and arrays\<close>

fun join_parts :: "raw list \<Rightarrow> raw" where
  "join_parts [] = []"
| "join_parts [p] = p"
| "join_parts (p # q # ps) = p @ TComma # join_parts (q # ps)"

text \<open>A member with the bytes of its name between quotation marks.\<close>

definition member_tokens :: "string \<times> raw \<Rightarrow> raw" where
  "member_tokens kv = TStr (fst kv) # TColon # snd kv"

definition obj_tokens :: "(string \<times> raw) list \<Rightarrow> raw" where
  "obj_tokens ms = TLBrace # join_parts (map member_tokens ms) @ [TRBrace]"

definition arr_tokens :: "raw list \<Rightarrow> raw" where
  "arr_tokens vs = TLBrack # join_parts vs @ [TRBrack]"

section \<open>Values by depth\<close>

fun value_run :: "nat \<Rightarrow> parser \<Rightarrow> raw \<Rightarrow> bool" where
  "value_run n (m, fs) [] \<longleftrightarrow> m = Finished"
| "value_run n p (t # ts) \<longleftrightarrow>
     (if is_space_token t then value_run n p ts
      else case parse_step p t of None \<Rightarrow> False | Some p' \<Rightarrow> length (snd p') \<le> n \<and> value_run n p' ts)"

definition value_within :: "nat \<Rightarrow> raw \<Rightarrow> bool" where
  "value_within n ts = value_run n (WantValue, []) ts"

lemma parse_step_depth: "parse_step p t = Some p' \<Longrightarrow> length (snd p) \<le> 10000 \<Longrightarrow> length (snd p') \<le> 10000"
proof -
  assume step: "parse_step p t = Some p'" and len: "length (snd p) \<le> 10000"
  have begin1: "length (snd p') \<le> 10000" if "begin_value t fs = Some p'" "length fs \<le> 10000" for fs
    using that by (cases t) (auto simp: push_frame_def maxNestingDepth_def value_done_def split: if_split_asm)
  have end1: "length (snd p') \<le> 10000" if "end_frame t fs = Some p'" "length fs \<le> 10000" for fs
    using that by (cases "(t, fs)" rule: end_frame.cases) (auto simp: value_done_def)
  obtain m fs where p: "p = (m, fs)" by (cases p)
  show ?thesis
    using step len unfolding p
    by (cases m; cases t; cases fs rule: next_part.cases)
      (auto split: if_split_asm dest: begin1 end1 simp: push_frame_def maxNestingDepth_def value_done_def)
qed

lemma value_run_parse: "length (snd p) \<le> 10000 \<Longrightarrow> value_run 10000 p ts = parse_run p ts"
  by (induction p ts rule: parse_run.induct) (auto split: option.split dest: parse_step_depth)

lemma is_value_within: "is_value ts = value_within 10000 ts"
  by (simp add: is_value_def value_within_def value_run_parse)

lemma value_run_no_space [simp]: "value_run n p (no_space ts) = value_run n p ts"
  by (induction n p ts rule: value_run.induct) (auto simp: no_space_def split: option.split)

lemma value_within_no_space [simp]: "value_within n (no_space ts) = value_within n ts"
  by (simp add: value_within_def)

lemma value_within_mono: "value_within n ts \<Longrightarrow> n \<le> m \<Longrightarrow> value_within m ts"
proof -
  have "value_run m p us" if "value_run n p us" "n \<le> m" for p us
    using that by (induction n p us rule: value_run.induct) (auto split: option.split_asm if_split_asm)
  then show "value_within n ts \<Longrightarrow> n \<le> m \<Longrightarrow> value_within m ts" by (simp add: value_within_def)
qed

text \<open>A parser inside one more array or object.\<close>

definition lift_parser :: "frame \<Rightarrow> parser \<Rightarrow> parser" where
  "lift_parser f p = (if fst p = Finished then AfterValue else fst p, snd p @ [f])"

definition proper :: "parser \<Rightarrow> bool" where
  "proper p \<longleftrightarrow> (if snd p = [] then fst p \<in> {WantValue, Finished} else fst p \<noteq> Finished)"

lemma proper_step: "proper p \<Longrightarrow> parse_step p t = Some p' \<Longrightarrow> proper p'"
proof -
  assume p: "proper p" and step: "parse_step p t = Some p'"
  obtain m fs where mf: "p = (m, fs)" by (cases p)
  show ?thesis
    using p step unfolding mf
    by (cases m; cases t; cases fs rule: next_part.cases)
      (auto simp: proper_def push_frame_def value_done_def split: if_split_asm)
qed

lemma lift_step:
  assumes "proper p" "fst p \<noteq> Finished" "parse_step p t = Some p'" "length (snd p') < 10000"
  shows "parse_step (lift_parser f p) t = Some (lift_parser f p')"
proof -
  obtain m fs where mf: "p = (m, fs)" by (cases p)
  show ?thesis
    using assms unfolding mf
    by (cases m; cases t; cases fs rule: next_part.cases)
      (auto simp: lift_parser_def proper_def push_frame_def maxNestingDepth_def value_done_def split: if_split_asm)
qed

lemma lower_step:
  assumes "proper p" "fst p \<noteq> Finished" "parse_step (lift_parser f p) t = Some q"
  shows "\<exists>p'. q = lift_parser f p' \<and> parse_step p t = Some p'"
proof -
  obtain m fs where mf: "p = (m, fs)" by (cases p)
  show ?thesis
    using assms unfolding mf
    by (cases m; cases t; cases fs rule: next_part.cases)
      (auto simp: lift_parser_def proper_def push_frame_def maxNestingDepth_def value_done_def split: if_split_asm)
qed

lemma lift_run:
  assumes "value_run n p ts" "proper p" "n < 10000"
  shows "value_run (Suc n) (lift_parser f p) (ts @ rest) = value_run (Suc n) (AfterValue, [f]) rest"
  using assms
proof (induction n p ts rule: value_run.induct)
  case (1 n m fs)
  then show ?case by (auto simp: lift_parser_def proper_def split: if_split_asm)
next
  case (2 n p t ts)
  show ?case
  proof (cases "is_space_token t")
    case False
    with "2.prems"(1) obtain p' where p': "parse_step p t = Some p'" "length (snd p') \<le> n" "value_run n p' ts"
      by (auto split: option.split_asm)
    moreover have "fst p \<noteq> Finished" using p'(1) by (cases p) auto
    moreover have "length (snd (lift_parser f p')) \<le> Suc n" using p'(2) by (simp add: lift_parser_def)
    ultimately show ?thesis
      using "2.IH"(2) [OF False p'(1) p'(3) proper_step [OF "2.prems"(2) p'(1)] "2.prems"(3)] lift_step [OF "2.prems"(2) _ p'(1)] False "2.prems"(3)
      by simp
  qed (use 2 in simp)
qed

lemma value_then:
  assumes "value_within n v" "n < 10000"
  shows "value_run (Suc n) (WantValue, [f]) (v @ rest) = value_run (Suc n) (AfterValue, [f]) rest"
  using lift_run [OF assms(1) [unfolded value_within_def] _ assms(2), of f rest] by (simp add: lift_parser_def proper_def)

lemma lower_run:
  assumes "value_run (Suc n) (lift_parser f p) ts" "proper p" "fst p \<noteq> Finished"
  obtains v rest where "ts = v @ rest" "value_run n p v" "value_run (Suc n) (AfterValue, [f]) rest"
proof -
  have "\<exists>v rest. ts = v @ rest \<and> value_run n p v \<and> value_run (Suc n) (AfterValue, [f]) rest"
    using assms
  proof (induction ts arbitrary: p)
    case Nil
    then show ?case by (simp add: lift_parser_def split: if_split_asm)
  next
    case (Cons t ts)
    show ?case
    proof (cases "is_space_token t")
      case True
      with Cons.prems(1) have "value_run (Suc n) (lift_parser f p) ts" by simp
      from Cons.IH [OF this Cons.prems(2,3)] obtain v rest
        where "ts = v @ rest" "value_run n p v" "value_run (Suc n) (AfterValue, [f]) rest" by blast
      with True show ?thesis by (intro exI [of _ "t # v"] exI [of _ rest]) simp
    next
      case False
      with Cons.prems(1) obtain q where q: "parse_step (lift_parser f p) t = Some q" "length (snd q) \<le> Suc n" "value_run (Suc n) q ts"
        by (auto split: option.split_asm)
      from lower_step [OF Cons.prems(2,3) q(1)] obtain p' where p': "q = lift_parser f p'" "parse_step p t = Some p'" by blast
      have proper: "proper p'" and len: "length (snd p') \<le> n"
        using proper_step [OF Cons.prems(2) p'(2)] q(2) p'(1) by (simp_all add: lift_parser_def)
      show ?thesis
      proof (cases "fst p' = Finished")
        case True
        then have "q = (AfterValue, [f])" "value_run n p [t]"
          using proper p' len False by (cases p'; auto simp: lift_parser_def proper_def split: if_split_asm)+
        with q(3) show ?thesis by (intro exI [of _ "[t]"] exI [of _ ts]) simp
      next
        case fin: False
        from Cons.IH [OF _ proper fin] q(3) p'(1) obtain v rest
          where "ts = v @ rest" "value_run n p' v" "value_run (Suc n) (AfterValue, [f]) rest" by blast
        with False p'(2) len show ?thesis by (intro exI [of _ "t # v"] exI [of _ rest]) simp
      qed
    qed
  qed
  then show ?thesis using that by blast
qed

lemma value_first:
  assumes "value_run (Suc n) (WantValue, [f]) ts"
  obtains v rest where "ts = v @ rest" "value_within n v" "value_run (Suc n) (AfterValue, [f]) rest"
  using lower_run [of n f "(WantValue, [])" ts] assms that
  by (auto simp: lift_parser_def proper_def value_within_def)

section \<open>Building values\<close>

lemma join_parts_Cons: "join_parts (p # ps) = p @ (if ps = [] then [] else TComma # join_parts ps)"
  by (cases ps) simp_all

lemma obj_body_within:
  assumes "ms \<noteq> []" "\<forall>kv \<in> set ms. value_within n (snd kv)" "n < 10000"
  shows "value_run (Suc n) (WantKey, [InObj]) (join_parts (map member_tokens ms) @ [TRBrace])"
  using assms
proof (induction ms)
  case (Cons kv ms)
  let ?rest = "(if ms = [] then [] else TComma # join_parts (map member_tokens ms)) @ [TRBrace]"
  have "value_run (Suc n) (AfterValue, [InObj]) ?rest"
    using Cons by (auto simp: is_space_token_def value_done_def)
  moreover have "value_run (Suc n) (WantKey, [InObj]) (member_tokens kv @ r) = value_run (Suc n) (AfterValue, [InObj]) r" for r
    using Cons.prems by (simp add: member_tokens_def is_space_token_def value_then)
  ultimately show ?case by (simp only: list.map join_parts_Cons append_assoc map_is_Nil_conv)
qed simp

lemma obj_within: "\<forall>kv \<in> set ms. value_within n (snd kv) \<Longrightarrow> n < 10000 \<Longrightarrow> value_within (Suc n) (obj_tokens ms)"
proof -
  assume a: "\<forall>kv \<in> set ms. value_within n (snd kv)" "n < 10000"
  have start: "value_run (Suc n) (WantKeyOrEnd, [InObj]) ts = value_run (Suc n) (WantKey, [InObj]) ts"
    if "ts \<noteq> []" "\<not> is_space_token (hd ts)" "hd ts \<noteq> TRBrace" for ts
    using that by (cases ts) auto
  show ?thesis
  proof (cases ms)
    case (Cons kv ms')
    then have "value_run (Suc n) (WantKeyOrEnd, [InObj]) (join_parts (map member_tokens ms) @ [TRBrace])"
      using obj_body_within [OF _ a] start by (simp add: join_parts_Cons member_tokens_def is_space_token_def)
    then show ?thesis
      by (simp add: value_within_def obj_tokens_def is_space_token_def push_frame_def maxNestingDepth_def)
  qed (simp add: value_within_def obj_tokens_def is_space_token_def push_frame_def maxNestingDepth_def value_done_def)
qed

lemma arr_body_within:
  assumes "vs \<noteq> []" "\<forall>v \<in> set vs. value_within n v" "n < 10000"
  shows "value_run (Suc n) (WantValue, [InArr]) (join_parts vs @ [TRBrack])"
  using assms
proof (induction vs)
  case (Cons v vs)
  have "value_run (Suc n) (AfterValue, [InArr]) ((if vs = [] then [] else TComma # join_parts vs) @ [TRBrack])"
    using Cons by (auto simp: is_space_token_def value_done_def)
  with Cons.prems show ?case by (simp add: join_parts_Cons value_then)
qed simp

lemma value_within_head:
  assumes "value_within n v"
  shows "v \<noteq> []" "\<not> is_space_token (hd v) \<Longrightarrow> hd v \<noteq> TRBrack \<and> hd v \<noteq> TRBrace \<and> hd v \<noteq> TComma"
  using assms by (cases v; auto simp: value_within_def split: option.split_asm)+

lemma arr_within:
  assumes "\<forall>v \<in> set vs. value_within n v \<and> \<not> is_space_token (hd v)" "n < 10000"
  shows "value_within (Suc n) (arr_tokens vs)"
proof (cases vs)
  case (Cons v vs')
  have start: "value_run (Suc n) (WantValueOrEnd, [InArr]) ts = value_run (Suc n) (WantValue, [InArr]) ts"
    if "ts \<noteq> []" "\<not> is_space_token (hd ts)" "hd ts \<noteq> TRBrack" for ts
    using that by (cases ts) auto
  have "value_run (Suc n) (WantValueOrEnd, [InArr]) (join_parts vs @ [TRBrack])"
    using arr_body_within [of vs n] start Cons assms value_within_head [of n v] by (auto simp: join_parts_Cons)
  then show ?thesis
    by (simp add: value_within_def arr_tokens_def is_space_token_def push_frame_def maxNestingDepth_def)
qed (simp add: value_within_def arr_tokens_def is_space_token_def push_frame_def maxNestingDepth_def value_done_def)

section \<open>Taking values apart\<close>

lemma step_nest: "parse_step p t = Some p' \<Longrightarrow> int (length (snd p')) = int (length (snd p)) + nest t \<and> (t = TComma \<longrightarrow> fst p = AfterValue)"
proof -
  assume step: "parse_step p t = Some p'"
  obtain m fs where mf: "p = (m, fs)" by (cases p)
  show ?thesis
    using step unfolding mf
    by (cases m; cases t; cases fs rule: next_part.cases)
      (auto simp: nest_def push_frame_def value_done_def split: if_split_asm)
qed

lemma split_value:
  assumes "value_run n p ts" "proper p" "0 \<le> d"
  shows "split_parts (d + int (length (snd p))) acc (ts @ rest) = split_parts d (rev ts @ acc) rest"
  using assms
proof (induction n p ts arbitrary: acc rule: value_run.induct)
  case (1 n m fs)
  then show ?case by (auto simp: proper_def split: if_split_asm)
next
  case (2 n p t ts)
  show ?case
  proof (cases "is_space_token t")
    case True
    then have "t \<noteq> TComma" "nest t = 0" by (auto simp: is_space_token_def nest_def split: token.split_asm)
    with True "2.IH"(1) [OF True] "2.prems" show ?thesis by simp
  next
    case False
    with "2.prems"(1) obtain p' where p': "parse_step p t = Some p'" "value_run n p' ts" by (auto split: option.split_asm)
    have "\<not> (t = TComma \<and> d + int (length (snd p)) = 0)"
      using step_nest [OF p'(1)] "2.prems"(2,3) by (cases "snd p") (auto simp: proper_def split: if_split_asm)
    with step_nest [OF p'(1)] "2.IH"(2) [OF False p'(1) p'(2) proper_step [OF "2.prems"(2) p'(1)] "2.prems"(3)]
    show ?thesis by (auto simp: algebra_simps)
  qed
qed

definition one_part :: "raw \<Rightarrow> bool" where
  "one_part p \<longleftrightarrow> (\<forall>acc rest. split_parts 0 acc (p @ rest) = split_parts 0 (rev p @ acc) rest)"

lemma value_one_part: "value_within n v \<Longrightarrow> one_part v"
  using split_value [of n "(WantValue, [])" v 0] by (simp add: one_part_def value_within_def proper_def)

lemma member_one_part: "value_within n (snd kv) \<Longrightarrow> one_part (member_tokens kv)"
  using value_one_part [of n "snd kv"] by (simp add: one_part_def member_tokens_def nest_def)

lemma split_join:
  assumes "ps \<noteq> []" "\<forall>p \<in> set ps. one_part p"
  shows "split_parts 0 [] (join_parts ps) = ps"
  using assms
proof (induction ps)
  case (Cons p ps)
  have p: "split_parts 0 acc (p @ rest) = split_parts 0 (rev p @ acc) rest" for acc rest
    using Cons.prems by (simp add: one_part_def)
  show ?case
  proof (cases ps)
    case Nil
    then show ?thesis using p [of "[]" "[]"] by simp
  next
    case (Cons q qs)
    then have "split_parts 0 [] (join_parts ps) = ps" using Cons.IH Cons.prems by simp
    then show ?thesis using p [of "[]" "TComma # join_parts ps"] Cons by simp
  qed
qed simp

definition stripped :: "raw \<Rightarrow> bool" where
  "stripped v \<longleftrightarrow> v \<noteq> [] \<and> \<not> is_space_token (hd v) \<and> \<not> is_space_token (last v)"

lemma strip_stripped: "stripped v \<Longrightarrow> strip v = v"
proof -
  assume v: "stripped v"
  have drop: "dropWhile is_space_token ts = ts" if "ts \<noteq> []" "\<not> is_space_token (hd ts)" for ts
    using that by (cases ts) auto
  show ?thesis using v by (simp add: strip_def stripped_def drop hd_rev)
qed

lemma stripped_no_space: "no_space v = v \<Longrightarrow> v \<noteq> [] \<Longrightarrow> stripped v"
proof -
  assume v: "no_space v = v" "v \<noteq> []"
  have "\<not> is_space_token t" if "t \<in> set v" for t
    using v(1) that filter_id_conv [of "\<lambda>t. \<not> is_space_token t" v] by (auto simp: no_space_def)
  with v(2) show ?thesis by (simp add: stripped_def)
qed

lemma wrapped_inner:
  assumes "\<not> is_space_token a" "\<not> is_space_token b"
  shows "inner (a # body @ [b]) = body"
  using strip_stripped [of "a # body @ [b]"] assms by (simp add: inner_def stripped_def)

lemma elements_wrapped:
  assumes "\<not> is_space_token a" "\<not> is_space_token b" "\<forall>p \<in> set ps. one_part p \<and> stripped p"
  shows "elements (a # join_parts ps @ [b]) = ps"
proof (cases ps)
  case (Cons p ps')
  have "strip (join_parts ps) \<noteq> []"
    using assms(3) Cons by (auto simp: strip_empty no_space_def stripped_def join_parts_Cons filter_empty_conv)
  moreover have "map strip ps = ps" using assms(3) strip_stripped by (intro map_idI) blast
  ultimately show ?thesis using Cons assms split_join [of ps]
    by (simp add: elements_def wrapped_inner)
next
  case Nil
  then show ?thesis using wrapped_inner [of a b "[]"] assms by (simp add: elements_def strip_def)
qed

lemma members_obj:
  assumes "\<forall>kv \<in> set ms. value_within n (snd kv) \<and> stripped (snd kv)"
  shows "members (obj_tokens ms) = map (apfst unquote) ms" "is_object (obj_tokens ms)"
proof -
  have "elements (obj_tokens ms) = map member_tokens ms"
    unfolding obj_tokens_def using assms member_one_part
    by (intro elements_wrapped) (auto simp: is_space_token_def stripped_def member_tokens_def)
  moreover have "member (member_tokens kv) = apfst unquote kv" if "kv \<in> set ms" for kv
    using assms that strip_stripped [of "snd kv"] by (cases kv) (auto simp: member_def member_tokens_def)
  ultimately show "members (obj_tokens ms) = map (apfst unquote) ms" by (simp add: members_def)
  have "strip (obj_tokens ms) = obj_tokens ms"
    by (rule strip_stripped) (simp add: stripped_def obj_tokens_def is_space_token_def)
  then show "is_object (obj_tokens ms)" by (simp add: is_object_def obj_tokens_def)
qed

lemma elements_arr:
  assumes "\<forall>v \<in> set vs. value_within n v \<and> stripped v"
  shows "elements (arr_tokens vs) = vs" "is_array (arr_tokens vs)"
proof -
  show "elements (arr_tokens vs) = vs"
    unfolding arr_tokens_def using assms value_one_part by (intro elements_wrapped) (auto simp: is_space_token_def)
  have "strip (arr_tokens vs) = arr_tokens vs"
    by (rule strip_stripped) (simp add: stripped_def arr_tokens_def is_space_token_def)
  then show "is_array (arr_tokens vs)" by (simp add: is_array_def arr_tokens_def)
qed

lemma finished_run: "value_run n (Finished, fs) ts \<Longrightarrow> no_space ts = ts \<Longrightarrow> ts = []"
proof (cases ts)
  case (Cons t us)
  assume a: "value_run n (Finished, fs) ts" "no_space ts = ts"
  have "\<not> is_space_token t" using a(2) Cons filter_id_conv [of "\<lambda>t. \<not> is_space_token t" ts] by (simp add: no_space_def)
  with a(1) Cons show ?thesis by simp
qed

text \<open>Conversely, an object without white space is put together from its members.\<close>

lemma obj_body_parts:
  assumes "value_run (Suc n) (WantKey, [InObj]) ts" "no_space ts = ts"
  shows "\<exists>ms. ms \<noteq> [] \<and> ts = join_parts (map member_tokens ms) @ [TRBrace] \<and> (\<forall>kv \<in> set ms. value_within n (snd kv))"
  using assms
proof (induction "length ts" arbitrary: ts rule: less_induct)
  case less
  have sp: "\<not> is_space_token t" if "t \<in> set ts" for t
    using less.prems(2) that filter_id_conv [of "\<lambda>t. \<not> is_space_token t" ts] by (auto simp: no_space_def)
  obtain k ts2 where ts: "ts = TStr k # TColon # ts2" "value_run (Suc n) (WantValue, [InObj]) ts2"
  proof -
    obtain t ts1 where t: "ts = t # ts1" using less.prems(1) by (cases ts) auto
    with less.prems(1) sp obtain k where k: "t = TStr k" "value_run (Suc n) (WantColon, [InObj]) ts1"
      by (cases t) (auto split: option.split_asm)
    then obtain u ts2 where "ts1 = u # ts2" by (cases ts1) auto
    with k t sp that show ?thesis by (cases "u = TColon") auto
  qed
  obtain v rest where v: "ts2 = v @ rest" "value_within n v" "value_run (Suc n) (AfterValue, [InObj]) rest"
    by (rule value_first [OF ts(2)])
  obtain u rest' where u: "rest = u # rest'" using v(3) by (cases rest) auto
  have spu: "\<not> is_space_token u" using sp ts v u by simp
  show ?case
  proof (cases "u = TComma")
    case True
    then have "value_run (Suc n) (WantKey, [InObj]) rest'" using v(3) u spu by (auto split: option.split_asm)
    moreover have "no_space rest' = rest'"
      unfolding no_space_def using sp ts v u by (intro filter_True) auto
    ultimately obtain ms where ms: "ms \<noteq> []" "rest' = join_parts (map member_tokens ms) @ [TRBrace]" "\<forall>kv \<in> set ms. value_within n (snd kv)"
      using less.hyps [of rest'] ts v u by auto
    show ?thesis
      using ms v u ts True by (intro exI [of _ "(k, v) # ms"]) (simp add: join_parts_Cons, simp add: member_tokens_def)
  next
    case False
    with v(3) u spu have "u = TRBrace" "value_run (Suc n) (Finished, []) rest'"
      by (cases u; auto simp: value_done_def split: option.split_asm)+
    moreover have "no_space rest' = rest'"
      unfolding no_space_def using sp ts v u by (intro filter_True) auto
    ultimately have "u = TRBrace" "rest' = []" using finished_run by auto
    with v u ts show ?thesis by (intro exI [of _ "[(k, v)]"]) (simp add: member_tokens_def)
  qed
qed

lemma object_parts:
  assumes "value_within (Suc n) r" "no_space r = r" "is_object r"
  obtains ms where "r = obj_tokens ms" "\<forall>kv \<in> set ms. value_within n (snd kv) \<and> no_space (snd kv) = snd kv"
proof -
  have "r \<noteq> []" using assms(1) by (rule value_within_head)
  with stripped_no_space [OF assms(2)] strip_stripped assms(3) obtain ts where r: "r = TLBrace # ts"
    by (cases r) (auto simp: is_object_def)
  have ts: "no_space ts = ts" using assms(2) r by (simp add: no_space_def is_space_token_def)
  have run: "value_run (Suc n) (WantKeyOrEnd, [InObj]) ts"
    using assms(1) r by (auto simp: value_within_def is_space_token_def push_frame_def split: if_split_asm)
  then obtain t ts' where t: "ts = t # ts'" by (cases ts) auto
  then have sp: "\<not> is_space_token t" using ts by (auto simp: no_space_def dest: filter_eq_ConsD)
  have inner: "no_space (snd kv) = snd kv" if "r = obj_tokens ms" "kv \<in> set ms" for ms kv
  proof -
    have "set (snd kv) \<subseteq> set (join_parts (map member_tokens ms))"
      using that(2) by (induction ms) (auto simp: join_parts_Cons member_tokens_def split: if_split_asm)
    then have "set (snd kv) \<subseteq> set r" using that(1) by (auto simp: obj_tokens_def)
    moreover have "\<not> is_space_token t" if "t \<in> set r" for t
      using assms(2) that filter_id_conv [of "\<lambda>t. \<not> is_space_token t" r] by (auto simp: no_space_def)
    ultimately show ?thesis unfolding no_space_def by (intro filter_True) auto
  qed
  show ?thesis
  proof (cases "t = TRBrace")
    case True
    then have "value_run (Suc n) (Finished, []) ts'" using run t by (auto simp: is_space_token_def value_done_def)
    moreover have "no_space ts' = ts'" using ts t sp by (simp add: no_space_def)
    ultimately have "ts' = []" by (rule finished_run)
    with that [of "[]"] r t True show ?thesis by (simp add: obj_tokens_def)
  next
    case False
    with run t sp have "value_run (Suc n) (WantKey, [InObj]) ts" by simp
    from obj_body_parts [OF this ts] obtain ms where "ts = join_parts (map member_tokens ms) @ [TRBrace]" "\<forall>kv \<in> set ms. value_within n (snd kv)"
      by blast
    with that [of ms] r inner show ?thesis by (simp add: obj_tokens_def)
  qed
qed

lemma members_wf:
  assumes "value_within (Suc n) r" "is_object r" "list_all wf_token r" "(k, v) \<in> set (members r)"
  shows "utf8_valid k \<and> value_within n v \<and> list_all wf_token (no_space v)"
proof -
  have "is_object (no_space r)" using assms(2) by simp
  from object_parts [OF _ _ this] assms(1) obtain ms where ms: "no_space r = obj_tokens ms"
    "\<forall>kv \<in> set ms. value_within n (snd kv) \<and> no_space (snd kv) = snd kv" by auto
  have "\<forall>kv \<in> set ms. value_within n (snd kv) \<and> stripped (snd kv)"
    using ms(2) value_within_head(1) stripped_no_space by blast
  from members_obj(1) [OF this] ms(1) have "map (apsnd no_space) (members r) = map (apfst unquote) ms"
    by (simp flip: members_no_space)
  then have "apsnd no_space ` set (members r) = apfst unquote ` set ms" by (metis set_map)
  with imageI [OF assms(4), of "apsnd no_space"] obtain kb w where kw: "(kb, w) \<in> set ms" "k = unquote kb" "no_space v = w" by auto
  have "set (member_tokens (kb, w)) \<subseteq> set (join_parts (map member_tokens ms))"
    using kw(1) by (induction ms) (auto simp: join_parts_Cons)
  then have "insert (TStr kb) (set w) \<subseteq> set (no_space r)" unfolding ms(1) obj_tokens_def by (auto simp: member_tokens_def)
  with no_space_wf [OF assms(3)] have "wf_token (TStr kb)" "list_all wf_token w" by (auto simp: list_all_iff)
  with kw ms(2) value_within_no_space [of n v] unquote_valid [of kb] show ?thesis by (auto simp: wf_string simp del: str_ok.simps)
qed

section \<open>Maps of raw messages\<close>

text \<open>
  A \<open>map[string]json.RawMessage\<close> is the list of its assignments, the last one of a key counting.
  \<open>json.Marshal\<close> writes the keys in order, and every value without its white space.
\<close>

definition map_entries :: "(string \<times> raw) list \<Rightarrow> (string \<times> raw) list" where
  "map_entries ms = map (\<lambda>k. (k, map_get ms k)) (sort (remdups (map fst ms)))"

definition written :: "raw \<Rightarrow> raw" where
  "written v = map html_token (no_space v)"

definition marshal_map :: "(string \<times> raw) list \<Rightarrow> raw" where
  "marshal_map ms = obj_tokens (map (\<lambda>(k, v). (json_quote k, written v)) (map_entries ms))"

definition marshal_string :: "string \<Rightarrow> raw" where
  "marshal_string s = [TStr (json_quote s)]"

lemma html_token_step: "parse_step p (html_token t) = parse_step p t \<and> is_space_token (html_token t) = is_space_token t"
proof -
  obtain m fs where p: "p = (m, fs)" by (cases p)
  show ?thesis unfolding p by (cases t; cases m; cases fs rule: next_part.cases) (auto simp: is_space_token_def)
qed

lemma value_run_html: "value_run n p (map html_token ts) = value_run n p ts"
  by (induction n p ts rule: value_run.induct) (auto simp: html_token_step split: option.split)

lemma written_within [simp]: "value_within n (written v) = value_within n v"
  by (simp add: written_def value_within_def value_run_html)

lemma no_space_written [simp]: "no_space (written v) = written v"
  unfolding written_def no_space_def by (auto simp: html_token_step intro!: filter_True)

lemma written_stripped: "value_within n v \<Longrightarrow> stripped (written v)"
  using stripped_no_space [OF no_space_written] value_within_head(1) [of n "written v"] by simp

lemma written_wf: "list_all wf_token (no_space v) \<Longrightarrow> list_all wf_token (written v)"
proof -
  have "wf_token (html_token t)" if "wf_token t" for t
    using that html_escape_ok by (cases t) (simp_all add: wf_string del: str_ok.simps)
  then show "list_all wf_token (no_space v) \<Longrightarrow> list_all wf_token (written v)"
    by (simp add: written_def list_all_iff)
qed

text \<open>A value that was put together is read as it is.\<close>

lemma json_read_tokens:
  assumes "value_within n ts" "n \<le> 10000" "list_all wf_token ts" "no_space ts = ts"
  shows "json_read (raw_text ts) = Some ts"
proof -
  have "is_value ts" using value_within_mono [OF assms(1,2)] by (simp add: is_value_within)
  moreover from this have "separated ts" using parse_run_separated [of "(WantValue, [])" ts] assms(4) by (simp add: is_value_def)
  ultimately show ?thesis using relex [OF assms(3)] by (simp add: json_read_def)
qed

lemma map_get_last: "map_get (ms @ [(k, v)]) key = (if key = k then v else map_get ms key)"
  by (simp add: map_get_def)

lemma map_entries_get: "k \<in> fst ` set ms \<Longrightarrow> map_get (map_entries ms) k = map_get ms k"
proof -
  assume k: "k \<in> fst ` set ms"
  let ?ks = "sort (remdups (map fst ms))"
  have "map_of (rev (map (\<lambda>k. (k, map_get ms k)) ?ks)) k = Some (map_get ms k)"
    using k by (simp add: rev_map map_of_map_restrict)
  then show ?thesis by (simp add: map_get_def map_entries_def)
qed

lemma map_entries_keys: "fst ` set (map_entries ms) = fst ` set ms"
  by (simp add: map_entries_def image_image)

lemma map_get_in: "k \<in> fst ` set ms \<Longrightarrow> (k, map_get ms k) \<in> set ms"
proof -
  assume "k \<in> fst ` set ms"
  then obtain v where "map_of (rev ms) k = Some v"
    using map_of_eq_None_iff [of "rev ms" k] by (cases "map_of (rev ms) k") auto
  then show ?thesis by (auto simp: map_get_def dest: map_of_SomeD)
qed

lemma map_entries_sub: "(k, v) \<in> set (map_entries ms) \<Longrightarrow> (k, v) \<in> set ms"
proof -
  assume "(k, v) \<in> set (map_entries ms)"
  then have "v = map_get ms k" "k \<in> fst ` set ms" by (auto simp: map_entries_def)
  with map_get_in show ?thesis by blast
qed

lemma marshal_map_reads:
  assumes "\<forall>(k, v) \<in> set ms. utf8_valid k \<and> value_within n v \<and> list_all wf_token (no_space v)" "n < 10000"
  shows "json_read (raw_text (marshal_map ms)) = Some (marshal_map ms)"
    "decode_map (marshal_map ms) = Some (Some (map (apsnd written) (map_entries ms)))"
    "value_within (Suc n) (marshal_map ms)" "list_all wf_token (marshal_map ms)" "no_space (marshal_map ms) = marshal_map ms"
proof -
  let ?es = "map (\<lambda>(k, v). (json_quote k, written v)) (map_entries ms)"
  have es: "utf8_valid k \<and> value_within n v \<and> list_all wf_token (no_space v)" if "(k, v) \<in> set (map_entries ms)" for k v
    using map_entries_sub [OF that] assms(1) by blast
  have ok: "\<forall>kv \<in> set ?es. value_within n (snd kv) \<and> stripped (snd kv)"
    using es written_stripped [of n] by fastforce
  then show within: "value_within (Suc n) (marshal_map ms)"
    unfolding marshal_map_def using assms(2) by (intro obj_within) auto
  have toks: "set (join_parts ps) \<subseteq> {TComma} \<union> \<Union> (set ` set ps)" for ps
    by (induction ps rule: join_parts.induct) auto
  have mem: "t = TComma \<or> t = TColon \<or> t \<in> {TLBrace, TRBrace} \<or>
      (\<exists>(k, v) \<in> set (map_entries ms). t = TStr (json_quote k) \<or> t \<in> set (written v))"
    if "t \<in> set (marshal_map ms)" for t
    using that toks [of "map member_tokens ?es"] by (fastforce simp: marshal_map_def obj_tokens_def member_tokens_def)
  show wf: "list_all wf_token (marshal_map ms)"
    unfolding list_all_iff
  proof
    fix t
    assume "t \<in> set (marshal_map ms)"
    from mem [OF this] consider "t \<in> {TComma, TColon, TLBrace, TRBrace}"
      | k v where "(k, v) \<in> set (map_entries ms)" "t = TStr (json_quote k) \<or> t \<in> set (written v)" by auto
    then show "wf_token t"
    proof cases
      case 1
      then show ?thesis by (auto simp: wf_token_def)
    next
      case 2
      with es written_wf [of v] json_quote_ok [of k] show ?thesis
        unfolding list_all_iff by (auto simp: wf_string simp del: str_ok.simps)
    qed
  qed
  have "\<not> is_space_token t" if "t \<in> set (marshal_map ms)" for t
  proof -
    have "\<not> is_space_token t" if "t \<in> set (written v)" for v
      using that no_space_written [of v] filter_id_conv [of "\<lambda>t. \<not> is_space_token t" "written v"] by (auto simp: no_space_def)
    with mem [OF that] show ?thesis by (auto simp: is_space_token_def)
  qed
  then show no_space: "no_space (marshal_map ms) = marshal_map ms" by (simp add: no_space_def)
  with json_read_tokens [OF within _ wf] assms(2) show "json_read (raw_text (marshal_map ms)) = Some (marshal_map ms)" by simp
  have "members (marshal_map ms) = map (apfst unquote) ?es" "is_object (marshal_map ms)"
    unfolding marshal_map_def using members_obj [OF ok] by blast+
  moreover have "map (apfst unquote) ?es = map (apsnd written) (map_entries ms)"
    using es unquote_quote by (auto simp: split_beta)
  ultimately show "decode_map (marshal_map ms) = Some (Some (map (apsnd written) (map_entries ms)))"
    by (simp add: decode_map_def)
qed

text \<open>What a value decodes to does not depend on how it is written.\<close>

lemma decode_string_written:
  assumes wf: "list_all wf_token (no_space v)"
  shows "decode_string old (written v) = decode_string old v"
proof -
  have "strip (written v) = written v"
    using strip_no_space [of "written v"] by simp
  moreover have "scalar v = (case no_space v of [t] \<Rightarrow> Some t | _ \<Rightarrow> None)"
    using scalar_no_space [of v] strip_no_space [of v] by (simp add: scalar_def)
  ultimately show ?thesis
    using html_escape_ok wf
    by (cases "no_space v" rule: remdups_adj.cases)
      (auto simp: decode_string_def scalar_def written_def wf_string split: token.split simp del: str_ok.simps)
qed

section \<open>Numbers\<close>

fun nat_text :: "nat \<Rightarrow> string" where
  "nat_text n = (if n < 10 then [char_of (48 + n)] else nat_text (n div 10) @ [char_of (48 + n mod 10)])"

declare nat_text.simps [simp del]

definition int_text :: "int \<Rightarrow> string" where
  "int_text n = (if n < 0 then ''-'' @ nat_text (nat (- n)) else nat_text (nat n))"

lemma digit_of: "d < 10 \<Longrightarrow> is_digit_char (char_of (48 + d :: nat))"
  by (simp add: is_digit_char_def)

lemma nat_text_digits: "list_all is_digit_char (nat_text n)" "nat_text n \<noteq> []" "digits_value a (nat_text n) = a * 10 ^ length (nat_text n) + n"
    "0 < n \<Longrightarrow> hd (nat_text n) \<noteq> CHR ''0''"
proof -
  have "list_all is_digit_char (nat_text n) \<and> nat_text n \<noteq> [] \<and> (\<forall>a. digits_value a (nat_text n) = a * 10 ^ length (nat_text n) + n) \<and>
      (0 < n \<longrightarrow> hd (nat_text n) \<noteq> CHR ''0'')"
  proof (induction n rule: nat_text.induct)
    case (1 n)
    have app: "digits_value a (xs @ [c]) = digits_value a xs * 10 + (of_char c - 48)" for a xs c
      by (induction xs arbitrary: a) simp_all
    show ?case
    proof (cases "n < 10")
      case True
      have "char_of (48 + n) \<noteq> CHR ''0''" if "0 < n"
      proof
        assume "char_of (48 + n) = CHR ''0''"
        then have "of_char (char_of (48 + n) :: char) = (48 :: nat)" by simp
        with True that show False by simp
      qed
      with True show ?thesis by (simp add: nat_text.simps [of n] digit_of)
    next
      case False
      with 1 have IH: "list_all is_digit_char (nat_text (n div 10))" "nat_text (n div 10) \<noteq> []"
        "\<And>a. digits_value a (nat_text (n div 10)) = a * 10 ^ length (nat_text (n div 10)) + n div 10"
        "hd (nat_text (n div 10)) \<noteq> CHR ''0''" by auto
      from False IH show ?thesis
        by (simp add: nat_text.simps [of n] digit_of app algebra_simps)
    qed
  qed
  then show "list_all is_digit_char (nat_text n)" "nat_text n \<noteq> []" "digits_value a (nat_text n) = a * 10 ^ length (nat_text n) + n"
    "0 < n \<Longrightarrow> hd (nat_text n) \<noteq> CHR ''0''" by blast+
qed

lemma num_run_digits: "list_all is_digit_char ds \<Longrightarrow> num_run NumInt ds"
  by (induction ds) auto

lemma nat_text_number: "num_run NumNeg (nat_text n)"
proof (cases "n = 0")
  case True
  have "num_run NumNeg (nat_text 0)" by code_simp
  with True show ?thesis by simp
next
  case False
  with nat_text_digits [of n] obtain c cs where c: "nat_text n = c # cs" "is_digit_char c" "c \<noteq> CHR ''0''" "list_all is_digit_char cs"
    by (cases "nat_text n") auto
  then show ?thesis using num_run_digits by simp
qed

lemma lex_number: "list_all is_num_char cs \<Longrightarrow> lex_steps (LexNum acc) cs = Some (LexNum (rev cs @ acc), [])"
  by (induction cs arbitrary: acc) simp_all

lemma lex_first_number: "is_digit_char c \<or> c = CHR ''-'' \<Longrightarrow> lex_first c = Some (LexNum [c], [])"
proof -
  assume c: "is_digit_char c \<or> c = CHR ''-''"
  then have "\<not> is_json_space c" "map_of punctuation c = None" "c \<noteq> CHR 0x22"
    by (auto simp: is_json_space_def punctuation_def is_digit_char_def)
  with c show ?thesis by (auto simp: lex_first_def)
qed

lemma int_text_ok: "wf_token (TNum (int_text n))"
proof -
  obtain c cs where c: "int_text n = c # cs" "is_digit_char c \<or> c = CHR ''-''" "list_all is_num_char cs"
  proof (cases "n < 0")
    case True
    then show ?thesis using that [of "CHR ''-''"] nat_text_digits(1) [of "nat (- n)"]
      by (auto simp: int_text_def list_all_iff is_num_char_def)
  next
    case False
    then show ?thesis using that nat_text_digits(1,2) [of "nat n"]
      by (cases "nat_text (nat n)") (auto simp: int_text_def list_all_iff is_num_char_def)
  qed
  have "valid_number (int_text n)"
  proof (cases "n < 0")
    case False
    then have "\<not> c = CHR ''-''" using c(1) nat_text_digits(1,2) [of "nat n"] by (cases "nat_text (nat n)") (auto simp: int_text_def is_digit_char_def)
    with False c(1) nat_text_number [of "nat n"] show ?thesis by (simp add: valid_number_def int_text_def)
  qed (simp add: valid_number_def int_text_def nat_text_number)
  moreover have "lex_steps LexStart (int_text n) = Some (LexNum (rev (int_text n)), [])"
    using c lex_first_number lex_number by simp
  ultimately show ?thesis by (simp add: wf_token_def)
qed

lemma parse_int_text: "is_int64 n \<Longrightarrow> parse_int64 (int_text n) = Some n"
proof -
  assume n: "is_int64 n"
  have "take 1 (nat_text m) \<noteq> ''-''" for m
    using nat_text_digits(1,2) [of m] by (cases "nat_text m") (auto simp: is_digit_char_def)
  with n nat_text_digits show ?thesis
    by (auto simp: parse_int64_def int_text_def Let_def)
qed

end
