(* ===== verification/CompatBody.thy ===== *)
theory CompatBody
  imports ChatRequest JsonEncode
begin

text \<open>
  What an OpenAI-compatible provider is sent (\<open>compatibleRequestBody\<close> and
  \<open>compatibleStreamRequestBody\<close> of \<open>internal/provider/chat_request.go\<close>): the client's body with the
  model replaced and, for a stream, with the stream switched on.
\<close>

definition compatibleRequestBody :: "chat_request chat_input \<Rightarrow> goerr + string" where
  "compatibleRequestBody input =
     (if ciModelOverride input = [] then Inr (crRawBody (ciRequest input))
      else case Option.bind (json_read (crRawBody (ciRequest input))) decode_map of
        Some (Some payload) \<Rightarrow>
          (let model = trim_space (ciModelOverride input) in
           if model = [] then Inl invalid_request
           else Inr (raw_text (marshal_map (payload @ [(''model'', marshal_string model)]))))
      | _ \<Rightarrow> Inl invalid_request)"

definition stream_options :: "(string \<times> raw) list \<Rightarrow> goerr + (string \<times> raw) list" where
  "stream_options payload =
     (let rawOptions = map_get payload ''stream_options'' in
      if \<not> valuePresent rawOptions then Inr []
      else case decode_map rawOptions of Some (Some options) \<Rightarrow> Inr options | _ \<Rightarrow> Inl invalid_request)"

definition compatibleStreamRequestBody :: "chat_request chat_input \<Rightarrow> bool \<Rightarrow> goerr + string" where
  "compatibleStreamRequestBody input includeUsage =
     (case compatibleRequestBody input of
        Inl err \<Rightarrow> Inl err
      | Inr body \<Rightarrow>
          (case Option.bind (json_read body) decode_map of
             Some (Some payload0) \<Rightarrow>
               (let payload = payload0 @ [(''stream'', [TTrue])] in
                if \<not> includeUsage then Inr (raw_text (marshal_map payload))
                else
                  (case stream_options payload of
                     Inl err \<Rightarrow> Inl err
                   | Inr options \<Rightarrow>
                       Inr (raw_text (marshal_map
                         (payload @ [(''stream_options'', marshal_map (options @ [(''include_usage'', [TTrue])]))])))))
           | _ \<Rightarrow> Inl invalid_request))"

section \<open>Everything else is forwarded\<close>

text \<open>A payload whose members the encoder can write.\<close>

definition body_ok :: "nat \<Rightarrow> (string \<times> raw) list \<Rightarrow> bool" where
  "body_ok n ms \<longleftrightarrow> (\<forall>(k, v) \<in> set ms. utf8_valid k \<and> value_within n v \<and> list_all wf_token (no_space v))"

lemma read_payload:
  assumes "json_read body = Some ts" "is_object ts"
  shows "body_ok 9999 (members ts)"
proof -
  have "value_within (Suc 9999) ts" "list_all wf_token ts"
    using assms(1) json_tokens_wf is_value_within by (auto simp: json_read_def split: option.split_asm if_split_asm)
  then show ?thesis unfolding body_ok_def using members_wf [OF _ assms(2)] by blast
qed

lemma body_ok_append: "body_ok n (ms @ ns) \<longleftrightarrow> body_ok n ms \<and> body_ok n ns"
  by (auto simp: body_ok_def)

lemma marshal_string_payload:
  assumes "utf8_valid k"
  shows "body_ok n [(k, marshal_string s)]" "body_ok n [(k, [TTrue])]"
  using assms json_quote_ok [of s]
  by (auto simp: body_ok_def value_within_def marshal_string_def is_space_token_def value_done_def no_space_def wf_string wf_token_def [of TTrue]
      simp del: str_ok.simps)

lemma map_get_apsnd:
  assumes "k \<in> fst ` set xs"
  shows "map_get (map (apsnd f) xs) k = f (map_get xs k)"
proof -
  have "map_of (rev (map (apsnd f) xs)) k = map_option f (map_of (rev xs) k)"
    by (simp add: rev_map apsnd_def map_prod_def map_of_map split_beta)
  moreover have "map_of (rev xs) k \<noteq> None" using assms by (simp add: map_of_eq_None_iff)
  ultimately show ?thesis by (auto simp: map_get_def split: option.split)
qed

lemma read_marshalled:
  assumes "body_ok n ms" "n < 10000"
  shows "json_read (raw_text (marshal_map ms)) = Some (marshal_map ms)" "is_object (marshal_map ms)"
    "fst ` set (members (marshal_map ms)) = fst ` set ms"
    "k \<in> fst ` set ms \<Longrightarrow> map_get (members (marshal_map ms)) k = written (map_get ms k)"
proof -
  note r = marshal_map_reads [OF assms(1) [unfolded body_ok_def] assms(2)]
  then have m: "is_object (marshal_map ms)" "members (marshal_map ms) = map (apsnd written) (map_entries ms)"
    by (auto simp: decode_map_def split: if_split_asm)
  show "json_read (raw_text (marshal_map ms)) = Some (marshal_map ms)" by (rule r)
  show "is_object (marshal_map ms)" by (rule m)
  show "fst ` set (members (marshal_map ms)) = fst ` set ms" by (simp add: m image_image map_entries_keys)
  show "map_get (members (marshal_map ms)) k = written (map_get ms k)" if "k \<in> fst ` set ms"
    using that map_get_apsnd map_entries_get [OF that] map_entries_keys [of ms] by (simp add: m)
qed

lemma parsed_body:
  assumes "ParseChatRequest body = Returns (Inr req)"
  obtains ts where "json_read body = Some ts" "is_object ts" "crRawBody req = body"
proof -
  from assms obtain ts where "json_read body = Some ts" "is_object ts"
    by (auto simp: ParseChatRequest_def decode_map_def split: option.split_asm if_split_asm)
  with parsed_request_body [OF assms] that show ?thesis by blast
qed

lemma utf8_names: "utf8_valid ''model''" "utf8_valid ''stream''" "utf8_valid ''stream_options''" "utf8_valid ''include_usage''"
  by code_simp+

text \<open>
  Claim C28: a compatible provider is sent the client's request. When a request that was parsed is routed
  to another model, the body has the members the client sent, each with the value it had (up to white
  space and the spelling of escaped characters), and the model of the route.
\<close>
theorem compatible_body_forwards:
  assumes "ParseChatRequest body = Returns (Inr req)" "trim_space model \<noteq> []" "utf8_valid (trim_space model)"
  shows "\<exists>ts out ts'. json_read body = Some ts \<and>
    compatibleRequestBody \<lparr>ciRequestID = rid, ciRequest = req, ciModelOverride = model\<rparr> = Inr out \<and> json_read out = Some ts' \<and> is_object ts' \<and>
    fst ` set (members ts') = insert ''model'' (fst ` set (members ts)) \<and>
    decode_string [] (map_get (members ts') ''model'') = Some (trim_space model) \<and>
    (\<forall>k \<in> fst ` set (members ts). k \<noteq> ''model'' \<longrightarrow>
       map_get (members ts') k = written (map_get (members ts) k) \<and>
       decode_string [] (map_get (members ts') k) = decode_string [] (map_get (members ts) k))"
proof -
  obtain ts where ts: "json_read body = Some ts" "is_object ts" "crRawBody req = body" by (rule parsed_body [OF assms(1)])
  let ?ms = "members ts @ [(''model'', marshal_string (trim_space model))]"
  have ok: "body_ok 9999 (members ts)" by (rule read_payload [OF ts(1,2)])
  then have payload: "body_ok 9999 ?ms" using marshal_string_payload(1) utf8_names by (simp add: body_ok_append)
  note out = read_marshalled [OF payload, simplified]
  have "model \<noteq> []" using assms(2) by (auto simp: trim_space_Nil)
  then have "compatibleRequestBody \<lparr>ciRequestID = rid, ciRequest = req, ciModelOverride = model\<rparr> = Inr (raw_text (marshal_map ?ms))"
    using ts assms(2) by (simp add: compatibleRequestBody_def decode_map_def Let_def)
  moreover have "decode_string [] (map_get (members (marshal_map ?ms)) ''model'') = Some (trim_space model)"
    using out(4) [of "''model''"] decode_string_written [of "marshal_string (trim_space model)" "[]"] json_quote_ok unquote_quote [OF assms(3)]
    by (simp add: map_get_last marshal_string_def no_space_def is_space_token_def wf_string decode_string_def scalar_def strip_def del: str_ok.simps)
  moreover have "map_get (members (marshal_map ?ms)) k = written (map_get (members ts) k) \<and>
      decode_string [] (map_get (members (marshal_map ?ms)) k) = decode_string [] (map_get (members ts) k)"
    if "k \<in> fst ` set (members ts)" "k \<noteq> ''model''" for k
  proof -
    have "list_all wf_token (no_space (map_get (members ts) k))" using map_get_in [OF that(1)] ok by (auto simp: body_ok_def)
    with out(4) [of k] that show ?thesis by (simp add: map_get_last decode_string_written)
  qed
  ultimately show ?thesis using ts(1) out(1-3) by blast
qed

lemma options_payload:
  assumes "body_ok 9999 ms" "stream_options ms = Inr options"
  shows "body_ok 9998 options"
proof (cases "valuePresent (map_get ms ''stream_options'')")
  case True
  let ?r = "map_get ms ''stream_options''"
  from True assms(2) have r: "is_object ?r" "options = members ?r"
    by (auto simp: stream_options_def decode_map_def Let_def split: option.split_asm if_split_asm)
  have "?r \<noteq> []" using True by (auto simp: valuePresent_def strip_def)
  then have "(''stream_options'', ?r) \<in> set ms"
    by (auto simp: map_get_def dest!: map_of_SomeD split: option.split_asm)
  with assms(1) have v: "value_within 9999 (no_space ?r)" "list_all wf_token (no_space ?r)" by (auto simp: body_ok_def)
  have "is_object (no_space ?r)" using r(1) by simp
  have "body_ok 9998 (members (no_space ?r))"
    unfolding body_ok_def using members_wf [OF _ \<open>is_object (no_space ?r)\<close> v(2), of 9998] v(1) by auto
  moreover have "body_ok 9998 (map (apsnd no_space) xs) \<longleftrightarrow> body_ok 9998 xs" for xs
    by (auto simp: body_ok_def)
  ultimately show ?thesis using r(2) by (simp add: members_no_space)
qed (use assms(2) in \<open>simp add: stream_options_def body_ok_def\<close>)

lemma map_get_rewritten:
  assumes "body_ok n ms" "n < 10000" "k \<in> fst ` set ms"
  shows "map_get (members (written (marshal_map ms))) k = map html_token (written (map_get ms k))"
proof -
  let ?es = "map (\<lambda>(k, v). (html_escape (json_quote k), map html_token (written v))) (map_entries ms)"
  have parts: "map html_token (join_parts ps) = join_parts (map (map html_token) ps)" for ps
    by (induction ps rule: join_parts.induct) simp_all
  have w: "written (marshal_map ms) = obj_tokens ?es"
    by (simp add: written_def [of "marshal_map ms"] marshal_map_reads(5) [OF assms(1) [unfolded body_ok_def] assms(2)])
      (simp add: marshal_map_def obj_tokens_def parts member_tokens_def split_beta comp_def)
  have es: "utf8_valid k \<and> value_within n v" if "(k, v) \<in> set (map_entries ms)" for k v
    using map_entries_sub [OF that] assms(1) by (auto simp: body_ok_def)
  have again: "map html_token (written v) = written (written v)" for v
    by (simp add: written_def [of "written v"])
  have "\<forall>kv \<in> set ?es. value_within n (snd kv) \<and> stripped (snd kv)"
    using es written_stripped [of n "written v" for v] unfolding again by fastforce
  from members_obj(1) [OF this] have "members (obj_tokens ?es) = map (apfst unquote) ?es" .
  also have "\<dots> = map (apsnd (map html_token \<circ> written)) (map_entries ms)"
    using es unquote_quote html_escape_ok [OF json_quote_ok] by (auto simp: split_beta)
  finally have "members (written (marshal_map ms)) = map (apsnd (map html_token \<circ> written)) (map_entries ms)" using w by simp
  with map_get_apsnd map_entries_get [OF assms(3)] map_entries_keys [of ms] assms(3) show ?thesis by simp
qed

text \<open>
  The body of a stream request switches the stream on and, where the provider is to report its
  usage, asks for it among the client's stream options; the rest of the body stays as it was.
\<close>
theorem compatible_stream_body:
  assumes "compatibleRequestBody input = Inr body" "json_read body = Some ts" "is_object ts"
    and "stream_options (members ts) = Inr options"
  shows "\<exists>out ts'. compatibleStreamRequestBody input True = Inr out \<and> json_read out = Some ts' \<and> is_object ts' \<and>
    map_get (members ts') ''stream'' = [TTrue] \<and>
    map_get (members (map_get (members ts') ''stream_options'')) ''include_usage'' = [TTrue] \<and>
    (\<forall>k \<in> fst ` set (members ts). k \<noteq> ''stream'' \<longrightarrow> k \<noteq> ''stream_options'' \<longrightarrow>
       map_get (members ts') k = written (map_get (members ts) k))"
proof -
  let ?opts = "options @ [(''include_usage'', [TTrue])]"
  let ?p1 = "members ts @ [(''stream'', [TTrue])]"
  let ?p2 = "?p1 @ [(''stream_options'', marshal_map ?opts)]"
  have ok: "body_ok 9999 (members ts)" by (rule read_payload [OF assms(2,3)])
  have "body_ok 9998 options" by (rule options_payload [OF ok assms(4)])
  then have opts: "body_ok 9998 ?opts" using marshal_string_payload(2) utf8_names by (simp add: body_ok_append)
  note m = marshal_map_reads [OF opts [unfolded body_ok_def], simplified]
  from m have "body_ok 9999 [(''stream_options'', marshal_map ?opts)]"
    using utf8_names by (simp add: body_ok_def)
  then have payload: "body_ok 9999 ?p2" using ok marshal_string_payload(2) [OF utf8_names(2), of 9999] by (simp only: body_ok_append)
  note out = read_marshalled [OF payload]
  have get: "map_get ?p2 k = (if k = ''stream_options'' then marshal_map ?opts else if k = ''stream'' then [TTrue] else map_get (members ts) k)" for k
    by (simp only: map_get_last)
  have keys: "fst ` set ?p2 = fst ` set (members ts) \<union> {''stream'', ''stream_options''}" by auto
  have true: "written [TTrue] = [TTrue]" "map html_token [TTrue] = [TTrue]" by (simp_all add: written_def no_space_def is_space_token_def)
  have "stream_options ?p1 = Inr options" using assms(4) by (simp add: stream_options_def map_get_last)
  then have "compatibleStreamRequestBody input True = Inr (raw_text (marshal_map ?p2))"
    using assms(1-3) by (simp only: compatibleStreamRequestBody_def decode_map_def Let_def bind.simps sum.case option.case if_True not_True_eq_False if_False)
  moreover have vals: "map_get (members (marshal_map ?p2)) k = written (map_get ?p2 k)" if "k \<in> fst ` set ?p2" for k
    using out(4) [OF _ that] by simp
  moreover have "map_get (members (marshal_map ?p2)) ''stream'' = [TTrue]"
    using vals [of "''stream''"] unfolding get keys by (simp add: true)
  moreover have "map_get (members (map_get (members (marshal_map ?p2)) ''stream_options'')) ''include_usage'' = [TTrue]"
  proof -
    have "map_get (members (marshal_map ?p2)) ''stream_options'' = written (marshal_map ?opts)"
      using vals [of "''stream_options''"] unfolding get keys by simp
    moreover have "map_get (members (written (marshal_map ?opts))) ''include_usage'' = map html_token (written (map_get ?opts ''include_usage''))"
      by (rule map_get_rewritten [OF opts]) simp_all
    ultimately show ?thesis by (simp only: map_get_last true if_True simp_thms)
  qed
  moreover have "map_get (members (marshal_map ?p2)) k = written (map_get (members ts) k)"
    if "k \<in> fst ` set (members ts)" "k \<noteq> ''stream''" "k \<noteq> ''stream_options''" for k
    using that vals [of k] unfolding get keys by simp
  moreover have "json_read (raw_text (marshal_map ?p2)) = Some (marshal_map ?p2)" "is_object (marshal_map ?p2)"
    using out(1,2) by simp_all
  ultimately show ?thesis by blast
qed

section \<open>Witnesses\<close>

definition sample_body :: string where
  "sample_body = quoted ''{`model`:`a`, `messages`:[], `x`: `1<2`}''"

lemma sample_body_parses:
  "case ParseChatRequest sample_body of Returns (Inr req) \<Rightarrow> True | _ \<Rightarrow> False" by code_simp

theorem compatible_body_forwards_witness:
  "\<exists>req out ts'. ParseChatRequest sample_body = Returns (Inr req) \<and>
    compatibleRequestBody \<lparr>ciRequestID = [], ciRequest = req, ciModelOverride = ''b''\<rparr> = Inr out \<and> json_read out = Some ts' \<and>
    decode_string [] (map_get (members ts') ''model'') = Some ''b''"
proof -
  obtain req where req: "ParseChatRequest sample_body = Returns (Inr req)"
    using sample_body_parses by (auto split: outcome.split_asm sum.split_asm)
  moreover have "trim_space ''b'' = ''b''" "utf8_valid ''b''" by code_simp+
  ultimately show ?thesis using compatible_body_forwards [OF req, of "''b''" "[]"] by auto
qed

definition sample_input :: "chat_request chat_input" where
  "sample_input = \<lparr>ciRequestID = [], ciRequest = request_zero\<lparr>crRawBody := quoted ''{`stream_options`:{`a`:1}}''\<rparr>, ciModelOverride = []\<rparr>"

theorem compatible_stream_body_witness:
  "\<exists>out ts'. compatibleStreamRequestBody sample_input True = Inr out \<and> json_read out = Some ts' \<and>
    map_get (members ts') ''stream'' = [TTrue]"
proof -
  let ?body = "quoted ''{`stream_options`:{`a`:1}}''"
  have body: "compatibleRequestBody sample_input = Inr ?body" by (simp add: compatibleRequestBody_def sample_input_def)
  have "case json_read ?body of None \<Rightarrow> False
      | Some ts \<Rightarrow> is_object ts \<and> (case stream_options (members ts) of Inl e \<Rightarrow> False | Inr options \<Rightarrow> True)" by code_simp
  then obtain ts options where "json_read ?body = Some ts" "is_object ts" "stream_options (members ts) = Inr options"
    by (auto split: option.split_asm sum.split_asm)
  from compatible_stream_body [OF body this] show ?thesis by (elim exE conjE) (intro exI conjI)
qed

end
