(* ===== verification/Completion.thy ===== *)
theory Completion
  imports ChatRequest JsonEncode
begin

text \<open>
  The completion every native adapter returns (\<open>encodeCompletion\<close> of
  \<open>internal/provider/chat_completion.go\<close>): the OpenAI envelope around the message, the finish reason and
  the usage, written by \<open>json.Marshal\<close>.
\<close>

section \<open>Encoding\<close>

record completion_message =
  msRole :: string
  msContent :: "string option"
  msReasoningContent :: "string option"
  msToolCalls :: "chat_tool_call list"

definition int_value :: "int \<Rightarrow> raw" where
  "int_value n = [TNum (int_text n)]"

definition string_value :: "string option \<Rightarrow> raw" where
  "string_value s = (case s of None \<Rightarrow> [TNull] | Some t \<Rightarrow> marshal_string t)"

text \<open>The members of a struct in the order of its fields, \<open>omitempty\<close> applied.\<close>

definition omit_zero :: "string \<Rightarrow> int \<Rightarrow> (string \<times> raw) list" where
  "omit_zero name n = (if n = 0 then [] else [(name, int_value n)])"

definition input_details_value :: "completion_input_details \<Rightarrow> raw" where
  "input_details_value d = obj_tokens (omit_zero ''audio_tokens'' (idAudio d) @ omit_zero ''image_tokens'' (idImage d) @
     omit_zero ''cached_read_tokens'' (idCachedRead d) @ omit_zero ''cached_write_tokens'' (idCachedWrite d))"

definition output_details_value :: "completion_output_details \<Rightarrow> raw" where
  "output_details_value d = obj_tokens (omit_zero ''audio_tokens'' (odAudio d) @ omit_zero ''reasoning_tokens'' (odReasoning d))"

definition omit_none :: "string \<Rightarrow> ('a \<Rightarrow> raw) \<Rightarrow> 'a option \<Rightarrow> (string \<times> raw) list" where
  "omit_none name f v = (case v of None \<Rightarrow> [] | Some x \<Rightarrow> [(name, f x)])"

definition usage_value :: "completion_usage \<Rightarrow> raw" where
  "usage_value u = obj_tokens ([(''prompt_tokens'', int_value (cuPromptTokens u))] @
     omit_none ''prompt_tokens_details'' input_details_value (cuPromptTokensDetails u) @
     [(''completion_tokens'', int_value (cuCompletionTokens u))] @
     omit_none ''completion_tokens_details'' output_details_value (cuCompletionTokensDetails u) @
     [(''total_tokens'', int_value (cuTotalTokens u))])"

definition tool_call_value :: "chat_tool_call \<Rightarrow> raw" where
  "tool_call_value c = obj_tokens
     [(''id'', marshal_string (tcID c)), (''type'', marshal_string (tcType c)),
      (''function'', obj_tokens [(''name'', marshal_string (fcName (tcFunction c))), (''arguments'', marshal_string (fcArguments (tcFunction c)))])]"

definition message_value :: "completion_message \<Rightarrow> raw" where
  "message_value m = obj_tokens ([(''role'', marshal_string (msRole m)), (''content'', string_value (msContent m))] @
     omit_none ''reasoning_content'' marshal_string (msReasoningContent m) @
     (if msToolCalls m = [] then [] else [(''tool_calls'', arr_tokens (map tool_call_value (msToolCalls m)))]))"

definition choice_value :: "completion_message \<Rightarrow> string \<Rightarrow> raw" where
  "choice_value m finishReason =
     obj_tokens [(''index'', int_value 0), (''message'', message_value m), (''finish_reason'', marshal_string finishReason)]"

definition completion_id :: "string \<Rightarrow> string \<Rightarrow> string" where
  "completion_id upstream requestID =
     (let i = (if trim_space upstream = [] then ''chatcmpl-'' @ trim_space requestID else trim_space upstream) in
      if i = ''chatcmpl-'' then ''chatcmpl-upstream'' else i)"

definition total_usage :: "completion_usage \<Rightarrow> completion_usage" where
  "total_usage u = (if cuTotalTokens u = 0 then u\<lparr>cuTotalTokens := wrap_int64 (cuPromptTokens u + cuCompletionTokens u)\<rparr> else u)"

definition completion_value :: "int \<Rightarrow> string \<Rightarrow> string \<Rightarrow> string \<Rightarrow> completion_message \<Rightarrow> string \<Rightarrow> completion_usage option \<Rightarrow> raw" where
  "completion_value created upstream requestID model m finishReason usage = obj_tokens
     ([(''id'', marshal_string (completion_id upstream requestID)), (''object'', marshal_string ''chat.completion''),
       (''created'', int_value created), (''model'', marshal_string model), (''choices'', arr_tokens [choice_value m finishReason])] @
      omit_none ''usage'' usage_value (map_option total_usage usage))"

definition encodeCompletionMessage ::
  "int \<Rightarrow> string \<Rightarrow> string \<Rightarrow> string \<Rightarrow> completion_message \<Rightarrow> string \<Rightarrow> completion_usage option \<Rightarrow> string" where
  "encodeCompletionMessage created upstream requestID model m finishReason usage =
     raw_text (completion_value created upstream requestID model m finishReason usage)"

definition encodeCompletion :: "int \<Rightarrow> string \<Rightarrow> string \<Rightarrow> string \<Rightarrow> string \<Rightarrow> string \<Rightarrow> completion_usage option \<Rightarrow> string" where
  "encodeCompletion created upstream requestID model content finishReason usage =
     encodeCompletionMessage created upstream requestID model
       \<lparr>msRole = ''assistant'', msContent = Some content, msReasoningContent = None, msToolCalls = []\<rparr> finishReason usage"

section \<open>Values the encoder writes\<close>

text \<open>A value of at most this depth, without white space, that the lexer reads back.\<close>

definition good_value :: "nat \<Rightarrow> raw \<Rightarrow> bool" where
  "good_value n v \<longleftrightarrow> value_within n v \<and> no_space v = v \<and> list_all wf_token v"

lemma good_mono: "good_value n v \<Longrightarrow> n \<le> m \<Longrightarrow> good_value m v"
  using value_within_mono by (auto simp: good_value_def)

lemma good_stripped: "good_value n v \<Longrightarrow> value_within n v \<and> stripped v"
  using stripped_no_space value_within_head(1) by (auto simp: good_value_def)

lemma good_scalar: "good_value n [TNull]" "good_value n (int_value k)" "good_value n (marshal_string s)" "good_value n (string_value o')"
proof -
  have one: "good_value n [t]" if "wf_token t" "\<not> is_space_token t" "begin_value t [] = Some (Finished, [])" for t
    using that by (simp add: good_value_def value_within_def no_space_def)
  show n: "good_value n [TNull]" by (rule one) (simp_all add: wf_token_def is_space_token_def value_done_def)
  show "good_value n (int_value k)" unfolding int_value_def
    by (rule one) (simp_all add: int_text_ok is_space_token_def value_done_def)
  show m: "good_value n (marshal_string s)" for s unfolding marshal_string_def
    by (rule one) (simp_all add: wf_string json_quote_ok is_space_token_def value_done_def del: str_ok.simps)
  show "good_value n (string_value o')" using n m by (simp add: string_value_def split: option.split)
qed

lemma join_tokens: "set (join_parts ps) \<subseteq> {TComma} \<union> \<Union> (set ` set ps)"
  by (induction ps rule: join_parts.induct) auto

lemma good_tokens: "good_value n v \<longleftrightarrow> value_within n v \<and> (\<forall>t \<in> set v. wf_token t \<and> \<not> is_space_token t)"
  by (auto simp: good_value_def list_all_iff no_space_def filter_id_conv)

lemma good_obj:
  assumes "\<forall>(k, v) \<in> set ms. str_ok 0 k \<and> good_value n v" "n < 10000"
  shows "good_value (Suc n) (obj_tokens ms)"
proof -
  have "value_within (Suc n) (obj_tokens ms)" using assms by (intro obj_within) (auto simp: good_value_def)
  moreover have "wf_token t \<and> \<not> is_space_token t" if "t \<in> set (obj_tokens ms)" for t
  proof -
    from that join_tokens [of "map member_tokens ms"] consider "t \<in> {TLBrace, TRBrace, TComma, TColon}"
      | k v where "(k, v) \<in> set ms" "t = TStr k \<or> t \<in> set v"
      by (fastforce simp: obj_tokens_def member_tokens_def)
    then show ?thesis
      using assms(1) by cases (auto simp: wf_token_def [of TLBrace] wf_token_def [of TRBrace] wf_token_def [of TComma] wf_token_def [of TColon]
          is_space_token_def good_tokens wf_string simp del: str_ok.simps)
  qed
  ultimately show ?thesis by (simp add: good_tokens)
qed

lemma good_arr:
  assumes "\<forall>v \<in> set vs. good_value n v" "n < 10000"
  shows "good_value (Suc n) (arr_tokens vs)"
proof -
  have "value_within (Suc n) (arr_tokens vs)" using assms good_stripped by (intro arr_within) (auto simp: stripped_def)
  moreover have "wf_token t \<and> \<not> is_space_token t" if "t \<in> set (arr_tokens vs)" for t
  proof -
    from that join_tokens [of vs] consider "t \<in> {TLBrack, TRBrack, TComma}" | v where "v \<in> set vs" "t \<in> set v"
      by (fastforce simp: arr_tokens_def)
    then show ?thesis
      using assms(1) by cases (auto simp: wf_token_def [of TLBrack] wf_token_def [of TRBrack] wf_token_def [of TComma] is_space_token_def good_tokens)
  qed
  ultimately show ?thesis by (simp add: good_tokens)
qed

lemma good_read:
  assumes "good_value n v" "n \<le> 10000"
  shows "json_read (raw_text v) = Some v"
  using json_read_tokens [of n v] assms by (simp add: good_value_def)

lemma good_members:
  assumes "\<forall>(k, v) \<in> set ms. str_ok 0 k \<and> good_value n v"
  shows "members (obj_tokens ms) = map (apfst unquote) ms" "is_object (obj_tokens ms)"
  using members_obj [of ms n] assms good_stripped by (auto simp: split_beta)

text \<open>Names of struct fields stand for themselves.\<close>

definition field_names :: "string list" where
  "field_names =
     [''id'', ''type'', ''function'', ''name'', ''arguments'', ''role'', ''content'', ''reasoning_content'',
      ''tool_calls'', ''index'', ''message'', ''finish_reason'', ''object'', ''created'', ''model'', ''choices'',
      ''usage'', ''prompt_tokens'', ''prompt_tokens_details'', ''completion_tokens'', ''completion_tokens_details'',
      ''total_tokens'', ''audio_tokens'', ''image_tokens'', ''cached_read_tokens'', ''cached_write_tokens'',
      ''reasoning_tokens'', ''delta'', ''max_tokens'', ''system'', ''messages'', ''temperature'', ''top_p'',
      ''stop_sequences'', ''tools'', ''tool_choice'', ''output_config'', ''stream'', ''source'', ''input'',
      ''tool_use_id'', ''media_type'', ''data'', ''url'', ''file_id'', ''description'', ''input_schema'', ''strict'',
      ''disable_parallel_tool_use'', ''format'', ''schema'']"

lemma field_name_plain: "k \<in> set field_names \<Longrightarrow> str_ok 0 k \<and> unquote k = k"
proof -
  have "list_all (\<lambda>k. str_ok 0 k \<and> unquote k = k) field_names" by code_simp
  then show "k \<in> set field_names \<Longrightarrow> str_ok 0 k \<and> unquote k = k" by (simp only: list_all_iff)
qed

definition good_struct :: "nat \<Rightarrow> (string \<times> raw) list \<Rightarrow> bool" where
  "good_struct n ms \<longleftrightarrow> (\<forall>(k, v) \<in> set ms. k \<in> set field_names \<and> good_value n v)"

lemma good_struct_value: "good_struct n ms \<Longrightarrow> n < 10000 \<Longrightarrow> good_value (Suc n) (obj_tokens ms)"
  using field_name_plain by (intro good_obj) (auto simp: good_struct_def)

lemma good_struct_members:
  assumes "good_struct n ms"
  shows "members (obj_tokens ms) = ms" "is_object (obj_tokens ms)"
proof -
  have "\<forall>(k, v) \<in> set ms. str_ok 0 k \<and> good_value n v" using assms field_name_plain by (auto simp: good_struct_def)
  moreover have "map (apfst unquote) ms = ms" using assms field_name_plain by (intro map_idI) (auto simp: good_struct_def)
  ultimately show "members (obj_tokens ms) = ms" "is_object (obj_tokens ms)" using good_members by simp_all
qed

lemma decode_good: "good_struct n ms \<Longrightarrow> decode_struct fs x (obj_tokens ms) = decode_members fs ms x"
  using good_struct_members by (simp add: decode_struct_def)

lemma good_struct_simps:
  "good_struct n []" "good_struct n ((k, v) # ms) \<longleftrightarrow> k \<in> set field_names \<and> good_value n v \<and> good_struct n ms"
  "good_struct n (ms @ ns) \<longleftrightarrow> good_struct n ms \<and> good_struct n ns"
  by (auto simp: good_struct_def)

lemma good_omit:
  "name \<in> set field_names \<Longrightarrow> good_struct n (omit_zero name k)"
  "name \<in> set field_names \<Longrightarrow> (\<And>x. good_value n (f x)) \<Longrightarrow> good_struct n (omit_none name f v)"
  by (auto simp: omit_zero_def omit_none_def good_struct_simps good_scalar split: option.split)

lemma in_field_names [simp]:
  "''id'' \<in> set field_names" "''type'' \<in> set field_names" "''function'' \<in> set field_names"
  "''name'' \<in> set field_names" "''arguments'' \<in> set field_names" "''role'' \<in> set field_names"
  "''content'' \<in> set field_names" "''reasoning_content'' \<in> set field_names" "''tool_calls'' \<in> set field_names"
  "''index'' \<in> set field_names" "''message'' \<in> set field_names" "''finish_reason'' \<in> set field_names"
  "''object'' \<in> set field_names" "''created'' \<in> set field_names" "''model'' \<in> set field_names"
  "''choices'' \<in> set field_names" "''usage'' \<in> set field_names" "''prompt_tokens'' \<in> set field_names"
  "''prompt_tokens_details'' \<in> set field_names" "''completion_tokens'' \<in> set field_names"
  "''completion_tokens_details'' \<in> set field_names" "''total_tokens'' \<in> set field_names"
  "''audio_tokens'' \<in> set field_names" "''image_tokens'' \<in> set field_names" "''cached_read_tokens'' \<in> set field_names"
  "''cached_write_tokens'' \<in> set field_names" "''reasoning_tokens'' \<in> set field_names" "''delta'' \<in> set field_names"
  "''max_tokens'' \<in> set field_names" "''system'' \<in> set field_names" "''messages'' \<in> set field_names"
  "''temperature'' \<in> set field_names" "''top_p'' \<in> set field_names" "''stop_sequences'' \<in> set field_names"
  "''tools'' \<in> set field_names" "''tool_choice'' \<in> set field_names" "''output_config'' \<in> set field_names"
  "''stream'' \<in> set field_names" "''source'' \<in> set field_names" "''input'' \<in> set field_names"
  "''tool_use_id'' \<in> set field_names" "''media_type'' \<in> set field_names" "''data'' \<in> set field_names"
  "''url'' \<in> set field_names" "''file_id'' \<in> set field_names" "''description'' \<in> set field_names"
  "''input_schema'' \<in> set field_names" "''strict'' \<in> set field_names"
  "''disable_parallel_tool_use'' \<in> set field_names" "''format'' \<in> set field_names" "''schema'' \<in> set field_names"
  by (simp_all add: field_names_def)

lemma good_usage: "good_value 2 (usage_value u)"
proof -
  have "good_value 1 (input_details_value d)" for d
    using good_struct_value [of 0] by (simp add: input_details_value_def good_struct_simps good_omit)
  moreover have "good_value 1 (output_details_value d)" for d
    using good_struct_value [of 0] by (simp add: output_details_value_def good_struct_simps good_omit)
  ultimately have "good_struct 1 ([(''prompt_tokens'', int_value (cuPromptTokens u))] @
     omit_none ''prompt_tokens_details'' input_details_value (cuPromptTokensDetails u) @
     [(''completion_tokens'', int_value (cuCompletionTokens u))] @
     omit_none ''completion_tokens_details'' output_details_value (cuCompletionTokensDetails u) @
     [(''total_tokens'', int_value (cuTotalTokens u))])"
    by (simp only: good_struct_simps good_omit good_scalar in_field_names simp_thms)
  from good_struct_value [OF this] show ?thesis by (simp add: usage_value_def numeral_2_eq_2)
qed

definition call_function :: "chat_tool_call \<Rightarrow> (string \<times> raw) list" where
  "call_function c = [(''name'', marshal_string (fcName (tcFunction c))), (''arguments'', marshal_string (fcArguments (tcFunction c)))]"

definition call_members :: "chat_tool_call \<Rightarrow> (string \<times> raw) list" where
  "call_members c = [(''id'', marshal_string (tcID c)), (''type'', marshal_string (tcType c)), (''function'', obj_tokens (call_function c))]"

lemma good_call: "good_struct 0 (call_function c)" "good_struct 1 (call_members c)" "good_value 2 (tool_call_value c)"
proof -
  show 0: "good_struct 0 (call_function c)" by (simp add: call_function_def good_struct_simps good_scalar)
  show 1: "good_struct 1 (call_members c)"
    using good_struct_value [OF 0] by (simp add: call_members_def good_struct_simps good_scalar)
  show "good_value 2 (tool_call_value c)"
    using good_struct_value [OF 1] by (simp add: tool_call_value_def call_members_def call_function_def numeral_2_eq_2)
qed

definition message_members :: "completion_message \<Rightarrow> (string \<times> raw) list" where
  "message_members m = [(''role'', marshal_string (msRole m)), (''content'', string_value (msContent m))] @
     omit_none ''reasoning_content'' marshal_string (msReasoningContent m) @
     (if msToolCalls m = [] then [] else [(''tool_calls'', arr_tokens (map tool_call_value (msToolCalls m)))])"

lemma good_message: "good_struct 3 (message_members m)" "good_value 4 (message_value m)"
proof -
  have "good_value 3 (arr_tokens (map tool_call_value cs))" for cs
    using good_arr [of "map tool_call_value cs" 2] good_call(3) by (simp add: numeral_3_eq_3 numeral_2_eq_2)
  then show 3: "good_struct 3 (message_members m)"
    by (simp add: message_members_def good_struct_simps good_scalar good_omit)
  show "good_value 4 (message_value m)"
    using good_struct_value [OF 3] by (simp add: message_value_def message_members_def)
qed

section \<open>Reading a completion back\<close>

lemma decode_marshalled: "utf8_valid s \<Longrightarrow> decode_string old (marshal_string s) = Some s"
  by (simp add: decode_string_def scalar_def marshal_string_def strip_def is_space_token_def unquote_quote)

lemma decode_content: "(\<forall>s. v = Some s \<longrightarrow> utf8_valid s) \<Longrightarrow> decode_string_ptr (string_value v) = Some v"
  by (auto simp: decode_string_ptr_def scalar_def string_value_def marshal_string_def strip_def is_space_token_def unquote_quote split: option.split)

definition call_text_ok :: "chat_tool_call \<Rightarrow> bool" where
  "call_text_ok c \<longleftrightarrow> utf8_valid (tcID c) \<and> utf8_valid (tcType c) \<and> utf8_valid (fcName (tcFunction c)) \<and> utf8_valid (fcArguments (tcFunction c))"

lemma decode_call:
  assumes "call_text_ok c"
  shows "decode_struct tool_call_fields old (tool_call_value c) = Some c"
proof -
  have f: "decode_struct function_call_fields x (obj_tokens (call_function c)) = Some (tcFunction c)" for x
    using assms unfolding decode_good [OF good_call(1)]
    by (simp add: call_function_def function_call_fields_def field_of_def call_text_ok_def decode_marshalled)
  have v: "tool_call_value c = obj_tokens (call_members c)" by (simp add: tool_call_value_def call_members_def call_function_def)
  show ?thesis
    using assms f unfolding v decode_good [OF good_call(2)]
    by (simp add: call_members_def tool_call_fields_def field_of_def call_text_ok_def decode_marshalled)
qed

lemma decode_calls:
  assumes "list_all call_text_ok cs" "cs \<noteq> []"
  shows "map_option slice_list (decode_slice (decode_struct tool_call_fields) tool_call_zero ([], 0) (arr_tokens (map tool_call_value cs))) = Some cs"
proof -
  have "elements (arr_tokens (map tool_call_value cs)) = map tool_call_value cs" "is_array (arr_tokens (map tool_call_value cs))"
    using elements_arr [of "map tool_call_value cs" 2] good_call(3) good_stripped by auto
  moreover have "decode_elements (decode_struct tool_call_fields) tool_call_zero (map tool_call_value cs) [] = Some cs"
    using assms(1) by (induction cs) (simp_all add: decode_call)
  ultimately show ?thesis using assms(2) by (simp add: decode_slice_def slice_list_def)
qed

lemma completion_read_back:
  assumes "utf8_valid (completion_id upstream requestID)" "utf8_valid model" "utf8_valid finishReason"
    and "\<forall>s. msContent m = Some s \<longrightarrow> utf8_valid s" "list_all call_text_ok (msToolCalls m)"
  shows "\<exists>ts choice msg.
    json_read (encodeCompletionMessage created upstream requestID model m finishReason usage) = Some ts \<and> is_object ts \<and>
    decode_string [] (map_get (members ts) ''id'') = Some (completion_id upstream requestID) \<and> completion_id upstream requestID \<noteq> [] \<and>
    decode_string [] (map_get (members ts) ''model'') = Some model \<and>
    elements (map_get (members ts) ''choices'') = [choice] \<and>
    decode_string [] (map_get (members choice) ''finish_reason'') = Some finishReason \<and>
    map_get (members choice) ''message'' = msg \<and> decode_string_ptr (map_get (members msg) ''content'') = Some (msContent m) \<and>
    (msToolCalls m \<noteq> [] \<longrightarrow> map_option slice_list
       (decode_slice (decode_struct tool_call_fields) tool_call_zero ([], 0) (map_get (members msg) ''tool_calls'')) = Some (msToolCalls m))"
proof -
  let ?choice = "[(''index'', int_value 0), (''message'', message_value m), (''finish_reason'', marshal_string finishReason)]"
  let ?ms = "[(''id'', marshal_string (completion_id upstream requestID)), (''object'', marshal_string ''chat.completion''),
       (''created'', int_value created), (''model'', marshal_string model), (''choices'', arr_tokens [obj_tokens ?choice])] @
      omit_none ''usage'' usage_value (map_option total_usage usage)"
  have choice: "good_struct 4 ?choice" using good_message(2) by (simp add: good_struct_simps good_scalar)
  then have c5: "good_value 5 (obj_tokens ?choice)" using good_struct_value [of 4] by simp
  then have c6: "good_value 6 (arr_tokens [obj_tokens ?choice])" using good_arr [of "[obj_tokens ?choice]" 5] by simp
  have ms: "good_struct 6 ?ms"
    using c6 good_mono [OF good_usage, of 6] by (simp add: good_struct_simps good_scalar good_omit)
  then have c7: "good_value 7 (obj_tokens ?ms)" using good_struct_value [of 6] by simp
  have read: "json_read (encodeCompletionMessage created upstream requestID model m finishReason usage) = Some (obj_tokens ?ms)"
    using good_read [OF c7] by (simp add: encodeCompletionMessage_def completion_value_def choice_value_def)
  note mem = good_struct_members [OF ms] and cmem = good_struct_members [OF choice]
  have get: "map_get ?ms ''id'' = marshal_string (completion_id upstream requestID)" "map_get ?ms ''model'' = marshal_string model"
    "map_get ?ms ''choices'' = arr_tokens [obj_tokens ?choice]"
    by (simp_all add: map_get_def omit_none_def map_add_def split: option.split)
  have cget: "map_get ?choice ''finish_reason'' = marshal_string finishReason" "map_get ?choice ''message'' = message_value m"
    by (simp_all add: map_get_def)
  have mv: "members (message_value m) = message_members m"
    using good_struct_members(1) [OF good_message(1)] by (simp add: message_value_def message_members_def)
  have mget: "map_get (message_members m) ''content'' = string_value (msContent m)"
    "msToolCalls m \<noteq> [] \<Longrightarrow> map_get (message_members m) ''tool_calls'' = arr_tokens (map tool_call_value (msToolCalls m))"
    by (simp_all add: map_get_def message_members_def omit_none_def map_add_def split: option.split)
  have "elements (arr_tokens [obj_tokens ?choice]) = [obj_tokens ?choice]"
    using elements_arr [of "[obj_tokens ?choice]" 5] good_stripped [OF c5] by simp
  moreover have "completion_id upstream requestID \<noteq> []" by (simp add: completion_id_def Let_def)
  moreover have "decode_string [] (map_get (members (obj_tokens ?ms)) ''id'') = Some (completion_id upstream requestID)"
    "decode_string [] (map_get (members (obj_tokens ?ms)) ''model'') = Some model"
    "decode_string [] (map_get (members (obj_tokens ?choice)) ''finish_reason'') = Some finishReason"
    "decode_string_ptr (map_get (members (message_value m)) ''content'') = Some (msContent m)"
    using assms by (simp_all only: mem(1) cmem(1) get cget mv mget decode_marshalled decode_content)
  moreover have "map_get (members (obj_tokens ?choice)) ''message'' = message_value m"
    "map_get (members (obj_tokens ?ms)) ''choices'' = arr_tokens [obj_tokens ?choice]"
    by (simp_all only: mem(1) cmem(1) get cget)
  moreover have "msToolCalls m \<noteq> [] \<longrightarrow> map_option slice_list
       (decode_slice (decode_struct tool_call_fields) tool_call_zero ([], 0) (map_get (members (message_value m)) ''tool_calls'')) = Some (msToolCalls m)"
    using decode_calls [OF assms(5)] mget(2) unfolding mv by simp
  ultimately show ?thesis using read mem(2)
    by (intro exI [of _ "obj_tokens ?ms"] exI [of _ "obj_tokens ?choice"] exI [of _ "message_value m"]) (simp only: simp_thms)
qed


definition sample_call :: chat_tool_call where
  "sample_call = \<lparr>tcID = ''c'', tcType = ''function'', tcFunction = \<lparr>fcName = ''f'', fcArguments = ''{}''\<rparr>\<rparr>"

definition sample_message :: completion_message where
  "sample_message = \<lparr>msRole = ''assistant'', msContent = None, msReasoningContent = None, msToolCalls = [sample_call]\<rparr>"


end
