(* ===== verification/StreamChunk.thy ===== *)
theory StreamChunk
  imports Completion ChunkCheck
begin

text \<open>
  The chunks of a compatible stream that the gateway writes itself (\<open>encodeStreamChunk\<close> of
  \<open>internal/provider/native_stream.go\<close>): their encoding, that it is one line of valid UTF-8, and that it
  passes the check the gateway makes of every chunk.
\<close>

section \<open>Chunks\<close>

record stream_call_delta =
  sdIndex :: int
  sdID :: string
  sdType :: string
  sdName :: string
  sdArguments :: string

record stream_delta =
  sdRole :: string
  sdContent :: "string option"
  sdReasoningContent :: "string option"
  sdToolCalls :: "stream_call_delta list"

definition delta_zero :: stream_delta where
  "delta_zero = \<lparr>sdRole = [], sdContent = None, sdReasoningContent = None, sdToolCalls = []\<rparr>"

definition omit_empty :: "string \<Rightarrow> string \<Rightarrow> (string \<times> raw) list" where
  "omit_empty name v = (if v = [] then [] else [(name, marshal_string v)])"

definition call_delta_members :: "stream_call_delta \<Rightarrow> (string \<times> raw) list" where
  "call_delta_members c =
     [(''index'', int_value (sdIndex c))] @ omit_empty ''id'' (sdID c) @ omit_empty ''type'' (sdType c) @
     [(''function'', obj_tokens (omit_empty ''name'' (sdName c) @ omit_empty ''arguments'' (sdArguments c)))]"

definition delta_members :: "stream_delta \<Rightarrow> (string \<times> raw) list" where
  "delta_members d = omit_empty ''role'' (sdRole d) @ omit_none ''content'' marshal_string (sdContent d) @
     omit_none ''reasoning_content'' marshal_string (sdReasoningContent d) @
     (if sdToolCalls d = [] then [] else [(''tool_calls'', arr_tokens (map (obj_tokens \<circ> call_delta_members) (sdToolCalls d)))])"

definition choice_members :: "stream_delta \<Rightarrow> string \<Rightarrow> (string \<times> raw) list" where
  "choice_members d finishReason =
     [(''index'', int_value 0), (''delta'', obj_tokens (delta_members d))] @ omit_empty ''finish_reason'' finishReason"

definition chunk_members ::
  "int \<Rightarrow> string \<Rightarrow> string \<Rightarrow> stream_delta \<Rightarrow> string \<Rightarrow> completion_usage option \<Rightarrow> (string \<times> raw) list" where
  "chunk_members created i model d finishReason usage =
     [(''id'', marshal_string (if i = [] then ''chatcmpl-upstream'' else i)), (''object'', marshal_string ''chat.completion.chunk''),
      (''created'', int_value created), (''model'', marshal_string model),
      (''choices'', arr_tokens [obj_tokens (choice_members d finishReason)])] @
     omit_none ''usage'' usage_value usage"

text \<open>The encoder sets the total of the usage it is given, which its caller keeps: the new usage is returned.\<close>

definition encodeStreamChunk ::
  "int \<Rightarrow> string \<Rightarrow> string \<Rightarrow> stream_delta \<Rightarrow> string \<Rightarrow> completion_usage option \<Rightarrow> string \<times> completion_usage option" where
  "encodeStreamChunk created i model d finishReason usage =
     (let usage' = map_option total_usage usage in (raw_text (obj_tokens (chunk_members created i model d finishReason usage')), usage'))"


section \<open>The text of a value is valid UTF-8\<close>

lemma ascii_valid: "\<forall>c \<in> set t. byte c < 128 \<Longrightarrow> utf8_valid t"
  by (induction t) (auto simp: utf8_valid_def utf8_first_ascii)

lemma hex_ascii: "is_hex_char c \<Longrightarrow> byte c < 128"
  by (auto simp: is_hex_char_def digit_byte)

lemma quote_ascii_ascii: "byte c < 128 \<Longrightarrow> x \<in> set (quote_ascii c) \<Longrightarrow> byte x < 128"
  using hex_ascii [OF byte_digits(1) [of c]] hex_ascii [OF byte_digits(2) [of c]]
  by (auto simp: quote_ascii_def u_escape_def split: if_split_asm)

lemma quote_rune_valid:
  assumes "utf8_first c = Some rs" "utf8_take rs s = Some (taken, tail)"
  shows "utf8_valid (quote_rune (c # taken))"
proof (cases taken)
  case Nil
  have "rs = []" using assms(2) Nil by (cases rs; cases s) (auto split: if_split_asm option.split_asm)
  then have "byte c < 128" using assms(1) by (auto simp: utf8_first_def Let_def split: if_split_asm)
  with Nil show ?thesis using quote_ascii_ascii by (auto simp: quote_rune_def intro: ascii_valid)
next
  case (Cons d ds)
  then show ?thesis
    using utf8_take_valid [OF assms] by (auto simp: quote_rune_def line_separator_def ascii_valid split: option.split)
qed

lemma json_quote_valid: "utf8_valid (json_quote s)"
proof (induction s rule: json_quote.induct)
  case (2 c s)
  have "utf8_valid (CHR 0x5C # ''ufffd'')" by code_simp
  from utf8_valid_append [OF this] have "utf8_valid (CHR 0x5C # ''ufffd'' @ t)" if "utf8_valid t" for t using that by simp
  with 2 show ?case
    by (auto simp: json_quote.simps(2) bind_eq_Some_conv intro!: utf8_valid_append quote_rune_valid split: option.split)
qed (simp add: json_quote.simps utf8_valid_def)

lemma unquote_quote_Nil: "unquote (json_quote s) = [] \<longleftrightarrow> s = []"
proof (cases s)
  case (Cons c t)
  have "unquote (CHR 0x5C # ''ufffd'' @ u) \<noteq> []" for u
  proof -
    have "hex4 (CHR ''f'') (CHR ''f'') (CHR ''f'') (CHR ''d'') = 65533" by code_simp
    then show ?thesis by (simp add: unquote_unicode rune_of_def utf8_encode_def del: unquote.simps)
  qed
  with Cons show ?thesis
    by (auto simp: json_quote.simps(2) bind_eq_Some_conv quote_rune_ok(2) split: option.split simp del: unquote.simps)
qed (simp add: json_quote.simps)

definition utf8_value :: "raw \<Rightarrow> bool" where
  "utf8_value v \<longleftrightarrow> (\<forall>b. TStr b \<in> set v \<longrightarrow> utf8_valid b)"

lemma token_text_valid: "wf_token t \<Longrightarrow> (\<forall>b. t = TStr b \<longrightarrow> utf8_valid b) \<Longrightarrow> utf8_valid (token_text t)"
proof (cases t)
  case (TStr b)
  assume "\<forall>b. t = TStr b \<longrightarrow> utf8_valid b"
  moreover have "utf8_valid [CHR 0x22]" by code_simp
  ultimately show ?thesis using TStr utf8_valid_append [of "[CHR 0x22]" "b @ [CHR 0x22]"] utf8_valid_append [of b "[CHR 0x22]"] by simp
next
  case (TNum n)
  assume "wf_token t"
  with TNum have "valid_number n" by (simp add: wf_token_def)
  with TNum valid_number_chars num_char_range show ?thesis by (auto intro!: ascii_valid)
next
  case (TSpace c)
  assume "wf_token t"
  with TSpace space_token_ascii [of t] show ?thesis by (auto simp: is_space_token_def intro!: ascii_valid)
qed (auto intro!: ascii_valid)

lemma raw_text_valid: "list_all wf_token v \<Longrightarrow> utf8_value v \<Longrightarrow> utf8_valid (raw_text v)"
  by (induction v) (auto simp: utf8_value_def utf8_valid_def [of "[]"] intro!: utf8_valid_append token_text_valid)

lemma utf8_value_simps:
  "utf8_value (marshal_string s)" "utf8_value (int_value k)" "utf8_value [TNull]"
  "utf8_value (arr_tokens vs) \<longleftrightarrow> (\<forall>v \<in> set vs. utf8_value v)"
  "utf8_value (obj_tokens ms) \<longleftrightarrow> (\<forall>(k, v) \<in> set ms. utf8_valid k \<and> utf8_value v)"
proof -
  have join: "TStr b \<in> set (join_parts ps) \<longleftrightarrow> (\<exists>p \<in> set ps. TStr b \<in> set p)" for b ps
    by (induction ps rule: join_parts.induct) auto
  show "utf8_value (arr_tokens vs) \<longleftrightarrow> (\<forall>v \<in> set vs. utf8_value v)"
    by (auto simp: utf8_value_def arr_tokens_def join)
  show "utf8_value (obj_tokens ms) \<longleftrightarrow> (\<forall>(k, v) \<in> set ms. utf8_valid k \<and> utf8_value v)"
    by (fastforce simp: utf8_value_def obj_tokens_def join member_tokens_def)
qed (simp_all add: utf8_value_def marshal_string_def int_value_def json_quote_valid)

section \<open>Chunks are well formed\<close>

lemma good_omit_empty: "name \<in> set field_names \<Longrightarrow> good_struct n (omit_empty name v)"
  by (simp add: omit_empty_def good_struct_simps good_scalar)

lemma good_call_delta:
  "good_struct 0 (omit_empty ''name'' (sdName c) @ omit_empty ''arguments'' (sdArguments c))" "good_struct 1 (call_delta_members c)"
proof -
  show 0: "good_struct 0 (omit_empty ''name'' (sdName c) @ omit_empty ''arguments'' (sdArguments c))"
    by (simp add: good_struct_simps good_omit_empty)
  show "good_struct 1 (call_delta_members c)"
    using good_struct_value [OF 0] by (simp add: call_delta_members_def good_struct_simps good_omit_empty good_scalar)
qed

lemma good_call_array: "good_value 3 (arr_tokens (map (obj_tokens \<circ> call_delta_members) cs))"
  using good_arr [of "map (obj_tokens \<circ> call_delta_members) cs" 2] good_struct_value [OF good_call_delta(2)]
  by (simp add: numeral_3_eq_3 numeral_2_eq_2)

lemma good_delta: "good_struct 3 (delta_members d)"
  using good_call_array by (simp add: delta_members_def good_struct_simps good_omit_empty good_omit good_scalar)

lemma good_choice: "good_struct 4 (choice_members d finishReason)"
  using good_struct_value [OF good_delta] by (simp add: choice_members_def good_struct_simps good_omit_empty good_scalar)

lemma good_choices: "good_value 6 (arr_tokens [obj_tokens (choice_members d finishReason)])"
  using good_arr [of "[obj_tokens (choice_members d finishReason)]" 5] good_struct_value [OF good_choice, of d finishReason] by simp

lemma good_chunk: "good_struct 6 (chunk_members created i model d finishReason usage)"
  using good_choices good_mono [OF good_usage, of 6]
  by (simp add: chunk_members_def good_struct_simps good_omit good_scalar)

lemma chunk_tokens: "good_value 7 (obj_tokens (chunk_members created i model d finishReason usage))"
  using good_struct_value [OF good_chunk] by simp

lemma chunk_read:
  "json_read (fst (encodeStreamChunk created i model d finishReason usage)) =
     Some (obj_tokens (chunk_members created i model d finishReason (map_option total_usage usage)))"
  using good_read [OF chunk_tokens] by (simp add: encodeStreamChunk_def Let_def)

lemma chunk_is_compact:
  "json_compact (fst (encodeStreamChunk created i model d finishReason usage)) = Some (fst (encodeStreamChunk created i model d finishReason usage))"
  using chunk_read chunk_tokens by (simp add: json_compact_def encodeStreamChunk_def Let_def good_value_def)

definition utf8_struct :: "(string \<times> raw) list \<Rightarrow> bool" where
  "utf8_struct ms \<longleftrightarrow> (\<forall>(k, v) \<in> set ms. k \<in> set field_names \<and> utf8_value v)"

lemma utf8_struct_value: "utf8_struct ms \<Longrightarrow> utf8_value (obj_tokens ms)"
proof -
  have "list_all utf8_valid field_names" by code_simp
  then show "utf8_struct ms \<Longrightarrow> utf8_value (obj_tokens ms)"
    by (auto simp: utf8_struct_def utf8_value_simps list_all_iff)
qed

lemma utf8_struct_simps:
  "utf8_struct []" "utf8_struct ((k, v) # ms) \<longleftrightarrow> k \<in> set field_names \<and> utf8_value v \<and> utf8_struct ms"
  "utf8_struct (ms @ ns) \<longleftrightarrow> utf8_struct ms \<and> utf8_struct ns"
  by (auto simp: utf8_struct_def)

lemma utf8_omit:
  "name \<in> set field_names \<Longrightarrow> utf8_struct (omit_zero name k)"
  "name \<in> set field_names \<Longrightarrow> utf8_struct (omit_empty name s)"
  "name \<in> set field_names \<Longrightarrow> (\<And>x. utf8_value (f x)) \<Longrightarrow> utf8_struct (omit_none name f v)"
  by (auto simp: omit_zero_def omit_empty_def omit_none_def utf8_struct_simps utf8_value_simps split: option.split)

lemma utf8_usage: "utf8_value (usage_value u)"
  unfolding usage_value_def input_details_value_def output_details_value_def
  by (simp add: utf8_struct_value utf8_struct_simps utf8_omit utf8_value_simps(1-4))

lemma utf8_call_delta: "utf8_value (obj_tokens (call_delta_members c))"
  unfolding call_delta_members_def by (simp add: utf8_struct_value utf8_struct_simps utf8_omit utf8_value_simps(1-4))

lemma utf8_delta: "utf8_value (obj_tokens (delta_members d))"
  unfolding delta_members_def by (simp add: utf8_struct_value utf8_struct_simps utf8_omit utf8_value_simps(1-4) utf8_call_delta)

lemma utf8_choice: "utf8_value (obj_tokens (choice_members d finishReason))"
  unfolding choice_members_def by (simp add: utf8_struct_value utf8_struct_simps utf8_omit utf8_value_simps(1-4) utf8_delta)

lemma utf8_chunk: "utf8_value (obj_tokens (chunk_members created i model d finishReason usage))"
  unfolding chunk_members_def
  by (simp add: utf8_struct_value utf8_struct_simps utf8_omit utf8_value_simps(1-4) utf8_choice utf8_usage)

lemma chunk_utf8: "utf8_valid (fst (encodeStreamChunk created i model d finishReason usage))"
  using raw_text_valid [OF _ utf8_chunk] chunk_tokens by (simp add: encodeStreamChunk_def Let_def good_value_def)

section \<open>Chunks pass the check\<close>

definition call_delta_ok :: "stream_call_delta \<Rightarrow> bool" where
  "call_delta_ok c \<longleftrightarrow> 0 \<le> sdIndex c \<and> is_int64 (sdIndex c) \<and> sdType c \<in> {[], ''function''}"

definition delta_ok :: "stream_delta \<Rightarrow> bool" where
  "delta_ok d \<longleftrightarrow> sdRole d \<in> {[], ''assistant''} \<and> list_all call_delta_ok (sdToolCalls d)"

lemma string_marshalled: "string_or_absent ok (marshal_string v) \<longleftrightarrow> ok (unquote (json_quote v))"
  by (simp add: string_or_absent_def valuePresent_def marshal_string_def strip_def is_space_token_def decode_string_def scalar_def)

lemma string_absent: "string_or_absent ok []"
  by (simp add: string_or_absent_def valuePresent_def strip_def)

lemma string_omitted:
  "string_or_absent ok (case map_of (rev (omit_empty name v)) name of None \<Rightarrow> [] | Some r \<Rightarrow> r) \<longleftrightarrow> (v \<noteq> [] \<longrightarrow> ok (unquote (json_quote v)))"
  by (simp add: omit_empty_def string_marshalled string_absent)

lemma plain_texts: "unquote (json_quote ''function'') = ''function''" "unquote (json_quote ''assistant'') = ''assistant''"
  by (rule unquote_quote, code_simp)+

lemma call_delta_decoded:
  assumes "call_delta_ok c"
  shows "\<exists>x. decode_struct delta_call_fields delta_call_zero (obj_tokens (call_delta_members c)) = Some x \<and> delta_call_ok x"
proof -
  let ?fn = "omit_empty ''name'' (sdName c) @ omit_empty ''arguments'' (sdArguments c)"
  let ?x = "\<lparr>dcIndex = Some (sdIndex c), dcID = (if sdID c = [] then [] else marshal_string (sdID c)),
     dcType = (if sdType c = [] then [] else marshal_string (sdType c)), dcFunction = obj_tokens ?fn\<rparr>"
  have i: "decode_int_ptr (int_value (sdIndex c)) = Some (Some (sdIndex c))"
    using assms by (simp add: decode_int_ptr_def scalar_def int_value_def strip_def is_space_token_def parse_int_text call_delta_ok_def)
  have "decode_struct delta_call_fields delta_call_zero (obj_tokens (call_delta_members c)) = Some ?x"
    using i unfolding decode_good [OF good_call_delta(2)]
    by (simp add: call_delta_members_def omit_empty_def delta_call_fields_def field_of_def delta_call_zero_def)
  moreover have "delta_call_ok ?x"
    using assms good_struct_members [OF good_call_delta(1), of c] plain_texts
    by (auto simp: delta_call_ok_def call_delta_ok_def jsonObject_is_object string_marshalled string_absent unquote_quote_Nil decode_map_def
        map_get_def omit_empty_def split: option.split)
  ultimately show ?thesis by blast
qed

lemma call_deltas_decoded:
  assumes "list_all call_delta_ok cs" "cs \<noteq> []"
  shows "\<exists>xs. decode_slice (decode_struct delta_call_fields) delta_call_zero ([], 0) (arr_tokens (map (obj_tokens \<circ> call_delta_members) cs)) =
      Some (xs, length xs) \<and> xs \<noteq> [] \<and> list_all delta_call_ok xs"
proof -
  let ?v = "arr_tokens (map (obj_tokens \<circ> call_delta_members) cs)"
  have el: "elements ?v = map (obj_tokens \<circ> call_delta_members) cs" "is_array ?v"
    using elements_arr [of "map (obj_tokens \<circ> call_delta_members) cs" 2] good_stripped [OF good_struct_value [OF good_call_delta(2)]]
    by (auto simp: numeral_2_eq_2)
  have "\<exists>xs. decode_elements (decode_struct delta_call_fields) delta_call_zero (map (obj_tokens \<circ> call_delta_members) cs) [] = Some xs \<and>
      length xs = length cs \<and> list_all delta_call_ok xs"
    using assms(1)
  proof (induction cs)
    case (Cons c cs)
    then have "\<exists>xs. decode_elements (decode_struct delta_call_fields) delta_call_zero (map (obj_tokens \<circ> call_delta_members) cs) [] = Some xs \<and>
      length xs = length cs \<and> list_all delta_call_ok xs" by (simp add: comp_def)
    with call_delta_decoded [of c] Cons.prems show ?case by (auto simp: comp_def)
  qed simp
  then obtain xs where xs: "decode_elements (decode_struct delta_call_fields) delta_call_zero (map (obj_tokens \<circ> call_delta_members) cs) [] = Some xs"
    "length xs = length cs" "list_all delta_call_ok xs" by blast
  with el assms(2) show ?thesis by (intro exI [of _ xs]) (auto simp: decode_slice_def)
qed

lemma delta_gets:
  "map_get (delta_members d) ''role'' = (if sdRole d = [] then [] else marshal_string (sdRole d))"
  "map_get (delta_members d) ''content'' = (case sdContent d of None \<Rightarrow> [] | Some v \<Rightarrow> marshal_string v)"
  "map_get (delta_members d) ''reasoning_content'' = (case sdReasoningContent d of None \<Rightarrow> [] | Some v \<Rightarrow> marshal_string v)"
  "map_get (delta_members d) ''refusal'' = []"
  "map_get (delta_members d) ''tool_calls'' =
     (if sdToolCalls d = [] then [] else arr_tokens (map (obj_tokens \<circ> call_delta_members) (sdToolCalls d)))"
  by (simp_all add: map_get_def delta_members_def omit_empty_def omit_none_def map_add_def split: option.split)

lemma delta_passes:
  assumes "delta_ok d"
  shows "validateCompatibleStreamDelta (obj_tokens (delta_members d)) = None"
proof -
  have m: "decode_map (obj_tokens (delta_members d)) = Some (Some (delta_members d))"
    using good_struct_members [OF good_delta, of d] by (simp add: decode_map_def)
  have role: "string_or_absent (\<lambda>v. v = ''assistant'') (map_get (delta_members d) ''role'')"
    using assms plain_texts by (auto simp: delta_gets string_marshalled string_absent delta_ok_def)
  have texts: "list_all (\<lambda>field. string_or_absent (\<lambda>v. True) (map_get (delta_members d) field)) [''content'', ''reasoning_content'', ''refusal'']"
    by (simp add: delta_gets string_marshalled string_absent split: option.split)
  show ?thesis
  proof (cases "sdToolCalls d = []")
    case True
    then have "\<not> valuePresent (map_get (delta_members d) ''tool_calls'')" by (simp add: delta_gets valuePresent_def strip_def)
    with m role texts show ?thesis by (simp add: validateCompatibleStreamDelta_def Let_def)
  next
    case False
    with call_deltas_decoded [of "sdToolCalls d"] assms obtain xs
      where "decode_slice (decode_struct delta_call_fields) delta_call_zero ([], 0) (map_get (delta_members d) ''tool_calls'') = Some (xs, length xs)"
        "xs \<noteq> []" "list_all delta_call_ok xs" by (auto simp: delta_gets delta_ok_def)
    with m role texts show ?thesis by (simp add: validateCompatibleStreamDelta_def Let_def slice_list_def)
  qed
qed

lemma chunk_fields:
  "field_of (map fst chunk_envelope_fields) ''id'' = None" "field_of (map fst chunk_envelope_fields) ''object'' = None"
  "field_of (map fst chunk_envelope_fields) ''created'' = None" "field_of (map fst chunk_envelope_fields) ''model'' = None"
  "field_of (map fst chunk_envelope_fields) ''choices'' = Some ''choices''" "field_of (map fst chunk_envelope_fields) ''usage'' = Some ''usage''"
  by code_simp+

text \<open>The check reads the one choice of the chunk.\<close>

lemma chunk_passes:
  assumes "delta_ok d"
  shows "validateCompatibleChatChunk (fst (encodeStreamChunk created i model d finishReason usage)) = None"
proof -
  let ?ms = "chunk_members created i model d finishReason (map_option total_usage usage)"
  let ?choice = "obj_tokens (choice_members d finishReason)"
  have choice: "decode_struct chunk_choice_fields x ?choice = Some \<lparr>chDelta = obj_tokens (delta_members d)\<rparr>" for x
    unfolding decode_good [OF good_choice] by (simp add: choice_members_def omit_empty_def chunk_choice_fields_def field_of_def)
  have "elements (arr_tokens [?choice]) = [?choice]" "is_array (arr_tokens [?choice])"
    using elements_arr [of "[?choice]" 5] good_stripped [OF good_struct_value [OF good_choice]] by (auto simp: eval_nat_numeral)
  then have choices: "decode_slice (decode_struct chunk_choice_fields) chunk_choice_zero ([], 0) (arr_tokens [?choice]) =
      Some ([\<lparr>chDelta = obj_tokens (delta_members d)\<rparr>], 1)"
    using choice by (simp add: decode_slice_def)
  have "\<exists>u. decode_struct chunk_envelope_fields chunk_envelope_zero (obj_tokens ?ms) =
      Some \<lparr>ceError = [], ceChoices = ([\<lparr>chDelta = obj_tokens (delta_members d)\<rparr>], 1), ceUsage = u\<rparr>"
    unfolding decode_good [OF good_chunk] using choices chunk_fields
    by (cases usage) (simp_all add: chunk_members_def omit_none_def, simp_all add: chunk_envelope_fields_def chunk_envelope_zero_def)
  then obtain u where "decode_struct chunk_envelope_fields chunk_envelope_zero (obj_tokens ?ms) =
      Some \<lparr>ceError = [], ceChoices = ([\<lparr>chDelta = obj_tokens (delta_members d)\<rparr>], 1), ceUsage = u\<rparr>" ..
  moreover have "jsonObject (obj_tokens (delta_members d))"
    using good_struct_members [OF good_delta, of d] by (simp add: jsonObject_is_object)
  ultimately show ?thesis
    using chunk_read chunk_utf8 delta_passes [OF assms]
    by (simp add: validateCompatibleChatChunk_def check_envelope_def valuePresent_def strip_def slice_list_def)
qed
end
