(* ===== verification/NativeStream.thy ===== *)
theory NativeStream
  imports StreamChunk
begin

text \<open>
  Streams of native protocols (\<open>internal/provider/native_stream.go\<close>). A goroutine reads the upstream's
  events, hands each one to the protocol's mapper and writes the chunks it gets back, as the frames of a
  compatible stream, into a pipe; the event reader of the gateway reads the other end. The mapper keeps
  its state from call to call; \<open>clock n\<close> is what \<open>time.Now\<close> reads in its n-th call. The pipe records what
  was written and how the writer closed it; its reader may go away after a number of writes.
\<close>

section \<open>The pipe\<close>

record pipe =
  pwWritten :: string
  pwReads :: "nat option"
  pwEnd :: "goerr option"

definition new_pipe :: "nat option \<Rightarrow> pipe" where
  "new_pipe reads = \<lparr>pwWritten = [], pwReads = reads, pwEnd = None\<rparr>"

definition closed_pipe :: goerr where
  "closed_pipe = ErrNew ''io: read/write on closed pipe''"

definition pipe_Write :: "string \<Rightarrow> pipe \<Rightarrow> pipe \<times> goerr option" where
  "pipe_Write data p =
     (if pwReads p = Some 0 then (p, Some closed_pipe)
      else (p\<lparr>pwWritten := pwWritten p @ data, pwReads := map_option (\<lambda>n. n - 1) (pwReads p)\<rparr>, None))"

definition pipe_CloseWithError :: "goerr \<Rightarrow> pipe \<Rightarrow> pipe" where
  "pipe_CloseWithError err p = (if pwEnd p = None then p\<lparr>pwEnd := Some err\<rparr> else p)"

definition pipe_Close :: "pipe \<Rightarrow> pipe" where
  "pipe_Close p = pipe_CloseWithError (ErrSentinel IoEOF) p"

fun write_all :: "string list \<Rightarrow> pipe \<Rightarrow> pipe \<times> goerr option" where
  "write_all [] p = (p, None)"
| "write_all (s # ss) p = (case pipe_Write s p of (p', None) \<Rightarrow> write_all ss p' | (p', Some err) \<Rightarrow> (p', Some err))"

section \<open>Mapped chunks\<close>

record native_result =
  nrChunks :: "string list"
  nrDone :: bool

definition no_result :: native_result where
  "no_result = \<lparr>nrChunks = [], nrDone = False\<rparr>"

definition done_result :: native_result where
  "done_result = \<lparr>nrChunks = [], nrDone = True\<rparr>"

type_synonym 'm mapper = "int \<Rightarrow> 'm \<Rightarrow> string \<Rightarrow> string \<Rightarrow> 'm \<times> (goerr + native_result)"

definition nativeStreamEOF :: string where
  "nativeStreamEOF = ''__model_velo_eof__''"

definition upstream_activity :: string where
  "upstream_activity = '': upstream-activity'' @ [CHR 0x0A, CHR 0x0A]"

fun chunk_loop :: "string list \<Rightarrow> pipe \<Rightarrow> pipe \<times> goerr option" where
  "chunk_loop [] p = (p, None)"
| "chunk_loop (c # cs) p =
     (case validateCompatibleChatChunk c of
        Some err \<Rightarrow> (p, Some err)
      | None \<Rightarrow>
          (case write_all [''data: '', c, [CHR 0x0A, CHR 0x0A]] p of
             (p', Some err) \<Rightarrow> (p', Some err)
           | (p', None) \<Rightarrow> chunk_loop cs p'))"

definition writeMappedChunks :: "native_result \<Rightarrow> pipe \<Rightarrow> pipe \<times> goerr option" where
  "writeMappedChunks result p =
     (case chunk_loop (nrChunks result) p of
        (p', Some err) \<Rightarrow> (p', Some err)
      | (p', None) \<Rightarrow> if nrDone result then pipe_Write (''data: [DONE]'' @ [CHR 0x0A, CHR 0x0A]) p' else (p', None))"

text \<open>The result says whether the stream was finished.\<close>

definition finishNativeStream :: "'m mapper \<Rightarrow> int \<Rightarrow> 'm \<Rightarrow> pipe \<Rightarrow> pipe \<times> bool" where
  "finishNativeStream mapper now m p =
     (case mapper now m nativeStreamEOF [] of
        (m', Inl err) \<Rightarrow> (p, False)
      | (m', Inr result) \<Rightarrow>
          if \<not> nrDone result then (p, False)
          else
            (case writeMappedChunks result p of
               (p', Some err) \<Rightarrow> (pipe_CloseWithError err p', True)
             | (p', None) \<Rightarrow> (pipe_Close p', True)))"

text \<open>The end of the upstream's response: the mapper may accept it as the end of the stream.\<close>

definition upstream_ended :: "'m mapper \<Rightarrow> int \<Rightarrow> 'm \<Rightarrow> goerr \<Rightarrow> pipe \<Rightarrow> pipe" where
  "upstream_ended mapper now m err p =
     (if errors_is err IoEOF then
        (case finishNativeStream mapper now m p of
           (p', True) \<Rightarrow> p'
         | (p', False) \<Rightarrow> pipe_CloseWithError (ErrSentinel ErrInvalidStream) p')
      else pipe_CloseWithError err p)"

text \<open>One event: what the mapper answers is written. \<open>quiet\<close> says whether silence is reported as activity.\<close>

definition map_event ::
  "bool \<Rightarrow> 'm mapper \<Rightarrow> int \<Rightarrow> 'm \<Rightarrow> string \<Rightarrow> string \<Rightarrow> pipe \<Rightarrow> 'm \<times> pipe \<times> bool" where
  "map_event quiet mapper now m event data p =
     (case mapper now m event data of
        (m', Inl err) \<Rightarrow> (m', pipe_CloseWithError err p, True)
      | (m', Inr result) \<Rightarrow>
          (case (if quiet \<and> nrChunks result = [] \<and> \<not> nrDone result then pipe_Write upstream_activity p else (p, None)) of
             (p1, Some err) \<Rightarrow> (m', pipe_CloseWithError err p1, True)
           | (p1, None) \<Rightarrow>
               (case writeMappedChunks result p1 of
                  (p2, Some err) \<Rightarrow> (m', pipe_CloseWithError err p2, True)
                | (p2, None) \<Rightarrow> if nrDone result then (m', pipe_Close p2, True) else (m', p2, False))))"

section \<open>Server-sent events\<close>

record native_event =
  neEvent :: string
  neData :: string
  neActivity :: bool

function native_event_loop ::
  "goerr \<Rightarrow> string \<Rightarrow> string \<Rightarrow> bool \<Rightarrow> string \<Rightarrow> string \<times> (goerr + native_event)" where
  "native_event_loop end_err event data activity body =
     (case readStreamLine end_err body of
        (rest, Inl err) \<Rightarrow>
          if errors_is err IoEOF \<and> data \<noteq> [] then (rest, Inr \<lparr>neEvent = event, neData = data, neActivity = True\<rparr>)
          else (rest, Inl err)
      | (rest, Inr line) \<Rightarrow>
          if line = [] then (rest, Inr \<lparr>neEvent = event, neData = data, neActivity = True\<rparr>)
          else if hd line = CHR '':'' then native_event_loop end_err event data True rest
          else
            (case splitStreamField line of
               (field, v) \<Rightarrow>
                 if field = ''event'' then
                   (if \<not> utf8_valid v then (rest, Inl (ErrSentinel ErrInvalidStream))
                    else native_event_loop end_err v data True rest)
                 else if field = ''data'' then
                   (let additional = int (length v) + (if data \<noteq> [] then 1 else 0) in
                    if int (length data) + additional > maxStreamEventBytes then (rest, Inl (ErrSentinel ErrResponseTooLarge))
                    else native_event_loop end_err event (if data \<noteq> [] then data @ [CHR 0x0A] @ v else v) True rest)
                 else native_event_loop end_err event data True rest))"
  by pat_completeness auto
termination
  by (relation "measure (\<lambda>(e, ev, d, a, b). length b)") (auto dest!: sym [of _ "readStreamLine _ _"] readStreamLine_shorter)

declare native_event_loop.simps [simp del]

definition readNativeSSEEvent :: "goerr \<Rightarrow> string \<Rightarrow> string \<times> (goerr + native_event)" where
  "readNativeSSEEvent end_err body = native_event_loop end_err [] [] False body"

lemma native_event_shrinks:
  "native_event_loop e ev d a body = (rest, r) \<Longrightarrow>
     length rest \<le> length body \<and> (\<forall>x. r = Inr x \<longrightarrow> length rest < length body \<or> d \<noteq> [])"
proof (induction e ev d a body rule: native_event_loop.induct)
  case (1 e ev d a body)
  obtain b l where line: "readStreamLine e body = (b, l)" by fastforce
  have shrink: "length b \<le> length body" using readStreamLine_shrinks [OF line] .
  show ?case
  proof (cases l)
    case (Inl err)
    with 1(5) line shrink show ?thesis
      by (auto simp: native_event_loop.simps [of e ev d a body] split: if_split_asm)
  next
    case (Inr x)
    have less: "length b < length body" using readStreamLine_shorter line Inr by simp
    obtain f v where fv: "splitStreamField x = (f, v)" by fastforce
    show ?thesis
      using 1(5) line Inr less fv "1.IH" [OF line [symmetric] Inr]
      by (simp add: native_event_loop.simps [of e ev d a body] Let_def split: if_split_asm) fastforce+
  qed
qed

lemma readNativeSSEEvent_shorter: "readNativeSSEEvent e body = (rest, Inr x) \<Longrightarrow> length rest < length body"
  using native_event_shrinks [of e "[]" "[]" False body rest "Inr x"] by (auto simp: readNativeSSEEvent_def)

function mapSSEStream :: "'m mapper \<Rightarrow> (nat \<Rightarrow> int) \<Rightarrow> nat \<Rightarrow> 'm \<Rightarrow> goerr \<Rightarrow> string \<Rightarrow> pipe \<Rightarrow> pipe" where
  "mapSSEStream mapper clock n m end_err body p =
     (case readNativeSSEEvent end_err body of
        (rest, Inl err) \<Rightarrow> upstream_ended mapper (clock n) m err p
      | (rest, Inr x) \<Rightarrow>
          if neActivity x \<and> neData x = [] then
            (case pipe_Write upstream_activity p of
               (p', Some err) \<Rightarrow> pipe_CloseWithError err p'
             | (p', None) \<Rightarrow> mapSSEStream mapper clock n m end_err rest p')
          else
            (case map_event True mapper (clock n) m (neEvent x) (neData x) p of
               (m', p', True) \<Rightarrow> p'
             | (m', p', False) \<Rightarrow> mapSSEStream mapper clock (Suc n) m' end_err rest p'))"
  by pat_completeness auto
termination
  by (relation "measure (\<lambda>(mp, c, n, m, e, b, p). length b)") (auto dest!: sym [of _ "readNativeSSEEvent _ _"] readNativeSSEEvent_shorter)

declare mapSSEStream.simps [simp del]

section \<open>JSON lines\<close>

function mapJSONLinesStream :: "'m mapper \<Rightarrow> (nat \<Rightarrow> int) \<Rightarrow> nat \<Rightarrow> 'm \<Rightarrow> goerr \<Rightarrow> string \<Rightarrow> pipe \<Rightarrow> pipe" where
  "mapJSONLinesStream mapper clock n m end_err body p =
     (case readStreamLine end_err body of
        (rest, Inl err) \<Rightarrow> upstream_ended mapper (clock n) m err p
      | (rest, Inr line) \<Rightarrow>
          if trim_space line = [] then mapJSONLinesStream mapper clock n m end_err rest p
          else
            (case map_event False mapper (clock n) m [] (trim_space line) p of
               (m', p', True) \<Rightarrow> p'
             | (m', p', False) \<Rightarrow> mapJSONLinesStream mapper clock (Suc n) m' end_err rest p'))"
  by pat_completeness auto
termination
  by (relation "measure (\<lambda>(mp, c, n, m, e, b, p). length b)") (auto dest!: sym [of _ "readStreamLine _ _"] readStreamLine_shorter)

declare mapJSONLinesStream.simps [simp del]

section \<open>AWS event streams\<close>

text \<open>
  The decoder of the AWS library is a parameter: the messages it finds in the body, then the error it
  returns and whether the read limit was the reason. A header is a value by its name.
\<close>

datatype aws_value = StringValue string | OtherValue

record aws_message =
  amHeaders :: "string \<Rightarrow> aws_value option"
  amPayload :: string

definition eventstreamHeader :: "(string \<Rightarrow> aws_value option) \<Rightarrow> string \<Rightarrow> string" where
  "eventstreamHeader headers name = (case headers name of Some (StringValue s) \<Rightarrow> s | _ \<Rightarrow> [])"

fun mapAWSStream ::
  "'m mapper \<Rightarrow> (nat \<Rightarrow> int) \<Rightarrow> nat \<Rightarrow> 'm \<Rightarrow> aws_message list \<Rightarrow> goerr \<Rightarrow> bool \<Rightarrow> pipe \<Rightarrow> pipe" where
  "mapAWSStream mapper clock n m [] err exceeded p =
     (if exceeded then pipe_CloseWithError (ErrSentinel ErrResponseTooLarge) p else upstream_ended mapper (clock n) m err p)"
| "mapAWSStream mapper clock n m (message # messages) err exceeded p =
     (if eventstreamHeader (amHeaders message) '':message-type'' = ''exception''
      then pipe_CloseWithError (ErrSentinel ErrInvalidStream) p
      else case map_event True mapper (clock n) m (eventstreamHeader (amHeaders message) '':event-type'') (amPayload message) p of
        (m', p', True) \<Rightarrow> p'
      | (m', p', False) \<Rightarrow> mapAWSStream mapper clock (Suc n) m' messages err exceeded p')"

text \<open>The limit on one message. \<open>source\<close> is what a read of so many bytes gives: the count and an error.\<close>

record read_limiter =
  rlRemaining :: int
  rlExceeded :: bool

definition limiter_Read :: "(int \<Rightarrow> int \<times> goerr option) \<Rightarrow> int \<Rightarrow> read_limiter \<Rightarrow> read_limiter \<times> int \<times> goerr option" where
  "limiter_Read source len l =
     (if rlRemaining l \<le> 0 then (l\<lparr>rlExceeded := True\<rparr>, 0, Some (ErrSentinel ErrResponseTooLarge))
      else
        (case source (if len > rlRemaining l then rlRemaining l else len) of
           (got, err) \<Rightarrow> (l\<lparr>rlRemaining := rlRemaining l - got\<rparr>, got, err)))"

section \<open>Results\<close>

definition streamResult ::
  "int \<Rightarrow> string \<Rightarrow> string \<Rightarrow> stream_delta \<Rightarrow> string \<Rightarrow> completion_usage option \<Rightarrow> bool \<Rightarrow> native_result \<times> completion_usage option" where
  "streamResult created i model d finishReason usage finished =
     (case encodeStreamChunk created i model d finishReason usage of
        (chunk, usage') \<Rightarrow> (\<lparr>nrChunks = [chunk], nrDone = finished\<rparr>, usage'))"

definition invalidNativeStreamJSON :: "'a fields \<Rightarrow> 'a \<Rightarrow> string \<Rightarrow> goerr + 'a" where
  "invalidNativeStreamJSON fs zero data =
     (if \<not> utf8_valid data then Inl (ErrSentinel ErrInvalidStream)
      else case json_read data of
        None \<Rightarrow> Inl (ErrSentinel ErrInvalidStream)
      | Some ts \<Rightarrow>
          (case decode_struct fs zero ts of None \<Rightarrow> Inl (ErrWrap [ErrSentinel ErrInvalidStream]) | Some x \<Rightarrow> Inr x))"

section \<open>Streams\<close>

text \<open>The stream the gateway reads: what the goroutine writes while the reader stays.\<close>

definition converted_stream :: "pipe \<Rightarrow> event_stream" where
  "converted_stream p = \<lparr>esBody = pwWritten p, esEnd = (case pwEnd p of None \<Rightarrow> ErrSentinel IoEOF | Some err \<Rightarrow> err),
     esOpen = True, esFinished = False\<rparr>"

definition newMappedSSEStream ::
  "'m mapper \<Rightarrow> (nat \<Rightarrow> int) \<Rightarrow> 'm \<Rightarrow> (string \<times> goerr) option \<Rightarrow> goerr + event_stream" where
  "newMappedSSEStream mapper clock m body =
     (case body of
        None \<Rightarrow> Inl (ErrSentinel ErrInvalidStream)
      | Some (bytes, end_err) \<Rightarrow> Inr (converted_stream (mapSSEStream mapper clock 0 m end_err bytes (new_pipe None))))"

definition newMappedJSONLinesStream ::
  "'m mapper \<Rightarrow> (nat \<Rightarrow> int) \<Rightarrow> 'm \<Rightarrow> (string \<times> goerr) option \<Rightarrow> goerr + event_stream" where
  "newMappedJSONLinesStream mapper clock m body =
     (case body of
        None \<Rightarrow> Inl (ErrSentinel ErrInvalidStream)
      | Some (bytes, end_err) \<Rightarrow> Inr (converted_stream (mapJSONLinesStream mapper clock 0 m end_err bytes (new_pipe None))))"

definition newMappedAWSStream ::
  "'m mapper \<Rightarrow> (nat \<Rightarrow> int) \<Rightarrow> 'm \<Rightarrow> (aws_message list \<times> goerr \<times> bool) option \<Rightarrow> goerr + event_stream" where
  "newMappedAWSStream mapper clock m body =
     (case body of
        None \<Rightarrow> Inl (ErrSentinel ErrInvalidStream)
      | Some (messages, err, exceeded) \<Rightarrow> Inr (converted_stream (mapAWSStream mapper clock 0 m messages err exceeded (new_pipe None))))"

section \<open>The translation\<close>

text \<open>
  What the stream of a native protocol means: the upstream's events (\<open>None\<close> for one without data) are given
  to the mapper one after the other; its chunks, as far as they are valid, are the translation, and it ends
  with the end marker (\<open>None\<close>) or with an error.
\<close>

definition emit :: "native_result \<Rightarrow> string list \<times> goerr option" where
  "emit r = (takeWhile (\<lambda>c. validateCompatibleChatChunk c = None) (nrChunks r),
     if \<forall>c \<in> set (nrChunks r). validateCompatibleChatChunk c = None then None else Some (ErrSentinel ErrInvalidStream))"

definition final_emit :: "(goerr + native_result) \<Rightarrow> string list \<times> goerr option" where
  "final_emit answer =
     (case answer of Inr r \<Rightarrow> if nrDone r then emit r else ([], Some (ErrSentinel ErrInvalidStream)) | Inl e \<Rightarrow> ([], Some (ErrSentinel ErrInvalidStream)))"

fun translate ::
  "'m mapper \<Rightarrow> (nat \<Rightarrow> int) \<Rightarrow> nat \<Rightarrow> 'm \<Rightarrow> (string \<times> string) option list \<Rightarrow> goerr \<Rightarrow> string list \<times> goerr option" where
  "translate mapper clock n m [] err =
     (if errors_is err IoEOF then final_emit (snd (mapper (clock n) m nativeStreamEOF [])) else ([], Some err))"
| "translate mapper clock n m (None # items) err = translate mapper clock n m items err"
| "translate mapper clock n m (Some (event, data) # items) err =
     (case mapper (clock n) m event data of
        (m', Inl e) \<Rightarrow> ([], Some e)
      | (m', Inr r) \<Rightarrow>
          (case emit r of
             (cs, Some e) \<Rightarrow> (cs, Some e)
           | (cs, None) \<Rightarrow>
               if nrDone r then (cs, None)
               else case translate mapper clock (Suc n) m' items err of (cs', e) \<Rightarrow> (cs @ cs', e)))"

text \<open>The goroutine over the list of events, and the lists the three readers produce.\<close>

fun drive ::
  "bool \<Rightarrow> 'm mapper \<Rightarrow> (nat \<Rightarrow> int) \<Rightarrow> nat \<Rightarrow> 'm \<Rightarrow> (string \<times> string) option list \<Rightarrow> goerr \<Rightarrow> pipe \<Rightarrow> pipe" where
  "drive quiet mapper clock n m [] err p = upstream_ended mapper (clock n) m err p"
| "drive quiet mapper clock n m (None # items) err p =
     (case pipe_Write upstream_activity p of
        (p', Some e) \<Rightarrow> pipe_CloseWithError e p'
      | (p', None) \<Rightarrow> drive quiet mapper clock n m items err p')"
| "drive quiet mapper clock n m (Some (event, data) # items) err p =
     (case map_event quiet mapper (clock n) m event data p of
        (m', p', True) \<Rightarrow> p'
      | (m', p', False) \<Rightarrow> drive quiet mapper clock (Suc n) m' items err p')"

function sse_items :: "goerr \<Rightarrow> string \<Rightarrow> (string \<times> string) option list \<times> goerr" where
  "sse_items e body =
     (case readNativeSSEEvent e body of
        (rest, Inl err) \<Rightarrow> ([], err)
      | (rest, Inr x) \<Rightarrow>
          apfst ((#) (if neActivity x \<and> neData x = [] then None else Some (neEvent x, neData x))) (sse_items e rest))"
  by pat_completeness auto
termination
  by (relation "measure (\<lambda>(e, b). length b)") (auto dest!: sym [of _ "readNativeSSEEvent _ _"] readNativeSSEEvent_shorter)

declare sse_items.simps [simp del]

function json_line_items :: "goerr \<Rightarrow> string \<Rightarrow> (string \<times> string) option list \<times> goerr" where
  "json_line_items e body =
     (case readStreamLine e body of
        (rest, Inl err) \<Rightarrow> ([], err)
      | (rest, Inr line) \<Rightarrow>
          apfst ((@) (if trim_space line = [] then [] else [Some ([], trim_space line)])) (json_line_items e rest))"
  by pat_completeness auto
termination
  by (relation "measure (\<lambda>(e, b). length b)") (auto dest!: sym [of _ "readStreamLine _ _"] readStreamLine_shorter)

declare json_line_items.simps [simp del]

fun aws_items :: "aws_message list \<Rightarrow> goerr \<Rightarrow> bool \<Rightarrow> (string \<times> string) option list \<times> goerr" where
  "aws_items [] err exceeded = ([], if exceeded then ErrSentinel ErrResponseTooLarge else err)"
| "aws_items (message # messages) err exceeded =
     (if eventstreamHeader (amHeaders message) '':message-type'' = ''exception'' then ([], ErrSentinel ErrInvalidStream)
      else apfst ((#) (Some (eventstreamHeader (amHeaders message) '':event-type'', amPayload message))) (aws_items messages err exceeded))"

lemma sse_drive:
  "mapSSEStream mapper clock n m e body p = drive True mapper clock n m (fst (sse_items e body)) (snd (sse_items e body)) p"
proof (induction mapper clock n m e body p rule: mapSSEStream.induct)
  case (1 mapper clock n m e body p)
  obtain rest r where r: "readNativeSSEEvent e body = (rest, r)" by fastforce
  show ?case
    using 1 r by (cases r) (auto simp: mapSSEStream.simps [of mapper clock n m e body p] sse_items.simps [of e body]
        split: prod.split option.split bool.split)
qed

lemma json_lines_drive:
  "mapJSONLinesStream mapper clock n m e body p =
     drive False mapper clock n m (fst (json_line_items e body)) (snd (json_line_items e body)) p"
proof (induction mapper clock n m e body p rule: mapJSONLinesStream.induct)
  case (1 mapper clock n m e body p)
  obtain rest r where r: "readStreamLine e body = (rest, r)" by fastforce
  show ?case
    using 1 r by (cases r) (auto simp: mapJSONLinesStream.simps [of mapper clock n m e body p] json_line_items.simps [of e body]
        split: prod.split bool.split)
qed

lemma aws_drive:
  "mapAWSStream mapper clock n m messages err exceeded p =
     drive True mapper clock n m (fst (aws_items messages err exceeded)) (snd (aws_items messages err exceeded)) p"
proof -
  have "\<not> errors_is (ErrSentinel ErrInvalidStream) IoEOF" "\<not> errors_is (ErrSentinel ErrResponseTooLarge) IoEOF" by simp_all
  then show ?thesis
    by (induction mapper clock n m messages err exceeded p rule: mapAWSStream.induct)
      (auto simp: upstream_ended_def split: prod.split bool.split)
qed

section \<open>What is written\<close>

lemma write_open: "pwReads p = None \<Longrightarrow> pipe_Write d p = (p\<lparr>pwWritten := pwWritten p @ d\<rparr>, None)"
  by (simp add: pipe_Write_def)

lemma close_open: "pwEnd p = None \<Longrightarrow> pipe_CloseWithError e p = p\<lparr>pwEnd := Some e\<rparr>"
  by (simp add: pipe_CloseWithError_def)

lemma write_chunk:
  "pwReads p = None \<Longrightarrow> write_all [''data: '', c, [CHR 0x0A, CHR 0x0A]] p = (p\<lparr>pwWritten := pwWritten p @ chat_frame c\<rparr>, None)"
  by (simp add: write_open chat_frame_def)

lemma chunk_loop_open:
  "pwReads p = None \<Longrightarrow> chunk_loop cs p =
     (p\<lparr>pwWritten := pwWritten p @ concat (map chat_frame (takeWhile (\<lambda>c. validateCompatibleChatChunk c = None) cs))\<rparr>,
      if \<forall>c \<in> set cs. validateCompatibleChatChunk c = None then None else Some (ErrSentinel ErrInvalidStream))"
proof (induction cs arbitrary: p)
  case (Cons c cs)
  show ?case
  proof (cases "validateCompatibleChatChunk c")
    case None
    with Cons.IH [of "p\<lparr>pwWritten := pwWritten p @ chat_frame c\<rparr>"] Cons.prems show ?thesis
      by (simp add: write_chunk del: write_all.simps)
  next
    case (Some err)
    with chunk_error [OF Some] show ?thesis by simp
  qed
qed simp

lemma writeMappedChunks_open:
  assumes "pwReads p = None"
  shows "writeMappedChunks r p = (case emit r of (cs, e) \<Rightarrow>
     (p\<lparr>pwWritten := pwWritten p @ concat (map chat_frame cs) @ (if e = None \<and> nrDone r then chat_frame ''[DONE]'' else [])\<rparr>, e))"
  using assms by (simp add: writeMappedChunks_def chunk_loop_open emit_def write_open chat_frame_def)

text \<open>The frames of a translation, with activity comments between them.\<close>

definition segment :: "string option \<Rightarrow> string" where
  "segment s = (case s of None \<Rightarrow> upstream_activity | Some c \<Rightarrow> chat_frame c)"

definition chunks_of :: "string option list \<Rightarrow> string list" where
  "chunks_of segs = List.map_filter id segs"

lemma chunks_of_simps [simp]:
  "chunks_of [] = []" "chunks_of (None # segs) = chunks_of segs" "chunks_of (Some c # segs) = c # chunks_of segs"
  "chunks_of (segs @ segs') = chunks_of segs @ chunks_of segs'" "chunks_of (map Some cs) = cs"
  by (simp_all add: chunks_of_def map_filter_simps) (simp_all add: List.map_filter_def comp_def)

definition wrote :: "string option list \<Rightarrow> goerr option \<Rightarrow> pipe \<Rightarrow> pipe \<Rightarrow> bool" where
  "wrote segs outcome p q \<longleftrightarrow>
     q = p\<lparr>pwWritten := pwWritten p @ concat (map segment segs) @ (if outcome = None then chat_frame ''[DONE]'' else []),
           pwEnd := Some (case outcome of None \<Rightarrow> ErrSentinel IoEOF | Some e \<Rightarrow> e)\<rparr>"

lemma wrote_chunks:
  assumes "pwReads p = None" "pwEnd p = None" "emit r = (cs, e)" "nrDone r \<or> e \<noteq> None"
  shows "wrote (map Some cs) e p (case writeMappedChunks r p of (p', Some err) \<Rightarrow> pipe_CloseWithError err p' | (p', None) \<Rightarrow> pipe_Close p')"
  using assms
  by (cases e) (auto simp: writeMappedChunks_open wrote_def close_open pipe_Close_def segment_def comp_def)

lemma upstream_ended_writes:
  assumes "pwReads p = None" "pwEnd p = None" "translate mapper clock n m [] err = (cs, e)"
  shows "wrote (map Some cs) e p (upstream_ended mapper (clock n) m err p)"
proof -
  obtain m' a where a: "mapper (clock n) m nativeStreamEOF [] = (m', a)" by fastforce
  show ?thesis
  proof (cases "errors_is err IoEOF \<and> (\<exists>r. a = Inr r \<and> nrDone r)")
    case True
    then obtain r where r: "a = Inr r" "nrDone r" by blast
    with True a assms(3) have "emit r = (cs, e)" by (simp add: final_emit_def)
    from wrote_chunks [OF assms(1,2) this] r(2) True a r(1) show ?thesis
      by (auto simp: upstream_ended_def finishNativeStream_def split: prod.splits option.splits)
  next
    case False
    with assms a show ?thesis
      by (auto simp: upstream_ended_def finishNativeStream_def final_emit_def wrote_def close_open split: sum.splits if_split_asm)
  qed
qed

lemma wrote_more:
  assumes "wrote segs e (p\<lparr>pwWritten := pwWritten p @ concat (map segment segs0)\<rparr>) q"
  shows "wrote (segs0 @ segs) e p q"
  using assms by (simp add: wrote_def)

lemma drive_writes:
  assumes "pwReads p = None" "pwEnd p = None" "translate mapper clock n m items err = (cs, e)"
  shows "\<exists>segs. chunks_of segs = cs \<and> wrote segs e p (drive quiet mapper clock n m items err p)"
  using assms
proof (induction mapper clock n m items err arbitrary: p cs rule: translate.induct)
  case (1 mapper clock n m err)
  then show ?case using upstream_ended_writes [OF 1] by (intro exI [of _ "map Some cs"]) simp
next
  case (2 mapper clock n m items err)
  let ?p = "p\<lparr>pwWritten := pwWritten p @ concat (map segment [None])\<rparr>"
  from 2 have "\<exists>segs. chunks_of segs = cs \<and> wrote segs e ?p (drive quiet mapper clock n m items err ?p)" by simp
  then obtain segs where "chunks_of segs = cs" "wrote segs e ?p (drive quiet mapper clock n m items err ?p)" by blast
  with wrote_more [OF this(2)] 2(2) show ?case
    by (intro exI [of _ "None # segs"]) (simp add: write_open segment_def)
next
  case (3 mapper clock n m event data items err)
  obtain m' a where a: "mapper (clock n) m event data = (m', a)" by fastforce
  show ?case
  proof (cases a)
    case (Inl f)
    with 3 a show ?thesis by (intro exI [of _ "[]"]) (auto simp: map_event_def close_open wrote_def)
  next
    case (Inr r)
    obtain cs1 e1 where em: "emit r = (cs1, e1)" by fastforce
    define idle where "idle \<longleftrightarrow> quiet \<and> nrChunks r = [] \<and> \<not> nrDone r"
    define segs0 where "segs0 = (if idle then [None] else []) @ map Some cs1"
    define p1 where "p1 = (if idle then p\<lparr>pwWritten := pwWritten p @ upstream_activity\<rparr> else p)"
    have p1: "pwReads p1 = None" "pwEnd p1 = None" using 3(2,3) by (simp_all add: p1_def)
    have ev: "map_event quiet mapper (clock n) m event data p =
        (case writeMappedChunks r p1 of
           (p2, Some err) \<Rightarrow> (m', pipe_CloseWithError err p2, True)
         | (p2, None) \<Rightarrow> if nrDone r then (m', pipe_Close p2, True) else (m', p2, False))"
      using a Inr 3(2) by (auto simp: map_event_def idle_def p1_def write_open split: prod.split option.split)
    show ?thesis
    proof (cases "nrDone r \<or> e1 \<noteq> None")
      case True
      then have "\<not> idle \<or> e1 \<noteq> None" by (auto simp: idle_def)
      moreover have "e1 = None" if idle using em that by (auto simp: idle_def emit_def)
      ultimately have "p1 = p" by (auto simp: p1_def)
      moreover have "snd (writeMappedChunks r p1) = e1" by (simp add: writeMappedChunks_open p1 em)
      ultimately show ?thesis using wrote_chunks [OF p1 em True] ev True a Inr em 3(4)
        by (intro exI [of _ "map Some cs"]) (auto split: prod.splits option.splits if_split_asm)
    next
      case False
      let ?p = "p\<lparr>pwWritten := pwWritten p @ concat (map segment segs0)\<rparr>"
      obtain cs2 where t: "translate mapper clock (Suc n) m' items err = (cs2, e)" "cs = cs1 @ cs2"
        using 3(4) a Inr em False by (auto split: prod.split_asm)
      have "\<exists>segs. chunks_of segs = cs2 \<and> wrote segs e ?p (drive quiet mapper clock (Suc n) m' items err ?p)"
        using "3.IH" [OF a [symmetric] Inr em [symmetric] _ _ _ _ t(1), of ?p] 3(2,3) False by auto
      then obtain segs where segs: "chunks_of segs = cs2" "wrote segs e ?p (drive quiet mapper clock (Suc n) m' items err ?p)" by blast
      have "map_event quiet mapper (clock n) m event data p = (m', ?p, False)"
        using ev False em p1 by (auto simp: writeMappedChunks_open segs0_def p1_def segment_def comp_def)
      with wrote_more [OF segs(2)] segs(1) t(2) show ?thesis
        by (intro exI [of _ "segs0 @ segs"]) (simp add: segs0_def)
    qed
  qed
qed

section \<open>What is read\<close>

definition stream_at :: "goerr \<Rightarrow> string \<Rightarrow> event_stream" where
  "stream_at e body = \<lparr>esBody = body, esEnd = e, esOpen = True, esFinished = False\<rparr>"

lemma next_activity: "next_loop chunkError [] (stream_at e (upstream_activity @ rest)) = next_loop chunkError [] (stream_at e rest)"
proof -
  have line: "readStreamLine e (upstream_activity @ rest) = (CHR 0x0A # rest, Inr '': upstream-activity'')"
    using readStreamLine_line [of "'': upstream-activity''" e "CHR 0x0A # rest"]
    by (simp add: upstream_activity_def trim_suffix_def stream_limits)
  have blank: "readStreamLine e (CHR 0x0A # rest) = (rest, Inr [])"
    using readStreamLine_line [of "[]" e rest] by (simp add: stream_limits)
  show ?thesis
    using line blank unfolding stream_at_def
    by (simp add: next_loop.simps [of chunkError "[]" "\<lparr>esBody = upstream_activity @ rest, esEnd = e, esOpen = True, esFinished = False\<rparr>"]
        next_loop.simps [of chunkError "[]" "\<lparr>esBody = CHR 0x0A # rest, esEnd = e, esOpen = True, esFinished = False\<rparr>"])
qed

lemma read_activity: "read_events chunkError k (stream_at e (upstream_activity @ rest)) = read_events chunkError k (stream_at e rest)"
  by (cases k) (simp_all add: events_Next_def next_activity, simp add: stream_at_def)

lemma read_frame:
  assumes "payload_ok c" "c \<noteq> ''[DONE]''" "chunkError c = None"
  shows "read_events chunkError (Suc k) (stream_at e (chat_frame c @ rest)) =
    (\<lparr>evData = c, evDone = False\<rparr>, None) # read_events chunkError k (stream_at e rest)"
  using next_loop_frame [OF assms(1), of chunkError rest "stream_at e []"] assms(2,3) payload_trim [OF assms(1)]
  by (simp add: events_Next_def stream_at_def decodeEvent_def)

lemma read_done:
  "read_events chunkError (Suc k) (stream_at e (chat_frame ''[DONE]'')) = (done_event, None) # replicate k (no_event, Some (ErrSentinel IoEOF))"
  using next_loop_frame [OF done_payload, of chunkError "[]" "stream_at e []"] payload_trim [OF done_payload]
  by (simp add: events_Next_def stream_at_def decodeEvent_def read_events_finished done_event_def)

lemma read_end: "read_events chunkError k (stream_at e []) = replicate k (no_event, Some e)"
proof (induction k)
  case (Suc k)
  have "events_Next chunkError (stream_at e []) = (stream_at e [], no_event, Some e)"
    by (simp add: events_Next_def stream_at_def next_loop_code Let_def)
  with Suc show ?case by simp
qed simp

lemma read_segments:
  assumes "\<forall>c \<in> set (chunks_of segs). payload_ok c \<and> c \<noteq> ''[DONE]'' \<and> chunkError c = None"
  shows "read_events chunkError (length (chunks_of segs) + k) (stream_at e (concat (map segment segs) @ rest)) =
    map (\<lambda>c. (\<lparr>evData = c, evDone = False\<rparr>, None)) (chunks_of segs) @ read_events chunkError k (stream_at e rest)"
  using assms
proof (induction segs)
  case (Cons s segs)
  then show ?case by (cases s) (simp_all add: segment_def read_activity read_frame del: read_events.simps)
qed simp

lemma emit_valid: "emit r = (cs, e) \<Longrightarrow> c \<in> set cs \<Longrightarrow> validateCompatibleChatChunk c = None \<and> c \<in> set (nrChunks r)"
  by (auto simp: emit_def dest: set_takeWhileD)

text \<open>The events the gateway gets of a translation.\<close>

definition translated_events :: "nat \<Rightarrow> string list \<times> goerr option \<Rightarrow> (stream_event \<times> goerr option) list" where
  "translated_events k t =
     map (\<lambda>c. (\<lparr>evData = c, evDone = False\<rparr>, None)) (fst t) @
     (case snd t of
        None \<Rightarrow> (done_event, None) # replicate k (no_event, Some (ErrSentinel IoEOF))
      | Some e \<Rightarrow> replicate (Suc k) (no_event, Some e))"

definition chunk_fits :: "string \<Rightarrow> bool" where
  "chunk_fits c \<longleftrightarrow> int (length c) + 6 \<le> maxStreamLineBytes"

section \<open>Mappers\<close>

text \<open>
  What the stream relies on: the chunks a mapper gives are JSON texts without white space. Every protocol's
  mapper is an instance.
\<close>

locale stream_mapper =
  fixes mapper :: "'m mapper"
  assumes chunks_compact: "mapper now m event data = (m', Inr r) \<Longrightarrow> c \<in> set (nrChunks r) \<Longrightarrow> json_compact c = Some c"
begin

lemma emit_chunks: "mapper now m event data = (m', Inr r) \<Longrightarrow> emit r = (cs, e) \<Longrightarrow> c \<in> set cs \<Longrightarrow>
    validateCompatibleChatChunk c = None \<and> json_compact c = Some c"
  using emit_valid chunks_compact by blast

lemma translate_chunks:
  "c \<in> set (fst (translate mapper clock n m items err)) \<Longrightarrow> validateCompatibleChatChunk c = None \<and> json_compact c = Some c"
proof (induction items arbitrary: n m)
  case Nil
  obtain m' a where "mapper (clock n) m nativeStreamEOF [] = (m', a)" by fastforce
  with Nil show ?case
    by (cases a) (auto simp: final_emit_def split: if_split_asm dest!: emit_chunks [where c = c, OF _ prod.collapse [symmetric]])
next
  case (Cons item items)
  show ?case
  proof (cases item)
    case (Some x)
    obtain event data m' a where x: "x = (event, data)" "mapper (clock n) m event data = (m', a)" by fastforce
    show ?thesis
    proof (cases a)
      case (Inr r)
      obtain cs e where "emit r = (cs, e)" by fastforce
      moreover obtain cs2 e2 where t: "translate mapper clock (Suc n) m' items err = (cs2, e2)" by fastforce
      moreover have "c \<in> set cs2 \<Longrightarrow> validateCompatibleChatChunk c = None \<and> json_compact c = Some c"
        using Cons.IH [of "Suc n" m'] t by simp
      ultimately show ?thesis using Cons.prems Some x Inr emit_chunks [of "clock n" m event data m' r cs e c]
        by (auto split: option.split_asm if_split_asm)
    qed (use Cons Some x in simp)
  qed (use Cons in simp)
qed

lemma driven_stream_read:
  assumes "\<forall>c \<in> set (fst (translate mapper clock n m items err)). chunk_fits c"
  shows "read_events validateCompatibleChatChunk (length (fst (translate mapper clock n m items err)) + 1 + k)
      (converted_stream (drive quiet mapper clock n m items err (new_pipe None))) =
    translated_events k (translate mapper clock n m items err)"
proof -
  obtain cs e where t: "translate mapper clock n m items err = (cs, e)" by fastforce
  obtain segs where segs: "chunks_of segs = cs" "wrote segs e (new_pipe None) (drive quiet mapper clock n m items err (new_pipe None))"
    using drive_writes [OF _ _ t, of "new_pipe None" quiet] by (auto simp: new_pipe_def)
  then have conv: "converted_stream (drive quiet mapper clock n m items err (new_pipe None)) =
      stream_at (case e of None \<Rightarrow> ErrSentinel IoEOF | Some e \<Rightarrow> e) (concat (map segment segs) @ (if e = None then chat_frame ''[DONE]'' else []))"
    by (simp add: wrote_def converted_stream_def stream_at_def new_pipe_def)
  have ok: "\<forall>c \<in> set (chunks_of segs). payload_ok c \<and> c \<noteq> ''[DONE]'' \<and> validateCompatibleChatChunk c = None"
    using segs(1) t assms translate_chunks [where clock = clock and n = n and m = m and items = items and err = err] compact_payload
    by (auto simp: chunk_fits_def)
  show ?thesis
    using read_segments [OF ok, of "Suc k" _ "if e = None then chat_frame ''[DONE]'' else []"] t segs(1) read_done read_end
    unfolding conv by (cases e) (simp_all add: translated_events_def del: read_events.simps)
qed

end

section \<open>Reading frames\<close>

text \<open>What the event reader makes of a frame the gateway itself would write, and of the end of the body.\<close>

lemma sse_data_event:
  assumes "payload_ok p"
  shows "sse_items e (chat_frame p @ rest) = apfst ((#) (Some ([], p))) (sse_items e rest)"
proof -
  have p: "p \<noteq> []" "CHR 0x0A \<notin> set p" "int (length p) + 6 \<le> maxStreamLineBytes" "last p \<noteq> CHR 0x0D"
    using assms trim_space_last by (auto simp: payload_ok_def)
  have line: "readStreamLine e (chat_frame p @ rest) = (CHR 0x0A # rest, Inr (''data: '' @ p))"
    using readStreamLine_line [of "''data: '' @ p" e "CHR 0x0A # rest"] p by (simp add: chat_frame_def trim_suffix_def)
  have blank: "readStreamLine e (CHR 0x0A # rest) = (rest, Inr [])"
    using readStreamLine_line [of "[]" e rest] by (simp add: stream_limits)
  have split: "splitStreamField (''data: '' @ p) = (''data'', p)" by (simp add: splitStreamField_def)
  have "readNativeSSEEvent e (chat_frame p @ rest) = (rest, Inr \<lparr>neEvent = [], neData = p, neActivity = True\<rparr>)"
    using p line blank split
    by (simp add: readNativeSSEEvent_def native_event_loop.simps [of e _ _ _ "chat_frame p @ rest"]
        native_event_loop.simps [of e _ _ _ "CHR 0x0A # rest"] stream_limits)
  with p(1) show ?thesis by (simp add: sse_items.simps [of e "chat_frame p @ rest"])
qed

lemma sse_end: "sse_items e [] = ([], e)"
proof -
  have line: "readStreamLine e [] = ([], Inl e)" by (simp add: readStreamLine_def read_line_loop_code(1) stream_limits)
  have "readNativeSSEEvent e [] = ([], Inl e)" unfolding readNativeSSEEvent_def by (subst native_event_loop.simps) (simp add: line)
  then show ?thesis by (subst sse_items.simps) simp
qed

lemma mapped_case:
  assumes "case out of (s, Inr r) \<Rightarrow> P s r | (s, Inl e) \<Rightarrow> False"
  obtains s r where "out = (s, Inr r)" "P s r"
proof (cases out)
  case (Pair s x)
  with assms that show ?thesis by (cases x) auto
qed

end
