(* ===== verification/GoFloatText.thy ===== *)
theory GoFloatText
  imports Completion
begin

text \<open>
  How \<open>encoding/json\<close> writes a \<open>float64\<close>: the shortest decimal that rounds to it, the nearest one when
  there are two, in plain notation from 1e-6 up to 1e21 and with an exponent outside.
\<close>

text \<open>The least power of ten above a positive number: its binary exponent gives it up to one.\<close>

definition decimal_exponent :: "rat \<Rightarrow> int" where
  "decimal_exponent x =
     (let e = rat_exp x * 30103 div 100000 + 1 in
      if 10 powi e \<le> x then e + 1 else if x < 10 powi (e - 1) then e - 1 else e)"

text \<open>The digits and the power of ten they are multiplied with, for the first length that is enough.\<close>

fun shortest_digits :: "int list \<Rightarrow> int \<Rightarrow> rat \<Rightarrow> int \<times> int" where
  "shortest_digits [] e x = (0, 0)"
| "shortest_digits (n # ns) e x =
     (let y = x * 10 powi (n - e); low = \<lfloor>y\<rfloor> in
      case filter (\<lambda>d. fl64 (of_int d * 10 powi (e - n)) = x) [low, low + 1] of
        [] \<Rightarrow> shortest_digits ns e x
      | [d] \<Rightarrow> (d, e - n)
      | d # d' # ds \<Rightarrow> (if y - of_int d \<le> of_int d' - y then d else d', e - n))"

function strip_zeros :: "int \<Rightarrow> int \<Rightarrow> int \<times> int" where
  "strip_zeros d k = (if 0 < d \<and> d mod 10 = 0 then strip_zeros (d div 10) (k + 1) else (d, k))"
  by pat_completeness auto
termination
  by (relation "measure (\<lambda>(d, k). nat d)") auto

declare strip_zeros.simps [simp del]

definition plain_decimal :: "string \<Rightarrow> int \<Rightarrow> string" where
  "plain_decimal ds point =
     (if point \<le> 0 then ''0.'' @ replicate (nat (- point)) (CHR ''0'') @ ds
      else if int (length ds) \<le> point then ds @ replicate (nat point - length ds) (CHR ''0'')
      else take (nat point) ds @ ''.'' @ drop (nat point) ds)"

definition exponent_decimal :: "string \<Rightarrow> int \<Rightarrow> string" where
  "exponent_decimal ds point =
     take 1 ds @ (if length ds = 1 then [] else ''.'' @ drop 1 ds) @ ''e'' @ (if point < 1 then ''-'' else ''+'') @ int_text \<bar>point - 1\<bar>"

definition positive_float :: "rat \<Rightarrow> string" where
  "positive_float x =
     (let e = decimal_exponent x; (d0, k0) = shortest_digits [1..17] e x; (d, k) = strip_zeros d0 k0;
          ds = int_text d; point = int (length ds) + k in
      if x < 1 / 1000000 \<or> 10 ^ 21 \<le> x then exponent_decimal ds point else plain_decimal ds point)"

definition float_text :: "rat \<Rightarrow> string" where
  "float_text x = (if x = 0 then ''0'' else if x < 0 then ''-'' @ positive_float (- x) else positive_float x)"

definition float_value :: "rat \<Rightarrow> raw" where
  "float_value x = [TNum (float_text x)]"
end
