(* ===== verification/JsonText.thy ===== *)
theory JsonText
  imports StreamChunk
begin

text \<open>
  What comes out of \<open>json.Unmarshal\<close> of a valid UTF-8 text is valid UTF-8, and this goes through structs,
  pointers to them and slices: a property every field's decoder keeps is kept by the whole.
\<close>

definition texts_ok :: "raw \<Rightarrow> bool" where
  "texts_ok r \<longleftrightarrow> list_all wf_token r \<and> utf8_value r"

lemma texts_ok_sub: "texts_ok r \<Longrightarrow> set s \<subseteq> set r \<Longrightarrow> texts_ok s"
  by (auto simp: texts_ok_def utf8_value_def list_all_iff)

lemma texts_ok_text: "texts_ok r \<Longrightarrow> utf8_valid (raw_text r)"
  using raw_text_valid by (simp add: texts_ok_def)

lemma strip_sub: "set (strip r) \<subseteq> set r"
  by (auto simp: strip_def dest!: set_dropWhileD)

lemma split_parts_sub: "p \<in> set (split_parts d acc ts) \<Longrightarrow> set p \<subseteq> set acc \<union> set ts"
  by (induction d acc ts rule: split_parts.induct) (fastforce split: if_split_asm)+

lemma elements_sub: "e \<in> set (elements r) \<Longrightarrow> set e \<subseteq> set r"
proof -
  assume "e \<in> set (elements r)"
  then obtain p where p: "p \<in> set (split_parts 0 [] (inner r))" "e = strip p" by (auto simp: elements_def split: if_split_asm)
  have "set (inner r) \<subseteq> set r"
    using strip_sub [of r] by (cases "strip r") (auto simp: inner_def dest!: in_set_butlastD)
  with split_parts_sub [OF p(1)] strip_sub [of p] p(2) show ?thesis by auto
qed

lemma members_sub: "(k, v) \<in> set (members r) \<Longrightarrow> set v \<subseteq> set r"
proof -
  assume "(k, v) \<in> set (members r)"
  then obtain e where e: "e \<in> set (elements r)" "member e = (k, v)" by (auto simp: members_def)
  have "set v \<subseteq> set e"
  proof (cases "\<exists>key rest. e = TStr key # rest")
    case True
    then obtain key rest where c: "e = TStr key # rest" by blast
    have "set (tl xs) \<subseteq> set xs" for xs :: raw by (cases xs) auto
    then have "set (tl (dropWhile (\<lambda>t. t \<noteq> TColon) rest)) \<subseteq> set rest" by (meson set_dropWhileD subset_iff)
    with strip_sub [of "tl (dropWhile (\<lambda>t. t \<noteq> TColon) rest)"] c e(2) show ?thesis by (auto simp: member_def)
  next
    case False
    with e(2) show ?thesis by (auto simp: member_def split: list.split_asm token.split_asm)
  qed
  with elements_sub [OF e(1)] show ?thesis by blast
qed

lemma utf8_between:
  assumes "utf8_valid (xs @ c # ys)" "byte c < 128"
  shows "utf8_valid xs \<and> utf8_valid ys"
  using utf8_run_ascii [of c "[]" xs ys] assms by (simp add: utf8_valid_def)

lemma utf8_tokens: "utf8_valid (raw_text ts) \<Longrightarrow> utf8_value ts"
proof -
  assume u: "utf8_valid (raw_text ts)"
  have "utf8_valid b" if b: "TStr b \<in> set ts" for b
  proof -
    from split_list [OF b] obtain us vs where "ts = us @ TStr b # vs" by blast
    then have "raw_text ts = raw_text us @ CHR 0x22 # (b @ CHR 0x22 # raw_text vs)" by (simp add: raw_text_def)
    with u utf8_between [of "raw_text us" "CHR 0x22" "b @ CHR 0x22 # raw_text vs"] utf8_between [of b "CHR 0x22" "raw_text vs"]
    show ?thesis by simp
  qed
  then show ?thesis by (simp add: utf8_value_def)
qed

lemma texts_ok_read: "json_read s = Some ts \<Longrightarrow> utf8_valid s \<Longrightarrow> texts_ok ts"
proof -
  assume "json_read s = Some ts" and u: "utf8_valid s"
  then have ts: "json_tokens s = Some ts" by (auto simp: json_read_def split: option.split_asm if_split_asm)
  with json_tokens_wf [OF ts] json_tokens_text [OF ts] u utf8_tokens show ?thesis by (simp add: texts_ok_def)
qed

lemma decode_string_utf8: "decode_string old r = Some s \<Longrightarrow> texts_ok r \<Longrightarrow> utf8_valid old \<Longrightarrow> utf8_valid s"
proof -
  assume d: "decode_string old r = Some s" and t: "texts_ok r" and old: "utf8_valid old"
  consider b where "strip r = [TStr b]" "s = unquote b" | "s = old"
    using d by (auto simp: decode_string_def scalar_def split: option.split_asm list.split_asm token.split_asm)
  then show ?thesis
  proof cases
    case 1
    then have "TStr b \<in> set r" using strip_sub [of r] by auto
    with t have "wf_token (TStr b)" by (auto simp: texts_ok_def list_all_iff)
    with 1(2) unquote_valid show ?thesis by (simp add: wf_string del: str_ok.simps)
  qed (use old in simp)
qed

text \<open>A field keeps a property.\<close>

definition field_keeps :: "('a \<Rightarrow> bool) \<Rightarrow> (raw \<Rightarrow> 'a \<Rightarrow> 'a option) \<Rightarrow> bool" where
  "field_keeps P dec \<longleftrightarrow> (\<forall>r x y. texts_ok r \<longrightarrow> P x \<longrightarrow> dec r x = Some y \<longrightarrow> P y)"

lemma decode_members_keeps:
  assumes "list_all (\<lambda>f. field_keeps P (snd f)) fs" "decode_members fs ms x = Some y" "\<forall>(k, r) \<in> set ms. texts_ok r" "P x"
  shows "P y"
  using assms(2-4)
proof (induction ms arbitrary: x)
  case (Cons kr ms)
  obtain key r where kr: "kr = (key, r)" by (cases kr)
  show ?case
  proof (cases "field_of (map fst fs) key")
    case (Some name)
    have "name \<in> set (map fst fs)" using Some by (auto simp: field_of_def find_Some_iff split: if_split_asm)
    then obtain dec where dec: "map_of fs name = Some dec" by (cases "map_of fs name") (auto simp: map_of_eq_None_iff)
    obtain x' where x': "dec r x = Some x'" using Cons.prems(1) Some dec kr by (auto split: option.split_asm)
    have "field_keeps P dec" using assms(1) map_of_SomeD [OF dec] by (force simp: list_all_iff)
    then have "P x'" using Cons.prems(2,3) x' kr by (auto simp: field_keeps_def)
    with Cons Some dec x' kr show ?thesis by simp
  qed (use Cons kr in simp)
qed simp

lemma decode_struct_keeps:
  assumes "list_all (\<lambda>f. field_keeps P (snd f)) fs" "decode_struct fs x r = Some y" "texts_ok r" "P x"
  shows "P y"
proof (cases "is_object r")
  case True
  then have "decode_members fs (members r) x = Some y" using assms(2) by (simp add: decode_struct_def)
  then show ?thesis
    by (rule decode_members_keeps [OF assms(1)]) (use assms(3,4) members_sub texts_ok_sub in \<open>blast+\<close>)
qed (use assms in \<open>auto simp: decode_struct_def split: if_split_asm\<close>)

lemma decode_struct_ptr_keeps:
  assumes "list_all (\<lambda>f. field_keeps P (snd f)) fs" "decode_struct_ptr fs zero old r = Some y" "texts_ok r" "P zero" "pred_option P old"
  shows "pred_option P y"
  using assms decode_struct_keeps [OF assms(1) _ assms(3)]
  by (auto simp: decode_struct_ptr_def split: if_split_asm option.split_asm)

lemma decode_elements_keeps:
  assumes "\<And>x r y. dec x r = Some y \<Longrightarrow> texts_ok r \<Longrightarrow> P x \<Longrightarrow> P y" "P zero"
  shows "decode_elements dec zero rs old = Some ys \<Longrightarrow> list_all texts_ok rs \<Longrightarrow> list_all P old \<Longrightarrow> list_all P ys"
proof (induction rs arbitrary: old ys)
  case (Cons r rs)
  have "P (case old of [] \<Rightarrow> zero | x # xs \<Rightarrow> x)" using assms(2) Cons.prems(3) by (cases old) auto
  moreover have "list_all P (tl old)" using Cons.prems(3) by (cases old) auto
  ultimately show ?case using Cons assms(1) by (auto split: option.split_asm)
qed simp

lemma decode_slice_keeps:
  assumes "\<And>x r y. dec x r = Some y \<Longrightarrow> texts_ok r \<Longrightarrow> P x \<Longrightarrow> P y" "P zero"
    and "decode_slice dec zero old r = Some s" "texts_ok r" "list_all P (fst old)"
  shows "list_all P (fst s) \<and> list_all P (slice_list s)"
proof -
  have "list_all texts_ok (elements r)" using assms(4) elements_sub texts_ok_sub by (auto simp: list_all_iff)
  then have "list_all P (fst s)"
    using assms(3,5) decode_elements_keeps [of dec P zero, OF assms(1,2)] by (auto simp: decode_slice_def split: if_split_asm)
  then show ?thesis by (auto simp: slice_list_def list_all_iff dest: in_set_takeD)
qed

text \<open>A string field.\<close>

lemma string_field_keeps:
  assumes "\<And>x. P x \<Longrightarrow> utf8_valid (get x)" "\<And>x v. P x \<Longrightarrow> utf8_valid v \<Longrightarrow> P (upd v x)"
  shows "field_keeps P (\<lambda>r x. map_option (\<lambda>v. upd v x) (decode_string (get x) r))"
  using assms decode_string_utf8 by (fastforce simp: field_keeps_def)

section \<open>Trimmed texts\<close>

lemma utf8_run_lead:
  assumes "byte c < 128 \<or> 192 \<le> byte c"
  shows "utf8_run rs (s @ c # t) \<Longrightarrow> \<forall>(lo, hi) \<in> set rs. 128 \<le> lo \<and> hi \<le> 191 \<Longrightarrow> utf8_run rs s"
proof (induction rs s rule: utf8_run.induct)
  case (2 r rs)
  with assms show ?case by (cases r) auto
next
  case (3 d s)
  have "\<forall>(lo, hi) \<in> set rs. 128 \<le> lo \<and> hi \<le> 191" if "utf8_first d = Some rs" for rs
    using that by (auto simp: utf8_first_def Let_def split: if_split_asm)
  with 3 show ?case by (auto split: option.split_asm)
next
  case (4 lo hi rs d s)
  then show ?case by auto
qed simp

lemma space_runes_valid: "r \<in> set space_runes \<Longrightarrow> utf8_valid r \<and> r \<noteq> [] \<and> (byte (hd r) < 128 \<or> 192 \<le> byte (hd r))"
proof -
  have "list_all (\<lambda>r. utf8_valid r \<and> r \<noteq> [] \<and> (byte (hd r) < 128 \<or> 192 \<le> byte (hd r))) space_runes" by code_simp
  then show "r \<in> set space_runes \<Longrightarrow> utf8_valid r \<and> r \<noteq> [] \<and> (byte (hd r) < 128 \<or> 192 \<le> byte (hd r))" by (auto simp: list_all_iff)
qed

lemma trim_runes_keeps:
  assumes "\<And>r t. r \<in> set rs \<Longrightarrow> P (r @ t) \<Longrightarrow> P t"
  shows "P s \<Longrightarrow> P (trim_runes rs s)"
proof (induction "length s" arbitrary: s rule: less_induct)
  case less
  show ?case
  proof (cases "cut_rune rs s")
    case (Some t)
    then obtain r where "r \<in> set rs" "s = r @ t" using cut_rune_SomeD by blast
    with less.prems assms have "P t" by blast
    with less.hyps [OF cut_rune_shorter [OF Some]] Some show ?thesis by (simp add: trim_runes.simps [of rs s])
  qed (use less in \<open>simp add: trim_runes.simps [of rs s]\<close>)
qed

lemma utf8_trim_space: "utf8_valid s \<Longrightarrow> utf8_valid (trim_space s)"
proof -
  assume "utf8_valid s"
  then have "utf8_valid (trim_runes space_runes s)"
    by (rule trim_runes_keeps [rotated]) (auto simp: utf8_valid_def utf8_run_append dest: space_runes_valid)
  moreover have "utf8_valid (rev t)" if r: "r \<in> set (map rev space_runes)" and u: "utf8_valid (rev (r @ t))" for r t
  proof -
    from r obtain q where q: "q \<in> set space_runes" "r = rev q" by auto
    obtain c cs where "q = c # cs" "byte c < 128 \<or> 192 \<le> byte c" using space_runes_valid [OF q(1)] by (cases q) auto
    with u q(2) utf8_run_lead [of c "[]" "rev t" cs] show ?thesis by (simp add: utf8_valid_def)
  qed
  ultimately show ?thesis
    unfolding trim_space_def using trim_runes_keeps [of "map rev space_runes" "\<lambda>s. utf8_valid (rev s)" "rev (trim_runes space_runes s)"] by simp
qed

lemma completion_id_valid: "utf8_valid i \<Longrightarrow> utf8_valid requestID \<Longrightarrow> utf8_valid (completion_id i requestID)"
proof -
  assume u: "utf8_valid i" "utf8_valid requestID"
  have "utf8_valid ''chatcmpl-''" "utf8_valid ''chatcmpl-upstream''" by code_simp+
  with utf8_trim_space [OF u(1)] utf8_valid_append [OF _ utf8_trim_space [OF u(2)], of "''chatcmpl-''"] show ?thesis
    by (simp add: completion_id_def Let_def)
qed
end
