(* ===== verification/Anthropic.thy ===== *)
theory Anthropic
  imports NativeStream GoFloatText JsonText
begin

text \<open>
  The adapter of Anthropic's Messages API (\<open>internal/provider/anthropic.go\<close>): the translation of a chat
  request, of the response, and of the events of a stream. The transport is a parameter: what
  \<open>jsonTransport.post\<close> answers for a body and headers.
\<close>

section \<open>The request\<close>

record anthropic_source =
  asType :: string
  asMediaType :: string
  asData :: string
  asURL :: string
  asFileID :: string

definition source_zero :: anthropic_source where
  "source_zero = \<lparr>asType = [], asMediaType = [], asData = [], asURL = [], asFileID = []\<rparr>"

datatype anthropic_content =
  AnthropicContent (acType: string) (acText: string) (acSource: "anthropic_source option") (acID: string) (acName: string)
    (acInput: raw) (acToolUseID: string) (acContent: "anthropic_content list")

abbreviation text_block :: "string \<Rightarrow> anthropic_content" where
  "text_block t \<equiv> AnthropicContent ''text'' t None [] [] [] [] []"

abbreviation source_block :: "string \<Rightarrow> anthropic_source \<Rightarrow> anthropic_content" where
  "source_block ty src \<equiv> AnthropicContent ty [] (Some src) [] [] [] [] []"

abbreviation tool_use_block :: "string \<Rightarrow> string \<Rightarrow> raw \<Rightarrow> anthropic_content" where
  "tool_use_block i name input \<equiv> AnthropicContent ''tool_use'' [] None i name input [] []"

abbreviation tool_result_block :: "string \<Rightarrow> anthropic_content list \<Rightarrow> anthropic_content" where
  "tool_result_block i content \<equiv> AnthropicContent ''tool_result'' [] None [] [] [] i content"

record anthropic_message =
  anRole :: string
  anContent :: "anthropic_content list"

record anthropic_tool =
  atName :: string
  atDescription :: string
  atInputSchema :: raw
  atStrict :: "bool option"

record anthropic_choice =
  acnType :: string
  acnName :: string
  acnDisableParallelToolUse :: bool

record anthropic_output_format =
  afType :: string
  afSchema :: raw

record anthropic_request =
  arModel :: string
  arMaxTokens :: int
  arSystem :: string
  arMessages :: "anthropic_message list"
  arTemperature :: "rat option"
  arTopP :: "rat option"
  arStopSequences :: "string list"
  arTools :: "anthropic_tool list"
  arToolChoice :: "anthropic_choice option"
  arOutputConfig :: "anthropic_output_format option"
  arStream :: bool

section \<open>Contents\<close>

text \<open>\<open>base64.StdEncoding.DecodeString\<close>.\<close>

definition b64_std_value :: "char \<Rightarrow> int" where
  "b64_std_value c =
     (if is_upper_char c then byte c - 65 else if is_lower_char c then byte c - 71 else if is_digit_char c then byte c + 4
      else if c = CHR ''+'' then 62 else 63)"

fun b64_std_text :: "string \<Rightarrow> string" where
  "b64_std_text (a # b # c # d # s) =
     (let p = b64_std_value a; q = b64_std_value b; r = b64_std_value c; t = b64_std_value d in
      char_of (p * 4 + q div 16) #
      (if c = CHR ''='' then []
       else char_of (q mod 16 * 16 + r div 4) # (if d = CHR ''='' then [] else char_of (r mod 4 * 64 + t) # b64_std_text s)))"
| "b64_std_text _ = []"

definition decodeBase64 :: "string \<Rightarrow> string option" where
  "decodeBase64 encoded =
     (if validBase64 encoded then Some (b64_std_text (filter (\<lambda>c. c \<notin> {CHR 0x0A, CHR 0x0D}) encoded)) else None)"

definition anthropic_image :: "chat_content_part \<Rightarrow> goerr + anthropic_content" where
  "anthropic_image part =
     (case rejectNativeImageDetail part of
        Some err \<Rightarrow> Inl err
      | None \<Rightarrow>
          (case parseDataURL (cpImageURL part) of
             None \<Rightarrow> Inr (source_block ''image'' (source_zero\<lparr>asType := ''url'', asURL := cpImageURL part\<rparr>))
           | Some (mediaType, data) \<Rightarrow>
               if mediaType \<in> {''image/jpeg'', ''image/png'', ''image/gif'', ''image/webp''}
               then Inr (source_block ''image'' (source_zero\<lparr>asType := ''base64'', asMediaType := mediaType, asData := data\<rparr>))
               else Inl unsupported))"

definition anthropic_document :: "chat_content_part \<Rightarrow> goerr + anthropic_content" where
  "anthropic_document part =
     (if cpFileID part \<noteq> [] then Inr (source_block ''document'' (source_zero\<lparr>asType := ''file'', asFileID := cpFileID part\<rparr>))
      else case parseDataURL (cpFileData part) of
        None \<Rightarrow> Inl invalid_request
      | Some (mediaType, data) \<Rightarrow>
          if mediaType = ''application/pdf''
          then Inr (source_block ''document'' (source_zero\<lparr>asType := ''base64'', asMediaType := mediaType, asData := data\<rparr>))
          else if mediaType = ''text/plain'' then
            (case decodeBase64 data of
               None \<Rightarrow> Inl invalid_request
             | Some decoded \<Rightarrow>
                 if \<not> utf8_valid decoded then Inl invalid_request
                 else Inr (source_block ''document'' (source_zero\<lparr>asType := ''text'', asMediaType := mediaType, asData := decoded\<rparr>)))
          else Inl unsupported)"

definition anthropic_part :: "chat_content_part \<Rightarrow> goerr + anthropic_content" where
  "anthropic_part part =
     (if cpType part = ''text'' then Inr (text_block (cpText part))
      else if cpType part = ''image_url'' then anthropic_image part
      else if cpType part = ''file'' then anthropic_document part
      else Inl unsupported)"

text \<open>A loop that appends one result per element and returns at the first error.\<close>

fun collect :: "('a \<Rightarrow> goerr + 'b) \<Rightarrow> 'a list \<Rightarrow> goerr + 'b list" where
  "collect f [] = Inr []"
| "collect f (x # xs) =
     (case f x of Inl err \<Rightarrow> Inl err | Inr y \<Rightarrow> (case collect f xs of Inl err \<Rightarrow> Inl err | Inr ys \<Rightarrow> Inr (y # ys)))"

definition anthropicContents :: "raw \<Rightarrow> goerr + anthropic_content list" where
  "anthropicContents r =
     (case decodeNativeContent r of Inl err \<Rightarrow> Inl err | Inr parts \<Rightarrow> collect anthropic_part parts)"

definition anthropic_tool_use :: "chat_tool_call \<Rightarrow> goerr + anthropic_content" where
  "anthropic_tool_use c =
     (case toolArgumentsObject (fcArguments (tcFunction c)) of
        Inl err \<Rightarrow> Inl invalid_request
      | Inr text \<Rightarrow>
          (case json_read text of
             None \<Rightarrow> Inl invalid_request
           | Some input \<Rightarrow> Inr (tool_use_block (tcID c) (fcName (tcFunction c)) input)))"

definition anthropicMessageContents :: "chat_message \<Rightarrow> goerr + anthropic_content list" where
  "anthropicMessageContents m =
     (if cmRole m = ''tool'' then
        (if trim_space (cmToolCallID m) = [] then Inl invalid_request
         else case anthropicContents (cmContent m) of
           Inl err \<Rightarrow> Inl err
         | Inr content \<Rightarrow> Inr [tool_result_block (cmToolCallID m) content])
      else
        (case (if valuePresent (cmContent m) then anthropicContents (cmContent m) else Inr []) of
           Inl err \<Rightarrow> Inl err
         | Inr converted \<Rightarrow>
             (case collect anthropic_tool_use (message_calls m) of
                Inl err \<Rightarrow> Inl err
              | Inr calls \<Rightarrow> if converted @ calls = [] then Inl invalid_request else Inr (converted @ calls))))"

section \<open>Tools\<close>

definition default_schema :: raw where
  "default_schema = obj_tokens [(''type'', marshal_string ''object''), (''properties'', obj_tokens [])]"

definition object_schema :: raw where
  "object_schema = obj_tokens [(''type'', marshal_string ''object''), (''additionalProperties'', [TTrue])]"

definition anthropic_tool_of :: "chat_tool \<Rightarrow> anthropic_tool" where
  "anthropic_tool_of tool =
     \<lparr>atName = fdName (tlFunction tool), atDescription = fdDescription (tlFunction tool),
      atInputSchema = (if valuePresent (fdParameters (tlFunction tool)) then fdParameters (tlFunction tool) else default_schema),
      atStrict = fdStrict (tlFunction tool)\<rparr>"

definition anthropic_choice_of :: "tool_choice \<Rightarrow> bool \<Rightarrow> anthropic_choice option" where
  "anthropic_choice_of choice disableParallel =
     (if chMode choice \<noteq> [] \<or> disableParallel then
        Some \<lparr>acnType = (if chMode choice = ''required'' then ''any'' else if chMode choice = ''function'' then ''tool''
                else if chMode choice = [] then ''auto'' else chMode choice),
              acnName = (if chMode choice = ''function'' then chName choice else []),
              acnDisableParallelToolUse = disableParallel\<rparr>
      else None)"

definition applyAnthropicTools :: "anthropic_request \<Rightarrow> chat_request \<Rightarrow> goerr + anthropic_request" where
  "applyAnthropicTools up req =
     (let tools = arTools up @ map anthropic_tool_of (request_tools req) in
      case decodeToolChoice (crToolChoice req) of
        Inl err \<Rightarrow> Inl err
      | Inr choice \<Rightarrow>
          (let disableParallel = request_tools req \<noteq> [] \<and> crParallelToolCalls req = Some False;
               mapped = anthropic_choice_of choice disableParallel;
               up1 = up\<lparr>arTools := tools, arToolChoice := (if mapped = None then arToolChoice up else mapped)\<rparr> in
           case decodeResponseFormat (crResponseFormat req) of
             Inl err \<Rightarrow> Inl err
           | Inr format \<Rightarrow>
               Inr (if rfType format = ''json_object'' then
                      up1\<lparr>arOutputConfig := Some \<lparr>afType = ''json_schema'', afSchema = object_schema\<rparr>\<rparr>
                    else if rfType format = ''json_schema'' then
                      up1\<lparr>arOutputConfig := Some \<lparr>afType = ''json_schema'', afSchema = rfSchema format\<rparr>\<rparr>
                    else up1)))"

section \<open>Building the request\<close>

definition anthropic_support :: native_request_support where
  "anthropic_support = \<lparr>nsTools = True, nsStructured = True, nsSeed = False, nsPenalties = False, nsCandidates = False, nsLogprobs = False,
     nsReasoning = False, nsDeveloper = True, nsMessageName = False, nsToolName = True\<rparr>"

fun anthropic_message_loop :: "chat_message list \<Rightarrow> goerr + string list \<times> anthropic_message list" where
  "anthropic_message_loop [] = Inr ([], [])"
| "anthropic_message_loop (m # ms) =
     (if is_instruction m then
        (case textContent (cmContent m) of
           Inl err \<Rightarrow> Inl err
         | Inr text \<Rightarrow> (case anthropic_message_loop ms of Inl err \<Rightarrow> Inl err | Inr (system, messages) \<Rightarrow> Inr (text # system, messages)))
      else
        (case anthropicMessageContents m of
           Inl err \<Rightarrow> Inl err
         | Inr content \<Rightarrow>
             (case anthropic_message_loop ms of
                Inl err \<Rightarrow> Inl err
              | Inr (system, messages) \<Rightarrow>
                  Inr (system, \<lparr>anRole = (if cmRole m = ''tool'' then ''user'' else cmRole m), anContent = content\<rparr> # messages))))"

fun join_strings :: "string \<Rightarrow> string list \<Rightarrow> string" where
  "join_strings sep [] = []"
| "join_strings sep [s] = s"
| "join_strings sep (s # t # ss) = s @ sep @ join_strings sep (t # ss)"

definition anthropic_upstream :: "chat_request chat_input \<Rightarrow> bool \<Rightarrow> goerr + anthropic_request \<times> chat_request" where
  "anthropic_upstream input stream =
     (case decodeNativeChatRequest input anthropic_support of
        Inl err \<Rightarrow> Inl err
      | Inr req \<Rightarrow>
          (case requireLeadingInstructions req of
             Some err \<Rightarrow> Inl err
           | None \<Rightarrow>
               (case decodeStop (crStop req) of
                  Inl err \<Rightarrow> Inl err
                | Inr stop \<Rightarrow>
                    (case applyAnthropicTools
                            \<lparr>arModel = crModel req, arMaxTokens = requestedMaxTokens req 1024, arSystem = [], arMessages = [],
                             arTemperature = crTemperature req, arTopP = crTopP req, arStopSequences = stop, arTools = [],
                             arToolChoice = None, arOutputConfig = None, arStream = stream\<rparr> req of
                       Inl err \<Rightarrow> Inl err
                     | Inr up \<Rightarrow>
                         (case anthropic_message_loop (request_messages req) of
                            Inl err \<Rightarrow> Inl err
                          | Inr (system, messages) \<Rightarrow>
                              if messages = [] then Inl invalid_request
                              else Inr (up\<lparr>arMessages := messages, arSystem := join_strings [CHR 0x0A, CHR 0x0A] system\<rparr>, req))))))"

section \<open>Encoding the request\<close>

definition bool_value :: "bool \<Rightarrow> raw" where
  "bool_value b = (if b then [TTrue] else [TFalse])"

definition omit_raw :: "string \<Rightarrow> raw \<Rightarrow> (string \<times> raw) list" where
  "omit_raw name r = (if r = [] then [] else [(name, written r)])"

definition omit_list :: "string \<Rightarrow> ('a \<Rightarrow> raw) \<Rightarrow> 'a list \<Rightarrow> (string \<times> raw) list" where
  "omit_list name f xs = (if xs = [] then [] else [(name, arr_tokens (map f xs))])"

definition omit_false :: "string \<Rightarrow> bool \<Rightarrow> (string \<times> raw) list" where
  "omit_false name b = (if b then [(name, [TTrue])] else [])"

definition source_value :: "anthropic_source \<Rightarrow> raw" where
  "source_value src = obj_tokens ([(''type'', marshal_string (asType src))] @ omit_empty ''media_type'' (asMediaType src) @
     omit_empty ''data'' (asData src) @ omit_empty ''url'' (asURL src) @ omit_empty ''file_id'' (asFileID src))"

fun content_value :: "anthropic_content \<Rightarrow> raw" where
  "content_value (AnthropicContent ty text src i name input useID content) =
     obj_tokens ([(''type'', marshal_string ty)] @ omit_empty ''text'' text @ omit_none ''source'' source_value src @ omit_empty ''id'' i @
       omit_empty ''name'' name @ omit_raw ''input'' input @ omit_empty ''tool_use_id'' useID @
       (if content = [] then [] else [(''content'', arr_tokens (map content_value content))]))"

definition anthropic_message_value :: "anthropic_message \<Rightarrow> raw" where
  "anthropic_message_value m =
     obj_tokens [(''role'', marshal_string (anRole m)), (''content'', arr_tokens (map content_value (anContent m)))]"

definition anthropic_tool_value :: "anthropic_tool \<Rightarrow> raw" where
  "anthropic_tool_value t = obj_tokens ([(''name'', marshal_string (atName t))] @ omit_empty ''description'' (atDescription t) @
     [(''input_schema'', written (atInputSchema t))] @ omit_none ''strict'' bool_value (atStrict t))"

definition anthropic_choice_value :: "anthropic_choice \<Rightarrow> raw" where
  "anthropic_choice_value c = obj_tokens ([(''type'', marshal_string (acnType c))] @ omit_empty ''name'' (acnName c) @
     omit_false ''disable_parallel_tool_use'' (acnDisableParallelToolUse c))"

definition anthropic_output_value :: "anthropic_output_format \<Rightarrow> raw" where
  "anthropic_output_value f =
     obj_tokens [(''format'', obj_tokens ([(''type'', marshal_string (afType f))] @ omit_raw ''schema'' (afSchema f)))]"

definition anthropic_request_value :: "anthropic_request \<Rightarrow> raw" where
  "anthropic_request_value up = obj_tokens
     ([(''model'', marshal_string (arModel up)), (''max_tokens'', int_value (arMaxTokens up))] @ omit_empty ''system'' (arSystem up) @
      [(''messages'', arr_tokens (map anthropic_message_value (arMessages up)))] @
      omit_none ''temperature'' float_value (arTemperature up) @ omit_none ''top_p'' float_value (arTopP up) @
      omit_list ''stop_sequences'' marshal_string (arStopSequences up) @ omit_list ''tools'' anthropic_tool_value (arTools up) @
      omit_none ''tool_choice'' anthropic_choice_value (arToolChoice up) @
      omit_none ''output_config'' anthropic_output_value (arOutputConfig up) @ omit_false ''stream'' (arStream up))"

definition anthropicRequestBody :: "chat_request chat_input \<Rightarrow> bool \<Rightarrow> goerr + string \<times> chat_request" where
  "anthropicRequestBody input stream =
     (case anthropic_upstream input stream of
        Inl err \<Rightarrow> Inl err
      | Inr (up, req) \<Rightarrow> Inr (raw_text (anthropic_request_value up), req))"

definition anthropicRequestUsesFileID :: "chat_request \<Rightarrow> bool" where
  "anthropicRequestUsesFileID req =
     list_ex (\<lambda>m. valuePresent (cmContent m) \<and>
       (case decodeContent (cmContent m) of
          Inl err \<Rightarrow> False
        | Inr parts \<Rightarrow> list_ex (\<lambda>part. cpType part = ''file'' \<and> cpFileID part \<noteq> []) parts)) (request_messages req)"

definition anthropicHeaders :: "string \<Rightarrow> bool \<Rightarrow> (string \<times> string) list" where
  "anthropicHeaders apiKey usesFileID =
     [(''X-Api-Key'', trim_space apiKey), (''Anthropic-Version'', ''2023-06-01'')] @
     (if usesFileID then [(''Anthropic-Beta'', ''files-api-2025-04-14'')] else [])"

section \<open>The response\<close>

record anthropic_block =
  abType :: string
  abText :: string
  abID :: string
  abName :: string
  abInput :: raw

record anthropic_usage =
  auInputTokens :: "int option"
  auOutputTokens :: "int option"
  auCacheCreationInput :: "int option"
  auCacheReadInput :: "int option"

record anthropic_response =
  aspID :: string
  aspModel :: string
  aspStopReason :: string
  aspContent :: "anthropic_block slice"
  aspUsage :: "anthropic_usage option"

definition block_zero :: anthropic_block where
  "block_zero = \<lparr>abType = [], abText = [], abID = [], abName = [], abInput = []\<rparr>"

definition anthropic_usage_zero :: anthropic_usage where
  "anthropic_usage_zero = \<lparr>auInputTokens = None, auOutputTokens = None, auCacheCreationInput = None, auCacheReadInput = None\<rparr>"

definition anthropic_response_zero :: anthropic_response where
  "anthropic_response_zero = \<lparr>aspID = [], aspModel = [], aspStopReason = [], aspContent = ([], 0), aspUsage = None\<rparr>"

definition block_fields :: "anthropic_block fields" where
  "block_fields =
     [(''type'', \<lambda>r x. map_option (\<lambda>v. x\<lparr>abType := v\<rparr>) (decode_string (abType x) r)),
      (''text'', \<lambda>r x. map_option (\<lambda>v. x\<lparr>abText := v\<rparr>) (decode_string (abText x) r)),
      (''id'', \<lambda>r x. map_option (\<lambda>v. x\<lparr>abID := v\<rparr>) (decode_string (abID x) r)),
      (''name'', \<lambda>r x. map_option (\<lambda>v. x\<lparr>abName := v\<rparr>) (decode_string (abName x) r)),
      (''input'', \<lambda>r x. Some (x\<lparr>abInput := r\<rparr>))]"

definition anthropic_usage_fields :: "anthropic_usage fields" where
  "anthropic_usage_fields =
     [(''input_tokens'', \<lambda>r x. map_option (\<lambda>v. x\<lparr>auInputTokens := v\<rparr>) (decode_int_ptr r)),
      (''output_tokens'', \<lambda>r x. map_option (\<lambda>v. x\<lparr>auOutputTokens := v\<rparr>) (decode_int_ptr r)),
      (''cache_creation_input_tokens'', \<lambda>r x. map_option (\<lambda>v. x\<lparr>auCacheCreationInput := v\<rparr>) (decode_int_ptr r)),
      (''cache_read_input_tokens'', \<lambda>r x. map_option (\<lambda>v. x\<lparr>auCacheReadInput := v\<rparr>) (decode_int_ptr r))]"

definition anthropic_response_fields :: "anthropic_response fields" where
  "anthropic_response_fields =
     [(''id'', \<lambda>r x. map_option (\<lambda>v. x\<lparr>aspID := v\<rparr>) (decode_string (aspID x) r)),
      (''model'', \<lambda>r x. map_option (\<lambda>v. x\<lparr>aspModel := v\<rparr>) (decode_string (aspModel x) r)),
      (''stop_reason'', \<lambda>r x. map_option (\<lambda>v. x\<lparr>aspStopReason := v\<rparr>) (decode_string (aspStopReason x) r)),
      (''content'', \<lambda>r x. map_option (\<lambda>v. x\<lparr>aspContent := v\<rparr>) (decode_slice (decode_struct block_fields) block_zero (aspContent x) r)),
      (''usage'', \<lambda>r x. map_option (\<lambda>v. x\<lparr>aspUsage := v\<rparr>)
         (decode_struct_ptr anthropic_usage_fields anthropic_usage_zero (aspUsage x) r))]"

abbreviation invalid_response :: goerr where "invalid_response \<equiv> ErrSentinel ErrInvalidResponse"

fun block_loop :: "anthropic_block list \<Rightarrow> string \<Rightarrow> chat_tool_call list \<Rightarrow> goerr + string \<times> chat_tool_call list" where
  "block_loop [] text calls = Inr (text, calls)"
| "block_loop (b # bs) text calls =
     (if abType b = ''text'' then block_loop bs (text @ abText b) calls
      else if abType b = ''tool_use'' then
        (if trim_space (abID b) = [] \<or> trim_space (abName b) = [] \<or> \<not> jsonObject (abInput b) then Inl invalid_response
         else block_loop bs text
           (calls @ [\<lparr>tcID = abID b, tcType = ''function'', tcFunction = \<lparr>fcName = abName b, fcArguments = raw_text (abInput b)\<rparr>\<rparr>]))
      else Inl (ErrWrap [invalid_response]))"

definition anthropic_usage_of :: "anthropic_usage \<Rightarrow> completion_usage option option" where
  "anthropic_usage_of u =
     (case inclusiveInputTokens (auInputTokens u) (auCacheReadInput u) (auCacheCreationInput u) of
        (inputTokens, valid) \<Rightarrow>
          if \<not> valid then None
          else Some (setInputDetails None None (auCacheReadInput u) (auCacheCreationInput u)
                 (newCompletionUsage inputTokens (auOutputTokens u) None)))"

definition anthropic_finish :: "string \<Rightarrow> string" where
  "anthropic_finish reason = (if reason = ''max_tokens'' then ''length'' else if reason = ''tool_use'' then ''tool_calls'' else ''stop'')"

definition decodeAnthropicResponse :: "int \<Rightarrow> string \<Rightarrow> string \<Rightarrow> goerr + string" where
  "decodeAnthropicResponse now body requestID =
     (case Option.bind (json_read body) (decode_struct anthropic_response_fields anthropic_response_zero) of
        None \<Rightarrow> Inl invalid_response
      | Some response \<Rightarrow>
          (case block_loop (slice_list (aspContent response)) [] [] of
             Inl err \<Rightarrow> Inl err
           | Inr (content, toolCalls) \<Rightarrow>
               if slice_list (aspContent response) = [] then Inl invalid_response
               else
                 (case (case aspUsage response of None \<Rightarrow> Some None | Some u \<Rightarrow> anthropic_usage_of u) of
                    None \<Rightarrow> Inl invalid_response
                  | Some usage \<Rightarrow>
                      Inr (encodeCompletionMessage now (aspID response) requestID (aspModel response)
                        \<lparr>msRole = ''assistant'', msContent = (if content \<noteq> [] \<or> toolCalls = [] then Some content else None),
                         msReasoningContent = None, msToolCalls = toolCalls\<rparr>
                        (anthropic_finish (aspStopReason response)) usage))))"

definition anthropic_Complete ::
  "(string \<Rightarrow> string \<Rightarrow> (string \<times> string) list \<Rightarrow> goerr + string) \<Rightarrow> int \<Rightarrow> chat_request chat_input \<Rightarrow> string \<Rightarrow> goerr + string" where
  "anthropic_Complete post now input apiKey =
     (case anthropicRequestBody input False of
        Inl err \<Rightarrow> Inl err
      | Inr (body, req) \<Rightarrow>
          (case post (ciRequestID input) body (anthropicHeaders apiKey (anthropicRequestUsesFileID req)) of
             Inl err \<Rightarrow> Inl err
           | Inr responseBody \<Rightarrow> decodeAnthropicResponse now responseBody (ciRequestID input)))"

section \<open>The stream\<close>

record anthropic_start =
  stID :: string
  stModel :: string
  stUsage :: "anthropic_usage option"

record anthropic_delta =
  dlType :: string
  dlText :: string
  dlPartialJSON :: string
  dlStopReason :: string

record anthropic_envelope =
  enType :: string
  enMessage :: "anthropic_start option"
  enContentBlock :: "anthropic_block option"
  enIndex :: int
  enDelta :: "anthropic_delta option"
  enUsage :: "int option option"

definition start_zero :: anthropic_start where
  "start_zero = \<lparr>stID = [], stModel = [], stUsage = None\<rparr>"

definition anthropic_delta_zero :: anthropic_delta where
  "anthropic_delta_zero = \<lparr>dlType = [], dlText = [], dlPartialJSON = [], dlStopReason = []\<rparr>"

definition envelope_zero :: anthropic_envelope where
  "envelope_zero = \<lparr>enType = [], enMessage = None, enContentBlock = None, enIndex = 0, enDelta = None, enUsage = None\<rparr>"

definition start_fields :: "anthropic_start fields" where
  "start_fields =
     [(''id'', \<lambda>r x. map_option (\<lambda>v. x\<lparr>stID := v\<rparr>) (decode_string (stID x) r)),
      (''model'', \<lambda>r x. map_option (\<lambda>v. x\<lparr>stModel := v\<rparr>) (decode_string (stModel x) r)),
      (''usage'', \<lambda>r x. map_option (\<lambda>v. x\<lparr>stUsage := v\<rparr>)
         (decode_struct_ptr anthropic_usage_fields anthropic_usage_zero (stUsage x) r))]"

definition anthropic_delta_fields :: "anthropic_delta fields" where
  "anthropic_delta_fields =
     [(''type'', \<lambda>r x. map_option (\<lambda>v. x\<lparr>dlType := v\<rparr>) (decode_string (dlType x) r)),
      (''text'', \<lambda>r x. map_option (\<lambda>v. x\<lparr>dlText := v\<rparr>) (decode_string (dlText x) r)),
      (''partial_json'', \<lambda>r x. map_option (\<lambda>v. x\<lparr>dlPartialJSON := v\<rparr>) (decode_string (dlPartialJSON x) r)),
      (''stop_reason'', \<lambda>r x. map_option (\<lambda>v. x\<lparr>dlStopReason := v\<rparr>) (decode_string (dlStopReason x) r))]"

definition output_tokens_fields :: "int option fields" where
  "output_tokens_fields = [(''output_tokens'', \<lambda>r x. decode_int_ptr r)]"

definition decode_int :: "int \<Rightarrow> raw \<Rightarrow> int option" where
  "decode_int old r = (case decode_int_ptr r of None \<Rightarrow> None | Some None \<Rightarrow> Some old | Some (Some n) \<Rightarrow> Some n)"

definition envelope_fields :: "anthropic_envelope fields" where
  "envelope_fields =
     [(''type'', \<lambda>r x. map_option (\<lambda>v. x\<lparr>enType := v\<rparr>) (decode_string (enType x) r)),
      (''message'', \<lambda>r x. map_option (\<lambda>v. x\<lparr>enMessage := v\<rparr>) (decode_struct_ptr start_fields start_zero (enMessage x) r)),
      (''content_block'', \<lambda>r x. map_option (\<lambda>v. x\<lparr>enContentBlock := v\<rparr>) (decode_struct_ptr block_fields block_zero (enContentBlock x) r)),
      (''index'', \<lambda>r x. map_option (\<lambda>v. x\<lparr>enIndex := v\<rparr>) (decode_int (enIndex x) r)),
      (''delta'', \<lambda>r x. map_option (\<lambda>v. x\<lparr>enDelta := v\<rparr>) (decode_struct_ptr anthropic_delta_fields anthropic_delta_zero (enDelta x) r)),
      (''usage'', \<lambda>r x. map_option (\<lambda>v. x\<lparr>enUsage := v\<rparr>) (decode_struct_ptr output_tokens_fields None (enUsage x) r))]"

text \<open>What the mapper keeps between events.\<close>

record anthropic_stream =
  smID :: string
  smModel :: string
  smUsage :: "completion_usage option"
  smToolIndexByBlock :: "int \<rightharpoonup> int"
  smNextToolIndex :: int

definition newAnthropicStreamMapper :: "string \<Rightarrow> string \<Rightarrow> anthropic_stream" where
  "newAnthropicStreamMapper model requestID =
     \<lparr>smID = ''chatcmpl-'' @ requestID, smModel = model, smUsage = None, smToolIndexByBlock = Map.empty, smNextToolIndex = 0\<rparr>"

abbreviation invalid_stream :: goerr where "invalid_stream \<equiv> ErrSentinel ErrInvalidStream"

definition send_delta :: "int \<Rightarrow> anthropic_stream \<Rightarrow> stream_delta \<Rightarrow> anthropic_stream \<times> (goerr + native_result)" where
  "send_delta now s d = (s, Inr (fst (streamResult now (smID s) (smModel s) d [] None False)))"

definition message_start :: "int \<Rightarrow> anthropic_stream \<Rightarrow> anthropic_start \<Rightarrow> anthropic_stream \<times> (goerr + native_result)" where
  "message_start now s0 msg =
     (let s1 = s0\<lparr>smID := (if stID msg \<noteq> [] then stID msg else smID s0), smModel := (if stModel msg \<noteq> [] then stModel msg else smModel s0)\<rparr> in
      case stUsage msg of
        None \<Rightarrow> send_delta now s1 (delta_zero\<lparr>sdRole := ''assistant''\<rparr>)
      | Some u \<Rightarrow>
          (case anthropic_usage_of u of
             None \<Rightarrow> (s1, Inl invalid_stream)
           | Some usage \<Rightarrow> send_delta now (s1\<lparr>smUsage := usage\<rparr>) (delta_zero\<lparr>sdRole := ''assistant''\<rparr>)))"

definition content_block_start :: "int \<Rightarrow> anthropic_stream \<Rightarrow> int \<Rightarrow> anthropic_block \<Rightarrow> anthropic_stream \<times> (goerr + native_result)" where
  "content_block_start now s index block =
     (if abType block = ''text'' then send_delta now s (delta_zero\<lparr>sdContent := Some (abText block)\<rparr>)
      else if abType block = ''tool_use'' then
        (if abID block = [] \<or> abName block = [] then (s, Inl invalid_stream)
         else
           (let s1 = s\<lparr>smToolIndexByBlock := (smToolIndexByBlock s)(index \<mapsto> smNextToolIndex s), smNextToolIndex := smNextToolIndex s + 1\<rparr> in
            send_delta now s1 (delta_zero\<lparr>sdToolCalls := [\<lparr>sdIndex = smNextToolIndex s, sdID = abID block, sdType = ''function'',
              sdName = abName block, sdArguments = []\<rparr>]\<rparr>)))
      else (s, Inl (ErrWrap [invalid_stream])))"

definition content_block_delta :: "int \<Rightarrow> anthropic_stream \<Rightarrow> int \<Rightarrow> anthropic_delta \<Rightarrow> anthropic_stream \<times> (goerr + native_result)" where
  "content_block_delta now s index d =
     (if dlType d = ''text_delta'' then send_delta now s (delta_zero\<lparr>sdContent := Some (dlText d)\<rparr>)
      else if dlType d = ''input_json_delta'' then
        (case smToolIndexByBlock s index of
           None \<Rightarrow> (s, Inl invalid_stream)
         | Some toolIndex \<Rightarrow>
             send_delta now s (delta_zero\<lparr>sdToolCalls := [\<lparr>sdIndex = toolIndex, sdID = [], sdType = [], sdName = [], sdArguments = dlPartialJSON d\<rparr>]\<rparr>))
      else (s, Inl invalid_stream))"

definition normalizeAnthropicFinishReason :: "string \<Rightarrow> string" where
  "normalizeAnthropicFinishReason reason =
     (if reason = ''max_tokens'' then ''length'' else if reason = ''tool_use'' then ''tool_calls''
      else if reason = ''refusal'' then ''content_filter'' else ''stop'')"

definition usage_none :: completion_usage where
  "usage_none = \<lparr>cuPromptTokens = 0, cuPromptTokensDetails = None, cuCompletionTokens = 0, cuCompletionTokensDetails = None, cuTotalTokens = 0\<rparr>"

definition output_usage :: "completion_usage option \<Rightarrow> int option option \<Rightarrow> completion_usage option" where
  "output_usage usage reported =
     (case reported of
        Some (Some n) \<Rightarrow>
          (let u = (case usage of None \<Rightarrow> usage_none | Some u \<Rightarrow> u) in
           Some (u\<lparr>cuCompletionTokens := n, cuTotalTokens := wrap_int64 (cuPromptTokens u + n)\<rparr>))
      | _ \<Rightarrow> usage)"

definition message_delta :: "int \<Rightarrow> anthropic_stream \<Rightarrow> anthropic_delta \<Rightarrow> int option option \<Rightarrow> anthropic_stream \<times> (goerr + native_result)" where
  "message_delta now s d reported =
     (case streamResult now (smID s) (smModel s) delta_zero (normalizeAnthropicFinishReason (dlStopReason d))
             (output_usage (smUsage s) reported) False of
        (result, usage) \<Rightarrow> (s\<lparr>smUsage := usage\<rparr>, Inr result))"

definition anthropic_event :: "int \<Rightarrow> anthropic_stream \<Rightarrow> string \<Rightarrow> anthropic_envelope \<Rightarrow> anthropic_stream \<times> (goerr + native_result)" where
  "anthropic_event now s event env =
     (let eventType = (if enType env = [] then event else enType env) in
      if eventType = ''ping'' then (s, Inr no_result)
      else if eventType = ''message_start'' then
        (case enMessage env of None \<Rightarrow> (s, Inl invalid_stream) | Some msg \<Rightarrow> message_start now s msg)
      else if eventType = ''content_block_start'' then
        (case enContentBlock env of None \<Rightarrow> (s, Inl invalid_stream) | Some block \<Rightarrow> content_block_start now s (enIndex env) block)
      else if eventType = ''content_block_delta'' then
        (case enDelta env of None \<Rightarrow> (s, Inl invalid_stream) | Some d \<Rightarrow> content_block_delta now s (enIndex env) d)
      else if eventType = ''content_block_stop'' then (s, Inr no_result)
      else if eventType = ''message_delta'' then
        (case enDelta env of None \<Rightarrow> (s, Inl invalid_stream) | Some d \<Rightarrow> message_delta now s d (enUsage env))
      else if eventType = ''message_stop'' then (s, Inr done_result)
      else if eventType = ''error'' then (s, Inl invalid_stream)
      else (s, Inl (ErrWrap [invalid_stream])))"

definition anthropic_mapper :: "anthropic_stream mapper" where
  "anthropic_mapper now s event data =
     (if trim_space data = ''[DONE]'' then (s, Inr done_result)
      else case invalidNativeStreamJSON envelope_fields envelope_zero data of
        Inl err \<Rightarrow> (s, Inl err)
      | Inr env \<Rightarrow> anthropic_event now s event env)"

definition anthropic_OpenStream ::
  "(string \<Rightarrow> string \<Rightarrow> (string \<times> string) list \<Rightarrow> goerr + (string \<times> goerr) option) \<Rightarrow> (nat \<Rightarrow> int) \<Rightarrow>
     chat_request chat_input \<Rightarrow> string \<Rightarrow> goerr + event_stream" where
  "anthropic_OpenStream postStream clock input apiKey =
     (case anthropicRequestBody input True of
        Inl err \<Rightarrow> Inl err
      | Inr (body, req) \<Rightarrow>
          (case postStream (ciRequestID input) body (anthropicHeaders apiKey (anthropicRequestUsesFileID req)) of
             Inl err \<Rightarrow> Inl err
           | Inr response \<Rightarrow>
               newMappedSSEStream anthropic_mapper clock (newAnthropicStreamMapper (crModel req) (ciRequestID input)) response))"

end
