(* ===== verification/AnthropicProps.thy ===== *)
theory AnthropicProps
  imports Anthropic
begin

text \<open>
  What the Anthropic adapter promises (\<open>src/internal/provider/anthropic.go\<close>): the request it sends carries the
  conversation, the completion it answers says what the response said, its stream is the translation of the
  upstream's events, and the tool calls of a stream keep apart.
\<close>


section \<open>The request says what the client said\<close>

definition part_block :: "chat_content_part \<Rightarrow> anthropic_content \<Rightarrow> bool" where
  "part_block p b \<longleftrightarrow>
     cpType p = ''text'' \<and> b = text_block (cpText p) \<or>
     cpType p = ''image_url'' \<and> (\<exists>src. b = source_block ''image'' src \<and>
       (asType src = ''url'' \<and> asURL src = cpImageURL p \<or>
        asType src = ''base64'' \<and> parseDataURL (cpImageURL p) = Some (asMediaType src, asData src))) \<or>
     cpType p = ''file'' \<and> (\<exists>src. b = source_block ''document'' src \<and>
       (asType src = ''file'' \<and> asFileID src = cpFileID p \<and> cpFileID p \<noteq> [] \<or>
        asType src = ''base64'' \<and> parseDataURL (cpFileData p) = Some (asMediaType src, asData src) \<or>
        asType src = ''text'' \<and> (\<exists>data. parseDataURL (cpFileData p) = Some (asMediaType src, data) \<and> decodeBase64 data = Some (asData src))))"

definition call_block :: "chat_tool_call \<Rightarrow> anthropic_content \<Rightarrow> bool" where
  "call_block c b \<longleftrightarrow> (\<exists>input. b = tool_use_block (tcID c) (fcName (tcFunction c)) input \<and>
     json_read (if trim_space (fcArguments (tcFunction c)) = [] then ''{}'' else trim_space (fcArguments (tcFunction c))) = Some input)"

definition carries :: "chat_message \<Rightarrow> anthropic_message \<Rightarrow> bool" where
  "carries m am \<longleftrightarrow>
     (if cmRole m = ''tool'' then
        anRole am = ''user'' \<and>
        (\<exists>parts content. decodeNativeContent (cmContent m) = Inr parts \<and> list_all2 part_block parts content \<and>
           anContent am = [tool_result_block (cmToolCallID m) content])
      else
        anRole am = cmRole m \<and>
        (\<exists>parts blocks calls. (if valuePresent (cmContent m) then decodeNativeContent (cmContent m) = Inr parts else parts = []) \<and>
           list_all2 part_block parts blocks \<and> list_all2 call_block (message_calls m) calls \<and> anContent am = blocks @ calls))"

lemma collect_all2: "collect f xs = Inr ys \<Longrightarrow> list_all2 (\<lambda>x y. f x = Inr y) xs ys"
  by (induction xs arbitrary: ys) (auto split: sum.split_asm)

lemma anthropic_part_block: "anthropic_part p = Inr b \<Longrightarrow> part_block p b"
  unfolding anthropic_part_def anthropic_image_def anthropic_document_def part_block_def source_zero_def
  by (auto split: if_split_asm option.split_asm)

lemma anthropicContents_blocks:
  assumes "anthropicContents r = Inr bs"
  obtains ps where "decodeNativeContent r = Inr ps" "list_all2 part_block ps bs"
proof -
  from assms obtain ps where ps: "decodeNativeContent r = Inr ps" "collect anthropic_part ps = Inr bs"
    by (auto simp: anthropicContents_def split: sum.split_asm)
  from collect_all2 [OF ps(2)] have "list_all2 part_block ps bs" by (rule list_all2_mono) (rule anthropic_part_block)
  with ps(1) that show ?thesis by blast
qed

lemma anthropic_tool_use_block: "anthropic_tool_use c = Inr b \<Longrightarrow> call_block c b"
  by (auto simp: anthropic_tool_use_def call_block_def toolArgumentsObject_def Let_def split: if_split_asm sum.split_asm option.split_asm)

lemma collect_calls: "collect anthropic_tool_use cs = Inr bs \<Longrightarrow> list_all2 call_block cs bs"
  using collect_all2 anthropic_tool_use_block by (metis (mono_tags, lifting) list_all2_mono)

lemma message_carried:
  assumes "anthropicMessageContents m = Inr content"
  shows "carries m \<lparr>anRole = (if cmRole m = ''tool'' then ''user'' else cmRole m), anContent = content\<rparr>"
proof (cases "cmRole m = ''tool''")
  case True
  with assms obtain bs where "anthropicContents (cmContent m) = Inr bs" "content = [tool_result_block (cmToolCallID m) bs]"
    by (auto simp: anthropicMessageContents_def split: if_split_asm sum.split_asm)
  with True show ?thesis by (auto simp: carries_def elim!: anthropicContents_blocks)
next
  case False
  with assms obtain bs cs where
    bs: "(if valuePresent (cmContent m) then anthropicContents (cmContent m) else Inr []) = Inr bs" and
    cs: "collect anthropic_tool_use (message_calls m) = Inr cs" "content = bs @ cs"
    by (auto simp: anthropicMessageContents_def split: if_split_asm sum.split_asm)
  obtain parts where "if valuePresent (cmContent m) then decodeNativeContent (cmContent m) = Inr parts else parts = []" "list_all2 part_block parts bs"
    using bs by (cases "valuePresent (cmContent m)") (auto elim!: anthropicContents_blocks)
  with collect_calls [OF cs(1)] cs(2) have "\<exists>parts blocks calls. (if valuePresent (cmContent m) then decodeNativeContent (cmContent m) = Inr parts else parts = []) \<and>
      list_all2 part_block parts blocks \<and> list_all2 call_block (message_calls m) calls \<and> content = blocks @ calls" by blast
  with False show ?thesis by (simp add: carries_def)
qed

lemma message_loop_carried:
  "anthropic_message_loop ms = Inr (system, messages) \<Longrightarrow>
     list_all2 carries (filter (\<lambda>m. \<not> is_instruction m) ms) messages \<and>
     list_all2 (\<lambda>m t. textContent (cmContent m) = Inr t) (filter is_instruction ms) system"
  by (induction ms arbitrary: system messages) (auto split: if_split_asm sum.split_asm dest: message_carried)

lemma leading_loop_spec:
  "leading_loop ms started = None \<longleftrightarrow>
     (if started then filter is_instruction ms = [] else takeWhile is_instruction ms = filter is_instruction ms)"
  by (induction ms started rule: leading_loop.induct) (auto simp: takeWhile_eq_filter)

lemma apply_tools_keeps:
  assumes "applyAnthropicTools up req = Inr up'"
  shows "arModel up' = arModel up \<and> arStream up' = arStream up \<and> arMaxTokens up' = arMaxTokens up \<and> arStopSequences up' = arStopSequences up \<and>
    arTools up' = arTools up @ map anthropic_tool_of (request_tools req)"
  using assms by (auto simp: applyAnthropicTools_def Let_def split: sum.split_asm if_split_asm)

lemma first_refusal_none: "first_refusal f xs = None \<Longrightarrow> x \<in> set xs \<Longrightarrow> f x = None"
proof (cases "find (\<lambda>x. f x \<noteq> None) xs")
  case None
  then show "x \<in> set xs \<Longrightarrow> f x = None" by (simp add: find_None_iff)
next
  case (Some y)
  moreover have "f y \<noteq> None" using Some by (auto simp: find_Some_iff)
  ultimately show "first_refusal f xs = None \<Longrightarrow> f x = None" by (simp add: first_refusal_def)
qed


section \<open>The response\<close>

definition block_call :: "anthropic_block \<Rightarrow> chat_tool_call" where
  "block_call b = \<lparr>tcID = abID b, tcType = ''function'', tcFunction = \<lparr>fcName = abName b, fcArguments = raw_text (abInput b)\<rparr>\<rparr>"

definition block_text :: "anthropic_block list \<Rightarrow> string" where
  "block_text bs = concat (map abText (filter (\<lambda>b. abType b = ''text'') bs))"

definition block_calls :: "anthropic_block list \<Rightarrow> chat_tool_call list" where
  "block_calls bs = map block_call (filter (\<lambda>b. abType b = ''tool_use'') bs)"

lemma block_loop_spec:
  "block_loop bs t0 calls = Inr (t, cs) \<Longrightarrow>
     t = t0 @ block_text bs \<and> cs = calls @ block_calls bs \<and> (\<forall>b \<in> set bs. abType b = ''text'' \<or> abType b = ''tool_use'')"
  by (induction bs t0 calls rule: block_loop.induct)
    (auto simp: block_text_def block_calls_def block_call_def split: if_split_asm)

definition block_ok :: "anthropic_block \<Rightarrow> bool" where
  "block_ok b \<longleftrightarrow> utf8_valid (abType b) \<and> utf8_valid (abText b) \<and> utf8_valid (abID b) \<and> utf8_valid (abName b) \<and> utf8_valid (raw_text (abInput b))"

definition response_ok :: "anthropic_response \<Rightarrow> bool" where
  "response_ok x \<longleftrightarrow> utf8_valid (aspID x) \<and> utf8_valid (aspModel x) \<and> utf8_valid (aspStopReason x) \<and> list_all block_ok (fst (aspContent x))"

lemma raw_field_keeps:
  assumes "\<And>x r. P x \<Longrightarrow> texts_ok r \<Longrightarrow> P (upd r x)"
  shows "field_keeps P (\<lambda>r x. Some (upd r x))"
  using assms by (auto simp: field_keeps_def)

lemma block_fields_keep: "list_all (\<lambda>f. field_keeps block_ok (snd f)) block_fields"
  unfolding block_fields_def list.pred_inject snd_conv
  by (intro conjI string_field_keeps raw_field_keeps TrueI) (simp_all add: block_ok_def texts_ok_text)

lemma utf8_Nil [simp]: "utf8_valid []"
  by (simp add: utf8_valid_def)

lemma blocks_keep: "field_keeps response_ok
    (\<lambda>r x. map_option (\<lambda>v. x\<lparr>aspContent := v\<rparr>) (decode_slice (decode_struct block_fields) block_zero (aspContent x) r))"
proof -
  have zero: "block_ok block_zero" by (simp add: block_ok_def block_zero_def raw_text_def)
  have "response_ok (x\<lparr>aspContent := v\<rparr>)"
    if "texts_ok r" "response_ok x" "decode_slice (decode_struct block_fields) block_zero (aspContent x) r = Some v" for r x v
    using decode_slice_keeps [of "decode_struct block_fields" block_ok block_zero, OF decode_struct_keeps [OF block_fields_keep] zero that(3,1)] that(2)
    by (simp add: response_ok_def)
  then show ?thesis by (auto simp: field_keeps_def)
qed

lemma usage_keeps: "field_keeps response_ok
    (\<lambda>r x. map_option (\<lambda>v. x\<lparr>aspUsage := v\<rparr>) (decode_struct_ptr anthropic_usage_fields anthropic_usage_zero (aspUsage x) r))"
  by (auto simp: field_keeps_def response_ok_def)

lemma response_fields_keep: "list_all (\<lambda>f. field_keeps response_ok (snd f)) anthropic_response_fields"
  unfolding anthropic_response_fields_def list.pred_inject snd_conv
  by (intro conjI string_field_keeps blocks_keep usage_keeps TrueI) (simp_all add: response_ok_def)

lemma response_decoded_ok:
  assumes "json_read body = Some ts" "utf8_valid body" "decode_struct anthropic_response_fields anthropic_response_zero ts = Some x"
  shows "response_ok x"
  using decode_struct_keeps [OF response_fields_keep assms(3) texts_ok_read [OF assms(1,2)]]
  by (simp add: response_ok_def anthropic_response_zero_def)

lemma concat_utf8: "\<forall>s \<in> set ss. utf8_valid s \<Longrightarrow> utf8_valid (concat ss)"
  by (induction ss) (auto intro: utf8_valid_append)

lemma block_utf8:
  assumes "list_all block_ok bs"
  shows "utf8_valid (block_text bs)" "list_all call_text_ok (block_calls bs)"
proof -
  show "utf8_valid (block_text bs)" using assms unfolding block_text_def by (intro concat_utf8) (auto simp: list_all_iff block_ok_def)
  have "utf8_valid ''function''" by code_simp
  then show "list_all call_text_ok (block_calls bs)"
    using assms by (auto simp: list_all_iff block_calls_def block_call_def call_text_ok_def block_ok_def)
qed

text \<open>
  Claim C31: the completion made from an Anthropic response says what the response said. Read back, it has the
  model, the concatenated text of the text blocks (null when there are only tool calls), the tool calls of the
  tool blocks in order with their IDs, names and arguments, and the finish reason; a response with a block of
  another kind is refused.
\<close>
theorem anthropic_response_faithful:
  assumes "json_read body = Some ts" "utf8_valid body" "utf8_valid requestID"
    and "decode_struct anthropic_response_fields anthropic_response_zero ts = Some x"
    and "decodeAnthropicResponse now body requestID = Inr out"
  shows "\<exists>us choice msg. json_read out = Some us \<and> elements (map_get (members us) ''choices'') = [choice] \<and>
    decode_string [] (map_get (members us) ''model'') = Some (aspModel x) \<and>
    decode_string [] (map_get (members choice) ''finish_reason'') = Some (anthropic_finish (aspStopReason x)) \<and>
    map_get (members choice) ''message'' = msg \<and>
    decode_string_ptr (map_get (members msg) ''content'') =
      Some (if block_text (slice_list (aspContent x)) \<noteq> [] \<or> block_calls (slice_list (aspContent x)) = []
            then Some (block_text (slice_list (aspContent x))) else None) \<and>
    (block_calls (slice_list (aspContent x)) \<noteq> [] \<longrightarrow> map_option slice_list
       (decode_slice (decode_struct tool_call_fields) tool_call_zero ([], 0) (map_get (members msg) ''tool_calls'')) =
         Some (block_calls (slice_list (aspContent x)))) \<and>
    slice_list (aspContent x) \<noteq> [] \<and> (\<forall>b \<in> set (slice_list (aspContent x)). abType b = ''text'' \<or> abType b = ''tool_use'')"
proof -
  let ?bs = "slice_list (aspContent x)"
  from assms(1,4,5) obtain t cs usage where loop: "block_loop ?bs [] [] = Inr (t, cs)" and ne: "?bs \<noteq> []" and
    out: "out = encodeCompletionMessage now (aspID x) requestID (aspModel x)
      \<lparr>msRole = ''assistant'', msContent = (if t \<noteq> [] \<or> cs = [] then Some t else None), msReasoningContent = None, msToolCalls = cs\<rparr>
      (anthropic_finish (aspStopReason x)) usage"
    by (auto simp: decodeAnthropicResponse_def split: sum.split_asm prod.split_asm if_split_asm option.split_asm)
  note spec = block_loop_spec [OF loop, simplified]
  have ok: "response_ok x" by (rule response_decoded_ok [OF assms(1,2,4)])
  then have bs: "list_all block_ok ?bs" by (auto simp: response_ok_def slice_list_def list_all_iff dest: in_set_takeD)
  define m where "m = \<lparr>msRole = ''assistant'', msContent = (if block_text ?bs \<noteq> [] \<or> block_calls ?bs = [] then Some (block_text ?bs) else None),
      msReasoningContent = None, msToolCalls = block_calls ?bs\<rparr>"
  have m: "msContent m = (if block_text ?bs \<noteq> [] \<or> block_calls ?bs = [] then Some (block_text ?bs) else None)" "msToolCalls m = block_calls ?bs"
    by (simp_all add: m_def)
  have out: "out = encodeCompletionMessage now (aspID x) requestID (aspModel x) m (anthropic_finish (aspStopReason x)) usage"
    using out spec by (simp add: m_def)
  have types: "\<forall>b \<in> set ?bs. abType b = ''text'' \<or> abType b = ''tool_use''" using spec by blast
  have i: "utf8_valid (completion_id (aspID x) requestID)" using ok assms(3) by (intro completion_id_valid) (simp_all add: response_ok_def)
  have model: "utf8_valid (aspModel x)" using ok by (simp add: response_ok_def)
  have finish: "utf8_valid (anthropic_finish (aspStopReason x))"
    using ascii_valid [of "''length''"] ascii_valid [of "''tool_calls''"] ascii_valid [of "''stop''"] by (simp add: anthropic_finish_def)
  have content: "\<forall>s. msContent m = Some s \<longrightarrow> utf8_valid s" "list_all call_text_ok (msToolCalls m)"
    using block_utf8 [OF bs] by (simp_all add: m)
  note said = completion_read_back [OF i model finish content, of now usage, folded out, unfolded m]
  then show ?thesis by (elim exE conjE) (intro exI conjI; (assumption | rule ne | rule types))
qed

section \<open>The stream\<close>

lemma send_delta_chunks:
  "send_delta now s d = (s', Inr r) \<Longrightarrow> s' = s \<and> nrChunks r = [fst (encodeStreamChunk now (smID s) (smModel s) d [] None)]"
  by (auto simp: send_delta_def streamResult_def split_beta)

lemma message_delta_chunks:
  "message_delta now s d u = (s', Inr r) \<Longrightarrow>
     nrChunks r = [fst (encodeStreamChunk now (smID s) (smModel s) delta_zero (normalizeAnthropicFinishReason (dlStopReason d)) (output_usage (smUsage s) u))] \<and>
     smToolIndexByBlock s' = smToolIndexByBlock s \<and> smNextToolIndex s' = smNextToolIndex s"
  by (auto simp: message_delta_def streamResult_def split_beta)

text \<open>The numbers of the tool calls: each block that is one has its own, counted from 0.\<close>

definition tool_numbers :: "anthropic_stream \<Rightarrow> bool" where
  "tool_numbers s \<longleftrightarrow> 0 \<le> smNextToolIndex s \<and> inj_on (smToolIndexByBlock s) (dom (smToolIndexByBlock s)) \<and>
     (\<forall>b i. smToolIndexByBlock s b = Some i \<longrightarrow> 0 \<le> i \<and> i < smNextToolIndex s)"

definition numbered :: "anthropic_stream \<Rightarrow> bool" where
  "numbered s \<longleftrightarrow> tool_numbers s \<and> smNextToolIndex s \<le> int64_max"

definition from_delta :: "int \<Rightarrow> bool \<Rightarrow> string \<Rightarrow> bool" where
  "from_delta now ok c \<longleftrightarrow> (\<exists>i model d finish u. c = fst (encodeStreamChunk now i model d finish u) \<and> (ok \<longrightarrow> delta_ok d))"

lemma from_deltaI: "(ok \<Longrightarrow> delta_ok d) \<Longrightarrow> from_delta now ok (fst (encodeStreamChunk now i model d finish u))"
  unfolding from_delta_def by (intro exI conjI impI) (rule refl, simp)

text \<open>What one event may do: the tools keep their numbers, and its chunks are made from deltas that pass the check.\<close>

definition good_step :: "int \<Rightarrow> anthropic_stream \<Rightarrow> anthropic_stream \<times> (goerr + native_result) \<Rightarrow> bool" where
  "good_step now s out \<longleftrightarrow>
     (case out of
        (s', Inl err) \<Rightarrow> True
      | (s', Inr r) \<Rightarrow>
          (tool_numbers s \<longrightarrow> tool_numbers s' \<and> smNextToolIndex s' \<le> smNextToolIndex s + 1) \<and>
          (\<forall>c \<in> set (nrChunks r). from_delta now (numbered s) c))"

lemma good_delta_step:
  assumes "tool_numbers s \<Longrightarrow> tool_numbers s1 \<and> smNextToolIndex s1 \<le> smNextToolIndex s + 1" "numbered s \<Longrightarrow> delta_ok d"
  shows "good_step now s (send_delta now s1 d)"
  using assms unfolding good_step_def send_delta_def streamResult_def by (auto simp: split_beta intro: from_deltaI)

lemma delta_ok_simple: "delta_ok delta_zero" "delta_ok (delta_zero\<lparr>sdRole := ''assistant''\<rparr>)" "delta_ok (delta_zero\<lparr>sdContent := v\<rparr>)"
  by (simp_all add: delta_ok_def delta_zero_def)

lemma delta_ok_call: "0 \<le> i \<Longrightarrow> i \<le> int64_max \<Longrightarrow> ty \<in> {[], ''function''} \<Longrightarrow>
    delta_ok (delta_zero\<lparr>sdToolCalls := [\<lparr>sdIndex = i, sdID = t, sdType = ty, sdName = n, sdArguments = a\<rparr>]\<rparr>)"
  by (auto simp: delta_ok_def delta_zero_def call_delta_ok_def int64_defs)

lemma quiet_step: "good_step now s (s, Inr no_result)" "good_step now s (s, Inr done_result)" "good_step now s (s', Inl err)"
  by (simp_all add: good_step_def no_result_def done_result_def)

lemma same_tools:
  "tool_numbers (s\<lparr>smID := i\<rparr>) = tool_numbers s" "tool_numbers (s\<lparr>smModel := m\<rparr>) = tool_numbers s"
  "tool_numbers (s\<lparr>smID := i, smUsage := u\<rparr>) = tool_numbers s" "tool_numbers (s\<lparr>smModel := m, smUsage := u\<rparr>) = tool_numbers s"
  "tool_numbers (s\<lparr>smID := i, smModel := m\<rparr>) = tool_numbers s" "tool_numbers (s\<lparr>smID := i, smModel := m, smUsage := u\<rparr>) = tool_numbers s"
  "tool_numbers (s\<lparr>smUsage := u\<rparr>) = tool_numbers s"
  by (simp_all add: tool_numbers_def)

lemma message_start_step: "good_step now s (message_start now s msg)"
  unfolding message_start_def Let_def
  by (auto simp: quiet_step same_tools split: option.split intro!: good_delta_step delta_ok_simple)

lemma new_tool_numbers:
  assumes "tool_numbers s"
  shows "tool_numbers (s\<lparr>smToolIndexByBlock := (smToolIndexByBlock s)(index \<mapsto> smNextToolIndex s), smNextToolIndex := smNextToolIndex s + 1\<rparr>)"
proof -
  have less: "i < smNextToolIndex s" if "smToolIndexByBlock s b = Some i" for b i
    using assms that by (simp add: tool_numbers_def)
  then have "inj_on ((smToolIndexByBlock s)(index \<mapsto> smNextToolIndex s)) (dom ((smToolIndexByBlock s)(index \<mapsto> smNextToolIndex s)))"
    using assms by (fastforce simp: inj_on_def tool_numbers_def dom_def split: if_split_asm)
  then show ?thesis using assms less by (force simp: tool_numbers_def less_imp_le split: if_split_asm)
qed

lemma block_start_step: "good_step now s (content_block_start now s index block)"
  unfolding content_block_start_def Let_def
  by (auto simp: quiet_step new_tool_numbers numbered_def tool_numbers_def [of s] intro!: good_delta_step delta_ok_simple delta_ok_call)

lemma block_delta_step: "good_step now s (content_block_delta now s index d)"
proof -
  have "delta_ok (delta_zero\<lparr>sdToolCalls := [\<lparr>sdIndex = i, sdID = [], sdType = [], sdName = [], sdArguments = a\<rparr>]\<rparr>)"
    if "numbered s" "smToolIndexByBlock s index = Some i" for i a
    using that by (intro delta_ok_call) (fastforce simp: numbered_def tool_numbers_def)+
  then show ?thesis
    unfolding content_block_delta_def by (auto simp: quiet_step split: option.split intro!: good_delta_step delta_ok_simple)
qed

lemma message_delta_step: "good_step now s (message_delta now s d u)"
  unfolding good_step_def message_delta_def streamResult_def
  by (auto simp: split_beta same_tools delta_ok_simple intro!: from_deltaI)

lemma anthropic_step: "good_step now s (anthropic_mapper now s event data)"
  unfolding anthropic_mapper_def anthropic_event_def Let_def
  by (simp add: quiet_step message_start_step block_start_step block_delta_step message_delta_step split: sum.split option.split)

interpretation anthropic_sm: stream_mapper anthropic_mapper
proof
  fix now m event data m' r c
  assume "anthropic_mapper now m event data = (m', Inr r)" "c \<in> set (nrChunks r)"
  with anthropic_step [of now m event data] have "from_delta now (numbered m) c" by (auto simp: good_step_def)
  with chunk_is_compact show "json_compact c = Some c" by (auto simp: from_delta_def)
qed

text \<open>
  Claim C32: the stream of the Anthropic adapter is the translation of the upstream's events. However the
  goroutine's frames, activity comments and the pipe fall, the gateway reads one event per chunk the mapper
  gave, in order and with the same bytes, then the end marker if the mapper accepted the end, and otherwise
  the mapper's error (or \<open>ErrInvalidStream\<close> where the upstream stopped early), again and again.
\<close>
theorem anthropic_stream_relayed:
  assumes "translate anthropic_mapper clock 0 s (fst (sse_items e bytes)) (snd (sse_items e bytes)) = t"
    and "\<forall>c \<in> set (fst t). chunk_fits c"
  shows "\<exists>stream. newMappedSSEStream anthropic_mapper clock s (Some (bytes, e)) = Inr stream \<and>
    read_events validateCompatibleChatChunk (length (fst t) + 1 + k) stream = translated_events k t"
  using anthropic_sm.driven_stream_read [of clock 0 s "fst (sse_items e bytes)" "snd (sse_items e bytes)" k True] assms
  by (simp add: newMappedSSEStream_def sse_drive)

text \<open>The states a stream comes to, with the number of events.\<close>

inductive reaches :: "anthropic_stream \<Rightarrow> nat \<Rightarrow> anthropic_stream \<Rightarrow> bool" for s0 where
  start: "reaches s0 0 s0"
| event: "reaches s0 n s \<Longrightarrow> anthropic_mapper now s ev data = (s', Inr r) \<Longrightarrow> reaches s0 (Suc n) s'"

lemma reaches_numbers:
  assumes "reaches (newAnthropicStreamMapper model requestID) n s"
  shows "tool_numbers s \<and> smNextToolIndex s \<le> int n"
  using assms
proof induction
  case start
  then show ?case by (simp add: newAnthropicStreamMapper_def tool_numbers_def)
next
  case (event n s now ev data s' r)
  with anthropic_step [of now s ev data] show ?case by (auto simp: good_step_def)
qed

text \<open>
  Claim C33: the tool calls of a stream keep apart. In every state a stream comes to, different tool blocks
  have different numbers, all of them given out before and counted from 0; and every chunk an event then
  gives passes the gateway's own check, so no event is lost between the mapper and the client.
\<close>
theorem anthropic_stream_tool_numbers:
  assumes "reaches (newAnthropicStreamMapper model requestID) n s" "int n \<le> int64_max"
  shows "inj_on (smToolIndexByBlock s) (dom (smToolIndexByBlock s)) \<and>
    (\<forall>b i. smToolIndexByBlock s b = Some i \<longrightarrow> 0 \<le> i \<and> i < smNextToolIndex s) \<and> smNextToolIndex s \<le> int n \<and>
    (\<forall>now ev data s' r. anthropic_mapper now s ev data = (s', Inr r) \<longrightarrow> emit r = (nrChunks r, None))"
proof -
  have num: "tool_numbers s" "smNextToolIndex s \<le> int n" using reaches_numbers [OF assms(1)] by simp_all
  have "emit r = (nrChunks r, None)" if "anthropic_mapper now s ev data = (s', Inr r)" for now ev data s' r
  proof -
    have "\<forall>c \<in> set (nrChunks r). validateCompatibleChatChunk c = None"
      using anthropic_step [of now s ev data] that num assms(2) chunk_passes by (fastforce simp: good_step_def numbered_def from_delta_def)
    then show ?thesis by (simp add: emit_def takeWhile_eq_all_conv)
  qed
  with num show ?thesis by (simp add: tool_numbers_def)
qed

section \<open>Witnesses\<close>

definition anthropic_sample_event :: string where
  "anthropic_sample_event = quoted ''{`type`:`content_block_delta`,`delta`:{`type`:`text_delta`,`text`:`a`}}''"

definition anthropic_sample_body :: string where
  "anthropic_sample_body = quoted ''{`model`:`m`,`messages`:[{`role`:`system`,`content`:`s`},{`role`:`user`,`content`:`u`}]}''"

lemma anthropic_sample_parses:
  "case ParseChatRequest anthropic_sample_body of Returns (Inr req) \<Rightarrow>
     (case anthropic_upstream \<lparr>ciRequestID = [], ciRequest = req, ciModelOverride = []\<rparr> False of Inr (up, r) \<Rightarrow> True | _ \<Rightarrow> False) | _ \<Rightarrow> False"
  by code_simp


definition anthropic_sample_response :: string where
  "anthropic_sample_response = quoted ''{`model`:`m`,`content`:[{`type`:`text`,`text`:`a`}]}''"

lemma anthropic_sample_read:
  "case json_read anthropic_sample_response of None \<Rightarrow> False | Some ts \<Rightarrow>
     (case decode_struct anthropic_response_fields anthropic_response_zero ts of None \<Rightarrow> False | Some x \<Rightarrow> aspModel x = ''m'')"
  by code_simp

lemma anthropic_sample_decodes:
  "case decodeAnthropicResponse 7 anthropic_sample_response ''r'' of Inr out \<Rightarrow> True | Inl err \<Rightarrow> False"
  by code_simp

theorem anthropic_response_faithful_witness:
  "\<exists>out us. decodeAnthropicResponse 7 anthropic_sample_response ''r'' = Inr out \<and> json_read out = Some us \<and>
     decode_string [] (map_get (members us) ''model'') = Some ''m''"
proof -
  obtain ts x where ts: "json_read anthropic_sample_response = Some ts" and
    x: "decode_struct anthropic_response_fields anthropic_response_zero ts = Some x" and m: "aspModel x = ''m''"
    using anthropic_sample_read by (auto split: option.split_asm)
  obtain out where out: "decodeAnthropicResponse 7 anthropic_sample_response ''r'' = Inr out"
    using anthropic_sample_decodes by (auto split: sum.split_asm)
  have u: "utf8_valid anthropic_sample_response" "utf8_valid ''r''" by code_simp+
  from anthropic_response_faithful [OF ts u x out, unfolded m] out show ?thesis
    by (elim exE conjE) (intro exI conjI)
qed

lemma anthropic_sample_event_mapped:
  "case anthropic_mapper 7 (newAnthropicStreamMapper ''m'' ''r'') [] anthropic_sample_event of
     (s, Inr r) \<Rightarrow> list_all chunk_fits (nrChunks r) \<and> length (nrChunks r) = 1 \<and> emit r = (nrChunks r, None) \<and> \<not> nrDone r
   | (s, Inl e) \<Rightarrow> False"
  by code_simp

theorem anthropic_stream_relayed_witness:
  "\<exists>c stream. newMappedSSEStream anthropic_mapper (\<lambda>n. 7) (newAnthropicStreamMapper ''m'' ''r'')
       (Some (chat_frame anthropic_sample_event @ chat_frame ''[DONE]'', ErrSentinel IoEOF)) = Inr stream \<and>
     read_events validateCompatibleChatChunk 2 stream = [(\<lparr>evData = c, evDone = False\<rparr>, None), (done_event, None)]"
proof -
  let ?s = "newAnthropicStreamMapper ''m'' ''r''"
  let ?bytes = "chat_frame anthropic_sample_event @ chat_frame ''[DONE]''"
  from anthropic_sample_event_mapped obtain s r where
    r: "anthropic_mapper 7 ?s [] anthropic_sample_event = (s, Inr r)" "list_all chunk_fits (nrChunks r)" "emit r = (nrChunks r, None)" "\<not> nrDone r"
    and one: "length (nrChunks r) = 1"
    by (elim mapped_case) blast
  have "trim_space ''[DONE]'' = ''[DONE]''" by code_simp
  then have fin: "anthropic_mapper 7 s [] ''[DONE]'' = (s, Inr done_result)" "payload_ok ''[DONE]''"
    by (simp_all add: anthropic_mapper_def payload_ok_def stream_limits)
  have "trim_space anthropic_sample_event = anthropic_sample_event" "anthropic_sample_event \<noteq> []" "CHR 0x0A \<notin> set anthropic_sample_event"
    "int (length anthropic_sample_event) + 6 \<le> maxStreamLineBytes" by code_simp+
  then have payload: "payload_ok anthropic_sample_event" by (simp add: payload_ok_def)
  have items: "sse_items (ErrSentinel IoEOF) ?bytes = ([Some ([], anthropic_sample_event), Some ([], ''[DONE]'')], ErrSentinel IoEOF)"
    using sse_data_event [OF payload, of _ "chat_frame ''[DONE]''"] sse_data_event [OF fin(2), of _ "[]"] by (simp add: sse_end)
  have "translate anthropic_mapper (\<lambda>n. 7) 0 ?s (fst (sse_items (ErrSentinel IoEOF) ?bytes)) (snd (sse_items (ErrSentinel IoEOF) ?bytes)) = (nrChunks r, None)"
    using r fin by (simp add: items emit_def done_result_def)
  from anthropic_stream_relayed [OF this, of 0] r(2) one show ?thesis
    by (cases "nrChunks r") (auto simp: list_all_iff translated_events_def numeral_2_eq_2)
qed

definition anthropic_sample_tool :: string where
  "anthropic_sample_tool = quoted ''{`type`:`content_block_start`,`index`:3,`content_block`:{`type`:`tool_use`,`id`:`t`,`name`:`f`}}''"

lemma anthropic_sample_tool_mapped:
  "case anthropic_mapper 7 (newAnthropicStreamMapper ''m'' ''r'') [] anthropic_sample_tool of
     (s, Inr r) \<Rightarrow> smToolIndexByBlock s 3 = Some 0 | (s, Inl e) \<Rightarrow> False"
  by code_simp

theorem anthropic_stream_tool_numbers_witness:
  "\<exists>s. reaches (newAnthropicStreamMapper ''m'' ''r'') 1 s \<and> smToolIndexByBlock s 3 = Some 0 \<and>
     inj_on (smToolIndexByBlock s) (dom (smToolIndexByBlock s)) \<and> smNextToolIndex s \<le> 1"
proof -
  from anthropic_sample_tool_mapped obtain s r where
    r: "anthropic_mapper 7 (newAnthropicStreamMapper ''m'' ''r'') [] anthropic_sample_tool = (s, Inr r)" and
    zero: "smToolIndexByBlock s 3 = Some 0"
    by (elim mapped_case) blast
  have reach: "reaches (newAnthropicStreamMapper ''m'' ''r'') 1 s"
    using reaches.event [OF reaches.start r] by simp
  from anthropic_stream_tool_numbers [OF reach] reach zero show ?thesis by (auto simp: int64_defs)
qed

end
