(* ===== verification/UsageSession.thy ===== *)
theory UsageSession
  imports Collector QuotaRuns StreamAttempt StreamChunk
begin

text \<open>
  The HTTP side of a request: the context the handlers write to with the error replies
  (\<open>internal/httpapi/errors.go\<close>), and the usage session that accounts for the request
  (\<open>internal/httpapi/usage.go\<close>). Metrics and log lines are left out.
\<close>

section \<open>The reply\<close>

text \<open>
  What the handlers use of \<open>gin.Context\<close>: the error code kept under \<open>apiErrorCodeKey\<close>, the headers, the
  replies written with \<open>c.Data\<close> or \<open>AbortWithStatusJSON\<close> (status and body), and what was written to the
  stream. \<open>hcAnthropic\<close> is \<open>protocolKind(c) == protocolAnthropic\<close>.
\<close>

record http_ctx =
  hcAnthropic :: bool
  hcRequestID :: string
  hcErrorCode :: string
  hcHeaders :: "(string \<times> string) list"
  hcReplies :: "(int \<times> string) list"
  hcFrames :: "string list"

definition set_header :: "string \<Rightarrow> string \<Rightarrow> http_ctx \<Rightarrow> http_ctx" where
  "set_header name v c = c\<lparr>hcHeaders := AList.update name v (hcHeaders c)\<rparr>"

definition anthropicErrorType :: "int \<Rightarrow> string" where
  "anthropicErrorType status =
     (if status = 400 then ''invalid_request_error'' else if status = 401 then ''authentication_error''
      else if status = 403 then ''permission_error'' else if status = 404 then ''not_found_error''
      else if status = 413 then ''request_too_large'' else if status = 429 then ''rate_limit_error''
      else if status = 503 then ''overloaded_error'' else ''api_error'')"

definition error_value :: "string \<Rightarrow> string \<Rightarrow> string option \<Rightarrow> string \<Rightarrow> raw" where
  "error_value message errorType param code =
     obj_tokens [(''error'', obj_tokens
       [(''message'', marshal_string message), (''type'', marshal_string errorType),
        (''param'', string_value param), (''code'', marshal_string code)])]"

text \<open>A \<open>gin.H\<close> is a map, whose members are written in the order of their names.\<close>

definition anthropic_error_value :: "int \<Rightarrow> string \<Rightarrow> string \<Rightarrow> raw" where
  "anthropic_error_value status message requestID =
     obj_tokens [(''error'', obj_tokens [(''message'', marshal_string message), (''type'', marshal_string (anthropicErrorType status))]),
       (''request_id'', marshal_string requestID), (''type'', marshal_string ''error'')]"

definition writeAPIError :: "int \<Rightarrow> string \<Rightarrow> string \<Rightarrow> string option \<Rightarrow> string \<Rightarrow> http_ctx \<Rightarrow> http_ctx" where
  "writeAPIError status message errorType param code c =
     c\<lparr>hcErrorCode := code,
       hcReplies := hcReplies c @
         [(status, raw_text (if hcAnthropic c then anthropic_error_value status message (hcRequestID c)
                             else error_value message errorType param code))]\<rparr>"

section \<open>The session\<close>

record usage_session =
  usCollector :: collector
  usEvent :: usage_event
  usReady :: bool
  usEventID :: string
  usQuota :: bool \<comment> \<open>\<open>quota\<close> is not nil\<close>
  usReservationID :: string

text \<open>
  \<open>begin_lifecycle\<close> is \<open>LifecycleEmitter.Begin\<close> of the emitter, which answers without an error when the
  emitter is not one; \<open>random\<close> and \<open>now\<close> are what the event is made with.
\<close>

definition newUsageSession ::
  "string option \<Rightarrow> time \<Rightarrow> (pending_event \<Rightarrow> goerr option) \<Rightarrow> string \<Rightarrow> string \<Rightarrow> string \<Rightarrow> string \<Rightarrow> bool \<Rightarrow> goerr + usage_session" where
  "newUsageSession random now begin_lifecycle requestID tenantID apiKeyID model stream =
     (case NewCollector random now \<lparr>niRequestID = requestID, niTenantID = tenantID, niAPIKeyID = apiKeyID,
             niRequestedModel = model, niStream = stream, niStartedAt = 0\<rparr> of
        Inl err \<Rightarrow> Inl (ErrWrap [err])
      | Inr c \<Rightarrow>
          (case begin_lifecycle (collector_Pending c) of
             Some err \<Rightarrow> Inl (ErrWrap [err])
           | None \<Rightarrow> Inr \<lparr>usCollector = c, usEvent = event_zero, usReady = False, usEventID = peEventID (collector_Pending c),
                         usQuota = False, usReservationID = []\<rparr>))"

definition session_finalize :: "time \<Rightarrow> string \<Rightarrow> string \<Rightarrow> string \<Rightarrow> usage_session \<Rightarrow> usage_session" where
  "session_finalize now status category code s =
     (if usReady s then s
      else case Finalize \<lparr>oiStatus = status, oiErrorCategory = category, oiErrorCode = code, oiEndedAt = 0\<rparr> now (usCollector s) of
        (c, event, ok) \<Rightarrow> if \<not> ok then s\<lparr>usCollector := c\<rparr> else s\<lparr>usCollector := c, usEvent := event, usReady := True\<rparr>)"

definition attachQuota :: "string \<Rightarrow> usage_session \<Rightarrow> usage_session" where
  "attachQuota reservationID s = s\<lparr>usQuota := True, usReservationID := trim_space reservationID\<rparr>"

definition setCacheStatus :: "string \<Rightarrow> usage_session \<Rightarrow> usage_session" where
  "setCacheStatus status s = s\<lparr>usCollector := SetCacheStatus status (usCollector s)\<rparr>"

definition session_observe :: "(string \<Rightarrow> rat option) \<Rightarrow> string \<Rightarrow> usage_session \<Rightarrow> usage_session" where
  "session_observe setString payload s = s\<lparr>usCollector := ObserveResponse setString payload (usCollector s)\<rparr>"

definition observeStream :: "(string \<Rightarrow> rat option) \<Rightarrow> string \<Rightarrow> time \<Rightarrow> usage_session \<Rightarrow> usage_session" where
  "observeStream setString payload now s = s\<lparr>usCollector := ObserveStreamResponse setString payload now now (usCollector s)\<rparr>"

definition retriesFromTrail :: "attempt_record list \<Rightarrow> int" where
  "retriesFromTrail trail = int (length (filter (\<lambda>a. 1 < arAttempt a) trail))"

definition set_route :: "string \<Rightarrow> string \<Rightarrow> int \<Rightarrow> attempt_record list \<Rightarrow> int \<Rightarrow> usage_session \<Rightarrow> usage_session" where
  "set_route providerID upstreamModel attempts trail fallbacks s =
     s\<lparr>usCollector := SetRoute providerID upstreamModel attempts (retriesFromTrail trail) fallbacks (usCollector s)\<rparr>"

definition recordExecution :: "execution_result \<Rightarrow> usage_session \<Rightarrow> usage_session" where
  "recordExecution r = set_route (erProviderID r) (erUpstreamModel r) (erAttempts r) (erTrail r) (erFallbacks r)"

definition recordStream :: "prepared_stream \<Rightarrow> usage_session \<Rightarrow> usage_session" where
  "recordStream p = set_route (psProviderID p) (psUpstreamModel p) (psAttempts p) (psTrail p) (psFallbacks p)"

definition recordFailure :: "failure \<Rightarrow> usage_session \<Rightarrow> usage_session" where
  "recordFailure f = set_route (fProviderID f) (if fTrail f \<noteq> [] then arUpstreamModel (last (fTrail f)) else [])
     (fTotalAttempts f) (fTrail f) (fFallbacks f)"

section \<open>The end of the session\<close>

text \<open>
  The state the requests share: the providers, the quota manager, the events handed to the emitter and the
  responses handed to the cache.
\<close>

record gateway =
  gwWorld :: world
  gwQuota :: quota_manager
  gwEmitted :: "usage_event list"
  gwStored :: "(string \<times> string \<times> string \<times> string \<times> string) list"

text \<open>
  The end of a request: whether its context ended, the clock of \<open>Finalize\<close>, what the other requests did to
  the quotas since, and the clock and the fault of the settlement.
\<close>

record end_env =
  enCtxErr :: "ctx_err option"
  enNow :: time
  enQuotaOthers :: "quota_manager \<Rightarrow> quota_manager"
  enSettleNow :: time
  enSettleFault :: "quota_error option"

definition unfinished_outcome :: "string \<Rightarrow> ctx_err option \<Rightarrow> string \<times> string \<times> string" where
  "unfinished_outcome code0 ctxErr =
     (let (status, category, code) =
        (if ctxErr \<noteq> None then (StatusCanceled, ''client'', if code0 = [] then ''client_canceled'' else code0)
         else (StatusFailed, ''gateway'', code0)) in
      (status, category, if code = [] then ''request_incomplete'' else code))"

definition session_finish :: "(usage_event \<Rightarrow> cost_result) \<Rightarrow> end_env \<Rightarrow> http_ctx \<Rightarrow> usage_session \<Rightarrow> gateway \<Rightarrow> gateway" where
  "session_finish quote env c s g =
     (let s1 = (case unfinished_outcome (hcErrorCode c) (enCtxErr env) of
                  (status, category, code) \<Rightarrow> session_finalize (enNow env) status category code s);
          g1 = g\<lparr>gwQuota := enQuotaOthers env (gwQuota g)\<rparr> in
      if \<not> usReady s1 then g1
      else
        (let g2 = (if usQuota s1 \<and> usReservationID s1 \<noteq> []
                   then g1\<lparr>gwQuota := fst (Settle quote (enSettleNow env) (enSettleFault env) (usReservationID s1) (usEvent s1) (gwQuota g1))\<rparr>
                   else g1) in
         g2\<lparr>gwEmitted := gwEmitted g2 @ [usEvent s1]\<rparr>))"

end
