(* ===== verification/ChatHandler.thy ===== *)
theory ChatHandler
  imports UsageSession ApiKeys ChatRequest
begin

text \<open>
  The chat endpoint (\<open>internal/httpapi/chat.go\<close>, with \<open>encodeProtocolResponse\<close> and
  \<open>writeProtocolStream\<close> of \<open>protocol.go\<close>): one request from its body to its reply, through the model
  authorization, the rate limiter, the route plan, the quota reservation, the response cache and the
  orchestrator, with its usage session. The limiter, the cache, the emitter and the protocol are interfaces
  and so arguments; what the network, the clocks and the other requests do is the environment.
\<close>

section \<open>The request\<close>

definition maxChatRequestBodyBytes :: int where "maxChatRequestBodyBytes = 16 * 2 ^ 20"

definition hasJSONContentType :: "(string \<Rightarrow> string option) \<Rightarrow> string \<Rightarrow> bool" where
  "hasJSONContentType parseMediaType contentType \<longleftrightarrow> parseMediaType contentType = Some ''application/json''"

definition HasField :: "string \<Rightarrow> chat_message \<Rightarrow> bool" where
  "HasField name m \<longleftrightarrow> list_ex (\<lambda>field. field \<in> set [name]) (cmExtraFields m)"

definition supportedMessageRole :: "string \<Rightarrow> bool" where
  "supportedMessageRole role \<longleftrightarrow> role \<in> {''system'', ''developer'', ''user'', ''assistant'', ''tool''}"

definition part_type_fields :: "string fields" where
  "part_type_fields = [(''type'', \<lambda>r x. decode_string x r)]"

definition part_type_missing :: "raw \<Rightarrow> bool" where
  "part_type_missing r = (case decode_struct part_type_fields [] r of None \<Rightarrow> True | Some ty \<Rightarrow> trim_space ty = [])"

datatype content_status = ContentOK | ContentMissing | ContentInvalid

definition messageContentStatus :: "raw \<Rightarrow> content_status" where
  "messageContentStatus r =
     (if strip r = [] \<or> strip r = [TNull] then ContentMissing
      else case hd (strip r) of
        TStr t \<Rightarrow>
          (case decode_string [] r of
             None \<Rightarrow> ContentInvalid
           | Some content \<Rightarrow> if trim_space content = [] then ContentMissing else ContentOK)
      | TLBrack \<Rightarrow>
          if elements r = [] then ContentMissing
          else if list_ex part_type_missing (elements r) then ContentInvalid
          else ContentOK
      | _ \<Rightarrow> ContentInvalid)"

type_synonym refusal = "string \<times> string option \<times> string"

fun validate_messages :: "nat \<Rightarrow> chat_message list \<Rightarrow> refusal option" where
  "validate_messages index [] = None"
| "validate_messages index (m # ms) =
     (if \<not> supportedMessageRole (cmRole m) then
        Some (''messages['' @ int_text (int index) @ ''].role is not supported'', Some ''messages'', ''invalid_message_role'')
      else case messageContentStatus (cmContent m) of
        ContentMissing \<Rightarrow>
          if cmRole m = ''assistant'' \<and> (message_calls m \<noteq> [] \<or> HasField ''function_call'' m) then validate_messages (Suc index) ms
          else Some (''messages['' @ int_text (int index) @ ''].content is required'', Some ''messages'', ''missing_message_content'')
      | ContentInvalid \<Rightarrow>
          Some (''messages['' @ int_text (int index) @ ''].content must be text or a non-empty content-parts array'',
                Some ''messages'', ''invalid_message_content'')
      | ContentOK \<Rightarrow> validate_messages (Suc index) ms)"

definition validateChatRequest :: "chat_request \<Rightarrow> refusal option" where
  "validateChatRequest req =
     (if trim_space (crModel req) = [] then Some (''model is required'', Some ''model'', ''missing_model'')
      else if request_messages req = [] then
        Some (''messages must contain at least one message'', Some ''messages'', ''missing_messages'')
      else validate_messages 0 (request_messages req))"

section \<open>Failures\<close>

fun category_text :: "category \<Rightarrow> string" where
  "category_text CategoryEmpty = []"
| "category_text CategoryLocalValidation = ''local_validation''"
| "category_text CategoryKeyUnauthorized = ''key_unauthorized''"
| "category_text CategoryKeyForbidden = ''key_forbidden''"
| "category_text CategoryUpstreamRateLimit = ''upstream_rate_limit''"
| "category_text CategoryUpstream4xx = ''upstream_4xx''"
| "category_text CategoryModelUnavailable = ''model_unavailable''"
| "category_text CategoryUpstream5xx = ''upstream_5xx''"
| "category_text CategoryUpstreamProtocol = ''upstream_protocol''"
| "category_text CategoryUnsupportedCapability = ''unsupported_capability''"
| "category_text CategoryUnsupportedResponse = ''unsupported_response''"
| "category_text CategoryNetwork = ''network''"
| "category_text CategoryTimeout = ''timeout''"
| "category_text CategoryKeyExhausted = ''key_exhausted''"
| "category_text CategoryQueue = ''queue''"
| "category_text CategoryBreaker = ''breaker''"
| "category_text CategoryCanceled = ''canceled''"

definition retry_seconds :: "failure \<Rightarrow> int" where
  "retry_seconds f = quo (wrap_int64 (wrap_int64 (fRetryAfter f + second) - 1)) second"

definition retry_header :: "bool \<Rightarrow> failure \<Rightarrow> http_ctx \<Rightarrow> http_ctx" where
  "retry_header set_it f c = (if set_it then set_header ''Retry-After'' (int_text (retry_seconds f)) c else c)"

definition writeReliabilityError :: "ctx_err option \<Rightarrow> failure \<Rightarrow> http_ctx \<Rightarrow> http_ctx" where
  "writeReliabilityError ctxErr f c =
     (if fCategory f = CategoryCanceled \<and> ctxErr \<noteq> None then c
      else case fCategory f of
        CategoryTimeout \<Rightarrow> writeAPIError 504 ''upstream request timed out'' ''upstream_error'' None ''upstream_timeout'' c
      | CategoryUnsupportedCapability \<Rightarrow>
          writeAPIError 400 ''no configured provider supports a requested capability'' ''invalid_request_error'' None ''unsupported_provider_capability'' c
      | CategoryUnsupportedResponse \<Rightarrow>
          writeAPIError 502 ''upstream returned output this gateway cannot represent'' ''upstream_error'' None ''unsupported_upstream_response'' c
      | CategoryUpstreamProtocol \<Rightarrow>
          if errors_is (ErrFailure f) ErrResponseTooLarge then
            writeAPIError 502 ''upstream response exceeded the size limit'' ''upstream_error'' None ''upstream_response_too_large'' c
          else if errors_is (ErrFailure f) ErrInvalidResponse then
            writeAPIError 502 ''upstream returned an invalid response'' ''upstream_error'' None ''invalid_upstream_response'' c
          else writeAPIError 502 ''upstream returned an unsupported response'' ''upstream_error'' None ''upstream_protocol_error'' c
      | CategoryUpstream4xx \<Rightarrow>
          if fStatusCode f = 400 then
            writeAPIError 400 ''upstream rejected the request'' ''invalid_request_error'' None ''upstream_rejected_request'' c
          else writeAPIError 502 ''upstream request failed'' ''upstream_error'' None ''upstream_http_error'' c
      | CategoryModelUnavailable \<Rightarrow>
          writeAPIError 503 ''requested model is unavailable from configured providers'' ''upstream_error'' (Some ''model'') ''model_unavailable'' c
      | CategoryUpstreamRateLimit \<Rightarrow>
          writeAPIError 429 ''upstream rate limit exceeded'' ''upstream_error'' None ''upstream_rate_limited'' (retry_header (fRetryAfterSet f) f c)
      | CategoryKeyUnauthorized \<Rightarrow> writeAPIError 502 ''upstream request failed'' ''upstream_error'' None ''upstream_http_error'' c
      | CategoryKeyForbidden \<Rightarrow> writeAPIError 502 ''upstream request failed'' ''upstream_error'' None ''upstream_http_error'' c
      | CategoryUpstream5xx \<Rightarrow> writeAPIError 502 ''upstream request failed'' ''upstream_error'' None ''upstream_http_error'' c
      | CategoryBreaker \<Rightarrow>
          writeAPIError 503 ''provider circuit is temporarily open'' ''upstream_error'' None ''provider_circuit_open'' (retry_header (0 < fRetryAfter f) f c)
      | CategoryKeyExhausted \<Rightarrow>
          writeAPIError 503 ''provider has no available API key'' ''upstream_error'' None ''provider_keys_exhausted'' (retry_header (0 < fRetryAfter f) f c)
      | CategoryQueue \<Rightarrow>
          (case fQueue f of
             QueueFull \<Rightarrow> writeAPIError 503 ''provider queue is full'' ''upstream_error'' None ''provider_queue_full'' c
           | QueueWaitTimeout \<Rightarrow> writeAPIError 503 ''provider queue wait timed out'' ''upstream_error'' None ''provider_queue_timeout'' c
           | _ \<Rightarrow> writeAPIError 503 ''provider capacity is temporarily unavailable'' ''upstream_error'' None ''provider_queue_unavailable'' c)
      | CategoryLocalValidation \<Rightarrow>
          writeAPIError 500 ''provider request could not be prepared'' ''server_error'' None ''provider_request_error'' c
      | CategoryCanceled \<Rightarrow> writeAPIError 504 ''upstream request was canceled'' ''upstream_error'' None ''upstream_canceled'' c
      | _ \<Rightarrow> writeAPIError 502 ''upstream is unavailable'' ''upstream_error'' None ''upstream_unavailable'' c)"

section \<open>What the handler uses\<close>

text \<open>\<open>ratelimit.Decision\<close>, and the errors of \<open>RateLimiter.Allow\<close>.\<close>

record limit_decision =
  ldAllowed :: bool
  ldBypassed :: bool
  ldLimit :: int
  ldRemaining :: int
  ldResetAtUnix :: int
  ldRetryAfterSeconds :: int

datatype limit_error = LimiterUnavailable | LimiterError string

definition StatusHit :: string where "StatusHit = ''HIT''"
definition StatusMiss :: string where "StatusMiss = ''MISS''"
definition StatusBypass :: string where "StatusBypass = ''BYPASS''"

lemmas cache_words = StatusHit_def StatusMiss_def StatusBypass_def

record cache_result =
  caStatus :: string
  caBody :: string

text \<open>\<open>gateway.Snapshot\<close>: the parts a chat request uses. An adapter is known by how it authenticates and whether it streams.\<close>

record runtime =
  rtCacheNamespace :: string
  rtRoutes :: router
  rtRetries :: retry_registry
  rtAdapters :: "string \<rightharpoonup> authentication \<times> bool"

text \<open>\<open>responseProtocol\<close>, with the state its stream writer keeps; the list is what it hands to the writer.\<close>

type_synonym writer = "string \<Rightarrow> int \<times> goerr option"

record 'p protocol =
  prEncodeResponse :: "string \<Rightarrow> goerr + string"
  prWriteStream :: "'p \<Rightarrow> writer \<Rightarrow> stream_event \<Rightarrow> 'p \<times> string list \<times> goerr option"

text \<open>The fixed parts of the handler; \<open>hsQuota\<close> is \<open>None\<close> when there is no quota manager.\<close>

record 'p services =
  hsHttpParseTime :: "string \<Rightarrow> time option"
  hsParseMediaType :: "string \<Rightarrow> string option"
  hsSetString :: "string \<Rightarrow> rat option"
  hsQuota :: "quota_settings option"
  hsQuote :: "usage_event \<Rightarrow> cost_result"
  hsLimiter :: "string \<Rightarrow> string \<Rightarrow> limit_error + limit_decision"
  hsLookup :: "string \<Rightarrow> string \<Rightarrow> string \<Rightarrow> string \<Rightarrow> goerr + cache_result"
  hsStore :: "string \<Rightarrow> string \<Rightarrow> string \<Rightarrow> string \<Rightarrow> string \<Rightarrow> goerr option"
  hsProtocol :: "'p protocol option"

datatype deadline_result = DeadlineSet | DeadlineUnsupported | DeadlineFailed goerr

record write_env =
  weDeadline :: deadline_result
  weWriter :: writer
  weFlush :: "goerr option"
  weClear :: deadline_result

record stream_round =
  roTimedOut :: bool
  roOthers :: "world \<Rightarrow> world"
  roNow :: time
  roWrite :: write_env
  roCtxErr :: "ctx_err option"
  roNowClassify :: time
  roFinish :: finish_env

text \<open>
  The environment of one request: the request itself, its context at the points the handler asks for it, and
  what each call met.
\<close>

datatype stage = AtAuthorize | AtLimit | AtLookup | AtFailure | AtStore | AtStream

record 'p chat_env =
  hvContentType :: string
  hvBody :: string
  hvBodyErr :: bool
  hvCacheControl :: "string list"
  hvIdentity :: "identity option"
  hvRandom :: "string option"
  hvNowBegin :: time
  hvBegin :: "pending_event \<Rightarrow> goerr option"
  hvCtxErr :: "stage \<Rightarrow> ctx_err option"
  hvRuntime :: "runtime option"
  hvReserveNow :: time
  hvReserveRandom :: "nat \<Rightarrow> string option"
  hvReserveFault :: "quota_error option"
  hvParent :: "time option"
  hvNowExecute :: time
  hvAttempts :: "chat_request attempt_env candidate_env list"
  hvStreams :: "chat_request stream_env candidate_env list"
  hvFlusher :: bool
  hvProtocolState :: 'p
  hvNowFirst :: time
  hvClear :: deadline_result
  hvFirst :: write_env
  hvOthers :: "world \<Rightarrow> world"
  hvFinish :: finish_env
  hvRounds :: "stream_round list"
  hvEnd :: end_env

section \<open>Headers\<close>

definition writeCacheStatusHeader :: "string \<Rightarrow> http_ctx \<Rightarrow> http_ctx" where
  "writeCacheStatusHeader status = set_header ''X-Model-Velo-Cache'' (if status = [] then StatusBypass else status)"

definition requestBypassesResponseCache :: "string list \<Rightarrow> bool" where
  "requestBypassesResponseCache cacheControl =
     list_ex (\<lambda>v. list_ex (\<lambda>directive. fold_name (trim_space directive) = fold_name ''no-store'') (split_on (CHR '','') v)) cacheControl"

definition writeRateLimitHeaders :: "limit_decision \<Rightarrow> http_ctx \<Rightarrow> http_ctx" where
  "writeRateLimitHeaders d c =
     (if ldBypassed d then set_header ''X-RateLimit-Status'' ''bypassed'' c
      else
        (let c1 = set_header ''X-RateLimit-Reset'' (int_text (ldResetAtUnix d))
                    (set_header ''X-RateLimit-Remaining'' (int_text (ldRemaining d))
                      (set_header ''X-RateLimit-Limit'' (int_text (ldLimit d)) c)) in
         if \<not> ldAllowed d then set_header ''Retry-After'' (int_text (ldRetryAfterSeconds d)) c1 else c1))"

section \<open>The quota reservation\<close>

definition writeQuotaError :: "quota_error \<Rightarrow> http_ctx \<Rightarrow> http_ctx" where
  "writeQuotaError err =
     (case err of
        ErrExceeded \<Rightarrow> writeAPIError 429 ''tenant token or spending quota exceeded'' ''rate_limit_error'' None ''quota_exceeded''
      | ErrCostUnknown \<Rightarrow>
          writeAPIError 503 ''request cost cannot be reserved because pricing is unavailable'' ''server_error'' None ''quota_pricing_unavailable''
      | _ \<Rightarrow> writeAPIError 503 ''quota service is unavailable'' ''server_error'' None ''quota_unavailable'')"

definition estimated_output :: "quota_settings \<Rightarrow> chat_request \<Rightarrow> int" where
  "estimated_output settings req =
     (let output = (case crMaxCompletionTokens req of
                      Some n \<Rightarrow> n
                    | None \<Rightarrow> (case crMaxTokens req of Some n \<Rightarrow> n | None \<Rightarrow> qsDefaultMaxOutputTokens settings)) in
      case crN req of Some n \<Rightarrow> if 1 < n then wrap_int64 (output * n) else output | None \<Rightarrow> output)"

definition quota_warning :: "decision \<Rightarrow> http_ctx \<Rightarrow> http_ctx" where
  "quota_warning d c =
     (if deExceeded d then set_header ''X-Model-Velo-Quota-Warning'' ''overage'' c
      else if deAlerts d \<noteq> [] then set_header ''X-Model-Velo-Quota-Warning'' ''cost_unknown'' c
      else c)"

definition reserveQuota ::
  "'p services \<Rightarrow> 'p chat_env \<Rightarrow> string \<Rightarrow> string \<Rightarrow> chat_request \<Rightarrow> plan \<Rightarrow> http_ctx \<Rightarrow> usage_session \<Rightarrow> gateway
     \<Rightarrow> bool \<times> http_ctx \<times> usage_session \<times> gateway" where
  "reserveQuota sv env tenantID model req plan c s g =
     (case hsQuota sv of
        None \<Rightarrow> (True, c, s, g)
      | Some settings \<Rightarrow>
          if \<not> HasPolicy (gwQuota g) tenantID model then (True, c, s, g)
          else
            (case Reserve settings (hsQuote sv) (hvReserveNow env) (hvReserveRandom env) (hvReserveFault env)
                    \<lparr>riGroupID = usEventID s, riTenantID = tenantID, riGatewayModel = model,
                     riEstimatedInputTokens = int (length (hvBody env)), riEstimatedOutputTokens = estimated_output settings req,
                     riCandidates = plCandidates plan\<rparr> (gwQuota g) of
               (m, d, Some err) \<Rightarrow> (False, writeQuotaError err c, s, g\<lparr>gwQuota := m\<rparr>)
             | (m, d, None) \<Rightarrow> (True, quota_warning d c, attachQuota (deReservationID d) s, g\<lparr>gwQuota := m\<rparr>)))"

section \<open>Streams\<close>

definition setChatStreamWriteDeadline :: "deadline_result \<Rightarrow> goerr option" where
  "setChatStreamWriteDeadline r = (case r of DeadlineFailed err \<Rightarrow> Some err | _ \<Rightarrow> None)"

definition encodeProtocolResponse :: "'p protocol option \<Rightarrow> string \<Rightarrow> goerr + string" where
  "encodeProtocolResponse protocol body = (case protocol of None \<Rightarrow> Inr body | Some p \<Rightarrow> prEncodeResponse p body)"

definition writeProtocolStream :: "'p protocol option \<Rightarrow> 'p \<Rightarrow> writer \<Rightarrow> stream_event \<Rightarrow> 'p \<times> string list \<times> goerr option" where
  "writeProtocolStream protocol st writer ev =
     (case protocol of
        None \<Rightarrow> (st, (case event_frame ev of Inl err \<Rightarrow> [] | Inr frame \<Rightarrow> [frame]), writeChatStreamEvent writer ev)
      | Some p \<Rightarrow> prWriteStream p st writer ev)"

definition writeAndFlushChatStreamEvent ::
  "'p protocol option \<Rightarrow> write_env \<Rightarrow> stream_event \<Rightarrow> 'p \<Rightarrow> http_ctx \<Rightarrow> 'p \<times> http_ctx \<times> goerr option" where
  "writeAndFlushChatStreamEvent protocol we ev st c =
     (case setChatStreamWriteDeadline (weDeadline we) of
        Some err \<Rightarrow> (st, c, Some err)
      | None \<Rightarrow>
          (case writeProtocolStream protocol st (weWriter we) ev of
             (st', frames, failed) \<Rightarrow>
               (let c' = c\<lparr>hcFrames := hcFrames c @ frames\<rparr> in
                case failed of
                  Some err \<Rightarrow> (st', c', Some err)
                | None \<Rightarrow>
                    (case weFlush we of
                       Some err \<Rightarrow> (st', c', Some err)
                     | None \<Rightarrow> (st', c', setChatStreamWriteDeadline (weClear we))))))"

text \<open>How the handler ends the usage of a stream whose reading failed.\<close>

definition stream_failed :: "time \<Rightarrow> failure option \<Rightarrow> usage_session \<Rightarrow> usage_session" where
  "stream_failed now failure s =
     (case failure of
        None \<Rightarrow> s
      | Some f \<Rightarrow>
          if fCategory f = CategoryCanceled then session_finalize now StatusCanceled (category_text (fCategory f)) ''client_canceled'' s
          else session_finalize now StatusStreamInterrupted (category_text (fCategory f)) ''stream_interrupted'' s)"

fun event_loop ::
  "'p services \<Rightarrow> time \<Rightarrow> stream_round list \<Rightarrow> 'p \<Rightarrow> prepared_stream \<Rightarrow> http_ctx \<Rightarrow> usage_session \<Rightarrow> world
     \<Rightarrow> (prepared_stream \<times> http_ctx \<times> usage_session \<times> world) option" where
  "event_loop sv now [] st p c s w = None"
| "event_loop sv now (r # rounds) st p c s w =
     (let w1 = roOthers r w in
      case stream_Next validateCompatibleChatChunk (roTimedOut r) p of
        (p1, ev, Some err) \<Rightarrow>
          (case FinishError (hsHttpParseTime sv) (roNowClassify r) (roCtxErr r) (roFinish r) (Some err) p1 w1 of
             (w2, p2, failure) \<Rightarrow> Some (p2, c, stream_failed now failure s, w2))
      | (p1, ev, None) \<Rightarrow>
          (let s1 = observeStream (hsSetString sv) (evData ev) (roNow r) s in
           case writeAndFlushChatStreamEvent (hsProtocol sv) (roWrite r) ev st c of
             (st', c', Some err) \<Rightarrow>
               (case Abort (roFinish r) (Some err) p1 w1 of
                  (w2, p2, ended) \<Rightarrow> Some (p2, c', session_finalize now StatusStreamInterrupted ''client_write'' ''stream_write_failed'' s1, w2))
           | (st', c', None) \<Rightarrow>
               if evDone ev then
                 (case Finish (roFinish r) None p1 w1 of
                    (w2, p2, ended) \<Rightarrow> Some (p2, c', session_finalize now StatusStreamCompleted [] [] s1, w2))
               else event_loop sv now rounds st' p1 c' s1 w1))"

text \<open>A failed execution, in both forms of the endpoint.\<close>

definition fail_request :: "ctx_err option \<Rightarrow> time \<Rightarrow> failure \<Rightarrow> http_ctx \<Rightarrow> usage_session \<Rightarrow> http_ctx \<times> usage_session" where
  "fail_request ctxErr now f c s =
     (let c1 = writeReliabilityError ctxErr f c;
          (status, code) =
            (if fCategory f = CategoryCanceled then
               (StatusCanceled, if hcErrorCode c1 = [] then ''client_canceled'' else hcErrorCode c1)
             else (StatusFailed, hcErrorCode c1)) in
      (c1, session_finalize now status (category_text (fCategory f)) code (recordFailure f s)))"

definition stream_headers :: "http_ctx \<Rightarrow> http_ctx" where
  "stream_headers c =
     writeCacheStatusHeader StatusBypass
       (set_header ''X-Accel-Buffering'' ''no''
         (set_header ''Connection'' ''keep-alive''
           (set_header ''Cache-Control'' ''no-cache, no-transform''
             (set_header ''Content-Type'' ''text/event-stream; charset=utf-8'' c))))"

text \<open>The body of \<open>stream\<close> once the stream is open, without the deferred \<open>Abort\<close>.\<close>

definition relay_stream ::
  "'p services \<Rightarrow> 'p chat_env \<Rightarrow> prepared_stream \<Rightarrow> http_ctx \<Rightarrow> usage_session \<Rightarrow> world
     \<Rightarrow> (prepared_stream \<times> http_ctx \<times> usage_session \<times> world) option" where
  "relay_stream sv env p c s0 w =
     (let now = enNow (hvEnd env);
          s = observeStream (hsSetString sv) (evData (psFirstEvent p)) (hvNowFirst env) (recordStream p s0) in
      case hvCtxErr env AtStream of
        Some e \<Rightarrow>
          (case Abort (hvFinish env) (Some (ctx_goerr e)) p w of
             (w1, p1, ended) \<Rightarrow> Some (p1, c, session_finalize now StatusCanceled ''client'' ''client_canceled'' s, w1))
      | None \<Rightarrow>
          (case setChatStreamWriteDeadline (hvClear env) of
             Some err \<Rightarrow>
               (case Abort (hvFinish env) (Some err) p w of
                  (w1, p1, ended) \<Rightarrow>
                    (let c1 = writeAPIError 500 ''streaming is unavailable on this HTTP connection'' ''server_error'' None ''streaming_unavailable'' c in
                     Some (p1, c1, session_finalize now StatusFailed ''gateway'' (hcErrorCode c1) s, w1)))
           | None \<Rightarrow>
               (case writeAndFlushChatStreamEvent (hsProtocol sv) (hvFirst env) (psFirstEvent p) (hvProtocolState env) (stream_headers c) of
                  (st, c1, Some err) \<Rightarrow>
                    (case Abort (hvFinish env) (Some err) p w of
                       (w1, p1, ended) \<Rightarrow> Some (p1, c1, session_finalize now StatusStreamInterrupted ''client_write'' ''stream_write_failed'' s, w1))
                | (st, c1, None) \<Rightarrow> event_loop sv now (hvRounds env) st p c1 s w)))"

definition chat_stream ::
  "'p services \<Rightarrow> 'p chat_env \<Rightarrow> runtime \<Rightarrow> chat_request \<Rightarrow> plan \<Rightarrow> http_ctx \<Rightarrow> usage_session \<Rightarrow> gateway
     \<Rightarrow> (http_ctx \<times> usage_session \<times> gateway) option" where
  "chat_stream sv env active req plan c s g =
     (if \<not> hvFlusher env then
        Some (writeAPIError 500 ''streaming is unavailable on this HTTP connection'' ''server_error'' None ''streaming_unavailable'' c, s, g)
      else
        (case OpenStream validateCompatibleChatChunk (hsHttpParseTime sv) (rtAdapters active) (rtRetries active)
                \<lparr>exRequestID = hcRequestID c, exRequest = req, exPlan = plan\<rparr> (hvParent env) (hvNowExecute env) (hvStreams env) (gwWorld g) of
           None \<Rightarrow> None
         | Some (w, Inl f) \<Rightarrow>
             (case fail_request (hvCtxErr env AtFailure) (enNow (hvEnd env)) f c s of (c1, s1) \<Rightarrow> Some (c1, s1, g\<lparr>gwWorld := w\<rparr>))
         | Some (w, Inr p) \<Rightarrow>
             (case relay_stream sv env p c s w of
                None \<Rightarrow> None
              | Some (p1, c1, s1, w1) \<Rightarrow>
                  (case Abort (hvFinish env) (Some (ErrSentinel ContextCanceled)) p1 (hvOthers env w1) of
                     (w2, p2, ended) \<Rightarrow> Some (c1, s1, g\<lparr>gwWorld := w2\<rparr>)))))"

section \<open>Responses\<close>

definition lookup_cache ::
  "'p services \<Rightarrow> 'p chat_env \<Rightarrow> string \<Rightarrow> string \<Rightarrow> string \<Rightarrow> cache_result option" where
  "lookup_cache sv env namespace tenantID model =
     (if requestBypassesResponseCache (hvCacheControl env) then Some \<lparr>caStatus = StatusBypass, caBody = []\<rparr>
      else case hsLookup sv namespace tenantID model (hvBody env) of
        Inr result \<Rightarrow> Some result
      | Inl err \<Rightarrow> if hvCtxErr env AtLookup \<noteq> None then None else Some \<lparr>caStatus = StatusBypass, caBody = []\<rparr>)"

text \<open>A hit answers from the cache.\<close>

definition answer_cached ::
  "'p services \<Rightarrow> 'p chat_env \<Rightarrow> cache_result \<Rightarrow> http_ctx \<Rightarrow> usage_session \<Rightarrow> http_ctx \<times> usage_session" where
  "answer_cached sv env result c s0 =
     (let now = enNow (hvEnd env); s = session_observe (hsSetString sv) (caBody result) (setCacheStatus (caStatus result) s0) in
      case encodeProtocolResponse (hsProtocol sv) (caBody result) of
        Inl err \<Rightarrow>
          (writeAPIError 502 ''cached response could not be represented in the requested protocol'' ''upstream_error'' None ''unsupported_upstream_response'' c,
           session_finalize now StatusFailed ''gateway'' ''protocol_encoding_failed'' s)
      | Inr clientBody \<Rightarrow>
          (let c1 = writeCacheStatusHeader (caStatus result) c in
           (c1\<lparr>hcReplies := hcReplies c1 @ [(200, clientBody)]\<rparr>, session_finalize now StatusCacheHit [] [] s)))"

text \<open>
  A response is stored when the lookup missed and no fallback was taken. \<open>None\<close> when storing failed because
  the request was cancelled; the state says whether \<open>Store\<close> was called.
\<close>

definition store_response ::
  "'p services \<Rightarrow> 'p chat_env \<Rightarrow> string \<Rightarrow> string \<Rightarrow> string \<Rightarrow> cache_result \<Rightarrow> execution_result \<Rightarrow> gateway \<Rightarrow> string option \<times> gateway" where
  "store_response sv env namespace tenantID model result execution g =
     (if caStatus result = StatusMiss \<and> erFallbacks execution = 0 then
        (let g1 = g\<lparr>gwStored := gwStored g @ [(namespace, tenantID, model, hvBody env, erBody execution)]\<rparr> in
         case hsStore sv namespace tenantID model (hvBody env) (erBody execution) of
           None \<Rightarrow> (Some (caStatus result), g1)
         | Some err \<Rightarrow> (if hvCtxErr env AtStore \<noteq> None then None else Some StatusBypass, g1))
      else (Some (caStatus result), g))"

definition answer_executed ::
  "'p services \<Rightarrow> 'p chat_env \<Rightarrow> string \<Rightarrow> string \<Rightarrow> string \<Rightarrow> cache_result \<Rightarrow> execution_result \<Rightarrow> http_ctx \<Rightarrow> usage_session \<Rightarrow> gateway
     \<Rightarrow> http_ctx \<times> usage_session \<times> gateway" where
  "answer_executed sv env namespace tenantID model result execution c s0 g =
     (let now = enNow (hvEnd env); s1 = session_observe (hsSetString sv) (erBody execution) (recordExecution execution s0) in
      case store_response sv env namespace tenantID model result execution g of
        (None, g1) \<Rightarrow> (c, s1, g1)
      | (Some status, g1) \<Rightarrow>
          (let c1 = writeCacheStatusHeader status c; s2 = setCacheStatus status s1 in
           case encodeProtocolResponse (hsProtocol sv) (erBody execution) of
             Inl err \<Rightarrow>
               (writeAPIError 502 ''upstream response could not be represented in the requested protocol'' ''upstream_error'' None ''unsupported_upstream_response'' c1,
                session_finalize now StatusFailed ''gateway'' ''protocol_encoding_failed'' s2, g1)
           | Inr clientBody \<Rightarrow> (c1\<lparr>hcReplies := hcReplies c1 @ [(200, clientBody)]\<rparr>, session_finalize now StatusSuccess [] [] s2, g1)))"

definition chat_respond ::
  "'p services \<Rightarrow> 'p chat_env \<Rightarrow> runtime \<Rightarrow> string \<Rightarrow> string \<Rightarrow> chat_request \<Rightarrow> plan \<Rightarrow> http_ctx \<Rightarrow> usage_session \<Rightarrow> gateway
     \<Rightarrow> (http_ctx \<times> usage_session \<times> gateway) option" where
  "chat_respond sv env active tenantID model req plan c s g =
     (let namespace = trim_space (rtCacheNamespace active) in
      case lookup_cache sv env namespace tenantID model of
        None \<Rightarrow> Some (c, s, g)
      | Some result \<Rightarrow>
          if caStatus result = StatusHit then (case answer_cached sv env result c s of (c1, s1) \<Rightarrow> Some (c1, s1, g))
          else
            (let s1 = setCacheStatus (caStatus result) s in
             case orchestrator_Execute (hsHttpParseTime sv) (\<lambda>p. map_option fst (rtAdapters active p)) (rtRetries active)
                    \<lparr>exRequestID = hcRequestID c, exRequest = req, exPlan = plan\<rparr> (hvParent env) (hvNowExecute env) (hvAttempts env) (gwWorld g) of
               None \<Rightarrow> None
             | Some (w, Inl f) \<Rightarrow>
                 (case fail_request (hvCtxErr env AtFailure) (enNow (hvEnd env)) f c s1 of (c1, s2) \<Rightarrow> Some (c1, s2, g\<lparr>gwWorld := w\<rparr>))
             | Some (w, Inr execution) \<Rightarrow>
                 Some (answer_executed sv env namespace tenantID model result execution c s1 (g\<lparr>gwWorld := w\<rparr>))))"

section \<open>The gates\<close>

definition authorize_gate :: "'p chat_env \<Rightarrow> identity \<Rightarrow> string \<Rightarrow> http_ctx \<Rightarrow> http_ctx option" where
  "authorize_gate env ident model c =
     (case AuthorizeModel (map_option (\<lambda>e. ErrContext []) (hvCtxErr env AtAuthorize)) ident model of
        None \<Rightarrow> None
      | Some err \<Rightarrow>
          Some (if hvCtxErr env AtAuthorize \<noteq> None then c
                else if err = ErrModelNotAllowed then
                  writeAPIError 403 ''API key is not allowed to use the requested model'' ''permission_error'' (Some ''model'') ''model_not_allowed'' c
                else writeAPIError 503 ''model authorization service is unavailable'' ''server_error'' None ''authorization_unavailable'' c))"

definition limit_gate :: "'p services \<Rightarrow> 'p chat_env \<Rightarrow> string \<Rightarrow> string \<Rightarrow> http_ctx \<Rightarrow> http_ctx + http_ctx" where
  "limit_gate sv env tenantID model c =
     (case hsLimiter sv tenantID model of
        Inl err \<Rightarrow>
          Inl (if hvCtxErr env AtLimit \<noteq> None then c
               else if err = LimiterUnavailable then
                 writeAPIError 503 ''rate limit service is unavailable'' ''server_error'' None ''rate_limit_unavailable'' c
               else writeAPIError 500 ''rate limit decision could not be evaluated'' ''server_error'' None ''rate_limit_error'' c)
      | Inr d \<Rightarrow>
          (let c1 = writeRateLimitHeaders d c in
           if \<not> ldAllowed d then
             Inl (writeAPIError 429 ''tenant request quota exceeded for this model'' ''rate_limit_error'' None ''rate_limit_exceeded'' c1)
           else Inr c1))"

definition plan_gate :: "runtime option \<Rightarrow> string \<Rightarrow> capability list \<Rightarrow> http_ctx \<Rightarrow> http_ctx + (runtime \<times> plan)" where
  "plan_gate active model required c =
     (case active of
        None \<Rightarrow> Inl (writeAPIError 503 ''gateway runtime is unavailable'' ''server_error'' None ''runtime_unavailable'' c)
      | Some rt \<Rightarrow>
          (case Plan (rtRoutes rt) model required of
             Inr plan \<Rightarrow> Inr (rt, plan)
           | Inl err \<Rightarrow>
               Inl (if err = ErrCapabilityUnavailable then
                      writeAPIError 400 ''no configured provider model supports the requested capabilities'' ''invalid_request_error'' (Some ''model'') ''unsupported_provider_capability'' c
                    else if err = ErrNoRoute then
                      writeAPIError 503 ''no provider route is available for the requested model'' ''server_error'' (Some ''model'') ''route_unavailable'' c
                    else writeAPIError 500 ''provider route could not be planned'' ''server_error'' None ''route_error'' c)))"

text \<open>The part of \<open>complete\<close> under the usage session, without the deferred \<open>finish\<close>.\<close>

definition chat_serve ::
  "'p services \<Rightarrow> 'p chat_env \<Rightarrow> identity \<Rightarrow> string \<Rightarrow> chat_request \<Rightarrow> http_ctx \<Rightarrow> usage_session \<Rightarrow> gateway
     \<Rightarrow> (http_ctx \<times> usage_session \<times> gateway) option" where
  "chat_serve sv env ident model req c s g =
     (case RequiredCapabilities req of
        Inl err \<Rightarrow>
          Some (writeAPIError 400 ''request uses a capability that is not supported by this gateway'' ''invalid_request_error'' None ''unsupported_request_capability'' c, s, g)
      | Inr required \<Rightarrow>
          (case authorize_gate env ident model c of
             Some c1 \<Rightarrow> Some (c1, s, g)
           | None \<Rightarrow>
               (case limit_gate sv env (idTenantID ident) model c of
                  Inl c1 \<Rightarrow> Some (c1, s, g)
                | Inr c1 \<Rightarrow>
                    (case plan_gate (hvRuntime env) model required c1 of
                       Inl c2 \<Rightarrow> Some (c2, s, g)
                     | Inr (active, plan) \<Rightarrow>
                         (case reserveQuota sv env (idTenantID ident) model req plan c1 s g of
                            (False, c2, s1, g1) \<Rightarrow> Some (c2, s1, g1)
                          | (True, c2, s1, g1) \<Rightarrow>
                              if crStream req then chat_stream sv env active req plan c2 (setCacheStatus StatusBypass s1) g1
                              else chat_respond sv env active (idTenantID ident) model req plan c2 s1 g1)))))"

section \<open>The endpoint\<close>

text \<open>\<open>Unfinished\<close>: the environment has fewer rounds than the request needs.\<close>

datatype handled = Handled http_ctx gateway | HandlerPanics | Unfinished

definition chat_session :: "'p services \<Rightarrow> 'p chat_env \<Rightarrow> identity \<Rightarrow> chat_request \<Rightarrow> http_ctx \<Rightarrow> gateway \<Rightarrow> handled" where
  "chat_session sv env ident req c g =
     (let model = trim_space (crModel req) in
      case newUsageSession (hvRandom env) (hvNowBegin env) (hvBegin env) (hcRequestID c) (idTenantID ident) (idAPIKeyID ident) model (crStream req) of
        Inl err \<Rightarrow> Handled (writeAPIError 503 ''usage accounting is temporarily unavailable'' ''server_error'' None ''usage_accounting_unavailable'' c) g
      | Inr s \<Rightarrow>
          (case chat_serve sv env ident model req c s g of
             None \<Rightarrow> Unfinished
           | Some (c1, s1, g1) \<Rightarrow> Handled c1 (session_finish (hsQuote sv) (hvEnd env) c1 s1 g1)))"

definition chat_complete :: "'p services \<Rightarrow> 'p chat_env \<Rightarrow> http_ctx \<Rightarrow> gateway \<Rightarrow> handled" where
  "chat_complete sv env c g =
     (if \<not> hasJSONContentType (hsParseMediaType sv) (hvContentType env) then
        Handled (writeAPIError 415 ''request Content-Type must be application/json'' ''invalid_request_error'' None ''invalid_content_type'' c) g
      else if maxChatRequestBodyBytes < int (length (hvBody env)) then
        Handled (writeAPIError 413 ''request body exceeds the size limit'' ''invalid_request_error'' None ''request_too_large'' c) g
      else if hvBodyErr env then
        Handled (writeAPIError 400 ''request body could not be read'' ''invalid_request_error'' None ''invalid_request_body'' c) g
      else case ParseChatRequest (hvBody env) of
        Panics \<Rightarrow> HandlerPanics
      | Returns (Inl err) \<Rightarrow>
          Handled (writeAPIError 400 ''request body must be a valid JSON object'' ''invalid_request_error'' None ''invalid_json'' c) g
      | Returns (Inr req) \<Rightarrow>
          (case validateChatRequest req of
             Some (message, param, code) \<Rightarrow> Handled (writeAPIError 400 message ''invalid_request_error'' param code c) g
           | None \<Rightarrow>
               (case hvIdentity env of
                  None \<Rightarrow> Handled (writeAPIError 500 ''authenticated identity is unavailable'' ''server_error'' None ''identity_unavailable'' c) g
                | Some ident \<Rightarrow> chat_session sv env ident req c g)))"

end
