(* ===== verification/ChatProps.thy ===== *)
theory ChatProps
  imports ChatHandler
begin

text \<open>
  What the chat endpoint promises, over the components it puts together (\<open>src/internal/httpapi/chat.go\<close>): every
  request is billed once and as the client saw it, only admitted requests reach a provider or the cache, no
  request leaves a queue slot or an open reservation behind, and a stream delivers what was read.
\<close>


section \<open>The session of a request\<close>

text \<open>What makes the event of a request its own.\<close>

definition request_key :: "usage_event \<Rightarrow> string \<times> string \<times> string \<times> string \<times> string \<times> bool" where
  "request_key e = (ueEventID e, ueRequestID e, ueTenantID e, ueAPIKeyID e, ueRequestedModel e, ueStream e)"

definition session_ok :: "usage_session \<Rightarrow> bool" where
  "session_ok s \<longleftrightarrow> (usReady s \<longleftrightarrow> coFinalized (usCollector s)) \<and> (usReady s \<longrightarrow> usEvent s = coEvent (usCollector s))"

text \<open>\<open>s'\<close> is the session \<open>s\<close> some calls later; its reservation may only have been attached.\<close>

definition same_session :: "usage_session \<Rightarrow> usage_session \<Rightarrow> bool" where
  "same_session s s' \<longleftrightarrow> usEventID s' = usEventID s \<and> request_key (coEvent (usCollector s')) = request_key (coEvent (usCollector s)) \<and>
     (session_ok s \<longrightarrow> session_ok s') \<and> (usReady s \<longrightarrow> s' = s) \<and> usQuota s' = usQuota s \<and> usReservationID s' = usReservationID s"

lemma same_session_refl [simp]: "same_session s s"
  by (simp add: same_session_def)

lemma same_session_trans [trans]: "same_session s t \<Longrightarrow> same_session t u \<Longrightarrow> same_session s u"
  by (auto simp: same_session_def)

lemma request_key_simps [simp]:
  "request_key (e\<lparr>ueCacheStatus := v1\<rparr>) = request_key e"
  "request_key (e\<lparr>ueProviderID := a, ueUpstreamModel := b, ueAttempts := n, ueRetries := r, ueFallbacks := f\<rparr>) = request_key e"
  by (simp_all add: request_key_def)

lemma observe_key: "request_key (coEvent (observe ss payload stream seen now c)) = request_key (coEvent c)"
  "coFinalized (observe ss payload stream seen now c) = coFinalized c"
  "coFinalized c \<Longrightarrow> observe ss payload stream seen now c = c"
  by (simp_all add: observe_def observe_metadata_def first_token_def Let_def request_key_def)

lemma collector_calls:
  "request_key (coEvent (SetCacheStatus st c)) = request_key (coEvent c)" "coFinalized (SetCacheStatus st c) = coFinalized c"
  "request_key (coEvent (SetRoute p m a r f c)) = request_key (coEvent c)" "coFinalized (SetRoute p m a r f c) = coFinalized c"
  by (simp_all add: SetCacheStatus_def SetRoute_def Let_def request_key_def)

lemma session_calls:
  assumes "session_ok s"
  shows "same_session s (setCacheStatus st s)" "same_session s (session_observe ss payload s)" "same_session s (observeStream ss payload now s)"
    "same_session s (set_route p m a tr f s)" "same_session s (session_finalize now status category code s)"
proof -
  show "same_session s (setCacheStatus st s)" "same_session s (session_observe ss payload s)" "same_session s (observeStream ss payload now s)"
    "same_session s (set_route p m a tr f s)"
    using assms by (simp_all add: same_session_def session_ok_def setCacheStatus_def session_observe_def observeStream_def set_route_def
        ObserveResponse_def ObserveStreamResponse_def observe_key collector_calls) (simp_all add: SetCacheStatus_def SetRoute_def Let_def)
  show "same_session s (session_finalize now status category code s)"
    using assms by (simp add: same_session_def session_ok_def session_finalize_def Finalize_def Let_def request_key_def)
qed

lemma finalize_ready: "session_ok s \<Longrightarrow> usReady (session_finalize now status category code s)"
  by (simp add: session_ok_def session_finalize_def Finalize_def Let_def)

lemma same_sessionD:
  "same_session s s' \<Longrightarrow> session_ok s \<Longrightarrow> session_ok s' \<and> request_key (coEvent (usCollector s')) = request_key (coEvent (usCollector s)) \<and>
     usEventID s' = usEventID s \<and> usQuota s' = usQuota s \<and> usReservationID s' = usReservationID s"
  by (simp add: same_session_def)

lemma session_then:
  assumes "session_ok s" "same_session s t"
  shows "same_session s (setCacheStatus st t)" "same_session s (session_observe ss payload t)" "same_session s (observeStream ss payload now t)"
    "same_session s (set_route p m a tr f t)" "same_session s (session_finalize now status category code t)" "session_ok t"
proof -
  show t: "session_ok t" using assms by (simp add: same_session_def)
  show "same_session s (setCacheStatus st t)" "same_session s (session_observe ss payload t)" "same_session s (observeStream ss payload now t)"
    "same_session s (set_route p m a tr f t)" "same_session s (session_finalize now status category code t)"
    using same_session_trans [OF assms(2)] session_calls [OF t] by blast+
qed

lemmas session_rules = session_then(1-5)

lemma stream_failed_session: "session_ok s \<Longrightarrow> same_session s (stream_failed now failure s)"
  by (auto simp: stream_failed_def session_calls split: option.split)

lemma writeAndFlush_replies:
  "writeAndFlushChatStreamEvent protocol we ev st c = (st', c', err) \<Longrightarrow> hcReplies c' = hcReplies c"
  by (auto simp: writeAndFlushChatStreamEvent_def Let_def split: option.split_asm prod.split_asm)

lemma event_loop_replies: "event_loop sv now rounds st p c s w = Some (p', c', s', w') \<Longrightarrow> hcReplies c' = hcReplies c"
proof (induction rounds arbitrary: st p c s w)
  case (Cons r rounds)
  have written: "hcReplies c1 = hcReplies c" if "writeAndFlushChatStreamEvent (hsProtocol sv) (roWrite r) ev st c = (st', c1, err)" for ev st' c1 err
    using that by (rule writeAndFlush_replies)
  from Cons show ?case by (auto simp: Let_def dest!: written split: prod.split_asm option.split_asm if_split_asm)
qed simp

lemma event_loop_session:
  "event_loop sv now rounds st p c s w = Some (p', c', s', w') \<Longrightarrow> session_ok s \<Longrightarrow> same_session s s' \<and> hcReplies c' = hcReplies c"
proof (induction rounds arbitrary: st p c s w)
  case (Cons r rounds)
  define s1 where "s1 = observeStream (hsSetString sv) (evData (fst (snd (stream_Next validateCompatibleChatChunk (roTimedOut r) p)))) (roNow r) s"
  have s1: "same_session s s1" "session_ok s1" using Cons.prems(2) session_calls(3) by (auto simp: s1_def same_session_def)
  have written: "hcReplies c1 = hcReplies c" if "writeAndFlushChatStreamEvent (hsProtocol sv) (roWrite r) ev st c = (st', c1, err)" for ev st' c1 err
    using that by (auto simp: writeAndFlushChatStreamEvent_def Let_def split: option.split_asm prod.split_asm)
  show ?case
    using Cons.prems s1 Cons.IH written session_then(5) [OF Cons.prems(2) s1(1)] stream_failed_session [OF Cons.prems(2)]
    by (fastforce simp: Let_def s1_def split: prod.split_asm option.split_asm if_split_asm intro: same_session_trans)
qed simp

section \<open>At most one reply\<close>

text \<open>A reply is written at most once, and not into a stream.\<close>

definition one_reply :: "http_ctx \<Rightarrow> http_ctx \<Rightarrow> bool" where
  "one_reply c c' \<longleftrightarrow> (\<exists>reply. hcReplies c' = hcReplies c @ [reply]) \<and> hcFrames c' = hcFrames c"

definition no_reply :: "http_ctx \<Rightarrow> http_ctx \<Rightarrow> bool" where
  "no_reply c c' \<longleftrightarrow> hcReplies c' = hcReplies c"

lemma set_header_sel [simp]:
  "hcReplies (set_header n v c) = hcReplies c" "hcFrames (set_header n v c) = hcFrames c" "hcErrorCode (set_header n v c) = hcErrorCode c"
  "hcRequestID (set_header n v c) = hcRequestID c"
  by (simp_all add: set_header_def)

lemma headers_sel [simp]:
  "hcReplies (writeCacheStatusHeader st c) = hcReplies c" "hcFrames (writeCacheStatusHeader st c) = hcFrames c"
  "hcReplies (writeRateLimitHeaders d c) = hcReplies c" "hcFrames (writeRateLimitHeaders d c) = hcFrames c"
  "hcReplies (retry_header b f c) = hcReplies c" "hcFrames (retry_header b f c) = hcFrames c"
  "hcReplies (stream_headers c) = hcReplies c" "hcFrames (stream_headers c) = hcFrames c"
  "hcReplies (quota_warning q c) = hcReplies c" "hcFrames (quota_warning q c) = hcFrames c"
  "hcRequestID (writeRateLimitHeaders d c) = hcRequestID c" "hcRequestID (quota_warning q c) = hcRequestID c"
  by (simp_all add: writeCacheStatusHeader_def writeRateLimitHeaders_def retry_header_def stream_headers_def quota_warning_def Let_def)

lemma error_reply: "hcReplies c1 = hcReplies c \<Longrightarrow> hcFrames c1 = hcFrames c \<Longrightarrow> one_reply c (writeAPIError status message ty param code c1)"
  by (simp add: one_reply_def writeAPIError_def)

lemma ok_reply: "hcReplies c1 = hcReplies c \<Longrightarrow> hcFrames c1 = hcFrames c \<Longrightarrow> one_reply c (c1\<lparr>hcReplies := hcReplies c @ [reply]\<rparr>)"
  by (simp add: one_reply_def)

lemma one_reply_after: "one_reply c1 c2 \<Longrightarrow> hcReplies c1 = hcReplies c \<Longrightarrow> hcFrames c1 = hcFrames c \<Longrightarrow> one_reply c c2"
  by (simp add: one_reply_def)

definition replied_ok :: "http_ctx \<Rightarrow> http_ctx \<Rightarrow> bool" where
  "replied_ok c c' \<longleftrightarrow> (\<exists>body. hcReplies c' = hcReplies c @ [(200, body)])"

lemma error_not_ok: "hcReplies c1 = hcReplies c \<Longrightarrow> status \<noteq> 200 \<Longrightarrow> \<not> replied_ok c (writeAPIError status message ty param code c1)"
  by (simp add: replied_ok_def writeAPIError_def)

lemma same_not_ok: "hcReplies c' = hcReplies c \<Longrightarrow> \<not> replied_ok c c'"
  by (simp add: replied_ok_def)

lemma reliability_reply:
  "if fCategory f = CategoryCanceled \<and> ctxErr \<noteq> None then writeReliabilityError ctxErr f c = c
   else one_reply c (writeReliabilityError ctxErr f c)"
  by (auto simp: writeReliabilityError_def error_reply split: category.split queue_reason.split)

lemma quota_reply: "one_reply c (writeQuotaError err c)"
  by (auto simp: writeQuotaError_def error_reply split: quota_error.split)

lemma reply_cong:
  "hcReplies c1 = hcReplies c \<Longrightarrow> replied_ok c1 c' = replied_ok c c'"
  "hcReplies c1 = hcReplies c \<Longrightarrow> hcFrames c1 = hcFrames c \<Longrightarrow> one_reply c1 c' = one_reply c c'"
  by (simp_all add: replied_ok_def one_reply_def)

lemma quota_not_ok: "hcReplies c1 = hcReplies c \<Longrightarrow> \<not> replied_ok c (writeQuotaError err c1)"
  by (auto simp: writeQuotaError_def error_not_ok split: quota_error.split)

lemma fail_request_ends:
  assumes "fail_request ctxErr now f c s = (c', s')" "session_ok s"
  shows "same_session s s'" "one_reply c c' \<or> c' = c \<and> ctxErr \<noteq> None"
proof -
  show "same_session s s'" using assms unfolding fail_request_def recordFailure_def
    by (auto simp: Let_def session_rules split: prod.split_asm if_split_asm)
  show "one_reply c c' \<or> c' = c \<and> ctxErr \<noteq> None"
    using assms(1) reliability_reply [of f ctxErr c] by (auto simp: fail_request_def Let_def split: if_split_asm)
qed

section \<open>Serving\<close>

lemma relay_stream_ends:
  assumes "relay_stream sv env p c s w = Some (p', c', s', w')" "session_ok s"
  shows "same_session s s' \<and> (one_reply c c' \<or> hcReplies c' = hcReplies c)"
proof -
  define s1 where "s1 = observeStream (hsSetString sv) (evData (psFirstEvent p)) (hvNowFirst env) (recordStream p s)"
  have s1: "same_session s s1" using assms(2) by (simp add: s1_def recordStream_def session_rules)
  then have ok1: "session_ok s1" using assms(2) session_then(6) by blast
  have fin: "same_session s (session_finalize now status category code s1)" for now status category code
    by (rule session_then(5) [OF assms(2) s1])
  have first: "hcReplies c1 = hcReplies c"
    if "writeAndFlushChatStreamEvent protocol we ev st (stream_headers c) = (st', c1, err)" for protocol we ev st st' c1 err
    using writeAndFlush_replies [OF that] by simp
  have loop: "same_session s s' \<and> hcReplies c' = hcReplies c"
    if "event_loop sv now rounds st p c1 s1 w = Some (p', c', s', w')"
      "writeAndFlushChatStreamEvent protocol we ev st0 (stream_headers c) = (st, c1, err)" for now rounds st c1 protocol we ev st0 err
    using event_loop_session [OF that(1) ok1] same_session_trans [OF s1] first [OF that(2)] by auto
  from assms(1) show ?thesis
    unfolding relay_stream_def s1_def [symmetric] Let_def
    by (auto simp: fin error_reply dest: loop first split: option.split_asm prod.split_asm)
qed

lemma chat_stream_ends:
  assumes "chat_stream sv env active req plan c s g = Some (c', s', g')" "session_ok s"
  shows "same_session s s' \<and> (one_reply c c' \<or> hcReplies c' = hcReplies c) \<and>
    gwEmitted g' = gwEmitted g \<and> gwQuota g' = gwQuota g \<and> gwStored g' = gwStored g"
  using assms fail_request_ends relay_stream_ends unfolding chat_stream_def
  by (fastforce simp: error_reply split: if_split_asm option.split_asm prod.split_asm sum.split_asm)

lemma answer_cached_ends:
  assumes "answer_cached sv env result c s = (c', s')" "session_ok s"
  shows "same_session s s' \<and> one_reply c c'"
  using assms(1) unfolding answer_cached_def Let_def
  by (auto simp: error_reply ok_reply assms(2) session_rules split: sum.split_asm)

lemma answer_executed_ends:
  assumes "answer_executed sv env namespace tenantID model result execution c s g = (c', s', g')" "session_ok s"
  shows "same_session s s' \<and> (one_reply c c' \<or> c' = c \<and> hvCtxErr env AtStore \<noteq> None) \<and>
    gwEmitted g' = gwEmitted g \<and> gwQuota g' = gwQuota g \<and> gwWorld g' = gwWorld g"
proof -
  have stored: "gwEmitted g1 = gwEmitted g \<and> gwQuota g1 = gwQuota g \<and> gwWorld g1 = gwWorld g \<and> (status = None \<longrightarrow> hvCtxErr env AtStore \<noteq> None)"
    if "store_response sv env namespace tenantID model result execution g = (status, g1)" for status g1
    using that by (auto simp: store_response_def Let_def split: if_split_asm option.split_asm)
  from assms(1) show ?thesis unfolding answer_executed_def Let_def
    by (auto simp: error_reply ok_reply assms(2) recordExecution_def session_rules dest!: stored split: sum.split_asm option.split_asm prod.split_asm)
qed

text \<open>The ways a request without a stream goes, once it is admitted.\<close>

lemma chat_respond_cases:
  assumes "chat_respond sv env active tenantID model req plan c s g = Some (c', s', g')"
  obtains (cancelled) "hvCtxErr env AtLookup \<noteq> None" "c' = c" "s' = s" "g' = g"
  | (hit) result where "lookup_cache sv env (trim_space (rtCacheNamespace active)) tenantID model = Some result" "caStatus result = StatusHit"
      "answer_cached sv env result c s = (c', s')" "g' = g"
  | (failed) result w f where "lookup_cache sv env (trim_space (rtCacheNamespace active)) tenantID model = Some result" "caStatus result \<noteq> StatusHit"
      "orchestrator_Execute (hsHttpParseTime sv) (\<lambda>p. map_option fst (rtAdapters active p)) (rtRetries active)
         \<lparr>exRequestID = hcRequestID c, exRequest = req, exPlan = plan\<rparr> (hvParent env) (hvNowExecute env) (hvAttempts env) (gwWorld g) = Some (w, Inl f)"
      "fail_request (hvCtxErr env AtFailure) (enNow (hvEnd env)) f c (setCacheStatus (caStatus result) s) = (c', s')" "g' = g\<lparr>gwWorld := w\<rparr>"
  | (executed) result w execution where "lookup_cache sv env (trim_space (rtCacheNamespace active)) tenantID model = Some result" "caStatus result \<noteq> StatusHit"
      "orchestrator_Execute (hsHttpParseTime sv) (\<lambda>p. map_option fst (rtAdapters active p)) (rtRetries active)
         \<lparr>exRequestID = hcRequestID c, exRequest = req, exPlan = plan\<rparr> (hvParent env) (hvNowExecute env) (hvAttempts env) (gwWorld g) = Some (w, Inr execution)"
      "answer_executed sv env (trim_space (rtCacheNamespace active)) tenantID model result execution c (setCacheStatus (caStatus result) s) (g\<lparr>gwWorld := w\<rparr>) = (c', s', g')"
proof (cases "lookup_cache sv env (trim_space (rtCacheNamespace active)) tenantID model")
  case None
  then have "hvCtxErr env AtLookup \<noteq> None" by (auto simp: lookup_cache_def split: if_split_asm sum.split_asm)
  with None assms cancelled show thesis by (simp add: chat_respond_def)
next
  case (Some result)
  show thesis
  proof (cases "caStatus result = StatusHit")
    case True
    with Some assms hit [OF Some] show thesis by (auto simp: chat_respond_def split: prod.split_asm)
  next
    case False
    with Some assms failed [OF Some] executed [OF Some] show thesis
      by (auto simp: chat_respond_def Let_def split: option.split_asm prod.split_asm sum.split_asm)
  qed
qed

lemma chat_respond_ends:
  assumes "chat_respond sv env active tenantID model req plan c s g = Some (c', s', g')" "session_ok s"
  shows "same_session s s' \<and> (one_reply c c' \<or> c' = c \<and> (\<exists>st. hvCtxErr env st \<noteq> None)) \<and>
    gwEmitted g' = gwEmitted g \<and> gwQuota g' = gwQuota g"
proof -
  have s1: "same_session s (setCacheStatus st s)" for st using assms(2) by (simp add: session_rules)
  have ok1: "session_ok (setCacheStatus st s)" for st using session_then(6) [OF assms(2) s1] .
  from assms(1) show ?thesis
  proof (cases rule: chat_respond_cases)
    case (hit result)
    with answer_cached_ends [OF hit(3) assms(2)] show ?thesis by simp
  next
    case (failed result w f)
    with fail_request_ends [OF failed(4) ok1] same_session_trans [OF s1] show ?thesis by auto
  next
    case (executed result w execution)
    with answer_executed_ends [OF executed(4) ok1] same_session_trans [OF s1] show ?thesis by auto
  qed auto
qed

section \<open>The gates\<close>

text \<open>
  A request is admitted to the routes: the key may use the model, the limiter allows it, the runtime has a plan
  with the capabilities it needs, and its quotas are reserved; \<open>c1\<close>, \<open>s1\<close> and \<open>g1\<close> are what it then goes on with.
\<close>

definition admitted ::
  "'p services \<Rightarrow> 'p chat_env \<Rightarrow> identity \<Rightarrow> chat_request \<Rightarrow> http_ctx \<Rightarrow> usage_session \<Rightarrow> gateway \<Rightarrow> runtime \<Rightarrow> plan
     \<Rightarrow> http_ctx \<Rightarrow> usage_session \<Rightarrow> gateway \<Rightarrow> bool" where
  "admitted sv env ident req c s g active plan c1 s1 g1 \<longleftrightarrow>
     (\<exists>required d. RequiredCapabilities req = Inr required \<and>
        AuthorizeModel (map_option (\<lambda>e. ErrContext []) (hvCtxErr env AtAuthorize)) ident (trim_space (crModel req)) = None \<and>
        hsLimiter sv (idTenantID ident) (trim_space (crModel req)) = Inr d \<and> ldAllowed d \<and>
        hvRuntime env = Some active \<and> Plan (rtRoutes active) (trim_space (crModel req)) required = Inr plan \<and>
        reserveQuota sv env (idTenantID ident) (trim_space (crModel req)) req plan (writeRateLimitHeaders d c) s g = (True, c1, s1, g1))"

lemma chat_serve_cases:
  assumes "chat_serve sv env ident (trim_space (crModel req)) req c s g = Some (c', s', g')"
  obtains (refused) "s' = s" "g' = g" "one_reply c c' \<or> c' = c \<and> (\<exists>st. hvCtxErr env st \<noteq> None)" "\<not> replied_ok c c'"
  | (over_quota) m where "s' = s" "g' = g\<lparr>gwQuota := m\<rparr>" "one_reply c c'" "\<not> replied_ok c c'"
  | (streamed) active plan c1 s1 g1 where "admitted sv env ident req c s g active plan c1 s1 g1" "crStream req"
      "chat_stream sv env active req plan c1 (setCacheStatus StatusBypass s1) g1 = Some (c', s', g')"
  | (responded) active plan c1 s1 g1 where "admitted sv env ident req c s g active plan c1 s1 g1" "\<not> crStream req"
      "chat_respond sv env active (idTenantID ident) (trim_space (crModel req)) req plan c1 s1 g1 = Some (c', s', g')"
proof -
  let ?model = "trim_space (crModel req)"
  show thesis
  proof (cases "\<exists>required d active plan. RequiredCapabilities req = Inr required \<and>
        AuthorizeModel (map_option (\<lambda>e. ErrContext []) (hvCtxErr env AtAuthorize)) ident ?model = None \<and>
        hsLimiter sv (idTenantID ident) ?model = Inr d \<and> ldAllowed d \<and>
        hvRuntime env = Some active \<and> Plan (rtRoutes active) ?model required = Inr plan")
    case True
    then obtain required d active plan where
      gate: "RequiredCapabilities req = Inr required" "AuthorizeModel (map_option (\<lambda>e. ErrContext []) (hvCtxErr env AtAuthorize)) ident ?model = None"
        "hsLimiter sv (idTenantID ident) ?model = Inr d" "ldAllowed d" "hvRuntime env = Some active" "Plan (rtRoutes active) ?model required = Inr plan"
      by blast
    obtain ok c1 s1 g1 where q: "reserveQuota sv env (idTenantID ident) ?model req plan (writeRateLimitHeaders d c) s g = (ok, c1, s1, g1)"
      using prod_cases4 by blast
    have run: "Some (c', s', g') = (if ok then (if crStream req then chat_stream sv env active req plan c1 (setCacheStatus StatusBypass s1) g1
        else chat_respond sv env active (idTenantID ident) ?model req plan c1 s1 g1) else Some (c1, s1, g1))"
      using assms gate q by (cases ok) (simp_all add: chat_serve_def authorize_gate_def limit_gate_def plan_gate_def)
    show thesis
    proof (cases ok)
      case True
      with gate q have "admitted sv env ident req c s g active plan c1 s1 g1" by (auto simp: admitted_def)
      with run True streamed responded show thesis by (cases "crStream req") simp_all
    next
      case False
      with q obtain m where "s1 = s" "g1 = g\<lparr>gwQuota := m\<rparr>" "one_reply c c1" "\<not> replied_ok c c1"
        by (auto simp: reserveQuota_def one_reply_after [OF quota_reply] quota_not_ok split: option.split_asm if_split_asm prod.split_asm)
      with run False over_quota show thesis by simp
    qed
  next
    case False
    then have "s' = s \<and> g' = g \<and> (one_reply c c' \<or> c' = c \<and> (\<exists>st. hvCtxErr env st \<noteq> None)) \<and> \<not> replied_ok c c'"
      using assms
      by (auto simp: chat_serve_def authorize_gate_def limit_gate_def plan_gate_def error_reply error_not_ok same_not_ok Let_def split: sum.split_asm option.split_asm if_split_asm)
    with refused show thesis by blast
  qed
qed

section \<open>What is billed is what the client was told\<close>

definition good_status :: "string \<Rightarrow> bool" where
  "good_status status \<longleftrightarrow> status = StatusSuccess \<or> status = StatusCacheHit"

definition billed_success :: "usage_session \<Rightarrow> bool" where
  "billed_success s \<longleftrightarrow> usReady s \<and> good_status (ueStatus (usEvent s))"

definition fresh_session :: "usage_session \<Rightarrow> bool" where
  "fresh_session s \<longleftrightarrow> \<not> usReady s \<and> \<not> coFinalized (usCollector s)"

lemma fresh_session_ok: "fresh_session s \<Longrightarrow> session_ok s"
  by (simp add: fresh_session_def session_ok_def)

lemma fresh_calls [simp]:
  "fresh_session (setCacheStatus st s) = fresh_session s" "fresh_session (session_observe ss payload s) = fresh_session s"
  "fresh_session (observeStream ss payload now s) = fresh_session s" "fresh_session (set_route p m a tr f s) = fresh_session s"
  "fresh_session (attachQuota r s) = fresh_session s"
  by (simp_all add: fresh_session_def setCacheStatus_def session_observe_def observeStream_def set_route_def attachQuota_def
      ObserveResponse_def ObserveStreamResponse_def observe_key collector_calls)

lemma finalize_billed [simp]:
  "fresh_session s \<Longrightarrow> billed_success (session_finalize now status category code s) = good_status status"
  by (simp add: billed_success_def fresh_session_def session_finalize_def Finalize_def Let_def)

lemma fresh_not_billed [simp]: "fresh_session s \<Longrightarrow> \<not> billed_success s"
  by (simp add: billed_success_def fresh_session_def)

lemma good_statuses [simp]:
  "good_status StatusSuccess" "good_status StatusCacheHit"
  "\<not> good_status StatusFailed" "\<not> good_status StatusCanceled" "\<not> good_status StatusStreamInterrupted" "\<not> good_status StatusStreamCompleted"
  by (simp_all add: good_status_def StatusFailed_def StatusCanceled_def StatusStreamInterrupted_def StatusStreamCompleted_def StatusSuccess_def StatusCacheHit_def)

lemma reliability_not_ok: "\<not> replied_ok c (writeReliabilityError ctxErr f c)"
  by (auto simp: writeReliabilityError_def error_not_ok same_not_ok split: category.split queue_reason.split)

lemma fail_request_told:
  assumes "fail_request ctxErr now f c s = (c', s')" "fresh_session s"
  shows "\<not> billed_success s' \<and> \<not> replied_ok c c'"
  using assms reliability_not_ok [of c ctxErr f] unfolding fail_request_def recordFailure_def Let_def
  by (auto split: if_split_asm)

lemma stream_failed_told: "fresh_session s \<Longrightarrow> \<not> billed_success (stream_failed now failure s)"
  by (simp add: stream_failed_def split: option.split)

lemma event_loop_told:
  "event_loop sv now rounds st p c s w = Some (p', c', s', w') \<Longrightarrow> fresh_session s \<Longrightarrow> \<not> billed_success s'"
  by (induction rounds arbitrary: st p c s w)
    (auto simp: Let_def stream_failed_told split: prod.split_asm option.split_asm if_split_asm)

lemma chat_stream_told:
  assumes "chat_stream sv env active req plan c s g = Some (c', s', g')" "fresh_session s"
  shows "\<not> billed_success s' \<and> \<not> replied_ok c c'"
proof -
  have relay: "\<not> billed_success s1 \<and> \<not> replied_ok c c1" if "relay_stream sv env p c s w = Some (p1, c1, s1, w1)" for p w p1 c1 s1 w1
  proof -
    have "\<not> billed_success s1" using that assms(2) unfolding relay_stream_def Let_def recordStream_def
      by (auto dest: event_loop_told split: option.split_asm prod.split_asm)
    moreover have "\<not> replied_ok c c1" using that unfolding relay_stream_def Let_def
      by (auto simp: error_not_ok same_not_ok dest!: writeAndFlush_replies event_loop_replies split: option.split_asm prod.split_asm)
    ultimately show ?thesis ..
  qed
  from assms show ?thesis unfolding chat_stream_def
    by (auto simp: error_not_ok dest!: fail_request_told relay split: if_split_asm option.split_asm prod.split_asm sum.split_asm)
qed

lemma chat_respond_told:
  assumes "chat_respond sv env active tenantID model req plan c s g = Some (c', s', g')" "fresh_session s"
  shows "billed_success s' = replied_ok c c'"
  using assms(1)
proof (cases rule: chat_respond_cases)
  case cancelled
  then show ?thesis using assms(2) by (simp add: same_not_ok)
next
  case (hit result)
  from hit(3) show ?thesis using assms(2) unfolding answer_cached_def Let_def
    by (auto simp: error_not_ok replied_ok_def split: sum.split_asm) (auto simp: writeAPIError_def)
next
  case (failed result w f)
  with fail_request_told [OF failed(4)] assms(2) show ?thesis by simp
next
  case (executed result w execution)
  from executed(4) show ?thesis using assms(2) unfolding answer_executed_def Let_def recordExecution_def
    by (auto simp: replied_ok_def same_not_ok split: sum.split_asm option.split_asm prod.split_asm) (auto simp: writeAPIError_def)
qed

section \<open>The end of a request\<close>

lemma session_finish_emits:
  assumes "session_ok s"
  shows "\<exists>e. gwEmitted (session_finish quote env c s g) = gwEmitted g @ [e] \<and> request_key e = request_key (coEvent (usCollector s)) \<and>
    good_status (ueStatus e) = billed_success s \<and> gwWorld (session_finish quote env c s g) = gwWorld g \<and>
    gwStored (session_finish quote env c s g) = gwStored g \<and>
    gwQuota (session_finish quote env c s g) =
      (if usQuota s \<and> usReservationID s \<noteq> []
       then fst (Settle quote (enSettleNow env) (enSettleFault env) (usReservationID s) e (enQuotaOthers env (gwQuota g)))
       else enQuotaOthers env (gwQuota g))"
proof -
  obtain status category code where o: "unfinished_outcome (hcErrorCode c) (enCtxErr env) = (status, category, code)"
    using prod_cases3 by blast
  then have status: "\<not> good_status status" by (auto simp: unfinished_outcome_def Let_def split: if_split_asm)
  define s1 where "s1 = session_finalize (enNow env) status category code s"
  have ready: "usReady s1" using finalize_ready [OF assms] by (simp add: s1_def)
  have kept: "same_session s s1" using session_calls(5) [OF assms] by (simp add: s1_def)
  then have ok: "session_ok s1" using assms by (simp add: same_session_def)
  have "billed_success s1 = billed_success s"
  proof (cases "usReady s")
    case True
    with kept show ?thesis by (simp add: same_session_def)
  next
    case False
    with assms have "fresh_session s" by (simp add: session_ok_def fresh_session_def)
    with status show ?thesis by (simp add: s1_def)
  qed
  with ready have good: "good_status (ueStatus (usEvent s1)) = billed_success s" by (simp add: billed_success_def)
  have key: "request_key (usEvent s1) = request_key (coEvent (usCollector s))"
    using ok ready kept by (simp add: session_ok_def same_session_def)
  show ?thesis using ready good key kept
    by (intro exI [of _ "usEvent s1"]) (simp add: session_finish_def o Let_def s1_def [symmetric] same_session_def)
qed

lemma new_session:
  assumes "newUsageSession random now begin_lifecycle requestID tenantID apiKeyID model stream = Inr s"
  shows "fresh_session s \<and> request_key (coEvent (usCollector s)) =
      (usEventID s, trim_space requestID, trim_space tenantID, trim_space apiKeyID, trim_space model, stream) \<and> \<not> usQuota s"
  using assms by (auto simp: newUsageSession_def NewCollector_def newEvent_def fresh_session_def request_key_def collector_Pending_def Let_def
      split: sum.split_asm option.split_asm if_split_asm)

lemma newUsageSession_reservation:
  "newUsageSession random now begin_lifecycle requestID tenantID apiKeyID model stream = Inr s \<Longrightarrow> usReservationID s = []"
  by (auto simp: newUsageSession_def split: sum.split_asm option.split_asm)

lemma reserveQuota_session:
  assumes "reserveQuota sv env tenantID model req plan c s g = (True, c1, s1, g1)"
  shows "(s1 = s \<and> g1 = g \<or> (\<exists>settings m d. hsQuota sv = Some settings \<and> HasPolicy (gwQuota g) tenantID model \<and>
      Reserve settings (hsQuote sv) (hvReserveNow env) (hvReserveRandom env) (hvReserveFault env)
        \<lparr>riGroupID = usEventID s, riTenantID = tenantID, riGatewayModel = model, riEstimatedInputTokens = int (length (hvBody env)),
         riEstimatedOutputTokens = estimated_output settings req, riCandidates = plCandidates plan\<rparr> (gwQuota g) = (m, d, None) \<and>
      s1 = attachQuota (deReservationID d) s \<and> g1 = g\<lparr>gwQuota := m\<rparr>)) \<and>
    hcReplies c1 = hcReplies c \<and> hcFrames c1 = hcFrames c \<and> hcRequestID c1 = hcRequestID c"
  using assms by (auto simp: reserveQuota_def split: option.split_asm if_split_asm prod.split_asm)

lemma attach_session:
  "session_ok (attachQuota r s) = session_ok s" "request_key (coEvent (usCollector (attachQuota r s))) = request_key (coEvent (usCollector s))"
  "billed_success (attachQuota r s) = billed_success s" "usEventID (attachQuota r s) = usEventID s"
  by (simp_all add: attachQuota_def session_ok_def billed_success_def)

lemma admitted_session:
  assumes "admitted sv env ident req c s g active plan c1 s1 g1" "fresh_session s"
  shows "fresh_session s1 \<and> request_key (coEvent (usCollector s1)) = request_key (coEvent (usCollector s)) \<and> usEventID s1 = usEventID s \<and>
    gwEmitted g1 = gwEmitted g \<and> gwStored g1 = gwStored g \<and> gwWorld g1 = gwWorld g \<and>
    hcReplies c1 = hcReplies c \<and> hcFrames c1 = hcFrames c \<and> hcRequestID c1 = hcRequestID c"
  using assms by (auto simp: admitted_def attach_session dest!: reserveQuota_session)

text \<open>Serving a fresh session: what it leaves of the session, the reply and the shared state.\<close>

lemma chat_serve_ends:
  assumes "chat_serve sv env ident (trim_space (crModel req)) req c s g = Some (c', s', g')" "fresh_session s"
  shows "session_ok s' \<and> request_key (coEvent (usCollector s')) = request_key (coEvent (usCollector s)) \<and> gwEmitted g' = gwEmitted g \<and>
    billed_success s' = replied_ok c c' \<and>
    (one_reply c c' \<or> hcReplies c' = hcReplies c \<and> (crStream req \<or> (\<exists>st. hvCtxErr env st \<noteq> None)))"
  using assms(1)
proof (cases rule: chat_serve_cases)
  case refused
  then show ?thesis using assms(2) fresh_session_ok by auto
next
  case (over_quota m)
  then show ?thesis using assms(2) fresh_session_ok by auto
next
  case (streamed active plan c1 s1 g1)
  note q = admitted_session [OF streamed(1) assms(2)]
  let ?s = "setCacheStatus StatusBypass s1"
  have ok: "session_ok ?s" "fresh_session ?s" using q fresh_session_ok by auto
  have "same_session s1 s'" using chat_stream_ends [OF streamed(3) ok(1)] q fresh_session_ok session_calls(1) same_session_trans by blast
  from same_sessionD [OF this] chat_stream_ends [OF streamed(3) ok(1)] chat_stream_told [OF streamed(3) ok(2)] q streamed(2) fresh_session_ok
  show ?thesis by (auto simp: reply_cong [of c1 c])
next
  case (responded active plan c1 s1 g1)
  note q = admitted_session [OF responded(1) assms(2)]
  have ok: "session_ok s1" using q fresh_session_ok by auto
  have "same_session s1 s'" using chat_respond_ends [OF responded(3) ok] by simp
  from same_sessionD [OF this ok] chat_respond_ends [OF responded(3) ok] chat_respond_told [OF responded(3)] q show ?thesis
    by (auto simp: reply_cong [of c1 c])
qed

section \<open>The slot of a stream\<close>

text \<open>Other requests, as far as this one's slot goes: they keep the shared state in order and hold as many slots as before.\<close>

definition calm_others :: "(world \<Rightarrow> world) \<Rightarrow> bool" where
  "calm_others others \<longleftrightarrow> (\<forall>w. world_ok w \<longrightarrow> world_ok (others w) \<and> (\<forall>q. slots_held q (others w) = slots_held q w))"

lemma calm_live: "calm_others others \<Longrightarrow> world_ok w \<Longrightarrow> stream_live p w \<Longrightarrow> world_ok (others w) \<and> stream_live p (others w)"
  by (simp add: calm_others_def stream_live_def)

text \<open>The stream has ended, and gave its slot back.\<close>

definition gave_back :: "prepared_stream \<Rightarrow> world \<Rightarrow> prepared_stream \<Rightarrow> world \<Rightarrow> bool" where
  "gave_back p w p' w' \<longleftrightarrow> psFinished p' \<and> world_ok w' \<and> (\<forall>q. slots_held q w' = slots_held q w - same_provider (psProviderID p) q)"

lemma Finish_gives_back: "Finish env f p w = (w', p', ended) \<Longrightarrow> world_ok w \<Longrightarrow> stream_live p w \<Longrightarrow> gave_back p w p' w'"
  using Finish_live unfolding gave_back_def by blast

lemma Abort_gives_back: "Abort env cause p w = (w', p', ended) \<Longrightarrow> world_ok w \<Longrightarrow> stream_live p w \<Longrightarrow> gave_back p w p' w'"
  unfolding Abort_def Let_def by (rule Finish_gives_back)

lemma FinishError_gives_back:
  "FinishError hp now ctxErr env (Some err) p w = (w', p', failure) \<Longrightarrow> world_ok w \<Longrightarrow> stream_live p w \<Longrightarrow> gave_back p w p' w'"
  by (auto simp: FinishError_def Let_def split: prod.split_asm dest: Finish_gives_back)

lemma event_loop_gives_back:
  "event_loop sv now rounds st p c s w = Some (p', c', s', w') \<Longrightarrow> \<forall>r \<in> set rounds. calm_others (roOthers r) \<Longrightarrow>
     world_ok w \<Longrightarrow> stream_live p w \<Longrightarrow> gave_back p w p' w'"
proof (induction rounds arbitrary: st p c s w)
  case (Cons r rounds)
  let ?w = "roOthers r w"
  obtain p1 ev err where n: "stream_Next validateCompatibleChatChunk (roTimedOut r) p = (p1, ev, err)" using prod_cases3 by blast
  have w: "world_ok ?w" "stream_live p1 ?w" "psProviderID p1 = psProviderID p"
    using calm_live [of "roOthers r" w p] Cons.prems stream_next_keeps [OF n] by (auto simp: stream_live_def)
  have slots: "slots_held q ?w = slots_held q w" for q using Cons.prems by (simp add: calm_others_def)
  have there: "gave_back p1 ?w p' w'"
  proof (cases err)
    case (Some e)
    with Cons.prems(1) n w(1,2) show ?thesis by (auto simp: Let_def split: prod.split_asm dest: FinishError_gives_back)
  next
    case None
    obtain st' c1 werr where wr: "writeAndFlushChatStreamEvent (hsProtocol sv) (roWrite r) ev st c = (st', c1, werr)" using prod_cases3 by blast
    show ?thesis
    proof (cases "werr = None \<and> \<not> evDone ev")
      case True
      with Cons.prems(1) n None wr have "event_loop sv now rounds st' p1 c1 (observeStream (hsSetString sv) (evData ev) (roNow r) s) ?w = Some (p', c', s', w')"
        by (simp add: Let_def)
      from Cons.IH [OF this] Cons.prems(2) w show ?thesis by simp
    next
      case False
      with Cons.prems(1) n None wr w(1,2) show ?thesis
        by (auto simp: Let_def split: prod.split_asm option.split_asm dest: Abort_gives_back Finish_gives_back)
    qed
  qed
  then show ?case by (simp add: gave_back_def w(3) slots)
qed simp

lemma relay_stream_gives_back:
  assumes "relay_stream sv env p c s w = Some (p', c', s', w')" "\<forall>r \<in> set (hvRounds env). calm_others (roOthers r)" "world_ok w" "stream_live p w"
  shows "gave_back p w p' w'"
  using assms(1) event_loop_gives_back [OF _ assms(2-4)] Abort_gives_back [OF _ assms(3,4)] unfolding relay_stream_def Let_def
  by (auto split: option.split_asm prod.split_asm)

lemma chat_stream_slots:
  assumes "chat_stream sv env active req plan c s g = Some (c', s', g')" "world_ok (gwWorld g)"
    and "list_all rounds_fair (hvStreams env)" "list_all rounds_quiet (hvStreams env)"
    and "\<forall>r \<in> set (hvRounds env). calm_others (roOthers r)" "calm_others (hvOthers env)"
  shows "world_ok (gwWorld g') \<and> slots_held q (gwWorld g') = slots_held q (gwWorld g)"
proof (cases "hvFlusher env")
  case False
  with assms(1,2) show ?thesis by (auto simp: chat_stream_def)
next
  case True
  let ?open = "OpenStream validateCompatibleChatChunk (hsHttpParseTime sv) (rtAdapters active) (rtRetries active)
    \<lparr>exRequestID = hcRequestID c, exRequest = req, exPlan = plan\<rparr> (hvParent env) (hvNowExecute env) (hvStreams env) (gwWorld g)"
  from assms(1) True obtain w r where o: "?open = Some (w, r)" by (auto simp: chat_stream_def split: option.split_asm)
  note R = OpenStream_resources [OF assms(2,3) o]
  show ?thesis
  proof (cases r)
    case (Inl f)
    with assms(1) True o have "gwWorld g' = w" by (auto simp: chat_stream_def split: prod.split_asm)
    with R Inl assms(4) show ?thesis by simp
  next
    case (Inr p)
    with assms(1) True o obtain p1 c1 s1 w1 w2 p2 b where relay: "relay_stream sv env p c s w = Some (p1, c1, s1, w1)"
      and ab: "Abort (hvFinish env) (Some (ErrSentinel ContextCanceled)) p1 (hvOthers env w1) = (w2, p2, b)" "gwWorld g' = w2"
      by (auto simp: chat_stream_def split: prod.split_asm option.split_asm)
    have gave: "gave_back p w p1 w1" using relay_stream_gives_back [OF relay assms(5)] R Inr by simp
    then have "w2 = hvOthers env w1" using ab(1) by (simp add: gave_back_def Abort_def Finish_def Let_def)
    with gave assms(6) ab(2) have "world_ok (gwWorld g')" "slots_held q (gwWorld g') = slots_held q w - same_provider (psProviderID p) q"
      by (simp_all add: gave_back_def calm_others_def)
    with R [of q] Inr assms(4) show ?thesis by simp
  qed
qed

lemma chat_complete_cases:
  assumes "chat_complete sv env c g = Handled c' g'"
  obtains (refused) "g' = g" "one_reply c c'" "\<not> replied_ok c c'"
  | (session) req ident s c1 s1 g1 where "ParseChatRequest (hvBody env) = Returns (Inr req)" "hvIdentity env = Some ident"
      "newUsageSession (hvRandom env) (hvNowBegin env) (hvBegin env) (hcRequestID c) (idTenantID ident) (idAPIKeyID ident)
         (trim_space (crModel req)) (crStream req) = Inr s"
      "chat_serve sv env ident (trim_space (crModel req)) req c s g = Some (c1, s1, g1)"
      "c' = c1" "g' = session_finish (hsQuote sv) (hvEnd env) c1 s1 g1"
  using assms unfolding chat_complete_def chat_session_def
  by (auto simp: error_reply error_not_ok Let_def split: if_split_asm ChatRequest.outcome.split_asm sum.split_asm option.split_asm prod.split_asm)

lemma admitted_run:
  assumes "admitted sv env ident req c s g active plan c1 s1 g1"
  shows "chat_serve sv env ident (trim_space (crModel req)) req c s g =
    (if crStream req then chat_stream sv env active req plan c1 (setCacheStatus StatusBypass s1) g1
     else chat_respond sv env active (idTenantID ident) (trim_space (crModel req)) req plan c1 s1 g1)"
  using assms by (auto simp: admitted_def chat_serve_def authorize_gate_def limit_gate_def plan_gate_def)

text \<open>The reservation an admitted request settles.\<close>

lemma admitted_reservation:
  assumes "admitted sv env ident req c s g active plan c1 s1 g1" "fresh_session s"
    and "chat_serve sv env ident (trim_space (crModel req)) req c s g = Some (c', s', g')"
  shows "usQuota s' = usQuota s1 \<and> usReservationID s' = usReservationID s1 \<and> gwQuota g' = gwQuota g1"
proof -
  note q = admitted_session [OF assms(1,2)]
  let ?s = "setCacheStatus StatusBypass s1"
  have ok: "session_ok s1" "session_ok ?s" using q fresh_session_ok by auto
  have kept: "same_session s1 ?s" using session_calls(1) [OF ok(1)] .
  show ?thesis
  proof (cases "crStream req")
    case True
    with assms(3) admitted_run [OF assms(1)] have run: "chat_stream sv env active req plan c1 ?s g1 = Some (c', s', g')" by simp
    from chat_stream_ends [OF this ok(2)] kept show ?thesis by (auto simp: same_session_def)
  next
    case False
    with assms(3) admitted_run [OF assms(1)] have "chat_respond sv env active (idTenantID ident) (trim_space (crModel req)) req plan c1 s1 g1 = Some (c', s', g')" by simp
    from chat_respond_ends [OF this ok(1)] show ?thesis by (auto simp: same_session_def)
  qed
qed

lemma reservation_attached:
  assumes "admitted sv env ident req c s g active plan c1 s1 g1" "usReservationID s = []" "usReservationID s1 \<noteq> []"
  shows "usQuota s1 \<and> trim_space (usReservationID s1) = usReservationID s1"
proof -
  from assms(1) obtain required d where
    "reserveQuota sv env (idTenantID ident) (trim_space (crModel req)) req plan (writeRateLimitHeaders d c) s g = (True, c1, s1, g1)"
    by (auto simp: admitted_def)
  from reserveQuota_session [OF this] assms(2,3) obtain r where "s1 = attachQuota r s" by auto
  then show ?thesis by (simp add: attachQuota_def)
qed

lemma settled_group:
  assumes "quota_ok m" "trim_space i \<noteq> []"
  shows "\<forall>r \<in> set (qdReservations (qmDB (fst (Settle quote now None i e m)))). qrGroupID r = trim_space i \<longrightarrow> qrState r = ReservationSettled"
proof -
  have "qmDB (fst (Settle quote now None i e m)) = fold (settle_one quote e now)
      (sort_key qrPolicyID (filter (\<lambda>r. qrGroupID r = trim_space i) (qdReservations (qmDB m)))) (qmDB m)"
    using assms(2) by (simp add: Settle_def Let_def transaction_def)
  moreover have "ledger_ok (qmDB m)" using assms(1) by (simp add: quota_ok_def)
  ultimately show ?thesis by (auto simp: settle_fold(2) settled_row_def finish_fields)
qed

section \<open>Properties\<close>



text \<open>
  Claim C6: no request leaves a slot behind. However it ends (refused, answered, failed, cancelled, its
  stream complete, interrupted or given up by the client), the providers' queues, breakers and keys are in
  order afterwards and every queue has as many slots taken as before.
\<close>
theorem chat_leaves_no_slot:
  assumes "chat_complete sv env c g = Handled c' g'" "world_ok (gwWorld g)"
    and "list_all rounds_fair (hvAttempts env)" "list_all rounds_quiet (hvAttempts env)"
    and "list_all rounds_fair (hvStreams env)" "list_all rounds_quiet (hvStreams env)"
    and "\<forall>r \<in> set (hvRounds env). calm_others (roOthers r)" "calm_others (hvOthers env)"
  shows "world_ok (gwWorld g') \<and> slots_held q (gwWorld g') = slots_held q (gwWorld g)"
  using assms(1)
proof (cases rule: chat_complete_cases)
  case refused
  with assms(2) show ?thesis by simp
next
  case (session req ident s c1 s1 g1)
  note fresh = conjunct1 [OF new_session [OF session(3)]]
  have finish: "gwWorld g' = gwWorld g1"
    using session_finish_emits [of s1 "hsQuote sv" "hvEnd env" c1 g1] chat_serve_ends [OF session(4) fresh] session(6) by auto
  from session(4) show ?thesis
  proof (cases rule: chat_serve_cases)
    case (streamed active plan c2 s2 g2)
    with chat_stream_slots [OF streamed(3) _ assms(5-8)] admitted_session [OF streamed(1) fresh] finish assms(2) show ?thesis by simp
  next
    case (responded active plan c2 s2 g2)
    have w: "gwWorld g2 = gwWorld g" using admitted_session [OF responded(1) fresh] by simp
    from responded(3) show ?thesis
    proof (cases rule: chat_respond_cases)
      case (failed result w f)
      with orchestrator_returns_resources [OF _ assms(3) failed(3)] assms(2,4) finish show ?thesis by (simp add: \<open>gwWorld g2 = gwWorld g\<close>)
    next
      case (executed result w execution)
      have "gwWorld g1 = w" using executed(4) by (auto simp: answer_executed_def store_response_def Let_def split: sum.split_asm option.split_asm prod.split_asm if_split_asm)
      with orchestrator_returns_resources [OF _ assms(3) executed(3)] assms(2,4) finish show ?thesis by (simp add: \<open>gwWorld g2 = gwWorld g\<close>)
    qed (use w finish assms(2) in simp_all)
  qed (use finish assms(2) in simp_all)
qed

text \<open>
  Claim C7: what a request reserved is settled with the event it is billed by. When an admitted request has a
  reservation, at its end the quotas are those of \<open>Settle\<close> with the very event handed to the emitter, on
  top of whatever the other requests did meanwhile; so, unless the database fails, no reservation of the
  request stays open.
\<close>
theorem chat_settles_quota:
  assumes "chat_session sv env ident req c g = Handled c' g'"
    and "newUsageSession (hvRandom env) (hvNowBegin env) (hvBegin env) (hcRequestID c) (idTenantID ident) (idAPIKeyID ident)
         (trim_space (crModel req)) (crStream req) = Inr s"
    and "admitted sv env ident req c s g active plan c1 s1 g1" "usReservationID s1 \<noteq> []"
    and "quota_reachable settings ss quote (enQuotaOthers (hvEnd env) (gwQuota g1))"
  shows "\<exists>e. gwEmitted g' = gwEmitted g @ [e] \<and>
    gwQuota g' = fst (Settle (hsQuote sv) (enSettleNow (hvEnd env)) (enSettleFault (hvEnd env)) (usReservationID s1) e
      (enQuotaOthers (hvEnd env) (gwQuota g1))) \<and>
    (enSettleFault (hvEnd env) = None \<longrightarrow>
       (\<forall>r \<in> set (qdReservations (qmDB (gwQuota g'))). qrGroupID r = usReservationID s1 \<longrightarrow> qrState r = ReservationSettled))"
proof -
  note fresh = conjunct1 [OF new_session [OF assms(2)]]
  from assms(1,2) obtain c2 s2 g2 where
    run: "chat_serve sv env ident (trim_space (crModel req)) req c s g = Some (c2, s2, g2)" "g' = session_finish (hsQuote sv) (hvEnd env) c2 s2 g2"
    by (auto simp: chat_session_def Let_def split: option.split_asm)
  note served = chat_serve_ends [OF run(1) fresh]
  note kept = admitted_reservation [OF assms(3) fresh run(1)]
  have s1: "usQuota s1 \<and> trim_space (usReservationID s1) = usReservationID s1"
    using reservation_attached [OF assms(3) newUsageSession_reservation [OF assms(2)] assms(4)] .
  obtain e where e: "gwEmitted g' = gwEmitted g @ [e]"
      "gwQuota g' = fst (Settle (hsQuote sv) (enSettleNow (hvEnd env)) (enSettleFault (hvEnd env)) (usReservationID s1) e (enQuotaOthers (hvEnd env) (gwQuota g1)))"
    using session_finish_emits [of s2 "hsQuote sv" "hvEnd env" c2 g2] served kept s1 assms(4) run(2) by auto
  have settled: "\<forall>r \<in> set (qdReservations (qmDB (gwQuota g'))). qrGroupID r = usReservationID s1 \<longrightarrow> qrState r = ReservationSettled"
    if "enSettleFault (hvEnd env) = None"
    using settled_group [OF quota_reachable_ok [OF assms(5)], of "usReservationID s1"] s1 assms(4) e(2) that by simp
  show ?thesis by (intro exI [of _ e] conjI impI) (rule e settled; assumption)+
qed

text \<open>
  Claim C8: only fresh first-choice answers are cached. A request stores at most one response, under the
  namespace of the runtime it was planned with, its tenant, its model and its exact body; it is then not a stream,
  did not ask for no-store, its lookup missed, and the response is the body of an execution without a fallback.
\<close>
theorem chat_cache_policy:
  assumes "chat_complete sv env c g = Handled c' g'" "gwStored g' \<noteq> gwStored g"
  shows "\<exists>req ident s active plan c1 s1 g1 result w execution.
    ParseChatRequest (hvBody env) = Returns (Inr req) \<and> hvIdentity env = Some ident \<and> \<not> crStream req \<and>
    admitted sv env ident req c s g active plan c1 s1 g1 \<and> \<not> requestBypassesResponseCache (hvCacheControl env) \<and>
    hsLookup sv (trim_space (rtCacheNamespace active)) (idTenantID ident) (trim_space (crModel req)) (hvBody env) = Inr result \<and>
    caStatus result = StatusMiss \<and>
    orchestrator_Execute (hsHttpParseTime sv) (\<lambda>p. map_option fst (rtAdapters active p)) (rtRetries active)
      \<lparr>exRequestID = hcRequestID c1, exRequest = req, exPlan = plan\<rparr> (hvParent env) (hvNowExecute env) (hvAttempts env) (gwWorld g1) = Some (w, Inr execution) \<and>
    erFallbacks execution = 0 \<and>
    gwStored g' = gwStored g @ [(trim_space (rtCacheNamespace active), idTenantID ident, trim_space (crModel req), hvBody env, erBody execution)]"
  using assms(1)
proof (cases rule: chat_complete_cases)
  case refused
  with assms(2) show ?thesis by simp
next
  case (session req ident s c1 s1 g1)
  note fresh = conjunct1 [OF new_session [OF session(3)]]
  have finish: "gwStored g' = gwStored g1"
    using session_finish_emits [of s1 "hsQuote sv" "hvEnd env" c1 g1] chat_serve_ends [OF session(4) fresh] session(6) by auto
  from session(4) show ?thesis
  proof (cases rule: chat_serve_cases)
    case (streamed active plan c2 s2 g2)
    from admitted_session [OF streamed(1) fresh] have "gwStored g2 = gwStored g" "fresh_session (setCacheStatus StatusBypass s2)" by simp_all
    with chat_stream_ends [OF streamed(3) fresh_session_ok] finish assms(2) show ?thesis by simp
  next
    case (responded active plan c2 s2 g2)
    have same: "gwStored g2 = gwStored g" using admitted_session [OF responded(1) fresh] by simp
    from responded(3) show ?thesis
    proof (cases rule: chat_respond_cases)
      case (executed result w execution)
      have store: "caStatus result = StatusMiss \<and> erFallbacks execution = 0 \<and> gwStored g1 = gwStored g @
          [(trim_space (rtCacheNamespace active), idTenantID ident, trim_space (crModel req), hvBody env, erBody execution)]"
        using executed(4) finish assms(2) same
        by (auto simp: answer_executed_def store_response_def Let_def split: sum.split_asm option.split_asm prod.split_asm if_split_asm)
      then have lookup: "\<not> requestBypassesResponseCache (hvCacheControl env)"
        "hsLookup sv (trim_space (rtCacheNamespace active)) (idTenantID ident) (trim_space (crModel req)) (hvBody env) = Inr result"
        using executed(1) by (auto simp: lookup_cache_def cache_words split: if_split_asm sum.split_asm)
      show ?thesis
        by (intro exI conjI) (rule session(1,2) responded(1,2) lookup executed(3) conjunct1 [OF store] conjunct1 [OF conjunct2 [OF store]]
            trans [OF finish conjunct2 [OF conjunct2 [OF store]]])+
    qed (use same finish assms(2) in simp_all)
  qed (use finish assms(2) in simp_all)
qed

lemma hit_failed_invalid:
  assumes "ueCacheStatus e = ''hit''" "ueStatus e = StatusFailed"
  shows "event_Validate e \<noteq> None"
proof -
  have "\<exists>f \<in> set (event_faults e). fst f" using assms by (simp add: event_faults_def StatusFailed_def StatusCacheHit_def)
  then have "find fst (event_faults e) \<noteq> None" by (metis find_None_iff)
  then show ?thesis by (auto simp: event_Validate_def split: prod.split)
qed

text \<open>
  Claim C39: a cached response the client's protocol cannot represent is not billed. The event of such a
  request has the cache status \<open>hit\<close> with the status \<open>failed\<close>, which the validation of the usage pipeline
  refuses, so the emitter drops what was handed to it.
\<close>
theorem chat_cached_encoding_failure_unbilled:
  assumes "chat_session sv env ident req c g = Handled c' g'"
    and "newUsageSession (hvRandom env) (hvNowBegin env) (hvBegin env) (hcRequestID c) (idTenantID ident) (idAPIKeyID ident)
         (trim_space (crModel req)) (crStream req) = Inr s"
    and "admitted sv env ident req c s g active plan c1 s1 g1" "\<not> crStream req"
    and "lookup_cache sv env (trim_space (rtCacheNamespace active)) (idTenantID ident) (trim_space (crModel req)) = Some result"
    and "caStatus result = StatusHit" "encodeProtocolResponse (hsProtocol sv) (caBody result) = Inl err"
  shows "\<exists>e. gwEmitted g' = gwEmitted g @ [e] \<and> event_Validate e \<noteq> None \<and> gwWorld g' = gwWorld g"
proof -
  note fresh = conjunct1 [OF new_session [OF assms(2)]]
  note q = admitted_session [OF assms(3) fresh]
  define s2 where "s2 = session_finalize (enNow (hvEnd env)) StatusFailed ''gateway'' ''protocol_encoding_failed''
    (session_observe (hsSetString sv) (caBody result) (setCacheStatus (caStatus result) s1))"
  from assms(1-7) admitted_run [OF assms(3)] obtain c2 where g': "g' = session_finish (hsQuote sv) (hvEnd env) c2 s2 g1"
    by (auto simp: chat_session_def chat_respond_def answer_cached_def s2_def Let_def split: option.split_asm prod.split_asm)
  have hit: "to_lower (trim_space StatusHit) = ''hit''" by code_simp
  have ready: "usReady s2" "ueStatus (usEvent s2) = StatusFailed" "ueCacheStatus (usEvent s2) = ''hit''"
    using q by (simp_all add: s2_def fresh_session_def session_finalize_def Finalize_def session_observe_def setCacheStatus_def ObserveResponse_def
        observe_def observe_metadata_def first_token_def SetCacheStatus_def Let_def hit assms(6))
  have "session_finalize now st cat code s2 = s2" for now st cat code using ready(1) by (simp add: session_finalize_def)
  then have "gwEmitted g' = gwEmitted g1 @ [usEvent s2]" "gwWorld g' = gwWorld g1"
    using ready(1) by (simp_all add: g' session_finish_def Let_def split: prod.split)
  with q hit_failed_invalid [OF ready(3,2)] show ?thesis by auto
qed

section \<open>The loop of a stream ends\<close>

lemma stream_Next_shorter:
  assumes "stream_Next chunkError t p = (p', ev, None)"
  shows "length (esBody (psStream p')) < length (esBody (psStream p))"
proof -
  have "\<exists>p0. stream_next_event chunkError p = (p', ev, None)" using assms by (auto simp: stream_Next_def split: if_split_asm)
  then show ?thesis using events_Next_ok by (fastforce simp: stream_next_event_def Let_def split: prod.split_asm if_split_asm)
qed

lemma event_loop_ends:
  "length (esBody (psStream p)) < length rounds \<Longrightarrow> \<exists>out. event_loop sv now rounds st p c s w = Some out"
proof (induction rounds arbitrary: st p c s w)
  case (Cons r rounds)
  obtain p1 ev err where n: "stream_Next validateCompatibleChatChunk (roTimedOut r) p = (p1, ev, err)" using prod_cases3 by blast
  show ?case
  proof (cases err)
    case None
    then have "length (esBody (psStream p1)) < length rounds" using stream_Next_shorter n Cons.prems by fastforce
    with Cons.IH n None show ?thesis by (auto simp: Let_def split: prod.split option.split)
  qed (use n in \<open>auto simp: Let_def split: prod.split\<close>)
qed simp

section \<open>What the client of a stream reads\<close>

text \<open>How the stream is billed.\<close>

definition billed_complete :: "usage_session \<Rightarrow> bool" where
  "billed_complete s \<longleftrightarrow> usReady s \<and> ueStatus (usEvent s) = StatusStreamCompleted"

lemma finalize_complete [simp]:
  "fresh_session s \<Longrightarrow> billed_complete (session_finalize now status category code s) = (status = StatusStreamCompleted)"
  by (simp add: billed_complete_def fresh_session_def session_finalize_def Finalize_def Let_def)

lemma fresh_not_complete [simp]: "fresh_session s \<Longrightarrow> \<not> billed_complete s"
  by (simp add: billed_complete_def fresh_session_def)

lemma stream_statuses [simp]:
  "StatusFailed \<noteq> StatusStreamCompleted" "StatusCanceled \<noteq> StatusStreamCompleted" "StatusStreamInterrupted \<noteq> StatusStreamCompleted"
  by (simp_all add: StatusFailed_def StatusCanceled_def StatusStreamInterrupted_def StatusStreamCompleted_def)

lemma stream_failed_complete: "fresh_session s \<Longrightarrow> \<not> billed_complete (stream_failed now failure s)"
  by (simp add: stream_failed_def split: option.split)

text \<open>The frames handed to the client: an event that was written whole is one frame.\<close>

lemma write_frame:
  assumes "writeAndFlushChatStreamEvent None we ev st c = (st', c', err)"
  shows "\<exists>fs. hcFrames c' = hcFrames c @ fs \<and> length fs \<le> 1 \<and> (\<forall>f \<in> set fs. event_frame ev = Inr f) \<and> (err = None \<longrightarrow> fs \<noteq> [])"
  using assms
  by (auto simp: writeAndFlushChatStreamEvent_def writeProtocolStream_def writeChatStreamEvent_def Let_def split: option.split_asm sum.split_asm prod.split_asm)
    (metis option.distinct(1))

text \<open>
  What a stream writes: \<open>frames\<close> are the frames of the first events of \<open>out\<close>, all of which were read without an
  error; only the last event read may be missing, and it is there, as the end marker, when the stream is billed
  as complete.
\<close>

definition wrote_events :: "string list \<Rightarrow> (stream_event \<times> goerr option) list \<Rightarrow> bool \<Rightarrow> bool" where
  "wrote_events frames out whole \<longleftrightarrow> length frames \<le> length out \<and> length out \<le> length frames + 1 \<and>
     (\<forall>i < length frames. event_frame (fst (out ! i)) = Inr (frames ! i) \<and> snd (out ! i) = None) \<and>
     (whole \<longrightarrow> length frames = length out \<and> frames \<noteq> [] \<and> last frames = chat_frame ''[DONE]'')"

lemma wrote_first: "event_frame ev = Inr f \<Longrightarrow> wrote_events frames out whole \<Longrightarrow> wrote_events (f # frames) ((ev, None) # out) whole"
  by (auto simp: wrote_events_def nth_Cons split: nat.split)

lemma wrote_last: "\<forall>f \<in> set fs. event_frame ev = Inr f \<and> err = None \<Longrightarrow> length fs \<le> 1 \<Longrightarrow> wrote_events fs [(ev, err)] False"
  by (cases fs) (auto simp: wrote_events_def)

lemma event_loop_frames:
  assumes "event_loop sv now rounds st p c s w = Some (p', c', s', w')" "hsProtocol sv = None" "fresh_session s"
  shows "\<exists>n frames. n \<le> length rounds \<and> hcFrames c' = hcFrames c @ frames \<and>
    wrote_events frames (snd (stream_run validateCompatibleChatChunk (map roTimedOut (take n rounds)) p)) (billed_complete s')"
  using assms(1,3)
proof (induction rounds arbitrary: st p c s w)
  case (Cons r rounds)
  let ?run = "\<lambda>n p. snd (stream_run validateCompatibleChatChunk (map roTimedOut (take n rounds)) p)"
  obtain p1 ev err where n: "stream_Next validateCompatibleChatChunk (roTimedOut r) p = (p1, ev, err)" using prod_cases3 by blast
  have run: "snd (stream_run validateCompatibleChatChunk (map roTimedOut (take (Suc k) (r # rounds))) p) = (ev, err) # ?run k p1" for k
    by (simp add: n split: prod.split)
  have one: "?case" if "hcFrames c' = hcFrames c @ fs" "\<forall>f \<in> set fs. event_frame ev = Inr f \<and> err = None" "length fs \<le> 1" "\<not> billed_complete s'" for fs
    using wrote_last [OF that(2,3)] run [of 0] that by (intro exI [of _ 1] exI [of _ fs]) simp
  show ?case
  proof (cases err)
    case (Some e)
    with Cons.prems n have "c' = c" "\<not> billed_complete s'" by (auto simp: Let_def stream_failed_complete split: prod.split_asm)
    then show ?thesis using one [of "[]"] by simp
  next
    case None
    let ?s = "observeStream (hsSetString sv) (evData ev) (roNow r) s"
    obtain st' c1 werr where wr: "writeAndFlushChatStreamEvent None (roWrite r) ev st c = (st', c1, werr)" using prod_cases3 by blast
    obtain fs where fs: "hcFrames c1 = hcFrames c @ fs" "length fs \<le> 1" "\<forall>f \<in> set fs. event_frame ev = Inr f" "werr = None \<longrightarrow> fs \<noteq> []"
      using write_frame [OF wr] by blast
    show ?thesis
    proof (cases werr)
      case (Some e)
      with Cons.prems n None wr assms(2) have "c' = c1" "\<not> billed_complete s'" by (auto simp: Let_def split: prod.split_asm)
      then show ?thesis using one [of fs] fs None by simp
    next
      case wok: None
      with fs obtain f where f: "fs = [f]" "event_frame ev = Inr f" by (cases fs) auto
      show ?thesis
      proof (cases "evDone ev")
        case True
        with Cons.prems n None wr assms(2) wok have "c' = c1" by (auto simp: Let_def split: prod.split_asm)
        moreover have "wrote_events [f] [(ev, err)] (billed_complete s')" using True f(2) None by (auto simp: wrote_events_def event_frame_def)
        ultimately show ?thesis using run [of 0] fs(1) f(1) by (intro exI [of _ 1] exI [of _ "[f]"]) simp
      next
        case False
        with Cons.prems n None wr assms(2) wok have "event_loop sv now rounds st' p1 c1 ?s (roOthers r w) = Some (p', c', s', w')" by (simp add: Let_def)
        from Cons.IH [OF this] Cons.prems(2) obtain k frames where
          k: "k \<le> length rounds" "hcFrames c' = hcFrames c1 @ frames" "wrote_events frames (?run k p1) (billed_complete s')" by auto
        from wrote_first [OF f(2) k(3)] run [of k] None k(1,2) fs(1) f(1) show ?thesis
          by (intro exI [of _ "Suc k"] exI [of _ "f # frames"]) simp
      qed
    qed
  qed
qed simp

text \<open>
  Claim C9: the client of a stream reads what the gateway read. For an OpenAI stream the bytes written are,
  event by event and in order, the frames of the first event and of the events read after it, each read without
  an error; at most the last one is missing, where writing failed or reading did; and a stream is billed as
  complete only when its last frame is the end marker. With one round per byte of the upstream body left, and one
  more, the loop ends.
\<close>
theorem chat_stream_delivers:
  assumes "hsProtocol sv = None" "fresh_session s" "hvCtxErr env AtStream = None" "setChatStreamWriteDeadline (hvClear env) = None"
  shows "(length (esBody (psStream p)) < length (hvRounds env) \<longrightarrow> relay_stream sv env p c s w \<noteq> None) \<and>
    (\<forall>p' c' s' w'. relay_stream sv env p c s w = Some (p', c', s', w') \<longrightarrow>
       (\<exists>n frames. hcFrames c' = hcFrames c @ frames \<and>
          wrote_events frames ((psFirstEvent p, None) # snd (stream_run validateCompatibleChatChunk (map roTimedOut (take n (hvRounds env))) p))
            (billed_complete s')))"
proof -
  let ?s = "observeStream (hsSetString sv) (evData (psFirstEvent p)) (hvNowFirst env) (recordStream p s)"
  have fresh: "fresh_session ?s" using assms(2) by (simp add: recordStream_def)
  obtain st c1 err where wr: "writeAndFlushChatStreamEvent None (hvFirst env) (psFirstEvent p) (hvProtocolState env) (stream_headers c) = (st, c1, err)"
    using prod_cases3 by blast
  obtain fs where fs: "hcFrames c1 = hcFrames c @ fs" "length fs \<le> 1" "\<forall>f \<in> set fs. event_frame (psFirstEvent p) = Inr f" "err = None \<longrightarrow> fs \<noteq> []"
    using write_frame [OF wr] by auto
  have "\<exists>n frames. hcFrames c' = hcFrames c @ frames \<and> wrote_events frames
      ((psFirstEvent p, None) # snd (stream_run validateCompatibleChatChunk (map roTimedOut (take n (hvRounds env))) p)) (billed_complete s')"
    if run: "relay_stream sv env p c s w = Some (p', c', s', w')" for p' c' s' w'
  proof (cases err)
    case (Some e)
    with run wr assms fresh have "c' = c1" "\<not> billed_complete s'" by (auto simp: relay_stream_def Let_def split: prod.split_asm)
    with wrote_last [of fs "psFirstEvent p" None] fs show ?thesis by (intro exI [of _ 0] exI [of _ fs]) simp
  next
    case None
    with run wr assms have "event_loop sv (enNow (hvEnd env)) (hvRounds env) st p c1 ?s w = Some (p', c', s', w')" by (simp add: relay_stream_def Let_def)
    from event_loop_frames [OF this assms(1) fresh] obtain n frames where
      n: "hcFrames c' = hcFrames c1 @ frames"
        "wrote_events frames (snd (stream_run validateCompatibleChatChunk (map roTimedOut (take n (hvRounds env))) p)) (billed_complete s')" by blast
    from fs None obtain f where f: "fs = [f]" "event_frame (psFirstEvent p) = Inr f" by (cases fs) auto
    from wrote_first [OF f(2) n(2)] n(1) fs(1) f(1) show ?thesis by (intro exI [of _ n] exI [of _ "f # frames"]) simp
  qed
  moreover have "relay_stream sv env p c s w \<noteq> None" if "length (esBody (psStream p)) < length (hvRounds env)"
    using event_loop_ends [OF that] wr assms by (auto simp: relay_stream_def Let_def split: option.split prod.split)
  ultimately show ?thesis by blast
qed

section \<open>Witnesses\<close>

text \<open>A request for a model of one provider, answered by it and stored.\<close>

definition sample_round :: "string \<times> goerr option \<Rightarrow> chat_request attempt_env" where
  "sample_round answer = \<lparr>aeOthers = (\<lambda>k w. w), aeNowAllow = 1, aeQueue = example_queue_env, aeNowSelect = 2,
     aeCtxErr = None, aeNowClassify = 3, aeNowKey = 4, aeNowBreaker = 5, aeNowAttempt = 2, aeDuration = 7,
     aeComplete = (\<lambda>d input key. answer)\<rparr>"

definition sample_stream_round :: "chat_request stream_env" where
  "sample_stream_round = \<lparr>aeOthers = (\<lambda>k w. w), aeNowAllow = 1, aeQueue = example_queue_env, aeNowSelect = 2,
     aeCtxErr = None, aeNowClassify = 3, aeNowKey = 4, aeNowBreaker = 5, aeNowAttempt = 2, aeDuration = 7,
     seOpen = (\<lambda>input key. (Some (opened_stream (chat_frame ''{}'' @ chat_frame ''[DONE]'')), None)),
     seChoice = FirstResult None 3, seNowOpen = 4\<rparr>"

definition sample_router :: router where
  "sample_router = \<lparr>roProviders = [''acme'' \<mapsto> \<lparr>rtId = ''acme'', rtModels = [''gpt''], rtCapabilities = [''gpt'' \<mapsto> {''text''}]\<rparr>],
     roExact = [(''gpt'', [\<lparr>tgProviderID = ''acme'', tgUpstreamModel = []\<rparr>])], roDefault = None\<rparr>"

definition sample_runtime :: runtime where
  "sample_runtime = \<lparr>rtCacheNamespace = ''v1'', rtRoutes = sample_router, rtRetries = example_retries,
     rtAdapters = [''acme'' \<mapsto> (AuthenticationAPIKey, True)]\<rparr>"

definition sample_services :: "unit services" where
  "sample_services = \<lparr>hsHttpParseTime = (\<lambda>s. None), hsParseMediaType = (\<lambda>s. Some s), hsSetString = (\<lambda>s. None), hsQuota = None,
     hsQuote = sample_quote, hsLimiter = (\<lambda>t m. Inr \<lparr>ldAllowed = True, ldBypassed = True, ldLimit = 0, ldRemaining = 0, ldResetAtUnix = 0, ldRetryAfterSeconds = 0\<rparr>),
     hsLookup = (\<lambda>n t m b. Inr \<lparr>caStatus = StatusMiss, caBody = []\<rparr>), hsStore = (\<lambda>n t m b r. None), hsProtocol = None\<rparr>"

definition sample_write :: write_env where
  "sample_write = \<lparr>weDeadline = DeadlineSet, weWriter = (\<lambda>f. (int (length f), None)), weFlush = None, weClear = DeadlineSet\<rparr>"

definition chat_sample_body :: string where
  "chat_sample_body = quoted ''{`model`:`gpt`,`messages`:[{`role`:`user`,`content`:`u`}]}''"

definition sample_chat_env :: "unit chat_env" where
  "sample_chat_env = \<lparr>hvContentType = ''application/json'', hvBody = chat_sample_body, hvBodyErr = False, hvCacheControl = [],
     hvIdentity = Some \<lparr>idTenantID = ''t'', idAPIKeyID = ''k'', idKeyPrefix = ''p'', idAuthorization = Some [''*'']\<rparr>,
     hvRandom = Some (replicate 16 (CHR 0x00)), hvNowBegin = 1, hvBegin = (\<lambda>p. None), hvCtxErr = (\<lambda>st. None), hvRuntime = Some sample_runtime,
     hvReserveNow = 2, hvReserveRandom = (\<lambda>n. None), hvReserveFault = None, hvParent = None, hvNowExecute = 0,
     hvAttempts = [\<lparr>ceRounds = [(sample_round (''{}'', None), example_wait 10)], ceCtxErr = None, ceNow = 11\<rparr>],
     hvStreams = [\<lparr>ceRounds = [(sample_stream_round, example_wait 10)], ceCtxErr = None, ceNow = 11\<rparr>],
     hvFlusher = True, hvProtocolState = (), hvNowFirst = 3, hvClear = DeadlineSet, hvFirst = sample_write, hvOthers = (\<lambda>w. w),
     hvFinish = example_finish, hvRounds = [],
     hvEnd = \<lparr>enCtxErr = None, enNow = 5, enQuotaOthers = (\<lambda>m. m), enSettleNow = 6, enSettleFault = None\<rparr>\<rparr>"

definition sample_ctx :: http_ctx where
  "sample_ctx = \<lparr>hcAnthropic = False, hcRequestID = ''r1'', hcErrorCode = [], hcHeaders = [], hcReplies = [], hcFrames = []\<rparr>"

definition sample_gateway :: gateway where
  "sample_gateway = \<lparr>gwWorld = example_world, gwQuota = sample_reserved, gwEmitted = [], gwStored = []\<rparr>"


definition sample_ident :: identity where
  "sample_ident = \<lparr>idTenantID = ''t'', idAPIKeyID = ''k'', idKeyPrefix = ''p'', idAuthorization = Some [''*'']\<rparr>"

definition sample_req :: chat_request where
  "sample_req = (case ParseChatRequest chat_sample_body of Returns (Inr req) \<Rightarrow> req | _ \<Rightarrow> request_zero)"

lemma sample_req_facts:
  "(case ParseChatRequest chat_sample_body of Returns (Inr req) \<Rightarrow> True | _ \<Rightarrow> False) \<and> trim_space (crModel sample_req) = ''gpt'' \<and>
   \<not> crStream sample_req \<and> RequiredCapabilities sample_req = Inr [CapabilityText] \<and> validateChatRequest sample_req = None"
  by code_simp

lemma sample_parsed: "ParseChatRequest chat_sample_body = Returns (Inr sample_req)"
  using sample_req_facts by (auto simp: sample_req_def split: ChatRequest.outcome.split_asm sum.split_asm)

definition sample_session :: usage_session where
  "sample_session = \<lparr>usCollector = \<lparr>coEvent = event_zero\<lparr>ueSchemaVersion := 2, ueEventID := CHR ''u'' # CHR ''s'' # CHR ''e'' # CHR ''_'' # replicate 32 (CHR ''0''),
       ueRequestID := ''r1'', ueTenantID := ''t'', ueAPIKeyID := ''k'', ueRequestedModel := ''gpt'', ueCacheStatus := ''bypass'', ueStream := False,
       ueUsageSource := ''unknown'', ueStartedAt := 1\<rparr>, coFinalized = False\<rparr>, usEvent = event_zero, usReady = False,
     usEventID = CHR ''u'' # CHR ''s'' # CHR ''e'' # CHR ''_'' # replicate 32 (CHR ''0''), usQuota = False, usReservationID = []\<rparr>"

lemma sample_session_new:
  "newUsageSession (Some (replicate 16 (CHR 0x00))) 1 (\<lambda>p. None) ''r1'' ''t'' ''k'' ''gpt'' False = Inr sample_session"
  unfolding newUsageSession_def sample_session_def by code_simp

definition sample_plan :: plan where
  "sample_plan = \<lparr>plRequestedModel = ''gpt'', plCandidates = [\<lparr>caProviderID = ''acme'', caUpstreamModel = ''gpt'', caPriority = 0\<rparr>]\<rparr>"

lemma sample_planned: "Plan sample_router ''gpt'' [CapabilityText] = Inr sample_plan"
  unfolding sample_plan_def by code_simp

lemma sample_executed:
  "case orchestrator_Execute (\<lambda>s. None) (\<lambda>p. map_option fst (rtAdapters sample_runtime p)) example_retries
     \<lparr>exRequestID = ''r1'', exRequest = sample_req, exPlan = sample_plan\<rparr> None 0
     [\<lparr>ceRounds = [(sample_round (''{}'', None), example_wait 10)], ceCtxErr = None, ceNow = 11\<rparr>] example_world of
     Some (w, Inr e) \<Rightarrow> erBody e = ''{}'' \<and> erFallbacks e = 0 | _ \<Rightarrow> False"
  by code_simp

lemma sample_names: "trim_space ''gpt'' = ''gpt''" "trim_space ''t'' = ''t''" "trim_space ''v1'' = ''v1''" by code_simp+

lemma sample_sel:
  "hsQuota sample_services = None" "hsLookup sample_services n t m b = Inr \<lparr>caStatus = StatusMiss, caBody = []\<rparr>"
  "hsHttpParseTime sample_services = (\<lambda>s. None)" "hsStore sample_services n t m b r = None" "hsProtocol sample_services = None"
  "hvCacheControl sample_chat_env = []" "hvCtxErr sample_chat_env st = None" "hvParent sample_chat_env = None" "hvNowExecute sample_chat_env = 0"
  "hvAttempts sample_chat_env = [\<lparr>ceRounds = [(sample_round (''{}'', None), example_wait 10)], ceCtxErr = None, ceNow = 11\<rparr>]"
  "hvBody sample_chat_env = chat_sample_body" "\<not> hvBodyErr sample_chat_env" "hvIdentity sample_chat_env = Some sample_ident"
  "rtCacheNamespace sample_runtime = ''v1''" "rtRetries sample_runtime = example_retries" "idTenantID sample_ident = ''t''"
  "gwWorld sample_gateway = example_world" "hcRequestID sample_ctx = ''r1''"
  by (simp_all add: sample_services_def sample_chat_env_def sample_runtime_def sample_ident_def sample_gateway_def sample_ctx_def)

lemma sample_admitted:
  assumes "hsQuota sv = None" "hsLimiter sv = hsLimiter sample_services"
  shows "admitted sv sample_chat_env sample_ident sample_req sample_ctx sample_session sample_gateway sample_runtime sample_plan
     (set_header ''X-RateLimit-Status'' ''bypassed'' sample_ctx) sample_session sample_gateway"
  using assms sample_req_facts sample_planned
  by (simp add: admitted_def sample_services_def sample_chat_env_def sample_runtime_def AuthorizeModel_def sample_ident_def sample_names
      writeRateLimitHeaders_def reserveQuota_def)

lemma sample_handled:
  "\<exists>c' g'. chat_complete sample_services sample_chat_env sample_ctx sample_gateway = Handled c' g' \<and>
     replied_ok sample_ctx c' \<and> gwStored g' \<noteq> gwStored sample_gateway"
proof -
  obtain w e where run: "orchestrator_Execute (\<lambda>s. None) (\<lambda>p. map_option fst (rtAdapters sample_runtime p)) example_retries
     \<lparr>exRequestID = ''r1'', exRequest = sample_req, exPlan = sample_plan\<rparr> None 0
     [\<lparr>ceRounds = [(sample_round (''{}'', None), example_wait 10)], ceCtxErr = None, ceNow = 11\<rparr>] example_world = Some (w, Inr e)"
    and e: "erBody e = ''{}''" "erFallbacks e = 0"
    using sample_executed by (auto split: option.split_asm prod.split_asm sum.split_asm)
  have serve: "chat_serve sample_services sample_chat_env sample_ident (trim_space (crModel sample_req)) sample_req sample_ctx sample_session sample_gateway =
      Some (answer_executed sample_services sample_chat_env ''v1'' ''t'' ''gpt'' \<lparr>caStatus = StatusMiss, caBody = []\<rparr> e
        (set_header ''X-RateLimit-Status'' ''bypassed'' sample_ctx) (setCacheStatus StatusMiss sample_session) (sample_gateway\<lparr>gwWorld := w\<rparr>))"
    unfolding admitted_run [OF sample_admitted [OF sample_sel(1) refl]] using run sample_req_facts
    by (simp add: chat_respond_def lookup_cache_def requestBypassesResponseCache_def sample_sel sample_names cache_words)
  obtain c1 s1 g1 where out: "answer_executed sample_services sample_chat_env ''v1'' ''t'' ''gpt'' \<lparr>caStatus = StatusMiss, caBody = []\<rparr> e
        (set_header ''X-RateLimit-Status'' ''bypassed'' sample_ctx) (setCacheStatus StatusMiss sample_session) (sample_gateway\<lparr>gwWorld := w\<rparr>) = (c1, s1, g1)"
    using prod_cases3 by blast
  then have "replied_ok sample_ctx c1" "gwStored g1 \<noteq> gwStored sample_gateway"
    using e by (auto simp: answer_executed_def store_response_def sample_sel encodeProtocolResponse_def Let_def replied_ok_def cache_words)
  moreover have "gwStored (session_finish (hsQuote sample_services) (hvEnd sample_chat_env) c1 s1 g1) = gwStored g1"
    by (simp add: session_finish_def Let_def split: prod.split)
  moreover have "chat_complete sample_services sample_chat_env sample_ctx sample_gateway =
      Handled c1 (session_finish (hsQuote sample_services) (hvEnd sample_chat_env) c1 s1 g1)"
  proof -
    have "int (length chat_sample_body) \<le> maxChatRequestBodyBytes" by code_simp
    moreover have "hasJSONContentType (hsParseMediaType sample_services) (hvContentType sample_chat_env)"
      by (simp add: hasJSONContentType_def sample_services_def sample_chat_env_def)
    moreover have "newUsageSession (hvRandom sample_chat_env) (hvNowBegin sample_chat_env) (hvBegin sample_chat_env) (hcRequestID sample_ctx)
       (idTenantID sample_ident) (idAPIKeyID sample_ident) (trim_space (crModel sample_req)) (crStream sample_req) = Inr sample_session"
      using sample_session_new sample_req_facts by (simp add: sample_chat_env_def sample_ctx_def sample_ident_def)
    ultimately show ?thesis using serve out sample_req_facts
      by (simp add: chat_complete_def chat_session_def sample_parsed sample_sel)
  qed
  ultimately show ?thesis by auto
qed



theorem chat_leaves_no_slot_witness:
  "\<exists>c' g'. chat_complete sample_services sample_chat_env sample_ctx sample_gateway = Handled c' g' \<and>
     world_ok (gwWorld g') \<and> slots_held ''acme'' (gwWorld g') = slots_held ''acme'' example_world"
proof -
  obtain c' g' where run: "chat_complete sample_services sample_chat_env sample_ctx sample_gateway = Handled c' g'"
    using sample_handled by blast
  have fair: "list_all rounds_fair (hvAttempts sample_chat_env)" "list_all rounds_quiet (hvAttempts sample_chat_env)"
    "list_all rounds_fair (hvStreams sample_chat_env)" "list_all rounds_quiet (hvStreams sample_chat_env)"
    by (simp_all add: sample_chat_env_def rounds_fair_def rounds_quiet_def sample_round_def sample_stream_round_def example_queue_env_def
        others_fair_def others_quiet_def queue_env_ok_def)
  have calm: "\<forall>r \<in> set (hvRounds sample_chat_env). calm_others (roOthers r)" "calm_others (hvOthers sample_chat_env)"
    by (simp_all add: sample_chat_env_def calm_others_def)
  from chat_leaves_no_slot [OF run _ fair calm, of "''acme''"] run example_world_ok show ?thesis by (auto simp: sample_sel)
qed

theorem chat_cache_policy_witness:
  "\<exists>c' g' entry. chat_complete sample_services sample_chat_env sample_ctx sample_gateway = Handled c' g' \<and>
     gwStored g' = gwStored sample_gateway @ [entry]"
proof -
  obtain c' g' where run: "chat_complete sample_services sample_chat_env sample_ctx sample_gateway = Handled c' g'" "gwStored g' \<noteq> gwStored sample_gateway"
    using sample_handled by blast
  from chat_cache_policy [OF run] run(1) show ?thesis by (elim exE conjE) (intro exI conjI)
qed

text \<open>The same request with a quota, answered from the cache.\<close>

definition quota_services :: "unit services" where
  "quota_services = sample_services\<lparr>hsQuota := Some sample_settings, hsLookup := (\<lambda>n t m b. Inr \<lparr>caStatus = StatusHit, caBody = ''{}''\<rparr>)\<rparr>"

definition quota_env :: "unit chat_env" where
  "quota_env = sample_chat_env\<lparr>hvEnd := (hvEnd sample_chat_env)\<lparr>enQuotaOthers := (\<lambda>m. sample_policy)\<rparr>\<rparr>"

definition quota_gateway :: gateway where
  "quota_gateway = sample_gateway\<lparr>gwQuota := sample_policy\<lparr>qmDB := (qmDB sample_policy)\<lparr>qdPolicies := []\<rparr>\<rparr>\<rparr>"

lemma quota_has: "HasPolicy (gwQuota quota_gateway) ''t'' ''gpt''"
proof -
  have "HasPolicy sample_policy ''t'' ''gpt''"
    using HasPolicy_iff [of sample_policy "''t''" "''gpt''"] quota_reachable_ok [OF sample_reachable(1)]
    by (simp add: quota_ok_def sample_names) (simp add: sample_policy_eq sample_row_def)
  then show ?thesis by (simp add: HasPolicy_def quota_gateway_def)
qed

lemma quota_reserve:
  "Reserve sample_settings sample_quote 2 (\<lambda>n. None) None \<lparr>riGroupID = usEventID sample_session, riTenantID = ''t'', riGatewayModel = ''gpt'',
     riEstimatedInputTokens = int (length chat_sample_body), riEstimatedOutputTokens = estimated_output sample_settings sample_req,
     riCandidates = plCandidates sample_plan\<rparr> (gwQuota quota_gateway) =
   (gwQuota quota_gateway, decision_zero\<lparr>deReservationID := usEventID sample_session\<rparr>, None)"
proof -
  have "trim_space (usEventID sample_session) = usEventID sample_session" "usEventID sample_session \<noteq> []" unfolding sample_session_def by code_simp+
  moreover have "estimated_output sample_settings sample_req = 4096" "int (length chat_sample_body) < 100" by code_simp+
  moreover from this have "quota_add (int (length chat_sample_body)) (estimated_output sample_settings sample_req) \<noteq> None"
    by (simp add: quota_add_def int64_max_def int64_min_def)
  moreover have "qdReservations (qmDB (gwQuota quota_gateway)) = []" "matching_policies (qmDB (gwQuota quota_gateway)) ''t'' ''gpt'' = []"
    by (simp_all add: quota_gateway_def sample_policy_eq matching_policies_def)
  ultimately show ?thesis
    by (auto simp: Reserve_def trimmed_input_def sample_names Let_def quota_has transaction_def reserve_body_def)
qed

lemma quota_admitted:
  "admitted quota_services quota_env sample_ident sample_req sample_ctx sample_session quota_gateway sample_runtime sample_plan
     (set_header ''X-RateLimit-Status'' ''bypassed'' sample_ctx) (attachQuota (usEventID sample_session) sample_session) quota_gateway"
proof -
  have "hsQuota quota_services = Some sample_settings" "hsQuote quota_services = sample_quote" "hvReserveNow quota_env = 2"
    "hvReserveRandom quota_env = (\<lambda>n. None)" "hvReserveFault quota_env = None" "hvBody quota_env = chat_sample_body"
    "idTenantID sample_ident = ''t''"
    by (simp_all add: quota_services_def quota_env_def sample_services_def sample_chat_env_def sample_ident_def)
  moreover have "hvRuntime quota_env = Some sample_runtime" "rtRoutes sample_runtime = sample_router"
    "AuthorizeModel (map_option (\<lambda>e. ErrContext []) (hvCtxErr quota_env AtAuthorize)) sample_ident ''gpt'' = None"
    "hsLimiter quota_services ''t'' ''gpt'' = Inr \<lparr>ldAllowed = True, ldBypassed = True, ldLimit = 0, ldRemaining = 0, ldResetAtUnix = 0, ldRetryAfterSeconds = 0\<rparr>"
    by (simp_all add: quota_env_def quota_services_def sample_chat_env_def sample_services_def sample_runtime_def AuthorizeModel_def sample_ident_def sample_names)
  ultimately show ?thesis
    using sample_req_facts sample_planned quota_reserve quota_has
    by (auto simp: admitted_def reserveQuota_def writeRateLimitHeaders_def quota_warning_def decision_zero_def)
qed

lemma quota_session_new:
  assumes "hvRandom env = hvRandom sample_chat_env" "hvNowBegin env = hvNowBegin sample_chat_env" "hvBegin env = hvBegin sample_chat_env"
  shows "newUsageSession (hvRandom env) (hvNowBegin env) (hvBegin env) (hcRequestID sample_ctx)
       (idTenantID sample_ident) (idAPIKeyID sample_ident) (trim_space (crModel sample_req)) (crStream sample_req) = Inr sample_session"
  using assms sample_session_new sample_req_facts by (simp add: sample_chat_env_def sample_ctx_def sample_ident_def)

lemma hit_handled:
  assumes "admitted sv env sample_ident sample_req sample_ctx sample_session g sample_runtime sample_plan c1 s1 g1"
    and "lookup_cache sv env ''v1'' ''t'' ''gpt'' = Some result" "caStatus result = StatusHit"
    and "hvRandom env = hvRandom sample_chat_env" "hvNowBegin env = hvNowBegin sample_chat_env" "hvBegin env = hvBegin sample_chat_env"
  shows "\<exists>c' g'. chat_session sv env sample_ident sample_req sample_ctx g = Handled c' g'"
  unfolding chat_session_def Let_def quota_session_new [OF assms(4-6)] sum.case admitted_run [OF assms(1)]
  using assms(2,3) sample_req_facts by (simp add: chat_respond_def sample_sel sample_names split: prod.split)

theorem chat_settles_quota_witness:
  "\<exists>c' g' e. chat_session quota_services quota_env sample_ident sample_req sample_ctx quota_gateway = Handled c' g' \<and>
     gwQuota g' = fst (Settle sample_quote 6 None (usEventID sample_session) e sample_policy)"
proof -
  have sel: "hvRandom quota_env = hvRandom sample_chat_env" "hvNowBegin quota_env = hvNowBegin sample_chat_env" "hvBegin quota_env = hvBegin sample_chat_env"
    by (simp_all add: quota_env_def)
  have "lookup_cache quota_services quota_env ''v1'' ''t'' ''gpt'' = Some \<lparr>caStatus = StatusHit, caBody = ''{}''\<rparr>"
    by (simp add: lookup_cache_def requestBypassesResponseCache_def quota_services_def quota_env_def sample_chat_env_def)
  from hit_handled [OF quota_admitted this _ sel] obtain c' g' where
    run: "chat_session quota_services quota_env sample_ident sample_req sample_ctx quota_gateway = Handled c' g'" by auto
  have id: "usReservationID (attachQuota (usEventID sample_session) sample_session) = usEventID sample_session"
    "usEventID sample_session \<noteq> []" unfolding sample_session_def by code_simp+
  have others: "enQuotaOthers (hvEnd quota_env) m = sample_policy" "enSettleNow (hvEnd quota_env) = 6" "enSettleFault (hvEnd quota_env) = None"
    "hsQuote quota_services = sample_quote" for m
    by (simp_all add: quota_env_def sample_chat_env_def quota_services_def sample_services_def)
  have "quota_reachable sample_settings (\<lambda>_. None) sample_quote (enQuotaOthers (hvEnd quota_env) (gwQuota quota_gateway))"
    using sample_reachable(1) by (simp add: others)
  from chat_settles_quota [OF run quota_session_new [OF sel] quota_admitted _ this] id run show ?thesis by (auto simp: others)
qed

text \<open>The same hit for a client whose protocol cannot represent it.\<close>

definition strict_services :: "unit services" where
  "strict_services = sample_services\<lparr>hsLookup := (\<lambda>n t m b. Inr \<lparr>caStatus = StatusHit, caBody = ''{}''\<rparr>),
     hsProtocol := Some \<lparr>prEncodeResponse = (\<lambda>b. Inl (ErrNew ''no output'')), prWriteStream = (\<lambda>p w ev. (p, [], None))\<rparr>\<rparr>"

theorem chat_cached_encoding_failure_unbilled_witness:
  "\<exists>c' g' e. chat_session strict_services sample_chat_env sample_ident sample_req sample_ctx sample_gateway = Handled c' g' \<and>
     gwEmitted g' = gwEmitted sample_gateway @ [e] \<and> event_Validate e \<noteq> None"
proof -
  let ?result = "\<lparr>caStatus = StatusHit, caBody = ''{}''\<rparr>"
  have adm: "admitted strict_services sample_chat_env sample_ident sample_req sample_ctx sample_session sample_gateway sample_runtime sample_plan
     (set_header ''X-RateLimit-Status'' ''bypassed'' sample_ctx) sample_session sample_gateway"
    by (rule sample_admitted) (simp_all add: strict_services_def sample_sel)
  have hit: "lookup_cache strict_services sample_chat_env ''v1'' ''t'' ''gpt'' = Some ?result"
    by (simp add: lookup_cache_def requestBypassesResponseCache_def strict_services_def sample_sel)
  from hit_handled [OF adm hit] obtain c' g' where
    run: "chat_session strict_services sample_chat_env sample_ident sample_req sample_ctx sample_gateway = Handled c' g'" by auto
  have lookup: "lookup_cache strict_services sample_chat_env (trim_space (rtCacheNamespace sample_runtime)) (idTenantID sample_ident)
      (trim_space (crModel sample_req)) = Some ?result"
    using hit sample_req_facts by (simp add: sample_sel sample_names)
  have "encodeProtocolResponse (hsProtocol strict_services) (caBody ?result) = Inl (ErrNew ''no output'')"
    by (simp add: encodeProtocolResponse_def strict_services_def)
  from chat_cached_encoding_failure_unbilled [OF run quota_session_new [OF refl refl refl] adm _ lookup _ this] sample_req_facts run
  show ?thesis by (elim exE conjE) auto
qed

definition sample_stream_env :: "unit chat_env" where
  "sample_stream_env = sample_chat_env\<lparr>hvRounds := [\<lparr>roTimedOut = False, roOthers = (\<lambda>w. w), roNow = 4, roWrite = sample_write, roCtxErr = None,
     roNowClassify = 4, roFinish = example_finish\<rparr>]\<rparr>"

definition drained :: prepared_stream where
  "drained = example_prepared\<lparr>psStream := opened_stream []\<rparr>"

theorem chat_stream_delivers_witness:
  "\<exists>out. relay_stream sample_services sample_stream_env drained sample_ctx sample_session example_world = Some out"
proof -
  have "hsProtocol sample_services = None" "fresh_session sample_session" "hvCtxErr sample_stream_env AtStream = None"
    "setChatStreamWriteDeadline (hvClear sample_stream_env) = None"
    by (simp_all add: sample_sel fresh_session_def sample_session_def sample_stream_env_def sample_chat_env_def setChatStreamWriteDeadline_def)
  from chat_stream_delivers [OF this, of drained sample_ctx example_world] show ?thesis
    by (simp add: drained_def opened_stream_def sample_stream_env_def)
qed

end
