(* ===== verification/Spec2Isabelle.thy ===== *)
theory Spec2Isabelle
  imports StreamAttempt ChunkCheck Collector QuotaRuns AuthRuns CompatBody AnthropicProps ChatProps
begin

text \<open>
  Verification of Model-Velo, a gateway that serves the chat requests of many tenants from several model
  providers. A request carries an API key and names a model. The gateway authenticates the key, checks
  that its tenant may use the model, asks the rate limiter, plans a route (candidates of provider and
  upstream model), reserves the cost against the tenant's quota, and looks for a cached response.
  Otherwise the orchestrator tries the candidates in order until one succeeds: for each, the attempt
  executor asks the provider's circuit breaker, waits in its queue, picks one of its API keys, calls the
  adapter, reports the outcome back to key, breaker and queue, and decides from the classified failure
  whether to retry, to switch keys, or to let the orchestrator fall back. An adapter translates between
  the client's protocol and the vendor's. A stream goes the same way until its first content event; then
  permit, lease and key belong to the stream and are returned when it is finished. Every request ends
  with one usage event, which is priced and settles the reservation.

  \<^bold>\<open>The language and its library\<close>

  \<^item> \<open>GoPrelude\<close>, \<open>GoFloat\<close>: \<open>int64\<close> wrap-around and durations in nanoseconds,
    \<open>time.Time.Sub\<close> with its saturation, \<open>strings.TrimSpace\<close> and \<open>strings.ToLower\<close> on UTF-8
    bytes, \<open>strconv.ParseUint\<close>, and float64 arithmetic as exact rational arithmetic followed by rounding
    to nearest, ties to even; \<open>GoFloatText\<close>: how a float64 is written.
  \<^item> \<open>GoJson\<close>, \<open>JsonDecode\<close>, \<open>JsonString\<close>, \<open>JsonEncode\<close>, \<open>JsonText\<close>: \<open>encoding/json\<close>
    over bytes: its grammar, the rules by which \<open>Unmarshal\<close> fills structs, slices and maps, what
    \<open>Marshal\<close> writes, and that what was written is read back.
  \<^item> \<open>GoCrypto\<close>: SHA-256, HMAC and URL-safe base64.

  \<^bold>\<open>Reliability, in the order of the calls\<close> (\<open>src/internal/reliability\<close>)

  \<^item> \<open>Failure\<close> (\<open>failure.go\<close>, \<open>internal/provider/errors.go\<close>): failures, error chains with
    \<open>errors.Is\<close> and \<open>errors.As\<close>, \<open>SignalsFor\<close>, \<open>FromProvider\<close> and the \<open>Retry-After\<close> header. Shown:
    the reaction to every HTTP status, the bounds of a cooldown, and that an ended request blames nobody.
  \<^item> \<open>Registry\<close>: the loop by which the retry, breaker and queue registries are built, with the
    locale \<open>provider_registry\<close> each of them interprets.
  \<^item> \<open>Retry\<close> (\<open>retry.go\<close>, \<open>retry_registry.go\<close>): the bound of the back-off and its exact value without
    jitter, in the float64 arithmetic of the code.
  \<^item> \<open>Breaker\<close> (\<open>breaker.go\<close>, \<open>breaker_registry.go\<close>): the state machine with its generation
    counter and permits. The mutex makes every operation one step; properties range over
    arbitrary sequences of calls by concurrent callers.
  \<^item> \<open>Queue\<close> (\<open>queue.go\<close>): the bounded queue of a provider, both as the operations the executor
    calls and as an inductive step relation over the atomic channel and counter operations of
    many goroutines, with a refinement between the two and the locale \<open>lease_pool\<close>.
  \<^item> \<open>KeySelector\<close> (\<open>keyselector.go\<close>): rotation, cooldown, disabling and versioned completion of
    the provider keys.
  \<^item> \<open>Routing\<close> (\<open>internal/routing/router.go\<close>, \<open>internal/provider/capability.go\<close>): validation of
    the route definition and planning.
  \<^item> \<open>Attempt\<close> (\<open>attempt.go\<close>): the shared state \<open>world\<close> of all registries, \<open>executeOnce\<close>,
    and the retry loop, generic in the single attempt because \<open>stream_attempt.go\<close> repeats it.
    The locale \<open>attempt_round\<close> states what the loop needs of one attempt; it is interpreted on
    \<open>executeOnce\<close> here and on \<open>prepareStreamOnce\<close> in \<open>StreamAttempt\<close>.
  \<^item> \<open>Orchestrator\<close> (\<open>orchestrator.go\<close>): the loop over the candidates, generic in the same way
    with the locale \<open>candidate_attempt\<close>, and \<open>Execute\<close>.
  \<^item> \<open>EventStream\<close> (\<open>internal/provider/stream.go\<close>): the reader of server-sent events; \<open>ChunkCheck\<close>: the
    check of each chunk and the frame the gateway writes, with the round trip through both.
  \<^item> \<open>StreamAttempt\<close> (\<open>stream_attempt.go\<close>, \<open>OpenStream\<close> of \<open>orchestrator.go\<close>): opening a stream,
    reading it, finishing and aborting it; permit, lease and key are returned exactly once.

  \<^bold>\<open>Protocols\<close> (\<open>src/internal/provider\<close>)

  \<^item> \<open>ChatContent\<close>, \<open>ChatRequest\<close>, \<open>CompatBody\<close>, \<open>Completion\<close> (\<open>chat_content.go\<close>,
    \<open>chat_request.go\<close>, \<open>chat_tools.go\<close>, \<open>chat_completion.go\<close>): parsing and checking a chat request,
    the body forwarded to a compatible provider, and the completion a native adapter answers with. Shown:
    an accepted request is well typed, forwarding changes nothing but the model and the stream options, and
    a completion is decoded to what was encoded.
  \<^item> \<open>StreamChunk\<close>, \<open>NativeStream\<close> (\<open>native_stream.go\<close>): the goroutine that turns a vendor's stream
    into chat chunks. The locale \<open>stream_mapper\<close> states what it needs of a protocol's mapper.
  \<^item> \<open>Anthropic\<close>, \<open>AnthropicProps\<close> (\<open>anthropic.go\<close>): the Messages API; its mapper interprets
    \<open>stream_mapper\<close>. Shown: request and response are translated faithfully, the client's stream is the
    translation of the vendor's events, and concurrent tool calls keep apart.

  \<^bold>\<open>Tenants, keys, usage and quota\<close>

  \<^item> \<open>ApiToken\<close>, \<open>AuthCache\<close>, \<open>AuthStore\<close>, \<open>ApiKeys\<close>, \<open>AuthRuns\<close> (\<open>internal/apikey\<close>): the text of
    a key, the LRU cache as addresses, list and indices (refining a plain list), the two-level credential
    store, the service and its administration, and the interleavings of loads, changes and
    invalidations: an issued key authenticates, and a revoked one is refused from the invalidation on.
  \<^item> \<open>UsageEvent\<close>, \<open>UsageMetadata\<close>, \<open>Collector\<close>, \<open>Pricing\<close> (\<open>internal/usage\<close>): the event a request is
    accounted with, read from the provider's response, collected in any order of calls, and priced
    with a bound on the rounding.
  \<^item> \<open>Quota\<close>, \<open>QuotaLedger\<close>, \<open>QuotaRuns\<close> (\<open>internal/quota\<close>): policies and their index, reserving,
    settling and reaping over the tables. The locale \<open>reservation_pass\<close> carries the bookkeeping of
    settling and of reaping. Shown over all runs: the counters of a window are the sums over its
    reservations, and a reservation is admitted only within the limits.

  \<^bold>\<open>The endpoint\<close> (\<open>src/internal/httpapi\<close>)

  \<^item> \<open>UsageSession\<close>, \<open>ChatHandler\<close>, \<open>ChatProps\<close> (\<open>chat.go\<close>, \<open>usage.go\<close>, \<open>errors.go\<close>,
    \<open>protocol.go\<close>): one chat request from its body to its reply, composing the models above. Shown: it is
    billed once and as the client saw it, nothing is called before every gate has let it
    pass, no slot and no reservation is left behind, only first-choice misses are cached, and a stream
    delivers the events that were read, in order.

  \<^bold>\<open>State, effects and concurrency\<close>

  Operations take and return the state explicitly. What a call meets from outside is an
  argument: clock readings, \<open>ctx.Err()\<close> at the points where the code asks, the case a \<open>select\<close>
  took, the random draw, the answer of the adapter (as a function of the input and key it is
  handed), and the effect of other requests on the shared state between two atomic
  operations (\<open>aeOthers\<close>, \<open>ldOthers\<close>). Theorems quantify over all of them; where they need something of
  the other requests it is a named hypothesis (\<open>others_fair\<close>: the others keep the invariants and
  give back only their own slots; \<open>others_quiet\<close>: there are none). A database transaction is one step
  that either commits or is undone by a fault; Redis is an argument for what it answers and a log of what it
  was sent. Code outside the repository is a parameter: \<open>http.ParseTime\<close>,
  \<open>mime.ParseMediaType\<close>, \<open>big.Rat.SetString\<close>, \<open>time.Parse\<close>, the HTTP transport and the decoder of
  AWS event streams. The rate limiter, the response cache and the usage emitter are Go interfaces of the chat
  endpoint and parameters of its model.

  \<^bold>\<open>Bounds\<close>

  The loops over attempts and candidates may run as long as their environment does, so they
  take one environment per round and yield \<open>None\<close> when the list runs out. That a list is long
  enough is proved, not assumed: \<open>rounds_needed\<close> is the number of attempts left plus the
  nanoseconds until the deadline, and the termination theorems of \<open>Attempt\<close> and
  \<open>Orchestrator\<close> show that more rounds than this reach a result. The loop of a native stream takes one
  round per event, and one more than the bytes of the upstream body always suffices. The loop
  of the chat stream takes one environment per event it reads. All other functions are total.
  Properties that count calls assume fewer than \<open>2 ^ 64\<close> of them, so that a \<open>uint64\<close> counter has
  not wrapped; everything else holds with the wrap-around.

  \<^bold>\<open>Not modelled\<close>

  The adapters of the other vendors (Gemini, Bedrock, Cohere, Ollama, DashScope, Azure, Cloudflare), the calls of
  the compatible adapter around the modelled bodies, and the embedding requests; the HTTP transport; the Responses, Messages, embeddings and administration endpoints
  and the authentication middleware; the Redis script of the rate limiter and the keys of the response
  cache; the delivery of usage events through outbox and Kafka and their queries; the control plane with its
  configuration documents; administration sessions; configuration loading, database and Redis
  clients and the commands. Tracing spans, metrics and log output are left out, as are nil receivers
  and the nil checks of constructors, which the wiring in \<open>cmd\<close> excludes.
\<close>

end
